(* ===== verification/Prelude.thy ===== *)
theory Prelude
  imports Main "HOL-Library.Word" "HOL-Library.Sublist"
begin

text \<open>
  Shared vocabulary of the development: JavaScript strings and numbers as far as the program
  uses them, Node's hexadecimal codec, errors and promises as values, and the
  interfaces (locales) that every event-driven component satisfies.

  A JavaScript string is a \<^typ>\<open>string\<close> that holds its UTF-8 bytes, one \<^typ>\<open>char\<close> per
  byte; a Node \<^verbatim>\<open>Buffer\<close> is a list of \<^typ>\<open>8 word\<close>. White space and letter case are
  those of ASCII.
\<close>

named_theorems promise_simps \<open>evaluation rules of the promise combinators\<close>
named_theorems chunk_simps \<open>facts that make an incremental reader independent of chunking\<close>

section \<open>Bytes\<close>

type_synonym byte = "8 word"
type_synonym bytes = "byte list"

definition utf8_bytes :: "string \<Rightarrow> bytes" where
  "utf8_bytes s = map of_char s"

definition utf8_string :: "bytes \<Rightarrow> string" where
  "utf8_string bs = map (\<lambda>b. char_of (unat b)) bs"

lemma unat_byte_of_nat: "unat (of_nat n :: byte) = n mod 256"
  by (simp add: unat_of_nat)

lemma of_char_below: "(of_char c :: nat) < 256"
proof -
  have "(of_char c :: nat) = of_char c mod 256" by simp
  then show ?thesis by (metis mod_less_divisor zero_less_numeral)
qed

lemma of_char_byte: "char_of (unat (of_char c :: byte)) = c"
proof -
  have "unat (of_char c :: byte) = of_char c mod 256"
    by (metis of_nat_of_char unat_byte_of_nat)
  then show ?thesis by simp
qed

lemma utf8_string_bytes [simp]: "utf8_string (utf8_bytes s) = s"
  by (simp add: utf8_string_def utf8_bytes_def comp_def of_char_byte)

lemma length_utf8_bytes [simp]: "length (utf8_bytes s) = length s"
  by (simp add: utf8_bytes_def)

text \<open>Big-endian integers, as \<^verbatim>\<open>writeUInt16BE\<close>, \<^verbatim>\<open>writeUInt32BE\<close>, \<^verbatim>\<open>readUInt32BE\<close>.\<close>

definition be16 :: "nat \<Rightarrow> bytes" where
  "be16 n = [of_nat (n div 256), of_nat n]"

definition be32 :: "nat \<Rightarrow> bytes" where
  "be32 n = [of_nat (n div 16777216), of_nat (n div 65536), of_nat (n div 256), of_nat n]"

definition read_be16 :: "bytes \<Rightarrow> nat" where
  "read_be16 bs = unat (bs ! 0) * 256 + unat (bs ! 1)"

definition read_be32 :: "bytes \<Rightarrow> nat" where
  "read_be32 bs = unat (bs ! 0) * 16777216 + unat (bs ! 1) * 65536
                  + unat (bs ! 2) * 256 + unat (bs ! 3)"

lemma length_be [simp]: "length (be16 n) = 2" "length (be32 n) = 4"
  by (simp_all add: be16_def be32_def)

lemma read_be16_be16 [simp]: "n < 65536 \<Longrightarrow> read_be16 (be16 n @ r) = n"
  by (simp add: read_be16_def be16_def unat_byte_of_nat)

lemma base256_digits:
  "(n::nat) div 16777216 * 16777216 + n div 65536 mod 256 * 65536 + n div 256 mod 256 * 256
     + n mod 256 = n"
proof -
  have "n div 256 div 256 = n div 65536" "n div 65536 div 256 = n div 16777216"
    by (simp_all add: div_mult2_eq [symmetric])
  then show ?thesis
    using div_mult_mod_eq [of n 256] div_mult_mod_eq [of "n div 256" 256]
      div_mult_mod_eq [of "n div 65536" 256]
    by linarith
qed

lemma read_be32_be32 [simp]: "n < 4294967296 \<Longrightarrow> read_be32 (be32 n @ r) = n"
  by (simp add: read_be32_def be32_def unat_byte_of_nat base256_digits)

section \<open>Strings\<close>

text \<open>\<^verbatim>\<open>s.split(c)\<close> for a one-character separator: never the empty list.\<close>

fun js_split :: "char \<Rightarrow> string \<Rightarrow> string list" where
  "js_split c [] = [[]]"
| "js_split c (x # xs) =
     (if x = c then [] # js_split c xs
      else case js_split c xs of [] \<Rightarrow> [[x]] | h # t \<Rightarrow> (x # h) # t)"

text \<open>\<^verbatim>\<open>xs.join(sep)\<close>.\<close>

fun js_join :: "string \<Rightarrow> string list \<Rightarrow> string" where
  "js_join sep [] = []"
| "js_join sep [x] = x"
| "js_join sep (x # xs) = x @ sep @ js_join sep xs"

lemma js_split_ne [simp]: "js_split c s \<noteq> []"
  by (induction s) (auto split: list.splits)

lemma js_split_no_sep: "c \<notin> set s \<Longrightarrow> js_split c s = [s]"
  by (induction s) auto

lemma js_split_cons: "c \<notin> set a \<Longrightarrow> js_split c (a @ c # s) = a # js_split c s"
  by (induction a) auto

lemma js_join_cons: "xs \<noteq> [] \<Longrightarrow> js_join sep (x # xs) = x @ sep @ js_join sep xs"
  by (cases xs) auto

lemma js_join_split [simp]: "js_join [c] (js_split c s) = s"
proof (induction s)
  case Nil
  then show ?case by simp
next
  case (Cons x s)
  obtain h t where ht: "js_split c s = h # t" by (cases "js_split c s") auto
  have "js_join [c] ((x # h) # t) = x # js_join [c] (h # t)"
    by (cases t) auto
  with Cons ht show ?case by (simp add: js_join_cons)
qed

lemma js_split_sep_free: "l \<in> set (js_split c s) \<Longrightarrow> c \<notin> set l"
  by (induction s arbitrary: l) (auto split: list.splits if_splits)

lemma js_split_join:
  "xs \<noteq> [] \<Longrightarrow> (\<forall>x \<in> set xs. c \<notin> set x) \<Longrightarrow> js_split c (js_join [c] xs) = xs"
proof (induction xs)
  case Nil
  then show ?case by simp
next
  case (Cons x xs)
  show ?case
  proof (cases "xs = []")
    case True
    with Cons.prems show ?thesis by (simp add: js_split_no_sep)
  next
    case False
    with Cons show ?thesis by (simp add: js_join_cons js_split_cons)
  qed
qed

text \<open>Cutting at a separator: all complete pieces, and the last, still open one.\<close>

lemma js_split_append:
  "js_split c (s @ t) =
     butlast (js_split c s) @ (case js_split c t of h # r \<Rightarrow> (last (js_split c s) @ h) # r)"
proof (induction s)
  case Nil
  show ?case by (cases "js_split c t") auto
next
  case (Cons x s)
  obtain h r where hr: "js_split c t = h # r" by (cases "js_split c t") auto
  obtain h' r' where hr': "js_split c s = h' # r'" by (cases "js_split c s") auto
  show ?case
    using Cons hr hr' by (cases r') (auto split: list.splits)
qed

lemma last_split_open: "c \<notin> set (last (js_split c s))"
  using js_split_sep_free last_in_set js_split_ne by metis

text \<open>A reader may keep only the last piece of what it has read.\<close>

lemma js_split_last: "js_split c (s @ t) = butlast (js_split c s) @ js_split c (last (js_split c s) @ t)"
proof -
  let ?l = "last (js_split c s)"
  have "c \<notin> set ?l" by (rule last_split_open)
  then have l: "js_split c ?l = [?l]" by (rule js_split_no_sep)
  have "js_split c (?l @ t) = (case js_split c t of h # r \<Rightarrow> (?l @ h) # r)"
    using js_split_append [of c ?l t] by (cases "js_split c t") (auto simp: l)
  then show ?thesis by (simp add: js_split_append)
qed

text \<open>\<^verbatim>\<open>indexOf\<close> and \<^verbatim>\<open>lastIndexOf\<close> of one character; \<^verbatim>\<open>-1\<close> is \<^term>\<open>None\<close>.\<close>

fun index_of :: "char \<Rightarrow> string \<Rightarrow> nat option" where
  "index_of c [] = None"
| "index_of c (x # xs) = (if x = c then Some 0 else map_option Suc (index_of c xs))"

fun last_index_of :: "char \<Rightarrow> string \<Rightarrow> nat option" where
  "last_index_of c [] = None"
| "last_index_of c (x # xs) =
     (case last_index_of c xs of
        Some i \<Rightarrow> Some (Suc i)
      | None \<Rightarrow> (if x = c then Some 0 else None))"

lemma index_of_None: "index_of c s = None \<longleftrightarrow> c \<notin> set s"
  by (induction s) auto

lemma index_of_absent [simp]: "c \<notin> set s \<Longrightarrow> index_of c s = None"
  by (simp add: index_of_None)

lemma index_of_append: "c \<notin> set a \<Longrightarrow> index_of c (a @ c # s) = Some (length a)"
  by (induction a) auto

lemma index_of_SomeD: "index_of c s = Some i \<Longrightarrow> i < length s \<and> s ! i = c \<and> c \<notin> set (take i s)"
proof (induction s arbitrary: i)
  case (Cons x s)
  then show ?case by (cases i) (auto split: if_splits)
qed simp

lemma last_index_of_None: "last_index_of c s = None \<longleftrightarrow> c \<notin> set s"
  by (induction s) (auto split: option.splits)

lemma last_index_of_absent [simp]: "c \<notin> set s \<Longrightarrow> last_index_of c s = None"
  by (simp add: last_index_of_None)

lemma last_index_of_append:
  "c \<notin> set s \<Longrightarrow> last_index_of c (a @ c # s) = Some (length a)"
  by (induction a) simp_all

lemma last_index_of_SomeD:
  "last_index_of c s = Some i \<Longrightarrow> i < length s \<and> s ! i = c \<and> c \<notin> set (drop (Suc i) s)"
proof (induction s arbitrary: i)
  case (Cons x s)
  then show ?case
    by (cases "last_index_of c s") (auto simp: last_index_of_None split: if_splits)
qed simp

text \<open>\<^verbatim>\<open>s.indexOf(pat)\<close> and \<^verbatim>\<open>s.includes(pat)\<close> for a string pattern.\<close>

fun find_sub :: "string \<Rightarrow> string \<Rightarrow> nat option" where
  "find_sub pat [] = (if pat = [] then Some 0 else None)"
| "find_sub pat (x # xs) =
     (if prefix pat (x # xs) then Some 0 else map_option Suc (find_sub pat xs))"

definition has_sub :: "string \<Rightarrow> string \<Rightarrow> bool" where
  "has_sub s pat = (find_sub pat s \<noteq> None)"

lemma sublist_left: "sublist x y \<Longrightarrow> sublist x (a @ y)"
  by (metis sublist_append_leftI sublist_order.order_trans)

lemma sublist_right: "sublist x y \<Longrightarrow> sublist x (y @ b)"
  by (metis sublist_append_rightI sublist_order.order_trans)

lemma sublist_inside: "sublist x y \<Longrightarrow> sublist x (a @ y @ b)"
  by (intro sublist_left sublist_right)

text \<open>White space and \<^verbatim>\<open>trim\<close>.\<close>

definition is_space :: "char \<Rightarrow> bool" where
  "is_space c = (of_char c \<in> {9, 10, 11, 12, 13, 32 :: nat})"

definition trim_start :: "string \<Rightarrow> string" where
  "trim_start s = dropWhile is_space s"

definition trim_end :: "string \<Rightarrow> string" where
  "trim_end s = rev (dropWhile is_space (rev s))"

definition trim :: "string \<Rightarrow> string" where
  "trim s = trim_end (trim_start s)"

text \<open>A string with no white space at either end is left as it is.\<close>

definition trimmed :: "string \<Rightarrow> bool" where
  "trimmed s = (s = [] \<or> (\<not> is_space (hd s) \<and> \<not> is_space (last s)))"

lemma trim_trimmed: "trimmed s \<Longrightarrow> trim s = s"
proof (cases "s = []")
  case False
  assume "trimmed s"
  with False have h: "\<not> is_space (hd s)" "\<not> is_space (last s)" by (auto simp: trimmed_def)
  from False h(1) have "dropWhile is_space s = s" by (cases s) auto
  moreover from False h(2) have "dropWhile is_space (rev s) = rev s"
    by (cases s rule: rev_cases) auto
  ultimately show ?thesis by (simp add: trim_def trim_start_def trim_end_def)
qed (simp add: trim_def trim_start_def trim_end_def)

lemma trim_Nil [simp]: "trim [] = []"
  by (simp add: trim_def trim_start_def trim_end_def)

lemma set_trim_subset: "set (trim s) \<subseteq> set s"
  unfolding trim_def trim_end_def trim_start_def
  by (metis set_dropWhileD set_rev subsetI)

lemma trim_no_space: "(\<forall>c \<in> set s. \<not> is_space c) \<Longrightarrow> trim s = s"
  by (rule trim_trimmed) (auto simp: trimmed_def)

lemma trimmed_trim: "trimmed (trim s)"
proof (cases "trim s = []")
  case False
  let ?a = "dropWhile is_space s"
  let ?b = "dropWhile is_space (rev ?a)"
  have b: "?b \<noteq> []" using False by (simp add: trim_def trim_end_def trim_start_def)
  then have a: "?a \<noteq> []" by (metis dropWhile.simps(1) rev.simps(1))
  have "\<not> is_space (hd ?b)" using b hd_dropWhile by blast
  moreover have "hd (rev ?b) = hd ?a"
  proof -
    obtain p where "rev ?a = p @ ?b" by (metis takeWhile_dropWhile_id)
    then have "?a = rev ?b @ rev p" by (metis rev_append rev_rev_ident)
    then show ?thesis using b by (metis hd_append2 rev_is_Nil_conv)
  qed
  moreover have "\<not> is_space (hd ?a)" using a hd_dropWhile by blast
  ultimately show ?thesis
    using b by (simp add: trimmed_def trim_def trim_end_def trim_start_def last_rev)
qed (simp add: trimmed_def)

lemma trim_snoc_space: "is_space c \<Longrightarrow> trim (l @ [c]) = trim l"
  by (cases "\<forall>x \<in> set l. is_space x")
    (auto simp: trim_def trim_start_def trim_end_def dropWhile_append dest: set_dropWhileD)

text \<open>Lower case.\<close>

definition lower_char :: "char \<Rightarrow> char" where
  "lower_char c = (if 65 \<le> (of_char c :: nat) \<and> of_char c \<le> (90 :: nat)
                   then char_of (of_char c + 32 :: nat) else c)"

definition to_lower :: "string \<Rightarrow> string" where
  "to_lower s = map lower_char s"

text \<open>Strings that may be absent: \<^verbatim>\<open>if (s)\<close> is false for \<^verbatim>\<open>undefined\<close> and \<^verbatim>\<open>""\<close>.\<close>

definition truthy :: "string option \<Rightarrow> bool" where
  "truthy s = (case s of None \<Rightarrow> False | Some t \<Rightarrow> t \<noteq> [])"

text \<open>\<^verbatim>\<open>a || b\<close> on strings, \<^verbatim>\<open>a ?? b\<close> on optional values.\<close>

definition or_else :: "string \<Rightarrow> string \<Rightarrow> string" where
  "or_else a b = (if a = [] then b else a)"

definition nullish :: "'a option \<Rightarrow> 'a \<Rightarrow> 'a" where
  "nullish a b = (case a of None \<Rightarrow> b | Some x \<Rightarrow> x)"

lemma nullish_simps [simp]: "nullish None b = b" "nullish (Some a) b = a"
  by (simp_all add: nullish_def)

lemma truthy_simps [simp]: "\<not> truthy None" "truthy (Some s) \<longleftrightarrow> s \<noteq> []"
  by (simp_all add: truthy_def)

text \<open>A JavaScript \<^verbatim>\<open>Set\<close> is a list without repetition, in order of insertion.\<close>

definition set_add :: "'a \<Rightarrow> 'a list \<Rightarrow> 'a list" where
  "set_add x xs = (if x \<in> set xs then xs else xs @ [x])"

definition js_set :: "'a list \<Rightarrow> 'a list" where
  "js_set xs = fold set_add xs []"

lemma set_set_add [simp]: "set (set_add x xs) = insert x (set xs)"
  by (auto simp: set_add_def)

lemma distinct_set_add: "distinct xs \<Longrightarrow> distinct (set_add x xs)"
  by (simp add: set_add_def)

lemma fold_set_add: "distinct acc \<Longrightarrow> distinct (fold set_add xs acc) \<and> set (fold set_add xs acc) = set xs \<union> set acc"
  by (induction xs arbitrary: acc) (auto simp: distinct_set_add)

lemma js_set [simp]: "distinct (js_set xs)" "set (js_set xs) = set xs"
  using fold_set_add [of "[]" xs] by (simp_all add: js_set_def)

section \<open>Numbers\<close>

text \<open>Decimal digits, \<^verbatim>\<open>String(n)\<close> and \<^verbatim>\<open>parseInt(s, 10)\<close>; \<^verbatim>\<open>NaN\<close> is \<^term>\<open>None\<close>.\<close>

definition is_digit :: "char \<Rightarrow> bool" where
  "is_digit c = (48 \<le> (of_char c :: nat) \<and> of_char c \<le> (57 :: nat))"

definition digit_char :: "nat \<Rightarrow> char" where
  "digit_char n = char_of (48 + n)"

definition digit_val :: "char \<Rightarrow> nat" where
  "digit_val c = of_char c - 48"

fun dec :: "nat \<Rightarrow> string" where
  "dec n = (if n < 10 then [digit_char n] else dec (n div 10) @ [digit_char (n mod 10)])"

declare dec.simps [simp del]

definition dec_int :: "int \<Rightarrow> string" where
  "dec_int i = (if i < 0 then CHR ''-'' # dec (nat (- i)) else dec (nat i))"

definition nat_of_digits :: "string \<Rightarrow> nat" where
  "nat_of_digits s = foldl (\<lambda>a c. a * 10 + digit_val c) 0 s"

definition parse_int :: "string \<Rightarrow> int option" where
  "parse_int s =
     (let t = trim_start s;
          neg = (case t of c # _ \<Rightarrow> c = CHR ''-'' | [] \<Rightarrow> False);
          u = (case t of c # r \<Rightarrow> if c = CHR ''-'' \<or> c = CHR ''+'' then r else t | [] \<Rightarrow> []);
          ds = takeWhile is_digit u
      in if ds = [] then None
         else Some (if neg then - int (nat_of_digits ds) else int (nat_of_digits ds)))"

text \<open>\<^verbatim>\<open>/^\d+$/.test(s)\<close>.\<close>

definition all_digits :: "string \<Rightarrow> bool" where
  "all_digits s = (s \<noteq> [] \<and> list_all is_digit s)"

lemma digit_char_digit: "n < 10 \<Longrightarrow> is_digit (digit_char n)"
  by (simp add: is_digit_def digit_char_def)

lemma digit_val_char: "n < 10 \<Longrightarrow> digit_val (digit_char n) = n"
  by (simp add: digit_val_def digit_char_def)

lemma char_ofI: "of_char c = (n::nat) \<Longrightarrow> char_of n = c"
  by (metis char_of_char)

lemma digit_char_simps [simp]:
  "digit_char 0 = CHR ''0''" "digit_char (Suc 0) = CHR ''1''" "digit_char 1 = CHR ''1''"
  "digit_char 2 = CHR ''2''" "digit_char 3 = CHR ''3''" "digit_char 4 = CHR ''4''"
  "digit_char 5 = CHR ''5''" "digit_char 6 = CHR ''6''" "digit_char 7 = CHR ''7''"
  "digit_char 8 = CHR ''8''" "digit_char 9 = CHR ''9''"
  by (simp_all add: digit_char_def char_ofI)

lemma dec_ne [simp]: "dec n \<noteq> []"
  by (subst dec.simps) auto

lemma dec_digits: "list_all is_digit (dec n)"
proof (induction n rule: dec.induct)
  case (1 n)
  then show ?case
    by (subst dec.simps) (auto simp: digit_char_digit)
qed

lemma all_digits_dec [simp]: "all_digits (dec n)"
  by (simp add: all_digits_def dec_digits)

lemma nat_of_digits_snoc:
  "nat_of_digits (s @ [c]) = nat_of_digits s * 10 + digit_val c"
  by (simp add: nat_of_digits_def)

lemma nat_of_digits_dec [simp]: "nat_of_digits (dec n) = n"
proof (induction n rule: dec.induct)
  case (1 n)
  show ?case
  proof (cases "n < 10")
    case True
    then show ?thesis
      by (subst dec.simps) (simp add: nat_of_digits_def digit_val_char)
  next
    case False
    with 1 have "nat_of_digits (dec (n div 10)) = n div 10" by simp
    with False show ?thesis
      by (subst dec.simps) (simp add: nat_of_digits_snoc digit_val_char)
  qed
qed

lemma digit_not_space: "is_digit c \<Longrightarrow> \<not> is_space c"
  by (auto simp: is_digit_def is_space_def)

lemma all_digits_last: "all_digits s \<Longrightarrow> \<not> is_space (last s)"
  by (auto simp: all_digits_def list_all_iff digit_not_space)

lemma dec_last [simp]: "\<not> is_space (last (dec n))"
  by (rule all_digits_last) simp

lemma digit_neq:
  "is_digit c \<Longrightarrow> c \<noteq> CHR ''-'' \<and> c \<noteq> CHR ''+'' \<and> c \<noteq> CHR '':'' \<and> c \<noteq> CHR ''.'' \<and> c \<noteq> CHR ''@''"
  by (auto simp: is_digit_def)

lemma parse_int_digits:
  assumes "all_digits s" and "rest = [] \<or> \<not> is_digit (hd rest)"
  shows "parse_int (s @ rest) = Some (int (nat_of_digits s))"
proof -
  obtain c r where s: "s = c # r" and c: "is_digit c"
    using assms(1) by (cases s) (auto simp: all_digits_def)
  have "takeWhile is_digit (s @ rest) = s"
    using assms by (cases rest) (auto simp: all_digits_def takeWhile_append list_all_iff)
  moreover have "trim_start (s @ rest) = s @ rest"
    using s c digit_not_space by (simp add: trim_start_def)
  ultimately show ?thesis
    using s c digit_neq [OF c] by (simp add: parse_int_def Let_def)
qed

lemma parse_int_all_digits: "all_digits s \<Longrightarrow> parse_int s = Some (int (nat_of_digits s))"
  using parse_int_digits [of s "[]"] by simp

lemma parse_int_dec [simp]: "parse_int (dec n) = Some (int n)"
  by (simp add: parse_int_all_digits)

section \<open>Node's hexadecimal codec\<close>

text \<open>\<^verbatim>\<open>buf.toString("hex")\<close> writes two lower-case digits per byte; \<^verbatim>\<open>Buffer.from(s, "hex")\<close>
  stops at the first pair that is not hexadecimal and drops an odd last digit.\<close>

definition hex_char :: "nat \<Rightarrow> char" where
  "hex_char n = char_of (if n < 10 then 48 + n else 87 + n)"

definition hex_val :: "char \<Rightarrow> nat option" where
  "hex_val c =
     (let n = of_char c in
      if 48 \<le> n \<and> n \<le> 57 then Some (n - 48)
      else if 97 \<le> n \<and> n \<le> 102 then Some (n - 87)
      else if 65 \<le> n \<and> n \<le> 70 then Some (n - 55)
      else None)"

definition hex_byte :: "byte \<Rightarrow> string" where
  "hex_byte b = [hex_char (unat b div 16), hex_char (unat b mod 16)]"

definition hex_encode :: "bytes \<Rightarrow> string" where
  "hex_encode bs = concat (map hex_byte bs)"

fun hex_decode :: "string \<Rightarrow> bytes" where
  "hex_decode (a # b # r) =
     (case (hex_val a, hex_val b) of
        (Some x, Some y) \<Rightarrow> of_nat (16 * x + y) # hex_decode r
      | _ \<Rightarrow> [])"
| "hex_decode _ = []"

lemma hex_val_char [simp]: "n < 16 \<Longrightarrow> hex_val (hex_char n) = Some n"
  by (auto simp: hex_val_def hex_char_def Let_def)

lemma byte_nibbles: "(of_nat (16 * (unat b div 16) + unat b mod 16) :: byte) = b"
  by (simp add: mult_div_mod_eq)

lemma unat_byte_less: "unat (b :: byte) < 256"
proof -
  have "unat b < 2 ^ LENGTH(8)" by (rule unsigned_less)
  then show ?thesis by simp
qed

lemma hex_decode_byte: "hex_decode (hex_byte b @ s) = b # hex_decode s"
proof -
  have "unat b div 16 < 16" "unat b mod 16 < 16"
    using unat_byte_less [of b] by (auto simp: less_mult_imp_div_less)
  then show ?thesis by (simp add: hex_byte_def mult_div_mod_eq)
qed

lemma hex_decode_encode [simp]: "hex_decode (hex_encode bs) = bs"
  by (induction bs) (simp_all add: hex_encode_def hex_decode_byte)

lemma hex_decode_encode_append: "hex_decode (hex_encode bs @ s) = bs @ hex_decode s"
  by (induction bs) (simp_all add: hex_encode_def hex_decode_byte)

lemma length_hex_encode [simp]: "length (hex_encode bs) = 2 * length bs"
  by (induction bs) (simp_all add: hex_encode_def hex_byte_def)

text \<open>Hexadecimal payloads do not change when their letters change case.\<close>

lemma hex_val_lower [simp]: "hex_val (lower_char c) = hex_val c"
  by (auto simp: hex_val_def lower_char_def Let_def)

lemma hex_decode_lower [simp]: "hex_decode (to_lower s) = hex_decode s"
  by (induction s rule: hex_decode.induct) (auto simp: to_lower_def split: option.splits)

lemma lower_hex_char [simp]: "n < 16 \<Longrightarrow> lower_char (hex_char n) = hex_char n"
  by (auto simp: lower_char_def hex_char_def)

lemma to_lower_hex_encode [simp]: "to_lower (hex_encode bs) = hex_encode bs"
proof (induction bs)
  case Nil
  then show ?case by (simp add: hex_encode_def to_lower_def)
next
  case (Cons b bs)
  have "unat b div 16 < 16" "unat b mod 16 < 16"
    using unat_byte_less [of b] by (auto simp: less_mult_imp_div_less)
  with Cons show ?case by (simp add: hex_encode_def hex_byte_def to_lower_def)
qed

section \<open>Errors and promises\<close>

text \<open>
  An \<^verbatim>\<open>Error\<close> carries its message and, where the code sets or reads them, \<^verbatim>\<open>code\<close> and
  \<^verbatim>\<open>status\<close>. A fallible function returns a sum, with the error on the left. An \<^verbatim>\<open>async\<close>
  function that talks to the outside world is a function of that world: it returns the
  outcome together with the world it leaves.
\<close>

datatype js_error = JsError (err_message: string) (err_code: "string option") (err_status: "nat option")

type_synonym 'a result = "js_error + 'a"
type_synonym ('w, 'a) promise = "'w \<Rightarrow> 'a result \<times> 'w"

definition plain_error :: "string \<Rightarrow> js_error" where
  "plain_error m = JsError m None None"

definition resolve :: "'a \<Rightarrow> ('w, 'a) promise" where
  "resolve x w = (Inr x, w)"

definition reject :: "js_error \<Rightarrow> ('w, 'a) promise" where
  "reject e w = (Inl e, w)"

definition await :: "('w, 'a) promise \<Rightarrow> ('a \<Rightarrow> ('w, 'b) promise) \<Rightarrow> ('w, 'b) promise" where
  "await m k w = (case m w of (Inl e, w') \<Rightarrow> (Inl e, w') | (Inr x, w') \<Rightarrow> k x w')"

definition catching :: "('w, 'a) promise \<Rightarrow> (js_error \<Rightarrow> ('w, 'a) promise) \<Rightarrow> ('w, 'a) promise" where
  "catching m h w = (case m w of (Inl e, w') \<Rightarrow> h e w' | (Inr x, w') \<Rightarrow> (Inr x, w'))"

lemma resolve_apply [promise_simps]: "resolve x w = (Inr x, w)"
  by (simp add: resolve_def)

lemma reject_apply [promise_simps]: "reject e w = (Inl e, w)"
  by (simp add: reject_def)

lemma await_resolve [promise_simps]: "await (resolve x) k = k x"
  by (simp add: await_def resolve_def fun_eq_iff)

lemma await_reject [promise_simps]: "await (reject e) k = reject e"
  by (simp add: await_def reject_def fun_eq_iff)

lemma await_Inr [promise_simps]: "m w = (Inr x, w') \<Longrightarrow> await m k w = k x w'"
  by (simp add: await_def)

lemma await_assoc: "await (await m f) g = await m (\<lambda>x. await (f x) g)"
  by (simp add: await_def fun_eq_iff split: prod.splits sum.splits)

lemma await_Inl [promise_simps]: "m w = (Inl e, w') \<Longrightarrow> await m k w = (Inl e, w')"
  by (simp add: await_def)

lemma catching_Inr [promise_simps]: "m w = (Inr x, w') \<Longrightarrow> catching m h w = (Inr x, w')"
  by (simp add: catching_def)

lemma catching_Inl [promise_simps]: "m w = (Inl e, w') \<Longrightarrow> catching m h w = h e w'"
  by (simp add: catching_def)

lemma map_sum_InrD: "map_sum id f s = Inr y \<longleftrightarrow> (\<exists>x. s = Inr x \<and> y = f x)"
  by (cases s) auto

lemma await_InrE:
  assumes "await m k w = (Inr y, w'')"
  obtains x w' where "m w = (Inr x, w')" and "k x w' = (Inr y, w'')"
  using assms by (auto simp: await_def split: prod.splits sum.splits)

section \<open>Event-driven components\<close>

text \<open>
  A machine handles one event at a time. \<open>chunk_reader\<close> is the contract of everything that
  reads a byte or text stream through \<^verbatim>\<open>data\<close> events: what it has read depends on the bytes,
  not on how the transport cut them into events. \<open>machine\<close> is a component with an invariant,
  and \<open>settling\<close> one whose promise, once settled, keeps its verdict.
\<close>

locale chunk_reader =
  fixes feed :: "'s \<Rightarrow> 'c list \<Rightarrow> 's" and inv :: "'s \<Rightarrow> bool" and obs :: "'s \<Rightarrow> 'o"
  assumes inv_feed: "inv s \<Longrightarrow> inv (feed s a)"
    and feed_feed: "inv s \<Longrightarrow> obs (feed (feed s a) b) = obs (feed s (a @ b))"
begin

lemma inv_feed_all: "inv s \<Longrightarrow> inv (foldl feed s cs)"
  by (induction cs arbitrary: s) (simp_all add: inv_feed)

lemma feed_all: "inv s \<Longrightarrow> cs \<noteq> [] \<Longrightarrow> obs (foldl feed s cs) = obs (feed s (concat cs))"
proof (induction cs arbitrary: s)
  case Nil
  then show ?case by simp
next
  case (Cons c cs)
  then show ?case
    by (cases "cs = []") (simp_all add: inv_feed feed_feed)
qed

lemma chunking_irrelevant:
  "inv s \<Longrightarrow> cs \<noteq> [] \<Longrightarrow> ds \<noteq> [] \<Longrightarrow> concat cs = concat ds \<Longrightarrow>
   obs (foldl feed s cs) = obs (foldl feed s ds)"
  by (simp add: feed_all)

end

locale machine =
  fixes step :: "'s \<Rightarrow> 'e \<Rightarrow> 's" and inv :: "'s \<Rightarrow> bool"
  assumes inv_step: "inv s \<Longrightarrow> inv (step s e)"
begin

lemma inv_run: "inv s \<Longrightarrow> inv (foldl step s es)"
  by (induction es arbitrary: s) (simp_all add: inv_step)

end

locale settling = machine +
  fixes settled :: "'s \<Rightarrow> bool" and verdict :: "'s \<Rightarrow> 'v"
  assumes settled_step: "inv s \<Longrightarrow> settled s \<Longrightarrow> settled (step s e) \<and> verdict (step s e) = verdict s"
begin

lemma settled_run:
  "inv s \<Longrightarrow> settled s \<Longrightarrow> settled (foldl step s es) \<and> verdict (foldl step s es) = verdict s"
  by (induction es arbitrary: s) (simp_all add: settled_step inv_step)

lemma first_verdict:
  "inv s \<Longrightarrow> settled (foldl step s es) \<Longrightarrow> verdict (foldl step s (es @ fs)) = verdict (foldl step s es)"
  using settled_run [OF inv_run] by simp

end

end
