(* ===== verification/Utf8.thy ===== *)
theory Utf8
  imports Prelude
begin

text \<open>
  \<^verbatim>\<open>Buffer.toString("utf-8")\<close> of Node: the decoder of the encoding standard, which puts U+FFFD for what
  is malformed. Texts of the model are their UTF-8 bytes, so \<open>decoded\<close> is what a chunk of received
  bytes becomes when it is decoded by itself, and \<open>whole\<close> are the chunks that this leaves as they are,
  which do not begin or end inside a character.
\<close>

section \<open>Decoding bytes\<close>

definition REPLACEMENT :: string where "REPLACEMENT = [CHR 0xEF, CHR 0xBF, CHR 0xBD]"

text \<open>For a first byte: how many bytes follow, and the bounds of the next one.\<close>

definition utf8_lead :: "nat \<Rightarrow> (nat \<times> nat \<times> nat) option" where
  "utf8_lead b =
     (if b < 0x80 then Some (0, 0x80, 0xBF) else if b < 0xC2 then None else if b < 0xE0 then Some (1, 0x80, 0xBF)
      else if b = 0xE0 then Some (2, 0xA0, 0xBF) else if b = 0xED then Some (2, 0x80, 0x9F) else if b < 0xF0 then Some (2, 0x80, 0xBF)
      else if b = 0xF0 then Some (3, 0x90, 0xBF) else if b < 0xF4 then Some (3, 0x80, 0xBF)
      else if b = 0xF4 then Some (3, 0x80, 0x8F) else None)"

fun utf8_decode :: "bytes \<Rightarrow> nat \<Rightarrow> nat \<Rightarrow> nat \<Rightarrow> bytes \<Rightarrow> string" where
  "utf8_decode seen need lo hi [] = (if need = 0 then [] else REPLACEMENT)"
| "utf8_decode seen need lo hi (b # bs) =
     (if need \<noteq> 0 \<and> lo \<le> unat b \<and> unat b \<le> hi then
        (if need = 1 then utf8_string (seen @ [b]) @ utf8_decode [] 0 0x80 0xBF bs
         else utf8_decode (seen @ [b]) (need - 1) 0x80 0xBF bs)
      else (if need = 0 then [] else REPLACEMENT) @
        (case utf8_lead (unat b) of
           None \<Rightarrow> REPLACEMENT @ utf8_decode [] 0 0x80 0xBF bs
         | Some (n, l, h) \<Rightarrow>
             if n = 0 then utf8_string [b] @ utf8_decode [] 0 0x80 0xBF bs else utf8_decode [b] n l h bs))"

definition utf8_toString :: "bytes \<Rightarrow> string" where
  "utf8_toString bs = utf8_decode [] 0 0x80 0xBF bs"

section \<open>Whole characters\<close>

definition whole_chars :: "bytes \<Rightarrow> bool" where
  "whole_chars bs = (utf8_toString bs = utf8_string bs)"

lemma length_utf8_decode:
  "length seen \<le> 3 \<Longrightarrow> (need = 0 \<Longrightarrow> seen = []) \<Longrightarrow> length seen + need \<le> 4 \<Longrightarrow>
   length seen + length bs \<le> length (utf8_decode seen need lo hi bs)"
proof (induction bs arbitrary: seen need lo hi)
  case (Cons b bs)
  let ?start = "case utf8_lead (unat b) of
           None \<Rightarrow> REPLACEMENT @ utf8_decode [] 0 0x80 0xBF bs
         | Some (n, l, h) \<Rightarrow>
             if n = 0 then utf8_string [b] @ utf8_decode [] 0 0x80 0xBF bs else utf8_decode [b] n l h bs"
  have fresh: "length bs \<le> length (utf8_decode [] 0 l h bs)" for l h
    using Cons.IH [of "[]" 0 l h] by simp
  have first: "Suc (length bs) \<le> length (utf8_decode [b] n l h bs)" if "n \<noteq> 0" "n \<le> 3" for n l h
    using that Cons.IH [of "[b]" n l h] by simp
  have "n \<le> 3" if "utf8_lead (unat b) = Some (n, x)" for n x
    using that by (auto simp: utf8_lead_def split: if_splits)
  then have start: "Suc (length bs) \<le> length ?start"
    using fresh [of 128 191] first by (auto simp: REPLACEMENT_def utf8_string_def split: option.split)
  show ?case
  proof (cases "need \<noteq> 0 \<and> lo \<le> unat b \<and> unat b \<le> hi")
    case True
    then show ?thesis
      using fresh [of 128 191] Cons.prems Cons.IH [of "seen @ [b]" "need - 1" 128 191]
      by (cases "need = 1") (simp_all add: utf8_string_def)
  next
    case False
    then have "utf8_decode seen need lo hi (b # bs) = (if need = 0 then [] else REPLACEMENT) @ ?start"
      by (simp only: utf8_decode.simps False if_False)
    then show ?thesis using start Cons.prems by (cases "need = 0") (simp_all add: REPLACEMENT_def)
  qed
qed (auto simp: REPLACEMENT_def)

lemma utf8_decode_ascii:
  "unat c < 0x80 \<Longrightarrow> 0x80 \<le> lo \<Longrightarrow>
   utf8_decode seen need lo hi (a @ c # b) = utf8_decode seen need lo hi a @ utf8_string [c] @ utf8_decode [] 0 0x80 0xBF b"
proof (induction seen need lo hi a rule: utf8_decode.induct)
  case (1 seen need lo hi)
  then show ?case by (auto simp: utf8_lead_def)
next
  case (2 seen need lo hi x bs)
  have "0x80 \<le> l" if "utf8_lead (unat x) = Some (n, l, h)" for n l h
    using that by (auto simp: utf8_lead_def split: if_splits)
  with 2 show ?case by (auto split: option.splits)
qed

lemma whole_around_ascii:
  assumes "whole_chars (a @ c # b)" and "unat c < 0x80"
  shows "whole_chars a" and "whole_chars b"
proof -
  have eq: "utf8_toString a @ utf8_string [c] @ utf8_toString b = utf8_string a @ utf8_string [c] @ utf8_string b"
    using assms utf8_decode_ascii [OF assms(2), of 128 "[]" 0 191 a b]
    by (simp add: whole_chars_def utf8_toString_def utf8_string_def)
  have "length (utf8_string x) \<le> length (utf8_toString x)" for x
    using length_utf8_decode [of "[]" 0 x 128 191] by (simp add: utf8_string_def utf8_toString_def)
  moreover have "length (utf8_toString a) + length (utf8_toString b) = length (utf8_string a) + length (utf8_string b)"
    using arg_cong [OF eq, of length] by simp
  moreover have "x = y" if "x + z = y + w" "y \<le> x" "w \<le> z" for x y z w :: nat
    using that by simp
  ultimately have "length (utf8_toString a) = length (utf8_string a)" by blast
  with eq show "whole_chars a" "whole_chars b" by (auto simp: whole_chars_def)
qed

lemma whole_ascii: "of_char c < (128 :: nat) \<Longrightarrow> whole_chars (utf8_bytes (c # s)) = whole_chars (utf8_bytes s)"
proof -
  assume "of_char c < (128 :: nat)"
  then have "unat (of_char c :: byte) < 128"
    by (metis of_nat_of_char unat_byte_of_nat mod_less less_trans of_char_below)
  then show ?thesis
    by (simp add: whole_chars_def utf8_toString_def utf8_bytes_def utf8_string_def utf8_lead_def)
qed

section \<open>Chunks that are decoded one by one\<close>

definition decoded :: "string \<Rightarrow> string" where
  "decoded s = utf8_toString (utf8_bytes s)"

definition whole :: "string \<Rightarrow> bool" where
  "whole s = whole_chars (utf8_bytes s)"

lemma decoded_Nil [simp]: "decoded [] = []"
  by (simp add: decoded_def utf8_toString_def utf8_bytes_def)

lemma decoded_whole [simp]: "whole s \<Longrightarrow> decoded s = s"
  by (simp add: decoded_def whole_def whole_chars_def)

lemma whole_Nil [simp]: "whole []"
  by (simp add: whole_def whole_chars_def utf8_toString_def utf8_bytes_def utf8_string_def)

lemma decoded_wholes [simp]: "\<forall>c \<in> set cs. whole c \<Longrightarrow> map decoded cs = cs"
  by (induction cs) simp_all

text \<open>ASCII text may be cut anywhere.\<close>

lemma whole_plain [simp]: "\<forall>c \<in> set s. of_char c < (128 :: nat) \<Longrightarrow> whole s"
  by (induction s) (simp_all add: whole_def whole_ascii, simp add: whole_chars_def utf8_toString_def utf8_bytes_def utf8_string_def)

text \<open>A character that is cut is garbled.\<close>

lemma cut_not_whole: "\<not> whole [CHR 0xC3]" "decoded [CHR 0xC3] @ decoded [CHR 0xA9] \<noteq> decoded [CHR 0xC3, CHR 0xA9]"
  by code_simp+

end
