(* ===== verification/SshConnection.thy ===== *)
theory SshConnection
  imports Utf8
begin

text \<open>
  \<^verbatim>\<open>src/ssh/connection.ts\<close>: running commands with the system's ssh. The argument lists and the
  environment are functions of the options; one run of ssh is a machine over what the child
  process delivers: output, an error, its close, the timer, and \<^verbatim>\<open>drain\<close> of its standard input.
  Which writes the pipe takes without back pressure is an argument (\<open>accepts\<close>, by the number of
  the write). Verbose logging is left out.
\<close>

section \<open>Options\<close>

text \<open>An askpass server is its handle and token.\<close>

record ssh_options =
  opt_host :: string
  opt_sshPath :: "string option"
  opt_configFile :: "string option"
  opt_extraArgs :: "string list option"
  opt_askpass :: "(string \<times> string) option"
  opt_askpassScript :: "string option"
  opt_askpassMain :: "string option"
  opt_nodePath :: "string option"
  opt_handshakeTimeoutMs :: "nat option"
  opt_tcpTimeoutSeconds :: "nat option"
  opt_socksPort :: "nat option"

record ssh_connection =
  label :: string
  sshPath :: string
  configFile :: "string option"
  extraArgs :: "string list"
  askpass :: "(string \<times> string) option"
  askpassScript :: "string option"
  askpassMain :: "string option"
  nodePath :: "string option"
  handshakeTimeoutMs :: nat
  tcpTimeoutSeconds :: nat
  connected :: bool

definition newSshConnection :: "ssh_options \<Rightarrow> ssh_connection" where
  "newSshConnection o1 =
     \<lparr>label = opt_host o1, sshPath = nullish (opt_sshPath o1) ''ssh'', configFile = opt_configFile o1,
      extraArgs = nullish (opt_extraArgs o1) [], askpass = opt_askpass o1, askpassScript = opt_askpassScript o1,
      askpassMain = opt_askpassMain o1, nodePath = opt_nodePath o1,
      handshakeTimeoutMs = nullish (opt_handshakeTimeoutMs o1) 30000,
      tcpTimeoutSeconds = nullish (opt_tcpTimeoutSeconds o1) 15, connected = False\<rparr>"

definition fromDestination :: "string \<Rightarrow> string option \<Rightarrow> nat option \<Rightarrow> ssh_options \<Rightarrow> ssh_connection" where
  "fromDestination host user port opts =
     (let hostStr = (if truthy user then nullish user [] @ ''@'' @ host else host);
          extra = nullish (opt_extraArgs opts) []
                    @ (case port of None \<Rightarrow> [] | Some p \<Rightarrow> if p = 0 then [] else [''-p'', dec p])
      in newSshConnection (opts\<lparr>opt_host := hostStr, opt_extraArgs := Some extra\<rparr>))"

section \<open>Arguments and environment\<close>

definition batchModeArgs :: "ssh_connection \<Rightarrow> string list" where
  "batchModeArgs c = (if askpass c \<noteq> None then [] else [''-o'', ''BatchMode=yes''])"

definition connectTimeoutArgs :: "ssh_connection \<Rightarrow> string list" where
  "connectTimeoutArgs c =
     (if 0 < tcpTimeoutSeconds c then [''-o'', ''ConnectTimeout='' @ dec (tcpTimeoutSeconds c)] else [])"

definition configFileArgs :: "ssh_connection \<Rightarrow> string list" where
  "configFileArgs c = (if truthy (configFile c) then [''-F'', nullish (configFile c) []] else [])"

definition buildExecArgs :: "ssh_connection \<Rightarrow> string \<Rightarrow> string list" where
  "buildExecArgs c command =
     [''-T''] @ batchModeArgs c @ connectTimeoutArgs c @ configFileArgs c @ extraArgs c @ [label c, command]"

definition spawnArgs :: "ssh_connection \<Rightarrow> string option \<Rightarrow> string list \<Rightarrow> string list" where
  "spawnArgs c command extra =
     [''-T''] @ batchModeArgs c @ connectTimeoutArgs c @ configFileArgs c @ extraArgs c @ extra @ [label c]
       @ (if truthy command then [nullish command []] else [])"

text \<open>The variables set on top of the process environment; \<^term>\<open>None\<close>: the environment is inherited.\<close>

definition sshEnv :: "ssh_connection \<Rightarrow> (string \<times> string) list option" where
  "sshEnv c =
     (case askpass c of
        None \<Rightarrow> None
      | Some (handle, token) \<Rightarrow>
          if \<not> truthy (askpassScript c) \<or> \<not> truthy (askpassMain c) \<or> \<not> truthy (nodePath c) then None
          else Some [(''SSH_ASKPASS'', nullish (askpassScript c) []), (''SSH_ASKPASS_REQUIRE'', ''force''),
                     (''DISPLAY'', if label c \<noteq> [] then ''zygos'' else '':0''),
                     (''AERGIC_SSH_ASKPASS_HANDLE'', handle), (''AERGIC_SSH_ASKPASS_TOKEN'', token),
                     (''AERGIC_SSH_ASKPASS_NODE'', nullish (nodePath c) []),
                     (''AERGIC_SSH_ASKPASS_MAIN'', nullish (askpassMain c) [])])"

section \<open>One run of ssh\<close>

definition STDIN_CHUNK :: nat where "STDIN_CHUNK = 65536"

text \<open>The loop of \<^verbatim>\<open>writeChunk\<close>: writes until one reports back pressure or the data ends.\<close>

function write_chunks :: "(nat \<Rightarrow> bool) \<Rightarrow> bytes \<Rightarrow> nat \<Rightarrow> bytes list \<Rightarrow> nat \<times> bytes list \<times> bool" where
  "write_chunks accepts data offset written =
     (if offset < length data
      then let upto = min (offset + STDIN_CHUNK) (length data);
               written' = written @ [take (upto - offset) (drop offset data)]
           in if accepts (length written) then write_chunks accepts data upto written' else (upto, written', False)
      else (offset, written, True))"
  by pat_completeness auto
termination
  by (relation "measure (\<lambda>(accepts, data, offset, written). length data - offset)") (auto simp: STDIN_CHUNK_def)

declare write_chunks.simps [simp del]

record exec_output =
  out_stdout :: string
  out_stderr :: string
  out_exitCode :: "nat option"
  out_signal :: "string option"

record ssh_run =
  run_stdout :: "bytes list"
  run_stderr :: "bytes list"
  run_offset :: nat
  run_written :: "bytes list"
  run_stdin_ended :: bool
  run_killed :: bool
  run_result :: "exec_output result option"

datatype child_event =
    ChildStdout bytes
  | ChildStderr bytes
  | ChildDrain
  | ChildError string
  | ChildClose "nat option" "string option"
  | RunTimeout

definition run_start :: "(nat \<Rightarrow> bool) \<Rightarrow> bytes option \<Rightarrow> ssh_run" where
  "run_start accepts stdin =
     (case stdin of
        None \<Rightarrow> \<lparr>run_stdout = [], run_stderr = [], run_offset = 0, run_written = [], run_stdin_ended = True,
                 run_killed = False, run_result = None\<rparr>
      | Some data \<Rightarrow>
          (let (off, written, ended) = write_chunks accepts data 0 []
           in \<lparr>run_stdout = [], run_stderr = [], run_offset = off, run_written = written, run_stdin_ended = ended,
               run_killed = False, run_result = None\<rparr>))"

fun run_event :: "(nat \<Rightarrow> bool) \<Rightarrow> bytes option \<Rightarrow> nat option \<Rightarrow> string \<Rightarrow> ssh_run \<Rightarrow> child_event \<Rightarrow> ssh_run" where
  "run_event accepts stdin timeoutMs operation r (ChildStdout c) = r\<lparr>run_stdout := run_stdout r @ [c]\<rparr>"
| "run_event accepts stdin timeoutMs operation r (ChildStderr c) = r\<lparr>run_stderr := run_stderr r @ [c]\<rparr>"
| "run_event accepts stdin timeoutMs operation r ChildDrain =
     (case stdin of
        None \<Rightarrow> r
      | Some data \<Rightarrow>
          if run_stdin_ended r then r
          else let (off, written, ended) = write_chunks accepts data (run_offset r) (run_written r)
               in r\<lparr>run_offset := off, run_written := written, run_stdin_ended := ended\<rparr>)"
| "run_event accepts stdin timeoutMs operation r (ChildError message) =
     (if run_result r \<noteq> None then r
      else r\<lparr>run_result := Some (Inl (plain_error (''SSH spawn failed: '' @ message @ ''. Is ssh in PATH?'')))\<rparr>)"
| "run_event accepts stdin timeoutMs operation r (ChildClose code signal) =
     (if run_result r \<noteq> None then r
      else r\<lparr>run_result := Some (Inr \<lparr>out_stdout = utf8_toString (concat (run_stdout r)),
               out_stderr = utf8_toString (concat (run_stderr r)), out_exitCode = code, out_signal = signal\<rparr>)\<rparr>)"
| "run_event accepts stdin timeoutMs operation r RunTimeout =
     (case timeoutMs of
        None \<Rightarrow> r
      | Some ms \<Rightarrow>
          if ms = 0 \<or> run_result r \<noteq> None then r
          else r\<lparr>run_killed := True,
                 run_result := Some (Inl (plain_error (''SSH '' @ operation @ '' timed out after '' @ dec ms @ ''ms'')))\<rparr>)"

definition runExec :: "(nat \<Rightarrow> bool) \<Rightarrow> bytes option \<Rightarrow> nat option \<Rightarrow> string \<Rightarrow> child_event list \<Rightarrow> ssh_run" where
  "runExec accepts stdin timeoutMs operation es = foldl (run_event accepts stdin timeoutMs operation) (run_start accepts stdin) es"

section \<open>Connecting and running\<close>

definition ASKPASS_CONNECT_FLOOR_MS :: nat where "ASKPASS_CONNECT_FLOOR_MS = 120000"

definition connect_timeout :: "ssh_connection \<Rightarrow> nat" where
  "connect_timeout c =
     (if askpass c \<noteq> None then max (handshakeTimeoutMs c) ASKPASS_CONNECT_FLOOR_MS else handshakeTimeoutMs c)"

text \<open>What \<^verbatim>\<open>connect\<close> makes of the result of running \<^verbatim>\<open>true\<close>.\<close>

definition connect_outcome :: "ssh_connection \<Rightarrow> exec_output result \<Rightarrow> unit result" where
  "connect_outcome c result =
     (let outcome = (case result of
                       Inl e \<Rightarrow> Inl e
                     | Inr x \<Rightarrow>
                         if out_exitCode x \<noteq> Some 0
                         then Inl (plain_error (''SSH connect to '' @ label c @ '' failed: ''
                                @ or_else (out_stderr x)
                                    (''exit code '' @ (case out_exitCode x of None \<Rightarrow> ''null'' | Some n \<Rightarrow> dec n))))
                         else Inr ())
      in case outcome of
           Inr _ \<Rightarrow> Inr ()
         | Inl e \<Rightarrow>
             if has_sub (err_message e) ''timed out''
             then Inl (plain_error (''SSH connect to '' @ label c @ '' timed out after ''
                         @ dec ((connect_timeout c + 500) div 1000)
                         @ ''s. Increase zygos.handshakeTimeout if your host uses 2FA.''))
             else Inl e)"

text \<open>\<open>run\<close> is the world in which a child process runs: arguments, input, timeout and operation to
  its result.\<close>

type_synonym 'w runner = "string list \<Rightarrow> bytes option \<Rightarrow> nat option \<Rightarrow> string \<Rightarrow> ('w, exec_output) promise"

definition connect :: "'w runner \<Rightarrow> ssh_connection \<Rightarrow> 'w \<Rightarrow> (unit result \<times> ssh_connection) \<times> 'w" where
  "connect run c w =
     (if connected c then ((Inr (), c), w)
      else let (result, w') = run (buildExecArgs c ''true'') None (Some (connect_timeout c)) ''connect'' w
           in case connect_outcome c result of
                Inl e \<Rightarrow> ((Inl e, c), w')
              | Inr _ \<Rightarrow> ((Inr (), c\<lparr>connected := True\<rparr>), w'))"

definition requireConnected :: "ssh_connection \<Rightarrow> unit result" where
  "requireConnected c =
     (if connected c then Inr () else Inl (plain_error (''SSH connection to '' @ label c @ '' is not connected'')))"

definition ssh_exec :: "'w runner \<Rightarrow> ssh_connection \<Rightarrow> string \<Rightarrow> nat option \<Rightarrow> ('w, exec_output) promise" where
  "ssh_exec run c command timeoutMs =
     (case requireConnected c of
        Inl e \<Rightarrow> reject e
      | Inr _ \<Rightarrow> run (buildExecArgs c command) None timeoutMs ''exec'')"

definition ssh_execWithStdin :: "'w runner \<Rightarrow> ssh_connection \<Rightarrow> string \<Rightarrow> bytes \<Rightarrow> ('w, exec_output) promise" where
  "ssh_execWithStdin run c command stdinData =
     (case requireConnected c of
        Inl e \<Rightarrow> reject e
      | Inr _ \<Rightarrow> run (buildExecArgs c command) (Some stdinData) None ''exec'')"

definition ssh_close :: "ssh_connection \<Rightarrow> ssh_connection" where
  "ssh_close c = c\<lparr>connected := False\<rparr>"

section \<open>How ssh reads its arguments\<close>

text \<open>The reference is the synopsis of ssh(1): options come before the destination, those of
  \<open>valued_options\<close> take the rest of their word or the next word as value, the others can share a word, and
  \<^verbatim>\<open>--\<close> ends the options.\<close>

definition valued_options :: string where "valued_options = ''BbcDEeFIiJLlmOoPpQRSWw''"

function ssh_reads :: "string list \<Rightarrow> (char \<times> string) list \<times> string list" where
  "ssh_reads [] = ([], [])"
| "ssh_reads (w # ws) =
     (case w of
        d # opt # val \<Rightarrow>
          if d \<noteq> CHR ''-'' then ([], w # ws)
          else if w = ''--'' then ([], ws)
          else if opt \<in> set valued_options then
            (if val \<noteq> [] then apfst (Cons (opt, val)) (ssh_reads ws)
             else case ws of [] \<Rightarrow> ([], []) | v # vs \<Rightarrow> apfst (Cons (opt, v)) (ssh_reads vs))
          else apfst (Cons (opt, [])) (ssh_reads (if val = [] then ws else (d # val) # ws))
      | _ \<Rightarrow> ([], w # ws))"
  by pat_completeness auto
termination by (relation "measure (\<lambda>ws. length ws + length (concat ws))") auto

section \<open>Lemmas\<close>

interpretation ssh_promise: settling "run_event accepts stdin timeoutMs operation" "\<lambda>_. True"
    "\<lambda>r. run_result r \<noteq> None" run_result for accepts stdin timeoutMs operation
proof unfold_locales
  fix r :: ssh_run and e
  assume "run_result r \<noteq> None"
  then show "run_result (run_event accepts stdin timeoutMs operation r e) \<noteq> None
      \<and> run_result (run_event accepts stdin timeoutMs operation r e) = run_result r"
    by (cases e) (auto split: option.splits prod.splits)
qed simp

text \<open>What has been written is the data up to the offset, in pieces of at most 64 KiB.\<close>

definition stdin_inv :: "bytes \<Rightarrow> ssh_run \<Rightarrow> bool" where
  "stdin_inv data r =
     (concat (run_written r) = take (run_offset r) data \<and> (\<forall>p \<in> set (run_written r). length p \<le> STDIN_CHUNK)
      \<and> run_offset r \<le> length data \<and> (run_stdin_ended r \<longrightarrow> run_offset r = length data))"

lemma write_chunks_inv:
  "concat written = take offset data \<Longrightarrow> \<forall>p \<in> set written. length p \<le> STDIN_CHUNK \<Longrightarrow> offset \<le> length data \<Longrightarrow>
   write_chunks accepts data offset written = (off, ws, ended) \<Longrightarrow>
   concat ws = take off data \<and> (\<forall>p \<in> set ws. length p \<le> STDIN_CHUNK) \<and> off \<le> length data \<and> (ended \<longrightarrow> off = length data)"
proof (induction accepts data offset written rule: write_chunks.induct)
  case (1 accepts data offset written)
  show ?case
  proof (cases "offset < length data")
    case False
    with "1.prems" show ?thesis by (subst (asm) write_chunks.simps) auto
  next
    case True
    let ?upto = "min (offset + STDIN_CHUNK) (length data)"
    let ?ws = "written @ [take (?upto - offset) (drop offset data)]"
    have le: "offset \<le> ?upto" using True by simp
    have "take ?upto data = take offset data @ take (?upto - offset) (drop offset data)"
      using le by (metis le_add_diff_inverse take_add)
    then have ws: "concat ?ws = take ?upto data" "\<forall>p \<in> set ?ws. length p \<le> STDIN_CHUNK"
      using "1.prems"(1,2) by auto
    show ?thesis
    proof (cases "accepts (length written)")
      case acc: True
      have "write_chunks accepts data ?upto ?ws = (off, ws, ended)"
        using "1.prems"(4) True acc by (subst (asm) write_chunks.simps) (simp add: Let_def)
      from "1.IH" [OF True refl refl acc ws _ this] show ?thesis by simp
    next
      case False
      with "1.prems"(4) True ws show ?thesis by (subst (asm) write_chunks.simps) (auto simp: Let_def)
    qed
  qed
qed

lemma stdin_event:
  "stdin_inv data r \<Longrightarrow> stdin_inv data (run_event accepts (Some data) timeoutMs operation r e)"
proof (cases e)
  case ChildDrain
  assume inv: "stdin_inv data r"
  obtain off ws ended where w: "write_chunks accepts data (run_offset r) (run_written r) = (off, ws, ended)"
    by (metis prod_cases3)
  with inv write_chunks_inv [OF _ _ _ w] ChildDrain show ?thesis by (auto simp: stdin_inv_def)
qed (auto simp: stdin_inv_def split: option.splits)

interpretation ssh_stdin: machine "run_event accepts (Some data) timeoutMs operation" "stdin_inv data"
  for accepts data timeoutMs operation
  by unfold_locales (rule stdin_event)

lemma stdin_start: "stdin_inv data (run_start accepts (Some data))"
proof -
  obtain off ws ended where w: "write_chunks accepts data 0 [] = (off, ws, ended)" by (metis prod_cases3)
  from write_chunks_inv [OF _ _ _ w] w show ?thesis by (simp add: stdin_inv_def run_start_def)
qed

text \<open>Without an input nothing is ever written.\<close>

interpretation no_input: machine "run_event accepts None timeoutMs operation" "\<lambda>r. run_stdin_ended r \<and> run_written r = []"
  for accepts timeoutMs operation
proof unfold_locales
  fix r :: ssh_run and e assume "run_stdin_ended r \<and> run_written r = []"
  then show "run_stdin_ended (run_event accepts None timeoutMs operation r e) \<and> run_written (run_event accepts None timeoutMs operation r e) = []"
    by (cases e) (auto split: option.splits)
qed

definition output_event :: "child_event \<Rightarrow> bool" where
  "output_event e = (case e of ChildStdout _ \<Rightarrow> True | ChildStderr _ \<Rightarrow> True | ChildDrain \<Rightarrow> True | _ \<Rightarrow> False)"

lemma outputs_collected:
  assumes "list_all output_event es"
  shows "concat (run_stdout (foldl (run_event accepts stdin timeoutMs operation) r es))
      = concat (run_stdout r) @ concat (map (\<lambda>e. case e of ChildStdout c \<Rightarrow> c | _ \<Rightarrow> []) es)
    \<and> concat (run_stderr (foldl (run_event accepts stdin timeoutMs operation) r es))
      = concat (run_stderr r) @ concat (map (\<lambda>e. case e of ChildStderr c \<Rightarrow> c | _ \<Rightarrow> []) es)
    \<and> run_result (foldl (run_event accepts stdin timeoutMs operation) r es) = run_result r"
  using assms
proof (induction es arbitrary: r)
  case (Cons e es)
  then show ?case
    by (cases e) (auto simp: output_event_def split: option.splits prod.splits)
qed simp

text \<open>The writes of an input and those of the first \<open>k\<close> that report back pressure.\<close>

definition writes :: "bytes \<Rightarrow> nat" where
  "writes data = (length data + (STDIN_CHUNK - 1)) div STDIN_CHUNK"

definition refused_of :: "(nat \<Rightarrow> bool) \<Rightarrow> nat \<Rightarrow> nat" where
  "refused_of accepts k = length (filter (\<lambda>i. \<not> accepts i) [0..<k])"

definition refused :: "(nat \<Rightarrow> bool) \<Rightarrow> bytes \<Rightarrow> nat" where
  "refused accepts data = refused_of accepts (writes data)"

definition drains :: "child_event list \<Rightarrow> nat" where
  "drains es = length (filter (\<lambda>e. e = ChildDrain) es)"

lemma less_writes: "k < writes data \<longleftrightarrow> k * STDIN_CHUNK < length data"
  by (auto simp: writes_def STDIN_CHUNK_def)

lemma writes_cover: "length data \<le> writes data * STDIN_CHUNK"
  using less_writes [of "writes data" data] by simp

lemma refused_of_Suc: "refused_of accepts (Suc k) = refused_of accepts k + (if accepts k then 0 else 1)"
  by (simp add: refused_of_def)

lemma refused_of_mono: "j \<le> k \<Longrightarrow> refused_of accepts j \<le> refused_of accepts k"
  by (rule lift_Suc_mono_le) (simp_all add: refused_of_Suc)

lemma take_min_length: "take (min (length xs) n) xs = take n xs"
  by (simp add: min_def)

text \<open>One round of writing ends the input, or stops at one more write that reports back pressure.\<close>

lemma write_chunks_counts:
  "write_chunks accepts data offset written = (off, ws, ended) \<Longrightarrow>
   offset = min (length data) (length written * STDIN_CHUNK) \<Longrightarrow> length written \<le> writes data \<Longrightarrow>
   off = min (length data) (length ws * STDIN_CHUNK) \<and> length ws \<le> writes data
   \<and> refused_of accepts (length ws) = refused_of accepts (length written) + (if ended then 0 else 1)
   \<and> (ended \<longrightarrow> length ws = writes data)"
proof (induction accepts data offset written rule: write_chunks.induct)
  case (1 accepts data offset written)
  show ?case
  proof (cases "offset < length data")
    case False
    then have "length written = writes data"
      using "1.prems"(2,3) less_writes [of "length written" data] by (auto simp: min_def split: if_splits)
    with "1.prems" False show ?thesis by (subst (asm) write_chunks.simps) auto
  next
    case True
    let ?upto = "min (offset + STDIN_CHUNK) (length data)"
    let ?ws = "written @ [take (?upto - offset) (drop offset data)]"
    have off: "offset = length written * STDIN_CHUNK" and more: "length written < writes data"
      using True "1.prems"(2) less_writes [of "length written" data] by (auto simp: min_def split: if_splits)
    have ws: "?upto = min (length data) (length ?ws * STDIN_CHUNK)" "length ?ws \<le> writes data"
      using more by (simp_all add: off min.commute add.commute)
    show ?thesis
    proof (cases "accepts (length written)")
      case acc: True
      have "write_chunks accepts data ?upto ?ws = (off, ws, ended)"
        using "1.prems"(1) True acc by (subst (asm) write_chunks.simps) (simp add: Let_def)
      from "1.IH" [OF True refl refl acc this ws] acc show ?thesis by (simp add: refused_of_Suc)
    next
      case False
      with "1.prems"(1) True have "off = ?upto" "ws = ?ws" "\<not> ended"
        by (subst (asm) write_chunks.simps, simp add: Let_def)+
      with False ws show ?thesis by (simp add: refused_of_Suc)
    qed
  qed
qed

text \<open>After \<open>d\<close> drains the input has ended, or the next write that reported back pressure waits.\<close>

definition writing :: "(nat \<Rightarrow> bool) \<Rightarrow> bytes \<Rightarrow> nat \<Rightarrow> ssh_run \<Rightarrow> bool" where
  "writing accepts data d r =
     (run_offset r = min (length data) (length (run_written r) * STDIN_CHUNK) \<and> length (run_written r) \<le> writes data
      \<and> (if run_stdin_ended r then length (run_written r) = writes data \<and> refused accepts data \<le> d
         else refused_of accepts (length (run_written r)) = Suc d))"

lemma writing_start: "writing accepts data 0 (run_start accepts (Some data))"
proof -
  obtain off ws ended where w: "write_chunks accepts data 0 [] = (off, ws, ended)" by (metis prod_cases3)
  from write_chunks_counts [OF w] w show ?thesis by (auto simp: writing_def run_start_def refused_def refused_of_def)
qed

lemma writing_event:
  assumes "writing accepts data d r"
  shows "writing accepts data (d + drains [e]) (run_event accepts (Some data) timeoutMs operation r e)"
proof (cases "e = ChildDrain \<and> \<not> run_stdin_ended r")
  case True
  obtain off ws ended where w: "write_chunks accepts data (run_offset r) (run_written r) = (off, ws, ended)"
    by (metis prod_cases3)
  from write_chunks_counts [OF w] w assms True show ?thesis by (auto simp: writing_def refused_def drains_def)
next
  case False
  with assms show ?thesis by (cases e) (auto simp: writing_def drains_def split: option.splits)
qed

lemma writing_run:
  "writing accepts data d r \<Longrightarrow> writing accepts data (d + drains es) (foldl (run_event accepts (Some data) timeoutMs operation) r es)"
proof (induction es arbitrary: d r)
  case (Cons e es)
  have "drains (e # es) = drains [e] + drains es" by (simp add: drains_def)
  with Cons.IH [OF writing_event [OF Cons.prems]] show ?case by (simp add: add.assoc)
qed (simp add: drains_def)

lemma writing_ended: "writing accepts data d r \<Longrightarrow> run_stdin_ended r \<longleftrightarrow> refused accepts data \<le> d"
  using refused_of_mono [of "length (run_written r)" "writes data" accepts]
  by (cases "run_stdin_ended r") (auto simp: writing_def refused_def)

section \<open>Properties\<close>

text \<open>C18. The input of a command is written completely, provided the process keeps reading: as soon as
  there was one \<^verbatim>\<open>drain\<close> for every write of 64 KiB that reported back pressure (none, when the pipe took
  them all), and not before, standard input is closed, and everything has been written, in order and
  in pieces of at most 64 KiB; until then what has been written is the beginning of the data.\<close>

theorem stdin_all_written:
  "(run_stdin_ended (runExec accepts (Some data) timeoutMs operation es) \<longleftrightarrow> refused accepts data \<le> drains es)
   \<and> concat (run_written (runExec accepts (Some data) timeoutMs operation es))
     = (if refused accepts data \<le> drains es then data
        else take (length (run_written (runExec accepts (Some data) timeoutMs operation es)) * STDIN_CHUNK) data)
   \<and> list_all (\<lambda>piece. length piece \<le> STDIN_CHUNK) (run_written (runExec accepts (Some data) timeoutMs operation es))"
proof -
  let ?r = "runExec accepts (Some data) timeoutMs operation es"
  have w: "writing accepts data (drains es) ?r"
    using writing_run [OF writing_start] by (simp add: runExec_def)
  have "stdin_inv data ?r" unfolding runExec_def by (rule ssh_stdin.inv_run [OF stdin_start])
  with w writing_ended [OF w] show ?thesis by (simp add: stdin_inv_def writing_def list_all_iff take_min_length writes_cover)
qed

theorem stdin_all_written_witness:
  "concat (run_written (runExec (\<lambda>_. True) (Some [1, 2, 3]) None ''exec'' [])) = [1, 2, 3]
   \<and> run_stdin_ended (runExec (\<lambda>_. True) (Some [1, 2, 3]) None ''exec'' [])
   \<and> \<not> run_stdin_ended (runExec (\<lambda>_. False) (Some [1, 2, 3]) None ''exec'' [ChildStdout [9]])
   \<and> concat (run_written (runExec (\<lambda>_. False) (Some [1, 2, 3]) None ''exec'' [ChildStdout [9], ChildDrain])) = [1, 2, 3]"
proof -
  have "writes [1, 2, 3] = Suc 0" by (simp add: writes_def STDIN_CHUNK_def)
  then have "refused (\<lambda>_. True) [1, 2, 3] = 0" "refused (\<lambda>_. False) [1, 2, 3] = 1"
    by (simp_all add: refused_def refused_of_def)
  then show ?thesis
    using stdin_all_written [of "\<lambda>_. True" "[1, 2, 3]" None "''exec''" "[]"]
      stdin_all_written [of "\<lambda>_. False" "[1, 2, 3]" None "''exec''" "[ChildStdout [9]]"]
      stdin_all_written [of "\<lambda>_. False" "[1, 2, 3]" None "''exec''" "[ChildStdout [9], ChildDrain]"]
    by (simp add: drains_def)
qed

text \<open>C9. A command's result is what the process wrote: when output and drain events are followed by
  the close of the process, the promise resolves with everything written to standard output and
  standard error, in order and however cut into chunks (the code decodes them only when they are all
  there), and the exit code and signal; nothing that happens afterwards changes it. This holds with
  and without input, and without one nothing is written and standard input is ended from the start.\<close>

theorem run_result_complete:
  assumes "list_all output_event es"
  shows "run_result (runExec accepts stdin timeoutMs operation (es @ [ChildClose code signal] @ later))
       = Some (Inr \<lparr>out_stdout = utf8_toString (concat (map (\<lambda>e. case e of ChildStdout c \<Rightarrow> c | _ \<Rightarrow> []) es)),
                     out_stderr = utf8_toString (concat (map (\<lambda>e. case e of ChildStderr c \<Rightarrow> c | _ \<Rightarrow> []) es)),
                     out_exitCode = code, out_signal = signal\<rparr>)
    \<and> run_stdin_ended (runExec accepts None timeoutMs operation es) \<and> run_written (runExec accepts None timeoutMs operation es) = []"
proof -
  let ?r = "runExec accepts stdin timeoutMs operation"
  let ?o = "\<lparr>out_stdout = utf8_toString (concat (map (\<lambda>e. case e of ChildStdout c \<Rightarrow> c | _ \<Rightarrow> []) es)),
             out_stderr = utf8_toString (concat (map (\<lambda>e. case e of ChildStderr c \<Rightarrow> c | _ \<Rightarrow> []) es)),
             out_exitCode = code, out_signal = signal\<rparr>"
  have start: "run_stdout (run_start accepts stdin) = []" "run_stderr (run_start accepts stdin) = []"
    "run_result (run_start accepts stdin) = None"
    by (simp_all add: run_start_def split: prod.split option.split)
  have fin: "run_result (?r (es @ [ChildClose code signal])) = Some (Inr ?o)"
    using outputs_collected [OF assms, of accepts stdin timeoutMs operation "run_start accepts stdin"] start
    by (simp add: runExec_def)
  have "run_result (?r ((es @ [ChildClose code signal]) @ later)) = run_result (?r (es @ [ChildClose code signal]))"
    unfolding runExec_def by (rule ssh_promise.first_verdict) (use fin in \<open>simp_all add: runExec_def\<close>)
  moreover have "run_stdin_ended (runExec accepts None timeoutMs operation es) \<and> run_written (runExec accepts None timeoutMs operation es) = []"
    using no_input.inv_run [of "run_start accepts None"] by (simp add: runExec_def run_start_def)
  ultimately show ?thesis using fin by simp
qed

theorem run_result_complete_witness:
  "run_result (runExec (\<lambda>_. True) None None ''exec''
     ([ChildStdout (utf8_bytes ''a''), ChildStderr (utf8_bytes ''w''), ChildStdout (utf8_bytes ''b'')]
        @ [ChildClose (Some 3) None] @ [RunTimeout]))
   = Some (Inr \<lparr>out_stdout = ''ab'', out_stderr = ''w'', out_exitCode = Some 3, out_signal = None\<rparr>)"
proof -
  have "utf8_toString (utf8_bytes ''a'' @ utf8_bytes ''b'') = ''ab''" "utf8_toString (utf8_bytes ''w'') = ''w''" by code_simp+
  then show ?thesis
    using run_result_complete [of "[ChildStdout (utf8_bytes ''a''), ChildStderr (utf8_bytes ''w''), ChildStdout (utf8_bytes ''b'')]"
        "\<lambda>_. True" None None "''exec''" "Some 3" None "[RunTimeout]"]
    by (simp add: output_event_def)
qed

text \<open>Connecting succeeds exactly when ssh ran \<^verbatim>\<open>true\<close> with exit code 0, within a time that is at
  least two minutes when passwords can be asked for. Any other exit fails with what ssh wrote
  to standard error, except that an error text of ssh that contains \<^verbatim>\<open>timed out\<close>, such as the one for
  a TCP timeout, is replaced by the advice to raise the handshake timeout.\<close>

theorem connect_exact:
  assumes "\<not> connected c"
    and "run (buildExecArgs c ''true'') None (Some (connect_timeout c)) ''connect'' w = (Inr x, w')"
  shows "fst (connect run c w) =
     (if out_exitCode x = Some 0 then (Inr (), c\<lparr>connected := True\<rparr>)
      else if has_sub (''SSH connect to '' @ label c @ '' failed: '' @ or_else (out_stderr x)
               (''exit code '' @ (case out_exitCode x of None \<Rightarrow> ''null'' | Some n \<Rightarrow> dec n))) ''timed out''
      then (Inl (plain_error (''SSH connect to '' @ label c @ '' timed out after ''
              @ dec ((connect_timeout c + 500) div 1000)
              @ ''s. Increase zygos.handshakeTimeout if your host uses 2FA.'')), c)
      else (Inl (plain_error (''SSH connect to '' @ label c @ '' failed: '' @ or_else (out_stderr x)
               (''exit code '' @ (case out_exitCode x of None \<Rightarrow> ''null'' | Some n \<Rightarrow> dec n)))), c))
    \<and> (askpass c \<noteq> None \<longrightarrow> 120000 \<le> connect_timeout c)"
  using assms
  by (simp add: connect_def connect_outcome_def connect_timeout_def ASKPASS_CONNECT_FLOOR_MS_def plain_error_def Let_def)

theorem connect_exact_witness:
  "fst (connect (\<lambda>args stdin t op w. (Inr \<lparr>out_stdout = [], out_stderr = ''port 22: Connection timed out'', out_exitCode = Some 255, out_signal = None\<rparr>, w))
     (fromDestination ''h'' None None \<lparr>opt_host = [], opt_sshPath = None, opt_configFile = None, opt_extraArgs = None, opt_askpass = None,
        opt_askpassScript = None, opt_askpassMain = None, opt_nodePath = None, opt_handshakeTimeoutMs = None, opt_tcpTimeoutSeconds = None, opt_socksPort = None\<rparr>) ())
   = (Inl (plain_error ''SSH connect to h timed out after 30s. Increase zygos.handshakeTimeout if your host uses 2FA.''),
      fromDestination ''h'' None None \<lparr>opt_host = [], opt_sshPath = None, opt_configFile = None, opt_extraArgs = None, opt_askpass = None,
        opt_askpassScript = None, opt_askpassMain = None, opt_nodePath = None, opt_handshakeTimeoutMs = None, opt_tcpTimeoutSeconds = None, opt_socksPort = None\<rparr>)"
proof -
  let ?run = "\<lambda>args stdin t op w. (Inr \<lparr>out_stdout = [], out_stderr = ''port 22: Connection timed out'', out_exitCode = Some 255, out_signal = None\<rparr>, w)"
  let ?c = "fromDestination ''h'' None None \<lparr>opt_host = [], opt_sshPath = None, opt_configFile = None, opt_extraArgs = None, opt_askpass = None,
        opt_askpassScript = None, opt_askpassMain = None, opt_nodePath = None, opt_handshakeTimeoutMs = None, opt_tcpTimeoutSeconds = None, opt_socksPort = None\<rparr>"
  have "label ?c = ''h''" "\<not> connected ?c" "connect_timeout ?c = 30000"
    by (simp_all add: fromDestination_def newSshConnection_def connect_timeout_def)
  with connect_exact [of ?c ?run "()"] show ?thesis
    by (simp add: or_else_def has_sub_def dec.simps)
qed

end
