(* ===== verification/ShellQuote.thy ===== *)
theory ShellQuote
  imports Prelude
begin

text \<open>
  \<^verbatim>\<open>src/remote/shellQuote.ts\<close>: quoting for the remote shell, and the comparison of
  hexadecimal tokens. \<open>sh_scan\<close> is the reference: how a POSIX shell reads a command line made
  of literal words, that is which words it sees when nothing in the line is expanded. The
  lemmas show that a quoted argument is one literal word whatever it contains.
\<close>

definition quote_char :: "char \<Rightarrow> string" where
  "quote_char c = (if c = CHR 0x27 then [CHR 0x27, CHR 0x5C, CHR 0x27, CHR 0x27] else [c])"

definition shellQuote :: "string \<Rightarrow> string" where
  "shellQuote s = [CHR 0x27] @ concat (map quote_char s) @ [CHR 0x27]"

text \<open>\<^verbatim>\<open>timingSafeEqual\<close> throws on buffers of different length, which the code rules out first.\<close>

definition timingSafeTokenCompare :: "string option \<Rightarrow> string \<Rightarrow> bool" where
  "timingSafeTokenCompare provided expected =
     (if \<not> truthy provided then False
      else let a = hex_decode (nullish provided []);
               b = hex_decode expected
           in if length a \<noteq> length b then False else a = b)"

section \<open>How a shell reads literal words\<close>

text \<open>The characters that mean themselves outside quotes.\<close>

definition sh_plain :: "char \<Rightarrow> bool" where
  "sh_plain c = (c \<notin> set ''|&;<>()$`*?[#~%{}!'' \<and> c \<noteq> CHR 0x22 \<and> c \<noteq> CHR 0x27
                 \<and> c \<noteq> CHR 0x5C \<and> c \<noteq> CHR '' '' \<and> c \<noteq> CHR 0x09 \<and> c \<noteq> CHR 0x0A)"

datatype sh_mode = Between | InWord | InSingle

fun sh_scan :: "sh_mode \<Rightarrow> string \<Rightarrow> string \<Rightarrow> string list option" where
  "sh_scan Between w [] = Some []"
| "sh_scan InWord w [] = Some [w]"
| "sh_scan InSingle w [] = None"
| "sh_scan InSingle w (c # r) =
     (if c = CHR 0x27 then sh_scan InWord w r else sh_scan InSingle (w @ [c]) r)"
| "sh_scan m w (c # r) =
     (if c = CHR 0x27 then sh_scan InSingle w r
      else if c = CHR '' '' then
        (if m = Between then sh_scan Between [] r else map_option ((#) w) (sh_scan Between [] r))
      else if c = CHR 0x5C then
        (case r of [] \<Rightarrow> None
         | d # r' \<Rightarrow> if d = CHR 0x0A then None else sh_scan InWord (w @ [d]) r')
      else if sh_plain c then sh_scan InWord (w @ [c]) r
      else None)"

definition sh_words :: "string \<Rightarrow> string list option" where
  "sh_words s = sh_scan Between [] s"

lemma scan_quoted_body:
  "sh_scan InSingle w (concat (map quote_char s) @ [CHR 0x27] @ r) = sh_scan InWord (w @ s) r"
  by (induction s arbitrary: w) (simp_all add: quote_char_def)

lemma scan_shellQuote:
  "m \<noteq> InSingle \<Longrightarrow> sh_scan m w (shellQuote s @ r) = sh_scan InWord (w @ s) r"
  using scan_quoted_body [of w s r] by (cases m) (simp_all add: shellQuote_def)

lemma scan_plain:
  "list_all sh_plain s \<Longrightarrow> s \<noteq> [] \<Longrightarrow> m \<noteq> InSingle \<Longrightarrow> sh_scan m w (s @ r) = sh_scan InWord (w @ s) r"
proof (induction s arbitrary: m w)
  case (Cons c s)
  then have c: "sh_plain c" "c \<noteq> CHR 0x27" "c \<noteq> CHR '' ''" "c \<noteq> CHR 0x5C"
    by (auto simp: sh_plain_def)
  show ?case
  proof (cases "s = []")
    case True
    with Cons.prems c show ?thesis by (cases m) simp_all
  next
    case False
    with Cons.prems c Cons.IH [of InWord "w @ [c]"] show ?thesis by (cases m) simp_all
  qed
qed simp

lemma scan_quoted_args:
  "sh_scan Between [] (js_join '' '' (map shellQuote (a # args))) = Some (a # args)"
proof (induction args arbitrary: a)
  case Nil
  show ?case using scan_shellQuote [of Between "[]" a "[]"] by simp
next
  case (Cons b args)
  have "sh_scan Between [] (js_join '' '' (map shellQuote (a # b # args)))
      = sh_scan InWord a ('' '' @ js_join '' '' (map shellQuote (b # args)))"
    using scan_shellQuote [of Between "[]" a] by simp
  also have "\<dots> = Some (a # b # args)" using Cons [of b] by simp
  finally show ?case .
qed

section \<open>Hexadecimal tokens\<close>

lemma hex_val_SomeD: "hex_val c = Some x \<Longrightarrow> x < 16 \<and> lower_char c = hex_char x"
  by (auto simp: hex_val_def lower_char_def hex_char_def Let_def split: if_splits intro!: char_ofI [symmetric])

lemma hex_byte_of_nat:
  assumes "x < 16" "y < 16"
  shows "hex_byte (16 * of_nat x + of_nat y) = [hex_char x, hex_char y]"
proof -
  have "(16 * of_nat x + of_nat y :: byte) = of_nat (16 * x + y)" by simp
  moreover have "unat (of_nat (16 * x + y) :: byte) = 16 * x + y"
    using assms by (simp only: unat_byte_of_nat) simp
  ultimately show ?thesis using assms unfolding hex_byte_def by (simp only:) simp
qed

lemma hex_decode_text:
  "to_lower (take (2 * length (hex_decode p)) p) = hex_encode (hex_decode p)
   \<and> hex_decode (drop (2 * length (hex_decode p)) p) = []"
proof (induction p rule: hex_decode.induct)
  case (1 a b r)
  show ?case
  proof (cases "hex_val a = None \<or> hex_val b = None")
    case True
    then show ?thesis by (auto simp: to_lower_def hex_encode_def split: option.splits)
  next
    case False
    then obtain x y where xy: "hex_val a = Some x" "hex_val b = Some y" by auto
    with 1 have "to_lower (take (2 * length (hex_decode r)) r) = hex_encode (hex_decode r)"
      "hex_decode (drop (2 * length (hex_decode r)) r) = []" by auto
    with xy hex_val_SomeD [OF xy(1)] hex_val_SomeD [OF xy(2)] show ?thesis
      by (simp add: to_lower_def hex_encode_def hex_byte_of_nat)
  qed
qed (simp_all add: to_lower_def hex_encode_def)

lemma hex_decode_eq_iff:
  "hex_decode p = t \<longleftrightarrow>
   to_lower (take (2 * length t) p) = hex_encode t \<and> hex_decode (drop (2 * length t) p) = []"
proof
  assume "hex_decode p = t"
  then show "to_lower (take (2 * length t) p) = hex_encode t \<and> hex_decode (drop (2 * length t) p) = []"
    using hex_decode_text [of p] by simp
next
  assume h: "to_lower (take (2 * length t) p) = hex_encode t \<and> hex_decode (drop (2 * length t) p) = []"
  have "hex_decode p = hex_decode (to_lower p)" by simp
  also have "to_lower p = to_lower (take (2 * length t) p) @ to_lower (drop (2 * length t) p)"
    unfolding to_lower_def by (metis append_take_drop_id map_append)
  also have "\<dots> = hex_encode t @ to_lower (drop (2 * length t) p)" using h by simp
  finally show "hex_decode p = t" using h by (simp add: hex_decode_encode_append)
qed

section \<open>Properties\<close>

text \<open>C2. A command line made of quoted arguments is read by the shell as exactly those arguments,
  whatever characters they contain: no quote, blank, dollar or semicolon in an argument ends
  its word or starts anything else.\<close>

theorem shellQuote_words:
  "sh_words (js_join '' '' (map shellQuote args)) = Some args"
  using scan_quoted_args by (cases args) (auto simp: sh_words_def)

text \<open>The exact set of texts that are accepted for a token: those whose first characters are
  the token's hexadecimal digits, in any case of letters, and whose rest does not begin with two
  more hexadecimal digits. A missing or empty text is refused.\<close>

theorem token_compare_exact:
  "timingSafeTokenCompare provided (hex_encode token) \<longleftrightarrow>
   (\<exists>p. provided = Some p \<and> p \<noteq> []
      \<and> to_lower (take (2 * length token) p) = hex_encode token
      \<and> hex_decode (drop (2 * length token) p) = [])"
  using hex_decode_eq_iff [of "nullish provided []" token]
  by (cases provided) (auto simp: timingSafeTokenCompare_def Let_def)

end
