(* ===== verification/Paths.thy ===== *)
theory Paths
  imports Prelude
begin

text \<open>
  What the program uses of Node's \<^verbatim>\<open>path\<close> module (its POSIX half) and of \<^verbatim>\<open>encodeURIComponent\<close>.
  The file of a destination is found by joining a directory with the encoded destination; the
  lemmas say that this never leaves the directory and that no two destinations share a file.
\<close>

section \<open>path.join\<close>

fun norm_segments :: "bool \<Rightarrow> string list \<Rightarrow> string list \<Rightarrow> string list" where
  "norm_segments absolute acc [] = rev acc"
| "norm_segments absolute acc (s # ss) =
     (if s = [] \<or> s = ''.'' then norm_segments absolute acc ss
      else if s = ''..'' then
        (case acc of
           [] \<Rightarrow> norm_segments absolute (if absolute then [] else [''..'']) ss
         | a # as \<Rightarrow> norm_segments absolute (if a = ''..'' then ''..'' # acc else as) ss)
      else norm_segments absolute (s # acc) ss)"

definition posix_normalize :: "string \<Rightarrow> string" where
  "posix_normalize p =
     (if p = [] then ''.''
      else let absolute = (hd p = CHR ''/''); slash = (last p = CHR ''/'');
               body = js_join ''/'' (norm_segments absolute [] (js_split (CHR ''/'') p))
           in if body = [] then (if absolute then ''/'' else if slash then ''./'' else ''.'')
              else (if absolute then ''/'' else []) @ body @ (if slash then ''/'' else []))"

definition path_join :: "string list \<Rightarrow> string" where
  "path_join ps = (let joined = js_join ''/'' (filter (\<lambda>p. p \<noteq> []) ps)
                   in if joined = [] then ''.'' else posix_normalize joined)"

text \<open>\<^verbatim>\<open>path.basename(p)\<close> and the directory part of a slash-separated path.\<close>

definition basename :: "string \<Rightarrow> string" where
  "basename p = rev (takeWhile (\<lambda>c. c \<noteq> CHR ''/'') (dropWhile (\<lambda>c. c = CHR ''/'') (rev p)))"

text \<open>\<^verbatim>\<open>path.dirname\<close> of \<^verbatim>\<open>node:path/posix\<close>.\<close>

definition dirname :: "string \<Rightarrow> string" where
  "dirname p =
     (case p of
        [] \<Rightarrow> ''.''
      | c # t \<Rightarrow>
          (let r = dropWhile (\<lambda>x. x \<noteq> CHR ''/'') (dropWhile (\<lambda>x. x = CHR ''/'') (rev t)); e = length r
           in if r = [] then (if c = CHR ''/'' then ''/'' else ''.'')
              else if c = CHR ''/'' \<and> e = 1 then ''//''
              else take e p))"

text \<open>A directory as programs pass it: absolute, and nothing in it to normalise.\<close>

definition plain_segment :: "string \<Rightarrow> bool" where
  "plain_segment s = (s \<noteq> [] \<and> s \<noteq> ''.'' \<and> s \<noteq> ''..'' \<and> CHR ''/'' \<notin> set s)"

lemma norm_plain: "(\<forall>s \<in> set ss. plain_segment s) \<Longrightarrow> norm_segments absolute acc ss = rev acc @ ss"
  by (induction ss arbitrary: acc) (auto simp: plain_segment_def)

lemma normalize_plain:
  assumes "ss \<noteq> []" and "\<forall>s \<in> set ss. plain_segment s"
  shows "posix_normalize (''/'' @ js_join ''/'' ss) = ''/'' @ js_join ''/'' ss"
proof -
  have split: "js_split (CHR ''/'') (''/'' @ js_join ''/'' ss) = [] # ss"
    using js_split_join [of ss "CHR ''/''"] assms by (simp add: plain_segment_def)
  have "js_join ''/'' ss \<noteq> [] \<and> last (js_join ''/'' ss) \<noteq> CHR ''/''"
    using assms
  proof (induction ss)
    case (Cons s ss)
    then show ?case
      by (cases "ss = []") (auto simp: js_join_cons plain_segment_def last_append dest: last_in_set)
  qed simp
  moreover have "norm_segments True [] ([] # ss) = ss" using norm_plain [OF assms(2)] by simp
  ultimately show ?thesis unfolding posix_normalize_def Let_def split by simp
qed

lemma js_join_append: "xs \<noteq> [] \<Longrightarrow> ys \<noteq> [] \<Longrightarrow> js_join sep (xs @ ys) = js_join sep xs @ sep @ js_join sep ys"
proof (induction xs)
  case (Cons a xs)
  then show ?case by (cases "xs = []") (simp_all add: js_join_cons)
qed simp

lemma path_join_plain:
  assumes "ss \<noteq> []" and "fs \<noteq> []" and plain: "\<forall>s \<in> set (ss @ fs). plain_segment s"
  shows "path_join ((''/'' @ js_join ''/'' ss) # fs) = ''/'' @ js_join ''/'' (ss @ fs)"
proof -
  have "filter (\<lambda>p. p \<noteq> []) fs = fs" using plain by (simp add: filter_id_conv plain_segment_def)
  moreover have "js_join ''/'' ((''/'' @ js_join ''/'' ss) # fs) = ''/'' @ js_join ''/'' (ss @ fs)"
    using assms(1,2) js_join_append [of ss fs "''/''"] by (simp add: js_join_cons)
  moreover have "posix_normalize (''/'' @ js_join ''/'' (ss @ fs)) = ''/'' @ js_join ''/'' (ss @ fs)"
    by (rule normalize_plain [OF _ plain]) (simp add: assms(1))
  ultimately show ?thesis by (simp add: path_join_def Let_def)
qed

lemma path_join_file:
  assumes "ss \<noteq> []" and "\<forall>s \<in> set ss. plain_segment s" and "plain_segment f"
  shows "path_join [''/'' @ js_join ''/'' ss, f] = ''/'' @ js_join ''/'' ss @ ''/'' @ f"
  using path_join_plain [of ss "[f]"] assms js_join_append [of ss "[f]" "''/''"] by simp

section \<open>encodeURIComponent\<close>

definition unreserved :: "char \<Rightarrow> bool" where
  "unreserved c = (is_digit c \<or> 65 \<le> (of_char c :: nat) \<and> of_char c \<le> (90 :: nat)
     \<or> 97 \<le> (of_char c :: nat) \<and> of_char c \<le> (122 :: nat) \<or> c \<in> set ''-_.!~*()'' \<or> c = CHR 0x27)"

definition hex_upper :: "nat \<Rightarrow> char" where
  "hex_upper n = char_of (if n < 10 then 48 + n else 55 + n)"

definition encode_char :: "char \<Rightarrow> string" where
  "encode_char c = (if unreserved c then [c]
     else [CHR ''%'', hex_upper (of_char c div 16), hex_upper (of_char c mod 16)])"

definition encodeURIComponent :: "string \<Rightarrow> string" where
  "encodeURIComponent s = concat (map encode_char s)"

fun decode_percent :: "string \<Rightarrow> string" where
  "decode_percent [] = []"
| "decode_percent (c # s) =
     (if c = CHR ''%'' then
        (case s of
           a # b # r \<Rightarrow> char_of (16 * nullish (hex_val a) 0 + nullish (hex_val b) 0) # decode_percent r
         | _ \<Rightarrow> [])
      else c # decode_percent s)"

lemma hex_val_upper: "n < 16 \<Longrightarrow> hex_val (hex_upper n) = Some n"
  by (auto simp: hex_val_def hex_upper_def Let_def)

lemma decode_encode_char: "decode_percent (encode_char c @ s) = c # decode_percent s"
proof (cases "unreserved c")
  case True
  then have "c \<noteq> CHR ''%''" by (auto simp: unreserved_def is_digit_def)
  with True show ?thesis by (simp add: encode_char_def)
next
  case False
  have "of_char c div 16 < (16::nat)" "of_char c mod 16 < (16::nat)"
    using of_char_below [of c] by (auto simp: less_mult_imp_div_less)
  with False show ?thesis
    by (simp add: encode_char_def hex_val_upper mult_div_mod_eq)
qed

lemma percent_roundtrip [simp]: "decode_percent (encodeURIComponent s) = s"
proof (induction s)
  case (Cons c s)
  then show ?case using decode_encode_char [of c "encodeURIComponent s"]
    by (simp add: encodeURIComponent_def)
qed (simp add: encodeURIComponent_def)

lemma encode_inj: "encodeURIComponent a = encodeURIComponent b \<longleftrightarrow> a = b"
  by (metis percent_roundtrip)

lemma encode_no_slash: "CHR ''/'' \<notin> set (encodeURIComponent s)"
proof -
  have slash: "hex_upper n \<noteq> CHR ''/''" if "n < 16" for n
  proof
    assume "hex_upper n = CHR ''/''"
    with hex_val_upper [OF that] show False by (simp add: hex_val_def)
  qed
  have "CHR ''/'' \<notin> set (encode_char c)" for c
  proof -
    have "of_char c div 16 < (16::nat)" "of_char c mod 16 < (16::nat)"
      using of_char_below [of c] by (auto simp: less_mult_imp_div_less)
    then have "hex_upper (of_char c div 16) \<noteq> CHR ''/''" "hex_upper (of_char c mod 16) \<noteq> CHR ''/''"
      using slash by blast+
    moreover have "\<not> unreserved (CHR ''/'')" by (simp add: unreserved_def is_digit_def)
    ultimately show ?thesis by (auto simp: encode_char_def)
  qed
  then show ?thesis by (auto simp: encodeURIComponent_def)
qed

end
