(* ===== verification/Base64.thy ===== *)
theory Base64
  imports Prelude
begin

text \<open>
  Node's base64 codec, \<^verbatim>\<open>buf.toString("base64")\<close> and \<^verbatim>\<open>Buffer.from(s, "base64")\<close>. The decoder takes
  both alphabets, skips every other character, stops at the padding and drops an incomplete
  last group; \<open>base64_roundtrip\<close> shows that it reads back every encoded buffer.
\<close>

definition b64_char :: "nat \<Rightarrow> char" where
  "b64_char n = char_of (if n < 26 then 65 + n else if n < 52 then 71 + n
                         else if n < 62 then n - 4 else if n = 62 then 43 else 47)"

definition b64_val :: "char \<Rightarrow> nat option" where
  "b64_val c =
     (let n = of_char c :: nat in
      if 65 \<le> n \<and> n \<le> 90 then Some (n - 65)
      else if 97 \<le> n \<and> n \<le> 122 then Some (n - 71)
      else if 48 \<le> n \<and> n \<le> 57 then Some (n + 4)
      else if n = 43 \<or> n = 45 then Some 62
      else if n = 47 \<or> n = 95 then Some 63
      else None)"

fun base64_digits :: "bytes \<Rightarrow> nat list" where
  "base64_digits [] = []"
| "base64_digits [x] = [unat x div 4, unat x mod 4 * 16]"
| "base64_digits [x, y] = [unat x div 4, unat x mod 4 * 16 + unat y div 16, unat y mod 16 * 4]"
| "base64_digits (x # y # z # r) =
     unat x div 4 # (unat x mod 4 * 16 + unat y div 16) # (unat y mod 16 * 4 + unat z div 64)
       # unat z mod 64 # base64_digits r"

definition base64_padding :: "nat \<Rightarrow> string" where
  "base64_padding n = (if n mod 3 = 1 then ''=='' else if n mod 3 = 2 then ''='' else [])"

definition base64_encode :: "bytes \<Rightarrow> string" where
  "base64_encode bs = map b64_char (base64_digits bs) @ base64_padding (length bs)"

fun base64_groups :: "nat list \<Rightarrow> bytes" where
  "base64_groups (a # b # c # d # r) =
     of_nat (a * 4 + b div 16) # of_nat (b mod 16 * 16 + c div 4) # of_nat (c mod 4 * 64 + d)
       # base64_groups r"
| "base64_groups [a, b, c] = [of_nat (a * 4 + b div 16), of_nat (b mod 16 * 16 + c div 4)]"
| "base64_groups [a, b] = [of_nat (a * 4 + b div 16)]"
| "base64_groups _ = []"

definition base64_decode :: "string \<Rightarrow> bytes" where
  "base64_decode s = base64_groups (List.map_filter b64_val (takeWhile (\<lambda>c. c \<noteq> CHR ''='') s))"

lemma b64_val_char: "n < 64 \<Longrightarrow> b64_val (b64_char n) = Some n"
  by (auto simp: b64_val_def b64_char_def Let_def)

lemma b64_char_pad: "n < 64 \<Longrightarrow> b64_char n \<noteq> CHR ''=''"
proof
  assume "n < 64" and "b64_char n = CHR ''=''"
  then have "b64_val CHR ''='' = Some n" using b64_val_char by metis
  then show False by (simp add: b64_val_def)
qed

lemma base64_digits_small: "n \<in> set (base64_digits bs) \<Longrightarrow> n < 64"
proof (induction bs rule: base64_digits.induct)
  case (4 x y z r)
  then show ?case
    using unat_byte_less [of x] unat_byte_less [of y] unat_byte_less [of z] by auto
next
  case (3 x y)
  then show ?case using unat_byte_less [of x] unat_byte_less [of y] by auto
next
  case (2 x)
  then show ?case using unat_byte_less [of x] by auto
qed simp

lemma b64_group:
  fixes x y z :: byte
  shows "(of_nat (unat x div 4 * 4 + (unat x mod 4 * 16 + unat y div 16) div 16) :: byte) = x"
    and "(of_nat ((unat x mod 4 * 16 + unat y div 16) mod 16 * 16 + (unat y mod 16 * 4 + unat z div 64) div 4) :: byte) = y"
    and "(of_nat ((unat y mod 16 * 4 + unat z div 64) mod 4 * 64 + unat z mod 64) :: byte) = z"
proof -
  have y: "unat y div 16 < 16" and z: "unat z div 64 < 4"
    using unat_byte_less [of y] unat_byte_less [of z] by auto
  have "unat x div 4 * 4 + (unat x mod 4 * 16 + unat y div 16) div 16 = unat x"
    using y by (simp add: div_mult_mod_eq)
  then show "(of_nat (unat x div 4 * 4 + (unat x mod 4 * 16 + unat y div 16) div 16) :: byte) = x"
    by (metis of_nat_unat ucast_id)
  have "(unat x mod 4 * 16 + unat y div 16) mod 16 * 16 + (unat y mod 16 * 4 + unat z div 64) div 4 = unat y"
    using y z by (simp add: div_mult_mod_eq)
  then show "(of_nat ((unat x mod 4 * 16 + unat y div 16) mod 16 * 16 + (unat y mod 16 * 4 + unat z div 64) div 4) :: byte) = y"
    by (metis of_nat_unat ucast_id)
  have "(unat y mod 16 * 4 + unat z div 64) mod 4 * 64 + unat z mod 64 = unat z"
    using z by (simp add: div_mult_mod_eq)
  then show "(of_nat ((unat y mod 16 * 4 + unat z div 64) mod 4 * 64 + unat z mod 64) :: byte) = z"
    by (metis of_nat_unat ucast_id)
qed

lemma base64_groups_digits: "base64_groups (base64_digits bs) = bs"
proof (induction bs rule: base64_digits.induct)
  case (2 x)
  then show ?case using b64_group(1) [where x = x and y = 0] by simp
next
  case (3 x y)
  then show ?case using b64_group(1) [where x = x and y = y] b64_group(2) [where x = x and y = y and z = 0] by simp
next
  case (4 x y z r)
  then show ?case using b64_group(1) [where x = x and y = y] b64_group(2) [where x = x and y = y and z = z]
      b64_group(3) [where y = y and z = z] by simp
qed simp

lemma takeWhile_pad: "takeWhile (\<lambda>c. c \<noteq> CHR ''='') (base64_padding n) = []"
  by (simp add: base64_padding_def)

lemma base64_roundtrip [simp]: "base64_decode (base64_encode bs) = bs"
proof -
  have "takeWhile (\<lambda>c. c \<noteq> CHR ''='') (base64_encode bs) = map b64_char (base64_digits bs)"
    unfolding base64_encode_def
    by (subst takeWhile_append2) (auto simp: takeWhile_pad b64_char_pad dest: base64_digits_small)
  moreover have "List.map_filter b64_val (map b64_char ns) = ns" if "\<forall>n \<in> set ns. n < 64" for ns
    using that by (induction ns) (simp_all add: b64_val_char)
  ultimately show ?thesis
    by (simp add: base64_decode_def base64_groups_digits base64_digits_small)
qed

end
