(* ===== verification/Busybox.thy ===== *)
theory Busybox
  imports SshConnection ShellQuote Paths Base64
begin

text \<open>
  \<^verbatim>\<open>src/remote/busybox.ts\<close>, \<^verbatim>\<open>connectionToken.ts\<close> and \<^verbatim>\<open>authToken.ts\<close>: the commands that the
  client composes for the remote host, and what it reads out of their output. A connection is
  the record of the operations of the interface \<^verbatim>\<open>ISshConnection\<close> over an abstract world; the
  nonce of a marker is an argument. The lemmas say which words the remote login shell sees of
  every composed command line, and that the fields of a probe are found behind any output of
  the shell's start-up files.
\<close>

section \<open>Connections\<close>

record 'w conn =
  c_exec :: "string \<Rightarrow> nat option \<Rightarrow> ('w, exec_output) promise"
  c_execWithStdin :: "string \<Rightarrow> bytes \<Rightarrow> ('w, exec_output) promise"
  c_putFile :: "(string \<Rightarrow> bytes \<Rightarrow> string option \<Rightarrow> ('w, exec_output) promise) option"
  c_unpack :: "(string \<Rightarrow> nat \<Rightarrow> bytes \<Rightarrow> ('w, exec_output) promise) option"
  c_remoteLabel :: string

text \<open>The connection through the system's ssh provides no \<^verbatim>\<open>putFile\<close> and no \<^verbatim>\<open>extract\<close>.\<close>

definition ssh_conn :: "'w runner \<Rightarrow> ssh_connection \<Rightarrow> 'w conn" where
  "ssh_conn run c =
     \<lparr>c_exec = ssh_exec run c, c_execWithStdin = ssh_execWithStdin run c, c_putFile = None,
      c_unpack = None, c_remoteLabel = label c\<rparr>"

text \<open>A connection on which every command succeeds with the same output, for concrete runs.\<close>

definition printed :: "string \<Rightarrow> exec_output" where
  "printed s = \<lparr>out_stdout = s, out_stderr = [], out_exitCode = Some 0, out_signal = None\<rparr>"

definition fixed_conn :: "exec_output \<Rightarrow> 'w conn" where
  "fixed_conn x = \<lparr>c_exec = (\<lambda>_ _. resolve x), c_execWithStdin = (\<lambda>_ _. resolve x), c_putFile = None,
                   c_unpack = None, c_remoteLabel = []\<rparr>"

definition show_code :: "nat option \<Rightarrow> string" where
  "show_code code = (case code of None \<Rightarrow> ''null'' | Some n \<Rightarrow> dec n)"

text \<open>\<^verbatim>\<open>"..."\<close> and \<^verbatim>\<open>s.replace(/\r$/, "")\<close>.\<close>

definition dquoted :: "string \<Rightarrow> string" where
  "dquoted s = [CHR 0x22] @ s @ [CHR 0x22]"

definition strip_cr :: "string \<Rightarrow> string" where
  "strip_cr l = (if l \<noteq> [] \<and> last l = CHR 0x0D then butlast l else l)"

section \<open>Paths\<close>

definition REMOTE_DIR_NAME :: string where "REMOTE_DIR_NAME = ''.ssh-remote''"

definition remoteToolsDir :: "string \<Rightarrow> string" where
  "remoteToolsDir home = home @ ''/'' @ REMOTE_DIR_NAME @ ''/bin''"

definition remoteBusyboxPath :: "string \<Rightarrow> string" where
  "remoteBusyboxPath home = remoteToolsDir home @ ''/busybox''"

definition remoteShPath :: "string \<Rightarrow> string" where
  "remoteShPath home = remoteToolsDir home @ ''/sh''"

definition agentLinkPath :: "string \<Rightarrow> string \<Rightarrow> string" where
  "agentLinkPath home i = home @ ''/'' @ REMOTE_DIR_NAME @ ''/agent-'' @ i"

definition localBusyboxPath :: "string \<Rightarrow> string \<Rightarrow> string" where
  "localBusyboxPath extensionPath arch = path_join [extensionPath, ''tools'', ''busybox'', ''bb-'' @ arch]"

section \<open>Agent forwarding\<close>

definition agent_script :: string where
  "agent_script =
     ''PATH='' @ dquoted ''$2:$PATH'' @ ''; export PATH; ''
     @ ''s=; if [ -n '' @ dquoted ''$SSH_AUTH_SOCK'' @ '' ] && ln -f -s '' @ dquoted ''$SSH_AUTH_SOCK'' @ '' ''
     @ dquoted ''$1'' @ ''; then s=yes; fi; ''
     @ ''printf '' @ dquoted (''%s'' @ [CHR 0x0A]) @ '' '' @ dquoted ''$3'' @ '' '' @ dquoted ''$s''"

definition agent_command :: "string \<Rightarrow> string \<Rightarrow> string \<Rightarrow> string \<Rightarrow> string" where
  "agent_command script home link marker =
     remoteShPath home @ '' -c '' @ shellQuote script @ '' sh '' @ shellQuote link @ '' ''
     @ shellQuote (remoteToolsDir home) @ '' '' @ shellQuote marker"

definition agentForwardCommand :: "bytes \<Rightarrow> string \<Rightarrow> string \<Rightarrow> string \<times> string" where
  "agentForwardCommand nonce home link =
     (let marker = ''ZYAGENT-'' @ hex_encode nonce
      in (agent_command (agent_script @ ''; while :; do sleep 180; printf '' @ dquoted '' '' @ ''; done'')
            home link marker, marker))"

definition agentForwardCommandOneshot :: "bytes \<Rightarrow> string \<Rightarrow> string \<Rightarrow> string \<times> string" where
  "agentForwardCommandOneshot nonce home link =
     (let marker = ''ZYAGENT-'' @ hex_encode nonce
      in (agent_command agent_script home link marker, marker))"

text \<open>The lines but the last, each with the one after it, are searched for the marker.\<close>

fun ready_scan :: "string list \<Rightarrow> string \<Rightarrow> bool option" where
  "ready_scan (l # v # r # rest) marker =
     (if strip_cr l = marker then Some (strip_cr v = ''yes'') else ready_scan (v # r # rest) marker)"
| "ready_scan _ marker = None"

definition parseAgentForwardReady :: "string \<Rightarrow> string \<Rightarrow> bool option" where
  "parseAgentForwardReady stdout marker = ready_scan (js_split (CHR 0x0A) stdout) marker"

section \<open>Commands under the vendored shell\<close>

definition bb_command :: "string \<Rightarrow> string \<Rightarrow> string" where
  "bb_command home command =
     remoteShPath home @ '' -c ''
       @ shellQuote (''export PATH='' @ shellQuote (remoteToolsDir home) @ '':$PATH; '' @ command)"

definition bbExec :: "'w conn \<Rightarrow> string \<Rightarrow> string \<Rightarrow> ('w, exec_output) promise" where
  "bbExec conn home command = c_exec conn (bb_command home command) None"

definition bbExecWithStdin :: "'w conn \<Rightarrow> string \<Rightarrow> string \<Rightarrow> bytes \<Rightarrow> ('w, exec_output) promise" where
  "bbExecWithStdin conn home command stdin = c_execWithStdin conn (bb_command home command) stdin"

section \<open>Probing\<close>

record remote_probe =
  probe_home :: string
  probe_arch :: string
  busyboxPresent :: bool
  installPresent :: bool

definition normalizeArch :: "string \<Rightarrow> string result" where
  "normalizeArch unameArch =
     (let trimmed = trim unameArch
      in if trimmed = ''x86_64'' then Inr ''x64''
         else if trimmed = ''aarch64'' \<or> trimmed = ''arm64'' then Inr ''arm64''
         else Inl (plain_error (''Unsupported remote architecture: '' @ dquoted trimmed)))"

definition probe_script :: "string \<Rightarrow> string \<Rightarrow> string" where
  "probe_script serverDataFolderName commit =
     ''h=$(printenv HOME); '' @ ''a=$(uname -m); ''
     @ ''b=no; [ -x '' @ dquoted (''$h/'' @ REMOTE_DIR_NAME @ ''/bin/sh'') @ '' ] && b=yes; ''
     @ ''i=no; [ -f '' @ dquoted (''$h/'' @ serverDataFolderName @ ''/bin/'' @ commit @ ''/node'') @ '' ] && i=yes; ''
     @ ''printf '' @ dquoted (''%s'' @ [CHR 0x0A]) @ '' '' @ dquoted ''$1'' @ ''; ''
     @ ''printf '' @ dquoted (''%s'' @ [CHR 0x0A]) @ '' '' @ dquoted ''$h'' @ '' '' @ dquoted ''$a'' @ '' ''
     @ dquoted ''$b'' @ '' '' @ dquoted ''$i''"

definition probe_command :: "string \<Rightarrow> string \<Rightarrow> string \<Rightarrow> string" where
  "probe_command serverDataFolderName commit marker =
     ''sh -c '' @ shellQuote (probe_script serverDataFolderName commit) @ '' sh '' @ shellQuote marker"

definition HOME_EMPTY :: js_error where
  "HOME_EMPTY = plain_error ''Remote HOME is empty; refusing to install into /tmp''"

definition parse_probe :: "string \<Rightarrow> string \<Rightarrow> remote_probe result" where
  "parse_probe marker stdout =
     (let lines = map strip_cr (js_split (CHR 0x0A) stdout)
      in case dropWhile (\<lambda>l. l \<noteq> marker) lines of
           [] \<Rightarrow> Inl (plain_error (''Remote probe: marker not found in output: '' @ take 200 stdout))
         | _ # behind \<Rightarrow>
             (let fields = take 4 behind
              in if length fields < 4
                 then Inl (plain_error (''Remote probe: expected 4 fields after marker, got '' @ dec (length fields)
                             @ '': '' @ take 200 stdout))
                 else if trim (fields ! 0) = [] then Inl HOME_EMPTY
                 else case normalizeArch (trim (fields ! 1)) of
                        Inl e \<Rightarrow> Inl e
                      | Inr a \<Rightarrow> Inr \<lparr>probe_home = trim (fields ! 0), probe_arch = a,
                                      busyboxPresent = (trim (fields ! 2) = ''yes''),
                                      installPresent = (trim (fields ! 3) = ''yes'')\<rparr>))"

definition probe_marker :: "bytes \<Rightarrow> string" where
  "probe_marker nonce = ''ZYPROBE-'' @ hex_encode nonce"

definition probeRemote :: "bytes \<Rightarrow> 'w conn \<Rightarrow> string \<Rightarrow> string \<Rightarrow> ('w, remote_probe) promise" where
  "probeRemote nonce conn serverDataFolderName commit =
     await (c_exec conn (probe_command serverDataFolderName commit (probe_marker nonce)) None)
       (\<lambda>result. if out_exitCode result \<noteq> Some 0
                 then reject (plain_error (''Remote probe failed (exit '' @ show_code (out_exitCode result) @ ''): ''
                                @ or_else (out_stderr result) (take 200 (out_stdout result))))
                 else (\<lambda>w. (parse_probe (probe_marker nonce) (out_stdout result), w)))"

definition probeHome :: "'w conn \<Rightarrow> ('w, string) promise" where
  "probeHome conn =
     await (c_exec conn ''printenv HOME'' None)
       (\<lambda>result. if trim (out_stdout result) = [] then reject HOME_EMPTY else resolve (trim (out_stdout result)))"

definition probeArch :: "'w conn \<Rightarrow> ('w, string) promise" where
  "probeArch conn =
     await (c_exec conn ''uname -m'' None)
       (\<lambda>result. if out_exitCode result \<noteq> Some 0
                 then reject (plain_error (''Failed to detect architecture: '' @ out_stderr result))
                 else (\<lambda>w. (normalizeArch (out_stdout result), w)))"

definition isBootstrapped :: "'w conn \<Rightarrow> string \<Rightarrow> ('w, bool) promise" where
  "isBootstrapped conn home =
     await (c_exec conn (''test -x '' @ shellQuote (remoteShPath home)) None)
       (\<lambda>result. resolve (out_exitCode result = Some 0))"

section \<open>Bootstrap\<close>

definition bootstrap_script :: string where
  "bootstrap_script =
     ''mkdir -p '' @ dquoted ''$1'' @ '' && '' @ ''cat > '' @ dquoted ''$2'' @ '' && ''
     @ ''chmod +x '' @ dquoted ''$2'' @ '' && '' @ dquoted ''$2'' @ '' true && ''
     @ dquoted ''$2'' @ '' --install -s '' @ dquoted ''$1''"

definition bootstrap_command :: "string \<Rightarrow> string" where
  "bootstrap_command home =
     ''sh -c '' @ shellQuote bootstrap_script @ '' sh '' @ shellQuote (remoteToolsDir home) @ '' ''
     @ shellQuote (remoteBusyboxPath home)"

text \<open>\<open>readFileSync\<close> is an argument: the bytes of a local file, or its error.\<close>

definition bootstrapBusybox ::
    "(string \<Rightarrow> bytes result) \<Rightarrow> 'w conn \<Rightarrow> string \<Rightarrow> string \<Rightarrow> string \<Rightarrow> ('w, unit) promise" where
  "bootstrapBusybox readFileSync conn home arch extensionPath =
     (case readFileSync (localBusyboxPath extensionPath arch) of
        Inl e \<Rightarrow> reject e
      | Inr busyboxBuf \<Rightarrow>
          await (c_execWithStdin conn (bootstrap_command home) busyboxBuf)
            (\<lambda>result. if out_exitCode result \<noteq> Some 0
                      then reject (plain_error (''Bootstrap failed (exit '' @ show_code (out_exitCode result) @ ''): ''
                                     @ or_else (out_stderr result) (out_stdout result)))
                      else resolve ()))"

section \<open>What the login shell sees\<close>

text \<open>A quoted or plain token, followed by a blank, is one word.\<close>

named_theorems shell_words \<open>reading the words of a composed command line\<close>

lemma word_quoted [shell_words]:
  "sh_scan Between [] (shellQuote s @ CHR '' '' # r) = map_option ((#) s) (sh_scan Between [] r)"
  using scan_shellQuote [of Between "[]" s "CHR '' '' # r"] by simp

lemma word_quoted_last [shell_words]: "sh_scan Between [] (shellQuote s) = Some [s]"
  using scan_shellQuote [of Between "[]" s "[]"] by simp

lemma word_plain:
  "list_all sh_plain s \<Longrightarrow> s \<noteq> [] \<Longrightarrow>
   sh_scan Between [] (s @ CHR '' '' # r) = map_option ((#) s) (sh_scan Between [] r)"
  using scan_plain [of s Between "[]" "CHR '' '' # r"] by simp

lemma word_sh_c [shell_words]:
  "sh_scan Between [] (''sh -c '' @ r) = map_option (\<lambda>ws. ''sh'' # ''-c'' # ws) (sh_scan Between [] r)"
  using word_plain [of "''sh''" "''-c '' @ r"] word_plain [of "''-c''" r]
  by (simp add: sh_plain_def option.map_comp comp_def)

lemma word_c [shell_words]:
  "sh_scan Between [] (CHR ''-'' # CHR ''c'' # CHR '' '' # r) = map_option ((#) ''-c'') (sh_scan Between [] r)"
  using word_plain [of "''-c''" r] by (simp add: sh_plain_def)

lemma word_sh [shell_words]:
  "sh_scan Between [] (CHR ''s'' # CHR ''h'' # CHR '' '' # r) = map_option ((#) ''sh'') (sh_scan Between [] r)"
  using word_plain [of "''sh''" r] by (simp add: sh_plain_def)

lemma sh_path_plain:
  "list_all sh_plain home \<Longrightarrow> list_all sh_plain (remoteShPath home) \<and> remoteShPath home \<noteq> []"
  by (simp add: remoteShPath_def remoteToolsDir_def REMOTE_DIR_NAME_def sh_plain_def)

lemma bb_command_words:
  assumes "list_all sh_plain home"
  shows "sh_words (bb_command home command)
       = Some [remoteShPath home, ''-c'',
               ''export PATH='' @ shellQuote (remoteToolsDir home) @ '':$PATH; '' @ command]"
  using sh_path_plain [OF assms] word_plain [of "remoteShPath home"]
  by (simp add: sh_words_def bb_command_def shell_words sh_plain_def)

lemma probe_command_words:
  "sh_words (probe_command folder commit marker) = Some [''sh'', ''-c'', probe_script folder commit, ''sh'', marker]"
  by (simp add: sh_words_def probe_command_def shell_words sh_plain_def)

lemma bootstrap_command_words:
  "sh_words (bootstrap_command home)
   = Some [''sh'', ''-c'', bootstrap_script, ''sh'', remoteToolsDir home, remoteBusyboxPath home]"
  by (simp add: sh_words_def bootstrap_command_def shell_words sh_plain_def)

lemma agent_command_words:
  assumes "list_all sh_plain home"
  shows "sh_words (agent_command script home link marker)
       = Some [remoteShPath home, ''-c'', script, ''sh'', link, remoteToolsDir home, marker]"
  using sh_path_plain [OF assms] word_plain [of "remoteShPath home"]
  by (simp add: sh_words_def agent_command_def shell_words sh_plain_def)

section \<open>Reading marked output\<close>

lemma ready_scan_append:
  "ready_scan (a @ [x]) m = Some b \<Longrightarrow> ready_scan (a @ y # r) m = Some b"
proof (induction a)
  case (Cons l a)
  show ?case
  proof (cases a)
    case a: (Cons v a')
    show ?thesis
    proof (cases a')
      case Nil
      with a Cons.prems show ?thesis by (cases r) (auto split: if_splits)
    next
      case a': (Cons w a'')
      from Cons a show ?thesis unfolding a' by (auto split: if_splits)
    qed
  qed (use Cons.prems in simp)
qed simp

lemma ready_append:
  "parseAgentForwardReady s m = Some b \<Longrightarrow> parseAgentForwardReady (s @ t) m = Some b"
proof -
  assume h: "parseAgentForwardReady s m = Some b"
  let ?nl = "CHR 0x0A"
  have "js_split ?nl s = butlast (js_split ?nl s) @ [last (js_split ?nl s)]" by simp
  moreover obtain y r where "js_split ?nl (last (js_split ?nl s) @ t) = y # r"
    by (cases "js_split ?nl (last (js_split ?nl s) @ t)") auto
  ultimately show ?thesis
    using h ready_scan_append [of "butlast (js_split ?nl s)"] js_split_last [of ?nl s t]
    unfolding parseAgentForwardReady_def by metis
qed

lemma ready_scan_finds:
  assumes "\<forall>l \<in> set noise. strip_cr l \<noteq> marker" and "strip_cr m = marker" and "rest \<noteq> []"
  shows "ready_scan (noise @ m # v # rest) marker = Some (strip_cr v = ''yes'')"
  using assms(1)
proof (induction noise)
  case Nil
  then show ?case using assms(2,3) by (cases rest) auto
next
  case (Cons l noise)
  have "ready_scan (l # noise @ m # v # rest) marker = ready_scan (noise @ m # v # rest) marker"
    using Cons.prems assms(3) by (cases noise; cases "tl noise"; cases rest) auto
  with Cons show ?case by simp
qed

lemma trim_idem [simp]: "trim (trim s) = trim s"
  by (simp add: trim_trimmed trimmed_trim)

lemma trim_strip_cr: "trim (strip_cr l) = trim l"
proof (cases "l \<noteq> [] \<and> last l = CHR 0x0D")
  case True
  then have "butlast l @ [CHR 0x0D] = l" using append_butlast_last_id [of l] by simp
  with trim_snoc_space [of "CHR 0x0D" "butlast l"] True show ?thesis by (simp add: strip_cr_def is_space_def)
qed (auto simp: strip_cr_def)

text \<open>What a shell's start-up files wrote before the marker line.\<close>

definition noise_lines :: "string list \<Rightarrow> string" where
  "noise_lines ls = concat (map (\<lambda>l. l @ [CHR 0x0A]) ls)"

lemma split_noise:
  "(\<forall>l \<in> set ls. CHR 0x0A \<notin> set l) \<Longrightarrow> js_split (CHR 0x0A) (noise_lines ls @ s) = ls @ js_split (CHR 0x0A) s"
  by (induction ls) (simp_all add: noise_lines_def js_split_cons)

lemma probe_ignores_noise_lemma:
  assumes "\<forall>l \<in> set noise. CHR 0x0A \<notin> set l \<and> strip_cr l \<noteq> marker"
    and "\<forall>l \<in> set [m, h, a, b, i]. CHR 0x0A \<notin> set l" and "strip_cr m = marker"
  shows "parse_probe marker (noise_lines noise @ noise_lines [m, h, a, b, i] @ later) =
     (if trim h = [] then Inl HOME_EMPTY
      else case normalizeArch a of
             Inl e \<Rightarrow> Inl e
           | Inr x \<Rightarrow> Inr \<lparr>probe_home = trim h, probe_arch = x, busyboxPresent = (trim b = ''yes''),
                           installPresent = (trim i = ''yes'')\<rparr>)"
proof -
  let ?nl = "CHR 0x0A"
  have "js_split ?nl (noise_lines (noise @ [m, h, a, b, i]) @ later) = (noise @ [m, h, a, b, i]) @ js_split ?nl later"
    by (rule split_noise) (use assms in auto)
  then have lines: "js_split ?nl (noise_lines noise @ noise_lines [m, h, a, b, i] @ later)
      = noise @ [m, h, a, b, i] @ js_split ?nl later"
    by (simp add: noise_lines_def)
  have "dropWhile (\<lambda>l. l \<noteq> marker) (map strip_cr (noise @ [m, h, a, b, i] @ js_split ?nl later))
      = marker # map strip_cr ([h, a, b, i] @ js_split ?nl later)"
    using assms(1,3) by (simp add: dropWhile_append)
  then show ?thesis
    unfolding parse_probe_def lines Let_def
    by (simp add: trim_strip_cr normalizeArch_def Let_def)
qed

section \<open>Properties\<close>

text \<open>Once the output of the agent command has been judged, whatever the keep-alive loop or
  anything else writes after it does not change the verdict, and nothing that was printed
  before the marker line does.\<close>

theorem agent_ready_stable:
  assumes "\<forall>l \<in> set noise. CHR 0x0A \<notin> set l \<and> strip_cr l \<noteq> marker"
    and "CHR 0x0A \<notin> set m" and "CHR 0x0A \<notin> set answer" and "strip_cr m = marker"
  shows "parseAgentForwardReady (noise_lines noise @ m @ [CHR 0x0A] @ answer @ [CHR 0x0A] @ later) marker
         = Some (strip_cr answer = ''yes'')
       \<and> (parseAgentForwardReady stdout marker = Some b \<longrightarrow> parseAgentForwardReady (stdout @ later) marker = Some b)"
proof
  have "js_split (CHR 0x0A) (noise_lines noise @ m @ [CHR 0x0A] @ answer @ [CHR 0x0A] @ later)
        = noise @ m # answer # js_split (CHR 0x0A) later"
    using assms by (simp add: split_noise js_split_cons)
  then show "parseAgentForwardReady (noise_lines noise @ m @ [CHR 0x0A] @ answer @ [CHR 0x0A] @ later) marker
         = Some (strip_cr answer = ''yes'')"
    using ready_scan_finds [of noise marker m "js_split (CHR 0x0A) later"] assms
    by (simp add: parseAgentForwardReady_def)
  show "parseAgentForwardReady stdout marker = Some b \<longrightarrow> parseAgentForwardReady (stdout @ later) marker = Some b"
    using ready_append by blast
qed

theorem agent_ready_stable_witness:
  "parseAgentForwardReady (''motd'' @ [CHR 0x0A] @ ''ZYAGENT-0a'' @ [CHR 0x0D, CHR 0x0A] @ ''yes'' @ [CHR 0x0A] @ '' '') ''ZYAGENT-0a''
   = Some True"
  using agent_ready_stable [of "[''motd'']" "''ZYAGENT-0a''" "''ZYAGENT-0a'' @ [CHR 0x0D]" "''yes''" "'' ''" "[]" True]
  by (simp add: strip_cr_def noise_lines_def)

text \<open>A probe finds the remote home, architecture and installation state behind any output of
  the login shell's start-up files, also when the lines end with a carriage return; an empty
  home and an unknown architecture are errors, never a default.\<close>

theorem probe_ignores_noise:
  assumes "\<forall>l \<in> set noise. CHR 0x0A \<notin> set l \<and> strip_cr l \<noteq> marker"
    and "\<forall>l \<in> set [m, h, a, b, i]. CHR 0x0A \<notin> set l" and "strip_cr m = marker"
  shows "parse_probe marker (noise_lines noise @ noise_lines [m, h, a, b, i] @ later) =
     (if trim h = [] then Inl HOME_EMPTY
      else case normalizeArch a of
             Inl e \<Rightarrow> Inl e
           | Inr x \<Rightarrow> Inr \<lparr>probe_home = trim h, probe_arch = x, busyboxPresent = (trim b = ''yes''),
                           installPresent = (trim i = ''yes'')\<rparr>)"
  using assms by (rule probe_ignores_noise_lemma)

theorem probe_ignores_noise_witness:
  "parse_probe ''ZYPROBE-0a'' (''Welcome'' @ [CHR 0x0A] @ ''ZYPROBE-0a'' @ [CHR 0x0D, CHR 0x0A] @ ''/root'' @ [CHR 0x0D, CHR 0x0A]
      @ ''aarch64'' @ [CHR 0x0A] @ ''yes'' @ [CHR 0x0A] @ ''no'' @ [CHR 0x0A])
   = Inr \<lparr>probe_home = ''/root'', probe_arch = ''arm64'', busyboxPresent = True, installPresent = False\<rparr>"
proof -
  have "trim (''/root'' @ [CHR 0x0D]) = ''/root''" "trim ''aarch64'' = ''aarch64''" "trim ''yes'' = ''yes''" "trim ''no'' = ''no''"
    by (simp_all add: trim_def trim_start_def trim_end_def is_space_def)
  then show ?thesis
    using probe_ignores_noise [of "[''Welcome'']" "''ZYPROBE-0a''" "''ZYPROBE-0a'' @ [CHR 0x0D]" "''/root'' @ [CHR 0x0D]"
        "''aarch64''" "''yes''" "''no''" "[]"]
    by (simp add: strip_cr_def noise_lines_def normalizeArch_def)
qed

text \<open>The login shell of the remote host takes every command of this module apart into exactly
  the words that were composed, whatever the paths, scripts and markers contain: the probe and
  the bootstrap always, the commands under the vendored shell when the home directory needs no
  quoting. With a blank in the home directory the vendored shell is not even named: the shell
  path is the one value that is not quoted.\<close>

theorem composed_commands_words:
  "sh_words (probe_command folder commit marker) = Some [''sh'', ''-c'', probe_script folder commit, ''sh'', marker]
   \<and> sh_words (bootstrap_command home)
     = Some [''sh'', ''-c'', bootstrap_script, ''sh'', remoteToolsDir home, remoteBusyboxPath home]
   \<and> (list_all sh_plain home \<longrightarrow>
       sh_words (bb_command home command)
         = Some [remoteShPath home, ''-c'', ''export PATH='' @ shellQuote (remoteToolsDir home) @ '':$PATH; '' @ command]
       \<and> sh_words (fst (agentForwardCommandOneshot nonce home link))
         = Some [remoteShPath home, ''-c'', agent_script, ''sh'', link, remoteToolsDir home, ''ZYAGENT-'' @ hex_encode nonce])
   \<and> (\<exists>ws. sh_words (bb_command ''/home/a b'' command) = Some (''/home/a'' # ws))"
proof -
  have "sh_scan Between [] (bb_command ''/home/a b'' command)
      = map_option ((#) ''/home/a'') (sh_scan Between [] (''b/.ssh-remote/bin/sh -c '' @
          shellQuote (''export PATH='' @ shellQuote (remoteToolsDir ''/home/a b'') @ '':$PATH; '' @ command)))"
    using word_plain [of "''/home/a''"]
    by (simp add: bb_command_def remoteShPath_def remoteToolsDir_def REMOTE_DIR_NAME_def sh_plain_def)
  also have "\<dots> = Some [''/home/a'', ''b/.ssh-remote/bin/sh'', ''-c'',
          ''export PATH='' @ shellQuote (remoteToolsDir ''/home/a b'') @ '':$PATH; '' @ command]"
    using word_plain [of "''b/.ssh-remote/bin/sh''"] by (simp add: sh_plain_def shell_words)
  finally show ?thesis
    by (simp add: probe_command_words bootstrap_command_words bb_command_words agent_command_words
        agentForwardCommandOneshot_def sh_words_def [of "bb_command ''/home/a b'' command"] Let_def)
qed

theorem composed_commands_words_witness:
  "sh_words (bb_command ''/root'' ''true'')
   = Some [''/root/.ssh-remote/bin/sh'', ''-c'', ''export PATH='' @ shellQuote ''/root/.ssh-remote/bin'' @ '':$PATH; true'']"
  using composed_commands_words [of "[]" "[]" "[]" "''/root''" "''true''" "[]" "[]"]
  by (simp add: sh_plain_def remoteShPath_def remoteToolsDir_def REMOTE_DIR_NAME_def)

end
