(* ===== verification/RemoteFiles.thy ===== *)
theory RemoteFiles
  imports Busybox
begin

text \<open>
  \<^verbatim>\<open>src/remote/connectionToken.ts\<close> and \<^verbatim>\<open>src/remote/authToken.ts\<close>: the files that the client
  writes on the remote host. The shell loop that receives the authentication files is
  modelled with them: \<open>auth_loop\<close> is what it reads from its standard input, \<open>auth_store\<close> what it
  does to the remote files. The remote \<^verbatim>\<open>base64 -d\<close> and which directories can be written are
  arguments.
\<close>

section \<open>The connection token\<close>

definition token_file_of :: "string \<Rightarrow> string option \<Rightarrow> string" where
  "token_file_of home installPath =
     (let suffix = (if truthy installPath then ''-'' @ basename (nullish installPath []) else [])
      in home @ ''/'' @ REMOTE_DIR_NAME @ ''/conn-token'' @ suffix)"

definition write_token_command :: "string \<Rightarrow> string \<Rightarrow> string" where
  "write_token_command home tokenFile =
     ''mkdir -p '' @ shellQuote (home @ ''/'' @ REMOTE_DIR_NAME) @ '' && umask 077 && cat > '' @ shellQuote tokenFile"

definition writeConnectionTokenFile ::
    "'w conn \<Rightarrow> string \<Rightarrow> string \<Rightarrow> string option \<Rightarrow> ('w, string) promise" where
  "writeConnectionTokenFile conn home token installPath =
     (let tokenFile = token_file_of home installPath
      in await (bbExecWithStdin conn home (write_token_command home tokenFile) (utf8_bytes token))
           (\<lambda>result. if out_exitCode result \<noteq> Some 0
                     then reject (plain_error (''Failed to write connection token file (exit ''
                                    @ show_code (out_exitCode result) @ ''): '' @ out_stderr result))
                     else resolve tokenFile))"

definition readConnectionTokenFile ::
    "'w conn \<Rightarrow> string \<Rightarrow> string option \<Rightarrow> ('w, string option) promise" where
  "readConnectionTokenFile conn home installPath =
     await (bbExec conn home (''cat '' @ shellQuote (token_file_of home installPath) @ '' 2>/dev/null''))
       (\<lambda>result. if out_exitCode result \<noteq> Some 0 \<or> trim (out_stdout result) = []
                 then resolve None else resolve (Some (trim (out_stdout result))))"

definition removeConnectionTokenFile :: "'w conn \<Rightarrow> string \<Rightarrow> ('w, unit) promise" where
  "removeConnectionTokenFile conn tokenFile =
     catching (await (c_exec conn (''rm -f '' @ shellQuote tokenFile) None) (\<lambda>result. resolve ()))
       (\<lambda>err. resolve ())"

section \<open>The authentication files\<close>

text \<open>A file is its path below the home directory and its content.\<close>

type_synonym auth_file = "string \<times> string"

definition auth_script :: string where
  "auth_script = [CHR 0x0A] @ js_join [CHR 0x0A]
     [''while IFS= read -r AUTH_PATH; do'',
      ''  [ -z '' @ dquoted ''$AUTH_PATH'' @ '' ] && break'',
      ''  IFS= read -r AUTH_B64'',
      ''  DEST='' @ dquoted ''$HOME/$AUTH_PATH'',
      ''  DIR=$(dirname '' @ dquoted ''$DEST'' @ '')'',
      ''  mkdir -p '' @ dquoted ''$DIR'' @ '' 2>/dev/null || true'',
      ''  TMP='' @ dquoted ''$DIR/.auth.$$'',
      ''  if printf '' @ [CHR 0x27] @ ''%s'' @ [CHR 0x27] @ '' '' @ dquoted ''$AUTH_B64'' @ '' | base64 -d > ''
        @ dquoted ''$TMP'' @ '' 2>/dev/null; then'',
      ''    chmod 600 '' @ dquoted ''$TMP'' @ '' 2>/dev/null || true'',
      ''    mv -f '' @ dquoted ''$TMP'' @ '' '' @ dquoted ''$DEST'' @ '' 2>/dev/null || rm -f '' @ dquoted ''$TMP'' @ '' 2>/dev/null'',
      ''  fi'',
      ''done''] @ [CHR 0x0A]"

definition auth_payload :: "auth_file list \<Rightarrow> bytes" where
  "auth_payload files =
     concat (map (\<lambda>(p, content). utf8_bytes (p @ [CHR 0x0A])
                    @ utf8_bytes (base64_encode (utf8_bytes content) @ [CHR 0x0A])) files)
       @ utf8_bytes [CHR 0x0A]"

text \<open>\<open>readAuthFiles\<close> is absent from adapters that have no such files.\<close>

definition copyAuthFiles :: "'w conn \<Rightarrow> string \<Rightarrow> auth_file list option \<Rightarrow> ('w, unit) promise" where
  "copyAuthFiles conn home readAuthFiles =
     (case readAuthFiles of
        None \<Rightarrow> resolve ()
      | Some files \<Rightarrow>
          if length files = 0 then resolve ()
          else await (bbExecWithStdin conn home auth_script (auth_payload files))
                 (\<lambda>result. if out_exitCode result \<noteq> Some 0
                           then reject (plain_error (''Failed to copy auth files (exit ''
                                          @ show_code (out_exitCode result) @ ''): '' @ out_stderr result))
                           else resolve ()))"

text \<open>The remote side: \<^verbatim>\<open>read\<close> takes a complete line and fails at the end of the input.\<close>

definition stdin_lines :: "bytes \<Rightarrow> string list" where
  "stdin_lines bs = butlast (js_split (CHR 0x0A) (utf8_string bs))"

fun auth_loop :: "string list \<Rightarrow> (string \<times> string) list" where
  "auth_loop [] = []"
| "auth_loop [p] = (if p = [] then [] else [(p, [])])"
| "auth_loop (p # b64 # rest) = (if p = [] then [] else (p, b64) # auth_loop rest)"

definition auth_store ::
    "(string \<Rightarrow> bytes option) \<Rightarrow> (string \<Rightarrow> bool) \<Rightarrow> string \<Rightarrow> string \<times> string \<Rightarrow> (string \<Rightarrow> bytes option) \<Rightarrow> (string \<Rightarrow> bytes option)" where
  "auth_store decode writable HOME = (\<lambda>(p, b64) fs.
     let dest = HOME @ ''/'' @ p
     in case decode b64 of
          None \<Rightarrow> fs
        | Some content \<Rightarrow> if writable dest then fs(dest \<mapsto> content) else fs)"

definition run_auth_script ::
    "(string \<Rightarrow> bytes option) \<Rightarrow> (string \<Rightarrow> bool) \<Rightarrow> string \<Rightarrow> bytes \<Rightarrow> (string \<Rightarrow> bytes option) \<Rightarrow> (string \<Rightarrow> bytes option)" where
  "run_auth_script decode writable HOME stdin fs =
     fold (auth_store decode writable HOME) (auth_loop (stdin_lines stdin)) fs"

section \<open>Lemmas\<close>

lemma b64_no_newline: "CHR 0x0A \<notin> set (base64_encode bs)"
proof -
  have "b64_char n \<noteq> CHR 0x0A" if "n < 64" for n
  proof
    assume "b64_char n = CHR 0x0A"
    with b64_val_char [OF that] show False by (simp add: b64_val_def)
  qed
  then have "CHR 0x0A \<notin> b64_char ` set (base64_digits bs)"
    using base64_digits_small by (metis imageE)
  then show ?thesis by (auto simp: base64_encode_def base64_padding_def)
qed

lemma payload_text:
  "auth_payload files = utf8_bytes (noise_lines (concat (map (\<lambda>(p, content). [p, base64_encode (utf8_bytes content)]) files)) @ [CHR 0x0A])"
  by (induction files) (auto simp: auth_payload_def noise_lines_def utf8_bytes_def)

lemma payload_lines:
  assumes "\<forall>(p, content) \<in> set files. CHR 0x0A \<notin> set p"
  shows "stdin_lines (auth_payload files) = concat (map (\<lambda>(p, content). [p, base64_encode (utf8_bytes content)]) files) @ [[]]"
proof -
  let ?ls = "concat (map (\<lambda>(p, content). [p, base64_encode (utf8_bytes content)]) files)"
  have "\<forall>l \<in> set ?ls. CHR 0x0A \<notin> set l" using assms b64_no_newline by fastforce
  then have "js_split (CHR 0x0A) (noise_lines ?ls @ [CHR 0x0A]) = ?ls @ [[], []]"
    by (simp add: split_noise)
  then show ?thesis by (simp add: stdin_lines_def payload_text butlast_append)
qed

lemma loop_reads_payload:
  assumes "\<forall>(p, content) \<in> set files. p \<noteq> []"
  shows "auth_loop (concat (map (\<lambda>(p, content). [p, base64_encode (utf8_bytes content)]) files) @ [[]])
       = map (\<lambda>(p, content). (p, base64_encode (utf8_bytes content))) files"
  using assms by (induction files) auto

lemma store_other: "dest \<noteq> HOME @ ''/'' @ fst f \<Longrightarrow> auth_store decode writable HOME f fs dest = fs dest"
  by (auto simp: auth_store_def Let_def split: prod.splits option.splits)

lemma store_others:
  "dest \<notin> (\<lambda>f. HOME @ ''/'' @ fst f) ` set fsl \<Longrightarrow> fold (auth_store decode writable HOME) fsl fs dest = fs dest"
  by (induction fsl arbitrary: fs) (auto simp: store_other)

lemma stored:
  assumes "\<forall>b. decode (base64_encode b) = Some b" and "distinct (map fst files)" and "(p, content) \<in> set files"
  shows "fold (auth_store decode writable HOME) (map (\<lambda>(p, content). (p, base64_encode (utf8_bytes content))) files) fs
           (HOME @ ''/'' @ p)
       = (if writable (HOME @ ''/'' @ p) then Some (utf8_bytes content) else fs (HOME @ ''/'' @ p))"
  using assms(2,3)
proof (induction files arbitrary: fs)
  case (Cons f files)
  show ?case
  proof (cases "f = (p, content)")
    case True
    with Cons.prems(1) have "p \<notin> fst ` set files" by simp
    then have "HOME @ ''/'' @ p \<notin> (\<lambda>f. HOME @ ''/'' @ fst f) ` set (map (\<lambda>(p, content). (p, base64_encode (utf8_bytes content))) files)"
      by force
    with True show ?thesis
      using assms(1) by (simp add: store_others) (simp add: auth_store_def)
  next
    case False
    with Cons.prems have m: "(p, content) \<in> set files" and "fst f \<noteq> p" by (auto simp: image_iff)
    then have "auth_store decode writable HOME (fst f, base64_encode (utf8_bytes (snd f))) fs (HOME @ ''/'' @ p) = fs (HOME @ ''/'' @ p)"
      by (simp add: store_other)
    with Cons.IH [OF _ m, of "auth_store decode writable HOME (fst f, base64_encode (utf8_bytes (snd f))) fs"] Cons.prems(1)
    show ?thesis by (simp add: case_prod_beta)
  qed
qed simp

section \<open>Properties\<close>

text \<open>C13. The authentication files that the client sends arrive: the remote loop, reading what
  was written to its standard input, leaves every file whose directory can be written with
  exactly its content, whatever the content is, and changes no other file.\<close>

theorem auth_files_delivered:
  assumes "\<forall>b. decode (base64_encode b) = Some b"
    and "\<forall>(p, content) \<in> set files. p \<noteq> [] \<and> CHR 0x0A \<notin> set p"
    and "distinct (map fst files)"
  shows "run_auth_script decode writable HOME (auth_payload files) fs dest =
     (case find (\<lambda>(p, content). dest = HOME @ ''/'' @ p) files of
        None \<Rightarrow> fs dest
      | Some (p, content) \<Rightarrow> if writable dest then Some (utf8_bytes content) else fs dest)"
proof -
  let ?fs = "map (\<lambda>(p, content). (p, base64_encode (utf8_bytes content))) files"
  have "auth_loop (stdin_lines (auth_payload files)) = ?fs"
  proof -
    have "\<forall>(p, content) \<in> set files. CHR 0x0A \<notin> set p" "\<forall>(p, content) \<in> set files. p \<noteq> []"
      using assms(2) by auto
    then show ?thesis by (simp add: payload_lines loop_reads_payload)
  qed
  then have run: "run_auth_script decode writable HOME (auth_payload files) fs dest
      = fold (auth_store decode writable HOME) ?fs fs dest"
    by (simp add: run_auth_script_def)
  show ?thesis
  proof (cases "find (\<lambda>(p, content). dest = HOME @ ''/'' @ p) files")
    case None
    then have "dest \<notin> (\<lambda>f. HOME @ ''/'' @ fst f) ` set ?fs" by (force simp: find_None_iff)
    with run None show ?thesis by (simp add: store_others)
  next
    case (Some f)
    then obtain p content where f: "f = (p, content)" "(p, content) \<in> set files" "dest = HOME @ ''/'' @ p"
      by (force simp: find_Some_iff in_set_conv_nth)
    with run Some stored [OF assms(1,3), of p content writable HOME fs] show ?thesis by simp
  qed
qed

theorem auth_files_delivered_witness:
  "run_auth_script (\<lambda>s. Some (base64_decode s)) (\<lambda>d. d \<noteq> ''/root/.aws/sso/b'') ''/root''
     (auth_payload [(''.aws/sso/a'', ''tok'' @ [CHR 0x0A] @ ''en''), (''.aws/sso/b'', ''x'')]) (\<lambda>d. None) ''/root/.aws/sso/a''
   = Some (utf8_bytes (''tok'' @ [CHR 0x0A] @ ''en''))"
  using auth_files_delivered [of "\<lambda>s. Some (base64_decode s)" "[(''.aws/sso/a'', ''tok'' @ [CHR 0x0A] @ ''en''), (''.aws/sso/b'', ''x'')]"
      "\<lambda>d. d \<noteq> ''/root/.aws/sso/b''" "''/root''" "\<lambda>d. None" "''/root/.aws/sso/a''"]
  by simp

end
