(* ===== verification/Json.thy ===== *)
theory Json
  imports Prelude
begin

text \<open>
  JSON as the program uses it: \<^verbatim>\<open>JSON.stringify\<close> and \<^verbatim>\<open>JSON.parse\<close>, the standard library's
  functions, and the ways the code looks into a parsed value of unknown shape (property
  access, truth value, \<^verbatim>\<open>typeof\<close>). A number is kept as its source text; an object as its
  list of properties, of which the last one of a name counts.

  The parser takes fuel because of its nesting; \<open>parse_json\<close> gives it more than any text of
  that length can use, and \<open>parse_stringify\<close> shows that it reads back every printed value.
\<close>

datatype json = JNull | JBool bool | JNum string | JStr string
  | JArr "json list" | JObj "(string \<times> json) list"

section \<open>Printing\<close>

definition json_escape_char :: "char \<Rightarrow> string" where
  "json_escape_char c =
     (let n = of_char c :: nat in
      if n = 34 then [char_of (92::nat), c]
      else if n = 92 then [c, c]
      else if n = 8 then [char_of (92::nat), CHR ''b'']
      else if n = 9 then [char_of (92::nat), CHR ''t'']
      else if n = 10 then [char_of (92::nat), CHR ''n'']
      else if n = 12 then [char_of (92::nat), CHR ''f'']
      else if n = 13 then [char_of (92::nat), CHR ''r'']
      else if n < 32 then [char_of (92::nat), CHR ''u'', CHR ''0'', CHR ''0'',
                           hex_char (n div 16), hex_char (n mod 16)]
      else [c])"

definition json_quote :: "string \<Rightarrow> string" where
  "json_quote s = char_of (34::nat) # concat (map json_escape_char s) @ [char_of (34::nat)]"

fun stringify :: "json \<Rightarrow> string" where
  "stringify JNull = ''null''"
| "stringify (JBool b) = (if b then ''true'' else ''false'')"
| "stringify (JNum l) = l"
| "stringify (JStr s) = json_quote s"
| "stringify (JArr vs) = CHR ''['' # js_join '','' (map stringify vs) @ '']''"
| "stringify (JObj kvs) =
     CHR ''{'' # js_join '','' (map (\<lambda>(k, v). json_quote k @ '':'' @ stringify v) kvs) @ ''}''"

text \<open>\<^verbatim>\<open>JSON.stringify\<close> leaves out a property whose value is \<^verbatim>\<open>undefined\<close>.\<close>

definition opt_field :: "string \<Rightarrow> json option \<Rightarrow> (string \<times> json) list" where
  "opt_field k v = (case v of None \<Rightarrow> [] | Some x \<Rightarrow> [(k, x)])"

section \<open>Parsing\<close>

definition json_ws :: "char \<Rightarrow> bool" where
  "json_ws c = (of_char c \<in> {9, 10, 13, 32 :: nat})"

definition skip_ws :: "string \<Rightarrow> string" where
  "skip_ws s = dropWhile json_ws s"

text \<open>A string literal is a list of raw bytes and of UTF-16 code units from escapes; a
  surrogate pair becomes one character, a lone surrogate the replacement character.\<close>

datatype piece = Raw char | Unit nat

definition utf8_of_code :: "nat \<Rightarrow> string" where
  "utf8_of_code u =
     (if u < 128 then [char_of u]
      else if u < 2048 then [char_of (192 + u div 64), char_of (128 + u mod 64)]
      else if u < 65536 then
        [char_of (224 + u div 4096), char_of (128 + u div 64 mod 64), char_of (128 + u mod 64)]
      else [char_of (240 + u div 262144), char_of (128 + u div 4096 mod 64),
            char_of (128 + u div 64 mod 64), char_of (128 + u mod 64)])"

definition is_high :: "nat \<Rightarrow> bool" where "is_high u = (55296 \<le> u \<and> u < 56320)"

definition is_low :: "nat \<Rightarrow> bool" where "is_low u = (56320 \<le> u \<and> u < 57344)"

fun assemble :: "piece list \<Rightarrow> string" where
  "assemble [] = []"
| "assemble (Raw c # ps) = c # assemble ps"
| "assemble [Unit u] = utf8_of_code (if is_high u \<or> is_low u then 65533 else u)"
| "assemble (Unit u # Raw c # ps) =
     utf8_of_code (if is_high u \<or> is_low u then 65533 else u) @ c # assemble ps"
| "assemble (Unit u # Unit v # ps) =
     (if is_high u \<and> is_low v
      then utf8_of_code (65536 + (u - 55296) * 1024 + (v - 56320)) @ assemble ps
      else utf8_of_code (if is_high u \<or> is_low u then 65533 else u) @ assemble (Unit v # ps))"

definition hex4 :: "char \<Rightarrow> char \<Rightarrow> char \<Rightarrow> char \<Rightarrow> nat option" where
  "hex4 a b c d =
     (case (hex_val a, hex_val b, hex_val c, hex_val d) of
        (Some w, Some x, Some y, Some z) \<Rightarrow> Some (w * 4096 + x * 256 + y * 16 + z)
      | _ \<Rightarrow> None)"

definition simple_escape :: "char \<Rightarrow> char option" where
  "simple_escape e =
     (let n = of_char e :: nat in
      if n = 34 \<or> n = 92 \<or> n = 47 then Some e
      else if e = CHR ''b'' then Some (char_of (8::nat))
      else if e = CHR ''f'' then Some (char_of (12::nat))
      else if e = CHR ''n'' then Some (char_of (10::nat))
      else if e = CHR ''r'' then Some (char_of (13::nat))
      else if e = CHR ''t'' then Some (char_of (9::nat))
      else None)"

fun parse_pieces :: "string \<Rightarrow> (piece list \<times> string) option" where
  "parse_pieces [] = None"
| "parse_pieces (c # r) =
     (if of_char c = (34::nat) then Some ([], r)
      else if of_char c = (92::nat) then
        (case r of
           [] \<Rightarrow> None
         | e # r1 \<Rightarrow>
             if e = CHR ''u'' then
               (case r1 of
                  w # x # y # z # r2 \<Rightarrow>
                    (case hex4 w x y z of
                       None \<Rightarrow> None
                     | Some u \<Rightarrow> map_option (\<lambda>(ps, q). (Unit u # ps, q)) (parse_pieces r2))
                | _ \<Rightarrow> None)
             else (case simple_escape e of
                     None \<Rightarrow> None
                   | Some d \<Rightarrow> map_option (\<lambda>(ps, q). (Raw d # ps, q)) (parse_pieces r1)))
      else if of_char c < (32::nat) then None
      else map_option (\<lambda>(ps, q). (Raw c # ps, q)) (parse_pieces r))"

definition parse_str :: "string \<Rightarrow> (string \<times> string) option" where
  "parse_str s = map_option (\<lambda>(ps, r). (assemble ps, r)) (parse_pieces s)"

text \<open>Numbers: an optional minus, an integer part without leading zeros, a fraction, an exponent.\<close>

definition num_int :: "string \<Rightarrow> (string \<times> string) option" where
  "num_int s =
     (case s of
        [] \<Rightarrow> None
      | c # r \<Rightarrow> if c = CHR ''0'' then Some ([c], r)
                 else if is_digit c then Some (takeWhile is_digit s, dropWhile is_digit s)
                 else None)"

definition num_frac :: "string \<Rightarrow> (string \<times> string) option" where
  "num_frac s =
     (case s of
        c # r \<Rightarrow> if c = CHR ''.'' then
                    (let ds = takeWhile is_digit r in
                     if ds = [] then None else Some (c # ds, dropWhile is_digit r))
                  else Some ([], s)
      | [] \<Rightarrow> Some ([], []))"

definition num_exp :: "string \<Rightarrow> (string \<times> string) option" where
  "num_exp s =
     (case s of
        c # r \<Rightarrow> if c = CHR ''e'' \<or> c = CHR ''E'' then
                    (let sg = (case r of d # _ \<Rightarrow> if d = CHR ''+'' \<or> d = CHR ''-'' then [d] else [] | [] \<Rightarrow> []);
                         t = drop (length sg) r;
                         ds = takeWhile is_digit t
                     in if ds = [] then None else Some (c # sg @ ds, dropWhile is_digit t))
                  else Some ([], s)
      | [] \<Rightarrow> Some ([], []))"

definition parse_num :: "string \<Rightarrow> (string \<times> string) option" where
  "parse_num s =
     (let sg = (case s of c # _ \<Rightarrow> if c = CHR ''-'' then [c] else [] | [] \<Rightarrow> []) in
      case num_int (drop (length sg) s) of
        None \<Rightarrow> None
      | Some (i, r1) \<Rightarrow>
          (case num_frac r1 of
             None \<Rightarrow> None
           | Some (f, r2) \<Rightarrow>
               (case num_exp r2 of
                  None \<Rightarrow> None
                | Some (e, r3) \<Rightarrow> Some (sg @ i @ f @ e, r3))))"

fun parse_value :: "nat \<Rightarrow> string \<Rightarrow> (json \<times> string) option"
  and parse_elems :: "nat \<Rightarrow> string \<Rightarrow> (json list \<times> string) option"
  and parse_members :: "nat \<Rightarrow> string \<Rightarrow> ((string \<times> json) list \<times> string) option"
where
  "parse_value 0 s = None"
| "parse_value (Suc n) s =
     (case skip_ws s of
        [] \<Rightarrow> None
      | c # r \<Rightarrow>
          if of_char c = (34::nat) then map_option (\<lambda>(t, q). (JStr t, q)) (parse_str r)
          else if c = CHR ''{'' then
            (case skip_ws r of
               [] \<Rightarrow> None
             | d # q \<Rightarrow> if d = CHR ''}'' then Some (JObj [], q)
                        else map_option (\<lambda>(kvs, p). (JObj kvs, p)) (parse_members n r))
          else if c = CHR ''['' then
            (case skip_ws r of
               [] \<Rightarrow> None
             | d # q \<Rightarrow> if d = CHR '']'' then Some (JArr [], q)
                        else map_option (\<lambda>(vs, p). (JArr vs, p)) (parse_elems n r))
          else if prefix ''null'' (c # r) then Some (JNull, drop 3 r)
          else if prefix ''true'' (c # r) then Some (JBool True, drop 3 r)
          else if prefix ''false'' (c # r) then Some (JBool False, drop 4 r)
          else map_option (\<lambda>(l, q). (JNum l, q)) (parse_num (c # r)))"
| "parse_elems 0 s = None"
| "parse_elems (Suc n) s =
     (case parse_value n s of
        None \<Rightarrow> None
      | Some (v, r) \<Rightarrow>
          (case skip_ws r of
             [] \<Rightarrow> None
           | d # q \<Rightarrow> if d = CHR '']'' then Some ([v], q)
                      else if d = CHR '','' then
                        map_option (\<lambda>(vs, p). (v # vs, p)) (parse_elems n q)
                      else None))"
| "parse_members 0 s = None"
| "parse_members (Suc n) s =
     (case skip_ws s of
        [] \<Rightarrow> None
      | c # r \<Rightarrow>
          if of_char c \<noteq> (34::nat) then None
          else (case parse_str r of
            None \<Rightarrow> None
          | Some (k, r1) \<Rightarrow>
              (case skip_ws r1 of
                 [] \<Rightarrow> None
               | d # r2 \<Rightarrow>
                   if d \<noteq> CHR '':'' then None
                   else (case parse_value n r2 of
                     None \<Rightarrow> None
                   | Some (v, r3) \<Rightarrow>
                       (case skip_ws r3 of
                          [] \<Rightarrow> None
                        | e # q \<Rightarrow> if e = CHR ''}'' then Some ([(k, v)], q)
                                   else if e = CHR '','' then
                                     map_option (\<lambda>(kvs, p). ((k, v) # kvs, p)) (parse_members n q)
                                   else None)))))"

definition syntax_error :: js_error where
  "syntax_error = plain_error ''SyntaxError''"

definition parse_json :: "string \<Rightarrow> json result" where
  "parse_json s =
     (case parse_value (2 * length s + 1) s of
        None \<Rightarrow> Inl syntax_error
      | Some (v, r) \<Rightarrow> if skip_ws r = [] then Inr v else Inl syntax_error)"

section \<open>Looking into a parsed value\<close>

definition type_error :: js_error where
  "type_error = plain_error ''TypeError''"

text \<open>\<^verbatim>\<open>v.k\<close>: throws on null, is \<^verbatim>\<open>undefined\<close> where there is no such property.\<close>

definition json_prop :: "json \<Rightarrow> string \<Rightarrow> json option result" where
  "json_prop v k =
     (case v of
        JNull \<Rightarrow> Inl type_error
      | JObj kvs \<Rightarrow> Inr (map_of (rev kvs) k)
      | _ \<Rightarrow> Inr None)"

text \<open>The truth value of a property: a number is false when all digits of its mantissa are 0.\<close>

definition json_truthy :: "json option \<Rightarrow> bool" where
  "json_truthy v =
     (case v of
        None \<Rightarrow> False
      | Some JNull \<Rightarrow> False
      | Some (JBool b) \<Rightarrow> b
      | Some (JNum l) \<Rightarrow>
          (\<exists>c \<in> set (takeWhile (\<lambda>c. c \<noteq> CHR ''e'' \<and> c \<noteq> CHR ''E'') l). is_digit c \<and> c \<noteq> CHR ''0'')
      | Some (JStr s) \<Rightarrow> s \<noteq> []
      | Some (JArr _) \<Rightarrow> True
      | Some (JObj _) \<Rightarrow> True)"

definition json_string :: "json option \<Rightarrow> string option" where
  "json_string v = (case v of Some (JStr s) \<Rightarrow> Some s | _ \<Rightarrow> None)"

text \<open>String conversion of a JSON value in a template literal.\<close>

fun json_text :: "json \<Rightarrow> string" where
  "json_text JNull = ''null''"
| "json_text (JBool b) = (if b then ''true'' else ''false'')"
| "json_text (JNum l) = l"
| "json_text (JStr s) = s"
| "json_text (JArr vs) = js_join '','' (map (\<lambda>v. case v of JNull \<Rightarrow> [] | _ \<Rightarrow> json_text v) vs)"
| "json_text (JObj kvs) = ''[object Object]''"

section \<open>Printed values read back\<close>

definition num_stop :: "string \<Rightarrow> bool" where
  "num_stop r = (case r of [] \<Rightarrow> True
     | c # _ \<Rightarrow> \<not> is_digit c \<and> c \<noteq> CHR ''.'' \<and> c \<noteq> CHR ''e'' \<and> c \<noteq> CHR ''E'')"

fun json_ok :: "json \<Rightarrow> bool" where
  "json_ok (JNum l) = (l = dec (nat_of_digits l))"
| "json_ok (JArr vs) = list_all json_ok vs"
| "json_ok (JObj kvs) = list_all (\<lambda>(k, v). json_ok v) kvs"
| "json_ok _ = True"

text \<open>String literals.\<close>

definition piece_of :: "char \<Rightarrow> piece" where
  "piece_of c =
     (if of_char c < (32::nat) \<and> of_char c \<notin> {8, 9, 10, 12, 13 :: nat} then Unit (of_char c) else Raw c)"

lemma small_unit: "u < 128 \<Longrightarrow> utf8_of_code u = [char_of u] \<and> \<not> is_high u \<and> \<not> is_low u"
  by (simp add: utf8_of_code_def is_high_def is_low_def)

lemma assemble_unit: "u < 128 \<Longrightarrow> assemble (Unit u # ps) = char_of u # assemble ps"
  by (cases ps; cases "hd ps") (simp_all add: small_unit)

lemma assemble_small:
  "(\<forall>u. Unit u \<in> set ps \<longrightarrow> u < 128) \<Longrightarrow>
   assemble ps = map (\<lambda>p. case p of Raw c \<Rightarrow> c | Unit u \<Rightarrow> char_of u) ps"
proof (induction ps)
  case (Cons p ps)
  then show ?case by (cases p) (simp_all add: assemble_unit)
qed simp

lemma assemble_piece_of: "assemble (map piece_of s) = s"
proof -
  have "assemble (map piece_of s) = map ((\<lambda>p. case p of Raw c \<Rightarrow> c | Unit u \<Rightarrow> char_of u) \<circ> piece_of) s"
    by (subst assemble_small) (auto simp: piece_of_def split: if_splits)
  also have "\<dots> = s" by (rule map_idI) (simp add: piece_of_def)
  finally show ?thesis .
qed

lemma simple_escapes:
  "simple_escape (CHR ''b'') = Some (char_of (8::nat))"
  "simple_escape (CHR ''t'') = Some (char_of (9::nat))"
  "simple_escape (CHR ''n'') = Some (char_of (10::nat))"
  "simple_escape (CHR ''f'') = Some (char_of (12::nat))"
  "simple_escape (CHR ''r'') = Some (char_of (13::nat))"
  by (simp_all add: simple_escape_def Let_def)

lemma hex4_small: "n < 256 \<Longrightarrow> hex4 (CHR ''0'') (CHR ''0'') (hex_char (n div 16)) (hex_char (n mod 16)) = Some n"
proof -
  assume "n < 256"
  then have "n div 16 < 16" "n mod 16 < 16" by auto
  moreover have "hex_val (CHR ''0'') = Some 0" by (simp add: hex_val_def)
  ultimately show ?thesis by (simp add: hex4_def)
qed

lemma char_eqI: "of_char c = (n::nat) \<Longrightarrow> c = char_of n"
  by (metis char_of_char)

lemma parse_pieces_backslash:
  "e \<noteq> CHR ''u'' \<Longrightarrow> simple_escape e = Some d \<Longrightarrow>
   parse_pieces (char_of (92::nat) # e # s) = map_option (\<lambda>(ps, q). (Raw d # ps, q)) (parse_pieces s)"
  by simp

lemma parse_pieces_escaped:
  "parse_pieces (json_escape_char c @ s) = map_option (\<lambda>(ps, q). (piece_of c # ps, q)) (parse_pieces s)"
proof -
  consider "of_char c = (34::nat)" | "of_char c = (92::nat)"
    | "of_char c \<in> {8, 9, 10, 12, 13 :: nat}"
    | "of_char c < (32::nat)" "of_char c \<notin> {8, 9, 10, 12, 13 :: nat}"
    | "of_char c \<ge> (32::nat)" "of_char c \<noteq> (34::nat)" "of_char c \<noteq> (92::nat)"
    by fastforce
  then show ?thesis
  proof cases
    case 1
    then have "c \<noteq> CHR ''u''" "simple_escape c = Some c" "json_escape_char c = [char_of (92::nat), c]"
      "piece_of c = Raw c"
      by (auto simp: simple_escape_def json_escape_char_def piece_of_def Let_def)
    then show ?thesis using parse_pieces_backslash [of c c s] by simp
  next
    case 2
    then have "c \<noteq> CHR ''u''" by auto
    moreover from 2 have "simple_escape c = Some c" "json_escape_char c = [c, c]" "piece_of c = Raw c"
      by (auto simp: simple_escape_def json_escape_char_def piece_of_def Let_def)
    moreover have "c = char_of (92::nat)" using 2 by (rule char_eqI)
    ultimately have "c \<noteq> CHR ''u''" "simple_escape c = Some c" "json_escape_char c = [char_of (92::nat), c]"
      "piece_of c = Raw c" by auto
    then show ?thesis using parse_pieces_backslash [of c c s] by simp
  next
    case 3
    then have p: "piece_of c = Raw c" by (auto simp: piece_of_def)
    obtain e where "json_escape_char c = [char_of (92::nat), e]" "e \<noteq> CHR ''u''" "simple_escape e = Some c"
    proof -
      from 3 consider "of_char c = (8::nat)" | "of_char c = (9::nat)" | "of_char c = (10::nat)"
        | "of_char c = (12::nat)" | "of_char c = (13::nat)" by auto
      then show thesis
        by cases (rule that, simp add: json_escape_char_def, simp, simp add: simple_escapes, erule char_ofI)+
    qed
    with p show ?thesis using parse_pieces_backslash [of e c s] by simp
  next
    case 4
    then have "json_escape_char c = [char_of (92::nat), CHR ''u'', CHR ''0'', CHR ''0'',
        hex_char (of_char c div 16), hex_char (of_char c mod 16)]" "piece_of c = Unit (of_char c)"
      by (auto simp: json_escape_char_def piece_of_def Let_def)
    then show ?thesis by (simp add: hex4_small)
  next
    case 5
    then have "json_escape_char c = [c]" "piece_of c = Raw c"
      by (auto simp: json_escape_char_def piece_of_def Let_def)
    with 5 show ?thesis by simp
  qed
qed

lemma parse_pieces_quoted:
  "parse_pieces (concat (map json_escape_char s) @ char_of (34::nat) # r) = Some (map piece_of s, r)"
  by (induction s) (simp_all add: parse_pieces_escaped)

lemma parse_str_quoted:
  "parse_str (concat (map json_escape_char s) @ char_of (34::nat) # r) = Some (s, r)"
  by (simp add: parse_str_def parse_pieces_quoted assemble_piece_of)

text \<open>Numbers.\<close>

lemma dec_first: "\<exists>c r. dec n = c # r \<and> is_digit c \<and> (c = CHR ''0'' \<longrightarrow> r = [])"
proof (induction n rule: dec.induct)
  case (1 n)
  show ?case
  proof (cases "n < 10")
    case True
    then show ?thesis by (subst dec.simps) (simp add: digit_char_digit)
  next
    case False
    with 1 obtain c r where cr: "dec (n div 10) = c # r" "is_digit c" "c = CHR ''0'' \<longrightarrow> r = []"
      by blast
    have "c \<noteq> CHR ''0''"
    proof
      assume "c = CHR ''0''"
      with cr have "dec (n div 10) = ''0''" by simp
      then have "n div 10 = nat_of_digits ''0''" by (metis nat_of_digits_dec)
      with False show False by (simp add: nat_of_digits_def digit_val_def)
    qed
    with False cr show ?thesis by (subst dec.simps) simp
  qed
qed

lemma takeWhile_digits: "list_all is_digit l \<Longrightarrow> num_stop r \<Longrightarrow> takeWhile is_digit (l @ r) = l"
  by (cases r) (auto simp: takeWhile_append list_all_iff num_stop_def)

lemma dropWhile_digits: "list_all is_digit l \<Longrightarrow> num_stop r \<Longrightarrow> dropWhile is_digit (l @ r) = r"
  by (cases r) (auto simp: dropWhile_append list_all_iff num_stop_def)

lemma parse_num_dec: "num_stop r \<Longrightarrow> parse_num (dec n @ r) = Some (dec n, r)"
proof -
  assume r: "num_stop r"
  obtain c l where cl: "dec n = c # l" "is_digit c" "c = CHR ''0'' \<longrightarrow> l = []"
    using dec_first by blast
  have all: "list_all is_digit (c # l)" using dec_digits [of n] cl(1) by simp
  have "num_int (c # l @ r) = Some (c # l, r)"
    using cl takeWhile_digits [OF all r] dropWhile_digits [OF all r] by (auto simp: num_int_def)
  moreover have "num_frac r = Some ([], r)" "num_exp r = Some ([], r)"
    using r by (auto simp: num_frac_def num_exp_def num_stop_def split: list.splits)
  ultimately show ?thesis
    using cl digit_neq [OF cl(2)] by (simp add: parse_num_def Let_def)
qed

text \<open>The first character of a printed value is never white space.\<close>

lemma skip_ws_quote: "skip_ws (json_quote s @ r) = json_quote s @ r"
  by (simp add: skip_ws_def json_quote_def json_ws_def)

lemma digit_not_ws: "is_digit c \<Longrightarrow> \<not> json_ws c"
  by (auto simp: is_digit_def json_ws_def)

lemma skip_ws_stringify: "json_ok j \<Longrightarrow> skip_ws (stringify j @ r) = stringify j @ r"
proof (cases j)
  case (JNum l)
  assume "json_ok j"
  with JNum have "l = dec (nat_of_digits l)" by simp
  then obtain c t where "l = c # t" "is_digit c" by (metis dec_first)
  with JNum show ?thesis by (simp add: skip_ws_def digit_not_ws)
next
  case (JStr t)
  then show ?thesis by (simp add: skip_ws_quote)
qed (auto simp: skip_ws_def json_ws_def)

lemma parse_value_quote:
  "parse_value (Suc n) (json_quote s @ r) = Some (JStr s, r)"
proof -
  have "skip_ws (json_quote s @ r) = char_of (34::nat) # concat (map json_escape_char s) @ char_of (34::nat) # r"
    using skip_ws_quote [of s r] by (simp add: json_quote_def)
  then show ?thesis by (simp add: parse_str_quoted)
qed

lemma parse_value_num: "num_stop r \<Longrightarrow> parse_value (Suc n) (dec k @ r) = Some (JNum (dec k), r)"
proof -
  assume r: "num_stop r"
  obtain c l where cl: "dec k = c # l" "is_digit c" using dec_first by blast
  have "skip_ws (dec k @ r) = c # l @ r" using cl digit_not_ws by (simp add: skip_ws_def)
  moreover have "parse_num (c # l @ r) = Some (c # l, r)" using parse_num_dec [OF r, of k] cl by simp
  moreover have "c \<noteq> CHR ''{''" "c \<noteq> CHR ''[''" "CHR ''n'' \<noteq> c" "CHR ''t'' \<noteq> c" "CHR ''f'' \<noteq> c"
      "of_char c \<noteq> (34::nat)"
    using cl(2) by (auto simp: is_digit_def)
  ultimately show ?thesis using cl by simp
qed

text \<open>
  The nesting of a value bounds the fuel it takes: a list or object element costs at most two
  units more than its contents.
\<close>

definition elems_text :: "json list \<Rightarrow> string" where
  "elems_text vs = js_join '','' (map stringify vs) @ '']''"

definition members_text :: "(string \<times> json) list \<Rightarrow> string" where
  "members_text kvs = js_join '','' (map (\<lambda>(k, v). json_quote k @ '':'' @ stringify v) kvs) @ ''}''"

lemma elems_text_cons:
  "elems_text (v # vs) = stringify v @ (if vs = [] then '']'' else CHR '','' # elems_text vs)"
  by (cases vs) (simp_all add: elems_text_def)

lemma members_text_cons:
  "members_text ((k, v) # kvs) =
     json_quote k @ CHR '':'' # stringify v @ (if kvs = [] then ''}'' else CHR '','' # members_text kvs)"
  by (cases kvs) (simp_all add: members_text_def)

lemma num_stop_simps [simp]:
  "num_stop []" "num_stop (CHR '','' # r)" "num_stop (CHR '']'' # r)" "num_stop (CHR ''}'' # r)"
  by (simp_all add: num_stop_def is_digit_def)

lemma skip_ws_simps [simp]:
  "skip_ws [] = []" "skip_ws (CHR '','' # r) = CHR '','' # r" "skip_ws (CHR '']'' # r) = CHR '']'' # r"
  "skip_ws (CHR ''}'' # r) = CHR ''}'' # r" "skip_ws (CHR '':'' # r) = CHR '':'' # r"
  "skip_ws (CHR ''{'' # r) = CHR ''{'' # r" "skip_ws (CHR ''['' # r) = CHR ''['' # r"
  by (simp_all add: skip_ws_def json_ws_def)

lemma quote_not_bracket [simp]:
  "char_of (34::nat) \<noteq> CHR '']''" "char_of (34::nat) \<noteq> CHR ''}''"
  by (simp_all add: char_of_def)

lemma stringify_start:
  assumes "json_ok v"
  shows "\<exists>c t. stringify v = c # t \<and> c \<noteq> CHR '']''"
proof (cases v)
  case (JNum l)
  with assms have "l = dec (nat_of_digits l)" by simp
  then obtain c t where "l = c # t" "is_digit c" by (metis dec_first)
  moreover from this have "c \<noteq> CHR '']''" by (auto simp: is_digit_def)
  ultimately show ?thesis using JNum by auto
qed (auto simp: json_quote_def)

lemma elems_start:
  assumes "json_ok v"
  shows "\<exists>c t. skip_ws (elems_text (v # vs) @ r) = c # t \<and> c \<noteq> CHR '']''"
  using stringify_start [OF assms] skip_ws_stringify [OF assms]
  by (auto simp: elems_text_cons)

lemma members_start:
  "\<exists>c t. skip_ws (members_text (kv # kvs) @ r) = c # t \<and> c \<noteq> CHR ''}''"
proof -
  obtain k v where kv: "kv = (k, v)" by (cases kv)
  show ?thesis
    unfolding kv members_text_cons append_assoc skip_ws_quote
    by (simp add: json_quote_def)
qed

lemma parse_printed:
  "json_ok v \<Longrightarrow> 2 * size v < n \<Longrightarrow> num_stop r \<Longrightarrow> parse_value n (stringify v @ r) = Some (v, r)"
  "list_all json_ok vs \<Longrightarrow> vs \<noteq> [] \<Longrightarrow> 2 * size_list size vs \<le> n \<Longrightarrow>
     parse_elems n (elems_text vs @ r) = Some (vs, r)"
  "list_all (\<lambda>(k, v). json_ok v) kvs \<Longrightarrow> kvs \<noteq> [] \<Longrightarrow>
     2 * size_list (size_prod (\<lambda>_. 0) size) kvs \<le> n \<Longrightarrow>
     parse_members n (members_text kvs @ r) = Some (kvs, r)"
proof (induction n arbitrary: v vs kvs r)
  case 0
  {
    case 1
    then show ?case by simp
  next
    case 2
    then show ?case by (cases vs) simp_all
  next
    case 3
    then show ?case by (cases kvs) simp_all
  }
next
  case (Suc n)
  {
    case 1
    show ?case
    proof (cases v)
      case (JNum l)
      with 1 have "l = dec (nat_of_digits l)" by simp
      with parse_value_num [OF 1(3)] JNum show ?thesis by (metis stringify.simps(3))
    next
      case (JStr s)
      then show ?thesis by (simp add: parse_value_quote del: parse_value.simps)
    next
      case (JArr vs)
      show ?thesis
      proof (cases vs)
        case Nil
        with JArr show ?thesis by simp
      next
        case (Cons w ws)
        with JArr 1 have ok: "list_all json_ok vs" "vs \<noteq> []" "2 * size_list size vs \<le> n" by auto
        have st: "stringify v @ r = CHR ''['' # elems_text vs @ r" using JArr by (simp add: elems_text_def)
        obtain c t where ct: "skip_ws (elems_text vs @ r) = c # t" "c \<noteq> CHR '']''"
          using elems_start [of w ws r] ok Cons by auto
        show ?thesis
          unfolding st parse_value.simps skip_ws_simps
          by (simp add: ct Suc.IH(2) [OF ok] JArr)
      qed
    next
      case (JObj kvs)
      show ?thesis
      proof (cases kvs)
        case Nil
        with JObj show ?thesis by simp
      next
        case (Cons w ws)
        with JObj 1 have ok: "list_all (\<lambda>(k, v). json_ok v) kvs" "kvs \<noteq> []"
            "2 * size_list (size_prod (\<lambda>_. 0) size) kvs \<le> n" by auto
        have st: "stringify v @ r = CHR ''{'' # members_text kvs @ r" using JObj by (simp add: members_text_def)
        obtain c t where ct: "skip_ws (members_text kvs @ r) = c # t" "c \<noteq> CHR ''}''"
          using members_start [of w ws r] Cons by auto
        show ?thesis
          unfolding st parse_value.simps skip_ws_simps
          by (simp add: ct Suc.IH(3) [OF ok] JObj)
      qed
    qed (auto simp: skip_ws_def json_ws_def)
  next
    case 2
    then obtain w ws where vs: "vs = w # ws" by (cases vs) auto
    with 2 have w: "json_ok w" "2 * size w < n" by auto
    show ?case
    proof (cases "ws = []")
      case True
      with vs Suc.IH(1) [OF w] show ?thesis by (simp add: elems_text_cons)
    next
      case False
      with 2 vs have "list_all json_ok ws" "ws \<noteq> []" "2 * size_list size ws \<le> n" by auto
      from Suc.IH(2) [OF this] Suc.IH(1) [OF w] vs False show ?thesis
        by (simp add: elems_text_cons)
    qed
  next
    case 3
    then obtain k w ws where kvs: "kvs = (k, w) # ws" by (cases kvs) auto
    with 3 have w: "json_ok w" "2 * size w < n" by auto
    have q: "skip_ws (json_quote k @ t) = char_of (34::nat) # concat (map json_escape_char k) @ char_of (34::nat) # t" for t
      using skip_ws_quote [of k t] by (simp add: json_quote_def)
    show ?case
    proof (cases "ws = []")
      case True
      with kvs Suc.IH(1) [OF w] show ?thesis by (simp add: members_text_cons q parse_str_quoted)
    next
      case False
      with 3 kvs have "list_all (\<lambda>(k, v). json_ok v) ws" "ws \<noteq> []"
        "2 * size_list (size_prod (\<lambda>_. 0) size) ws \<le> n" by auto
      from Suc.IH(3) [OF this] Suc.IH(1) [OF w] kvs False show ?thesis
        by (simp add: members_text_cons q parse_str_quoted)
    qed
  }
qed

text \<open>The fuel of \<open>parse_json\<close> covers the nesting of everything that was printed.\<close>

lemma size_elems: "(\<forall>v \<in> set vs. size v \<le> length (stringify v)) \<Longrightarrow> size_list size vs \<le> length (elems_text vs)"
proof (induction vs)
  case (Cons v vs)
  then show ?case by (cases vs) (auto simp: elems_text_cons elems_text_def)
qed simp

lemma size_members:
  "(\<forall>(k, v) \<in> set kvs. size v \<le> length (stringify v)) \<Longrightarrow>
   size_list (size_prod (\<lambda>_. 0) size) kvs \<le> length (members_text kvs)"
proof (induction kvs)
  case (Cons kv kvs)
  obtain k v where "kv = (k, v)" by (cases kv)
  with Cons show ?case by (cases kvs) (auto simp: members_text_cons members_text_def json_quote_def)
qed simp

lemma size_stringify: "size v \<le> length (stringify v)"
proof (induction v)
  case (JArr vs)
  then have "size_list size vs \<le> length (elems_text vs)" by (intro size_elems) auto
  then show ?case by (simp add: elems_text_def)
next
  case (JObj kvs)
  then have "size_list (size_prod (\<lambda>_. 0) size) kvs \<le> length (members_text kvs)"
    by (intro size_members) force
  then show ?case by (simp add: members_text_def)
qed simp_all

lemma parse_stringify: "json_ok v \<Longrightarrow> parse_json (stringify v) = Inr v"
proof -
  assume "json_ok v"
  then have "parse_value (2 * length (stringify v) + 1) (stringify v @ []) = Some (v, [])"
    by (rule parse_printed(1)) (use size_stringify [of v] in simp_all)
  then show ?thesis by (simp add: parse_json_def)
qed

section \<open>Printed values are single lines\<close>

lemma dec_no_newline: "CHR 0x0A \<notin> set (dec n)"
  using dec_digits [of n] by (auto simp: list_all_iff is_digit_def)

lemma set_join: "set (js_join sep xs) \<subseteq> set sep \<union> (\<Union>x \<in> set xs. set x)"
  by (induction sep xs rule: js_join.induct) auto

lemma quote_no_newline: "CHR 0x0A \<notin> set (json_quote s)"
proof -
  have "CHR 0x0A \<notin> set (json_escape_char c)" for c
  proof (cases "of_char c = (10::nat)")
    case True
    then show ?thesis by (simp add: json_escape_char_def char_of_def)
  next
    case False
    have "hex_char n \<noteq> CHR 0x0A" if "n < 16" for n using hex_val_char [OF that] by (auto simp: hex_val_def)
    then have "hex_char (of_char c div 16) \<noteq> CHR 0x0A" "hex_char (of_char c mod 16) \<noteq> CHR 0x0A"
      using of_char_below [of c] less_mult_imp_div_less [of "of_char c" 16 16] by auto
    moreover have "c \<noteq> CHR 0x0A" using False by auto
    moreover have "char_of (92::nat) \<noteq> CHR 0x0A" by (simp add: char_of_def)
    ultimately show ?thesis by (auto simp: json_escape_char_def Let_def)
  qed
  then show ?thesis by (auto simp: json_quote_def char_of_def)
qed

lemma stringify_no_newline: "json_ok j \<Longrightarrow> CHR 0x0A \<notin> set (stringify j)"
proof (induction j)
  case (JNum l)
  then show ?case using dec_no_newline by (metis json_ok.simps(1) stringify.simps(3))
next
  case (JStr s)
  then show ?case by (simp add: quote_no_newline)
next
  case (JArr vs)
  then show ?case using set_join [of "'',''" "map stringify vs"] by (auto simp: list_all_iff)
next
  case (JObj kvs)
  then have "CHR 0x0A \<notin> set (stringify v)" if "(n, v) \<in> set kvs" for n v
    using that by (force simp: list_all_iff)
  with set_join [of "'',''" "map (\<lambda>(k, v). json_quote k @ '':'' @ stringify v) kvs"] quote_no_newline
  show ?case by fastforce
qed auto

end
