(* ===== verification/ServerStart.thy ===== *)
theory ServerStart
  imports RemoteFiles Json
begin

text \<open>
  The part of \<^verbatim>\<open>src/resolver/index.ts\<close> that starts the server on the remote host and finds
  out on which port it listens: the command line, the state machine behind the promise of
  \<^verbatim>\<open>startServer\<close> (whose events are those of the spawned ssh), the session variant that polls a
  ready file, and the check that the port can be reached. A loop with a deadline polls a clock
  of the abstract world; its fuel is the number of polls that fit into the time allowed.
\<close>

section \<open>Polling up to a deadline\<close>

record 'w timer =
  now_ms :: "'w \<Rightarrow> nat"
  pause :: "nat \<Rightarrow> 'w \<Rightarrow> 'w"

text \<open>\<^verbatim>\<open>while (Date.now() < deadline)\<close> around an attempt that returns from the loop with \<^term>\<open>Some\<close>.\<close>

fun poll_until :: "'w timer \<Rightarrow> nat \<Rightarrow> ('w, 'a option) promise \<Rightarrow> nat \<Rightarrow> ('w, 'a option) promise" where
  "poll_until T deadline attempt 0 w = (Inr None, w)"
| "poll_until T deadline attempt (Suc n) w =
     (if now_ms T w < deadline
      then (case attempt w of
              (Inl e, w') \<Rightarrow> (Inl e, w')
            | (Inr (Some x), w') \<Rightarrow> (Inr (Some x), w')
            | (Inr None, w') \<Rightarrow> poll_until T deadline attempt n w')
      else (Inr None, w))"

lemma poll_first:
  "attempt w = (Inr (Some x), w') \<Longrightarrow> now_ms T w < deadline \<Longrightarrow> 0 < n \<Longrightarrow>
   poll_until T deadline attempt n w = (Inr (Some x), w')"
  by (cases n) auto

section \<open>Settings\<close>

text \<open>A setting is read with its default, so the settings are a function.\<close>

definition collectProxyEnv :: "(string \<Rightarrow> string) \<Rightarrow> (string \<times> string) list" where
  "collectProxyEnv config =
     (let httpProxy = trim (config ''httpProxy''); httpsProxy = trim (config ''httpsProxy'')
      in (if httpProxy \<noteq> [] then [(''http_proxy'', httpProxy)] else [])
         @ (if httpsProxy \<noteq> [] then [(''https_proxy'', httpsProxy)] else []))"

text \<open>\<^verbatim>\<open>/^[a-z0-9][a-z0-9-]*\.[a-z0-9][a-z0-9-]*$/i\<close>\<close>

definition id_char :: "char \<Rightarrow> bool" where
  "id_char c = (is_digit c \<or> (97 \<le> (of_char (lower_char c) :: nat) \<and> of_char (lower_char c) \<le> (122 :: nat)))"

definition id_part :: "string \<Rightarrow> bool" where
  "id_part s = (s \<noteq> [] \<and> id_char (hd s) \<and> list_all (\<lambda>c. id_char c \<or> c = CHR ''-'') s)"

definition extension_id :: "string \<Rightarrow> bool" where
  "extension_id s = (case js_split (CHR ''.'') s of [a, b] \<Rightarrow> id_part a \<and> id_part b | _ \<Rightarrow> False)"

section \<open>The command line\<close>

definition start_parts :: "string \<Rightarrow> string \<Rightarrow> string list \<Rightarrow> string list" where
  "start_parts serverScript tokenFile defaultExtensions =
     [shellQuote serverScript, ''--start-server'', ''--host=127.0.0.1'', ''--port=0'',
      ''--connection-token-file '' @ shellQuote tokenFile, ''--enable-remote-auto-shutdown'',
      ''--accept-server-license-terms'']
     @ map (\<lambda>i. ''--install-extension '' @ shellQuote i) (filter extension_id defaultExtensions)"

definition start_command :: "string \<Rightarrow> string \<Rightarrow> string list \<Rightarrow> string" where
  "start_command serverScript tokenFile defaultExtensions =
     js_join '' '' (start_parts serverScript tokenFile defaultExtensions)"

definition env_exports :: "(string \<times> string) list \<Rightarrow> string" where
  "env_exports env =
     (let exports = js_join ''; '' (map (\<lambda>(k, v). ''export '' @ k @ ''='' @ shellQuote v) env)
      in if exports \<noteq> [] then exports @ ''; '' else [])"

definition write_and_start :: "string \<Rightarrow> string \<Rightarrow> string \<Rightarrow> string" where
  "write_and_start toolsDir tokenFile startCmd =
     ''__zy_path=$PATH; export PATH='' @ shellQuote toolsDir @ '':$PATH; ''
     @ ''mkdir -p '' @ shellQuote (dirname tokenFile) @ '' && umask 077 && cat > '' @ shellQuote tokenFile @ '' && ''
     @ ''export PATH=$__zy_path; unset __zy_path; ''
     @ ''exec '' @ startCmd"

text \<open>What \<^verbatim>\<open>startServer\<close> spawns, and what it writes to the standard input before it closes it.\<close>

definition server_script :: "string \<Rightarrow> string \<Rightarrow> string" where
  "server_script installPath serverApp = installPath @ ''/bin/'' @ serverApp"

definition server_command :: "(string \<Rightarrow> string) \<Rightarrow> string list \<Rightarrow> string \<Rightarrow> string \<Rightarrow> string \<Rightarrow> string \<Rightarrow> string" where
  "server_command config defaultExtensions home installPath serverApp tokenFile =
     (let startCmd = start_command (server_script installPath serverApp) tokenFile defaultExtensions;
          wrapped = env_exports (collectProxyEnv config) @ write_and_start (remoteToolsDir home) tokenFile startCmd
      in remoteShPath home @ '' -c '' @ shellQuote wrapped)"

definition server_stdin :: "string \<Rightarrow> bytes" where
  "server_stdin connectionToken = utf8_bytes connectionToken"

section \<open>Waiting for the port\<close>

definition LISTENING :: string where "LISTENING = ''Extension host agent listening on ''"

text \<open>\<^verbatim>\<open>stdoutBuf.match(/Extension host agent listening on (\d+)/)\<close>\<close>

fun listening_port :: "string \<Rightarrow> nat option" where
  "listening_port [] = None"
| "listening_port (c # s) =
     (let ds = takeWhile is_digit (drop (length LISTENING) (c # s))
      in if prefix LISTENING (c # s) \<and> ds \<noteq> [] then Some (nat_of_digits ds) else listening_port s)"

record starting =
  st_stdout :: string
  st_stderr :: string
  st_resolved :: bool
  st_timer :: bool
  st_killed :: bool
  st_result :: "nat result option"

definition starting_init :: starting where
  "starting_init = \<lparr>st_stdout = [], st_stderr = [], st_resolved = False, st_timer = True, st_killed = False, st_result = None\<rparr>"

definition st_settle :: "nat result \<Rightarrow> starting \<Rightarrow> starting" where
  "st_settle r s = (case st_result s of None \<Rightarrow> s\<lparr>st_result := Some r\<rparr> | Some _ \<Rightarrow> s)"

definition start_timed_out :: js_error where
  "start_timed_out = plain_error ''Timed out waiting for server to start (no listening port)''"

definition spawn_failed :: "string \<Rightarrow> js_error" where
  "spawn_failed m = plain_error (''SSH spawn failed: '' @ m)"

text \<open>\<^verbatim>\<open>stderrBuf.slice(-2000)\<close>\<close>

definition server_exited :: "nat \<Rightarrow> string \<Rightarrow> js_error" where
  "server_exited code err = plain_error (''Server process exited with code '' @ dec code @ ''. stderr: ''
     @ drop (length err - 2000) err)"

fun start_event :: "starting \<Rightarrow> child_event \<Rightarrow> starting" where
  "start_event s (ChildStdout c) =
     (let s' = s\<lparr>st_stdout := st_stdout s @ utf8_string c\<rparr>
      in if st_resolved s then s'
         else case listening_port (st_stdout s') of
                None \<Rightarrow> s'
              | Some port \<Rightarrow> st_settle (Inr port) (s'\<lparr>st_resolved := True, st_timer := False\<rparr>))"
| "start_event s (ChildStderr c) = s\<lparr>st_stderr := st_stderr s @ utf8_string c\<rparr>"
| "start_event s ChildDrain = s"
| "start_event s (ChildError m) = st_settle (Inl (spawn_failed m)) (s\<lparr>st_timer := False\<rparr>)"
| "start_event s (ChildClose code signal) =
     (let s' = s\<lparr>st_timer := False\<rparr>
      in case code of
           None \<Rightarrow> s'
         | Some n \<Rightarrow> if n \<noteq> 0 then st_settle (Inl (server_exited n (st_stderr s'))) s' else s')"
| "start_event s RunTimeout =
     (if st_timer s then st_settle (Inl start_timed_out) (s\<lparr>st_timer := False, st_killed := True\<rparr>) else s)"

definition startServer :: "child_event list \<Rightarrow> starting" where
  "startServer es = foldl start_event starting_init es"

section \<open>Checking the port\<close>

text \<open>A dial of \<^verbatim>\<open>socks5Connect\<close> that succeeds is destroyed at once. Every failed dial is followed by
  250 ms, so 40 dials use up 10 s.\<close>

definition port_dial :: "'w timer \<Rightarrow> (nat \<Rightarrow> nat \<Rightarrow> ('w, unit) promise) \<Rightarrow> nat \<Rightarrow> nat \<Rightarrow> ('w, bool option) promise" where
  "port_dial T dial socksPort port w =
     (case dial socksPort port w of
        (Inr _, w') \<Rightarrow> (Inr (Some True), w')
      | (Inl _, w') \<Rightarrow> (Inr None, pause T 250 w'))"

definition waitForRemotePort ::
    "'w timer \<Rightarrow> (nat \<Rightarrow> nat \<Rightarrow> ('w, unit) promise) \<Rightarrow> nat \<Rightarrow> nat \<Rightarrow> nat \<Rightarrow> ('w, bool) promise" where
  "waitForRemotePort T dial socksPort port timeoutMs w =
     await (poll_until T (now_ms T w + timeoutMs) (port_dial T dial socksPort port) (Suc (timeoutMs div 250)))
       (\<lambda>r. resolve (nullish r False)) w"

definition unreachable_error :: "nat \<Rightarrow> nat \<Rightarrow> string \<Rightarrow> js_error" where
  "unreachable_error port socksPort logFile =
     plain_error (''Server reported port '' @ dec port @ '' but it is not reachable '' @ ''through SOCKS '' @ dec socksPort
       @ ''. See the remote server log ('' @ logFile @ '') for details.'')"

definition tail_command :: "string \<Rightarrow> string" where
  "tail_command logFile = ''tail -n 20 '' @ shellQuote logFile @ '' 2>/dev/null''"

definition verifyServerPort ::
    "'w timer \<Rightarrow> (nat \<Rightarrow> nat \<Rightarrow> ('w, unit) promise) \<Rightarrow> 'w conn \<Rightarrow> nat option \<Rightarrow> nat \<Rightarrow> string \<Rightarrow> ('w, unit) promise" where
  "verifyServerPort T dial conn getSocksPort port logFile =
     (let socksPort = nullish getSocksPort 0
      in if 0 < socksPort
         then await (waitForRemotePort T dial socksPort port 10000) (\<lambda>reachable.
                if reachable then resolve ()
                else await (c_exec conn (tail_command logFile) None) (\<lambda>_.
                       reject (unreachable_error port socksPort logFile)))
         else resolve ())"

section \<open>The session variant\<close>

text \<open>\<^verbatim>\<open>replace(/\r\n/g, "\n")\<close>\<close>

fun crlf_to_lf :: "string \<Rightarrow> string" where
  "crlf_to_lf (c # d # s) =
     (if c = CHR 0x0D \<and> d = CHR 0x0A then CHR 0x0A # crlf_to_lf s else c # crlf_to_lf (d # s))"
| "crlf_to_lf s = s"

definition session_command :: "(string \<Rightarrow> string) \<Rightarrow> string \<Rightarrow> string \<Rightarrow> string \<Rightarrow> string \<Rightarrow> string \<Rightarrow> string" where
  "session_command config home wrapperRemote startCmd logFile readyFile =
     env_exports (collectProxyEnv config)
     @ ''nohup '' @ remoteShPath home @ '' '' @ shellQuote wrapperRemote @ '' '' @ shellQuote (remoteToolsDir home) @ '' ''
     @ shellQuote startCmd @ '' '' @ shellQuote logFile @ '' '' @ shellQuote readyFile @ '' > /dev/null 2>&1 &''"

definition wait_file_failed :: "string \<Rightarrow> js_error" where
  "wait_file_failed msg =
     plain_error (''Failed to wait for the server-ready file via the Go transport: '' @ msg @ ''. ''
       @ ''The session path requires the transport; falling back to the poll ''
       @ ''loop would mask the real failure. See the log for details.'')"

definition malformed_port :: "string \<Rightarrow> string \<Rightarrow> js_error" where
  "malformed_port t logFile =
     plain_error (''Server-ready file contained a malformed port (got '' @ json_quote t @ ''). ''
       @ ''The transport returned a non-numeric or empty response; the ''
       @ ''server wrapper may have written garbage. See the remote server ''
       @ ''log ('' @ logFile @ '') for details.'')"

text \<open>\<^verbatim>\<open>parseInt(s, 10)\<close>, when it is a positive number.\<close>

definition positive_int :: "string \<Rightarrow> nat option" where
  "positive_int s = (case parse_int s of None \<Rightarrow> None | Some n \<Rightarrow> if 0 < n then Some (nat n) else None)"

definition port_from_file ::
    "(string \<Rightarrow> nat \<Rightarrow> ('w, bytes) promise) \<Rightarrow> string \<Rightarrow> string \<Rightarrow> ('w, nat) promise" where
  "port_from_file waitForFile readyFile logFile =
     await (catching (waitForFile readyFile 60000) (\<lambda>err. reject (wait_file_failed (err_message err)))) (\<lambda>body.
       (let t = trim (utf8_string body)
        in case positive_int t of
             None \<Rightarrow> reject (malformed_port t logFile)
           | Some port \<Rightarrow> resolve port))"

text \<open>Without the transport the ready file is read once a second, for 60 s.\<close>

definition ready_poll :: "'w timer \<Rightarrow> 'w conn \<Rightarrow> string \<Rightarrow> ('w, nat option) promise" where
  "ready_poll T conn readyFile w =
     await (c_exec conn (''cat '' @ shellQuote readyFile @ '' 2>/dev/null'') None)
       (\<lambda>result. resolve (positive_int (trim (out_stdout result)))) (pause T 1000 w)"

definition session_start_timed_out :: "string \<Rightarrow> js_error" where
  "session_start_timed_out logTail =
     plain_error (''Timed out waiting for server to start (session); log tail:'' @ [CHR 0x0A] @ logTail)"

definition poll_ready_file :: "'w timer \<Rightarrow> 'w conn \<Rightarrow> string \<Rightarrow> string \<Rightarrow> ('w, nat) promise" where
  "poll_ready_file T conn readyFile logFile w =
     await (poll_until T (now_ms T w + 60000) (ready_poll T conn readyFile) 60) (\<lambda>r.
       case r of
         Some port \<Rightarrow> resolve port
       | None \<Rightarrow> await (c_exec conn (tail_command logFile) None)
                   (\<lambda>logTail. reject (session_start_timed_out (out_stdout logTail)))) w"

text \<open>\<open>wrapper\<close> is the content of the wrapper script; reading it, and a connection without \<^verbatim>\<open>putFile\<close>,
  throw. The transport is its \<^verbatim>\<open>waitForFile\<close>.\<close>

record 'w start_env =
  se_timer :: "'w timer"
  se_dial :: "nat \<Rightarrow> nat \<Rightarrow> ('w, unit) promise"
  se_config :: "string \<Rightarrow> string"
  se_extensions :: "string list"
  se_wrapper :: "bytes result"

definition ship_wrapper :: "'w start_env \<Rightarrow> 'w conn \<Rightarrow> string \<Rightarrow> ('w, exec_output) promise" where
  "ship_wrapper S conn wrapperRemote =
     (case se_wrapper S of
        Inl e \<Rightarrow> reject e
      | Inr raw \<Rightarrow>
          (case c_putFile conn of
             None \<Rightarrow> reject type_error
           | Some putFile \<Rightarrow> putFile wrapperRemote (utf8_bytes (crlf_to_lf (utf8_string raw))) (Some ''0755'')))"

definition startServerSession ::
    "'w start_env \<Rightarrow> 'w conn \<Rightarrow> nat option \<Rightarrow> string \<Rightarrow> string \<Rightarrow> string \<Rightarrow> string \<Rightarrow> string
     \<Rightarrow> (string \<Rightarrow> nat \<Rightarrow> ('w, bytes) promise) option \<Rightarrow> ('w, nat) promise" where
  "startServerSession S conn getSocksPort home installPath serverApp tokenFile connectionToken transportClient =
     (let remoteDirName = dirname tokenFile;
          logFile = remoteDirName @ ''/server-start.log'';
          readyFile = remoteDirName @ ''/server-ready'';
          wrapperRemote = remoteDirName @ ''/ssh-session-start-server.sh'';
          startCmd = start_command (server_script installPath serverApp) tokenFile (se_extensions S)
      in await (writeConnectionTokenFile conn home connectionToken (Some installPath)) (\<lambda>_.
         await (ship_wrapper S conn wrapperRemote) (\<lambda>_.
         await (c_exec conn (''rm -f '' @ shellQuote readyFile) None) (\<lambda>_.
         await (c_exec conn (session_command (se_config S) home wrapperRemote startCmd logFile readyFile) None) (\<lambda>_.
         await (case transportClient of
                  Some waitForFile \<Rightarrow> port_from_file waitForFile readyFile logFile
                | None \<Rightarrow> poll_ready_file (se_timer S) conn readyFile logFile) (\<lambda>port.
         await (verifyServerPort (se_timer S) (se_dial S) conn getSocksPort port logFile) (\<lambda>_.
         resolve port)))))))"

section \<open>The announced port in the output\<close>

interpretation starting: settling start_event "\<lambda>_. True" "\<lambda>s. st_result s \<noteq> None" st_result
proof unfold_locales
  show "st_result s \<noteq> None \<Longrightarrow> st_result (start_event s e) \<noteq> None \<and> st_result (start_event s e) = st_result s" for s e
    by (cases e) (auto simp: st_settle_def Let_def split: option.splits)
qed simp

lemma LISTENING_once: "0 < i \<Longrightarrow> i < length LISTENING \<Longrightarrow> LISTENING ! i \<noteq> CHR ''E''"
proof -
  assume i: "0 < i" "i < length LISTENING"
  then have "LISTENING ! i = tl LISTENING ! (i - 1)" "i - 1 < length (tl LISTENING)"
    by (simp_all add: nth_tl)
  then have "LISTENING ! i \<in> set (tl LISTENING)" by (metis nth_mem)
  moreover have "CHR ''E'' \<notin> set (tl LISTENING)" by (simp add: LISTENING_def)
  ultimately show ?thesis by metis
qed

lemma LISTENING_start: "LISTENING ! 0 = CHR ''E''" "LISTENING \<noteq> []" "takeWhile is_digit (LISTENING @ r) = []"
  by (simp_all add: LISTENING_def is_digit_def)

text \<open>An announcement cannot begin inside what comes before another one and end in that one.\<close>

lemma no_match_across:
  assumes "prefix LISTENING (x @ LISTENING @ r)" and "x \<noteq> []"
  shows "length LISTENING \<le> length x"
proof (rule ccontr)
  assume "\<not> length LISTENING \<le> length x"
  then have l: "length x < length LISTENING" by simp
  from assms(1) obtain z where "x @ LISTENING @ r = LISTENING @ z" by (auto simp: prefix_def)
  then have "(x @ LISTENING @ r) ! length x = (LISTENING @ z) ! length x" by simp
  with l have "LISTENING ! length x = CHR ''E''" using LISTENING_start by (simp add: nth_append)
  then show False using LISTENING_once [of "length x"] l assms(2) by simp
qed

lemma listening_skip:
  "listening_port pre = None \<Longrightarrow> listening_port (pre @ LISTENING @ r) = listening_port (LISTENING @ r)"
proof (induction pre)
  case (Cons c pre)
  let ?n = "length LISTENING"
  from Cons.prems have none: "listening_port pre = None"
    and step: "prefix LISTENING (c # pre) \<Longrightarrow> takeWhile is_digit (drop ?n (c # pre)) = []"
    by (auto simp: Let_def split: if_splits)
  have "\<not> (prefix LISTENING (c # pre @ LISTENING @ r) \<and> takeWhile is_digit (drop ?n (c # pre @ LISTENING @ r)) \<noteq> [])"
  proof
    assume h: "prefix LISTENING (c # pre @ LISTENING @ r) \<and> takeWhile is_digit (drop ?n (c # pre @ LISTENING @ r)) \<noteq> []"
    then have l: "?n \<le> length (c # pre)" using no_match_across [of "c # pre" r] by simp
    with h have p: "prefix LISTENING (c # pre)" by (metis append_Cons prefix_length_prefix prefix_def)
    from l have d: "drop ?n (c # pre @ LISTENING @ r) = drop ?n (c # pre) @ LISTENING @ r"
      by (metis append_Cons diff_is_0_eq drop0 drop_append)
    show False
    proof (cases "drop ?n (c # pre)")
      case Nil
      with h d LISTENING_start(3) show False by simp
    next
      case (Cons x xs)
      with h d step [OF p] show False by (auto simp del: drop_Cons' split: if_splits)
    qed
  qed
  then have "listening_port (c # pre @ LISTENING @ r) = listening_port (pre @ LISTENING @ r)"
    by (auto simp: Let_def simp del: drop_Cons')
  with Cons.IH [OF none] show ?case by simp
qed simp

lemma listening_here:
  assumes "ds \<noteq> []" and "list_all is_digit ds" and "post = [] \<or> \<not> is_digit (hd post)"
  shows "listening_port (LISTENING @ ds @ post) = Some (nat_of_digits ds)"
proof -
  have "takeWhile is_digit (ds @ post) = ds"
    using assms(2,3) by (cases post) (auto simp: takeWhile_append list_all_iff takeWhile_eq_all_conv)
  moreover obtain c s where cs: "LISTENING @ ds @ post = c # s"
    using LISTENING_start(2) by (cases "LISTENING @ ds @ post") auto
  moreover have "drop (length LISTENING) (c # s) = ds @ post" "prefix LISTENING (c # s)"
    using cs by (metis append_eq_conv_conj, metis prefixI)
  ultimately show ?thesis using assms(1) by (simp add: Let_def del: drop_Cons')
qed

lemma listening_prefix: "prefix s t \<Longrightarrow> listening_port t = None \<Longrightarrow> listening_port s = None"
proof (induction s arbitrary: t)
  case (Cons c s)
  then obtain u where t: "t = c # s @ u" by (auto simp: prefix_def)
  from Cons.prems(2) t have none: "listening_port (s @ u) = None"
    and step: "prefix LISTENING (c # s @ u) \<Longrightarrow> takeWhile is_digit (drop (length LISTENING) (c # s @ u)) = []"
    by (auto simp: Let_def split: if_splits)
  from Cons.IH [OF _ none] have "listening_port s = None" by simp
  moreover have "\<not> (prefix LISTENING (c # s) \<and> takeWhile is_digit (drop (length LISTENING) (c # s)) \<noteq> [])"
  proof
    assume h: "prefix LISTENING (c # s) \<and> takeWhile is_digit (drop (length LISTENING) (c # s)) \<noteq> []"
    then have "prefix LISTENING (c # s @ u)" by (metis append_Cons prefix_prefix)
    from step [OF this] have e: "takeWhile is_digit (drop (length LISTENING) (c # s @ u)) = []" .
    have "drop (length LISTENING) (c # s @ u) = drop (length LISTENING) (c # s) @ drop (length LISTENING - length (c # s)) u"
      by (metis append_Cons drop_append)
    with h e show False
      by (cases "drop (length LISTENING) (c # s)") (auto simp del: drop_Cons' split: if_splits)
  qed
  ultimately show ?case by (simp add: Let_def del: drop_Cons')
qed simp

text \<open>Every prefix of an output with one announcement has no port, or the first digits of it.\<close>

lemma listening_cut:
  assumes pre: "listening_port pre = None" and ds: "ds \<noteq> []" "list_all is_digit ds"
    and post: "post = [] \<or> \<not> is_digit (hd post)" and "prefix t (pre @ LISTENING @ ds @ post)"
    and p: "listening_port t = Some p"
  obtains k where "0 < k" "k \<le> length ds" "p = nat_of_digits (take k ds)"
    "k = length ds \<or> length t = length (pre @ LISTENING) + k"
proof -
  have t: "t = take (length t) (pre @ LISTENING @ ds @ post)" using assms(5) by (metis prefix_def append_eq_conv_conj)
  let ?a = "length (pre @ LISTENING)"
  have long: "?a < length t"
  proof (rule ccontr)
    assume "\<not> ?a < length t"
    then have "prefix t (pre @ LISTENING)" using t by (metis append_assoc append_eq_conv_conj linorder_not_less
          prefix_length_prefix prefix_order.order_refl take_is_prefix assms(5))
    moreover have "listening_port (pre @ LISTENING) = None"
      using listening_skip [OF pre, of "[]"] by (simp add: LISTENING_def Let_def)
    ultimately show False using listening_prefix p by fastforce
  qed
  show thesis
  proof (cases "length t < ?a + length ds")
    case True
    define k where "k = length t - ?a"
    have "t = pre @ LISTENING @ take k ds @ []" using t long True by (simp add: k_def)
    moreover have "listening_port \<dots> = Some (nat_of_digits (take k ds))"
      unfolding listening_skip [OF pre]
      by (rule listening_here) (use long True ds in \<open>auto simp: k_def list_all_iff dest: in_set_takeD\<close>)
    ultimately have "p = nat_of_digits (take k ds)" using p by simp
    with long True show thesis by (intro that [of k]) (auto simp: k_def)
  next
    case False
    define r where "r = take (length t - ?a - length ds) post"
    have "t = pre @ LISTENING @ ds @ r" using t False by (simp add: r_def)
    moreover have "listening_port \<dots> = Some (nat_of_digits ds)"
      unfolding listening_skip [OF pre]
      by (rule listening_here) (use post ds in \<open>auto simp: r_def\<close>)
    ultimately have "p = nat_of_digits (take (length ds) ds)" using p by simp
    with ds show thesis by (intro that [of "length ds"]) auto
  qed
qed

definition stdout_text :: "child_event list \<Rightarrow> string" where
  "stdout_text es = utf8_string (concat (map (\<lambda>e. case e of ChildStdout c \<Rightarrow> c | _ \<Rightarrow> []) es))"

lemma stdout_text_simps [simp]:
  "stdout_text [] = []"
  "stdout_text (ChildStdout c # es) = utf8_string c @ stdout_text es"
  "stdout_text (ChildStderr c # es) = stdout_text es"
  "stdout_text (ChildDrain # es) = stdout_text es"
  by (simp_all add: stdout_text_def utf8_string_def)

text \<open>The promise is decided by the first prefix of the events whose output has a port.\<close>

lemma first_port:
  assumes "list_all output_event es" and "\<not> st_resolved s" and "st_result s = None"
    and "listening_port (st_stdout s @ stdout_text es) \<noteq> None" and "listening_port (st_stdout s) = None"
  shows "\<exists>i p. i \<le> length es \<and> listening_port (st_stdout s @ stdout_text (take i es)) = Some p
             \<and> st_result (foldl start_event s es) = Some (Inr p)"
  using assms
proof (induction es arbitrary: s)
  case (Cons e es)
  show ?case
  proof (cases e)
    case e: (ChildStdout c)
    show ?thesis
    proof (cases "listening_port (st_stdout s @ utf8_string c)")
      case None
      with Cons.prems e Cons.IH [of "start_event s e"]
      obtain i p where "i \<le> length es" "listening_port (st_stdout s @ utf8_string c @ stdout_text (take i es)) = Some p"
        "st_result (foldl start_event (start_event s e) es) = Some (Inr p)" by (auto simp: Let_def)
      with e show ?thesis by (intro exI [of _ "Suc i"] exI [of _ p]) simp
    next
      case (Some p)
      with Cons.prems e have r: "st_result (start_event s e) = Some (Inr p)" by (simp add: Let_def st_settle_def)
      with starting.settled_run [of "start_event s e" es]
      have "st_result (foldl start_event s (e # es)) = Some (Inr p)" by simp
      with Some e show ?thesis by (intro exI [of _ "Suc 0"] exI [of _ p]) simp
    qed
  next
    case e: (ChildStderr c)
    with Cons.prems Cons.IH [of "start_event s e"]
    obtain i p where "i \<le> length es" "listening_port (st_stdout s @ stdout_text (take i es)) = Some p"
      "st_result (foldl start_event (start_event s e) es) = Some (Inr p)" by auto
    with e show ?thesis by (intro exI [of _ "Suc i"] exI [of _ p]) simp
  next
    case e: ChildDrain
    with Cons.prems Cons.IH [of "start_event s e"]
    obtain i p where "i \<le> length es" "listening_port (st_stdout s @ stdout_text (take i es)) = Some p"
      "st_result (foldl start_event (start_event s e) es) = Some (Inr p)" by auto
    with e show ?thesis by (intro exI [of _ "Suc i"] exI [of _ p]) simp
  qed (use Cons.prems in \<open>simp_all add: output_event_def\<close>)
qed simp

lemma prefix_stdout: "prefix (stdout_text (take i es)) (stdout_text es)"
proof -
  have "stdout_text es = stdout_text (take i es) @ stdout_text (drop i es)"
    by (metis append_take_drop_id concat_append map_append stdout_text_def utf8_string_def)
  then show ?thesis by (metis prefixI)
qed

section \<open>The words of the command line\<close>

text \<open>A part that the shell reads as the given words, alone or before a blank.\<close>

definition reads_as :: "string \<Rightarrow> string list \<Rightarrow> bool" where
  "reads_as p ws = (sh_scan Between [] p = Some ws
     \<and> (\<forall>r. sh_scan Between [] (p @ CHR '' '' # r) = map_option ((@) ws) (sh_scan Between [] r)))"

lemma append_one: "(@) [x] = (#) x" and append_two: "(@) (xs @ ys) = (\<lambda>zs. xs @ ys @ zs)"
  by (simp_all add: fun_eq_iff)

lemma reads_as_quoted: "reads_as (shellQuote s) [s]"
  unfolding reads_as_def append_one by (simp add: shell_words)

lemma reads_as_plain: "list_all sh_plain s \<Longrightarrow> s \<noteq> [] \<Longrightarrow> reads_as s [s]"
  using scan_plain [of s Between "[]" "[]"] word_plain [of s]
  unfolding reads_as_def append_one by simp

lemma reads_as_both: "reads_as p ws \<Longrightarrow> reads_as q vs \<Longrightarrow> reads_as (p @ CHR '' '' # q) (ws @ vs)"
  unfolding reads_as_def append_two by (simp add: option.map_comp comp_def)

lemma reads_as_join:
  "ps \<noteq> [] \<Longrightarrow> list_all2 reads_as ps wss \<Longrightarrow> reads_as (js_join '' '' ps) (concat wss)"
proof (induction ps arbitrary: wss)
  case (Cons p ps)
  then obtain ws wss' where w: "wss = ws # wss'" "reads_as p ws" "list_all2 reads_as ps wss'"
    by (auto simp: list_all2_Cons1)
  show ?case
  proof (cases "ps = []")
    case True
    with w show ?thesis by simp
  next
    case False
    with Cons.IH [OF False w(3)] w show ?thesis by (simp add: js_join_cons reads_as_both)
  qed
qed simp

lemma reads_as_option: "list_all sh_plain x \<Longrightarrow> x \<noteq> [] \<Longrightarrow> reads_as (x @ CHR '' '' # shellQuote s) [x, s]"
  using reads_as_both [OF reads_as_plain reads_as_quoted, of x s] by simp

section \<open>Deadlines\<close>

text \<open>When every attempt that does not decide takes at least \<open>gap\<close>, the fuel that covers the time left
  is enough: more of it changes nothing.\<close>

lemma poll_enough:
  assumes "\<And>w w'. attempt w = (Inr None, w') \<Longrightarrow> now_ms T w + gap \<le> now_ms T w'" and "0 < gap"
    and "deadline \<le> now_ms T w + n * gap" and "n \<le> m"
  shows "poll_until T deadline attempt m w = poll_until T deadline attempt n w"
  using assms(3,4)
proof (induction n arbitrary: m w)
  case 0
  then show ?case by (cases m) auto
next
  case (Suc n)
  then obtain m' where m: "m = Suc m'" "n \<le> m'" by (cases m) auto
  have "poll_until T deadline attempt m' w' = poll_until T deadline attempt n w'" if "attempt w = (Inr None, w')" for w'
    using Suc.IH [OF _ m(2), of w'] Suc.prems(1) assms(1) [OF that] by simp
  then show ?case unfolding m by (auto split: prod.splits sum.splits option.splits)
qed

section \<open>Properties\<close>

text \<open>C0. The command line that starts the server is read by the shell as exactly the server's script, its
  options, the token file and the well-formed extension identifiers, whatever characters the
  paths contain.\<close>

theorem start_command_words:
  "sh_words (start_command script tokenFile exts)
   = Some ([script, ''--start-server'', ''--host=127.0.0.1'', ''--port=0'', ''--connection-token-file'', tokenFile,
            ''--enable-remote-auto-shutdown'', ''--accept-server-license-terms'']
           @ concat (map (\<lambda>i. [''--install-extension'', i]) (filter extension_id exts)))"
proof -
  let ?wss = "[[script], [''--start-server''], [''--host=127.0.0.1''], [''--port=0''], [''--connection-token-file'', tokenFile],
            [''--enable-remote-auto-shutdown''], [''--accept-server-license-terms'']]
           @ map (\<lambda>i. [''--install-extension'', i]) (filter extension_id exts)"
  have "list_all2 reads_as (map (\<lambda>i. ''--install-extension '' @ shellQuote i) is) (map (\<lambda>i. [''--install-extension'', i]) is)" for "is"
    using reads_as_option [of "''--install-extension''"] by (induction "is") (simp_all add: sh_plain_def)
  then have "list_all2 reads_as (start_parts script tokenFile exts) ?wss"
    using reads_as_option [of "''--connection-token-file''"] reads_as_plain
    by (simp add: start_parts_def reads_as_quoted sh_plain_def)
  from reads_as_join [OF _ this] show ?thesis
    by (simp add: start_command_def reads_as_def sh_words_def start_parts_def)
qed

text \<open>C20. The wait for the server's port returns, at most one dial and one pause after its deadline,
  when a dial takes at most \<open>D\<close> ms (the code gives it 2 s) and the pause of 250 ms at least that and at
  most \<open>P\<close> ms: it says yes only when a dial that began before the deadline connected, and no only
  when the clock has passed the deadline. As every failed dial is followed by the pause, the number of
  dials of the model is all that the deadline allows, and allowing more changes nothing.\<close>

theorem port_wait_ends:
  assumes "\<And>w. now_ms T w \<le> now_ms T (snd (dial socksPort port w)) \<and> now_ms T (snd (dial socksPort port w)) \<le> now_ms T w + D"
    and "\<And>w. now_ms T w + 250 \<le> now_ms T (pause T 250 w) \<and> now_ms T (pause T 250 w) \<le> now_ms T w + P"
    and "Suc (timeoutMs div 250) \<le> dials"
  shows "\<exists>reachable w'. waitForRemotePort T dial socksPort port timeoutMs w = (Inr reachable, w')
     \<and> now_ms T w' \<le> now_ms T w + timeoutMs + D + P
     \<and> (if reachable then \<exists>v. now_ms T v < now_ms T w + timeoutMs \<and> dial socksPort port v = (Inr (), w')
        else now_ms T w + timeoutMs \<le> now_ms T w')
     \<and> poll_until T (now_ms T w + timeoutMs) (port_dial T dial socksPort port) dials w
       = poll_until T (now_ms T w + timeoutMs) (port_dial T dial socksPort port) (Suc (timeoutMs div 250)) w"
proof -
  let ?d = "now_ms T w + timeoutMs" and ?dialling = "port_dial T dial socksPort port"
  have gap: "now_ms T v + 250 \<le> now_ms T v' \<and> now_ms T v' \<le> now_ms T v + D + P" if "?dialling v = (Inr None, v')" for v v'
  proof -
    obtain r u where d: "dial socksPort port v = (r, u)" by fastforce
    with that have "v' = pause T 250 u" by (auto simp: port_dial_def split: sum.splits)
    with assms(1) [of v] assms(2) [of u] d show ?thesis by simp
  qed
  have run: "\<exists>r v'. poll_until T ?d ?dialling n v = (Inr r, v') \<and> now_ms T v' \<le> max (now_ms T v) (?d + D + P)
      \<and> (case r of None \<Rightarrow> ?d \<le> now_ms T v' | Some b \<Rightarrow> b \<and> (\<exists>u. now_ms T u < ?d \<and> dial socksPort port u = (Inr (), v')))"
    if "?d \<le> now_ms T v + n * 250" for n v
    using that
  proof (induction n arbitrary: v)
    case (Suc n)
    show ?case
    proof (cases "now_ms T v < ?d")
      case early: True
      obtain r u where d: "dial socksPort port v = (r, u)" by fastforce
      show ?thesis
      proof (cases r)
        case (Inr x)
        with d early assms(1) [of v] show ?thesis by (auto simp: port_dial_def)
      next
        case (Inl e)
        with d have fail: "?dialling v = (Inr None, pause T 250 u)" by (simp add: port_dial_def)
        from Suc.IH [of "pause T 250 u"] gap [OF fail] Suc.prems early fail show ?thesis by fastforce
      qed
    qed simp
  qed simp
  have fits: "?d \<le> now_ms T w + Suc (timeoutMs div 250) * 250" by simp
  obtain r w' where r: "poll_until T ?d ?dialling (Suc (timeoutMs div 250)) w = (Inr r, w')" "now_ms T w' \<le> ?d + D + P"
    "case r of None \<Rightarrow> ?d \<le> now_ms T w' | Some b \<Rightarrow> b \<and> (\<exists>u. now_ms T u < ?d \<and> dial socksPort port u = (Inr (), w'))"
    using run [OF fits] by auto
  then have "waitForRemotePort T dial socksPort port timeoutMs w = (Inr (nullish r False), w')"
    by (simp add: waitForRemotePort_def await_def resolve_def del: poll_until.simps)
  moreover have "poll_until T ?d ?dialling dials w = poll_until T ?d ?dialling (Suc (timeoutMs div 250)) w"
    using gap by (intro poll_enough [OF _ _ fits assms(3)]) auto
  ultimately show ?thesis using r(2,3)
    by (intro exI [of _ "nullish r False"] exI [of _ w']) (auto simp del: poll_until.simps split: option.splits)
qed

theorem port_wait_ends_witness:
  "\<exists>reachable w'. waitForRemotePort \<lparr>now_ms = id, pause = (+)\<rparr> (\<lambda>_ _ w. (Inl type_error, w + 2000)) 1080 8080 10000 0 = (Inr reachable, w')
     \<and> w' \<le> 12250"
proof -
  have "\<exists>reachable w'. waitForRemotePort \<lparr>now_ms = id, pause = (+)\<rparr> (\<lambda>_ _ w. (Inl type_error, w + 2000)) 1080 8080 10000 (0 :: nat) = (Inr reachable, w')
     \<and> now_ms \<lparr>now_ms = id, pause = (+)\<rparr> w' \<le> now_ms \<lparr>now_ms = id, pause = (+)\<rparr> (0 :: nat) + 10000 + 2000 + 250
     \<and> (if reachable then \<exists>v. now_ms \<lparr>now_ms = id, pause = (+)\<rparr> v < now_ms \<lparr>now_ms = id, pause = (+)\<rparr> (0 :: nat) + 10000 \<and> (Inl type_error, v + 2000) = (Inr (), w')
        else now_ms \<lparr>now_ms = id, pause = (+)\<rparr> (0 :: nat) + 10000 \<le> now_ms \<lparr>now_ms = id, pause = (+)\<rparr> w')
     \<and> poll_until \<lparr>now_ms = id, pause = (+)\<rparr> (now_ms \<lparr>now_ms = id, pause = (+)\<rparr> (0 :: nat) + 10000) (port_dial \<lparr>now_ms = id, pause = (+)\<rparr> (\<lambda>_ _ w. (Inl type_error, w + 2000)) 1080 8080) 99 0
       = poll_until \<lparr>now_ms = id, pause = (+)\<rparr> (now_ms \<lparr>now_ms = id, pause = (+)\<rparr> (0 :: nat) + 10000) (port_dial \<lparr>now_ms = id, pause = (+)\<rparr> (\<lambda>_ _ w. (Inl type_error, w + 2000)) 1080 8080) (Suc (10000 div 250)) 0"
    by (rule port_wait_ends) simp_all
  then show ?thesis by auto
qed

text \<open>The server announces its port in a line of its output. However that output is cut into chunks,
  and whatever standard error carries in between, the start succeeds with a number read from
  that announcement, and nothing that happens later changes it. It is the announced port if
  no chunk ends inside its digits; a chunk that does end there makes the start succeed with
  the port's first digits only.\<close>

theorem server_port_found:
  assumes "list_all output_event es" and "stdout_text es = pre @ LISTENING @ dec port @ post"
    and "listening_port pre = None" and "post = [] \<or> \<not> is_digit (hd post)"
  shows "\<exists>k. 0 < k \<and> k \<le> length (dec port)
      \<and> st_result (startServer (es @ later)) = Some (Inr (nat_of_digits (take k (dec port))))
      \<and> ((\<forall>i. length (stdout_text (take i es)) \<le> length (pre @ LISTENING)
              \<or> length (pre @ LISTENING @ dec port) \<le> length (stdout_text (take i es)))
         \<longrightarrow> st_result (startServer (es @ later)) = Some (Inr port))"
proof -
  have ds: "dec port \<noteq> []" "list_all is_digit (dec port)" by (simp_all add: dec_digits)
  have "listening_port (stdout_text es) \<noteq> None"
    using assms listening_skip [OF assms(3)] listening_here [OF ds assms(4)] by simp
  from first_port [OF assms(1), of starting_init] this
  obtain i p where i: "listening_port (stdout_text (take i es)) = Some p" "st_result (startServer es) = Some (Inr p)"
    by (auto simp: starting_init_def startServer_def)
  then have r: "st_result (startServer (es @ later)) = Some (Inr p)"
    using starting.first_verdict [of starting_init es later] by (simp add: startServer_def)
  from prefix_stdout [of i es] have "prefix (stdout_text (take i es)) (pre @ LISTENING @ dec port @ post)"
    by (simp add: assms(2))
  from listening_cut [OF assms(3) ds assms(4) this i(1)] obtain k where
    k: "0 < k" "k \<le> length (dec port)" "p = nat_of_digits (take k (dec port))"
      "k = length (dec port) \<or> length (stdout_text (take i es)) = length (pre @ LISTENING) + k" by blast
  have "p = port" if "\<forall>i. length (stdout_text (take i es)) \<le> length (pre @ LISTENING)
      \<or> length (pre @ LISTENING @ dec port) \<le> length (stdout_text (take i es))"
  proof -
    from that [rule_format, of i] k have "k = length (dec port)" by auto
    with k(3) show ?thesis by simp
  qed
  with r k show ?thesis by (intro exI [of _ k]) auto
qed

theorem server_port_found_witness:
  "st_result (startServer [ChildStdout (utf8_bytes (''* '' @ LISTENING @ dec 41235)), ChildStderr [1], ChildClose (Some 1) None])
     = Some (Inr 41235)"
proof -
  let ?es = "[ChildStdout (utf8_bytes (''* '' @ LISTENING @ dec 41235)), ChildStderr [1]]"
  have "listening_port ''* '' = None" by (simp add: LISTENING_def)
  moreover have "\<forall>i. length (stdout_text (take i ?es)) \<le> length (''* '' @ LISTENING)
      \<or> length (''* '' @ LISTENING @ dec 41235) \<le> length (stdout_text (take i ?es))"
  proof
    fix i
    show "length (stdout_text (take i ?es)) \<le> length (''* '' @ LISTENING)
      \<or> length (''* '' @ LISTENING @ dec 41235) \<le> length (stdout_text (take i ?es))"
      by (cases i; cases "i - 1") auto
  qed
  ultimately show ?thesis
    using server_port_found [of ?es "''* ''" 41235 "[]" "[ChildClose (Some 1) None]"] by (auto simp: output_event_def)
qed

text \<open>The same output in two chunks: the server listens on 41235, the client uses 412.\<close>

theorem port_cut_short:
  "st_result (startServer [ChildStdout (utf8_bytes (LISTENING @ ''412'')), ChildStdout (utf8_bytes ''35'')]) = Some (Inr 412)"
  by (simp add: startServer_def starting_init_def Let_def st_settle_def LISTENING_def is_digit_def nat_of_digits_def
      digit_val_def)

text \<open>C0. A server that exits with code 0, or is killed by a signal, before it has announced a port is
  never noticed: its exit disarms the timeout and settles nothing, so that the promise stays
  open whatever standard error and the timers do afterwards. With any other exit code the
  start fails with that code.\<close>

theorem server_exit_unnoticed:
  assumes "list_all output_event es" and "listening_port (stdout_text es) = None"
    and "list_all (\<lambda>e. e = RunTimeout \<or> (\<exists>c. e = ChildStderr c)) later"
  shows "(code = None \<or> code = Some 0 \<longrightarrow> st_result (startServer (es @ ChildClose code signal # later)) = None)
       \<and> (\<forall>n. code = Some n \<and> n \<noteq> 0 \<longrightarrow>
            (\<exists>err. st_result (startServer (es @ ChildClose code signal # later)) = Some (Inl (server_exited n err))))"
proof -
  have quiet: "st_result (foldl start_event s es) = None \<and> \<not> st_resolved (foldl start_event s es)"
    if "st_result s = None" "\<not> st_resolved s" "listening_port (st_stdout s @ stdout_text es) = None" for s
    using assms(1) that
  proof (induction es arbitrary: s)
    case (Cons e es)
    have "listening_port (st_stdout s @ utf8_string c) = None" if "e = ChildStdout c" for c
      using listening_prefix [OF _ Cons.prems(4)] that by (simp add: prefix_def)
    then have "st_result (start_event s e) = None" "\<not> st_resolved (start_event s e)"
      "st_stdout (start_event s e) @ stdout_text es = st_stdout s @ stdout_text (e # es)"
      using Cons.prems by (cases e; simp add: output_event_def Let_def)+
    with Cons show ?case by simp
  qed simp
  have still: "st_result (foldl start_event s later) = None" if "st_result s = None" "\<not> st_timer s" for s
    using assms(3) that by (induction later arbitrary: s) auto
  let ?s = "foldl start_event starting_init es"
  have s: "st_result ?s = None" using quiet [of starting_init] assms(2) by (simp add: starting_init_def)
  have "st_result (startServer (es @ ChildClose code signal # later)) = None" if "code = None \<or> code = Some 0"
    unfolding startServer_def using that s by (auto intro!: still)
  moreover have "st_result (startServer (es @ ChildClose (Some n) signal # later)) = Some (Inl (server_exited n (st_stderr ?s)))"
    if "n \<noteq> 0" for n
    unfolding startServer_def
    using that s starting.settled_run [of "start_event ?s (ChildClose (Some n) signal)" later]
    by (simp add: st_settle_def Let_def)
  ultimately show ?thesis by auto
qed

theorem server_exit_unnoticed_witness:
  "st_result (startServer ([ChildStdout [72, 105]] @ ChildClose (Some 0) None # [RunTimeout])) = None"
  using server_exit_unnoticed [of "[ChildStdout [72, 105]]" "[RunTimeout]" "Some 0" None]
  by (simp add: output_event_def utf8_string_def LISTENING_def)

end
