(* ===== verification/AskpassCache.thy ===== *)
theory AskpassCache
  imports Json Base64 "HOL-Library.AList"
begin

text \<open>
  \<^verbatim>\<open>src/ssh/askpassCache.ts\<close>: the persistent, encrypted cache of passphrases and passwords.

  The cryptography of Node is a parameter, \<open>crypto\<close>; the lemmas use only that opening what was
  sealed gives the plain text back and, where they say so, that prompts do not collide under
  the HMAC. Random bytes, the clock and the file system (\<open>mtime\<close>: the modification time of a
  file, \<^term>\<open>None\<close> when \<^verbatim>\<open>stat\<close> throws) are arguments; times are whole milliseconds. The vendored
  append-only store is its list of rows, in memory and on disk; \<open>kv_store\<close> is the interface the
  cache needs of it.
\<close>

section \<open>Key-value stores\<close>

locale kv_store =
  fixes get :: "'d \<Rightarrow> string \<Rightarrow> 'v option" and put :: "string \<Rightarrow> 'v \<Rightarrow> 'd \<Rightarrow> 'd" and del :: "string \<Rightarrow> 'd \<Rightarrow> 'd"
  assumes get_put: "get (put k v d) k' = (if k = k' then Some v else get d k')"
    and get_del: "get (del k d) k' = (if k = k' then None else get d k')"
begin

lemma get_dels: "get (fold del ks d) k = (if k \<in> set ks then None else get d k)"
  by (induction ks arbitrary: d) (simp_all add: get_del)

lemma get_put_del: "get (put k v (del k' d)) k = Some v"
  by (simp add: get_put)

lemma dels_put: "k \<notin> set ks \<Longrightarrow> get (fold del ks (put k v d)) k = Some v"
  by (simp add: get_dels get_put)

end

section \<open>Records\<close>

record entry =
  e_ct :: string
  e_iv :: string
  e_tag :: string

record plaintext =
  p_password :: string
  p_keyPath :: string
  p_storedAt :: int
  p_keyMtime :: int

record crypto =
  hkdf :: "bytes \<Rightarrow> string \<Rightarrow> bytes"
  hmac :: "bytes \<Rightarrow> string \<Rightarrow> bytes"
  seal :: "bytes \<Rightarrow> bytes \<Rightarrow> bytes \<Rightarrow> bytes \<times> bytes"
  open_sealed :: "bytes \<Rightarrow> bytes \<Rightarrow> bytes \<Rightarrow> bytes \<Rightarrow> bytes option"

type_synonym rows = "(string \<times> entry) list"

record cache =
  hmacKey :: "bytes option"
  aesKey :: "bytes option"
  db :: "rows option"
  disposed :: bool
  TTL_MS :: int
  ROTATION_MS :: int
  secret :: "string option"
  disk :: "(rows \<times> int) option"

text \<open>\<open>secret\<close> is the master key record in SecretStorage, \<open>disk\<close> the db file with its time.\<close>

interpretation rows: kv_store map_of AList.update AList.delete
  by unfold_locales (simp_all add: update_conv' delete_conv')

section \<open>Prompts and passphrases\<close>

definition parseKeyPath :: "string \<Rightarrow> string option" where
  "parseKeyPath prompt =
     (case find_sub ''for key'' prompt of
        None \<Rightarrow> None
      | Some idx \<Rightarrow>
          (let afterKey = drop (idx + 7) prompt
           in case index_of (CHR 0x27) afterKey of
                None \<Rightarrow> None
              | Some start \<Rightarrow>
                  (case index_of (CHR 0x27) (drop (Suc start) afterKey) of
                     None \<Rightarrow> None
                   | Some n \<Rightarrow> Some (take n (drop (Suc start) afterKey)))))"

text \<open>\<open>keygen\<close> runs \<^verbatim>\<open>ssh-keygen -y -f\<close> on a key file, given the helper files and the environment, and
  fails with its standard error and the message of the exception. The result is the error.\<close>

definition helper_script :: "string \<Rightarrow> string" where
  "helper_script envVar =
     ''process.stdout.write(process.env['' @ [CHR 0x22] @ envVar @ [CHR 0x22] @ ''] || '' @ [CHR 0x22, CHR 0x22] @ '');''"

definition wrapper_script :: "bool \<Rightarrow> string \<Rightarrow> string \<Rightarrow> string" where
  "wrapper_script isWin nodePath jsPath =
     (let q = [CHR 0x22]
      in if isWin then ''@'' @ q @ nodePath @ q @ '' '' @ q @ jsPath @ q
         else ''#!/bin/sh'' @ [CHR 0x0A] @ ''exec '' @ q @ nodePath @ q @ '' '' @ q @ jsPath @ q)"

record platform =
  isWin :: bool
  execPath :: string
  fileExists :: "string \<Rightarrow> bool"
  joinPath :: "string \<Rightarrow> string \<Rightarrow> string"
  keygen :: "string \<Rightarrow> (string \<times> string) list \<Rightarrow> (string \<times> string) list \<Rightarrow> (string \<times> string) option"

definition validatePassphrase :: "platform \<Rightarrow> string \<Rightarrow> bytes \<Rightarrow> string \<Rightarrow> string \<Rightarrow> string option" where
  "validatePassphrase P dir nonce keyPath passphrase =
     (if \<not> fileExists P keyPath then Some (''Key file not found: '' @ keyPath)
      else let envVar = ''AERGIC_ASKPASS_'' @ hex_encode nonce;
               jsPath = joinPath P dir ''helper.js'';
               wrapperPath = joinPath P dir (if isWin P then ''wrapper.cmd'' else ''wrapper.sh'')
           in (case keygen P keyPath
                      [(jsPath, helper_script envVar), (wrapperPath, wrapper_script (isWin P) (execPath P) jsPath)]
                      [(envVar, passphrase), (''SSH_ASKPASS'', wrapperPath), (''SSH_ASKPASS_REQUIRE'', ''force''),
                       (''DISPLAY'', '':0'')] of
                 None \<Rightarrow> None
               | Some (stderr, message) \<Rightarrow> Some (or_else (trim stderr) message)))"

section \<open>Keys and encryption\<close>

definition HMAC_INFO :: string where "HMAC_INFO = ''aergic/askpass/hmac''"
definition AES_INFO :: string where "AES_INFO = ''aergic/askpass/aes''"

definition json_int :: "int \<Rightarrow> json" where "json_int i = JNum (dec_int i)"

definition int_of_json :: "json option \<Rightarrow> int option" where
  "int_of_json v = (case v of Some (JNum l) \<Rightarrow> parse_int l | _ \<Rightarrow> None)"

definition master_record :: "bytes \<Rightarrow> int \<Rightarrow> string" where
  "master_record key createdAt =
     stringify (JObj [(''key'', JStr (base64_encode key)), (''createdAt'', json_int createdAt)])"

definition plaintext_json :: "plaintext \<Rightarrow> json" where
  "plaintext_json p = JObj [(''password'', JStr (p_password p)), (''keyPath'', JStr (p_keyPath p)),
     (''storedAt'', json_int (p_storedAt p)), (''keyMtime'', json_int (p_keyMtime p))]"

text \<open>Only a blob that \<open>encrypt\<close> wrote passes the authentication, so no other shape is read.\<close>

definition plaintext_of_json :: "json \<Rightarrow> plaintext option" where
  "plaintext_of_json j =
     (case j of
        JObj kvs \<Rightarrow>
          (let m = map_of (rev kvs)
           in case (json_string (m ''password''), json_string (m ''keyPath''),
                    int_of_json (m ''storedAt''), int_of_json (m ''keyMtime'')) of
                (Some pw, Some kp, Some t, Some mt) \<Rightarrow>
                  Some \<lparr>p_password = pw, p_keyPath = kp, p_storedAt = t, p_keyMtime = mt\<rparr>
              | _ \<Rightarrow> None)
      | _ \<Rightarrow> None)"

definition dbKey :: "crypto \<Rightarrow> bytes \<Rightarrow> string \<Rightarrow> string" where
  "dbKey C hk prompt = hex_encode (hmac C hk prompt)"

definition encrypt :: "crypto \<Rightarrow> bytes \<Rightarrow> bytes \<Rightarrow> plaintext \<Rightarrow> entry" where
  "encrypt C ak iv plain =
     (let (ct, tag) = seal C ak iv (utf8_bytes (stringify (plaintext_json plain)))
      in \<lparr>e_ct = base64_encode ct, e_iv = base64_encode iv, e_tag = base64_encode tag\<rparr>)"

definition decrypt :: "crypto \<Rightarrow> bytes \<Rightarrow> entry \<Rightarrow> plaintext option" where
  "decrypt C ak e =
     (case open_sealed C ak (base64_decode (e_iv e)) (base64_decode (e_ct e)) (base64_decode (e_tag e)) of
        None \<Rightarrow> None
      | Some pt \<Rightarrow> (case parse_json (utf8_string pt) of Inl _ \<Rightarrow> None | Inr j \<Rightarrow> plaintext_of_json j))"

section \<open>The cache\<close>

text \<open>Writes go to memory and, before the callback, to the file.\<close>

definition db_write :: "int \<Rightarrow> rows \<Rightarrow> cache \<Rightarrow> cache" where
  "db_write now r s = s\<lparr>db := Some r, disk := Some (r, now)\<rparr>"

definition openDb :: "int \<Rightarrow> cache \<Rightarrow> cache" where
  "openDb now s =
     (case disk s of
        Some (r, t) \<Rightarrow> s\<lparr>db := Some r\<rparr>
      | None \<Rightarrow> s\<lparr>db := Some [], disk := Some ([], now)\<rparr>)"

text \<open>Whether an entry must go: not decryptable, expired, or its key file changed or is gone. A TTL
  of 0 never expires.\<close>

definition entry_stale :: "int \<Rightarrow> (string \<Rightarrow> int option) \<Rightarrow> int \<Rightarrow> plaintext \<Rightarrow> bool" where
  "entry_stale ttl mtime now p =
     (0 < ttl \<and> now - p_storedAt p > ttl
      \<or> (p_keyPath p \<noteq> [] \<and> 0 < p_keyMtime p
          \<and> (case mtime (p_keyPath p) of None \<Rightarrow> True | Some t \<Rightarrow> t \<noteq> p_keyMtime p)))"

definition cache_get :: "crypto \<Rightarrow> (string \<Rightarrow> int option) \<Rightarrow> int \<Rightarrow> string \<Rightarrow> cache \<Rightarrow> string option \<times> cache" where
  "cache_get C mtime now prompt s =
     (case (hmacKey s, aesKey s, db s) of
        (Some hk, Some ak, Some r) \<Rightarrow>
          (let key = dbKey C hk prompt
           in case map_of r key of
                None \<Rightarrow> (None, s)
              | Some e \<Rightarrow>
                  (case decrypt C ak e of
                     None \<Rightarrow> (None, db_write now (AList.delete key r) s)
                   | Some p \<Rightarrow>
                       if entry_stale (TTL_MS s) mtime now p
                       then (None, db_write now (AList.delete key r) s)
                       else (Some (p_password p), s)))
      | _ \<Rightarrow> (None, s))"

text \<open>The result is an error when nothing was stored.\<close>

definition cache_set :: "crypto \<Rightarrow> (string \<Rightarrow> string \<Rightarrow> string option) \<Rightarrow> (string \<Rightarrow> int option) \<Rightarrow> int \<Rightarrow> bytes
    \<Rightarrow> string \<Rightarrow> string \<Rightarrow> bool \<Rightarrow> cache \<Rightarrow> string option \<times> cache" where
  "cache_set C validate mtime now iv prompt password skipValidation s =
     (case (hmacKey s, aesKey s, db s) of
        (Some hk, Some ak, Some r) \<Rightarrow>
          (let keyPath = parseKeyPath prompt;
               invalid = (if truthy keyPath \<and> \<not> skipValidation then validate (nullish keyPath []) password else None)
           in case invalid of
                Some err \<Rightarrow> (Some err, s)
              | None \<Rightarrow>
                  (let keyMtime = (if truthy keyPath then nullish (mtime (nullish keyPath [])) 0 else 0);
                       plain = \<lparr>p_password = password, p_keyPath = nullish keyPath [], p_storedAt = now,
                                p_keyMtime = keyMtime\<rparr>
                   in (None, db_write now (AList.update (dbKey C hk prompt) (encrypt C ak iv plain) r) s)))
      | _ \<Rightarrow> (Some ''cache not initialized'', s))"

definition cache_evict :: "crypto \<Rightarrow> int \<Rightarrow> string \<Rightarrow> cache \<Rightarrow> cache" where
  "cache_evict C now prompt s =
     (case (db s, hmacKey s) of
        (Some r, Some hk) \<Rightarrow> db_write now (AList.delete (dbKey C hk prompt) r) s
      | _ \<Rightarrow> s)"

definition sweep_keys :: "crypto \<Rightarrow> bytes \<Rightarrow> int \<Rightarrow> (string \<Rightarrow> int option) \<Rightarrow> int \<Rightarrow> rows \<Rightarrow> string list" where
  "sweep_keys C ak ttl mtime now r =
     map fst (filter (\<lambda>(k, e). case decrypt C ak e of None \<Rightarrow> True | Some p \<Rightarrow> entry_stale ttl mtime now p) r)"

definition sweep :: "crypto \<Rightarrow> (string \<Rightarrow> int option) \<Rightarrow> int \<Rightarrow> cache \<Rightarrow> cache" where
  "sweep C mtime now s =
     (case (db s, aesKey s) of
        (Some r, Some ak) \<Rightarrow>
          (let toEvict = sweep_keys C ak (TTL_MS s) mtime now r;
               r' = fold AList.delete toEvict r;
               s' = (if toEvict = [] then s else db_write now r' s)
           in if r' = [] then openDb now (s'\<lparr>db := None, disk := None\<rparr>) else s')
      | _ \<Rightarrow> s)"

definition clearAll :: "int \<Rightarrow> cache \<Rightarrow> cache" where
  "clearAll now s =
     (case db s of
        None \<Rightarrow> s
      | Some r \<Rightarrow> if r = [] then s else db_write now (fold AList.delete (map fst r) r) s)"

definition derive :: "crypto \<Rightarrow> bytes \<Rightarrow> cache \<Rightarrow> cache" where
  "derive C master s = s\<lparr>hmacKey := Some (hkdf C master HMAC_INFO), aesKey := Some (hkdf C master AES_INFO)\<rparr>"

definition rotateMasterKey :: "crypto \<Rightarrow> int \<Rightarrow> bytes \<Rightarrow> cache \<Rightarrow> cache" where
  "rotateMasterKey C now newKey s =
     openDb now (derive C newKey (s\<lparr>db := None, disk := None, secret := Some (master_record newKey now)\<rparr>))"

text \<open>The master key: a new one when none is stored, else the stored record, or the old format, a bare
  base64 text, taken as created now. The last component is the record to store.\<close>

definition load_master :: "string option \<Rightarrow> bytes \<Rightarrow> int \<Rightarrow> (bytes \<times> int \<times> string option) result" where
  "load_master raw fresh now =
     (if \<not> truthy raw then Inr (fresh, now, Some (master_record fresh now))
      else let old = Inr (base64_decode (nullish raw []), now, None)
           in (case parse_json (nullish raw []) of
                 Inl _ \<Rightarrow> old
               | Inr j \<Rightarrow>
                   (case (json_prop j ''key'', json_prop j ''createdAt'') of
                      (Inr k, Inr c) \<Rightarrow>
                        (case int_of_json c of
                           None \<Rightarrow> old
                         | Some createdAt \<Rightarrow>
                             if \<not> json_truthy k then old
                             else (case json_string k of
                                     None \<Rightarrow> Inl type_error
                                   | Some t \<Rightarrow> Inr (base64_decode t, createdAt, None)))
                    | _ \<Rightarrow> old)))"

text \<open>The db file of an earlier session that is older than the TTL is deleted.\<close>

definition wipe_stale :: "int \<Rightarrow> cache \<Rightarrow> cache" where
  "wipe_stale now s =
     (case disk s of
        Some (r, t) \<Rightarrow> if 0 < TTL_MS s \<and> now - t > TTL_MS s then s\<lparr>disk := None\<rparr> else s
      | None \<Rightarrow> s)"

definition cache_init :: "crypto \<Rightarrow> (string \<Rightarrow> int option) \<Rightarrow> int \<Rightarrow> bytes \<Rightarrow> bytes \<Rightarrow> cache \<Rightarrow> unit result \<times> cache" where
  "cache_init C mtime now fresh rotated s =
     (case load_master (secret s) fresh now of
        Inl e \<Rightarrow> (Inl e, s)
      | Inr (master, createdAt, store) \<Rightarrow>
          (let s1 = (case store of None \<Rightarrow> s | Some t \<Rightarrow> s\<lparr>secret := Some t\<rparr>);
               s2 = openDb now (wipe_stale now (derive C master s1))
           in if disposed s2 then (Inr (), s2)
              else let s3 = (if 0 < ROTATION_MS s2 \<and> now - createdAt > ROTATION_MS s2
                             then rotateMasterKey C now rotated s2 else s2)
                   in if disposed s3 then (Inr (), s3) else (Inr (), sweep C mtime now s3)))"

definition DEFAULT_TTL_MS :: int where "DEFAULT_TTL_MS = 8 * 60 * 60 * 1000"
definition DEFAULT_ROTATION_MS :: int where "DEFAULT_ROTATION_MS = 7 * 24 * 60 * 60 * 1000"

text \<open>\<^verbatim>\<open>initCache\<close>: the settings, given in hours and days, and a cache with nothing open.\<close>

definition initCache :: "crypto \<Rightarrow> (string \<Rightarrow> int option) \<Rightarrow> int \<Rightarrow> bytes \<Rightarrow> bytes \<Rightarrow> string option \<Rightarrow> (rows \<times> int) option
    \<Rightarrow> int option \<Rightarrow> int option \<Rightarrow> unit result \<times> cache" where
  "initCache C mtime now fresh rotated raw file ttlHours rotationDays =
     cache_init C mtime now fresh rotated
       \<lparr>hmacKey = None, aesKey = None, db = None, disposed = False,
        TTL_MS = (case ttlHours of None \<Rightarrow> DEFAULT_TTL_MS | Some h \<Rightarrow> h * 60 * 60 * 1000),
        ROTATION_MS = (case rotationDays of None \<Rightarrow> DEFAULT_ROTATION_MS | Some d \<Rightarrow> d * 24 * 60 * 60 * 1000),
        secret = raw, disk = file\<rparr>"

definition cache_dispose :: "cache \<Rightarrow> cache" where
  "cache_dispose s = s\<lparr>disposed := True, db := None, hmacKey := None, aesKey := None\<rparr>"

text \<open>The module's functions: the singleton may be missing.\<close>

definition getCached :: "crypto \<Rightarrow> (string \<Rightarrow> int option) \<Rightarrow> int \<Rightarrow> string \<Rightarrow> cache option \<Rightarrow> string option \<times> cache option" where
  "getCached C mtime now prompt inst =
     (case inst of None \<Rightarrow> (None, None) | Some s \<Rightarrow> apsnd Some (cache_get C mtime now prompt s))"

definition setCached :: "crypto \<Rightarrow> (string \<Rightarrow> string \<Rightarrow> string option) \<Rightarrow> (string \<Rightarrow> int option) \<Rightarrow> int \<Rightarrow> bytes
    \<Rightarrow> string \<Rightarrow> string \<Rightarrow> bool \<Rightarrow> cache option \<Rightarrow> string option \<times> cache option" where
  "setCached C validate mtime now iv prompt password skip inst =
     (case inst of
        None \<Rightarrow> (Some ''cache not initialized'', None)
      | Some s \<Rightarrow> apsnd Some (cache_set C validate mtime now iv prompt password skip s))"

definition evict :: "crypto \<Rightarrow> int \<Rightarrow> string \<Rightarrow> cache option \<Rightarrow> cache option" where
  "evict C now prompt inst = map_option (cache_evict C now prompt) inst"

definition clearAllCached :: "int \<Rightarrow> cache option \<Rightarrow> cache option" where
  "clearAllCached now inst = map_option (clearAll now) inst"

definition disposeCache :: "cache option \<Rightarrow> cache option" where
  "disposeCache inst = None"

section \<open>Encrypted entries\<close>

definition opens_sealed :: "crypto \<Rightarrow> bool" where
  "opens_sealed C = (\<forall>k iv p. open_sealed C k iv (fst (seal C k iv p)) (snd (seal C k iv p)) = Some p)"

lemma dec_int_nat: "0 \<le> i \<Longrightarrow> dec_int i = dec (nat i)"
  by (simp add: dec_int_def)

lemma json_int_ok: "0 \<le> i \<Longrightarrow> json_ok (json_int i)"
  by (simp add: json_int_def dec_int_nat)

lemma int_of_json_int: "0 \<le> i \<Longrightarrow> int_of_json (Some (json_int i)) = Some i"
  by (simp add: int_of_json_def json_int_def dec_int_nat)

lemma plaintext_json_roundtrip:
  "0 \<le> p_storedAt p \<Longrightarrow> 0 \<le> p_keyMtime p \<Longrightarrow> plaintext_of_json (plaintext_json p) = Some p"
  by (simp add: plaintext_of_json_def plaintext_json_def int_of_json_int json_string_def Let_def)

lemma decrypt_encrypt:
  assumes "opens_sealed C" "0 \<le> p_storedAt p" "0 \<le> p_keyMtime p"
  shows "decrypt C ak (encrypt C ak iv p) = Some p"
proof -
  have "json_ok (plaintext_json p)"
    using assms(2,3) by (simp add: plaintext_json_def json_int_ok)
  then show ?thesis
    using assms plaintext_json_roundtrip [OF assms(2,3)]
    by (simp add: decrypt_def encrypt_def opens_sealed_def case_prod_unfold parse_stringify Let_def)
qed

section \<open>The invariant\<close>

text \<open>While the store is open, it has one row per key and the file holds the same rows.\<close>

definition cache_inv :: "cache \<Rightarrow> bool" where
  "cache_inv s = ((\<forall>r. db s = Some r \<longrightarrow> distinct (map fst r) \<and> (\<exists>t. disk s = Some (r, t)))
                  \<and> (\<forall>r t. disk s = Some (r, t) \<longrightarrow> distinct (map fst r)))"

lemma inv_write: "distinct (map fst r) \<Longrightarrow> cache_inv (db_write now r s)"
  by (simp add: cache_inv_def db_write_def)

lemma inv_open: "cache_inv s \<Longrightarrow> cache_inv (openDb now s)"
  by (auto simp: cache_inv_def openDb_def split: option.splits)

lemma distinct_dels: "distinct (map fst r) \<Longrightarrow> distinct (map fst (fold AList.delete ks r))"
  by (induction ks arbitrary: r) (simp_all add: distinct_delete)

lemma inv_get: "cache_inv s \<Longrightarrow> cache_inv (snd (cache_get C mtime now prompt s))"
proof -
  assume inv: "cache_inv s"
  then have "db s = Some r \<Longrightarrow> distinct (map fst (AList.delete k r))" for r k
    by (auto simp: cache_inv_def distinct_delete)
  with inv show ?thesis
    by (auto simp: cache_get_def Let_def inv_write split: option.splits)
qed

lemma inv_set: "cache_inv s \<Longrightarrow> cache_inv (snd (cache_set C validate mtime now iv prompt pw skip s))"
proof -
  assume inv: "cache_inv s"
  then have "db s = Some r \<Longrightarrow> distinct (map fst (AList.update k e r))" for r k e
    by (auto simp: cache_inv_def intro: distinct_update)
  with inv show ?thesis
    by (auto simp: cache_set_def Let_def inv_write split: option.splits)
qed

lemma inv_evict: "cache_inv s \<Longrightarrow> cache_inv (cache_evict C now prompt s)"
  by (auto simp: cache_evict_def cache_inv_def db_write_def distinct_delete split: option.splits)

lemma inv_clear: "cache_inv s \<Longrightarrow> cache_inv (clearAll now s)"
  by (auto simp: clearAll_def intro!: inv_write distinct_dels split: option.splits) (auto simp: cache_inv_def)

lemma inv_sweep: "cache_inv s \<Longrightarrow> cache_inv (sweep C mtime now s)"
proof (cases "db s")
  case None
  then show "cache_inv s \<Longrightarrow> ?thesis" by (simp add: sweep_def)
next
  case (Some r)
  assume inv: "cache_inv s"
  show ?thesis
  proof (cases "aesKey s")
    case None
    with Some inv show ?thesis by (simp add: sweep_def)
  next
    case (Some ak)
    have d: "distinct (map fst (fold AList.delete ks r))" for ks
      using inv \<open>db s = Some r\<close> by (auto simp: cache_inv_def intro: distinct_dels)
    have e: "cache_inv (openDb now (x\<lparr>db := None, disk := None\<rparr>))" for x
      by (simp add: openDb_def cache_inv_def)
    show ?thesis
      using Some \<open>db s = Some r\<close> inv d e by (auto simp: sweep_def Let_def inv_write)
  qed
qed

lemma inv_derive: "cache_inv s \<Longrightarrow> cache_inv (derive C m s)"
  by (simp add: cache_inv_def derive_def)

lemma inv_rotate: "cache_inv (rotateMasterKey C now m s)"
  by (simp add: rotateMasterKey_def cache_inv_def openDb_def derive_def)

lemma inv_wipe: "db s = None \<Longrightarrow> cache_inv s \<Longrightarrow> cache_inv (wipe_stale now s)"
  by (auto simp: cache_inv_def wipe_stale_def split: option.splits)

lemma inv_init: "db s = None \<Longrightarrow> cache_inv s \<Longrightarrow> cache_inv (snd (cache_init C mtime now fresh rotated s))"
proof -
  assume a: "db s = None" "cache_inv s"
  let ?s1 = "\<lambda>st. case st of None \<Rightarrow> s | Some t \<Rightarrow> s\<lparr>secret := Some t\<rparr>"
  have "cache_inv (derive C m (?s1 st))" "db (derive C m (?s1 st)) = None" for m st
    using a by (auto simp: derive_def cache_inv_def split: option.splits)
  then have "cache_inv (openDb now (wipe_stale now (derive C m (?s1 st))))" for m st
    by (intro inv_open inv_wipe)
  with a show ?thesis
    by (simp add: cache_init_def Let_def inv_rotate inv_sweep split: sum.split)
qed

datatype cache_op =
    Get int "string \<Rightarrow> int option" string
  | Set int "string \<Rightarrow> int option" bytes string string bool
  | Evict int string
  | ClearAll int
  | Sweep int "string \<Rightarrow> int option"

fun cache_step :: "crypto \<Rightarrow> (string \<Rightarrow> string \<Rightarrow> string option) \<Rightarrow> cache \<Rightarrow> cache_op \<Rightarrow> cache" where
  "cache_step C validate s (Get now mtime prompt) = snd (cache_get C mtime now prompt s)"
| "cache_step C validate s (Set now mtime iv prompt pw skip) = snd (cache_set C validate mtime now iv prompt pw skip s)"
| "cache_step C validate s (Evict now prompt) = cache_evict C now prompt s"
| "cache_step C validate s (ClearAll now) = clearAll now s"
| "cache_step C validate s (Sweep now mtime) = sweep C mtime now s"

interpretation cache_ops: machine "cache_step C validate" cache_inv for C validate
proof unfold_locales
  fix s e
  assume "cache_inv s"
  then show "cache_inv (cache_step C validate s e)"
    by (cases e) (simp_all add: inv_get inv_set inv_evict inv_clear inv_sweep)
qed

section \<open>Sweeping\<close>

definition entry_alive :: "crypto \<Rightarrow> bytes \<Rightarrow> int \<Rightarrow> (string \<Rightarrow> int option) \<Rightarrow> int \<Rightarrow> entry \<Rightarrow> bool" where
  "entry_alive C ak ttl mtime now e =
     (case decrypt C ak e of None \<Rightarrow> False | Some p \<Rightarrow> \<not> entry_stale ttl mtime now p)"

lemma sweep_keys_alive:
  "sweep_keys C ak ttl mtime now r = map fst (filter (\<lambda>(k, e). \<not> entry_alive C ak ttl mtime now e) r)"
  by (auto simp: sweep_keys_def entry_alive_def split: option.splits intro!: arg_cong [where f = "map fst"] filter_cong)

lemma sweep_rows:
  assumes "distinct (map fst r)"
  shows "map_of (fold AList.delete (sweep_keys C ak ttl mtime now r) r) k =
     (case map_of r k of None \<Rightarrow> None | Some e \<Rightarrow> if entry_alive C ak ttl mtime now e then Some e else None)"
proof -
  have "k \<in> set (sweep_keys C ak ttl mtime now r) \<longleftrightarrow> (\<exists>e. map_of r k = Some e \<and> \<not> entry_alive C ak ttl mtime now e)"
    unfolding sweep_keys_alive using assms by (force simp: map_of_eq_Some_iff [OF assms])
  then show ?thesis by (auto simp: rows.get_dels split: option.splits)
qed

lemma db_sweep:
  assumes "db s = Some r" "aesKey s = Some ak"
  shows "db (sweep C mtime now s) = Some (fold AList.delete (sweep_keys C ak (TTL_MS s) mtime now r) r)"
proof (cases "sweep_keys C ak (TTL_MS s) mtime now r = []")
  case True
  with assms show ?thesis by (auto simp: sweep_def openDb_def)
next
  case False
  with assms show ?thesis by (simp add: sweep_def Let_def db_write_def openDb_def)
qed

section \<open>The master key at start-up\<close>

lemma load_legacy:
  "truthy raw \<Longrightarrow> parse_json (the raw) = Inl e \<Longrightarrow> load_master raw fresh now = Inr (base64_decode (the raw), now, None)"
  by (cases raw) (simp_all add: load_master_def)

lemma load_record:
  assumes "0 \<le> createdAt" "key \<noteq> []"
  shows "load_master (Some (master_record key createdAt)) fresh now = Inr (key, createdAt, None)"
proof -
  let ?j = "JObj [(''key'', JStr (base64_encode key)), (''createdAt'', json_int createdAt)]"
  have "json_ok ?j" using json_int_ok [OF assms(1)] by simp
  then have p: "parse_json (master_record key createdAt) = Inr ?j"
    unfolding master_record_def by (rule parse_stringify)
  have "master_record key createdAt \<noteq> []" by (simp add: master_record_def)
  moreover have "base64_encode key \<noteq> []"
    using assms(2) base64_roundtrip [of key] by (auto simp: base64_decode_def)
  ultimately show ?thesis
    using int_of_json_int [OF assms(1)] p
    by (simp add: load_master_def json_prop_def json_truthy_def json_string_def)
qed

lemma init_secret:
  assumes "load_master (secret s) fresh now = Inr (master, createdAt, None)" "\<not> disposed s" "0 < ROTATION_MS s"
  shows "secret (snd (cache_init C mtime now fresh rotated s)) =
     (if now - createdAt > ROTATION_MS s then Some (master_record rotated now) else secret s)"
    and "hmacKey (snd (cache_init C mtime now fresh rotated s)) =
     Some (hkdf C (if now - createdAt > ROTATION_MS s then rotated else master) HMAC_INFO)"
    and "now - createdAt > ROTATION_MS s \<Longrightarrow> db (snd (cache_init C mtime now fresh rotated s)) = Some []"
proof -
  let ?s2 = "openDb now (wipe_stale now (derive C master s))"
  have s2: "secret ?s2 = secret s" "hmacKey ?s2 = Some (hkdf C master HMAC_INFO)" "disposed ?s2 = disposed s"
    "ROTATION_MS ?s2 = ROTATION_MS s"
    by (auto simp: openDb_def wipe_stale_def derive_def split: option.splits prod.splits)
  have keep: "secret (sweep C mtime now x) = secret x" "hmacKey (sweep C mtime now x) = hmacKey x" for x
    by (auto simp: sweep_def Let_def openDb_def db_write_def split: option.splits)
  have rot: "secret (rotateMasterKey C now rotated x) = Some (master_record rotated now)"
    "hmacKey (rotateMasterKey C now rotated x) = Some (hkdf C rotated HMAC_INFO)"
    "aesKey (rotateMasterKey C now rotated x) = Some (hkdf C rotated AES_INFO)"
    "disposed (rotateMasterKey C now rotated x) = disposed x" "db (rotateMasterKey C now rotated x) = Some []" for x
    by (simp_all add: rotateMasterKey_def openDb_def derive_def)
  have sw: "db (sweep C mtime now (rotateMasterKey C now rotated x)) = Some []" for x
    using db_sweep [OF rot(5) rot(3)] by (simp add: sweep_keys_def)
  show "secret (snd (cache_init C mtime now fresh rotated s)) =
     (if now - createdAt > ROTATION_MS s then Some (master_record rotated now) else secret s)"
    and "hmacKey (snd (cache_init C mtime now fresh rotated s)) =
     Some (hkdf C (if now - createdAt > ROTATION_MS s then rotated else master) HMAC_INFO)"
    and "now - createdAt > ROTATION_MS s \<Longrightarrow> db (snd (cache_init C mtime now fresh rotated s)) = Some []"
    using assms s2 by (simp_all add: cache_init_def Let_def keep rot sw)
qed

text \<open>A concrete instance of the parameters, for evaluating the definitions: no secrecy at all, but
  the two laws used here hold.\<close>

definition clear_crypto :: crypto where
  "clear_crypto = \<lparr>hkdf = (\<lambda>m i. m), hmac = (\<lambda>k p. utf8_bytes p), seal = (\<lambda>k iv p. (p, [])),
     open_sealed = (\<lambda>k iv ct tag. Some ct)\<rparr>"

definition open_cache :: cache where
  "open_cache = \<lparr>hmacKey = Some [1], aesKey = Some [2], db = Some [], disposed = False, TTL_MS = 100,
     ROTATION_MS = 0, secret = None, disk = Some ([], 0)\<rparr>"

lemma clear_crypto_opens: "opens_sealed clear_crypto"
  by (simp add: opens_sealed_def clear_crypto_def)

section \<open>Properties\<close>

text \<open>A stored secret comes back: after a successful store, a lookup of the same prompt within the
  TTL, with the key file of the prompt unchanged, returns the password and keeps the entry, and
  the lookups of all prompts with another HMAC are what they were.\<close>

theorem cached_secret_returned:
  assumes "opens_sealed C" and "hmacKey s = Some hk" and "aesKey s = Some ak" and "db s = Some r"
    and "cache_set C validate mtime now iv prompt password skip s = (None, s')"
    and "0 \<le> now" and "\<forall>f t. mtime f = Some t \<longrightarrow> 0 \<le> t"
    and "TTL_MS s \<le> 0 \<or> later - now \<le> TTL_MS s"
    and "\<forall>f. parseKeyPath prompt = Some f \<longrightarrow> mtime' f = mtime f"
  shows "cache_get C mtime' later prompt s' = (Some password, s')
    \<and> (\<forall>q. hmac C hk q \<noteq> hmac C hk prompt \<longrightarrow>
          fst (cache_get C mtime' later q s') = fst (cache_get C mtime' later q s))"
proof -
  let ?kp = "parseKeyPath prompt"
  let ?mt = "if truthy ?kp then nullish (mtime (nullish ?kp [])) 0 else 0"
  let ?p = "\<lparr>p_password = password, p_keyPath = nullish ?kp [], p_storedAt = now, p_keyMtime = ?mt\<rparr>"
  have s': "s' = db_write now (AList.update (dbKey C hk prompt) (encrypt C ak iv ?p) r) s"
    using assms(2-5) by (auto simp: cache_set_def Let_def split: option.splits if_splits)
  then have keys: "hmacKey s' = Some hk" "aesKey s' = Some ak" "TTL_MS s' = TTL_MS s"
    "db s' = Some (AList.update (dbKey C hk prompt) (encrypt C ak iv ?p) r)"
    using assms(2,3) by (simp_all add: db_write_def)
  have "0 \<le> p_keyMtime ?p" using assms(7) by (cases "mtime (nullish ?kp [])") auto
  then have d: "decrypt C ak (encrypt C ak iv ?p) = Some ?p"
    using decrypt_encrypt [OF assms(1)] assms(6) by simp
  have "\<not> entry_stale (TTL_MS s) mtime' later ?p"
    using assms(8,9) by (cases ?kp) (auto simp: entry_stale_def split: option.splits)
  with d keys have "cache_get C mtime' later prompt s' = (Some password, s')"
    by (simp add: cache_get_def rows.get_put Let_def)
  moreover have "fst (cache_get C mtime' later q s') = fst (cache_get C mtime' later q s)"
    if "hmac C hk q \<noteq> hmac C hk prompt" for q
  proof -
    have "dbKey C hk prompt \<noteq> dbKey C hk q" using that by (metis dbKey_def hex_decode_encode)
    then show ?thesis using keys assms(2-4)
      by (auto simp: cache_get_def rows.get_put Let_def split: option.splits)
  qed
  ultimately show ?thesis by blast
qed

theorem cached_secret_returned_witness:
  "fst (cache_get clear_crypto (\<lambda>_. None) 60 ''pw?''
     (snd (cache_set clear_crypto (\<lambda>_ _. None) (\<lambda>_. None) 10 [] ''pw?'' ''secret'' False open_cache))) = Some ''secret''"
proof -
  let ?r = "cache_set clear_crypto (\<lambda>_ _. None) (\<lambda>_. None) 10 [] ''pw?'' ''secret'' False open_cache"
  have none: "parseKeyPath ''pw?'' = None" by (simp add: parseKeyPath_def)
  then have "?r = (None, snd ?r)" by (simp add: cache_set_def open_cache_def Let_def)
  from cached_secret_returned [OF clear_crypto_opens _ _ _ this, of "[1]" "[2]" "[]" 60 "\<lambda>_. None"] none
  show ?thesis by (simp add: open_cache_def)
qed

text \<open>A sweep keeps exactly the entries that a lookup would accept at that time: those that
  decrypt, are within the TTL and whose key file has the recorded time. All others are gone, also
  from the file.\<close>

theorem sweep_keeps_exactly_live:
  assumes "cache_inv s" and "db s = Some r" and "aesKey s = Some ak"
  shows "\<exists>r' t. db (sweep C mtime now s) = Some r' \<and> disk (sweep C mtime now s) = Some (r', t)
    \<and> (\<forall>k. map_of r' k = (case map_of r k of None \<Rightarrow> None
                          | Some e \<Rightarrow> if entry_alive C ak (TTL_MS s) mtime now e then Some e else None))"
proof -
  have "distinct (map fst r)" using assms(1,2) by (simp add: cache_inv_def)
  then show ?thesis
    using db_sweep [OF assms(2,3)] inv_sweep [OF assms(1), of C mtime now] sweep_rows
    by (simp add: cache_inv_def)
qed

theorem sweep_keeps_exactly_live_witness:
  "\<exists>r' t. db (sweep clear_crypto (\<lambda>_. None) 5 open_cache) = Some r'
     \<and> disk (sweep clear_crypto (\<lambda>_. None) 5 open_cache) = Some (r', t)"
  using sweep_keeps_exactly_live [of open_cache "[]" "[2]" clear_crypto "\<lambda>_. None" 5]
  by (auto simp: open_cache_def cache_inv_def)

text \<open>From start-up on, whatever is looked up, stored, evicted, cleared or swept, and whether or
  not the old db file was wiped or the key rotated, memory and db file hold the same rows, one per
  key: closing at any time loses nothing.\<close>

theorem cache_file_in_step:
  assumes "\<forall>r t. file = Some (r, t) \<longrightarrow> distinct (map fst r)"
    and "initCache C mtime now fresh rotated raw file ttlHours rotationDays = (Inr (), s)"
    and "db (foldl (cache_step C validate) s ops) = Some r"
  shows "distinct (map fst r) \<and> (\<exists>t. disk (foldl (cache_step C validate) s ops) = Some (r, t))"
proof -
  have "cache_inv s"
    using assms(1,2) inv_init
    unfolding initCache_def by (metis (no_types, lifting) cache_inv_def cache.select_convs(3,8) option.distinct(1) snd_conv)
  then have "cache_inv (foldl (cache_step C validate) s ops)" by (rule cache_ops.inv_run)
  with assms(3) show ?thesis by (simp add: cache_inv_def)
qed

theorem cache_file_in_step_witness:
  "\<exists>s. initCache clear_crypto (\<lambda>_. None) 0 [1] [2] None None None None = (Inr (), s) \<and>
     (\<exists>t. disk (foldl (cache_step clear_crypto (\<lambda>_ _. None)) s [ClearAll 5]) = Some ([], t))"
proof -
  let ?i = "initCache clear_crypto (\<lambda>_. None) 0 [1] [2] None None None None"
  have i: "?i = (Inr (), snd ?i) \<and> db (snd ?i) = Some []"
    by (simp add: initCache_def cache_init_def load_master_def wipe_stale_def openDb_def derive_def sweep_def
        sweep_keys_def DEFAULT_ROTATION_MS_def Let_def)
  then have "db (foldl (cache_step clear_crypto (\<lambda>_ _. None)) (snd ?i) [ClearAll 5]) = Some []"
    by (simp add: clearAll_def)
  from cache_file_in_step [OF _ conjunct1 [OF i] this] i show ?thesis by auto
qed

text \<open>A stored master key is replaced, and the cache emptied, exactly when it is older than the
  rotation period; but a key in the old format is never replaced, however often and however late
  the cache starts: it is taken as created at each start and never stored in the new format.\<close>

theorem master_key_rotation:
  assumes "rotationDays = Some d" and "0 < d" and "0 \<le> createdAt" and "key \<noteq> []"
    and "parse_json legacy = Inl e" and "legacy \<noteq> []"
  shows "secret (snd (initCache C mtime now fresh rotated (Some (master_record key createdAt)) file ttl rotationDays))
       = Some (if now - createdAt > d * 24 * 60 * 60 * 1000 then master_record rotated now
               else master_record key createdAt)
    \<and> secret (snd (initCache C mtime now fresh rotated (Some legacy) file ttl rotationDays)) = Some legacy"
  using init_secret(1) [where now = now] load_record [OF assms(3,4)] load_legacy [of "Some legacy"] assms
  by (simp add: initCache_def)

theorem master_key_rotation_witness:
  "secret (snd (initCache clear_crypto (\<lambda>_. None) 100000000 [1] [2] (Some (master_record [3] 0)) None None (Some 1)))
     = Some (master_record [2] 100000000)
   \<and> secret (snd (initCache clear_crypto (\<lambda>_. None) 100000000 [1] [2] (Some ''oldkey=='') None None (Some 1))) = Some ''oldkey==''"
proof -
  have "parse_value (Suc n) ''oldkey=='' = None" for n
    by (simp add: skip_ws_def json_ws_def parse_num_def num_int_def is_digit_def)
  from this [of 16] have "parse_json ''oldkey=='' = Inl syntax_error" by (simp add: parse_json_def)
  from master_key_rotation [of "Some 1" 1 0 "[3]" "''oldkey==''" syntax_error clear_crypto "\<lambda>_. None" 100000000 "[1]" "[2]" None None] this
  show ?thesis by simp
qed

end
