(* ===== verification/GoTransport.thy ===== *)
theory GoTransport
  imports ServerStart AskpassCache
begin

text \<open>
  The part of \<^verbatim>\<open>src/resolver/index.ts\<close> that keeps the Go transport running on the remote host:
  reading its meta file, reusing a transport that still answers, shipping and starting a new
  one, and restarting it in place. Numbers in the meta file are whole numbers, as the transport
  writes them. The bundled binary, the clock and the probe through the SOCKS forward are
  arguments.
\<close>

definition TRANSPORT_IDLE_TIMEOUT_MS :: nat where "TRANSPORT_IDLE_TIMEOUT_MS = 120000"

section \<open>The meta file\<close>

record tunnel_meta =
  meta_port :: int
  meta_pid :: int
  meta_token :: string

definition parseMetaFile :: "string \<Rightarrow> tunnel_meta option" where
  "parseMetaFile stdout =
     (let t = trim stdout
      in if t = [] then None
         else case parse_json t of
                Inl e \<Rightarrow> None
              | Inr meta \<Rightarrow>
                  (case (json_prop meta ''port'', json_prop meta ''pid'', json_prop meta ''token'') of
                     (Inr (Some (JNum port)), Inr (Some (JNum pid)), Inr (Some (JStr token))) \<Rightarrow>
                       Some \<lparr>meta_port = nullish (parse_int port) 0, meta_pid = nullish (parse_int pid) 0, meta_token = token\<rparr>
                   | _ \<Rightarrow> None))"

text \<open>The file as the transport writes it.\<close>

definition meta_json :: "nat \<Rightarrow> nat \<Rightarrow> string \<Rightarrow> json" where
  "meta_json port pid token = JObj [(''port'', JNum (dec port)), (''pid'', JNum (dec pid)), (''token'', JStr token)]"

text \<open>\<^verbatim>\<open>/^[0-9a-f]{64}$/\<close>\<close>

definition token64 :: "string \<Rightarrow> bool" where
  "token64 s = (length s = 64 \<and> list_all (\<lambda>c. is_digit c \<or> (97 \<le> (of_char c :: nat) \<and> of_char c \<le> (102 :: nat))) s)"

definition meta_malformed :: "string \<Rightarrow> js_error" where
  "meta_malformed out =
     plain_error (''tunnel-meta.json exists but is malformed (unparseable JSON or '' @ ''missing fields): ''
       @ json_quote (take 200 (trim out)))"

definition meta_port_invalid :: "int \<Rightarrow> js_error" where
  "meta_port_invalid port = plain_error (''tunnel-meta.json has an invalid port: '' @ dec_int port)"

definition meta_token_invalid :: "string \<Rightarrow> js_error" where
  "meta_token_invalid token =
     plain_error (''tunnel-meta.json has an invalid token (expected 64-char hex, '' @ ''got length '' @ dec (length token)
       @ '': '' @ take 8 token @ ''...)'')"

section \<open>A transport that is already there\<close>

definition killStaleTransportPid :: "'w conn \<Rightarrow> int \<Rightarrow> ('w, unit) promise" where
  "killStaleTransportPid conn pid =
     (if pid \<le> 0 then resolve ()
      else await (c_exec conn (''kill '' @ dec_int pid @ '' 2>/dev/null || true'') None) (\<lambda>_. resolve ()))"

definition cat_meta :: "string \<Rightarrow> string" where
  "cat_meta metaFile = ''cat '' @ shellQuote metaFile @ '' 2>/dev/null''"

definition probeExistingTransport ::
    "(nat \<Rightarrow> int \<Rightarrow> string \<Rightarrow> 'w \<Rightarrow> bool \<times> 'w) \<Rightarrow> 'w conn \<Rightarrow> string \<Rightarrow> nat \<Rightarrow> ('w, tunnel_meta option) promise" where
  "probeExistingTransport alive conn remoteDir socksPort =
     await (c_exec conn (cat_meta (remoteDir @ ''/tunnel-meta.json'')) None) (\<lambda>res.
       if out_exitCode res \<noteq> Some 0 then resolve None
       else case parseMetaFile (out_stdout res) of
              None \<Rightarrow> reject (meta_malformed (out_stdout res))
            | Some meta \<Rightarrow>
                if meta_port meta \<le> 0 then reject (meta_port_invalid (meta_port meta))
                else if \<not> token64 (meta_token meta) then reject (meta_token_invalid (meta_token meta))
                else (\<lambda>w. case alive socksPort (meta_port meta) (meta_token meta) w of
                            (True, w') \<Rightarrow> (Inr (Some meta), w')
                          | (False, w') \<Rightarrow>
                              await (if 0 < meta_pid meta then killStaleTransportPid conn (meta_pid meta) else resolve ())
                                (\<lambda>_. resolve None) w'))"

section \<open>Shipping and starting\<close>

record 'w tunnel_env =
  te_timer :: "'w timer"
  te_alive :: "nat \<Rightarrow> int \<Rightarrow> string \<Rightarrow> 'w \<Rightarrow> bool \<times> 'w"
  te_binary :: "string \<Rightarrow> bytes result"

definition ship_failed :: "exec_output \<Rightarrow> js_error" where
  "ship_failed r = plain_error (''Failed to ship go transport (exit '' @ show_code (out_exitCode r) @ ''): '' @ out_stderr r)"

definition install_failed :: "exec_output \<Rightarrow> js_error" where
  "install_failed r = plain_error (''Failed to install go transport: '' @ or_else (out_stderr r) (out_stdout r))"

definition move_command :: "string \<Rightarrow> string \<Rightarrow> string" where
  "move_command tmpBin binRemote = ''mv -f '' @ shellQuote tmpBin @ '' '' @ shellQuote binRemote"

definition ship_transport :: "'w tunnel_env \<Rightarrow> 'w conn \<Rightarrow> string \<Rightarrow> string \<Rightarrow> ('w, unit) promise" where
  "ship_transport E conn arch binRemote =
     (case te_binary E arch of
        Inl e \<Rightarrow> reject e
      | Inr bin \<Rightarrow>
          (let tmpBin = binRemote @ ''.new''
           in case c_putFile conn of
                None \<Rightarrow> reject type_error
              | Some putFile \<Rightarrow>
                  await (putFile tmpBin bin (Some ''0755'')) (\<lambda>putResult.
                  if out_exitCode putResult \<noteq> Some 0 then reject (ship_failed putResult)
                  else await (c_exec conn (move_command tmpBin binRemote) None) (\<lambda>mvResult.
                  if out_exitCode mvResult \<noteq> Some 0 then reject (install_failed mvResult)
                  else resolve ()))))"

definition detach_command :: "string \<Rightarrow> string \<Rightarrow> string \<Rightarrow> string \<Rightarrow> string" where
  "detach_command home binRemote metaFile logFile =
     shellQuote binRemote @ '' --detach '' @ ''--port 0 '' @ ''--meta-file '' @ shellQuote metaFile @ '' ''
     @ ''--idle-timeout-ms '' @ dec TRANSPORT_IDLE_TIMEOUT_MS @ '' '' @ ''--root '' @ shellQuote home @ '' ''
     @ ''>> '' @ shellQuote logFile @ '' 2>&1''"

definition meta_poll :: "'w timer \<Rightarrow> 'w conn \<Rightarrow> string \<Rightarrow> ('w, (int \<times> string) option) promise" where
  "meta_poll T conn metaFile w =
     await (c_exec conn (cat_meta metaFile) None)
       (\<lambda>result. resolve (case parseMetaFile (out_stdout result) of
                    Some meta \<Rightarrow> if 0 < meta_port meta then Some (meta_port meta, meta_token meta) else None
                  | None \<Rightarrow> None)) (pause T 500 w)"

definition transport_timed_out :: js_error where
  "transport_timed_out = plain_error ''Timed out waiting for go transport to start''"

text \<open>Every poll begins with 500 ms, so 60 polls use up the 30 s.\<close>

definition await_meta :: "'w timer \<Rightarrow> 'w conn \<Rightarrow> string \<Rightarrow> ('w, int \<times> string) promise" where
  "await_meta T conn metaFile w =
     await (poll_until T (now_ms T w + 30000) (meta_poll T conn metaFile) 60)
       (\<lambda>r. case r of Some t \<Rightarrow> resolve t | None \<Rightarrow> reject transport_timed_out) w"

definition startTransport :: "'w tunnel_env \<Rightarrow> 'w conn \<Rightarrow> string \<Rightarrow> string \<Rightarrow> nat \<Rightarrow> ('w, int \<times> string) promise" where
  "startTransport E conn home arch socksPort =
     (let remoteDirName = home @ ''/.ssh-remote'';
          binRemote = remoteDirName @ ''/zygos-tunnel-'' @ arch;
          metaFile = remoteDirName @ ''/tunnel-meta.json'';
          logFile = remoteDirName @ ''/tunnel.log''
      in await (if 0 < socksPort then probeExistingTransport (te_alive E) conn remoteDirName socksPort else resolve None) (\<lambda>probed.
           case probed of
             Some meta \<Rightarrow> resolve (meta_port meta, meta_token meta)
           | None \<Rightarrow>
               await (ship_transport E conn arch binRemote) (\<lambda>_.
               await (c_exec conn (detach_command home binRemote metaFile logFile) None) (\<lambda>_.
               await_meta (te_timer E) conn metaFile))))"

section \<open>Restarting in place\<close>

text \<open>The closure \<^verbatim>\<open>handleTransportUnreachable\<close> of \<^verbatim>\<open>createTransport\<close>: clients are numbered in the order
  they are made, and a restart is under way between \<open>Unreachable\<close> and its outcome.\<close>

record restart =
  rs_restarting :: bool
  rs_dead :: bool
  rs_client :: "nat option"
  rs_old :: "nat option"
  rs_made :: nat
  rs_endpoint :: "int \<times> string"
  rs_disposed :: "nat list"

datatype restart_event = Unreachable | StartOutcome "(int \<times> string) result" | MarkedDead

definition restart_init :: restart where
  "restart_init = \<lparr>rs_restarting = False, rs_dead = False, rs_client = None, rs_old = None, rs_made = 0,
                   rs_endpoint = (0, []), rs_disposed = []\<rparr>"

definition startTransportClient :: "int \<times> string \<Rightarrow> restart \<Rightarrow> restart" where
  "startTransportClient t s = s\<lparr>rs_endpoint := t, rs_client := Some (rs_made s), rs_made := Suc (rs_made s)\<rparr>"

definition dispose_old :: "restart \<Rightarrow> restart" where
  "dispose_old s = (case rs_old s of None \<Rightarrow> s | Some c \<Rightarrow> s\<lparr>rs_disposed := rs_disposed s @ [c]\<rparr>)"

fun restart_step :: "restart \<Rightarrow> restart_event \<Rightarrow> restart" where
  "restart_step s Unreachable =
     (if rs_restarting s \<or> rs_dead s then s else s\<lparr>rs_restarting := True, rs_old := rs_client s\<rparr>)"
| "restart_step s (StartOutcome r) =
     (if \<not> rs_restarting s then s
      else (case r of
              Inr t \<Rightarrow> dispose_old (startTransportClient t s)
            | Inl e \<Rightarrow> s\<lparr>rs_dead := True\<rparr>)\<lparr>rs_restarting := False\<rparr>)"
| "restart_step s MarkedDead = s\<lparr>rs_dead := True\<rparr>"

section \<open>Lemmas\<close>

definition restart_inv :: "restart \<Rightarrow> bool" where
  "restart_inv s = (0 < rs_made s \<and> rs_client s = Some (rs_made s - 1) \<and> rs_disposed s = [0..<rs_made s - 1]
                    \<and> (rs_restarting s \<longrightarrow> rs_old s = rs_client s))"

interpretation restarting: machine restart_step restart_inv
proof unfold_locales
  fix s e
  assume inv: "restart_inv s"
  have "[0..<rs_made s] = [0..<rs_made s - 1] @ [rs_made s - 1]" if "0 < rs_made s"
    using that by (metis Suc_diff_1 upt_Suc_append zero_le)
  with inv show "restart_inv (restart_step s e)"
    by (cases e) (auto simp: restart_inv_def startTransportClient_def dispose_old_def split: sum.splits)
qed

interpretation transport_death: settling restart_step "\<lambda>_. True" "\<lambda>s :: restart. rs_dead s \<and> \<not> rs_restarting s" "\<lambda>s. (rs_endpoint s, rs_made s, rs_disposed s)"
proof unfold_locales
  fix s :: restart and e
  assume "rs_dead s \<and> \<not> rs_restarting s"
  then show "(rs_dead (restart_step s e) \<and> \<not> rs_restarting (restart_step s e)) \<and>
       (rs_endpoint (restart_step s e), rs_made (restart_step s e), rs_disposed (restart_step s e))
       = (rs_endpoint s, rs_made s, rs_disposed s)"
    by (cases e) auto
qed simp

lemma meta_ok: "json_ok (meta_json port pid token)"
  by (simp add: meta_json_def)

lemma meta_trimmed: "trim (stringify (meta_json port pid token) @ [CHR 0x0A]) = stringify (meta_json port pid token)"
proof -
  let ?t = "stringify (meta_json port pid token)"
  obtain x where x: "?t = CHR ''{'' # x @ [CHR ''}'']" by (simp add: meta_json_def)
  then have "trim_start (?t @ [CHR 0x0A]) = ?t @ [CHR 0x0A]" by (simp add: trim_start_def is_space_def)
  moreover have "trim_end (?t @ [CHR 0x0A]) = ?t" using x by (simp add: trim_end_def is_space_def)
  ultimately show ?thesis by (simp add: trim_def)
qed

lemma parse_meta:
  "parseMetaFile (stringify (meta_json port pid token) @ [CHR 0x0A])
   = Some \<lparr>meta_port = int port, meta_pid = int pid, meta_token = token\<rparr>"
proof -
  have "stringify (meta_json port pid token) \<noteq> []" by (simp add: meta_json_def)
  moreover have "json_prop (meta_json port pid token) ''port'' = Inr (Some (JNum (dec port)))"
    "json_prop (meta_json port pid token) ''pid'' = Inr (Some (JNum (dec pid)))"
    "json_prop (meta_json port pid token) ''token'' = Inr (Some (JStr token))"
    by (simp_all add: json_prop_def meta_json_def)
  ultimately show ?thesis by (simp add: parseMetaFile_def meta_trimmed parse_stringify [OF meta_ok])
qed

lemma running_transport:
  assumes cat: "c_exec conn (cat_meta (home @ ''/.ssh-remote/tunnel-meta.json'')) None w
              = (Inr (printed (stringify (meta_json port pid token) @ [CHR 0x0A])), w1)"
    and "0 < port" and "0 < pid" and "token64 token" and "0 < socksPort"
  shows "(te_alive E socksPort (int port) token w1 = (True, w2) \<longrightarrow>
            startTransport E conn home arch socksPort w = (Inr (int port, token), w2))
       \<and> (te_alive E socksPort (int port) token w1 = (False, w2) \<longrightarrow>
            startTransport E conn home arch socksPort w
            = await (c_exec conn (''kill '' @ dec pid @ '' 2>/dev/null || true'') None)
                (\<lambda>_. startTransport E conn home arch 0) w2)"
proof -
  have probe: "probeExistingTransport (te_alive E) conn (home @ ''/.ssh-remote'') socksPort w
     = (case te_alive E socksPort (int port) token w1 of
          (True, w') \<Rightarrow> (Inr (Some \<lparr>meta_port = int port, meta_pid = int pid, meta_token = token\<rparr>), w')
        | (False, w') \<Rightarrow> await (killStaleTransportPid conn (int pid)) (\<lambda>_. resolve None) w')"
    using assms
    by (auto simp: probeExistingTransport_def printed_def parse_meta await_def [of "c_exec conn _ _"]
        split: prod.splits bool.splits)
  show ?thesis
    using assms(3,5) probe
    by (auto simp: startTransport_def Let_def await_def resolve_def killStaleTransportPid_def dec_int_def split: prod.splits sum.splits)
qed

section \<open>Properties\<close>

text \<open>The meta file is read back as it was written: what the transport prints as JSON, with a final
  newline, is the port, the process and the token that the client uses; and if the file is
  there, a transport that answers on that port is used without anything being shipped or
  started, while after a dead one its process is killed and the transport is shipped anew.\<close>

theorem running_transport_reused:
  assumes cat: "c_exec conn (cat_meta (home @ ''/.ssh-remote/tunnel-meta.json'')) None w
              = (Inr (printed (stringify (meta_json port pid token) @ [CHR 0x0A])), w1)"
    and "0 < port" and "0 < pid" and "token64 token" and "0 < socksPort"
  shows "(te_alive E socksPort (int port) token w1 = (True, w2) \<longrightarrow>
            startTransport E conn home arch socksPort w = (Inr (int port, token), w2))
       \<and> (te_alive E socksPort (int port) token w1 = (False, w2) \<longrightarrow>
            startTransport E conn home arch socksPort w
            = await (c_exec conn (''kill '' @ dec pid @ '' 2>/dev/null || true'') None)
                (\<lambda>_. startTransport E conn home arch 0) w2)"
  using assms by (rule running_transport)

theorem running_transport_reused_witness:
  "startTransport \<lparr>te_timer = \<lparr>now_ms = \<lambda>_. 0, pause = \<lambda>_ w. w\<rparr>, te_alive = \<lambda>_ _ _ w. (True, w), te_binary = \<lambda>_. Inl type_error\<rparr>
     (fixed_conn (printed (stringify (meta_json 4000 17 (replicate 64 (CHR ''a''))) @ [CHR 0x0A]))) ''/root'' ''x64'' 1080 ()
   = (Inr (4000, replicate 64 (CHR ''a'')), ())"
  using running_transport_reused [of "fixed_conn (printed (stringify (meta_json 4000 17 (replicate 64 (CHR ''a''))) @ [CHR 0x0A]))"
      "''/root''" "()" 4000 17 "replicate 64 (CHR ''a'')" "()" 1080
      "\<lparr>te_timer = \<lparr>now_ms = \<lambda>_. 0, pause = \<lambda>_ w. w\<rparr>, te_alive = \<lambda>_ _ _ w. (True, w), te_binary = \<lambda>_. Inl type_error\<rparr>" "()" "''x64''"]
  by (simp add: fixed_conn_def resolve_def token64_def list_all_iff)

text \<open>The meta file of the transport that was found dead is not removed before the new one is started:
  if the first poll is earlier than the new transport's own file, the start succeeds with the
  dead transport's port and token.\<close>

theorem stale_meta_handed_out:
  fixes home token :: string and port pid :: nat
  defines "metaFile \<equiv> home @ ''/.ssh-remote/tunnel-meta.json''"
    and "old \<equiv> printed (stringify (meta_json port pid token) @ [CHR 0x0A])"
  assumes "c_exec conn (cat_meta metaFile) None w = (Inr old, w1)" and "0 < port" and "0 < pid" and "token64 token" and "0 < socksPort"
    and "te_alive E socksPort (int port) token w1 = (False, w2)"
    and "c_exec conn (''kill '' @ dec pid @ '' 2>/dev/null || true'') None w2 = (Inr x, w3)"
    and "ship_transport E conn arch (home @ ''/.ssh-remote/zygos-tunnel-'' @ arch) w3 = (Inr (), w4)"
    and "c_exec conn (detach_command home (home @ ''/.ssh-remote/zygos-tunnel-'' @ arch) metaFile (home @ ''/.ssh-remote/tunnel.log'')) None w4
         = (Inr y, w5)"
    and "c_exec conn (cat_meta metaFile) None (pause (te_timer E) 500 w5) = (Inr old, w6)"
  shows "startTransport E conn home arch socksPort w = (Inr (int port, token), w6)"
proof -
  have "meta_poll (te_timer E) conn metaFile w5 = (Inr (Some (int port, token)), w6)"
    using assms by (simp add: meta_poll_def printed_def parse_meta await_def resolve_def)
  then have "await_meta (te_timer E) conn metaFile w5 = (Inr (int port, token), w6)"
    using poll_first [of "meta_poll (te_timer E) conn metaFile" w5 "(int port, token)" w6 "te_timer E" "now_ms (te_timer E) w5 + 30000" 60]
    by (simp add: await_meta_def await_def resolve_def)
  then have "startTransport E conn home arch 0 w3 = (Inr (int port, token), w6)"
    using assms by (simp add: startTransport_def Let_def await_def resolve_def)
  with running_transport [of conn home w port pid token w1 socksPort E w2 arch] assms show ?thesis
    by (simp add: await_def)
qed

theorem stale_meta_handed_out_witness:
  "startTransport \<lparr>te_timer = \<lparr>now_ms = \<lambda>_. 0, pause = \<lambda>_ w. w\<rparr>, te_alive = \<lambda>_ _ _ w. (False, w), te_binary = \<lambda>_. Inr [1]\<rparr>
     ((fixed_conn (printed (stringify (meta_json 4000 17 (replicate 64 (CHR ''a''))) @ [CHR 0x0A])))
        \<lparr>c_putFile := Some (\<lambda>_ _ _. resolve (printed []))\<rparr>) ''/root'' ''x64'' 1080 ()
   = (Inr (4000, replicate 64 (CHR ''a'')), ())"
proof -
  define old where "old = printed (stringify (meta_json 4000 17 (replicate 64 (CHR ''a''))) @ [CHR 0x0A])"
  have ok: "out_exitCode old = Some 0" by (simp add: old_def printed_def)
  let ?conn = "(fixed_conn old)\<lparr>c_putFile := Some (\<lambda>_ _ _. resolve (printed []))\<rparr> :: unit conn"
  let ?E = "\<lparr>te_timer = \<lparr>now_ms = \<lambda>_. 0, pause = \<lambda>_ w. w\<rparr>, te_alive = \<lambda>_ _ _ w. (False, w), te_binary = \<lambda>_. Inr [1]\<rparr> :: unit tunnel_env"
  have run: "c_exec ?conn command None () = (Inr old, ())" for command by (simp add: fixed_conn_def resolve_def)
  have "ship_transport ?E ?conn ''x64'' b () = (Inr (), ())" for b
    by (simp add: ship_transport_def Let_def fixed_conn_def await_def resolve_def ok printed_def)
  then show ?thesis
    using stale_meta_handed_out [of ?conn "''/root''" "()" 4000 17 "replicate 64 (CHR ''a'')" "()" 1080 ?E "()" old "()" "''x64''" "()" old "()" "()"]
      run ok
    by (simp add: old_def [symmetric] token64_def list_all_iff)
qed

text \<open>The transport is restarted by one restart at a time, and when no restart succeeds any more its
  death is final: of all the clients ever made exactly the last one is in use, and every
  earlier one has been disposed, once, in the order they were made.\<close>

theorem one_live_client:
  fixes t :: "int \<times> string" and es
  defines "s \<equiv> foldl restart_step (startTransportClient t restart_init) es"
  shows "rs_client s = Some (rs_made s - 1) \<and> rs_disposed s = [0..<rs_made s - 1]
       \<and> (rs_dead s \<and> \<not> rs_restarting s \<longrightarrow>
            rs_endpoint (foldl restart_step s fs) = rs_endpoint s \<and> rs_made (foldl restart_step s fs) = rs_made s)"
proof -
  have "restart_inv (startTransportClient t restart_init)"
    by (simp add: restart_inv_def startTransportClient_def restart_init_def)
  then have "restart_inv s" unfolding s_def by (rule restarting.inv_run)
  with transport_death.settled_run [of s fs] show ?thesis by (auto simp: restart_inv_def)
qed

theorem one_live_client_witness:
  "rs_disposed (foldl restart_step (startTransportClient (4000, ''a'') restart_init)
     [Unreachable, Unreachable, StartOutcome (Inr (4001, ''b'')), Unreachable, StartOutcome (Inl type_error)]) = [0]"
  using one_live_client [of "(4000, ''a'')" "[Unreachable, Unreachable, StartOutcome (Inr (4001, ''b'')), Unreachable, StartOutcome (Inl type_error)]" "[]"]
  by (simp add: startTransportClient_def restart_init_def dispose_old_def)

end
