(* ===== verification/SocksForward.thy ===== *)
theory SocksForward
  imports ServerStart
begin

text \<open>
  The part of \<^verbatim>\<open>src/resolver/index.ts\<close> that opens the SOCKS forward: the arguments of the ssh
  that holds it, the promise that waits for the agent's report on its standard output (its events
  are those of the spawned ssh), and \<^verbatim>\<open>waitForPort\<close>, which polls the local port.
\<close>

section \<open>The forward's command line\<close>

text \<open>An agent role is the remote home directory and the link; the nonce goes into the marker.\<close>

definition forward_args :: "nat \<Rightarrow> bool \<Rightarrow> string list" where
  "forward_args socksPort agent =
     [''-D'', dec socksPort] @ (if agent then [] else [''-N''])
     @ [''-o'', ''ServerAliveInterval=15'', ''-o'', ''ServerAliveCountMax=4'', ''-o'', ''TCPKeepAlive=yes'',
        ''-o'', ''ConnectTimeout=15'', ''-o'', ''StrictHostKeyChecking=accept-new'', ''-o'', ''ExitOnForwardFailure=yes'']"

text \<open>The remote command, the arguments, and the marker to wait for.\<close>

definition startSocksForward :: "bytes \<Rightarrow> nat \<Rightarrow> (string \<times> string) option \<Rightarrow> string option \<times> string list \<times> string option" where
  "startSocksForward nonce socksPort agent =
     (case agent of
        None \<Rightarrow> (None, forward_args socksPort False, None)
      | Some (home, link) \<Rightarrow>
          (let (command, marker) = agentForwardCommand nonce home link
           in (Some command, forward_args socksPort True, Some marker)))"

section \<open>Waiting for the agent's report\<close>

definition AGENT_READY_TIMEOUT_MS :: nat where "AGENT_READY_TIMEOUT_MS = 30000"

record agent_wait =
  aw_buf :: string
  aw_timer :: bool
  aw_killed :: bool
  aw_result :: "bool result option"

definition agent_wait_init :: agent_wait where
  "agent_wait_init = \<lparr>aw_buf = [], aw_timer = True, aw_killed = False, aw_result = None\<rparr>"

definition aw_settle :: "bool result \<Rightarrow> agent_wait \<Rightarrow> agent_wait" where
  "aw_settle r s = (case aw_result s of Some _ \<Rightarrow> s | None \<Rightarrow> s\<lparr>aw_timer := False, aw_buf := [], aw_result := Some r\<rparr>)"

definition setup_timed_out :: js_error where
  "setup_timed_out = plain_error ''Timed out waiting for SOCKS forward remote setup''"

definition setup_exited :: "nat option \<Rightarrow> js_error" where
  "setup_exited code = plain_error (''SOCKS forward exited before remote setup (code='' @ show_code code @ '')'')"

fun agent_wait_event :: "string \<Rightarrow> agent_wait \<Rightarrow> child_event \<Rightarrow> agent_wait" where
  "agent_wait_event marker s (ChildStdout c) =
     (if aw_result s \<noteq> None then s
      else let s' = s\<lparr>aw_buf := aw_buf s @ utf8_string c\<rparr>
           in case parseAgentForwardReady (aw_buf s') marker of
                None \<Rightarrow> s'
              | Some forwarded \<Rightarrow> aw_settle (Inr forwarded) s')"
| "agent_wait_event marker s (ChildError m) = aw_settle (Inl (plain_error m)) s"
| "agent_wait_event marker s (ChildClose code signal) = aw_settle (Inl (setup_exited code)) s"
| "agent_wait_event marker s RunTimeout =
     (if aw_timer s then (aw_settle (Inl setup_timed_out) s)\<lparr>aw_killed := True\<rparr> else s)"
| "agent_wait_event marker s _ = s"

definition waitForAgentReady :: "string \<Rightarrow> child_event list \<Rightarrow> agent_wait" where
  "waitForAgentReady marker es = foldl (agent_wait_event marker) agent_wait_init es"

section \<open>Waiting for the local port\<close>

text \<open>A failed connect gives up when more than the timeout has passed, and tries again after 200 ms
  otherwise.\<close>

definition port_not_ready :: "nat \<Rightarrow> nat \<Rightarrow> js_error" where
  "port_not_ready port timeoutMs = plain_error (''Port '' @ dec port @ '' not ready after '' @ dec timeoutMs @ ''ms'')"

fun tryConnect ::
    "'w timer \<Rightarrow> (nat \<Rightarrow> ('w, unit) promise) \<Rightarrow> nat \<Rightarrow> nat \<Rightarrow> nat \<Rightarrow> nat \<Rightarrow> ('w, unit) promise" where
  "tryConnect T dial port timeoutMs start 0 w = (Inl (port_not_ready port timeoutMs), w)"
| "tryConnect T dial port timeoutMs start (Suc n) w =
     (case dial port w of
        (Inr _, w') \<Rightarrow> (Inr (), w')
      | (Inl _, w') \<Rightarrow>
          if timeoutMs < now_ms T w' - start then (Inl (port_not_ready port timeoutMs), w')
          else tryConnect T dial port timeoutMs start n (pause T 200 w'))"

definition waitForPort :: "'w timer \<Rightarrow> (nat \<Rightarrow> ('w, unit) promise) \<Rightarrow> nat \<Rightarrow> nat \<Rightarrow> ('w, unit) promise" where
  "waitForPort T dial port timeoutMs w = tryConnect T dial port timeoutMs (now_ms T w) (timeoutMs div 200 + 2) w"

section \<open>Lemmas\<close>

interpretation agent_waiting: settling "agent_wait_event marker" "\<lambda>_. True" "\<lambda>s. aw_result s \<noteq> None" aw_result for marker
proof unfold_locales
  show "aw_result s \<noteq> None \<Longrightarrow> aw_result (agent_wait_event marker s e) \<noteq> None
      \<and> aw_result (agent_wait_event marker s e) = aw_result s" for s e
    by (cases e) (auto simp: aw_settle_def)
qed simp

lemma agent_wait_outputs:
  assumes "list_all output_event es" and "aw_result s = None"
    and "parseAgentForwardReady (aw_buf s) marker = None"
  shows "aw_result (foldl (agent_wait_event marker) s es)
       = map_option Inr (parseAgentForwardReady (aw_buf s @ stdout_text es) marker)"
  using assms
proof (induction es arbitrary: s)
  case (Cons e es)
  show ?case
  proof (cases e)
    case e: (ChildStdout c)
    show ?thesis
    proof (cases "parseAgentForwardReady (aw_buf s @ utf8_string c) marker")
      case None
      with Cons.prems Cons.IH [of "s\<lparr>aw_buf := aw_buf s @ utf8_string c\<rparr>"] e show ?thesis by (simp add: Let_def)
    next
      case (Some b)
      then have "aw_result (agent_wait_event marker s e) = Some (Inr b)"
        using Cons.prems e by (simp add: aw_settle_def Let_def)
      with agent_waiting.settled_run [of "agent_wait_event marker s e" marker es]
      have "aw_result (foldl (agent_wait_event marker) s (e # es)) = Some (Inr b)" by simp
      with ready_append [OF Some, of "stdout_text es"] e show ?thesis by simp
    qed
  qed (use Cons in \<open>auto simp: output_event_def\<close>)
qed simp

section \<open>Properties\<close>

text \<open>C21. The agent's report is found however the forward's output is cut into chunks: the wait ends with
  the verdict on the whole output as soon as there is one, and the keep-alive output that
  follows does not change it; the death or the timeout of a forward without a report is the error
  it is waiting for.\<close>

theorem agent_report_any_chunking:
  assumes "list_all output_event es"
  shows "(\<forall>b. parseAgentForwardReady (stdout_text es) marker = Some b \<longrightarrow>
            aw_result (waitForAgentReady marker (es @ later)) = Some (Inr b))
       \<and> (parseAgentForwardReady (stdout_text es) marker = None \<longrightarrow>
            aw_result (waitForAgentReady marker (es @ ChildClose code signal # later)) = Some (Inl (setup_exited code))
          \<and> aw_result (waitForAgentReady marker (es @ RunTimeout # later)) = Some (Inl setup_timed_out)
          \<and> aw_killed (waitForAgentReady marker (es @ [RunTimeout])))"
proof -
  let ?s = "waitForAgentReady marker es"
  have "parseAgentForwardReady [] marker = None" by (simp add: parseAgentForwardReady_def)
  with agent_wait_outputs [OF assms, of agent_wait_init marker]
  have out: "aw_result ?s = map_option Inr (parseAgentForwardReady (stdout_text es) marker)"
    by (simp add: agent_wait_init_def waitForAgentReady_def)
  have timer: "aw_timer s' \<or> aw_result s' \<noteq> None" if "aw_timer s \<or> aw_result s \<noteq> None" "s' = agent_wait_event marker s e" for s s' e
    using that by (cases e) (auto simp: aw_settle_def Let_def split: option.splits)
  have "aw_timer (foldl (agent_wait_event marker) s es) \<or> aw_result (foldl (agent_wait_event marker) s es) \<noteq> None"
    if "aw_timer s \<or> aw_result s \<noteq> None" for s es
    using that by (induction es arbitrary: s) (use timer in auto)
  from this [of agent_wait_init es] have armed: "aw_timer ?s \<or> aw_result ?s \<noteq> None"
    by (simp add: agent_wait_init_def waitForAgentReady_def)
  have fin: "aw_result (waitForAgentReady marker (es @ e # later)) = Some r"
    if "aw_result (agent_wait_event marker ?s e) = Some r" for e r
    using that agent_waiting.settled_run [of "agent_wait_event marker ?s e" marker later]
    by (simp add: waitForAgentReady_def)
  have "aw_result (waitForAgentReady marker (es @ later)) = Some (Inr b)" if "aw_result ?s = Some (Inr b)" for b
    using that agent_waiting.settled_run [of ?s marker later] by (simp add: waitForAgentReady_def)
  moreover have "aw_killed (waitForAgentReady marker (es @ [RunTimeout]))" if "aw_result ?s = None"
    using that armed by (simp add: waitForAgentReady_def aw_settle_def)
  ultimately show ?thesis
    using out armed by (auto intro!: fin simp: aw_settle_def)
qed

theorem agent_report_any_chunking_witness:
  "aw_result (waitForAgentReady ''ZYAGENT-0a'' ([ChildStdout (utf8_bytes ''ZYAGENT-''), ChildStderr [1],
       ChildStdout (utf8_bytes (''0a'' @ [CHR 0x0A] @ ''yes'' @ [CHR 0x0A]))] @ [ChildStdout [32], ChildClose (Some 255) None])) = Some (Inr True)"
  using agent_report_any_chunking [of "[ChildStdout (utf8_bytes ''ZYAGENT-''), ChildStderr [1],
       ChildStdout (utf8_bytes (''0a'' @ [CHR 0x0A] @ ''yes'' @ [CHR 0x0A]))]" "''ZYAGENT-0a''"
      "[ChildStdout [32], ChildClose (Some 255) None]", THEN conjunct1, THEN spec [of _ True]]
  by (simp add: output_event_def parseAgentForwardReady_def strip_cr_def)

text \<open>The wait for the forward's local port returns: the connects that fit into the timeout are all
  there are.\<close>

theorem local_port_wait_ends:
  assumes "\<And>w. now_ms T w \<le> now_ms T (snd (dial port w))"
    and "\<And>ms w. now_ms T w + ms \<le> now_ms T (pause T ms w)" and "timeoutMs div 200 + 2 \<le> tries"
  shows "tryConnect T dial port timeoutMs (now_ms T w) tries w = waitForPort T dial port timeoutMs w"
proof -
  have "tryConnect T dial port timeoutMs start m v = tryConnect T dial port timeoutMs start n v"
    if "start + timeoutMs < now_ms T v + (n - 1) * 200" "0 < n" "n \<le> m" "start \<le> now_ms T v" for start m n v
    using that
  proof (induction n arbitrary: m v)
    case (Suc n)
    then obtain m' where m: "m = Suc m'" "n \<le> m'" by (cases m) auto
    obtain r u where c: "dial port v = (r, u)" by fastforce
    with assms(1) [of v] have u: "now_ms T v \<le> now_ms T u" by simp
    show ?case
    proof (cases r)
      case (Inl e)
      show ?thesis
      proof (cases "timeoutMs < now_ms T u - start")
        case False
        have "0 < n" using Suc.prems(1,4) u False by (cases n) auto
        then have next_poll: "start + timeoutMs < now_ms T (pause T 200 u) + (n - 1) * 200" "start \<le> now_ms T (pause T 200 u)"
          using Suc.prems(1,4) u assms(2) [of u 200] by (cases n; simp)+
        with Suc.IH [OF next_poll(1) _ m(2) next_poll(2)] c Inl False \<open>0 < n\<close> show ?thesis by (simp add: m(1))
      qed (simp add: m(1) c Inl)
    qed (simp add: m(1) c)
  qed simp
  from this [of "now_ms T w" w "timeoutMs div 200 + 2" tries] assms(3) show ?thesis
    unfolding waitForPort_def by simp
qed

theorem local_port_wait_ends_witness:
  "tryConnect \<lparr>now_ms = id, pause = (+)\<rparr> (\<lambda>_ w. (Inl type_error, w)) 1080 1000 0 99 0
   = waitForPort \<lparr>now_ms = id, pause = (+)\<rparr> (\<lambda>_ w. (Inl type_error, w)) 1080 1000 0"
  using local_port_wait_ends [of "\<lparr>now_ms = id, pause = (+)\<rparr>" "\<lambda>_ w. (Inl type_error, w)" 1080 1000 99 0]
  by (simp del: tryConnect.simps)

end
