(* ===== verification/MergeConfig.thy ===== *)
theory MergeConfig
  imports Json
begin

text \<open>
  \<^verbatim>\<open>src/platform/mergeConfig.ts\<close> with the data of \<^verbatim>\<open>src/platform/downloadTypes.ts\<close>: which server is
  downloaded and how it is verified, from product.json, the adapter's defaults and the user's
  settings. The settings object is a map from keys to JSON values, since a user can write
  anything there. Where TypeScript has a union of literals the field is a string; that only the
  literals occur is a theorem.
\<close>

record raw_product =
  raw_commit :: string
  raw_quality :: string
  raw_version :: string
  raw_productVersion :: "string option"
  raw_windsurfVersion :: "string option"
  raw_ideVersion :: "string option"
  raw_serverApplicationName :: string
  raw_serverDataFolderName :: string

record checksum_defaults =
  def_checksumMethod :: "string option"
  def_checksumAlgo :: "string option"
  def_manifestTemplate :: "string option"
  def_manifestField :: "string option"

record product_info =
  commit :: string
  quality :: string
  version :: string
  release :: string
  productVersion :: "string option"
  windsurfVersion :: "string option"
  ideVersion :: "string option"
  serverApplicationName :: string
  serverDataFolderName :: string
  serverDownloadUrlTemplate :: "string option"
  checksumMethod :: "string option"
  checksumAlgo :: "string option"
  manifestTemplate :: "string option"
  manifestField :: "string option"
  verifyChecksum :: bool
  onNoChecksum :: string

type_synonym settings = "string \<Rightarrow> json option"

text \<open>\<^verbatim>\<open>typeof sd.key === "string" ? sd.key : fallback\<close>.\<close>

definition string_setting :: "settings \<Rightarrow> string \<Rightarrow> string \<Rightarrow> string" where
  "string_setting sd key fallback = nullish (json_string (sd key)) fallback"

text \<open>\<^verbatim>\<open>a || b\<close> where \<^verbatim>\<open>b\<close> may be undefined.\<close>

definition or_default :: "string \<Rightarrow> string option \<Rightarrow> string option" where
  "or_default s d = (if s \<noteq> [] then Some s else d)"

definition mergeServerDownloadConfig ::
    "raw_product \<Rightarrow> checksum_defaults option \<Rightarrow> settings \<Rightarrow> product_info" where
  "mergeServerDownloadConfig raw checksumDefaults sd =
     (let downloadMode = string_setting sd ''mode'' ''auto'';
          t = trim (string_setting sd ''template'' []);
          userBinaryName = trim (string_setting sd ''binaryName'' []);
          userChecksumAlgo = string_setting sd ''checksumAlgo'' [];
          userManifestTemplate = trim (string_setting sd ''manifestTemplate'' []);
          userManifestField = trim (string_setting sd ''manifestField'' []);
          userChecksumMethod = string_setting sd ''checksumMethod'' [];
          onNoChecksumRaw = string_setting sd ''onNoChecksum'' ''warn''
      in \<lparr>commit = raw_commit raw, quality = raw_quality raw, version = raw_version raw,
          release = or_else (raw_version raw) (raw_commit raw),
          productVersion = raw_productVersion raw, windsurfVersion = raw_windsurfVersion raw,
          ideVersion = raw_ideVersion raw,
          serverApplicationName = or_else userBinaryName (raw_serverApplicationName raw),
          serverDataFolderName = raw_serverDataFolderName raw,
          serverDownloadUrlTemplate = (if downloadMode = ''custom'' \<and> t \<noteq> [] then Some t else None),
          checksumMethod =
            (if userChecksumMethod = ''sidecar'' \<or> userChecksumMethod = ''manifest''
             then Some userChecksumMethod else Option.bind checksumDefaults def_checksumMethod),
          checksumAlgo =
            (if userChecksumAlgo = ''sha256'' \<or> userChecksumAlgo = ''md5''
             then Some userChecksumAlgo else Option.bind checksumDefaults def_checksumAlgo),
          manifestTemplate = or_default userManifestTemplate (Option.bind checksumDefaults def_manifestTemplate),
          manifestField = or_default userManifestField (Option.bind checksumDefaults def_manifestField),
          verifyChecksum = (sd ''verifyChecksum'' \<noteq> Some (JBool False)),
          onNoChecksum =
            (if onNoChecksumRaw = ''allow'' \<or> onNoChecksumRaw = ''abort'' then onNoChecksumRaw else ''warn'')\<rparr>)"

section \<open>Types\<close>

text \<open>What the TypeScript types of the two records promise.\<close>

definition algo_type :: "string option \<Rightarrow> bool" where
  "algo_type a = (a \<in> {None, Some ''sha256'', Some ''md5''})"

definition method_type :: "string option \<Rightarrow> bool" where
  "method_type m = (m \<in> {None, Some ''sidecar'', Some ''manifest''})"

definition defaults_typed :: "checksum_defaults option \<Rightarrow> bool" where
  "defaults_typed d = (case d of None \<Rightarrow> True
                       | Some c \<Rightarrow> algo_type (def_checksumAlgo c) \<and> method_type (def_checksumMethod c))"

definition info_typed :: "product_info \<Rightarrow> bool" where
  "info_typed i = (algo_type (checksumAlgo i) \<and> method_type (checksumMethod i)
     \<and> onNoChecksum i \<in> {''warn'', ''allow'', ''abort''}
     \<and> serverDownloadUrlTemplate i \<noteq> Some [])"

section \<open>Lemmas\<close>

lemma merged_typed:
  assumes "defaults_typed checksumDefaults"
  shows "info_typed (mergeServerDownloadConfig raw checksumDefaults sd)
       \<and> (\<not> verifyChecksum (mergeServerDownloadConfig raw checksumDefaults sd) \<longleftrightarrow> sd ''verifyChecksum'' = Some (JBool False))
       \<and> (onNoChecksum (mergeServerDownloadConfig raw checksumDefaults sd) \<noteq> ''warn'' \<longrightarrow>
            sd ''onNoChecksum'' \<in> {Some (JStr ''allow''), Some (JStr ''abort'')})
       \<and> (serverDownloadUrlTemplate (mergeServerDownloadConfig raw checksumDefaults sd) \<noteq> None \<longrightarrow>
            sd ''mode'' = Some (JStr ''custom''))"
proof -
  have str: "string_setting sd k d = s \<longleftrightarrow> sd k = Some (JStr s) \<or> (\<forall>t. sd k \<noteq> Some (JStr t)) \<and> d = s" for k d s
    by (auto simp: string_setting_def json_string_def split: option.splits json.splits)
  show ?thesis
    using assms
    by (auto simp: mergeServerDownloadConfig_def info_typed_def defaults_typed_def algo_type_def method_type_def str Let_def
        split: option.splits if_splits)
qed

section \<open>Properties\<close>

text \<open>C15. Whatever a user writes into the settings, values of the wrong JSON type and unknown words
  included, the merged configuration is well typed: the algorithm, the method and the policy
  are among their literals, a template is not empty, verification is off only for the literal
  \<^verbatim>\<open>false\<close>, and an unknown policy warns.\<close>

theorem merged_config_typed:
  assumes "defaults_typed checksumDefaults"
  shows "info_typed (mergeServerDownloadConfig raw checksumDefaults sd)
       \<and> (\<not> verifyChecksum (mergeServerDownloadConfig raw checksumDefaults sd) \<longleftrightarrow> sd ''verifyChecksum'' = Some (JBool False))
       \<and> (onNoChecksum (mergeServerDownloadConfig raw checksumDefaults sd) \<noteq> ''warn'' \<longrightarrow>
            sd ''onNoChecksum'' \<in> {Some (JStr ''allow''), Some (JStr ''abort'')})
       \<and> (serverDownloadUrlTemplate (mergeServerDownloadConfig raw checksumDefaults sd) \<noteq> None \<longrightarrow>
            sd ''mode'' = Some (JStr ''custom''))"
  by (rule merged_typed [OF assms])

theorem merged_config_typed_witness:
  "onNoChecksum (mergeServerDownloadConfig
      \<lparr>raw_commit = ''c0'', raw_quality = ''stable'', raw_version = ''1.0'', raw_productVersion = None, raw_windsurfVersion = None,
       raw_ideVersion = None, raw_serverApplicationName = ''srv'', raw_serverDataFolderName = ''.srv''\<rparr> None
      [''onNoChecksum'' \<mapsto> JStr ''ABORT'', ''verifyChecksum'' \<mapsto> JStr ''false'']) = ''warn''"
proof -
  let ?sd = "[''onNoChecksum'' \<mapsto> JStr ''ABORT'', ''verifyChecksum'' \<mapsto> JStr ''false'']"
  have "?sd ''onNoChecksum'' = Some (JStr ''ABORT'')" by simp
  with merged_config_typed [of None "\<lparr>raw_commit = ''c0'', raw_quality = ''stable'', raw_version = ''1.0'', raw_productVersion = None, raw_windsurfVersion = None,
       raw_ideVersion = None, raw_serverApplicationName = ''srv'', raw_serverDataFolderName = ''.srv''\<rparr>" ?sd]
  show ?thesis by (simp add: defaults_typed_def)
qed

end
