(* ===== verification/ServerUrl.thy ===== *)
theory ServerUrl
  imports MergeConfig
begin

text \<open>
  \<^verbatim>\<open>src/remote/url.ts\<close>: the address of the server tarball from a template. Replacing a
  placeholder is JavaScript's \<^verbatim>\<open>String.replace\<close>, which gives \<^verbatim>\<open>$\<close> a meaning in the replacement
  text; \<open>js_replace\<close> writes that out. A response is its status and body; fetching and
  \<^verbatim>\<open>resolveNearestVsCodiumVersion\<close> (of which \<open>VscodiumFeed\<close> is the model) are arguments, and so is
  the adapter's address.
\<close>

section \<open>String.replace\<close>

fun expand_replacement :: "string \<Rightarrow> string \<Rightarrow> string \<Rightarrow> string \<Rightarrow> string" where
  "expand_replacement m before behind [] = []"
| "expand_replacement m before behind [c] = [c]"
| "expand_replacement m before behind (c # d # r) =
     (if c \<noteq> CHR ''$'' then c # expand_replacement m before behind (d # r)
      else if d = CHR ''$'' then CHR ''$'' # expand_replacement m before behind r
      else if d = CHR ''&'' then m @ expand_replacement m before behind r
      else if d = CHR 0x60 then before @ expand_replacement m before behind r
      else if d = CHR 0x27 then behind @ expand_replacement m before behind r
      else c # expand_replacement m before behind (d # r))"

fun replace_from :: "string \<Rightarrow> string \<Rightarrow> string \<Rightarrow> string \<Rightarrow> string" where
  "replace_from pat v before [] = []"
| "replace_from pat v before (c # s) =
     (if prefix pat (c # s)
      then expand_replacement pat before (drop (length pat - 1) s) v
             @ replace_from pat v (before @ pat) (drop (length pat - 1) s)
      else c # replace_from pat v (before @ [c]) s)"

text \<open>Every occurrence of a pattern that is not empty, as \<^verbatim>\<open>replace\<close> with a global expression and
  \<^verbatim>\<open>replaceAll\<close> do.\<close>

definition js_replace :: "string \<Rightarrow> string \<Rightarrow> string \<Rightarrow> string" where
  "js_replace pat v s = replace_from pat v [] s"

definition placeholder :: "string \<Rightarrow> string" where
  "placeholder name = ''${'' @ name @ ''}''"

section \<open>Templates\<close>

definition template_values :: "product_info \<Rightarrow> string \<Rightarrow> string \<Rightarrow> (string \<times> string) list" where
  "template_values info os arch =
     [(''commit'', commit info), (''quality'', quality info), (''version'', version info),
      (''release'', release info), (''productVersion'', nullish (productVersion info) []),
      (''windsurfVersion'', nullish (windsurfVersion info) []), (''ideVersion'', nullish (ideVersion info) []),
      (''os'', os), (''arch'', arch), (''platform'', arch)]"

definition substituteTemplate :: "string \<Rightarrow> product_info \<Rightarrow> string \<Rightarrow> string \<Rightarrow> string" where
  "substituteTemplate template info os arch =
     foldl (\<lambda>s (name, v). js_replace (placeholder name) v s) template (template_values info os arch)"

record http_response =
  http_status :: nat
  http_body :: string

definition http_ok :: "http_response \<Rightarrow> bool" where
  "http_ok r = (200 \<le> http_status r \<and> http_status r < 300)"

type_synonym 'w fetcher = "string \<Rightarrow> ('w, http_response) promise"

definition fetchCdnVersion :: "'w fetcher \<Rightarrow> string \<Rightarrow> ('w, string) promise" where
  "fetchCdnVersion fetch partialUrl =
     (case last_index_of (CHR ''/'') partialUrl of
        None \<Rightarrow> reject (plain_error ''Cannot derive CDN version endpoint from template'')
      | Some slash \<Rightarrow>
          (let versionUrl = take slash partialUrl @ ''/version''
           in await (fetch versionUrl) (\<lambda>res.
                if \<not> http_ok res
                then reject (plain_error (''CDN version fetch failed: HTTP '' @ dec (http_status res) @ '' for '' @ versionUrl))
                else if trim (http_body res) = []
                then reject (plain_error (''CDN version endpoint returned empty body: '' @ versionUrl))
                else resolve (trim (http_body res)))))"

text \<open>The matches of \<^verbatim>\<open>/\$\{[^}]+\}/g\<close>.\<close>

fun placeholders :: "string \<Rightarrow> string list" where
  "placeholders [] = []"
| "placeholders (c # s) =
     (let name = takeWhile (\<lambda>x. x \<noteq> CHR ''}'') (drop 1 s);
          behind = drop (length name + 1) s
      in if prefix ''${'' (c # s) \<and> name \<noteq> [] \<and> behind \<noteq> []
         then placeholder name # placeholders (drop 1 behind)
         else placeholders s)"

definition expand_async ::
    "(string \<Rightarrow> ('w, string) promise) \<Rightarrow> string \<Rightarrow> string \<Rightarrow> ('w, string) promise" where
  "expand_async get name url =
     (if has_sub url (placeholder name)
      then await (get url) (\<lambda>v. resolve (js_replace (placeholder name) v url)) else resolve url)"

definition resolveTemplateUrl ::
    "'w fetcher \<Rightarrow> (string \<Rightarrow> ('w, string) promise) \<Rightarrow> string \<Rightarrow> product_info \<Rightarrow> string \<Rightarrow> string
      \<Rightarrow> ('w, string \<times> string list) promise" where
  "resolveTemplateUrl fetch nearest template info os arch =
     await (expand_async (fetchCdnVersion fetch) ''cdnVersion'' (substituteTemplate template info os arch)) (\<lambda>url1.
     await (expand_async (\<lambda>_. nearest (version info)) ''nearestVsCodiumVersion'' url1) (\<lambda>url.
       resolve (url, placeholders url)))"

datatype url_type = Custom | Auto | Fallback

definition buildServerDownloadUrl ::
    "'w fetcher \<Rightarrow> (string \<Rightarrow> ('w, string) promise)
      \<Rightarrow> (string \<Rightarrow> string \<Rightarrow> string \<Rightarrow> string \<Rightarrow> ('w, string \<times> url_type) promise)
      \<Rightarrow> product_info \<Rightarrow> string \<Rightarrow> string \<Rightarrow> ('w, string \<times> url_type) promise" where
  "buildServerDownloadUrl fetch nearest getServerDownloadUrl info os arch =
     (if truthy (serverDownloadUrlTemplate info)
      then await (resolveTemplateUrl fetch nearest (nullish (serverDownloadUrlTemplate info) []) info os arch)
             (\<lambda>(url, unresolved).
               if 0 < length unresolved
               then reject (plain_error (''Server download URL has unresolved variables: '' @ js_join '', '' unresolved))
               else resolve (url, Custom))
      else getServerDownloadUrl (commit info) (quality info) os arch)"

definition downloadUrlLogMessage :: "string \<Rightarrow> url_type \<Rightarrow> string" where
  "downloadUrlLogMessage name t =
     (case t of
        Custom \<Rightarrow> ''[download] using your custom server URL template''
      | Fallback \<Rightarrow> ''[download] no '' @ name @ ''-specific server URL; using the vscodium-reh server tarball''
      | Auto \<Rightarrow> ''[download] using the '' @ name @ '' server tarball'')"

section \<open>Templates as pieces\<close>

datatype piece_of_template = Lit string | Var string

fun render :: "piece_of_template \<Rightarrow> string" where
  "render (Lit s) = s"
| "render (Var n) = placeholder n"

definition render_all :: "piece_of_template list \<Rightarrow> string" where
  "render_all ps = concat (map render ps)"

definition no_dollar :: "string \<Rightarrow> bool" where "no_dollar s = (CHR ''$'' \<notin> set s)"

definition piece_ok :: "piece_of_template \<Rightarrow> bool" where
  "piece_ok p = (case p of Lit s \<Rightarrow> no_dollar s
                 | Var n \<Rightarrow> no_dollar n \<and> CHR ''}'' \<notin> set n \<and> n \<noteq> [])"

definition fill :: "string \<Rightarrow> string \<Rightarrow> piece_of_template \<Rightarrow> piece_of_template" where
  "fill name v p = (case p of Lit s \<Rightarrow> Lit s | Var n \<Rightarrow> if n = name then Lit v else Var n)"

lemma expand_plain: "no_dollar v \<Longrightarrow> expand_replacement m b a v = v"
  by (induction m b a v rule: expand_replacement.induct) (auto simp: no_dollar_def)

lemma replace_lit:
  "no_dollar s \<Longrightarrow> replace_from (placeholder n) v b (s @ t) = s @ replace_from (placeholder n) v (b @ s) t"
  by (induction s arbitrary: b) (auto simp: no_dollar_def placeholder_def)

lemma prefix_brace:
  "CHR ''}'' \<notin> set n \<Longrightarrow> CHR ''}'' \<notin> set x \<Longrightarrow> prefix (n @ ''}'') (x @ CHR ''}'' # t) \<longleftrightarrow> n = x"
proof (induction n arbitrary: x)
  case Nil
  then show ?case by (cases x) auto
next
  case (Cons c n)
  then show ?case by (cases x) auto
qed

lemma replace_hit:
  "no_dollar v \<Longrightarrow> replace_from (placeholder n) v b (placeholder n @ t) = v @ replace_from (placeholder n) v (b @ placeholder n) t"
proof -
  assume v: "no_dollar v"
  obtain r where p: "placeholder n = CHR ''$'' # r" by (simp add: placeholder_def)
  have "prefix (placeholder n) (CHR ''$'' # r @ t)" unfolding p by simp
  moreover have "drop (length (placeholder n) - 1) (r @ t) = t" unfolding p by simp
  ultimately show ?thesis using expand_plain [OF v] unfolding p by simp
qed

lemma replace_miss:
  assumes "x \<noteq> n" and "CHR ''}'' \<notin> set n" and "CHR ''}'' \<notin> set x" and "no_dollar x"
  shows "replace_from (placeholder n) v b (placeholder x @ t)
       = placeholder x @ replace_from (placeholder n) v (b @ placeholder x) t"
proof -
  have "\<not> prefix (n @ ''}'') (x @ CHR ''}'' # t)" using prefix_brace assms(1,2,3) by metis
  then have "replace_from (placeholder n) v b (placeholder x @ t)
      = CHR ''$'' # replace_from (placeholder n) v (b @ ''$'') ((''{'' @ x @ ''}'') @ t)"
    by (simp add: placeholder_def)
  also have "\<dots> = placeholder x @ replace_from (placeholder n) v (b @ placeholder x) t"
    using replace_lit [of "''{'' @ x @ ''}''" n v "b @ ''$''" t] assms(4)
    by (simp add: no_dollar_def placeholder_def)
  finally show ?thesis .
qed

lemma replace_pieces:
  assumes "no_dollar v" and "CHR ''}'' \<notin> set n" and "\<forall>p \<in> set ps. piece_ok p"
  shows "replace_from (placeholder n) v b (render_all ps) = render_all (map (fill n v) ps)"
  using assms(3)
proof (induction ps arbitrary: b)
  case (Cons p ps)
  show ?case
  proof (cases p)
    case (Lit s)
    with Cons replace_lit [of s n v b "render_all ps"] show ?thesis by (simp add: render_all_def piece_ok_def fill_def)
  next
    case (Var x)
    with Cons replace_hit [OF assms(1), of n b "render_all ps"] replace_miss [of x n v b "render_all ps"] assms(2)
    show ?thesis by (simp add: render_all_def piece_ok_def fill_def)
  qed
qed (simp add: render_all_def)

definition fill_all :: "(string \<times> string) list \<Rightarrow> piece_of_template \<Rightarrow> piece_of_template" where
  "fill_all kvs p = (case p of Lit s \<Rightarrow> Lit s
                     | Var n \<Rightarrow> (case map_of kvs n of Some v \<Rightarrow> Lit v | None \<Rightarrow> Var n))"

lemma fill_step: "fill_all kvs (fill n v p) = fill_all ((n, v) # kvs) p"
  by (cases p) (auto simp: fill_def fill_all_def)

lemma substitute_pieces:
  "\<forall>(n, v) \<in> set kvs. no_dollar v \<and> CHR ''}'' \<notin> set n \<Longrightarrow> \<forall>p \<in> set ps. piece_ok p \<Longrightarrow>
   foldl (\<lambda>s (name, v). js_replace (placeholder name) v s) (render_all ps) kvs = render_all (map (fill_all kvs) ps)"
proof (induction kvs arbitrary: ps)
  case Nil
  have "fill_all [] p = p" for p by (cases p) (auto simp: fill_all_def)
  then show ?case by simp
next
  case (Cons kv kvs)
  obtain n v where kv: "kv = (n, v)" by force
  have ok: "\<forall>p \<in> set (map (fill n v) ps). piece_ok p"
    using Cons.prems kv by (auto simp: fill_def piece_ok_def split: piece_of_template.splits)
  have "js_replace (placeholder n) v (render_all ps) = render_all (map (fill n v) ps)"
    using replace_pieces [of v n ps "[]"] Cons.prems kv by (simp add: js_replace_def)
  with Cons.IH [OF _ ok] Cons.prems kv show ?case by (simp add: fill_step comp_def)
qed

lemma substitute_values:
  assumes "\<forall>p \<in> set ps. piece_ok p" and "\<forall>(n, v) \<in> set (template_values info os arch). no_dollar v"
  shows "substituteTemplate (render_all ps) info os arch
       = concat (map (\<lambda>p. case p of Lit s \<Rightarrow> s
                     | Var n \<Rightarrow> nullish (map_of (template_values info os arch) n) (placeholder n)) ps)"
proof -
  have "\<forall>(n, v) \<in> set (template_values info os arch). no_dollar v \<and> CHR ''}'' \<notin> set n"
    using assms(2) by (simp add: template_values_def)
  from substitute_pieces [OF this assms(1)]
  have "substituteTemplate (render_all ps) info os arch = render_all (map (fill_all (template_values info os arch)) ps)"
    by (simp add: substituteTemplate_def)
  moreover have "render (fill_all kvs p) = (case p of Lit s \<Rightarrow> s | Var n \<Rightarrow> nullish (map_of kvs n) (placeholder n))" for kvs p
    by (simp add: fill_all_def split: piece_of_template.splits option.splits)
  ultimately show ?thesis by (simp add: render_all_def comp_def)
qed

section \<open>Properties\<close>

text \<open>In a template of plain text and placeholders every known placeholder becomes its value and
  everything else stays, as long as no value contains a dollar sign: the replacements, one
  after the other over the whole text, do not disturb each other. A value with \<^verbatim>\<open>$&\<close> does: it is
  expanded to the placeholder it replaces.\<close>

theorem substitute_simultaneous:
  assumes "\<forall>p \<in> set ps. piece_ok p" and "\<forall>(n, v) \<in> set (template_values info os arch). no_dollar v"
  shows "substituteTemplate (render_all ps) info os arch
       = concat (map (\<lambda>p. case p of Lit s \<Rightarrow> s
                     | Var n \<Rightarrow> nullish (map_of (template_values info os arch) n) (placeholder n)) ps)
   \<and> js_replace (placeholder ''os'') ''a$&b'' (''x/'' @ placeholder ''os'') = ''x/a'' @ placeholder ''os'' @ ''b''"
  using substitute_values [OF assms] by (simp add: js_replace_def placeholder_def)

text \<open>An address from a custom template is used only when no placeholder is left in it; otherwise
  the user is told which are. Without a template the adapter decides.\<close>

theorem custom_url_resolved:
  assumes "buildServerDownloadUrl fetch nearest getServerDownloadUrl info os arch w = (Inr (url, t), w')"
  shows "(truthy (serverDownloadUrlTemplate info) \<longrightarrow> t = Custom \<and> placeholders url = [])
       \<and> (\<not> truthy (serverDownloadUrlTemplate info) \<longrightarrow>
            getServerDownloadUrl (commit info) (quality info) os arch w = (Inr (url, t), w'))"
proof (cases "truthy (serverDownloadUrlTemplate info)")
  case True
  with assms have "await (resolveTemplateUrl fetch nearest (nullish (serverDownloadUrlTemplate info) []) info os arch)
     (\<lambda>(url, unresolved).
               if 0 < length unresolved
               then reject (plain_error (''Server download URL has unresolved variables: '' @ js_join '', '' unresolved))
               else resolve (url, Custom)) w = (Inr (url, t), w')"
    by (simp add: buildServerDownloadUrl_def)
  then show ?thesis
  proof (rule await_InrE)
    fix u w1
    assume r: "resolveTemplateUrl fetch nearest (nullish (serverDownloadUrlTemplate info) []) info os arch w = (Inr u, w1)"
      and k: "(case u of (url, unresolved) \<Rightarrow>
               if 0 < length unresolved
               then reject (plain_error (''Server download URL has unresolved variables: '' @ js_join '', '' unresolved))
               else resolve (url, Custom)) w1 = (Inr (url, t), w')"
    from r have "snd u = placeholders (fst u)"
      by (auto simp: resolveTemplateUrl_def resolve_def elim!: await_InrE)
    with k True show ?thesis by (auto simp: resolve_def reject_def case_prod_beta split: if_splits)
  qed
qed (use assms in \<open>simp add: buildServerDownloadUrl_def\<close>)

text \<open>A product for concrete runs.\<close>

definition sample_info :: product_info where
  "sample_info = mergeServerDownloadConfig
      \<lparr>raw_commit = ''c0ffee'', raw_quality = ''stable'', raw_version = ''1.2'', raw_productVersion = None, raw_windsurfVersion = None,
       raw_ideVersion = None, raw_serverApplicationName = ''srv'', raw_serverDataFolderName = ''.srv''\<rparr> None
      [''mode'' \<mapsto> JStr ''custom'', ''template'' \<mapsto> JStr ''https://x/f-${cdnVersion}.gz'']"

lemma sample_fields:
  "commit sample_info = ''c0ffee''" "quality sample_info = ''stable''" "version sample_info = ''1.2''" "release sample_info = ''1.2''"
  "productVersion sample_info = None" "windsurfVersion sample_info = None" "ideVersion sample_info = None"
  "serverDownloadUrlTemplate sample_info = Some ''https://x/f-${cdnVersion}.gz''"
  by (simp_all add: sample_info_def mergeServerDownloadConfig_def string_setting_def json_string_def or_else_def
      trim_trimmed trimmed_def is_space_def)

theorem substitute_simultaneous_witness:
  "substituteTemplate ''https://x/${commit}/s-${os}-${arch}-${cdnVersion}.gz'' sample_info ''linux'' ''x64''
   = ''https://x/c0ffee/s-linux-x64-${cdnVersion}.gz''"
  using substitute_simultaneous [where ps = "[Lit ''https://x/'', Var ''commit'', Lit ''/s-'', Var ''os'', Lit ''-'', Var ''arch'', Lit ''-'',
      Var ''cdnVersion'', Lit ''.gz'']" and info = sample_info and os = "''linux''" and arch = "''x64''"]
  by (simp add: piece_ok_def no_dollar_def template_values_def sample_fields render_all_def placeholder_def)

theorem custom_url_resolved_witness:
  "placeholders ''https://x/f-9.gz'' = []"
proof -
  let ?fetch = "\<lambda>u. resolve \<lparr>http_status = 200, http_body = ''9''\<rparr>"
  have s: "substituteTemplate ''https://x/f-${cdnVersion}.gz'' sample_info ''linux'' ''x64'' = ''https://x/f-${cdnVersion}.gz''"
    using substitute_simultaneous [where ps = "[Lit ''https://x/f-'', Var ''cdnVersion'', Lit ''.gz'']" and info = sample_info and os = "''linux''" and arch = "''x64''"]
    by (simp add: piece_ok_def no_dollar_def template_values_def sample_fields render_all_def placeholder_def)
  have "trim ''9'' = ''9''" by (simp add: trim_trimmed trimmed_def is_space_def)
  then have "buildServerDownloadUrl ?fetch (\<lambda>_. resolve []) (\<lambda>a b c d. resolve ([], Auto)) sample_info ''linux'' ''x64'' ()
      = (Inr (''https://x/f-9.gz'', Custom), ())"
    by (simp add: buildServerDownloadUrl_def resolveTemplateUrl_def sample_fields s expand_async_def fetchCdnVersion_def http_ok_def
        has_sub_def placeholder_def js_replace_def promise_simps Let_def)
  then show ?thesis by (rule custom_url_resolved [THEN conjunct1, THEN mp, THEN conjunct2]) (simp add: sample_fields)
qed

end
