(* ===== verification/Checksum.thy ===== *)
theory Checksum
  imports ServerUrl
begin

unbundle bit_operations_syntax

text \<open>
  \<^verbatim>\<open>src/remote/checksum.ts\<close>: where the expected hash of a server tarball comes from, and the
  comparison with the actual one. The hash function is an argument: its value is the
  lower-case hexadecimal digest that \<^verbatim>\<open>createHash(algo).digest("hex")\<close> gives.
\<close>

datatype checksum_source = Sidecar | Manifest

datatype checksum_result =
    Expected (expectedHash: string) (algo: string) (source: checksum_source)
  | NoChecksum (reason: string) (detail: "string option")

definition parseChecksumBody :: "string \<Rightarrow> string option" where
  "parseChecksumBody body =
     (let trimmed = trim body
      in if trimmed = [] then None
         else let firstToken = takeWhile (\<lambda>c. \<not> is_space c) trimmed
              in if firstToken = [] then None else Some firstToken)"

text \<open>A response of 404 or 403 says that there is no such file.\<close>

definition when_present ::
    "'w fetcher \<Rightarrow> string \<Rightarrow> string \<Rightarrow> (http_response \<Rightarrow> string option result) \<Rightarrow> ('w, string option) promise" where
  "when_present fetchFn what url read_body =
     await (fetchFn url) (\<lambda>res.
       if http_status res = 404 \<or> http_status res = 403 then resolve None
       else if \<not> http_ok res
       then reject (plain_error (what @ '' fetch failed: HTTP '' @ dec (http_status res) @ '' for '' @ url))
       else (\<lambda>w. (read_body res, w)))"

definition fetchSidecarChecksum :: "'w fetcher \<Rightarrow> string \<Rightarrow> string \<Rightarrow> ('w, string option) promise" where
  "fetchSidecarChecksum fetchFn downloadUrl a =
     when_present fetchFn ''Checksum sidecar'' (downloadUrl @ ''.'' @ a) (\<lambda>res. Inr (parseChecksumBody (http_body res)))"

definition manifest_hash :: "string \<Rightarrow> string \<Rightarrow> string option result" where
  "manifest_hash field body =
     (case parse_json body of
        Inl e \<Rightarrow> Inl e
      | Inr j \<Rightarrow> (case json_prop j field of
                    Inl e \<Rightarrow> Inl e
                  | Inr v \<Rightarrow> Inr (map_option trim (json_string v))))"

definition fetchManifestChecksum :: "'w fetcher \<Rightarrow> string \<Rightarrow> string \<Rightarrow> ('w, string option) promise" where
  "fetchManifestChecksum fetchFn manifestUrl field =
     when_present fetchFn ''Manifest'' manifestUrl (\<lambda>res. manifest_hash field (http_body res))"

definition NO_SOURCE :: checksum_result where
  "NO_SOURCE = NoChecksum ''no-source'' None"

definition found_hash :: "string option \<Rightarrow> string \<Rightarrow> checksum_source \<Rightarrow> checksum_result" where
  "found_hash h a src = (if truthy h then Expected (nullish h []) a src else NO_SOURCE)"

definition manifest_checksum ::
    "'w fetcher \<Rightarrow> (string \<Rightarrow> ('w, string) promise) \<Rightarrow> product_info \<Rightarrow> string \<Rightarrow> string \<Rightarrow> ('w, checksum_result) promise" where
  "manifest_checksum fetchFn nearest info os arch =
     await (resolveTemplateUrl fetchFn nearest (nullish (manifestTemplate info) []) info os arch)
       (\<lambda>(url, unresolved).
         if 0 < length unresolved
         then resolve (NoChecksum ''parse-failed'' (Some ''unresolved manifest template variables''))
         else await (fetchManifestChecksum fetchFn url (nullish (manifestField info) []))
                (\<lambda>h. resolve (found_hash h (nullish (checksumAlgo info) ''sha256'') Manifest)))"

definition sidecar_checksum :: "'w fetcher \<Rightarrow> string \<Rightarrow> string \<Rightarrow> ('w, checksum_result) promise" where
  "sidecar_checksum fetchFn downloadUrl a =
     await (fetchSidecarChecksum fetchFn downloadUrl a) (\<lambda>h. resolve (found_hash h a Sidecar))"

definition fetchExpectedChecksum ::
    "'w fetcher \<Rightarrow> (string \<Rightarrow> ('w, string) promise) \<Rightarrow> string \<Rightarrow> product_info \<Rightarrow> string \<Rightarrow> string
      \<Rightarrow> ('w, checksum_result) promise" where
  "fetchExpectedChecksum fetchFn nearest downloadUrl info os arch =
     (if checksumMethod info = Some ''manifest''
      then (if truthy (manifestTemplate info) \<and> truthy (manifestField info)
            then catching (manifest_checksum fetchFn nearest info os arch) (\<lambda>err. resolve NO_SOURCE)
            else resolve NO_SOURCE)
      else if truthy (checksumAlgo info)
      then catching (sidecar_checksum fetchFn downloadUrl (nullish (checksumAlgo info) [])) (\<lambda>err. resolve NO_SOURCE)
      else resolve NO_SOURCE)"

text \<open>The comparison that takes the same time for every pair of texts of one length.\<close>

fun diff_bits :: "nat \<Rightarrow> string \<Rightarrow> string \<Rightarrow> nat" where
  "diff_bits d (a # as) (b # bs) = diff_bits (d OR (of_char a XOR of_char b)) as bs"
| "diff_bits d _ _ = d"

definition verifyHash :: "(string \<Rightarrow> bytes \<Rightarrow> string) \<Rightarrow> bytes \<Rightarrow> string \<Rightarrow> string \<Rightarrow> bool" where
  "verifyHash computeHash data expected a =
     (let actual = computeHash a data
      in if length actual \<noteq> length expected then False else diff_bits 0 actual expected = 0)"

section \<open>Lemmas\<close>

lemma or_zero: "(a OR b = (0::nat)) \<longleftrightarrow> a = 0 \<and> b = 0"
  by (auto simp: bit_eq_iff bit_or_iff)

lemma xor_zero: "(a XOR b = (0::nat)) \<longleftrightarrow> a = b"
  by (auto simp: bit_eq_iff bit_xor_iff)

lemma of_char_inj: "(of_char a = (of_char b :: nat)) \<longleftrightarrow> a = b"
  by (metis char_of_char)

lemma diff_bits_zero: "length as = length bs \<Longrightarrow> diff_bits d as bs = 0 \<longleftrightarrow> d = 0 \<and> as = bs"
  by (induction d as bs rule: diff_bits.induct) (auto simp: or_zero xor_zero of_char_inj)

lemma verifyHash_eq: "verifyHash computeHash data expected a \<longleftrightarrow> computeHash a data = expected"
  by (auto simp: verifyHash_def Let_def diff_bits_zero)

lemma first_token:
  assumes "h \<noteq> []" and "\<forall>c \<in> set h. \<not> is_space c" and "rest = [] \<or> is_space (hd rest)"
  shows "parseChecksumBody (h @ rest) = Some h"
proof -
  have "trim (h @ rest) = h @ trim_end rest \<and> (trim_end rest = [] \<or> is_space (hd (trim_end rest)))"
  proof -
    have "dropWhile is_space (h @ rest) = h @ rest" using assms(1,2) by (cases h) auto
    moreover have "dropWhile is_space (rev rest @ rev h) = dropWhile is_space (rev rest) @ rev h"
    proof (cases "dropWhile is_space (rev rest) = []")
      case True
      then have "\<forall>c \<in> set (rev rest). is_space c" by (simp add: dropWhile_eq_Nil_conv)
      moreover have "dropWhile is_space (rev h) = rev h"
        using assms(1,2) by (cases h rule: rev_cases) auto
      ultimately show ?thesis by (simp add: dropWhile_append)
    next
      case False
      then have "\<exists>c \<in> set (rev rest). \<not> is_space c" by (auto simp: dropWhile_eq_Nil_conv)
      then obtain c where "c \<in> set (rev rest)" "\<not> is_space c" by blast
      then show ?thesis by (rule dropWhile_append1)
    qed
    moreover have "trim_end rest = [] \<or> is_space (hd (trim_end rest))"
    proof (cases "trim_end rest = []")
      case False
      obtain q where "rev rest = q @ dropWhile is_space (rev rest)" by (metis takeWhile_dropWhile_id)
      then have "rest = trim_end rest @ rev q" unfolding trim_end_def by (metis rev_append rev_rev_ident)
      then have "hd rest = hd (trim_end rest)" "rest \<noteq> []" using False by (metis hd_append2, auto)
      with assms(3) show ?thesis by simp
    qed simp
    ultimately show ?thesis by (simp add: trim_def trim_start_def trim_end_def)
  qed
  moreover have "takeWhile (\<lambda>c. \<not> is_space c) (h @ r) = h" if "r = [] \<or> is_space (hd r)" for r
    using that assms(2) by (cases r) (auto simp: takeWhile_append)
  ultimately show ?thesis using assms(1) by (simp add: parseChecksumBody_def Let_def)
qed

section \<open>Properties\<close>

text \<open>The constant-time comparison accepts a tarball exactly when its hash is the expected text:
  folding the exclusive or of the characters is string equality. In particular an expected hash
  in capital letters never matches.\<close>

theorem verifyHash_is_equality:
  "verifyHash computeHash data expected a \<longleftrightarrow> computeHash a data = expected"
  by (rule verifyHash_eq)

text \<open>Both kinds of checksum file are understood, a bare hash and the lines of \<^verbatim>\<open>sha256sum\<close>, with
  or without a final newline; a missing file, an error status and a failing request are all
  reported as no checksum, never as an error and never as a hash.\<close>

theorem sidecar_outcomes:
  assumes "checksumMethod info \<noteq> Some ''manifest''" and "checksumAlgo info = Some a" and "a \<noteq> []"
    and "h \<noteq> []" and "\<forall>c \<in> set h. \<not> is_space c" and "rest = [] \<or> is_space (hd rest)"
  shows "(fetchFn (url @ ''.'' @ a) w = (Inr \<lparr>http_status = 200, http_body = h @ rest\<rparr>, w') \<longrightarrow>
            fetchExpectedChecksum fetchFn nearest url info os arch w = (Inr (Expected h a Sidecar), w'))
       \<and> (fetchFn (url @ ''.'' @ a) w = (Inr r, w') \<and> \<not> http_ok r \<longrightarrow>
            fetchExpectedChecksum fetchFn nearest url info os arch w = (Inr NO_SOURCE, w'))
       \<and> (fetchFn (url @ ''.'' @ a) w = (Inl e, w') \<longrightarrow>
            fetchExpectedChecksum fetchFn nearest url info os arch w = (Inr NO_SOURCE, w'))"
  using assms first_token [OF assms(4-6)]
  by (auto simp: fetchExpectedChecksum_def sidecar_checksum_def fetchSidecarChecksum_def when_present_def catching_def
      await_def resolve_def reject_def http_ok_def found_hash_def split: if_splits)

theorem sidecar_outcomes_witness:
  "fetchExpectedChecksum (\<lambda>u. resolve \<lparr>http_status = 200, http_body = ''ab12'' @ ''  server.tar.gz''\<rparr>) (\<lambda>_. resolve []) ''https://x/s.gz''
     (sample_info\<lparr>checksumMethod := None, checksumAlgo := Some ''md5''\<rparr>) ''linux'' ''x64'' ()
   = (Inr (Expected ''ab12'' ''md5'' Sidecar), ())"
  using sidecar_outcomes [where info = "sample_info\<lparr>checksumMethod := None, checksumAlgo := Some ''md5''\<rparr>" and a = "''md5''" and h = "''ab12''"
      and rest = "''  server.tar.gz''" and fetchFn = "\<lambda>u. resolve \<lparr>http_status = 200, http_body = ''ab12'' @ ''  server.tar.gz''\<rparr>" and w = "()" and w' = "()"
      and url = "''https://x/s.gz''" and nearest = "\<lambda>_. resolve []" and os = "''linux''" and arch = "''x64''"]
  by (simp add: is_space_def resolve_def)

end
