(* ===== verification/Install.thy ===== *)
theory Install
  imports Busybox Checksum
begin

text \<open>
  \<^verbatim>\<open>src/remote/install.ts\<close>: making sure that the server is installed on the remote host. The flow is
  composed of the models of the probe, the bootstrap, the address, the checksum and the
  commands; the download (the theory \<open>Download\<close>), the hash function, the bundled file, the adapter
  and the callbacks are arguments, collected in a record. Logging, phases and progress are left
  out.
\<close>

record install_result =
  ir_installPath :: string
  ir_commit :: string
  ir_arch :: string
  ir_home :: string
  ir_alreadyInstalled :: bool
  ir_busyboxBootstrapped :: bool

record 'w install_env =
  ie_nonce :: bytes
  ie_os :: "string option"
  ie_onProbed :: "(string \<Rightarrow> string \<Rightarrow> ('w, unit) promise) option"
  ie_extensionPath :: string
  ie_readFile :: "string \<Rightarrow> bytes result"
  ie_fetch :: "'w fetcher"
  ie_nearest :: "string \<Rightarrow> ('w, string) promise"
  ie_adapterUrl :: "string \<Rightarrow> string \<Rightarrow> string \<Rightarrow> string \<Rightarrow> ('w, string \<times> url_type) promise"
  ie_download :: "string \<Rightarrow> ('w, bytes) promise"
  ie_computeHash :: "string \<Rightarrow> bytes \<Rightarrow> string"

definition install_path :: "product_info \<Rightarrow> string \<Rightarrow> string" where
  "install_path info home = home @ ''/'' @ serverDataFolderName info @ ''/bin/'' @ commit info"

section \<open>Verification of the tarball\<close>

definition mismatch_error :: "checksum_source \<Rightarrow> string \<Rightarrow> string \<Rightarrow> string \<Rightarrow> js_error" where
  "mismatch_error src a expected actual =
     plain_error (''Server tarball checksum mismatch ('' @ (case src of Sidecar \<Rightarrow> ''sidecar'' | Manifest \<Rightarrow> ''manifest'')
       @ '', '' @ a @ '').'' @ [CHR 0x0A] @ ''Expected: '' @ expected @ [CHR 0x0A] @ ''Actual:   '' @ actual @ [CHR 0x0A]
       @ ''Aborting installation. Disable zygos.serverDownload.verifyChecksum to bypass.'')"

definition no_checksum_error :: "string \<Rightarrow> js_error" where
  "no_checksum_error why =
     plain_error (''Server tarball checksum not available ('' @ why @ '') and ''
       @ ''zygos.serverDownload.onNoChecksum is set to \"abort\".'')"

definition judge_tarball :: "(string \<Rightarrow> bytes \<Rightarrow> string) \<Rightarrow> string \<Rightarrow> bytes \<Rightarrow> checksum_result \<Rightarrow> unit result" where
  "judge_tarball computeHash policy tarball c =
     (case c of
        Expected h a src \<Rightarrow>
          if verifyHash computeHash tarball h a then Inr () else Inl (mismatch_error src a h (computeHash a tarball))
      | NoChecksum why det \<Rightarrow> if policy = ''abort'' then Inl (no_checksum_error why) else Inr ())"

definition verify_tarball :: "'w install_env \<Rightarrow> product_info \<Rightarrow> string \<Rightarrow> string \<Rightarrow> bytes \<Rightarrow> ('w, unit) promise" where
  "verify_tarball E info url arch tarball =
     (if verifyChecksum info
      then await (fetchExpectedChecksum (ie_fetch E) (ie_nearest E) url info (nullish (ie_os E) ''linux'') arch)
             (\<lambda>c w. (judge_tarball (ie_computeHash E) (onNoChecksum info) tarball c, w))
      else resolve ())"

section \<open>Extraction\<close>

definition extraction_failed :: "exec_output \<Rightarrow> js_error" where
  "extraction_failed r = plain_error (''Tarball extraction failed (exit '' @ show_code (out_exitCode r) @ ''): ''
     @ or_else (out_stderr r) (out_stdout r))"

definition check_extraction :: "exec_output \<Rightarrow> ('w, unit) promise" where
  "check_extraction r = (if out_exitCode r \<noteq> Some 0 then reject (extraction_failed r) else resolve ())"

definition extract_file_command :: "string \<Rightarrow> string \<Rightarrow> string" where
  "extract_file_command installPath tmpTarball =
     ''mkdir -p '' @ shellQuote installPath @ '' && '' @ ''gzip -dc '' @ shellQuote tmpTarball @ '' | tar -xC ''
     @ shellQuote installPath @ '' --strip-components=1 && '' @ ''rm -f '' @ shellQuote tmpTarball"

definition extract_stream_command :: "string \<Rightarrow> string" where
  "extract_stream_command installPath =
     ''mkdir -p '' @ shellQuote installPath @ '' && '' @ ''gzip -d | tar -xC '' @ shellQuote installPath @ '' --strip-components=1''"

definition extract_tarball :: "'w conn \<Rightarrow> string \<Rightarrow> product_info \<Rightarrow> bytes \<Rightarrow> ('w, unit) promise" where
  "extract_tarball conn home info tarball =
     (let installPath = install_path info home
      in case c_unpack conn of
           Some unpack \<Rightarrow> await (unpack installPath 1 tarball) check_extraction
         | None \<Rightarrow>
             (case c_putFile conn of
                Some putFile \<Rightarrow>
                  (let tmpTarball = home @ ''/.ssh-remote/server-'' @ commit info @ ''.tar.gz''
                   in await (putFile tmpTarball tarball (Some ''0600'')) (\<lambda>_.
                      await (bbExec conn home (extract_file_command installPath tmpTarball)) check_extraction))
              | None \<Rightarrow>
                  await (bbExecWithStdin conn home (extract_stream_command installPath) tarball) check_extraction))"

section \<open>Patching\<close>

text \<open>\<^verbatim>\<open>/^[0-9a-f]+$/.test(commit)\<close>.\<close>

definition commit_id :: "string \<Rightarrow> bool" where
  "commit_id c = (c \<noteq> [] \<and> list_all (\<lambda>x. is_digit x \<or> 97 \<le> (of_char x :: nat) \<and> of_char x \<le> (102 :: nat)) c)"

definition patch_command :: "string \<Rightarrow> string \<Rightarrow> string" where
  "patch_command installPath c =
     (let q = [CHR 0x27]; bs = [CHR 0x5C]; json = shellQuote (installPath @ ''/product.json'');
          node = shellQuote (installPath @ ''/node'')
      in ''reh=$(sed -n '' @ q @ ''s/.*\"commit\": \"'' @ bs @ ''([0-9a-f]*'' @ bs @ '')\".*/'' @ bs @ ''1/p'' @ q @ '' '' @ json @ ''); ''
         @ ''if [ -n \"$reh\" ] && [ \"$reh\" != \"'' @ c @ ''\" ]; then ''
         @ ''sed -i '' @ q @ ''s/\"commit\": \"[0-9a-f]*\"/\"commit\": \"'' @ c @ ''\"/'' @ q @ '' '' @ json @ ''; ''
         @ ''fi; ''
         @ ''test -f '' @ node @ '' || { echo VERIFY_FAILED; ls -la '' @ shellQuote installPath @ ''; false; }'')"

definition patch_and_verify :: "'w conn \<Rightarrow> string \<Rightarrow> product_info \<Rightarrow> ('w, unit) promise" where
  "patch_and_verify conn home info =
     (let installPath = install_path info home
      in if \<not> commit_id (commit info) then reject (plain_error (''Invalid commit id: '' @ commit info))
         else await (bbExec conn home (patch_command installPath (commit info))) (\<lambda>r.
                if out_exitCode r \<noteq> Some 0
                then reject (plain_error (''Install verification failed: node binary not found at '' @ installPath @ ''/node. ''
                               @ ''Directory listing:'' @ [CHR 0x0A] @ out_stdout r))
                else resolve ()))"

section \<open>The whole flow\<close>

definition installed :: "product_info \<Rightarrow> remote_probe \<Rightarrow> bool \<Rightarrow> install_result" where
  "installed info probe already =
     \<lparr>ir_installPath = install_path info (probe_home probe), ir_commit = commit info, ir_arch = probe_arch probe,
      ir_home = probe_home probe, ir_alreadyInstalled = already, ir_busyboxBootstrapped = \<not> busyboxPresent probe\<rparr>"

definition install_server :: "'w install_env \<Rightarrow> 'w conn \<Rightarrow> product_info \<Rightarrow> remote_probe \<Rightarrow> ('w, unit) promise" where
  "install_server E conn info probe =
     await (buildServerDownloadUrl (ie_fetch E) (ie_nearest E) (ie_adapterUrl E) info (nullish (ie_os E) ''linux'') (probe_arch probe))
       (\<lambda>(url, t).
     await (ie_download E url) (\<lambda>tarball.
     await (verify_tarball E info url (probe_arch probe) tarball) (\<lambda>_.
     await (extract_tarball conn (probe_home probe) info tarball) (\<lambda>_.
       patch_and_verify conn (probe_home probe) info))))"

definition ensureServerInstalled :: "'w install_env \<Rightarrow> 'w conn \<Rightarrow> product_info \<Rightarrow> ('w, install_result) promise" where
  "ensureServerInstalled E conn info =
     await (probeRemote (ie_nonce E) conn (serverDataFolderName info) (commit info)) (\<lambda>probe.
     await (case ie_onProbed E of None \<Rightarrow> resolve () | Some f \<Rightarrow> f (probe_home probe) (probe_arch probe)) (\<lambda>_.
     await (if busyboxPresent probe then resolve ()
            else bootstrapBusybox (ie_readFile E) conn (probe_home probe) (probe_arch probe) (ie_extensionPath E)) (\<lambda>_.
       if installPresent probe then resolve (installed info probe True)
       else await (install_server E conn info probe) (\<lambda>_. resolve (installed info probe False)))))"

section \<open>Lemmas\<close>

text \<open>What comes between the probe and the installation: the caller's callback, which on the session
  path writes and starts the transport, and the bootstrap of busybox where it is missing.\<close>

definition prepare :: "'w install_env \<Rightarrow> 'w conn \<Rightarrow> remote_probe \<Rightarrow> ('w, unit) promise" where
  "prepare E conn probe =
     await (case ie_onProbed E of None \<Rightarrow> resolve () | Some f \<Rightarrow> f (probe_home probe) (probe_arch probe)) (\<lambda>_.
       if busyboxPresent probe then resolve ()
       else bootstrapBusybox (ie_readFile E) conn (probe_home probe) (probe_arch probe) (ie_extensionPath E))"

lemma install_prepares:
  "ensureServerInstalled E conn info =
     await (probeRemote (ie_nonce E) conn (serverDataFolderName info) (commit info)) (\<lambda>probe.
     await (prepare E conn probe) (\<lambda>_.
       if installPresent probe then resolve (installed info probe True)
       else await (install_server E conn info probe) (\<lambda>_. resolve (installed info probe False))))"
  unfolding ensureServerInstalled_def prepare_def await_assoc ..

text \<open>The first steps on a host without the server.\<close>

lemma reaches_install:
  assumes "probeRemote (ie_nonce E) conn (serverDataFolderName info) (commit info) w = (Inr probe, w0)"
    and "prepare E conn probe w0 = (Inr (), w1)" and "\<not> installPresent probe"
  shows "ensureServerInstalled E conn info w
       = await (install_server E conn info probe) (\<lambda>_. resolve (installed info probe False)) w1"
  using assms by (simp add: install_prepares await_def [of "probeRemote _ _ _ _"] await_def [of "prepare _ _ _"])

lemma reaches_verification:
  assumes "buildServerDownloadUrl (ie_fetch E) (ie_nearest E) (ie_adapterUrl E) info (nullish (ie_os E) ''linux'') (probe_arch probe) w1
           = (Inr (url, t), w2)"
    and "ie_download E url w2 = (Inr tarball, w3)"
  shows "await (install_server E conn info probe) k w1
       = await (verify_tarball E info url (probe_arch probe) tarball) (\<lambda>_.
         await (extract_tarball conn (probe_home probe) info tarball) (\<lambda>_.
         await (patch_and_verify conn (probe_home probe) info) k)) w3"
  unfolding install_server_def await_assoc
  using assms by (simp add: await_def [of "buildServerDownloadUrl _ _ _ _ _ _"] await_def [of "ie_download E url"] await_assoc)

section \<open>Properties\<close>


text \<open>A server that is already there is not downloaded again, but busybox is still bootstrapped
  when it is missing, since everything after the installation runs under it.\<close>

theorem already_installed_skips_download:
  assumes "probeRemote (ie_nonce E) conn (serverDataFolderName info) (commit info) w = (Inr probe, w1)"
    and "installPresent probe"
  shows "ensureServerInstalled E conn info w =
     (case prepare E conn probe w1 of
        (Inl e, w2) \<Rightarrow> (Inl e, w2)
      | (Inr _, w2) \<Rightarrow> (Inr (installed info probe True), w2))"
  using assms by (simp add: install_prepares await_def resolve_def split: prod.splits sum.splits)

text \<open>The check of the commit id comes last: a commit that is no hexadecimal text has by then been
  part of the probe script, which the remote shell expanded, and the tarball is already
  extracted when the installation fails.\<close>

theorem commit_checked_late:
  assumes "\<not> commit_id (commit info)"
    and "probeRemote (ie_nonce E) conn (serverDataFolderName info) (commit info) w = (Inr probe, w0)"
    and "prepare E conn probe w0 = (Inr (), w1)" and "\<not> installPresent probe"
    and "buildServerDownloadUrl (ie_fetch E) (ie_nearest E) (ie_adapterUrl E) info (nullish (ie_os E) ''linux'') (probe_arch probe) w1
           = (Inr (url, t), w2)"
    and "ie_download E url w2 = (Inr tarball, w3)"
    and "verify_tarball E info url (probe_arch probe) tarball w3 = (Inr (), w4)"
    and "extract_tarball conn (probe_home probe) info tarball w4 = (Inr (), w5)"
  shows "ensureServerInstalled E conn info w = (Inl (plain_error (''Invalid commit id: '' @ commit info)), w5)
       \<and> sublist (commit info) (probe_script (serverDataFolderName info) (commit info))"
proof
  show "ensureServerInstalled E conn info w = (Inl (plain_error (''Invalid commit id: '' @ commit info)), w5)"
    unfolding reaches_install [OF assms(2-4)] reaches_verification [OF assms(5,6)]
    using assms(1,7,8) by (simp add: await_def patch_and_verify_def reject_def Let_def)
  show "sublist (commit info) (probe_script (serverDataFolderName info) (commit info))"
    unfolding probe_script_def dquoted_def
    by (rule sublist_left, rule sublist_left, rule sublist_left, 
        rule sublist_left, rule sublist_left, rule sublist_left, rule sublist_right, rule sublist_left, rule sublist_right,
        rule sublist_left, rule sublist_left, rule sublist_left, rule sublist_right, rule sublist_order.order_refl)
qed

text \<open>A host and a download for concrete runs.\<close>

definition sample_env :: "unit install_env" where
  "sample_env = \<lparr>ie_nonce = [], ie_os = None, ie_onProbed = Some (\<lambda>_ _. resolve ()), ie_extensionPath = ''/ext'', ie_readFile = (\<lambda>_. Inr []),
     ie_fetch = (\<lambda>_. resolve \<lparr>http_status = 200, http_body = ''ab''\<rparr>), ie_nearest = (\<lambda>_. resolve []),
     ie_adapterUrl = (\<lambda>_ _ _ _. resolve (''https://x/s.gz'', Auto)), ie_download = (\<lambda>_. resolve [1, 2]),
     ie_computeHash = (\<lambda>_ _. ''cd'')\<rparr>"

definition sample_conn :: "string \<Rightarrow> unit conn" where
  "sample_conn present = fixed_conn (printed (noise_lines [''ZYPROBE-'', ''/root'', ''x86_64'', ''yes'', present]))"

lemma sample_probe:
  "present \<in> {''yes'', ''no''} \<Longrightarrow>
   probeRemote [] (sample_conn present) folder c () =
     (Inr \<lparr>probe_home = ''/root'', probe_arch = ''x64'', busyboxPresent = True, installPresent = (present = ''yes'')\<rparr>, ())"
proof -
  assume p: "present \<in> {''yes'', ''no''}"
  have t: "trim ''/root'' = ''/root''" "trim ''yes'' = ''yes''" "trim ''no'' = ''no''" "trim ''x86_64'' = ''x86_64''"
    by (simp_all add: trim_trimmed trimmed_def is_space_def)
  have "parse_probe ''ZYPROBE-'' (noise_lines [''ZYPROBE-'', ''/root'', ''x86_64'', ''yes'', present]) =
     Inr \<lparr>probe_home = ''/root'', probe_arch = ''x64'', busyboxPresent = True, installPresent = (present = ''yes'')\<rparr>"
    using probe_ignores_noise_lemma [of "[]" "''ZYPROBE-''" "''ZYPROBE-''" "''/root''" "''x86_64''" "''yes''" present "[]"] p
    by (auto simp: strip_cr_def normalizeArch_def t noise_lines_def [of "[]"])
  then show ?thesis
    by (simp add: probeRemote_def probe_marker_def hex_encode_def sample_conn_def fixed_conn_def printed_def await_def resolve_def)
qed


theorem already_installed_skips_download_witness:
  "ensureServerInstalled sample_env (sample_conn ''yes'') sample_info ()
   = (Inr (installed sample_info \<lparr>probe_home = ''/root'', probe_arch = ''x64'', busyboxPresent = True, installPresent = True\<rparr> True), ())"
  using already_installed_skips_download [where E = sample_env and conn = "sample_conn ''yes''" and info = sample_info and w = "()" and ?w1.0 = "()"
      and probe = "\<lparr>probe_home = ''/root'', probe_arch = ''x64'', busyboxPresent = True, installPresent = True\<rparr>"]
  by (simp add: sample_env_def sample_probe prepare_def await_def resolve_def)

theorem commit_checked_late_witness:
  "ensureServerInstalled sample_env (sample_conn ''no'')
     (sample_info\<lparr>serverDownloadUrlTemplate := None, verifyChecksum := False, commit := ''$(id)''\<rparr>) ()
   = (Inl (plain_error ''Invalid commit id: $(id)''), ())"
proof -
  let ?info = "sample_info\<lparr>serverDownloadUrlTemplate := None, verifyChecksum := False, commit := ''$(id)''\<rparr>"
  have ex: "extract_tarball (sample_conn ''no'') ''/root'' ?info [1, 2] () = (Inr (), ())"
    by (simp add: extract_tarball_def sample_conn_def fixed_conn_def printed_def bbExecWithStdin_def check_extraction_def
        await_def resolve_def Let_def)
  show ?thesis
    using commit_checked_late [where E = sample_env and conn = "sample_conn ''no''" and info = ?info and w = "()" and url = "''https://x/s.gz''"
        and t = Auto and tarball = "[1, 2]" and ?w0.0 = "()" and ?w1.0 = "()" and ?w2.0 = "()" and ?w3.0 = "()" and ?w4.0 = "()" and ?w5.0 = "()"
        and probe = "\<lparr>probe_home = ''/root'', probe_arch = ''x64'', busyboxPresent = True, installPresent = False\<rparr>"]
    by (simp add: sample_env_def sample_probe buildServerDownloadUrl_def verify_tarball_def commit_id_def is_digit_def ex resolve_def prepare_def await_def)
qed

end
