(* ===== verification/Lifecycle.thy ===== *)
theory Lifecycle
  imports Busybox
begin

text \<open>
  \<^verbatim>\<open>src/remote/lifecycle.ts\<close>: finding, reusing and replacing the server that an earlier
  connection left behind, under a lock on the remote host. The module is shell scripts and the
  reading of their one-line output, so both are modelled: the scripts as the texts the code
  composes, and, as \<open>run_probe\<close>, \<open>run_lock_probe\<close> and \<open>run_finalize\<close>, what a POSIX shell does with
  them to the pid, port and lock files and to the processes. Which ports answer and what
  \<^verbatim>\<open>pgrep\<close> prints are arguments. The locking of several clients is a step relation, one step
  for each command of the script.
\<close>

section \<open>The remote host\<close>

text \<open>The files below the install path, the age of the lock directory in minutes, and the
  processes that can be signalled.\<close>

record rhost =
  pid_file :: "string option"
  port_file :: "string option"
  lock_age :: "nat option"
  running :: "nat set"

definition LOCK_STALE_AGE_SEC :: nat where "LOCK_STALE_AGE_SEC = 1800"

definition staleMin :: nat where "staleMin = LOCK_STALE_AGE_SEC div 60"

definition pid_path :: "string \<Rightarrow> string" where "pid_path installPath = installPath @ ''/.server.pid''"
definition port_path :: "string \<Rightarrow> string" where "port_path installPath = installPath @ ''/.server.port''"
definition lock_path :: "string \<Rightarrow> string" where "lock_path installPath = installPath @ ''/.resolve-lock''"

definition rm_files :: "string \<Rightarrow> string" where
  "rm_files installPath = ''rm -f '' @ shellQuote (pid_path installPath) @ '' '' @ shellQuote (port_path installPath)"

section \<open>The zombie probe\<close>

text \<open>The two scripts of the module that probe a server differ in the tag of what they print.\<close>

definition probe_lines :: "string \<Rightarrow> string \<Rightarrow> string list" where
  "probe_lines tag installPath =
     [''pid=$(cat '' @ shellQuote (pid_path installPath) @ '' 2>/dev/null)'',
      ''if [ -z \"$pid\" ]; then echo \"'' @ tag @ ''EMPTY\"; exit 0; fi'',
      ''case \"$pid\" in *[!0-9]*) '' @ rm_files installPath @ ''; echo \"'' @ tag @ ''INVALID\"; exit 0;; esac'',
      ''if ! kill -0 \"$pid\" 2>/dev/null; then '' @ rm_files installPath @ ''; echo \"'' @ tag @ ''DEAD:$pid\"; exit 0; fi'',
      ''port=$(cat '' @ shellQuote (port_path installPath) @ '' 2>/dev/null)'',
      ''if [ -n \"$port\" ]; then'',
      ''  if curl -s -f -o /dev/null http://127.0.0.1:$port/version 2>/dev/null || wget -q -O /dev/null http://127.0.0.1:$port/version 2>/dev/null || (echo > /dev/tcp/127.0.0.1/$port) 2>/dev/null; then'',
      ''    echo \"'' @ tag @ ''REUSE:$port\"; exit 0'',
      ''  fi'',
      ''fi'',
      ''kill $pid 2>/dev/null; sleep 1; kill -9 $pid 2>/dev/null'',
      rm_files installPath,
      ''strays=\"$(pgrep -f '' @ shellQuote installPath @ '' 2>/dev/null)\"'',
      ''for p in $strays; do [ \"$p\" != \"$pid\" ] && kill -9 $p 2>/dev/null; done'',
      ''echo \"'' @ tag @ ''ZOMBIE:$pid:$strays\"'']"

text \<open>\<^verbatim>\<open>$(cat f)\<close>: trailing newlines go. A shell that kills itself prints nothing any more.\<close>

definition chomp :: "string \<Rightarrow> string" where
  "chomp s = rev (dropWhile (\<lambda>c. c = CHR 0x0A) (rev s))"

fun kill_strays :: "nat \<Rightarrow> string \<Rightarrow> nat list \<Rightarrow> nat set \<Rightarrow> bool \<times> nat set" where
  "kill_strays self pid [] alive = (True, alive)"
| "kill_strays self pid (p # ps) alive =
     (if dec p = pid then kill_strays self pid ps alive
      else if p = self then (False, alive - {p})
      else kill_strays self pid ps (alive - {p}))"

definition run_probe ::
    "string \<Rightarrow> (string \<Rightarrow> bool) \<Rightarrow> nat list \<Rightarrow> nat \<Rightarrow> rhost \<Rightarrow> string \<times> rhost" where
  "run_probe tag answers matching self h =
     (let pid = chomp (nullish (pid_file h) []);
          port = chomp (nullish (port_file h) []);
          cleaned = h\<lparr>pid_file := None, port_file := None\<rparr>
      in if pid = [] then (tag @ ''EMPTY'' @ [CHR 0x0A], h)
         else if \<not> list_all is_digit pid then (tag @ ''INVALID'' @ [CHR 0x0A], cleaned)
         else if nat_of_digits pid \<notin> running h then (tag @ ''DEAD:'' @ pid @ [CHR 0x0A], cleaned)
         else if port \<noteq> [] \<and> answers port then (tag @ ''REUSE:'' @ port @ [CHR 0x0A], h)
         else let (finished, alive) = kill_strays self pid matching (running h - {nat_of_digits pid});
                  strays = js_join [CHR 0x0A] (map dec matching)
              in (if finished then tag @ ''ZOMBIE:'' @ pid @ '':'' @ strays @ [CHR 0x0A] else [],
                  cleaned\<lparr>running := alive\<rparr>))"

record zombie_result =
  z_reusePort :: "int option"
  z_log :: string

definition zlog :: "string \<Rightarrow> zombie_result" where
  "zlog l = \<lparr>z_reusePort = None, z_log = l\<rparr>"

text \<open>What both readers make of the text behind \<^verbatim>\<open>ZOMBIE:\<close>.\<close>

definition stray_message :: "int \<Rightarrow> string option \<Rightarrow> string" where
  "stray_message pid straysRaw =
     (let strays = filter (\<lambda>s. s \<noteq> [] \<and> s \<noteq> dec_int pid \<and> all_digits s)
                     (map trim (js_split (CHR 0x0A) (nullish straysRaw [])))
      in if 0 < length strays then '', killed strays '' @ js_join '', '' strays else [])"

definition second_field :: "string list \<Rightarrow> string option" where
  "second_field parts = (case parts of _ # b # _ \<Rightarrow> Some b | _ \<Rightarrow> None)"

definition parse_zombie :: "string \<Rightarrow> zombie_result" where
  "parse_zombie out =
     (if out = ''EMPTY'' then zlog ''no existing PID file, clean start''
      else if out = ''INVALID'' then zlog ''invalid PID file content, cleaned up''
      else if prefix ''DEAD:'' out then
        (case parse_int (drop 5 out) of
           None \<Rightarrow> zlog ''invalid PID file content, cleaned up''
         | Some pid \<Rightarrow> zlog (''PID '' @ dec_int pid @ '' is dead, cleaned up files''))
      else if prefix ''REUSE:'' out then
        (case parse_int (drop 6 out) of
           None \<Rightarrow> zlog ''could not parse REUSE port, starting fresh''
         | Some port \<Rightarrow> \<lparr>z_reusePort = Some port,
                          z_log = ''server alive on port '' @ dec_int port @ '', reusing''\<rparr>)
      else if prefix ''ZOMBIE:'' out then
        (let parts = js_split (CHR '':'') (drop 7 out)
         in case parse_int (hd parts) of
              None \<Rightarrow> zlog ''could not parse ZOMBIE pid, cleaned up''
            | Some pid \<Rightarrow> zlog (''killed zombie PID '' @ dec_int pid
                               @ stray_message pid (second_field parts) @ '', cleanup complete''))
      else zlog (''unexpected cleanup output: '' @ out))"

definition cleanupZombieServer :: "'w conn \<Rightarrow> string \<Rightarrow> string \<Rightarrow> ('w, zombie_result) promise" where
  "cleanupZombieServer conn home installPath =
     await (bbExec conn home (js_join [CHR 0x0A] (probe_lines [] installPath)))
       (\<lambda>result. resolve (parse_zombie (trim (out_stdout result))))"

section \<open>The native transport\<close>

text \<open>The operations of \<^verbatim>\<open>ZygosTransport\<close> that this module uses, with their typed replies.\<close>

record server_status =
  s_pid :: "nat option"
  s_alive :: bool
  s_reusePort :: "nat option"

record server_cleanup =
  killedPid :: "nat option"
  killedStrays :: "nat list"

record 'w ztransport =
  z_lock :: "string \<Rightarrow> nat \<Rightarrow> ('w, bool) promise"
  z_unlock :: "string \<Rightarrow> ('w, unit) promise"
  z_serverStatus :: "string \<Rightarrow> ('w, server_status) promise"
  z_serverCleanup :: "string \<Rightarrow> ('w, server_cleanup) promise"
  z_serverFinalize :: "string \<Rightarrow> nat \<Rightarrow> bool \<Rightarrow> ('w, nat option) promise"
  z_rm :: "string \<Rightarrow> ('w, unit) promise"

text \<open>A number is truthy unless it is 0.\<close>

definition nonzero :: "nat option \<Rightarrow> bool" where
  "nonzero x = (case x of None \<Rightarrow> False | Some n \<Rightarrow> n \<noteq> 0)"

definition show_nat_option :: "nat option \<Rightarrow> string" where
  "show_nat_option x = (case x of None \<Rightarrow> ''undefined'' | Some n \<Rightarrow> dec n)"

section \<open>Locking and probing in one call\<close>

record lock_probe_result =
  lp_locked :: bool
  lp_reusePort :: "int option"
  lp_log :: string

definition acquired_log :: "string \<Rightarrow> lock_probe_result" where
  "acquired_log l = \<lparr>lp_locked = True, lp_reusePort = None, lp_log = ''acquired resolve lock, '' @ l\<rparr>"

definition NOT_ACQUIRED :: lock_probe_result where
  "NOT_ACQUIRED = \<lparr>lp_locked = False, lp_reusePort = None,
                   lp_log = ''could not acquire resolve lock - another resolve may be running''\<rparr>"

definition lock_lines :: "string \<Rightarrow> string list" where
  "lock_lines installPath =
     [''# Acquire lock'',
      ''if mkdir '' @ shellQuote (lock_path installPath) @ '' 2>/dev/null; then :; else'',
      ''  if find '' @ shellQuote (lock_path installPath) @ '' -type d -mmin +'' @ dec staleMin @ '' 2>/dev/null | grep -q .; then'',
      ''    rm -rf '' @ shellQuote (lock_path installPath) @ '' && mkdir '' @ shellQuote (lock_path installPath)
        @ '' || { echo LOCKFAIL; exit 0; }'',
      ''  else'',
      ''    echo LOCKFAIL; exit 0'',
      ''  fi'',
      ''fi'',
      ''# Lock acquired. Probe zombie.'']"

definition lock_probe_script :: "string \<Rightarrow> string" where
  "lock_probe_script installPath = js_join [CHR 0x0A] (lock_lines installPath @ probe_lines ''LOCKED:'' installPath)"

definition lock_free :: "rhost \<Rightarrow> bool" where
  "lock_free h = (case lock_age h of None \<Rightarrow> True | Some minutes \<Rightarrow> staleMin < minutes)"

definition run_lock_probe ::
    "(string \<Rightarrow> bool) \<Rightarrow> nat list \<Rightarrow> nat \<Rightarrow> rhost \<Rightarrow> string \<times> rhost" where
  "run_lock_probe answers matching self h =
     (if lock_free h then run_probe ''LOCKED:'' answers matching self (h\<lparr>lock_age := Some 0\<rparr>)
      else (''LOCKFAIL'' @ [CHR 0x0A], h))"

definition parse_lock_probe :: "string \<Rightarrow> lock_probe_result" where
  "parse_lock_probe out =
     (if out = ''LOCKFAIL'' then NOT_ACQUIRED
      else if \<not> prefix ''LOCKED:'' out
      then \<lparr>lp_locked = True, lp_reusePort = None, lp_log = ''unexpected lock+probe output: '' @ out\<rparr>
      else let rest = drop 7 out in
        if rest = ''EMPTY'' then acquired_log ''no existing PID file''
        else if rest = ''INVALID'' then acquired_log ''invalid PID file cleaned up''
        else if prefix ''DEAD:'' rest then
          (case parse_int (drop 5 rest) of
             None \<Rightarrow> acquired_log ''invalid PID file cleaned up''
           | Some pid \<Rightarrow> acquired_log (''PID '' @ dec_int pid @ '' is dead, cleaned up files''))
        else if prefix ''REUSE:'' rest then
          (case parse_int (drop 6 rest) of
             None \<Rightarrow> acquired_log ''could not parse REUSE port''
           | Some port \<Rightarrow> (acquired_log (''server alive on port '' @ dec_int port @ '', reusing''))\<lparr>lp_reusePort := Some port\<rparr>)
        else if prefix ''ZOMBIE:'' rest then
          (let parts = js_split (CHR '':'') (drop 7 rest)
           in case parse_int (hd parts) of
                None \<Rightarrow> acquired_log ''could not parse ZOMBIE pid''
              | Some pid \<Rightarrow> acquired_log (''killed zombie PID '' @ dec_int pid
                                 @ stray_message pid (second_field parts) @ '', cleanup complete''))
        else acquired_log (''unexpected probe output: '' @ rest))"

definition lock_via_transport :: "'w ztransport \<Rightarrow> string \<Rightarrow> ('w, lock_probe_result) promise" where
  "lock_via_transport transport installPath =
     await (z_lock transport (lock_path installPath) LOCK_STALE_AGE_SEC) (\<lambda>acquired.
       if \<not> acquired then resolve NOT_ACQUIRED
       else await (z_serverStatus transport installPath) (\<lambda>status.
         if nonzero (s_reusePort status) then
           resolve ((acquired_log (''server alive on port '' @ show_nat_option (s_reusePort status) @ '', reusing''))
                      \<lparr>lp_reusePort := map_option int (s_reusePort status)\<rparr>)
         else if \<not> nonzero (s_pid status) then resolve (acquired_log ''no existing PID file'')
         else if \<not> s_alive status then
           await (z_serverCleanup transport installPath) (\<lambda>_.
             resolve (acquired_log (''PID '' @ show_nat_option (s_pid status) @ '' is dead, cleaned up files'')))
         else await (z_serverCleanup transport installPath) (\<lambda>cleanup.
           resolve (acquired_log (''killed zombie PID '' @ show_nat_option (killedPid cleanup)
             @ (if 0 < length (killedStrays cleanup) then '', killed strays '' @ js_join '', '' (map dec (killedStrays cleanup)) else [])
             @ '', cleanup complete'')))))"

definition acquireLockAndProbeZombie ::
    "'w conn \<Rightarrow> string \<Rightarrow> string \<Rightarrow> 'w ztransport option \<Rightarrow> ('w, lock_probe_result) promise" where
  "acquireLockAndProbeZombie conn home installPath transport =
     (case transport of
        Some t \<Rightarrow> lock_via_transport t installPath
      | None \<Rightarrow>
          await (bbExec conn home (lock_probe_script installPath))
            (\<lambda>result. resolve (parse_lock_probe (trim (out_stdout result)))))"

section \<open>Recording and forgetting a server\<close>

record finalize_result =
  f_pid :: "nat option"
  f_log :: string

text \<open>\<^verbatim>\<open>output.match(/PID=(\d+)/)\<close>: the digits behind the first \<^verbatim>\<open>PID=\<close> that has any.\<close>

fun match_pid :: "string \<Rightarrow> string option" where
  "match_pid [] = None"
| "match_pid (c # s) =
     (let ds = takeWhile is_digit (drop 3 s)
      in if prefix ''PID='' (c # s) \<and> ds \<noteq> [] then Some ds else match_pid s)"

definition server_main :: "string \<Rightarrow> string" where "server_main installPath = installPath @ ''/out/server-main.js''"
definition node_path :: "string \<Rightarrow> string" where "node_path installPath = installPath @ ''/node''"

definition finalize_script :: "string \<Rightarrow> nat \<Rightarrow> bool \<Rightarrow> string" where
  "finalize_script installPath port releaseLock = js_join [CHR 0x0A]
     ([''pid=$(pgrep -f -o '' @ shellQuote (server_main installPath) @ '' 2>/dev/null)'',
       ''if [ -z \"$pid\" ]; then pid=$(pgrep -f -o '' @ shellQuote (node_path installPath) @ '' 2>/dev/null); fi'',
       ''if [ -n \"$pid\" ]; then echo $pid > '' @ shellQuote (pid_path installPath) @ '' && echo '' @ dec port @ '' > ''
         @ shellQuote (port_path installPath) @ ''; fi'']
      @ (if releaseLock then [''rm -rf '' @ shellQuote (lock_path installPath)] else [])
      @ [''echo \"PID=$pid\"''])"

definition finalized :: "nat \<Rightarrow> nat \<Rightarrow> bool \<Rightarrow> finalize_result" where
  "finalized pid port releaseLock =
     \<lparr>f_pid = Some pid, f_log = ''wrote PID='' @ dec pid @ '' port='' @ dec port
        @ (if releaseLock then '', released resolve lock'' else [])\<rparr>"

definition not_finalized :: "string \<Rightarrow> bool \<Rightarrow> finalize_result" where
  "not_finalized how releaseLock =
     \<lparr>f_pid = None, f_log = ''no remote server PID found'' @ how
        @ (if releaseLock then '', released resolve lock'' else [])\<rparr>"

definition finalizeServerStart ::
    "'w conn \<Rightarrow> string \<Rightarrow> string \<Rightarrow> nat \<Rightarrow> bool \<Rightarrow> 'w ztransport option \<Rightarrow> ('w, finalize_result) promise" where
  "finalizeServerStart conn home installPath port releaseLock transport =
     (case transport of
        Some t \<Rightarrow>
          await (z_serverFinalize t installPath port releaseLock)
            (\<lambda>pid. resolve (case pid of
                       None \<Rightarrow> not_finalized [] releaseLock
                     | Some n \<Rightarrow> if n \<noteq> 0 then finalized n port releaseLock else not_finalized [] releaseLock))
      | None \<Rightarrow>
          await (bbExec conn home (finalize_script installPath port releaseLock))
            (\<lambda>result. resolve (case match_pid (out_stdout result) of
                       Some ds \<Rightarrow> finalized (nat_of_digits ds) port releaseLock
                     | None \<Rightarrow> not_finalized '' via pgrep'' releaseLock)))"

text \<open>\<open>pgrep\<close> prints the oldest process whose command line matches the pattern, if there is one.\<close>

definition run_finalize ::
    "(string \<Rightarrow> nat option) \<Rightarrow> string \<Rightarrow> nat \<Rightarrow> bool \<Rightarrow> rhost \<Rightarrow> string \<times> rhost" where
  "run_finalize pgrep installPath port releaseLock h =
     (let found = (case pgrep (server_main installPath) of
                     None \<Rightarrow> pgrep (node_path installPath)
                   | Some pid \<Rightarrow> Some pid);
          h1 = (case found of
                  None \<Rightarrow> h
                | Some pid \<Rightarrow> h\<lparr>pid_file := Some (dec pid @ [CHR 0x0A]), port_file := Some (dec port @ [CHR 0x0A])\<rparr>);
          h2 = (if releaseLock then h1\<lparr>lock_age := None\<rparr> else h1)
      in (''PID='' @ (case found of None \<Rightarrow> [] | Some pid \<Rightarrow> dec pid) @ [CHR 0x0A], h2))"

definition writeServerMetadata :: "'w conn \<Rightarrow> string \<Rightarrow> string \<Rightarrow> nat \<Rightarrow> nat \<Rightarrow> ('w, unit) promise" where
  "writeServerMetadata conn home installPath pid port =
     await (bbExec conn home (''echo '' @ dec pid @ '' > '' @ shellQuote (pid_path installPath)
              @ '' && echo '' @ dec port @ '' > '' @ shellQuote (port_path installPath)))
       (\<lambda>result. resolve ())"

definition removeServerMetadata ::
    "'w conn \<Rightarrow> string \<Rightarrow> string \<Rightarrow> 'w ztransport option \<Rightarrow> ('w, unit) promise" where
  "removeServerMetadata conn home installPath transport =
     (case transport of
        Some t \<Rightarrow> await (z_rm t (pid_path installPath)) (\<lambda>_. z_rm t (port_path installPath))
      | None \<Rightarrow> await (bbExec conn home (rm_files installPath)) (\<lambda>result. resolve ()))"

definition mkdir_command :: "string \<Rightarrow> string" where
  "mkdir_command installPath = ''mkdir '' @ shellQuote (lock_path installPath) @ '' 2>/dev/null && echo ok || echo fail''"

definition reclaim_command :: "string \<Rightarrow> string" where
  "reclaim_command installPath =
     ''if find '' @ shellQuote (lock_path installPath) @ '' -type d -mmin +'' @ dec staleMin
     @ '' 2>/dev/null | grep -q .; then rm -rf '' @ shellQuote (lock_path installPath) @ '' && mkdir ''
     @ shellQuote (lock_path installPath) @ '' && echo OK; fi''"

definition acquireResolveLock :: "'w conn \<Rightarrow> string \<Rightarrow> string \<Rightarrow> ('w, bool) promise" where
  "acquireResolveLock conn home installPath =
     await (bbExec conn home (mkdir_command installPath)) (\<lambda>r.
       if trim (out_stdout r) = ''ok'' then resolve True
       else await (bbExec conn home (reclaim_command installPath))
              (\<lambda>reclaim. resolve (trim (out_stdout reclaim) = ''OK'')))"

definition releaseResolveLock ::
    "'w conn \<Rightarrow> string \<Rightarrow> string \<Rightarrow> 'w ztransport option \<Rightarrow> ('w, unit) promise" where
  "releaseResolveLock conn home installPath transport =
     (case transport of
        Some t \<Rightarrow> z_unlock t (lock_path installPath)
      | None \<Rightarrow> await (bbExec conn home (''rm -rf '' @ shellQuote (lock_path installPath))) (\<lambda>result. resolve ()))"

text \<open>\<^verbatim>\<open>pgrep\<close> found nothing: it failed, or printed only blanks.\<close>

definition no_pid :: "exec_output \<Rightarrow> bool" where
  "no_pid result = (out_exitCode result \<noteq> Some 0 \<or> trim (out_stdout result) = [])"

definition first_pid :: "string \<Rightarrow> int option" where
  "first_pid stdout =
     (case find (\<lambda>s. s \<noteq> []) (map trim (js_split (CHR 0x0A) (trim stdout))) of
        None \<Rightarrow> None
      | Some s \<Rightarrow> parse_int s)"

definition pgrep_command :: "string \<Rightarrow> string" where
  "pgrep_command pattern = ''pgrep -f -o '' @ shellQuote pattern @ '' 2>/dev/null''"

definition probeServerPid :: "'w conn \<Rightarrow> string \<Rightarrow> string \<Rightarrow> ('w, int option) promise" where
  "probeServerPid conn home installPath =
     await (bbExec conn home (pgrep_command (server_main installPath))) (\<lambda>r1.
       await (if no_pid r1 then bbExec conn home (pgrep_command (node_path installPath)) else resolve r1)
         (\<lambda>result. resolve (if no_pid result then None else first_pid (out_stdout result))))"

section \<open>Reading what the scripts print\<close>

lemma trim_line: "trimmed s \<Longrightarrow> trim (s @ [CHR 0x0A]) = s"
  using trim_snoc_space [of "CHR 0x0A" s] by (simp add: trim_trimmed is_space_def)

lemma join_dec_last: "ns \<noteq> [] \<Longrightarrow> js_join sep (map dec ns) \<noteq> [] \<and> \<not> is_space (last (js_join sep (map dec ns)))"
proof (induction ns)
  case (Cons n ns)
  then show ?case by (cases "ns = []") (auto simp: js_join_cons)
qed simp

lemma digits_no_char: "all_digits s \<Longrightarrow> \<not> is_digit c \<Longrightarrow> c \<notin> set s"
  by (auto simp: all_digits_def list_all_iff)

lemma chomp_dec [simp]: "chomp (dec n @ [CHR 0x0A]) = dec n"
proof -
  have "last (dec n) \<noteq> CHR 0x0A" using dec_last [of n] by (auto simp: is_space_def)
  then have "dropWhile (\<lambda>c. c = CHR 0x0A) (rev (dec n)) = rev (dec n)"
    by (cases "dec n" rule: rev_cases) auto
  then show ?thesis by (simp add: chomp_def)
qed

lemma chomp_Nil [simp]: "chomp [] = []"
  by (simp add: chomp_def)

text \<open>The server that a probe finds: a numeric pid of a live process, and a port that answers.\<close>

definition pid_text :: "rhost \<Rightarrow> string" where "pid_text h = chomp (nullish (pid_file h) [])"
definition port_text :: "rhost \<Rightarrow> string" where "port_text h = chomp (nullish (port_file h) [])"

definition server_pid_alive :: "rhost \<Rightarrow> bool" where
  "server_pid_alive h = (all_digits (pid_text h) \<and> nat_of_digits (pid_text h) \<in> running h)"

definition server_healthy :: "(string \<Rightarrow> bool) \<Rightarrow> rhost \<Rightarrow> bool" where
  "server_healthy answers h = (server_pid_alive h \<and> port_text h \<noteq> [] \<and> answers (port_text h))"

lemma run_probe_cases:
  obtains (empty) "\<not> server_pid_alive h" "run_probe tag answers matching self h = (tag @ ''EMPTY'' @ [CHR 0x0A], h)"
  | (invalid) "\<not> server_pid_alive h" "fst (run_probe tag answers matching self h) = tag @ ''INVALID'' @ [CHR 0x0A]"
  | (dead) "\<not> server_pid_alive h" "all_digits (pid_text h)"
      "fst (run_probe tag answers matching self h) = tag @ ''DEAD:'' @ pid_text h @ [CHR 0x0A]"
  | (reuse) "server_healthy answers h"
      "run_probe tag answers matching self h = (tag @ ''REUSE:'' @ port_text h @ [CHR 0x0A], h)"
  | (zombie) "\<not> server_healthy answers h" "all_digits (pid_text h)"
      "fst (run_probe tag answers matching self h)
        = tag @ ''ZOMBIE:'' @ pid_text h @ '':'' @ js_join [CHR 0x0A] (map dec matching) @ [CHR 0x0A]"
  | (suicide) "\<not> server_healthy answers h" "fst (run_probe tag answers matching self h) = []"
proof -
  let ?r = "run_probe tag answers matching self h"
  let ?pid = "pid_text h"
  let ?k = "kill_strays self ?pid matching (running h - {nat_of_digits ?pid})"
  consider (E) "?pid = []" | (I) "?pid \<noteq> []" "\<not> list_all is_digit ?pid"
    | (D) "all_digits ?pid" "nat_of_digits ?pid \<notin> running h"
    | (R) "server_healthy answers h"
    | (Z) "server_pid_alive h" "\<not> server_healthy answers h"
    by (auto simp: all_digits_def server_pid_alive_def)
  then show thesis
  proof cases
    case E
    then show thesis by (intro empty) (simp_all add: run_probe_def pid_text_def server_pid_alive_def all_digits_def)
  next
    case I
    then show thesis
      by (intro invalid) (simp_all add: run_probe_def pid_text_def server_pid_alive_def all_digits_def Let_def)
  next
    case D
    then show thesis
      by (intro dead) (simp_all add: run_probe_def pid_text_def server_pid_alive_def all_digits_def Let_def)
  next
    case R
    then have "?r = (tag @ ''REUSE:'' @ port_text h @ [CHR 0x0A], h)"
      by (simp add: run_probe_def pid_text_def port_text_def server_healthy_def server_pid_alive_def all_digits_def Let_def)
    with R show thesis by (rule reuse)
  next
    case Z
    then have "fst ?r = (if fst ?k then tag @ ''ZOMBIE:'' @ ?pid @ '':'' @ js_join [CHR 0x0A] (map dec matching) @ [CHR 0x0A] else [])"
      unfolding run_probe_def Let_def
      by (simp add: pid_text_def port_text_def server_healthy_def server_pid_alive_def all_digits_def case_prod_beta)
    with Z show thesis by (cases "fst ?k") (auto simp: server_pid_alive_def intro: zombie suicide)
  qed
qed

lemma parse_dead:
  "all_digits pid \<Longrightarrow> \<exists>l. parse_lock_probe (trim (''LOCKED:DEAD:'' @ pid @ [CHR 0x0A])) = acquired_log l"
  using trim_line [of "''LOCKED:DEAD:'' @ pid"] all_digits_last [of pid] parse_int_all_digits [of pid]
  by (auto simp: trimmed_def is_space_def parse_lock_probe_def Let_def)

lemma parse_reuse:
  "parse_lock_probe (trim (''LOCKED:REUSE:'' @ dec port @ [CHR 0x0A]))
   = (acquired_log (''server alive on port '' @ dec port @ '', reusing''))\<lparr>lp_reusePort := Some (int port)\<rparr>"
  using trim_line [of "''LOCKED:REUSE:'' @ dec port"] dec_last [of port]
  by (simp add: trimmed_def is_space_def parse_lock_probe_def dec_int_def Let_def)

lemma parse_zombie_line:
  assumes "all_digits pid"
  shows "\<exists>l. parse_lock_probe (trim (''LOCKED:ZOMBIE:'' @ pid @ '':'' @ js_join [CHR 0x0A] (map dec ns) @ [CHR 0x0A])) = acquired_log l"
proof -
  let ?s = "''LOCKED:ZOMBIE:'' @ pid @ '':'' @ js_join [CHR 0x0A] (map dec ns)"
  have "trimmed ?s"
    using join_dec_last [of ns "[CHR 0x0A]"] by (cases "ns = []") (auto simp: trimmed_def is_space_def)
  then have "trim (?s @ [CHR 0x0A]) = ?s" by (rule trim_line)
  moreover have "js_split (CHR '':'') (pid @ '':'' @ js_join [CHR 0x0A] (map dec ns)) = pid # js_split (CHR '':'') (js_join [CHR 0x0A] (map dec ns))"
    using js_split_cons [of "CHR '':''" pid] digits_no_char [OF assms, of "CHR '':''"] by (simp add: is_digit_def)
  ultimately show ?thesis
    using parse_int_all_digits [OF assms] by (auto simp: parse_lock_probe_def Let_def)
qed

lemma parse_fixed:
  "parse_lock_probe (trim (''LOCKED:EMPTY'' @ [CHR 0x0A])) = acquired_log ''no existing PID file''"
  "parse_lock_probe (trim (''LOCKED:INVALID'' @ [CHR 0x0A])) = acquired_log ''invalid PID file cleaned up''"
  "parse_lock_probe (trim (''LOCKFAIL'' @ [CHR 0x0A])) = NOT_ACQUIRED"
  using trim_line [of "''LOCKED:EMPTY''"] trim_line [of "''LOCKED:INVALID''"] trim_line [of "''LOCKFAIL''"]
  by (simp_all add: trimmed_def is_space_def parse_lock_probe_def Let_def)

lemma probe_understood:
  assumes "port_file h = None \<or> port_file h = Some (dec port @ [CHR 0x0A])"
  shows "\<exists>l. parse_lock_probe (trim (fst (run_probe ''LOCKED:'' answers matching self h)))
       = \<lparr>lp_locked = True, lp_reusePort = (if server_healthy answers h then Some (int port) else None), lp_log = l\<rparr>"
proof (cases rule: run_probe_cases [of h "''LOCKED:''" answers matching self])
  case empty
  then show ?thesis using parse_fixed by (simp add: server_healthy_def acquired_log_def)
next
  case invalid
  then show ?thesis using parse_fixed by (simp add: server_healthy_def acquired_log_def)
next
  case dead
  then show ?thesis using parse_dead [OF dead(2)] by (auto simp: server_healthy_def acquired_log_def)
next
  case reuse
  with assms have "port_text h = dec port" by (auto simp: server_healthy_def port_text_def)
  with reuse parse_reuse [of port] show ?thesis by (simp add: acquired_log_def)
next
  case zombie
  then show ?thesis using parse_zombie_line [OF zombie(2), of matching] by (auto simp: acquired_log_def)
next
  case suicide
  then show ?thesis by (simp add: parse_lock_probe_def)
qed

lemma lock_probe_understood:
  assumes "port_file h = None \<or> port_file h = Some (dec port @ [CHR 0x0A])"
  shows "\<exists>l. parse_lock_probe (trim (fst (run_lock_probe answers matching self h)))
       = \<lparr>lp_locked = lock_free h,
          lp_reusePort = (if lock_free h \<and> server_healthy answers h then Some (int port) else None), lp_log = l\<rparr>"
proof (cases "lock_free h")
  case True
  have "server_healthy answers (h\<lparr>lock_age := Some 0\<rparr>) = server_healthy answers h"
    by (simp add: server_healthy_def server_pid_alive_def pid_text_def port_text_def)
  with True probe_understood [of "h\<lparr>lock_age := Some 0\<rparr>" port answers matching self] assms
  show ?thesis by (simp add: run_lock_probe_def)
next
  case False
  then show ?thesis using parse_fixed(3) by (simp add: run_lock_probe_def NOT_ACQUIRED_def)
qed

lemma match_pid_line: "match_pid (''PID='' @ dec pid @ [CHR 0x0A]) = Some (dec pid)"
proof -
  have "takeWhile is_digit (dec pid @ [CHR 0x0A]) = dec pid"
    using dec_digits [of pid] by (simp add: takeWhile_append list_all_iff is_digit_def)
  then show ?thesis by simp
qed

lemma match_pid_none: "match_pid (''PID='' @ [CHR 0x0A]) = None"
  by (simp add: is_digit_def)

text \<open>The pid that the finalizing script finds.\<close>

definition found_pid :: "(string \<Rightarrow> nat option) \<Rightarrow> string \<Rightarrow> nat option" where
  "found_pid pgrep installPath =
     (case pgrep (server_main installPath) of None \<Rightarrow> pgrep (node_path installPath) | Some pid \<Rightarrow> Some pid)"

text \<open>The command line of the shell that \<^verbatim>\<open>bbExec\<close> starts, as other processes see it.\<close>

definition shell_line :: "string \<Rightarrow> string \<Rightarrow> string" where
  "shell_line home command =
     js_join '' '' [remoteShPath home, ''-c'',
       ''export PATH='' @ shellQuote (remoteToolsDir home) @ '':$PATH; '' @ command]"

lemma shellQuote_sublist: "CHR 0x27 \<notin> set s \<Longrightarrow> sublist s (shellQuote s)"
proof -
  assume "CHR 0x27 \<notin> set s"
  then have "concat (map quote_char s) = s" by (induction s) (auto simp: quote_char_def)
  then show ?thesis by (auto simp: shellQuote_def sublist_def intro: exI [of _ "[CHR 0x27]"])
qed

lemma sublist_join: "l \<in> set ls \<Longrightarrow> sublist l (js_join sep ls)"
proof (induction ls)
  case (Cons a ls)
  show ?case
  proof (cases "ls = []")
    case False
    with Cons sublist_inside [of l "js_join sep ls" "a @ sep" "[]"] show ?thesis
      by (auto simp: js_join_cons)
  qed (use Cons in simp)
qed simp

lemma shell_line_shows: "sublist x command \<Longrightarrow> sublist x (shell_line home command)"
  using sublist_inside [of x command "remoteShPath home @ '' -c '' @ ''export PATH='' @ shellQuote (remoteToolsDir home) @ '':$PATH; ''" "[]"]
  by (simp add: shell_line_def)

lemma probe_script_shows_path:
  assumes "CHR 0x27 \<notin> set installPath"
  shows "sublist installPath (lock_probe_script installPath)"
proof -
  have "sublist installPath (''strays=\"$(pgrep -f '' @ shellQuote installPath @ '' 2>/dev/null)\"'')"
    using shellQuote_sublist [OF assms] by (rule sublist_inside)
  moreover have "sublist (''strays=\"$(pgrep -f '' @ shellQuote installPath @ '' 2>/dev/null)\"'') (lock_probe_script installPath)"
    unfolding lock_probe_script_def by (rule sublist_join) (simp add: probe_lines_def)
  ultimately show ?thesis by (rule sublist_order.order_trans)
qed

lemma finalize_script_shows_path:
  assumes "CHR 0x27 \<notin> set installPath"
  shows "sublist (server_main installPath) (finalize_script installPath port releaseLock)"
proof -
  let ?l = "''pid=$(pgrep -f -o '' @ shellQuote (server_main installPath) @ '' 2>/dev/null)''"
  have "sublist (server_main installPath) ?l"
    using shellQuote_sublist [of "server_main installPath"] assms by (intro sublist_inside) (simp add: server_main_def)
  moreover have "sublist ?l (finalize_script installPath port releaseLock)"
    unfolding finalize_script_def by (rule sublist_join) simp
  ultimately show ?thesis by (rule sublist_order.order_trans)
qed

lemma kill_strays_self:
  assumes "self \<notin> set before" and "dec self \<noteq> pid"
  shows "fst (kill_strays self pid (before @ self # later) alive) = False
       \<and> alive - set before - {self} \<subseteq> snd (kill_strays self pid (before @ self # later) alive)"
  using assms(1)
proof (induction before arbitrary: alive)
  case (Cons p before)
  show ?case
  proof (cases "dec p = pid")
    case True
    with Cons show ?thesis by fastforce
  next
    case False
    have "alive - set (p # before) - {self} = (alive - {p}) - set before - {self}" by auto
    with False Cons.prems Cons.IH [of "alive - {p}"] show ?thesis by simp
  qed
qed (use assms(2) in simp)

section \<open>Properties\<close>

text \<open>What the client concludes from the lock-and-probe script is the state of the remote host:
  it holds the lock exactly when there was none or only a stale one, and it reuses a port
  exactly when a live process has the recorded pid and the recorded port answers; a missing,
  unreadable or stale pid file, a dead process and a server that does not answer all lead to a
  fresh start.\<close>

theorem lock_probe_outcome:
  assumes "c_exec conn (bb_command home (lock_probe_script installPath)) None w = (Inr x, w')"
    and "out_stdout x = fst (run_lock_probe answers matching self h)"
    and "port_file h = None \<or> port_file h = Some (dec port @ [CHR 0x0A])"
  shows "\<exists>l. acquireLockAndProbeZombie conn home installPath None w
       = (Inr \<lparr>lp_locked = lock_free h,
               lp_reusePort = (if lock_free h \<and> server_healthy answers h then Some (int port) else None),
               lp_log = l\<rparr>, w')"
  using lock_probe_understood [OF assms(3), of answers matching self] assms(1,2)
  by (simp add: acquireLockAndProbeZombie_def bbExec_def await_def resolve_def)

text \<open>A server that was recorded after its start is found again: when the finalizing script saw
  its process, the client learns the pid, and the next client that takes the lock, while the
  process lives and the port answers, is told to reuse exactly that port.\<close>

theorem finalized_server_reused:
  assumes "found_pid pgrep installPath = Some pid" and "pid \<in> running h" and "answers (dec port)"
    and "c_exec conn (bb_command home (finalize_script installPath port True)) None w = (Inr x, w')"
    and "out_stdout x = fst (run_finalize pgrep installPath port True h)"
  shows "finalizeServerStart conn home installPath port True None w = (Inr (finalized pid port True), w')
       \<and> (\<exists>l. parse_lock_probe (trim (fst (run_lock_probe answers matching self
                 (snd (run_finalize pgrep installPath port True h)))))
            = \<lparr>lp_locked = True, lp_reusePort = Some (int port), lp_log = l\<rparr>)"
proof -
  let ?h = "h\<lparr>pid_file := Some (dec pid @ [CHR 0x0A]), port_file := Some (dec port @ [CHR 0x0A]), lock_age := None\<rparr>"
  have run: "run_finalize pgrep installPath port True h = (''PID='' @ dec pid @ [CHR 0x0A], ?h)"
    using assms(1) by (simp add: run_finalize_def found_pid_def Let_def)
  have "server_healthy answers ?h" "lock_free ?h"
    using assms(2,3) by (simp_all add: server_healthy_def server_pid_alive_def pid_text_def port_text_def lock_free_def)
  with lock_probe_understood [of ?h port answers matching self] run assms(4,5) match_pid_line [of pid]
  show ?thesis by (simp add: finalizeServerStart_def bbExec_def await_def resolve_def)
qed

text \<open>The shell that cleans up a zombie kills itself. The install path is part of its own command
  line, so \<^verbatim>\<open>pgrep -f\<close> lists it among the strays; it dies before it prints its verdict, the
  strays after it survive, and the client, which reads no output at all, takes the lock for
  acquired.\<close>

theorem zombie_cleanup_kills_itself:
  assumes "CHR 0x27 \<notin> set installPath"
    and "lock_free h" and "server_pid_alive h" and "\<not> server_healthy answers h"
    and "matching = before @ self # later" and "self \<notin> set before" and "dec self \<noteq> pid_text h"
  shows "sublist installPath (shell_line home (lock_probe_script installPath))
       \<and> fst (run_lock_probe answers matching self h) = []
       \<and> running h - {nat_of_digits (pid_text h)} - set before - {self}
           \<subseteq> running (snd (run_lock_probe answers matching self h))
       \<and> parse_lock_probe (trim [])
          = \<lparr>lp_locked = True, lp_reusePort = None, lp_log = ''unexpected lock+probe output: ''\<rparr>"
proof -
  let ?h = "h\<lparr>lock_age := Some 0\<rparr>"
  have t: "pid_text ?h = pid_text h" "port_text ?h = port_text h" by (simp_all add: pid_text_def port_text_def)
  have "run_probe ''LOCKED:'' answers matching self ?h =
      (let k = kill_strays self (pid_text h) matching (running h - {nat_of_digits (pid_text h)})
       in (if fst k then ''LOCKED:ZOMBIE:'' @ pid_text h @ '':'' @ js_join [CHR 0x0A] (map dec matching) @ [CHR 0x0A] else [],
           ?h\<lparr>pid_file := None, port_file := None, running := snd k\<rparr>))"
    unfolding run_probe_def Let_def pid_text_def [symmetric] port_text_def [symmetric] t
    using assms(3,4) by (auto simp: server_healthy_def server_pid_alive_def all_digits_def case_prod_beta)
  moreover note kill_strays_self [OF assms(6,7), of later "running h - {nat_of_digits (pid_text h)}"]
  ultimately show ?thesis
    using assms(2,5) probe_script_shows_path [OF assms(1), THEN shell_line_shows]
    by (simp add: run_lock_probe_def parse_lock_probe_def Let_def)
qed

text \<open>When no server is running, the finalizing script records its own shell as the server: its
  command line contains the path it looks for, so \<^verbatim>\<open>pgrep -o\<close> is never empty-handed, and the
  pattern for launchers that run node directly is never tried.\<close>

theorem finalize_finds_own_shell:
  assumes "CHR 0x27 \<notin> set installPath"
    and "\<forall>(pid, args) \<in> set procs. \<not> sublist (server_main installPath) args"
    and "pgrep = (\<lambda>pattern. map_option fst (find (\<lambda>(pid, args). sublist pattern args)
                    (procs @ [(self, shell_line home (finalize_script installPath port releaseLock))])))"
  shows "found_pid pgrep installPath = Some self
       \<and> pid_file (snd (run_finalize pgrep installPath port releaseLock h)) = Some (dec self @ [CHR 0x0A])"
proof -
  have "find (\<lambda>(pid, args). sublist (server_main installPath) args) (procs @ [p]) = Some p"
    if "sublist (server_main installPath) (snd p)" for p
    using assms(2) that by (induction procs) auto
  from this [of "(self, shell_line home (finalize_script installPath port releaseLock))"]
  have "pgrep (server_main installPath) = Some self"
    using finalize_script_shows_path [OF assms(1), THEN shell_line_shows] by (simp add: assms(3))
  then show ?thesis by (simp add: found_pid_def run_finalize_def Let_def)
qed

text \<open>Concrete runs of the properties above.\<close>

theorem lock_probe_outcome_witness:
  "\<exists>l. acquireLockAndProbeZombie (fixed_conn (printed (''LOCKED:REUSE:8080'' @ [CHR 0x0A]))) ''/root'' ''/srv'' None ()
      = (Inr \<lparr>lp_locked = True, lp_reusePort = Some 8080, lp_log = l\<rparr>, ())"
proof -
  let ?h = "\<lparr>pid_file = Some (dec 42 @ [CHR 0x0A]), port_file = Some (dec 8080 @ [CHR 0x0A]), lock_age = Some 31, running = {42}\<rparr>"
  have p: "dec 8080 = ''8080''" by (simp add: dec.simps)
  have ok: "server_healthy (\<lambda>_. True) ?h" "lock_free ?h"
    by (simp_all add: server_healthy_def server_pid_alive_def pid_text_def port_text_def lock_free_def staleMin_def LOCK_STALE_AGE_SEC_def)
  have "server_healthy (\<lambda>_. True) (?h\<lparr>lock_age := Some 0\<rparr>)"
    by (simp add: server_healthy_def server_pid_alive_def pid_text_def port_text_def)
  then have "fst (run_lock_probe (\<lambda>_. True) [] 7 ?h) = ''LOCKED:REUSE:'' @ dec 8080 @ [CHR 0x0A]"
    using ok(2) by (simp add: run_lock_probe_def run_probe_def Let_def server_healthy_def server_pid_alive_def
        pid_text_def port_text_def all_digits_def)
  then show ?thesis
    using lock_probe_outcome [where h = ?h and port = 8080 and answers = "\<lambda>_. True" and matching = "[]" and self = 7 and w = "()" and
        conn = "fixed_conn (printed (''LOCKED:REUSE:8080'' @ [CHR 0x0A]))" and home = "''/root''" and installPath = "''/srv''"] ok
    by (simp add: p fixed_conn_def printed_def resolve_def)
qed

theorem finalized_server_reused_witness:
  "finalizeServerStart (fixed_conn (printed (''PID=42'' @ [CHR 0x0A]))) ''/root'' ''/srv'' 80 True None () = (Inr (finalized 42 80 True), ())"
  using finalized_server_reused [where h = "\<lparr>pid_file = None, port_file = None, lock_age = Some 0, running = {42}\<rparr>" and pid = 42 and port = 80
      and pgrep = "\<lambda>_. Some 42" and answers = "\<lambda>_. True" and conn = "fixed_conn (printed (''PID=42'' @ [CHR 0x0A]))" and w = "()"
      and home = "''/root''" and installPath = "''/srv''"]
  by (simp add: found_pid_def fixed_conn_def printed_def resolve_def run_finalize_def dec.simps)

theorem zombie_cleanup_kills_itself_witness:
  "fst (run_lock_probe (\<lambda>_. False) [7, 9] 7 \<lparr>pid_file = Some (dec 42), port_file = None, lock_age = None, running = {7, 9, 42}\<rparr>) = []"
proof -
  let ?h = "\<lparr>pid_file = Some (dec 42), port_file = None, lock_age = None, running = {7, 9, 42}\<rparr>"
  have d: "dec 42 = ''42''" "dec 7 = ''7''" by (simp_all add: dec.simps)
  have "pid_text ?h = ''42''" by (simp add: pid_text_def chomp_def d)
  then show ?thesis
    using zombie_cleanup_kills_itself [where h = ?h and before = "[]" and self = 7 and later = "[9]" and answers = "\<lambda>_. False" and installPath = "''/srv''"]
    by (simp add: lock_free_def server_pid_alive_def server_healthy_def d nat_of_digits_def digit_val_def all_digits_def is_digit_def)
qed

theorem finalize_finds_own_shell_witness:
  "found_pid (\<lambda>pattern. map_option fst (find (\<lambda>(pid, args). sublist pattern args)
       ([(1, ''/sbin/init'')] @ [(99, shell_line ''/root'' (finalize_script ''/srv'' 80 True))]))) ''/srv'' = Some 99"
proof -
  have "\<not> sublist (server_main ''/srv'') ''/sbin/init''"
  proof
    assume "sublist (server_main ''/srv'') ''/sbin/init''"
    then have "length (server_main ''/srv'') \<le> length ''/sbin/init''" by (rule sublist_length_le)
    then show False by (simp add: server_main_def)
  qed
  then show ?thesis
    using finalize_finds_own_shell [where installPath = "''/srv''" and procs = "[(1, ''/sbin/init'')]" and self = 99 and port = 80
        and releaseLock = True and home = "''/root''", OF _ _ refl, THEN conjunct1] by simp
qed

section \<open>Several clients and one lock\<close>

text \<open>
  Each client runs the commands of the script one after the other, and the commands of
  different clients interleave. The lock directory is its creator and whether it looks stale
  to \<^verbatim>\<open>find\<close>. A client that did not get the lock goes on and starts its server without it, and when the
  connection of a client that started a server is closed, \<^verbatim>\<open>killConnection\<close> of
  \<^verbatim>\<open>src/resolver/index.ts\<close> removes the lock directory, whoever holds it. An output of the script that is
  empty or not understood counts as the acquired lock (\<open>parse_lock_probe\<close>). The record says what the
  surroundings may do: \<open>ageing\<close>: a lock grows stale; \<open>garbling\<close>: an output is not understood; \<open>closing\<close>: the
  connection of a client is closed while another client holds the lock.
\<close>

datatype phase = Starting | Failed | SawStale | Removed | Held | Refused | Released | Closed

record lock_world =
  lock_dir :: "(nat \<times> bool) option"
  phase_of :: "nat \<Rightarrow> phase"

record lock_env =
  ageing :: bool
  garbling :: bool
  closing :: bool

definition calm :: lock_env where
  "calm = \<lparr>ageing = False, garbling = False, closing = False\<rparr>"

definition advance :: "lock_world \<Rightarrow> nat \<Rightarrow> (nat \<times> bool) option \<Rightarrow> phase \<Rightarrow> lock_world" where
  "advance s i d p = s\<lparr>lock_dir := d, phase_of := (phase_of s)(i := p)\<rparr>"

inductive lock_step :: "lock_env \<Rightarrow> lock_world \<Rightarrow> lock_world \<Rightarrow> bool" for E where
  mkdir_ok: "phase_of s i = Starting \<Longrightarrow> lock_dir s = None \<Longrightarrow>
     lock_step E s (advance s i (Some (i, False)) Held)"
| mkdir_fails: "phase_of s i = Starting \<Longrightarrow> lock_dir s = Some d \<Longrightarrow>
     lock_step E s (advance s i (Some d) Failed)"
| find_stale: "phase_of s i = Failed \<Longrightarrow> lock_dir s = Some (j, True) \<Longrightarrow>
     lock_step E s (advance s i (Some (j, True)) SawStale)"
| find_fresh: "phase_of s i = Failed \<Longrightarrow> \<forall>j. lock_dir s \<noteq> Some (j, True) \<Longrightarrow>
     lock_step E s (advance s i (lock_dir s) Refused)"
| rm_dir: "phase_of s i = SawStale \<Longrightarrow> lock_step E s (advance s i None Removed)"
| again_ok: "phase_of s i = Removed \<Longrightarrow> lock_dir s = None \<Longrightarrow>
     lock_step E s (advance s i (Some (i, False)) Held)"
| again_fails: "phase_of s i = Removed \<Longrightarrow> lock_dir s = Some d \<Longrightarrow>
     lock_step E s (advance s i (Some d) Refused)"
| release: "phase_of s i = Held \<Longrightarrow> lock_step E s (advance s i None Released)"
| close: "phase_of s i \<in> {Refused, Released} \<Longrightarrow> closing E \<or> (\<forall>j. phase_of s j \<noteq> Held) \<Longrightarrow>
     lock_step E s (advance s i None Closed)"
| garbled: "garbling E \<Longrightarrow> phase_of s i \<in> {Starting, Failed, SawStale, Removed} \<Longrightarrow>
     lock_step E s (advance s i (lock_dir s) Held)"
| grow_stale: "ageing E \<Longrightarrow> lock_dir s = Some (j, False) \<Longrightarrow>
     lock_step E s (s\<lparr>lock_dir := Some (j, True)\<rparr>)"

definition all_starting :: "(nat \<times> bool) option \<Rightarrow> lock_world" where
  "all_starting d = \<lparr>lock_dir = d, phase_of = (\<lambda>_. Starting)\<rparr>"

lemma advance_simps [simp]:
  "lock_dir (advance s i d p) = d"
  "phase_of (advance s i d p) j = (if j = i then p else phase_of s j)"
  by (simp_all add: advance_def)

lemma calm_simps [simp]: "\<not> ageing calm" "\<not> garbling calm" "\<not> closing calm"
  by (simp_all add: calm_def)

text \<open>A script whose output is not understood belongs to a client that takes itself for the holder.\<close>

lemma garbled_output_acquires: "out \<noteq> ''LOCKFAIL'' \<Longrightarrow> lp_locked (parse_lock_probe out)"
  by (simp add: parse_lock_probe_def acquired_log_def Let_def split: option.splits)








text \<open>An abandoned lock breaks the exclusion: of two clients that both see it as stale, one can
  remove the lock that the other has just made, and both hold the lock. That check, removal
  and creation are one remote command does not help, since the commands of two connections
  interleave.\<close>

theorem stale_lock_race:
  "\<exists>s. (lock_step calm)\<^sup>*\<^sup>* (all_starting (Some (0, True))) s \<and> phase_of s 1 = Held \<and> phase_of s 2 = Held"
proof -
  let ?d = "Some (0::nat, True)"
  let ?s0 = "all_starting ?d"
  let ?s1 = "advance ?s0 1 ?d Failed"
  let ?s2 = "advance ?s1 2 ?d Failed"
  let ?s3 = "advance ?s2 1 ?d SawStale"
  let ?s4 = "advance ?s3 2 ?d SawStale"
  let ?s5 = "advance ?s4 1 None Removed"
  let ?s6 = "advance ?s5 1 (Some (1, False)) Held"
  let ?s7 = "advance ?s6 2 None Removed"
  let ?s8 = "advance ?s7 2 (Some (2, False)) Held"
  have "lock_step calm ?s0 ?s1" by (rule mkdir_fails) (simp_all add: all_starting_def)
  moreover have "lock_step calm ?s1 ?s2" by (rule mkdir_fails) (simp_all add: all_starting_def)
  moreover have "lock_step calm ?s2 ?s3" by (rule find_stale) simp_all
  moreover have "lock_step calm ?s3 ?s4" by (rule find_stale) simp_all
  moreover have "lock_step calm ?s4 ?s5" by (rule rm_dir) simp
  moreover have "lock_step calm ?s5 ?s6" by (rule again_ok) simp_all
  moreover have "lock_step calm ?s6 ?s7" by (rule rm_dir) simp
  moreover have "lock_step calm ?s7 ?s8" by (rule again_ok) simp_all
  ultimately have "(lock_step calm)\<^sup>*\<^sup>* ?s0 ?s8"
    by (meson converse_rtranclp_into_rtranclp rtranclp.rtrancl_refl)
  moreover have "phase_of ?s8 1 = Held" "phase_of ?s8 2 = Held" by simp_all
  ultimately show ?thesis by blast
qed

end
