(* ===== verification/Destination.thy ===== *)
theory Destination
  imports Json
begin

text \<open>
  \<^verbatim>\<open>src/ssh/destination.ts\<close>: the \<^verbatim>\<open>user@host:port\<close> form a user types, and the hexadecimal
  authority VS Code carries for it. The lemmas give the two round trips (text and authority),
  what a successful parse says about its input, and when a parse fails.

  A port is a natural number; \<^verbatim>\<open>parseInt\<close> on more than 15 digits would round.
\<close>

record ssh_destination =
  dest_host :: string
  dest_user :: "string option"
  dest_port :: "nat option"

definition parseSshDestination :: "string \<Rightarrow> ssh_destination result" where
  "parseSshDestination dest =
     (let input = trim dest;
          atPos = last_index_of CHR ''@'' input;
          user = (case atPos of None \<Rightarrow> None | Some a \<Rightarrow> Some (take a input));
          colonPos = last_index_of CHR '':'' input;
          port = (case colonPos of
                    None \<Rightarrow> None
                  | Some c \<Rightarrow>
                      if (case atPos of None \<Rightarrow> True | Some a \<Rightarrow> a < c) then
                        (let portStr = drop (Suc c) input in
                         if all_digits portStr then map_option nat (parse_int portStr) else None)
                      else None);
          start = (case atPos of None \<Rightarrow> 0 | Some a \<Rightarrow> Suc a);
          stop = (if port \<noteq> None then nullish colonPos 0 else length input);
          host = drop start (take stop input)
      in if host = [] then Inl (plain_error (''Invalid SSH destination: '' @ dest))
         else Inr \<lparr>dest_host = host, dest_user = user, dest_port = port\<rparr>)"

definition formatSshDestination :: "ssh_destination \<Rightarrow> string" where
  "formatSshDestination d =
     (let s = dest_host d;
          s = (if truthy (dest_user d) then nullish (dest_user d) [] @ ''@'' @ s else s)
      in (case dest_port d of
            Some p \<Rightarrow> if p \<noteq> 0 then s @ '':'' @ dec p else s
          | None \<Rightarrow> s))"

definition destination_json :: "ssh_destination \<Rightarrow> json" where
  "destination_json d =
     JObj ([(''hostName'', JStr (dest_host d))]
           @ opt_field ''user'' (map_option JStr (dest_user d))
           @ opt_field ''port'' (map_option (\<lambda>p. JNum (dec p)) (dest_port d)))"

definition encodeAuthority :: "ssh_destination \<Rightarrow> string" where
  "encodeAuthority d = hex_encode (utf8_bytes (stringify (destination_json d)))"

text \<open>
  \<^verbatim>\<open>decodeAuthority\<close> casts the parsed value to a destination without checking the types of its
  properties, so the result is kept as the JSON values it is made of.
\<close>

record raw_destination =
  raw_host :: json
  raw_user :: "json option"
  raw_port :: "json option"

definition decodeAuthority :: "string \<Rightarrow> raw_destination result" where
  "decodeAuthority hex =
     (case parse_json (utf8_string (hex_decode hex)) of
        Inl e \<Rightarrow> Inl e
      | Inr data \<Rightarrow>
          (case (json_prop data ''hostName'', json_prop data ''user'', json_prop data ''port'') of
             (Inr h, Inr u, Inr p) \<Rightarrow>
               (case h of
                  Some hn \<Rightarrow> if json_truthy h
                             then Inr \<lparr>raw_host = hn, raw_user = u, raw_port = p\<rparr>
                             else Inl (plain_error ''Authority payload missing hostName'')
                | None \<Rightarrow> Inl (plain_error ''Authority payload missing hostName''))
           | _ \<Rightarrow> Inl type_error))"

definition parseAuthority :: "string \<Rightarrow> (string \<times> string) option" where
  "parseAuthority authority =
     (case index_of CHR ''+'' authority of
        None \<Rightarrow> None
      | Some p \<Rightarrow> Some (take p authority, drop (Suc p) authority))"

text \<open>A typed destination seen as the raw one that decoding gives back.\<close>

definition raw_of :: "ssh_destination \<Rightarrow> raw_destination" where
  "raw_of d = \<lparr>raw_host = JStr (dest_host d), raw_user = map_option JStr (dest_user d),
               raw_port = map_option (\<lambda>p. JNum (dec p)) (dest_port d)\<rparr>"

section \<open>The authority\<close>

lemma destination_json_ok: "json_ok (destination_json d)"
  by (auto simp: destination_json_def opt_field_def split: option.splits)

lemma decode_encode:
  assumes "dest_host d \<noteq> []"
  shows "decodeAuthority (encodeAuthority d) = Inr (raw_of d)"
proof -
  have "json_prop (destination_json d) ''hostName'' = Inr (Some (JStr (dest_host d)))"
    "json_prop (destination_json d) ''user'' = Inr (map_option JStr (dest_user d))"
    "json_prop (destination_json d) ''port'' = Inr (map_option (\<lambda>p. JNum (dec p)) (dest_port d))"
    by (auto simp: json_prop_def destination_json_def opt_field_def split: option.splits)
  with assms show ?thesis
    by (simp add: decodeAuthority_def encodeAuthority_def parse_stringify [OF destination_json_ok]
        json_truthy_def raw_of_def)
qed

lemma decode_lower: "decodeAuthority (to_lower s) = decodeAuthority s"
  by (simp add: decodeAuthority_def)

lemma lower_char_eq_plus [simp]: "lower_char c = CHR ''+'' \<longleftrightarrow> c = CHR ''+''"
proof
  assume l: "lower_char c = CHR ''+''"
  show "c = CHR ''+''"
  proof (cases "65 \<le> (of_char c :: nat) \<and> of_char c \<le> (90 :: nat)")
    case True
    then have "(of_char (lower_char c) :: nat) = of_char c + 32" by (simp add: lower_char_def)
    with l True show ?thesis by simp
  next
    case False
    with l show ?thesis by (simp add: lower_char_def)
  qed
qed (simp add: lower_char_def)

lemma index_of_plus_lower: "index_of CHR ''+'' (to_lower s) = index_of CHR ''+'' s"
  by (induction s) (simp_all add: to_lower_def)

lemma to_lower_take_drop: "to_lower (take n s) = take n (to_lower s)" "to_lower (drop n s) = drop n (to_lower s)"
  by (simp_all add: to_lower_def take_map drop_map)

section \<open>The text form\<close>

text \<open>The destinations that have a text form of their own.\<close>

definition port_suffix :: "string \<Rightarrow> bool" where
  "port_suffix s =
     (case last_index_of CHR '':'' s of None \<Rightarrow> False | Some c \<Rightarrow> all_digits (drop (Suc c) s))"

definition printable :: "ssh_destination \<Rightarrow> bool" where
  "printable d =
     (dest_host d \<noteq> [] \<and> CHR ''@'' \<notin> set (dest_host d)
      \<and> dest_user d \<noteq> Some [] \<and> dest_port d \<noteq> Some 0
      \<and> (dest_port d = None \<longrightarrow> \<not> port_suffix (dest_host d))
      \<and> trimmed (formatSshDestination d))"

lemma last_index_of_appendD:
  "c \<in> set t \<Longrightarrow> last_index_of c (s @ t) = map_option ((+) (length s)) (last_index_of c t)"
proof (induction s)
  case (Cons x s)
  then have "last_index_of c t \<noteq> None" by (simp add: last_index_of_None)
  with Cons show ?case by (auto split: option.splits)
next
  case Nil
  then show ?case by (cases "last_index_of c t") auto
qed

lemma colon_digits: "all_digits p \<Longrightarrow> last_index_of CHR '':'' (s @ CHR '':'' # p) = Some (length s)"
  by (rule last_index_of_append) (auto simp: all_digits_def list_all_iff is_digit_def)

lemma all_digits_no_at: "all_digits p \<Longrightarrow> CHR ''@'' \<notin> set p"
  by (auto simp: all_digits_def list_all_iff is_digit_def)

definition user_part :: "string option \<Rightarrow> string" where
  "user_part u = (case u of None \<Rightarrow> [] | Some n \<Rightarrow> n @ ''@'')"

text \<open>What parsing makes of an input put together from its three parts.\<close>

lemma parse_parts_port:
  assumes h: "host \<noteq> []" "CHR ''@'' \<notin> set host" and p: "all_digits ps"
    and t: "trim dest = user_part u @ host @ CHR '':'' # ps"
  shows "parseSshDestination dest =
    Inr \<lparr>dest_host = host, dest_user = u, dest_port = Some (nat_of_digits ps)\<rparr>"
proof -
  have colon: "last_index_of CHR '':'' (trim dest) = Some (length (user_part u @ host))"
    using colon_digits [OF p, of "user_part u @ host"] t by simp
  have no_at: "CHR ''@'' \<notin> set (host @ CHR '':'' # ps)"
    using h all_digits_no_at [OF p] by simp
  show ?thesis
  proof (cases u)
    case None
    with t no_at have "last_index_of CHR ''@'' (trim dest) = None" by (simp add: user_part_def)
    with None colon t h p show ?thesis
      by (simp add: parseSshDestination_def user_part_def parse_int_all_digits)
  next
    case (Some n)
    with t no_at have "last_index_of CHR ''@'' (trim dest) = Some (length n)"
      using last_index_of_append [OF no_at, of n] by (simp add: user_part_def)
    with Some colon t h p show ?thesis
      by (simp add: parseSshDestination_def user_part_def parse_int_all_digits)
  qed
qed

lemma port_suffix_drop:
  assumes "last_index_of CHR '':'' (s @ h) = Some c" "length s \<le> c"
  shows "last_index_of CHR '':'' h = Some (c - length s)"
proof -
  have "CHR '':'' \<in> set h"
  proof -
    have "c < length (s @ h)" "(s @ h) ! c = CHR '':''"
      using last_index_of_SomeD [OF assms(1)] by auto
    with assms(2) show ?thesis by (auto simp: nth_append in_set_conv_nth intro!: exI [of _ "c - length s"])
  qed
  then obtain k where "last_index_of CHR '':'' h = Some k" by (metis last_index_of_None not_None_eq)
  with assms last_index_of_appendD [OF \<open>CHR '':'' \<in> set h\<close>, of s] show ?thesis by auto
qed

lemma parse_parts_noport:
  assumes h: "host \<noteq> []" "CHR ''@'' \<notin> set host" "\<not> port_suffix host"
    and t: "trim dest = user_part u @ host"
  shows "parseSshDestination dest = Inr \<lparr>dest_host = host, dest_user = u, dest_port = None\<rparr>"
proof -
  have suffix: "\<not> all_digits (drop (Suc c) (trim dest))"
    if "last_index_of CHR '':'' (trim dest) = Some c" "length (user_part u) \<le> c" for c
  proof -
    have "last_index_of CHR '':'' host = Some (c - length (user_part u))"
      using port_suffix_drop [of "user_part u" host c] that t by simp
    with h(3) that(2) t show ?thesis by (simp add: port_suffix_def Suc_diff_le)
  qed
  show ?thesis
  proof (cases u)
    case None
    with t h have "last_index_of CHR ''@'' (trim dest) = None" by (simp add: user_part_def)
    with None t h suffix show ?thesis
      by (auto simp: parseSshDestination_def user_part_def split: option.splits)
  next
    case (Some n)
    with t h have at: "last_index_of CHR ''@'' (trim dest) = Some (length n)"
      using last_index_of_append [of "CHR ''@''" host n] by (simp add: user_part_def)
    have "\<not> all_digits (drop (Suc c) (trim dest))"
      if "last_index_of CHR '':'' (trim dest) = Some c" "length n < c" for c
      using suffix [OF that(1)] that(2) Some by (simp add: user_part_def)
    moreover have "take (length n) (trim dest) = n" "drop (Suc (length n)) (trim dest) = host"
      using t Some by (simp_all add: user_part_def)
    ultimately show ?thesis
      using Some at h by (auto simp: parseSshDestination_def Let_def split: option.splits)
  qed
qed

lemma format_parts:
  "printable d \<Longrightarrow> formatSshDestination d =
     user_part (dest_user d) @ dest_host d @ (case dest_port d of None \<Rightarrow> [] | Some p \<Rightarrow> CHR '':'' # dec p)"
  by (auto simp: printable_def formatSshDestination_def user_part_def Let_def split: option.splits)

text \<open>What a successful parse says about its input.\<close>

lemma split_at:
  "last_index_of c s = Some i \<Longrightarrow> s = take i s @ c # drop (Suc i) s \<and> c \<notin> set (drop (Suc i) s)"
  using last_index_of_SomeD [of c s i] by (metis id_take_nth_drop)

lemma take_drop_split: "i < k \<Longrightarrow> k \<le> length s \<Longrightarrow> take k s = take (Suc i) s @ take (k - Suc i) (drop (Suc i) s)"
  by (metis Suc_leI le_add_diff_inverse take_add)

lemma parse_result:
  assumes "parseSshDestination dest = Inr d"
  shows "dest_host d \<noteq> [] \<and> CHR ''@'' \<notin> set (dest_host d)
    \<and> (\<exists>ps. trim dest = user_part (dest_user d) @ dest_host d @ ps
         \<and> (case dest_port d of None \<Rightarrow> ps = []
            | Some p \<Rightarrow> \<exists>ds. ps = CHR '':'' # ds \<and> all_digits ds \<and> p = nat_of_digits ds))"
proof -
  let ?input = "trim dest"
  obtain start where start: "start = (case last_index_of CHR ''@'' ?input of None \<Rightarrow> 0 | Some a \<Rightarrow> Suc a)" by simp
  have pre: "?input = user_part (case last_index_of CHR ''@'' ?input of None \<Rightarrow> None | Some a \<Rightarrow> Some (take a ?input))
                @ drop start ?input \<and> CHR ''@'' \<notin> set (drop start ?input)"
    using split_at [of "CHR ''@''" ?input] start
    by (cases "last_index_of CHR ''@'' ?input") (auto simp: user_part_def last_index_of_None)
  show ?thesis
  proof (cases "dest_port d")
    case None
    with assms have "dest_host d = drop start ?input"
      "dest_user d = (case last_index_of CHR ''@'' ?input of None \<Rightarrow> None | Some a \<Rightarrow> Some (take a ?input))"
      "dest_host d \<noteq> []"
      by (auto simp: parseSshDestination_def Let_def start split: if_splits)
    with pre None show ?thesis by auto
  next
    case (Some p)
    then obtain c where c: "last_index_of CHR '':'' ?input = Some c" "start \<le> c"
      "all_digits (drop (Suc c) ?input)" "p = nat_of_digits (drop (Suc c) ?input)"
      and d: "dest_host d = drop start (take c ?input)" "dest_host d \<noteq> []"
      "dest_user d = (case last_index_of CHR ''@'' ?input of None \<Rightarrow> None | Some a \<Rightarrow> Some (take a ?input))"
      using assms by (auto simp: parseSshDestination_def Let_def start parse_int_all_digits
          split: if_splits option.splits)
    have "drop start ?input = drop start (take c ?input) @ CHR '':'' # drop (Suc c) ?input"
    proof -
      have "?input = take c ?input @ CHR '':'' # drop (Suc c) ?input" using split_at [OF c(1)] by simp
      then have "drop start ?input = drop start (take c ?input @ CHR '':'' # drop (Suc c) ?input)" by simp
      also have "\<dots> = drop start (take c ?input) @ CHR '':'' # drop (Suc c) ?input"
        using c(2) last_index_of_SomeD [OF c(1)] by simp
      finally show ?thesis .
    qed
    with pre d c Some show ?thesis by auto
  qed
qed

section \<open>Properties\<close>

text \<open>C1. The authority VS Code carries for a destination survives any change of letter case:
  whatever text \<open>s\<close> lower-cases to \<^verbatim>\<open>ssh-remote+<hex>\<close>, splitting it at its first plus
  and decoding the payload gives back host, user and port of the destination.\<close>

theorem authority_roundtrip:
  assumes "dest_host d \<noteq> []" and "to_lower s = ''ssh-remote+'' @ encodeAuthority d"
  shows "parseAuthority s = Some (take 10 s, drop 11 s)
    \<and> to_lower (take 10 s) = ''ssh-remote''
    \<and> decodeAuthority (drop 11 s) = Inr (raw_of d)"
proof -
  have "index_of CHR ''+'' s = index_of CHR ''+'' (''ssh-remote'' @ CHR ''+'' # encodeAuthority d)"
    using assms(2) index_of_plus_lower [of s] by simp
  also have "\<dots> = Some 10" by (subst index_of_append) simp_all
  finally have "parseAuthority s = Some (take 10 s, drop 11 s)" by (simp add: parseAuthority_def)
  moreover have "to_lower (take 10 s) = ''ssh-remote''" using assms(2) by (simp add: to_lower_take_drop)
  moreover have "to_lower (drop 11 s) = encodeAuthority d" using assms(2) by (simp add: to_lower_take_drop)
  then have "decodeAuthority (drop 11 s) = Inr (raw_of d)"
    using decode_encode [OF assms(1)] decode_lower [of "drop 11 s"] by simp
  ultimately show ?thesis by simp
qed

theorem authority_roundtrip_witness:
  "decodeAuthority (drop 11 (''SSH-Remote+'' @
      encodeAuthority \<lparr>dest_host = ''h.example'', dest_user = Some ''me'', dest_port = Some 2222\<rparr>))
   = Inr \<lparr>raw_host = JStr ''h.example'', raw_user = Some (JStr ''me''), raw_port = Some (JNum ''2222'')\<rparr>"
proof -
  let ?d = "\<lparr>dest_host = ''h.example'', dest_user = Some ''me'', dest_port = Some 2222\<rparr>"
  have "to_lower (''SSH-Remote+'' @ encodeAuthority ?d) = ''ssh-remote+'' @ encodeAuthority ?d"
    using to_lower_hex_encode
    by (simp add: to_lower_def encodeAuthority_def lower_char_def char_ofI)
  moreover have "dec 2222 = ''2222''" by (simp add: dec.simps)
  ultimately show ?thesis
    using authority_roundtrip [of ?d "''SSH-Remote+'' @ encodeAuthority ?d"] by (simp add: raw_of_def)
qed

text \<open>A destination with a text form of its own (a host without \<^verbatim>\<open>@\<close> that does not itself end
  in a colon and digits when no port follows, a user and a port that are not empty or zero)
  is read back unchanged from the text \<^verbatim>\<open>formatSshDestination\<close> gives for it.\<close>

theorem parse_format_destination:
  assumes "printable d"
  shows "parseSshDestination (formatSshDestination d) = Inr d"
proof -
  have t: "trim (formatSshDestination d) = formatSshDestination d"
    using assms by (simp add: printable_def trim_trimmed)
  show ?thesis
  proof (cases "dest_port d")
    case None
    have "parseSshDestination (formatSshDestination d)
        = Inr \<lparr>dest_host = dest_host d, dest_user = dest_user d, dest_port = None\<rparr>"
      by (rule parse_parts_noport)
        (use assms None format_parts [OF assms] t in \<open>auto simp: printable_def\<close>)
    with None show ?thesis by (cases d) simp
  next
    case (Some p)
    have "parseSshDestination (formatSshDestination d)
        = Inr \<lparr>dest_host = dest_host d, dest_user = dest_user d, dest_port = Some (nat_of_digits (dec p))\<rparr>"
      by (rule parse_parts_port)
        (use assms Some format_parts [OF assms] t in \<open>auto simp: printable_def\<close>)
    with Some show ?thesis by (cases d) simp
  qed
qed

theorem parse_format_destination_witness:
  "parseSshDestination ''me@[::1]:2222'' =
     Inr \<lparr>dest_host = ''[::1]'', dest_user = Some ''me'', dest_port = Some 2222\<rparr>"
proof -
  let ?d = "\<lparr>dest_host = ''[::1]'', dest_user = Some ''me'', dest_port = Some 2222\<rparr>"
  have f: "formatSshDestination ?d = ''me@[::1]:2222''"
    by (simp add: formatSshDestination_def dec.simps)
  then have "printable ?d" by (simp add: printable_def trimmed_def is_space_def)
  from parse_format_destination [OF this] f show ?thesis by simp
qed

text \<open>Parsing loses nothing: an accepted input is, up to white space at its ends, exactly its
  user and \<^verbatim>\<open>@\<close> (if it has an \<^verbatim>\<open>@\<close>), a host that is not empty and has no \<^verbatim>\<open>@\<close>, and a colon
  with the digits of the port (if a port was read).\<close>

theorem parse_destination_complete:
  assumes "parseSshDestination dest = Inr d"
  shows "dest_host d \<noteq> [] \<and> CHR ''@'' \<notin> set (dest_host d)
    \<and> (\<exists>ps. trim dest = (case dest_user d of None \<Rightarrow> [] | Some u \<Rightarrow> u @ ''@'') @ dest_host d @ ps
         \<and> (case dest_port d of None \<Rightarrow> ps = []
            | Some p \<Rightarrow> \<exists>ds. ps = CHR '':'' # ds \<and> all_digits ds \<and> p = nat_of_digits ds))"
  using parse_result [OF assms] by (simp add: user_part_def)

theorem parse_destination_complete_witness:
  "dest_port (projr (parseSshDestination '' a@b@host:007 '')) = Some 7
   \<and> CHR ''@'' \<notin> set (dest_host (projr (parseSshDestination '' a@b@host:007 '')))"
proof -
  have "parseSshDestination '' a@b@host:007 '' =
      Inr \<lparr>dest_host = ''host'', dest_user = Some ''a@b'', dest_port = Some 7\<rparr>"
    by (simp add: parseSshDestination_def trim_def trim_end_def trim_start_def is_space_def
        all_digits_def is_digit_def parse_int_def nat_of_digits_def digit_val_def)
  from parse_destination_complete [OF this] this show ?thesis by simp
qed

end
