(* ===== verification/Resolver.thy ===== *)
theory Resolver
  imports GoTransport SocksForward Install Lifecycle Destination
begin

text \<open>
  \<^verbatim>\<open>src/resolver/index.ts\<close>: the state of the class \<^verbatim>\<open>SshRemoteResolver\<close> and its synchronous
  operations. Shared transports and flows are objects of a heap, referred to by address, because
  they are mutated through several references; the maps of the class are association lists in
  insertion order, as a JavaScript \<^verbatim>\<open>Map\<close> iterates. Connections, processes, clients and askpass
  servers are numbers. What an operation starts without waiting for it is an entry of
  \<open>r_effects\<close>. The world of the asynchronous operations (theories \<open>Acquire\<close> and \<open>ResolveFlow\<close>)
  extends this state.
\<close>

section \<open>State\<close>

record shared_transport =
  sh_authority :: string
  sh_conn :: nat
  sh_socksPort :: nat
  sh_forward :: "nat option"
  sh_isSession :: bool
  sh_dead :: bool
  sh_agent :: "(string \<times> string) option"
  sh_home :: string
  sh_arch :: string
  sh_installPath :: string
  sh_transportPort :: int
  sh_transportToken :: string
  sh_client :: "nat option"
  sh_askpass :: "nat option"
  sh_refs :: int
  sh_flows :: "nat set"
  sh_agentForwarded :: bool

datatype flow_kind = KindResolve | KindExecServer

record flow =
  fl_shared :: nat
  fl_key :: string
  fl_kind :: flow_kind
  fl_server :: "nat option"
  fl_remotePort :: int
  fl_tokenFile :: string
  fl_connectionToken :: string
  fl_ownsServer :: bool
  fl_env :: "string option"
  fl_dead :: bool

datatype effect =
    MonitorStarted nat
  | MonitorStopped nat
  | AskpassStopped nat
  | ClientRouted nat nat
  | ClientDisposed nat
  | TransportReaped nat string
  | RanDetached nat string
  | ForwardKilled nat
  | ConnClosed nat
  | ServerKilled nat
  | TokenRemoved nat string
  | MetadataRemoved nat string string
  | LockReleased nat string string

record resolver =
  r_shared :: "nat \<Rightarrow> shared_transport"
  r_flow :: "nat \<Rightarrow> flow"
  r_next :: nat
  r_connections :: "(string \<times> nat) list"
  r_transports :: "(string \<times> nat) list"
  r_promises :: "(string \<times> nat) list"
  r_labels :: "(string \<times> string) list"
  r_linkIds :: "(string \<times> string) list"
  r_workspace :: "(string \<times> string) list option"
  r_effects :: "effect list"

definition no_shared :: shared_transport where
  "no_shared = \<lparr>sh_authority = [], sh_conn = 0, sh_socksPort = 0, sh_forward = None, sh_isSession = False, sh_dead = False,
     sh_agent = None, sh_home = [], sh_arch = [], sh_installPath = [], sh_transportPort = 0, sh_transportToken = [],
     sh_client = None, sh_askpass = None, sh_refs = 0, sh_flows = {}, sh_agentForwarded = False\<rparr>"

definition no_flow :: flow where
  "no_flow = \<lparr>fl_shared = 0, fl_key = [], fl_kind = KindExecServer, fl_server = None, fl_remotePort = 0, fl_tokenFile = [],
     fl_connectionToken = [], fl_ownsServer = False, fl_env = None, fl_dead = False\<rparr>"

definition new_resolver :: resolver where
  "new_resolver = \<lparr>r_shared = \<lambda>_. no_shared, r_flow = \<lambda>_. no_flow, r_next = 0, r_connections = [], r_transports = [],
     r_promises = [], r_labels = [], r_linkIds = [], r_workspace = None, r_effects = []\<rparr>"

definition upd_shared :: "nat \<Rightarrow> (shared_transport \<Rightarrow> shared_transport) \<Rightarrow> 'x resolver_scheme \<Rightarrow> 'x resolver_scheme" where
  "upd_shared a g w = w\<lparr>r_shared := (r_shared w)(a := g (r_shared w a))\<rparr>"

definition upd_flow :: "nat \<Rightarrow> (flow \<Rightarrow> flow) \<Rightarrow> 'x resolver_scheme \<Rightarrow> 'x resolver_scheme" where
  "upd_flow a g w = w\<lparr>r_flow := (r_flow w)(a := g (r_flow w a))\<rparr>"

definition start_effects :: "effect list \<Rightarrow> 'x resolver_scheme \<Rightarrow> 'x resolver_scheme" where
  "start_effects es w = w\<lparr>r_effects := r_effects w @ es\<rparr>"

section \<open>Options\<close>

record ssh_settings =
  set_sshPath :: "string option"
  set_configFile :: "string option"
  set_handshakeTimeoutMs :: "nat option"
  set_tcpTimeoutSeconds :: "nat option"

definition falsy_nat :: "nat option \<Rightarrow> nat option" where
  "falsy_nat n = (case n of Some m \<Rightarrow> if m = 0 then None else Some m | None \<Rightarrow> None)"

definition connectionExtras :: "ssh_settings \<Rightarrow> ssh_options \<Rightarrow> ssh_options" where
  "connectionExtras s opts =
     opts\<lparr>opt_sshPath := (if truthy (set_sshPath s) then set_sshPath s else opt_sshPath opts),
          opt_configFile := (if truthy (set_configFile s) then set_configFile s else opt_configFile opts),
          opt_handshakeTimeoutMs := (case falsy_nat (set_handshakeTimeoutMs s) of Some n \<Rightarrow> Some n | None \<Rightarrow> opt_handshakeTimeoutMs opts),
          opt_tcpTimeoutSeconds := (case set_tcpTimeoutSeconds s of Some n \<Rightarrow> Some n | None \<Rightarrow> opt_tcpTimeoutSeconds opts)\<rparr>"

text \<open>The askpass server is its socket and its token; \<open>win32\<close> and the path of the running binary are arguments.\<close>

definition askpassOptions :: "bool \<Rightarrow> string \<Rightarrow> string \<Rightarrow> (string \<times> string) option \<Rightarrow> ssh_options \<Rightarrow> ssh_options" where
  "askpassOptions win32 extensionPath nodeBinary server opts =
     (case server of
        None \<Rightarrow> opts
      | Some a \<Rightarrow>
          (let scriptsDir = extensionPath @ ''/scripts/askpass''
           in opts\<lparr>opt_askpass := Some a,
                   opt_askpassScript := Some (if win32 then scriptsDir @ ''/askpass.cmd'' else scriptsDir @ ''/askpass.sh''),
                   opt_askpassMain := Some (scriptsDir @ ''/askpass-main.js''), opt_nodePath := Some nodeBinary\<rparr>))"

section \<open>Identifiers\<close>

definition AGENT_LINK_ID_KEY :: string where "AGENT_LINK_ID_KEY = ''zygos.agentLinkId:''"

text \<open>\<^verbatim>\<open>/^[0-9a-f]{16}$/\<close>; the fresh identifier is the hexadecimal form of eight random bytes.\<close>

definition link_id :: "string \<Rightarrow> bool" where
  "link_id s = (length s = 16 \<and> list_all (\<lambda>c. is_digit c \<or> (97 \<le> (of_char c :: nat) \<and> of_char c \<le> (102 :: nat))) s)"

definition agentLinkId :: "bytes \<Rightarrow> string \<Rightarrow> 'x resolver_scheme \<Rightarrow> string \<times> 'x resolver_scheme" where
  "agentLinkId random authority w =
     (if truthy (map_of (r_linkIds w) authority) then (nullish (map_of (r_linkIds w) authority) [], w)
      else let key = AGENT_LINK_ID_KEY @ authority;
               stored = (case r_workspace w of None \<Rightarrow> None | Some m \<Rightarrow> map_of m key);
               i = nullish stored [];
               (i, w1) = (if \<not> link_id i
                          then (hex_encode random, w\<lparr>r_workspace := map_option (AList.update key (hex_encode random)) (r_workspace w)\<rparr>)
                          else (i, w))
           in (i, w1\<lparr>r_linkIds := AList.update authority i (r_linkIds w1)\<rparr>))"

definition generateToken :: "bytes \<Rightarrow> string" where
  "generateToken random16 = hex_encode random16"

section \<open>Tearing down\<close>

definition tunnel_files_command :: "string \<Rightarrow> string" where
  "tunnel_files_command dir = ''rm -rf '' @ shellQuote (dir @ ''/tunnel-meta.json'') @ '' '' @ shellQuote (dir @ ''/tunnel.log'')"

definition teardown_effects :: "nat \<Rightarrow> shared_transport \<Rightarrow> effect list" where
  "teardown_effects a s =
     [MonitorStopped a]
     @ (case sh_askpass s of None \<Rightarrow> [] | Some p \<Rightarrow> [AskpassStopped p])
     @ (case sh_client s of None \<Rightarrow> [] | Some c \<Rightarrow> [ClientDisposed c])
     @ (if 0 < sh_transportPort s \<and> sh_home s \<noteq> []
        then let dir = sh_home s @ ''/.ssh-remote''
             in [TransportReaped (sh_conn s) (dir @ ''/tunnel-meta.json''), RanDetached (sh_conn s) (tunnel_files_command dir)]
        else [])
     @ (if sh_isSession s then [ConnClosed (sh_conn s)]
        else (case sh_forward s of None \<Rightarrow> [] | Some p \<Rightarrow> [ForwardKilled p]) @ [ConnClosed (sh_conn s)])"

definition killSharedTransport :: "nat \<Rightarrow> 'x resolver_scheme \<Rightarrow> 'x resolver_scheme" where
  "killSharedTransport a w = start_effects (teardown_effects a (r_shared w a)) w"

definition releaseTransport :: "nat \<Rightarrow> 'x resolver_scheme \<Rightarrow> 'x resolver_scheme" where
  "releaseTransport a w =
     (let w1 = upd_shared a (\<lambda>s. s\<lparr>sh_refs := sh_refs s - 1\<rparr>) w
      in if sh_refs (r_shared w1 a) \<le> 0
         then (killSharedTransport a w1)\<lparr>r_transports := AList.delete (sh_authority (r_shared w1 a)) (r_transports w1)\<rparr>
         else w1)"

text \<open>Only a flow that started its server removes the server's files.\<close>

definition server_cleanup_effects :: "shared_transport \<Rightarrow> flow \<Rightarrow> effect list" where
  "server_cleanup_effects s f =
     (if fl_kind f = KindResolve \<and> fl_ownsServer f
      then (case fl_server f of None \<Rightarrow> [] | Some p \<Rightarrow> [ServerKilled p])
           @ [TokenRemoved (sh_conn s) (fl_tokenFile f)]
           @ (if sh_installPath s \<noteq> []
              then [MetadataRemoved (sh_conn s) (sh_home s) (sh_installPath s), LockReleased (sh_conn s) (sh_home s) (sh_installPath s)]
              else [])
      else [])"

definition killConnection :: "nat \<Rightarrow> 'x resolver_scheme \<Rightarrow> 'x resolver_scheme" where
  "killConnection f w =
     (let a = fl_shared (r_flow w f);
          w1 = start_effects (server_cleanup_effects (r_shared w a) (r_flow w f)) w
      in releaseTransport a (upd_shared a (\<lambda>s. s\<lparr>sh_flows := sh_flows s - {f}\<rparr>) w1))"

definition resolver_dispose :: "'x resolver_scheme \<Rightarrow> 'x resolver_scheme" where
  "resolver_dispose w =
     (let w1 = (fold (\<lambda>(k, f). killConnection f) (r_connections w) w)\<lparr>r_connections := []\<rparr>;
          w2 = (fold (\<lambda>(k, a). killSharedTransport a) (r_transports w1) w1)\<lparr>r_transports := []\<rparr>
      in w2\<lparr>r_labels := []\<rparr>)"

section \<open>Exit listeners\<close>

text \<open>The server process of a flow closed; the forward process \<open>p\<close>, whose listener was attached to the
  transport \<open>a\<close>, closed.\<close>

definition flow_server_closed :: "nat \<Rightarrow> 'x resolver_scheme \<Rightarrow> 'x resolver_scheme" where
  "flow_server_closed f w = (if fl_dead (r_flow w f) then w else upd_flow f (\<lambda>x. x\<lparr>fl_dead := True\<rparr>) w)"

definition shared_forward_closed :: "nat \<Rightarrow> nat \<Rightarrow> 'x resolver_scheme \<Rightarrow> 'x resolver_scheme" where
  "shared_forward_closed a p w =
     (if sh_forward (r_shared w a) \<noteq> Some p then w
      else if sh_dead (r_shared w a) then w
      else upd_shared a (\<lambda>s. s\<lparr>sh_dead := True\<rparr>) w)"

section \<open>Connections of a flow\<close>

text \<open>The property \<^verbatim>\<open>syscall\<close> of the error is left out.\<close>

definition dead_error :: "string \<Rightarrow> js_error" where
  "dead_error hostLabel =
     JsError (''SSH connection to '' @ hostLabel @ '' is dead - triggering reconnect'') (Some ''ECONNREFUSED'') None"

definition makeConnection ::
    "(nat \<Rightarrow> int \<Rightarrow> ('x resolver_scheme, 's) promise) \<Rightarrow> string \<Rightarrow> nat \<Rightarrow> ('x resolver_scheme, 's) promise" where
  "makeConnection dial hostLabel f w =
     (let fl = r_flow w f; sh = r_shared w (fl_shared fl)
      in if fl_dead fl \<or> sh_dead sh then reject (dead_error hostLabel) w
         else dial (sh_socksPort sh) (fl_remotePort fl) w)"

section \<open>Lemmas\<close>

lemma upd_shared_simps [simp]:
  "r_shared (upd_shared a g w) = (r_shared w)(a := g (r_shared w a))" "r_flow (upd_shared a g w) = r_flow w"
  "r_connections (upd_shared a g w) = r_connections w" "r_transports (upd_shared a g w) = r_transports w"
  "r_promises (upd_shared a g w) = r_promises w" "r_effects (upd_shared a g w) = r_effects w" "r_next (upd_shared a g w) = r_next w"
  by (simp_all add: upd_shared_def)

lemma upd_flow_simps [simp]:
  "r_shared (upd_flow f g w) = r_shared w" "r_flow (upd_flow f g w) = (r_flow w)(f := g (r_flow w f))"
  "r_connections (upd_flow f g w) = r_connections w" "r_transports (upd_flow f g w) = r_transports w"
  "r_promises (upd_flow f g w) = r_promises w" "r_effects (upd_flow f g w) = r_effects w" "r_next (upd_flow f g w) = r_next w"
  by (simp_all add: upd_flow_def)

lemma start_effects_simps [simp]:
  "r_shared (start_effects es w) = r_shared w" "r_flow (start_effects es w) = r_flow w"
  "r_connections (start_effects es w) = r_connections w" "r_transports (start_effects es w) = r_transports w"
  "r_promises (start_effects es w) = r_promises w" "r_effects (start_effects es w) = r_effects w @ es" "r_next (start_effects es w) = r_next w"
  by (simp_all add: start_effects_def)

lemma teardown_counts [simp]:
  "teardown_effects a (s\<lparr>sh_flows := F\<rparr>) = teardown_effects a s" "teardown_effects a (s\<lparr>sh_refs := n\<rparr>) = teardown_effects a s"
  by (simp_all add: teardown_effects_def)

lemma teardown_closes: "ConnClosed (sh_conn s) \<in> set (teardown_effects a s)"
  by (simp add: teardown_effects_def Let_def)

text \<open>What ending one flow does to every part of the state.\<close>

lemma kill_shared:
  "r_shared (killConnection f w)
   = (let a = fl_shared (r_flow w f); s = r_shared w a
      in (r_shared w)(a := s\<lparr>sh_flows := sh_flows s - {f}, sh_refs := sh_refs s - 1\<rparr>))"
  by (simp add: killConnection_def releaseTransport_def killSharedTransport_def Let_def fun_eq_iff)

lemma kill_frame [simp]:
  "r_flow (killConnection f w) = r_flow w" "r_connections (killConnection f w) = r_connections w"
  "r_promises (killConnection f w) = r_promises w" "r_next (killConnection f w) = r_next w"
  by (simp_all add: killConnection_def releaseTransport_def killSharedTransport_def Let_def)

lemma kill_transports:
  "r_transports (killConnection f w)
   = (let s = r_shared w (fl_shared (r_flow w f))
      in if sh_refs s \<le> 1 then AList.delete (sh_authority s) (r_transports w) else r_transports w)"
  by (simp add: killConnection_def releaseTransport_def killSharedTransport_def Let_def)

lemma kill_effects:
  "r_effects (killConnection f w)
   = (let a = fl_shared (r_flow w f); s = r_shared w a
      in r_effects w @ server_cleanup_effects s (r_flow w f) @ (if sh_refs s \<le> 1 then teardown_effects a s else []))"
  by (simp add: killConnection_def releaseTransport_def killSharedTransport_def Let_def)

text \<open>Every reference of a transport is that of an attached flow, or one that was taken for a flow that
  is not attached yet: \<open>P\<close> counts those.\<close>

definition counted :: "(nat \<Rightarrow> nat) \<Rightarrow> 'x resolver_scheme \<Rightarrow> bool" where
  "counted P w = (\<forall>a. finite (sh_flows (r_shared w a)) \<and> sh_refs (r_shared w a) = int (card (sh_flows (r_shared w a)) + P a)
                   \<and> (\<forall>f \<in> sh_flows (r_shared w a). fl_shared (r_flow w f) = a))"

lemma counted_kill:
  assumes "counted P w" and "f \<in> sh_flows (r_shared w (fl_shared (r_flow w f)))"
  shows "counted P (killConnection f w)"
proof -
  let ?a = "fl_shared (r_flow w f)"
  from assms(1) have all: "finite (sh_flows (r_shared w b))" "sh_refs (r_shared w b) = int (card (sh_flows (r_shared w b)) + P b)"
    "\<forall>g \<in> sh_flows (r_shared w b). fl_shared (r_flow w g) = b" for b by (simp_all add: counted_def)
  have "0 < card (sh_flows (r_shared w ?a))" using assms(2) all(1) by (auto simp: card_gt_0_iff)
  then have "int (card (sh_flows (r_shared w ?a) - {f}) + P ?a) = sh_refs (r_shared w ?a) - 1"
    using all(1,2) assms(2) by (simp add: card_Diff_singleton of_nat_diff)
  with all show ?thesis by (simp add: counted_def kill_shared Let_def)
qed

text \<open>A flow is the last user of its transport when no other is attached and none will be.\<close>

lemma last_user:
  assumes "counted P w" and "f \<in> sh_flows (r_shared w a)"
  shows "sh_refs (r_shared w a) \<le> 1 \<longleftrightarrow> sh_flows (r_shared w a) = {f} \<and> P a = 0"
proof -
  from assms(1) have fin: "finite (sh_flows (r_shared w a))" and refs: "sh_refs (r_shared w a) = int (card (sh_flows (r_shared w a)) + P a)"
    by (simp_all add: counted_def)
  have "card (sh_flows (r_shared w a)) = 1 \<longleftrightarrow> sh_flows (r_shared w a) = {f}"
    using assms(2) by (auto simp: card_1_singleton_iff)
  moreover have "0 < card (sh_flows (r_shared w a))" using assms(2) fin by (auto simp: card_gt_0_iff)
  ultimately show ?thesis using refs by auto
qed

text \<open>Ending flows one after the other: a transport loses its flows, and is closed with the last one.\<close>

lemma fold_kill:
  assumes "distinct fs" and "counted P w" and "\<forall>f \<in> set fs. f \<in> sh_flows (r_shared w (fl_shared (r_flow w f)))"
    and "\<forall>a. sh_flows (r_shared w a) \<subseteq> set fs"
  shows "(\<forall>a. sh_flows (r_shared (fold killConnection fs w) a) = {})
       \<and> (\<forall>a. sh_flows (r_shared w a) \<noteq> {} \<and> P a = 0 \<longrightarrow> ConnClosed (sh_conn (r_shared w a)) \<in> set (r_effects (fold killConnection fs w)))
       \<and> set (r_effects w) \<subseteq> set (r_effects (fold killConnection fs w))"
  using assms
proof (induction fs arbitrary: w)
  case Nil
  then show ?case by simp
next
  case (Cons f fs)
  let ?w = "killConnection f w" and ?a = "fl_shared (r_flow w f)"
  have sub: "\<forall>b. sh_flows (r_shared ?w b) \<subseteq> set fs"
  proof
    fix b
    show "sh_flows (r_shared ?w b) \<subseteq> set fs"
    proof (cases "b = ?a")
      case False
      have "f \<notin> sh_flows (r_shared w b)" using Cons.prems(2) False by (auto simp: counted_def)
      with Cons.prems(4) False show ?thesis by (auto simp: kill_shared Let_def)
    qed (use Cons.prems(4) in \<open>auto simp: kill_shared Let_def\<close>)
  qed
  have "\<forall>g \<in> set fs. g \<in> sh_flows (r_shared ?w (fl_shared (r_flow ?w g)))"
    using Cons.prems(1,3) by (auto simp: kill_shared Let_def)
  from Cons.IH [OF _ counted_kill [OF Cons.prems(2)] this sub] Cons.prems(1,3)
  have IH: "\<forall>b. sh_flows (r_shared (fold killConnection fs ?w) b) = {}"
    "\<And>b. sh_flows (r_shared ?w b) \<noteq> {} \<Longrightarrow> P b = 0 \<Longrightarrow> ConnClosed (sh_conn (r_shared ?w b)) \<in> set (r_effects (fold killConnection fs ?w))"
    "set (r_effects ?w) \<subseteq> set (r_effects (fold killConnection fs ?w))" by auto
  have "ConnClosed (sh_conn (r_shared w b)) \<in> set (r_effects (fold killConnection fs ?w))" if "sh_flows (r_shared w b) \<noteq> {}" "P b = 0" for b
  proof (cases "sh_flows (r_shared ?w b) = {}")
    case True
    with that have b: "b = ?a" "sh_flows (r_shared w ?a) = {f}" by (auto simp: kill_shared Let_def split: if_splits)
    with last_user [OF Cons.prems(2), of f ?a] that(2) have "sh_refs (r_shared w ?a) \<le> 1" by simp
    with b(1) have "ConnClosed (sh_conn (r_shared w b)) \<in> set (r_effects ?w)"
      by (simp add: kill_effects Let_def teardown_closes)
    with IH(3) show ?thesis by blast
  next
    case False
    from IH(2) [OF this that(2)] show ?thesis by (auto simp: kill_shared Let_def split: if_splits)
  qed
  moreover have "set (r_effects w) \<subseteq> set (r_effects ?w)" by (auto simp: kill_effects Let_def)
  ultimately show ?case using IH(1,3) by auto
qed

text \<open>A registered transport stays registered until it is closed, unless another one with flows has
  the same authority.\<close>

lemma fold_kill_registered:
  assumes "map_of (r_transports w) k = Some a" and "\<forall>f \<in> set fs. fl_shared (r_flow w f) = a \<or> sh_authority (r_shared w (fl_shared (r_flow w f))) \<noteq> k"
  shows "map_of (r_transports (fold killConnection fs w)) k = Some a
       \<or> ConnClosed (sh_conn (r_shared w a)) \<in> set (r_effects (fold killConnection fs w))"
proof -
  have mono: "set (r_effects v) \<subseteq> set (r_effects (fold killConnection fs v))" for v :: "'a resolver_scheme" and fs
  proof (induction fs arbitrary: v)
    case (Cons f fs)
    have "set (r_effects v) \<subseteq> set (r_effects (killConnection f v))" by (simp add: kill_effects Let_def)
    with Cons.IH [of "killConnection f v"] show ?case by (metis fold_simps(2) order_trans)
  qed simp
  have frame: "sh_conn (r_shared (killConnection f v) b) = sh_conn (r_shared v b)"
    "sh_authority (r_shared (killConnection f v) b) = sh_authority (r_shared v b)" for f b and v :: "'a resolver_scheme"
    by (simp_all add: kill_shared Let_def)
  show ?thesis
    using assms
  proof (induction fs arbitrary: w)
    case (Cons f fs)
    show ?case
    proof (cases "map_of (r_transports (killConnection f w)) k = Some a")
      case True
      from Cons.IH [OF True] Cons.prems(2) show ?thesis by (simp add: frame)
    next
      case False
      with Cons.prems have "fl_shared (r_flow w f) = a" "sh_refs (r_shared w a) \<le> 1"
        by (auto simp: kill_transports Let_def delete_conv' split: if_splits)
      then have "ConnClosed (sh_conn (r_shared w a)) \<in> set (r_effects (killConnection f w))"
        by (simp add: kill_effects Let_def teardown_closes)
      with mono [of "killConnection f w" fs] show ?thesis by auto
    qed
  qed simp
qed

lemma fold_pairs: "fold (\<lambda>(k, f). killConnection f) ps w = fold killConnection (map snd ps) w"
  by (induction ps arbitrary: w) auto

lemma fold_teardown:
  "r_shared (fold (\<lambda>(k, a). killSharedTransport a) ts w) = r_shared w \<and> set (r_effects w) \<subseteq> set (r_effects (fold (\<lambda>(k, a). killSharedTransport a) ts w))
   \<and> r_connections (fold (\<lambda>(k, a). killSharedTransport a) ts w) = r_connections w
   \<and> (\<forall>(k, a) \<in> set ts. ConnClosed (sh_conn (r_shared w a)) \<in> set (r_effects (fold (\<lambda>(k, a). killSharedTransport a) ts w)))"
proof (induction ts arbitrary: w)
  case (Cons t ts)
  obtain k a where t: "t = (k, a)" by fastforce
  have "ConnClosed (sh_conn (r_shared w a)) \<in> set (r_effects (killSharedTransport a w))" "r_shared (killSharedTransport a w) = r_shared w"
    "r_connections (killSharedTransport a w) = r_connections w" "set (r_effects w) \<subseteq> set (r_effects (killSharedTransport a w))"
    by (auto simp: killSharedTransport_def teardown_closes)
  with Cons [of "killSharedTransport a w"] show ?case
    unfolding t by auto
qed simp

end
