(* ===== verification/Acquire.thy ===== *)
theory Acquire
  imports Resolver
begin

text \<open>
  \<^verbatim>\<open>src/resolver/index.ts\<close>: \<^verbatim>\<open>createTransport\<close> and \<^verbatim>\<open>acquireTransport\<close>. The world extends the
  resolver's state, so that whatever is awaited may change it: other calls of the resolver run
  in between. The environment is a record of operations over that world. \<^verbatim>\<open>acquireTransport\<close>
  calls itself when the transport it waited for has died in the meantime, which has no bound:
  its result is optional, and \<^term>\<open>None\<close> means that it never returns.
\<close>

record 'w resolver_env =
  v_conn :: "nat \<Rightarrow> 'w conn"
  v_getSocksPort :: "nat \<Rightarrow> nat option"
  v_isSession :: "'w \<Rightarrow> bool"
  v_askpassEnabled :: bool
  v_startAskpass :: "('w, nat) promise"
  v_usedHostPassword :: "nat \<Rightarrow> 'w \<Rightarrow> bool"
  v_evictHostPasswords :: "nat \<Rightarrow> ('w, unit) promise"
  v_findFreePort :: "('w, nat) promise"
  v_settings :: ssh_settings
  v_win32 :: bool
  v_extensionPath :: string
  v_nodeBinary :: string
  v_askpassAddress :: "nat \<Rightarrow> string \<times> string"
  v_connect :: "raw_destination \<Rightarrow> ssh_options \<Rightarrow> ('w, nat) promise"
  v_install :: "'w install_env"
  v_product :: product_info
  v_tunnel :: "'w tunnel_env"
  v_localPort :: "nat \<Rightarrow> ('w, unit) promise"
  v_newClient :: "nat \<Rightarrow> int \<Rightarrow> string \<Rightarrow> 'w \<Rightarrow> nat \<times> 'w"
  v_spawn :: "nat \<Rightarrow> string option \<Rightarrow> string list \<Rightarrow> 'w \<Rightarrow> nat \<times> 'w"
  v_agentReady :: "nat \<Rightarrow> string \<Rightarrow> ('w, bool) promise"
  v_random :: "'w \<Rightarrow> bytes"
  v_awaitPromise :: "nat \<Rightarrow> ('w, nat) promise"

record acquire_opts =
  ao_share :: bool
  ao_install :: bool
  ao_agent :: bool

section \<open>Starting the transport's client\<close>

definition modify_world :: "('w \<Rightarrow> 'w) \<Rightarrow> ('w, unit) promise" where
  "modify_world g w = (Inr (), g w)"

text \<open>\<^verbatim>\<open>startTransportClient\<close>: the client is routed through the connection and becomes the transport's.\<close>

definition new_client_for :: "('x resolver_scheme) resolver_env \<Rightarrow> nat \<Rightarrow> int \<times> string \<Rightarrow> ('x resolver_scheme, unit) promise" where
  "new_client_for E a t w =
     (let w1 = upd_shared a (\<lambda>s. s\<lparr>sh_transportPort := fst t, sh_transportToken := snd t\<rparr>) w;
          (k, w2) = v_newClient E (sh_socksPort (r_shared w1 a)) (fst t) (snd t) w1
      in (Inr (), upd_shared a (\<lambda>s. s\<lparr>sh_client := Some k\<rparr>) (start_effects [ClientRouted (sh_conn (r_shared w2 a)) k] w2)))"

definition start_client ::
    "('x resolver_scheme) resolver_env \<Rightarrow> nat \<Rightarrow> string \<Rightarrow> string \<Rightarrow> ('x resolver_scheme, unit) promise" where
  "start_client E a home arch w =
     await (startTransport (v_tunnel E) (v_conn E (sh_conn (r_shared w a))) home arch (sh_socksPort (r_shared w a)))
       (new_client_for E a) w"

definition go_transport_failed :: "string \<Rightarrow> js_error" where
  "go_transport_failed msg =
     plain_error (''Failed to start the Go transport on the remote: '' @ msg @ ''. ''
       @ ''The session path requires the transport; falling back to ''
       @ ''base64 would mask the real failure. See the log for details.'')"

definition wait_local_port :: "'w resolver_env \<Rightarrow> nat \<Rightarrow> ('w, unit) promise" where
  "wait_local_port E port = waitForPort (te_timer (v_tunnel E)) (v_localPort E) port 10000"

text \<open>The callback \<^verbatim>\<open>onProbed\<close>: the session path needs the transport before the installation.\<close>

definition on_probed ::
    "('x resolver_scheme) resolver_env \<Rightarrow> nat \<Rightarrow> bool \<Rightarrow> nat option \<Rightarrow> string \<Rightarrow> string \<Rightarrow> ('x resolver_scheme, unit) promise" where
  "on_probed E a isSession sessionSocksPort home arch =
     await (modify_world (upd_shared a (\<lambda>s. s\<lparr>sh_home := home, sh_arch := arch\<rparr>))) (\<lambda>_ w.
       if \<not> isSession then (Inr (), w)
       else let sp = nullish (v_getSocksPort E (sh_conn (r_shared w a))) (nullish sessionSocksPort 0)
            in await (wait_local_port E sp) (\<lambda>_.
               await (modify_world (upd_shared a (\<lambda>s. s\<lparr>sh_socksPort := sp\<rparr>))) (\<lambda>_.
               catching (start_client E a home arch) (\<lambda>err. reject (go_transport_failed (err_message err))))) w)"

section \<open>Creating a transport\<close>

definition maybeStartAskpass :: "'w resolver_env \<Rightarrow> ('w, nat option) promise" where
  "maybeStartAskpass E = (if v_askpassEnabled E then await (v_startAskpass E) (\<lambda>p. resolve (Some p)) else resolve None)"

text \<open>The options that are passed to the connection factory; the rest comes from the destination.\<close>

definition no_options :: ssh_options where
  "no_options = \<lparr>opt_host = [], opt_sshPath = None, opt_configFile = None, opt_extraArgs = None, opt_askpass = None,
     opt_askpassScript = None, opt_askpassMain = None, opt_nodePath = None, opt_handshakeTimeoutMs = None,
     opt_tcpTimeoutSeconds = None, opt_socksPort = None\<rparr>"

definition connect_options :: "'w resolver_env \<Rightarrow> nat option \<Rightarrow> nat option \<Rightarrow> ssh_options" where
  "connect_options E ask sessionSocksPort =
     (let opts = askpassOptions (v_win32 E) (v_extensionPath E) (v_nodeBinary E) (map_option (v_askpassAddress E) ask)
                   (connectionExtras (v_settings E) no_options)
      in case falsy_nat sessionSocksPort of None \<Rightarrow> opts | Some p \<Rightarrow> opts\<lparr>opt_socksPort := Some p\<rparr>)"

text \<open>The object before it is probed.\<close>

definition fresh_shared :: "string \<Rightarrow> nat \<Rightarrow> bool \<Rightarrow> nat option \<Rightarrow> shared_transport" where
  "fresh_shared authority conn isSession ask =
     no_shared\<lparr>sh_authority := authority, sh_conn := conn, sh_isSession := isSession, sh_askpass := ask, sh_refs := 1\<rparr>"

definition alloc_shared :: "shared_transport \<Rightarrow> ('x resolver_scheme, nat) promise" where
  "alloc_shared s w = (Inr (r_next w), upd_shared (r_next w) (\<lambda>_. s) w\<lparr>r_next := Suc (r_next w)\<rparr>)"

text \<open>The optional installation fills in what it found and names the agent's link.\<close>

definition record_install ::
    "('x resolver_scheme) resolver_env \<Rightarrow> string \<Rightarrow> nat \<Rightarrow> install_result \<Rightarrow> ('x resolver_scheme, unit) promise" where
  "record_install E authority a res w =
     (let (i, w1) = agentLinkId (v_random E w) authority w
      in (Inr (), upd_shared a (\<lambda>s. s\<lparr>sh_home := ir_home res, sh_arch := ir_arch res, sh_installPath := ir_installPath res,
                                      sh_agent := Some (ir_home res, agentLinkPath (ir_home res) i)\<rparr>) w1))"

definition install_on ::
    "('x resolver_scheme) resolver_env \<Rightarrow> string \<Rightarrow> nat \<Rightarrow> bool \<Rightarrow> nat option \<Rightarrow> ('x resolver_scheme, unit) promise" where
  "install_on E authority a isSession sessionSocksPort w =
     await (ensureServerInstalled ((v_install E)\<lparr>ie_onProbed := Some (on_probed E a isSession sessionSocksPort)\<rparr>)
              (v_conn E (sh_conn (r_shared w a))) (v_product E))
       (record_install E authority a) w"

text \<open>The session's ssh carries the forward; the agent is linked by a command of its own.\<close>

definition session_forward ::
    "('x resolver_scheme) resolver_env \<Rightarrow> nat \<Rightarrow> bool \<Rightarrow> nat option \<Rightarrow> ('x resolver_scheme, unit) promise" where
  "session_forward E a useAgent sessionSocksPort w =
     (let conn = sh_conn (r_shared w a);
          sp = nullish (v_getSocksPort E conn) (nullish sessionSocksPort 0)
      in await (if sh_socksPort (r_shared w a) = 0
                then await (modify_world (upd_shared a (\<lambda>s. s\<lparr>sh_socksPort := sp\<rparr>))) (\<lambda>_. wait_local_port E sp)
                else resolve ()) (\<lambda>_ w1.
           case (useAgent, sh_agent (r_shared w1 a)) of
             (True, Some (home, link)) \<Rightarrow>
               (let (command, marker) = agentForwardCommandOneshot (v_random E w1) home link
                in await (c_exec (v_conn E conn) command None) (\<lambda>agentResult.
                     modify_world (upd_shared a (\<lambda>s. s\<lparr>sh_agentForwarded :=
                       nullish (parseAgentForwardReady (out_stdout agentResult) marker) False\<rparr>))) w1)
           | _ \<Rightarrow> (Inr (), w1)) w)"

text \<open>\<^verbatim>\<open>Promise.all\<close> of two: both run; with two failures one of the errors is reported, here the first.\<close>

definition promise_all :: "('w, 'a) promise \<Rightarrow> ('w, 'b) promise \<Rightarrow> ('w, 'a \<times> 'b) promise" where
  "promise_all p q w =
     (let (x, w1) = p w; (y, w2) = q w1
      in (case (x, y) of (Inl e, _) \<Rightarrow> Inl e | (_, Inl e) \<Rightarrow> Inl e | (Inr u, Inr v) \<Rightarrow> Inr (u, v), w2))"

definition spawned_forward ::
    "('x resolver_scheme) resolver_env \<Rightarrow> nat \<Rightarrow> bool \<Rightarrow> ('x resolver_scheme, unit) promise" where
  "spawned_forward E a useAgent =
     await (v_findFreePort E) (\<lambda>port w.
       let w1 = upd_shared a (\<lambda>s. s\<lparr>sh_socksPort := port\<rparr>) w;
           (command, args, marker) = startSocksForward (v_random E w1) port (if useAgent then sh_agent (r_shared w1 a) else None);
           (p, w2) = v_spawn E (sh_conn (r_shared w1 a)) command args w1;
           w3 = upd_shared a (\<lambda>s. s\<lparr>sh_forward := Some p\<rparr>) w2
       in await (promise_all (wait_local_port E port)
                   (case marker of Some m \<Rightarrow> v_agentReady E p m | None \<Rightarrow> resolve False))
            (\<lambda>(_, agentForwarded). modify_world (upd_shared a (\<lambda>s. s\<lparr>sh_agentForwarded := agentForwarded\<rparr>))) w3)"

definition build_transport ::
    "('x resolver_scheme) resolver_env \<Rightarrow> string \<Rightarrow> raw_destination \<Rightarrow> acquire_opts \<Rightarrow> nat option \<Rightarrow> ('x resolver_scheme, nat) promise" where
  "build_transport E authority dest opts ask w =
     (let isSession = v_isSession E w
      in await (if isSession then await (v_findFreePort E) (\<lambda>p. resolve (Some p)) else resolve None) (\<lambda>sessionSocksPort.
         await (v_connect E dest (connect_options E ask sessionSocksPort)) (\<lambda>conn.
         await (alloc_shared (fresh_shared authority conn isSession ask)) (\<lambda>a.
         await (if ao_install opts then install_on E authority a isSession sessionSocksPort else resolve ()) (\<lambda>_.
         await (if isSession then session_forward E a (ao_agent opts) sessionSocksPort
                else spawned_forward E a (ao_agent opts)) (\<lambda>_.
         await (modify_world (start_effects [MonitorStarted a])) (\<lambda>_.
         resolve a)))))) w)"

definition evict_if_used :: "'w resolver_env \<Rightarrow> nat option \<Rightarrow> ('w, unit) promise" where
  "evict_if_used E ask w =
     (case ask of
        Some p \<Rightarrow> if v_usedHostPassword E p w then v_evictHostPasswords E p w else (Inr (), w)
      | None \<Rightarrow> (Inr (), w))"

definition create_failed ::
    "('x resolver_scheme) resolver_env \<Rightarrow> nat option \<Rightarrow> js_error \<Rightarrow> ('x resolver_scheme, nat) promise" where
  "create_failed E ask err =
     await (evict_if_used E ask) (\<lambda>_.
     await (modify_world (case ask of Some p \<Rightarrow> start_effects [AskpassStopped p] | None \<Rightarrow> id)) (\<lambda>_.
     reject err))"

definition createTransport ::
    "('x resolver_scheme) resolver_env \<Rightarrow> string \<Rightarrow> raw_destination \<Rightarrow> acquire_opts \<Rightarrow> ('x resolver_scheme, nat) promise" where
  "createTransport E authority dest opts =
     await (maybeStartAskpass E) (\<lambda>ask.
       catching (build_transport E authority dest opts ask) (create_failed E ask))"

section \<open>Acquiring a transport\<close>

text \<open>\<^verbatim>\<open>conn.exec("true", 5_000)\<close>: an exit code other than 0, or an exception, is a dead connection.\<close>

definition conn_alive :: "'w conn \<Rightarrow> 'w \<Rightarrow> bool \<times> 'w" where
  "conn_alive c w =
     (case c_exec c ''true'' (Some 5000) w of
        (Inl e, w') \<Rightarrow> (False, w')
      | (Inr r, w') \<Rightarrow> (out_exitCode r = Some 0 \<or> out_exitCode r = None, w'))"

text \<open>The registered transport, if it is still there and answers, gains a reference.\<close>

definition reuse_existing ::
    "('x resolver_scheme) resolver_env \<Rightarrow> nat option \<Rightarrow> 'x resolver_scheme \<Rightarrow> nat option \<times> 'x resolver_scheme" where
  "reuse_existing E existing w =
     (case existing of
        None \<Rightarrow> (None, w)
      | Some a \<Rightarrow>
          if sh_dead (r_shared w a) then (None, w)
          else let (alive, w1) = conn_alive (v_conn E (sh_conn (r_shared w a))) w
               in if alive then (Some a, upd_shared a (\<lambda>s. s\<lparr>sh_refs := sh_refs s + 1\<rparr>) w1)
                  else (None, upd_shared a (\<lambda>s. s\<lparr>sh_dead := True\<rparr>) w1))"

definition drop_existing :: "string \<Rightarrow> nat option \<Rightarrow> 'x resolver_scheme \<Rightarrow> 'x resolver_scheme" where
  "drop_existing authority existing w =
     (case existing of
        None \<Rightarrow> w
      | Some a \<Rightarrow> (killSharedTransport a w)\<lparr>r_transports := AList.delete authority (r_transports w)\<rparr>)"

definition create_shared ::
    "('x resolver_scheme) resolver_env \<Rightarrow> string \<Rightarrow> raw_destination \<Rightarrow> acquire_opts \<Rightarrow> nat option \<Rightarrow> ('x resolver_scheme, nat) promise" where
  "create_shared E authority dest opts existing w =
     (let w1 = drop_existing authority existing w;
          w2 = w1\<lparr>r_promises := AList.update authority (r_next w1) (r_promises w1), r_next := Suc (r_next w1)\<rparr>
      in case createTransport E authority dest opts w2 of
           (Inl e, w3) \<Rightarrow> (Inl e, w3\<lparr>r_promises := AList.delete authority (r_promises w3)\<rparr>)
         | (Inr a, w3) \<Rightarrow> (Inr a, w3\<lparr>r_transports := AList.update authority a (r_transports w3),
                                       r_promises := AList.delete authority (r_promises w3)\<rparr>))"

partial_function (option) acquireTransport ::
    "('x resolver_scheme) resolver_env \<Rightarrow> string \<Rightarrow> raw_destination \<Rightarrow> acquire_opts \<Rightarrow> 'x resolver_scheme
     \<Rightarrow> (nat result \<times> 'x resolver_scheme) option" where
  "acquireTransport E authority dest opts w =
     (if \<not> ao_share opts then Some (createTransport E authority dest opts w)
      else case reuse_existing E (map_of (r_transports w) authority) w of
             (Some a, w1) \<Rightarrow> Some (Inr a, w1)
           | (None, w1) \<Rightarrow>
               (case map_of (r_promises w1) authority of
                  None \<Rightarrow> Some (create_shared E authority dest opts (map_of (r_transports w) authority) w1)
                | Some t \<Rightarrow>
                    (case v_awaitPromise E t w1 of
                       (Inl e, w2) \<Rightarrow> Some (Inl e, w2)
                     | (Inr a, w2) \<Rightarrow>
                         if sh_dead (r_shared w2 a) then acquireTransport E authority dest opts w2
                         else Some (Inr a, upd_shared a (\<lambda>s. s\<lparr>sh_refs := sh_refs s + 1\<rparr>) w2))))"

section \<open>Lemmas\<close>

lemma map_of_delete_same [simp]: "map_of (AList.delete k ps) k = None"
  by (simp add: delete_conv')

lemma map_of_update_same [simp]: "map_of (AList.update k v ps) k = Some v"
  by (simp add: update_conv')

lemma drop_existing_simps [simp]:
  "r_shared (drop_existing authority x w) = r_shared w" "r_flow (drop_existing authority x w) = r_flow w"
  "r_connections (drop_existing authority x w) = r_connections w" "r_promises (drop_existing authority x w) = r_promises w"
  by (simp_all add: drop_existing_def killSharedTransport_def split: option.splits)

lemma teardown_conn [simp]: "ConnClosed c \<in> set (teardown_effects a s) \<longleftrightarrow> c = sh_conn s"
  by (auto simp: teardown_effects_def Let_def split: option.splits if_splits)

lemma wait_local_port_up: "v_localPort E port w = (Inr (), w') \<Longrightarrow> wait_local_port E port w = (Inr (), w')"
proof -
  have "0 < n \<Longrightarrow> dial port w = (Inr (), w') \<Longrightarrow> tryConnect T dial port t start n w = (Inr (), w')" for T dial t start n
    by (cases n) auto
  then show "v_localPort E port w = (Inr (), w') \<Longrightarrow> wait_local_port E port w = (Inr (), w')"
    by (simp add: wait_local_port_def waitForPort_def)
qed

text \<open>A dead or silent transport is replaced: the world in which the new one is created.\<close>

definition replacing :: "string \<Rightarrow> nat option \<Rightarrow> 'x resolver_scheme \<Rightarrow> 'x resolver_scheme" where
  "replacing authority existing w =
     (let w1 = drop_existing authority existing w
      in w1\<lparr>r_promises := AList.update authority (r_next w1) (r_promises w1), r_next := Suc (r_next w1)\<rparr>)"

lemma replacing_simps [simp]:
  "r_shared (replacing authority x w) = r_shared w" "r_flow (replacing authority x w) = r_flow w"
  "r_connections (replacing authority x w) = r_connections w"
  "r_transports (replacing authority x w) = (case x of None \<Rightarrow> r_transports w | Some a \<Rightarrow> AList.delete authority (r_transports w))"
  "r_effects (replacing authority x w) = r_effects w @ (case x of None \<Rightarrow> [] | Some a \<Rightarrow> teardown_effects a (r_shared w a))"
  by (simp_all add: replacing_def Let_def drop_existing_def killSharedTransport_def split: option.splits)

lemma create_shared_success:
  assumes "createTransport E authority dest opts (replacing authority existing w) = (Inr b, w2)"
  shows "create_shared E authority dest opts existing w
       = (Inr b, w2\<lparr>r_transports := AList.update authority b (r_transports w2), r_promises := AList.delete authority (r_promises w2)\<rparr>)"
  using assms by (simp add: create_shared_def replacing_def Let_def)

lemma acquire_creates:
  assumes "ao_share opts" and "reuse_existing E (map_of (r_transports w) authority) w = (None, w1)"
    and "map_of (r_promises w1) authority = None"
  shows "acquireTransport E authority dest opts w
       = Some (create_shared E authority dest opts (map_of (r_transports w) authority) w1)"
  by (subst acquireTransport.simps) (simp add: assms)

lemma acquire_reuses:
  assumes "ao_share opts" and "map_of (r_transports w) authority = Some a" and "\<not> sh_dead (r_shared w a)"
    and "conn_alive (v_conn E (sh_conn (r_shared w a))) w = (True, w1)"
  shows "acquireTransport E authority dest opts w = Some (Inr a, upd_shared a (\<lambda>s. s\<lparr>sh_refs := sh_refs s + 1\<rparr>) w1)"
  by (subst acquireTransport.simps) (simp add: assms reuse_existing_def)

section \<open>Concrete environments\<close>

text \<open>Everything succeeds at once; connection 7 is made, and the local port answers iff \<open>up\<close>.\<close>

definition plain_env :: "bool \<Rightarrow> bool \<Rightarrow> resolver resolver_env" where
  "plain_env session up =
     \<lparr>v_conn = \<lambda>_. fixed_conn (printed []), v_getSocksPort = \<lambda>_. None, v_isSession = \<lambda>_. session, v_askpassEnabled = False,
      v_startAskpass = reject type_error, v_usedHostPassword = \<lambda>_ _. False, v_evictHostPasswords = \<lambda>_. resolve (),
      v_findFreePort = resolve 1080, v_settings = \<lparr>set_sshPath = None, set_configFile = None, set_handshakeTimeoutMs = None, set_tcpTimeoutSeconds = None\<rparr>,
      v_win32 = False, v_extensionPath = [], v_nodeBinary = [], v_askpassAddress = \<lambda>_. ([], []), v_connect = \<lambda>_ _. resolve 7,
      v_install = \<lparr>ie_nonce = [], ie_os = None, ie_onProbed = None, ie_extensionPath = [], ie_readFile = \<lambda>_. Inl type_error,
                   ie_fetch = \<lambda>_. reject type_error, ie_nearest = \<lambda>_. reject type_error, ie_adapterUrl = \<lambda>_ _ _ _. reject type_error,
                   ie_download = \<lambda>_. reject type_error, ie_computeHash = \<lambda>_ _. []\<rparr>,
      v_product = \<lparr>commit = [], quality = [], version = [], release = [], productVersion = None, windsurfVersion = None,
                   ideVersion = None, serverApplicationName = [], serverDataFolderName = [], serverDownloadUrlTemplate = None,
                   checksumMethod = None, checksumAlgo = None, manifestTemplate = None, manifestField = None,
                   verifyChecksum = False, onNoChecksum = []\<rparr>,
      v_tunnel = \<lparr>te_timer = \<lparr>now_ms = \<lambda>_. 0, pause = \<lambda>_ w. w\<rparr>,
                  te_alive = \<lambda>_ _ _ w. (False, w), te_binary = \<lambda>_. Inl type_error\<rparr>,
      v_localPort = (\<lambda>_. if up then resolve () else reject type_error), v_newClient = \<lambda>_ _ _ w. (0, w), v_spawn = \<lambda>_ _ _ w. (9, w),
      v_agentReady = \<lambda>_ _. resolve False, v_random = \<lambda>_. [], v_awaitPromise = \<lambda>_. reject type_error\<rparr>"

definition plain_dest :: raw_destination where
  "plain_dest = \<lparr>raw_host = JStr ''h'', raw_user = None, raw_port = None\<rparr>"

section \<open>Properties\<close>

text \<open>C24. One transport per authority: a transport that was created for an authority on the session path is
  registered under it, and every later request for that authority, as long as the transport
  answers, gets the same one and takes one more reference; no request waits for a creation that
  is over.\<close>

theorem acquire_shares:
  assumes "ao_share opts" and "ao_share opts'" and "map_of (r_transports w) authority = None" and "map_of (r_promises w) authority = None"
    and "createTransport E authority dest opts (replacing authority None w) = (Inr a, w1)" and "\<not> sh_dead (r_shared w1 a)"
  shows "\<exists>w2. acquireTransport E authority dest opts w = Some (Inr a, w2) \<and> map_of (r_transports w2) authority = Some a
           \<and> map_of (r_promises w2) authority = None \<and> r_shared w2 = r_shared w1
           \<and> (\<forall>w3. conn_alive (v_conn E (sh_conn (r_shared w2 a))) w2 = (True, w3) \<longrightarrow>
                acquireTransport E authority dest opts' w2 = Some (Inr a, upd_shared a (\<lambda>s. s\<lparr>sh_refs := sh_refs s + 1\<rparr>) w3))"
proof -
  let ?w2 = "w1\<lparr>r_transports := AList.update authority a (r_transports w1), r_promises := AList.delete authority (r_promises w1)\<rparr>"
  have "acquireTransport E authority dest opts w = Some (Inr a, ?w2)"
    using acquire_creates [OF assms(1), of E w authority w dest] create_shared_success [OF assms(5)] assms(3,4)
    by (simp add: reuse_existing_def)
  then show ?thesis using acquire_reuses [OF assms(2), of ?w2 authority a E] assms(6) by (intro exI [of _ ?w2]) simp
qed

lemma plain_transport:
  "createTransport (plain_env True True) authority dest \<lparr>ao_share = True, ao_install = False, ao_agent = False\<rparr> w
   = (Inr (r_next w), start_effects [MonitorStarted (r_next w)]
        (upd_shared (r_next w) (\<lambda>s. s\<lparr>sh_socksPort := 1080\<rparr>)
          (upd_shared (r_next w) (\<lambda>_. fresh_shared authority 7 True None) w\<lparr>r_next := Suc (r_next w)\<rparr>)))"
proof -
  have up: "wait_local_port (plain_env True True) p w = (Inr (), w)" for p w
    by (rule wait_local_port_up) (simp add: plain_env_def resolve_def)
  have "v_isSession (plain_env True True) w" "\<not> v_askpassEnabled (plain_env True True)" "v_findFreePort (plain_env True True) = resolve 1080"
    "v_connect (plain_env True True) = (\<lambda>_ _. resolve 7)" "v_getSocksPort (plain_env True True) = (\<lambda>_. None)" for w
    by (simp_all add: plain_env_def)
  then show ?thesis
    by (simp add: createTransport_def maybeStartAskpass_def build_transport_def Let_def await_def resolve_def up
        catching_def alloc_shared_def session_forward_def modify_world_def fresh_shared_def no_shared_def)
qed

theorem acquire_shares_witness:
  "\<exists>w2. acquireTransport (plain_env True True) ''a'' plain_dest \<lparr>ao_share = True, ao_install = False, ao_agent = False\<rparr> new_resolver
        = Some (Inr 1, w2) \<and> map_of (r_transports w2) ''a'' = Some 1"
proof -
  let ?w = "replacing ''a'' None new_resolver"
  have n: "r_next ?w = 1" by (simp add: replacing_def drop_existing_def new_resolver_def)
  have "map_of (r_transports new_resolver) ''a'' = None" "map_of (r_promises new_resolver) ''a'' = None" by (simp_all add: new_resolver_def)
  from acquire_shares [where opts = "\<lparr>ao_share = True, ao_install = False, ao_agent = False\<rparr>" and dest = plain_dest and
      opts' = "\<lparr>ao_share = True, ao_install = False, ao_agent = False\<rparr>", OF _ _ this plain_transport] n
  show ?thesis by (auto simp: fresh_shared_def no_shared_def)
qed

text \<open>Two requests whose probes of the same registered transport overlap: when the first has replaced
  the transport before the second's probe fails, the second unregisters the replacement without
  closing it and creates a third; the replacement keeps its references but no request finds
  it again.\<close>

theorem late_probe_orphans:
  assumes "ao_share opts" and "map_of (r_transports w) authority = Some a" and "\<not> sh_dead (r_shared w a)"
    and "conn_alive (v_conn E (sh_conn (r_shared w a))) w = (False, w1)"
    and "map_of (r_transports w1) authority = Some b" and "sh_conn (r_shared w1 b) \<noteq> sh_conn (r_shared w1 a)"
    and "map_of (r_promises w1) authority = None"
  defines "w2 \<equiv> replacing authority (Some a) (upd_shared a (\<lambda>s. s\<lparr>sh_dead := True\<rparr>) w1)"
  shows "acquireTransport E authority dest opts w
         = Some (case createTransport E authority dest opts w2 of
                   (Inr c, w3) \<Rightarrow> (Inr c, w3\<lparr>r_transports := AList.update authority c (r_transports w3),
                                               r_promises := AList.delete authority (r_promises w3)\<rparr>)
                 | (Inl e, w3) \<Rightarrow> (Inl e, w3\<lparr>r_promises := AList.delete authority (r_promises w3)\<rparr>))
       \<and> map_of (r_transports w2) authority = None \<and> sh_refs (r_shared w2 b) = sh_refs (r_shared w1 b)
       \<and> (ConnClosed (sh_conn (r_shared w1 b)) \<in> set (r_effects w2) \<longrightarrow> ConnClosed (sh_conn (r_shared w1 b)) \<in> set (r_effects w1))"
proof -
  have r: "reuse_existing E (map_of (r_transports w) authority) w = (None, upd_shared a (\<lambda>s. s\<lparr>sh_dead := True\<rparr>) w1)"
    using assms(2-4) by (simp add: reuse_existing_def)
  have "create_shared E authority dest opts (Some a) (upd_shared a (\<lambda>s. s\<lparr>sh_dead := True\<rparr>) w1)
      = (case createTransport E authority dest opts w2 of
           (Inr c, w3) \<Rightarrow> (Inr c, w3\<lparr>r_transports := AList.update authority c (r_transports w3),
                                       r_promises := AList.delete authority (r_promises w3)\<rparr>)
         | (Inl e, w3) \<Rightarrow> (Inl e, w3\<lparr>r_promises := AList.delete authority (r_promises w3)\<rparr>))"
    by (simp add: create_shared_def w2_def replacing_def Let_def split: prod.splits sum.splits)
  then show ?thesis
    using acquire_creates [OF assms(1) r, of dest] assms(2,6,7) by (auto simp: w2_def)
qed

text \<open>During the probe of transport 0 another request registers transport 5, over connection 8.\<close>

definition registered_meanwhile :: "resolver \<Rightarrow> resolver" where
  "registered_meanwhile w = upd_shared 5 (\<lambda>_. fresh_shared ''a'' 8 True None) w\<lparr>r_transports := [(''a'', 5)]\<rparr>"

theorem late_probe_orphans_witness:
  "map_of (r_transports (replacing ''a'' (Some 0) (upd_shared 0 (\<lambda>s. s\<lparr>sh_dead := True\<rparr>)
     (registered_meanwhile (new_resolver\<lparr>r_transports := [(''a'', 0)]\<rparr>))))) ''a'' = None"
proof -
  let ?w = "new_resolver\<lparr>r_transports := [(''a'', 0)]\<rparr>"
  let ?E = "(plain_env True True)\<lparr>v_conn := \<lambda>_. (fixed_conn (printed []))\<lparr>c_exec := \<lambda>_ _ w. (Inl type_error, registered_meanwhile w)\<rparr>\<rparr>"
  have "conn_alive (v_conn ?E (sh_conn (r_shared ?w 0))) ?w = (False, registered_meanwhile ?w)" by (simp add: conn_alive_def)
  then show ?thesis
    using late_probe_orphans [of "\<lparr>ao_share = True, ao_install = False, ao_agent = False\<rparr>" ?w "''a''" 0 ?E "registered_meanwhile ?w" 5]
    by (simp add: registered_meanwhile_def new_resolver_def no_shared_def fresh_shared_def)
qed

text \<open>A creation that fails after the forward was spawned closes nothing but the askpass server: when
  the local port never answers, the error is reported, the askpass server is stopped, and
  the ssh connection and the forward process stay as they are.\<close>

theorem failed_creation_leaks:
  assumes "\<not> ao_install opts" and "\<And>w. \<not> v_isSession E w"
    and "maybeStartAskpass E w = (Inr ask, w1)" and "v_connect E dest (connect_options E ask None) w1 = (Inr c, w2)"
    and "alloc_shared (fresh_shared authority c False ask) w2 = (Inr a, w3)"
    and "v_findFreePort E w3 = (Inr port, w4)" and "sh_agent (r_shared w4 a) = None"
    and "v_spawn E (sh_conn (r_shared w4 a)) None (forward_args port False) (upd_shared a (\<lambda>s. s\<lparr>sh_socksPort := port\<rparr>) w4) = (p, w5)"
    and "wait_local_port E port (upd_shared a (\<lambda>s. s\<lparr>sh_forward := Some p\<rparr>) w5) = (Inl e, w6)"
    and "evict_if_used E ask w6 = (Inr (), w7)"
  shows "\<exists>w8. createTransport E authority dest opts w = (Inl e, w8)
           \<and> r_effects w8 = r_effects w7 @ (case ask of None \<Rightarrow> [] | Some h \<Rightarrow> [AskpassStopped h])
           \<and> r_transports w8 = r_transports w7"
proof -
  have f: "startSocksForward (v_random E (upd_shared a (\<lambda>s. s\<lparr>sh_socksPort := port\<rparr>) w4)) port
      (if ao_agent opts then sh_agent (r_shared (upd_shared a (\<lambda>s. s\<lparr>sh_socksPort := port\<rparr>) w4) a) else None)
      = (None, forward_args port False, None)"
    using assms(7) by (simp add: startSocksForward_def)
  have "spawned_forward E a (ao_agent opts) w3 = (Inl e, w6)"
    using assms(6,8,9) f by (simp add: spawned_forward_def await_def promise_all_def resolve_def)
  then have "build_transport E authority dest opts ask w1 = (Inl e, w6)"
    using assms(1,2,4,5) by (simp add: build_transport_def Let_def await_def resolve_def)
  then show ?thesis
    using assms(3,10)
    by (cases ask) (simp_all add: createTransport_def await_def catching_def create_failed_def modify_world_def reject_def)
qed

theorem failed_creation_leaks_witness:
  "\<exists>w8. createTransport ((plain_env False False)\<lparr>v_askpassEnabled := True, v_startAskpass := resolve 3\<rparr>) ''a'' plain_dest
           \<lparr>ao_share = False, ao_install = False, ao_agent = False\<rparr> new_resolver
         = (Inl (port_not_ready 1080 10000), w8) \<and> r_effects w8 = [AskpassStopped 3]"
proof -
  let ?E = "(plain_env False False)\<lparr>v_askpassEnabled := True, v_startAskpass := resolve 3\<rparr>"
  have down: "wait_local_port ?E 1080 w = (Inl (port_not_ready 1080 10000), w)" for w
  proof -
    have "tryConnect (te_timer (v_tunnel ?E)) (v_localPort ?E) 1080 10000 start n w = (Inl (port_not_ready 1080 10000), w)" for start n
      by (induction n) (simp_all add: plain_env_def reject_def)
    then show ?thesis by (simp add: wait_local_port_def waitForPort_def)
  qed
  have e: "\<not> v_isSession ?E w" "maybeStartAskpass ?E w = (Inr (Some 3), w)" "v_connect ?E plain_dest (connect_options ?E (Some 3) None) w = (Inr 7, w)"
    "v_findFreePort ?E w = (Inr 1080, w)" "v_spawn ?E c x y w = (9, w)" "evict_if_used ?E (Some 3) w = (Inr (), w)" for w c x y
    by (simp_all add: plain_env_def maybeStartAskpass_def await_def resolve_def evict_if_used_def)
  from failed_creation_leaks [where E = ?E and opts = "\<lparr>ao_share = False, ao_install = False, ao_agent = False\<rparr>" and w = new_resolver and
      ask = "Some 3" and authority = "''a''" and dest = plain_dest, OF _ e(1) e(2) e(3) alloc_shared_def e(4) _ e(5) down e(6)]
  show ?thesis by (auto simp: fresh_shared_def no_shared_def new_resolver_def)
qed

end
