(* ===== verification/ResolveFlow.thy ===== *)
theory ResolveFlow
  imports Acquire
begin

text \<open>
  \<^verbatim>\<open>src/resolver/index.ts\<close>: \<^verbatim>\<open>resolve\<close>, \<^verbatim>\<open>resolveFlow\<close> and \<^verbatim>\<open>resolveExecServer\<close>, composed of the
  models of the lifecycle, the token files, the start of the server and the shared transport.
  A call that never returns has no result: an \<open>open_promise\<close> is \<^term>\<open>None\<close> then. Status items and
  logging are left out; the error message, its answer and the reload of the window are
  arguments.
\<close>

section \<open>Promises that may stay open\<close>

type_synonym ('w, 'a) open_promise = "'w \<Rightarrow> ('a result \<times> 'w) option"

definition settled :: "('w, 'a) promise \<Rightarrow> ('w, 'a) open_promise" where
  "settled p w = Some (p w)"

definition await_open :: "('w, 'a) open_promise \<Rightarrow> ('a \<Rightarrow> ('w, 'b) open_promise) \<Rightarrow> ('w, 'b) open_promise" where
  "await_open m k w =
     (case m w of
        None \<Rightarrow> None
      | Some (Inl e, w') \<Rightarrow> Some (Inl e, w')
      | Some (Inr x, w') \<Rightarrow> k x w')"

definition catching_open :: "('w, 'a) open_promise \<Rightarrow> (js_error \<Rightarrow> ('w, 'a) open_promise) \<Rightarrow> ('w, 'a) open_promise" where
  "catching_open m h w =
     (case m w of
        Some (Inl e, w') \<Rightarrow> h e w'
      | r \<Rightarrow> r)"

section \<open>The environment of a flow\<close>

record 'w flow_env =
  u_env :: "'w resolver_env"
  u_client :: "nat \<Rightarrow> 'w ztransport"
  u_waitForFile :: "nat \<Rightarrow> string \<Rightarrow> nat \<Rightarrow> ('w, bytes) promise"
  u_authFiles :: "auth_file list option"
  u_start :: "'w start_env"
  u_spawnServer :: "nat \<Rightarrow> string \<Rightarrow> bytes \<Rightarrow> 'w \<Rightarrow> (nat \<times> child_event list) \<times> 'w"
  u_random16 :: "'w \<Rightarrow> bytes"
  u_showError :: "string \<Rightarrow> ('w, bool) promise"
  u_reloadWindow :: "('w, unit) promise"

record resolved =
  rs_flow :: nat
  rs_connectionToken :: string
  rs_extensionHostEnv :: "string option"

definition shared_conn :: "'w flow_env \<Rightarrow> shared_transport \<Rightarrow> 'w conn" where
  "shared_conn U s = v_conn (u_env U) (sh_conn s)"

definition shared_client :: "'w flow_env \<Rightarrow> shared_transport \<Rightarrow> 'w ztransport option" where
  "shared_client U s = map_option (u_client U) (sh_client s)"

text \<open>\<^verbatim>\<open>dest.user ? `${dest.user}@${dest.host}` : dest.host\<close>\<close>

definition host_label :: "raw_destination \<Rightarrow> string" where
  "host_label d = (if json_truthy (raw_user d) then json_text (nullish (raw_user d) JNull) @ ''@'' @ json_text (raw_host d)
                   else json_text (raw_host d))"

section \<open>An earlier flow of the same authority\<close>

definition reuse_flow :: "('x resolver_scheme) flow_env \<Rightarrow> nat option \<Rightarrow> 'x resolver_scheme \<Rightarrow> nat option \<times> 'x resolver_scheme" where
  "reuse_flow U prev w =
     (case prev of
        None \<Rightarrow> (None, w)
      | Some f \<Rightarrow>
          (let s = r_shared w (fl_shared (r_flow w f))
           in if fl_dead (r_flow w f) \<or> sh_dead s then (None, w)
              else let (alive, w1) = conn_alive (shared_conn U s) w
                   in if alive then (Some f, w1) else (None, upd_flow f (\<lambda>x. x\<lparr>fl_dead := True\<rparr>) w1)))"

definition resolved_flow :: "nat \<Rightarrow> 'x resolver_scheme \<Rightarrow> resolved" where
  "resolved_flow f w = \<lparr>rs_flow = f, rs_connectionToken = fl_connectionToken (r_flow w f), rs_extensionHostEnv = fl_env (r_flow w f)\<rparr>"

definition register_label :: "string \<Rightarrow> string \<Rightarrow> 'x resolver_scheme \<Rightarrow> 'x resolver_scheme" where
  "register_label authority hostLabel w =
     (if map_of (r_labels w) authority \<noteq> None then w else w\<lparr>r_labels := AList.update authority hostLabel (r_labels w)\<rparr>)"

definition forget_previous :: "string \<Rightarrow> nat option \<Rightarrow> 'x resolver_scheme \<Rightarrow> 'x resolver_scheme" where
  "forget_previous key prev w =
     (case prev of
        None \<Rightarrow> w
      | Some f \<Rightarrow> (killConnection f w)\<lparr>r_connections := AList.delete key (r_connections w)\<rparr>)"

section \<open>Obtaining a server\<close>

text \<open>A server for the flow: its port, its process, the token and the token's file.\<close>

record obtained =
  ob_port :: int
  ob_process :: "nat option"
  ob_token :: string
  ob_tokenFile :: string

definition truthy_int :: "int option \<Rightarrow> int option" where
  "truthy_int x = (case x of Some n \<Rightarrow> if n = 0 then None else Some n | None \<Rightarrow> None)"

definition reused_server ::
    "('x resolver_scheme) flow_env \<Rightarrow> shared_transport \<Rightarrow> int \<Rightarrow> ('x resolver_scheme, obtained) promise" where
  "reused_server U s port =
     await (readConnectionTokenFile (shared_conn U s) (sh_home s) (Some (sh_installPath s))) (\<lambda>existing w.
       if \<not> truthy existing
       then let token = generateToken (u_random16 U w)
            in await (writeConnectionTokenFile (shared_conn U s) (sh_home s) token (Some (sh_installPath s)))
                 (\<lambda>tokenFile. resolve \<lparr>ob_port = port, ob_process = None, ob_token = token, ob_tokenFile = tokenFile\<rparr>) w
       else (Inr \<lparr>ob_port = port, ob_process = None, ob_token = nullish existing [],
                  ob_tokenFile = sh_home s @ ''/.ssh-remote/conn-token-'' @ basename (sh_installPath s)\<rparr>, w))"

text \<open>The process of \<^verbatim>\<open>startServer\<close> and the events it will see; a timeout kills the process.\<close>

definition run_start_server ::
    "('x resolver_scheme) flow_env \<Rightarrow> shared_transport \<Rightarrow> string \<Rightarrow> string \<Rightarrow> ('x resolver_scheme, int \<times> nat option) open_promise" where
  "run_start_server U s tokenFile token w =
     (let S = u_start U;
          command = server_command (se_config S) (se_extensions S) (sh_home s) (sh_installPath s)
                      (serverApplicationName (v_product (u_env U))) tokenFile;
          ((p, es), w1) = u_spawnServer U (sh_conn s) command (server_stdin token) w;
          w2 = (if st_killed (startServer es) then start_effects [ServerKilled p] w1 else w1)
      in case st_result (startServer es) of
           None \<Rightarrow> None
         | Some (Inl e) \<Rightarrow> Some (Inl e, w2)
         | Some (Inr port) \<Rightarrow> Some (Inr (int port, Some p), w2))"

definition run_start_session ::
    "('x resolver_scheme) flow_env \<Rightarrow> shared_transport \<Rightarrow> string \<Rightarrow> string \<Rightarrow> ('x resolver_scheme, int \<times> nat option) open_promise" where
  "run_start_session U s tokenFile token =
     settled (await (startServerSession (u_start U) (shared_conn U s) (v_getSocksPort (u_env U) (sh_conn s)) (sh_home s)
                       (sh_installPath s) (serverApplicationName (v_product (u_env U))) tokenFile token
                       (map_option (u_waitForFile U) (sh_client s)))
                (\<lambda>port. resolve (int port, None)))"

definition release_lock :: "('x resolver_scheme) flow_env \<Rightarrow> nat \<Rightarrow> ('x resolver_scheme, unit) promise" where
  "release_lock U a w =
     (let s = r_shared w a in releaseResolveLock (shared_conn U s) (sh_home s) (sh_installPath s) (shared_client U s) w)"

definition started_server ::
    "('x resolver_scheme) flow_env \<Rightarrow> nat \<Rightarrow> bool \<Rightarrow> ('x resolver_scheme, obtained) open_promise" where
  "started_server U a locked w =
     (let s = r_shared w a;
          token = generateToken (u_random16 U w);
          tokenFile = sh_home s @ ''/.ssh-remote/conn-token'' @ ''-'' @ basename (sh_installPath s)
      in await_open
           (catching_open (if sh_isSession s then run_start_session U s tokenFile token else run_start_server U s tokenFile token)
              (\<lambda>err. settled (await (if locked then release_lock U a else resolve ()) (\<lambda>_. reject err))))
           (\<lambda>(port, p). settled (resolve \<lparr>ob_port = port, ob_process = p, ob_token = token, ob_tokenFile = tokenFile\<rparr>)) w)"

section \<open>The flow\<close>

text \<open>The PID and port files of a new server, and the end of the lock.\<close>

definition conclude_start ::
    "('x resolver_scheme) flow_env \<Rightarrow> nat \<Rightarrow> bool \<Rightarrow> bool \<Rightarrow> obtained \<Rightarrow> ('x resolver_scheme, unit) promise" where
  "conclude_start U a locked reused ob w =
     (let s = r_shared w a in catching
       (if \<not> reused
        then await (finalizeServerStart (shared_conn U s) (sh_home s) (sh_installPath s) (nat (ob_port ob)) locked (shared_client U s))
               (\<lambda>_. resolve ())
        else if locked then release_lock U a
        else resolve ())
       (\<lambda>err. await (modify_world (case ob_process ob of Some p \<Rightarrow> start_effects [ServerKilled p] | None \<Rightarrow> id)) (\<lambda>_. reject err)) w)"

definition add_flow :: "string \<Rightarrow> flow \<Rightarrow> 'x resolver_scheme \<Rightarrow> nat \<times> 'x resolver_scheme" where
  "add_flow key fl w =
     (let f = r_next w;
          w1 = upd_flow f (\<lambda>_. fl) w\<lparr>r_next := Suc f\<rparr>;
          w2 = upd_shared (fl_shared fl) (\<lambda>s. s\<lparr>sh_flows := insert f (sh_flows s)\<rparr>) w1
      in (f, w2\<lparr>r_connections := AList.update key f (r_connections w2)\<rparr>))"

definition resolve_flow_of :: "string \<Rightarrow> nat \<Rightarrow> shared_transport \<Rightarrow> bool \<Rightarrow> obtained \<Rightarrow> flow" where
  "resolve_flow_of authority a s reused ob =
     \<lparr>fl_shared = a, fl_key = authority, fl_kind = KindResolve, fl_server = ob_process ob, fl_remotePort = ob_port ob,
      fl_tokenFile = ob_tokenFile ob, fl_connectionToken = ob_token ob, fl_ownsServer = \<not> reused,
      fl_env = (if sh_agentForwarded s then Some (snd (nullish (sh_agent s) ([], []))) else None), fl_dead = False\<rparr>"

definition connect_flow ::
    "('x resolver_scheme) flow_env \<Rightarrow> string \<Rightarrow> nat \<Rightarrow> ('x resolver_scheme, resolved) open_promise" where
  "connect_flow U authority a w =
     (let s = r_shared w a
      in await_open (settled (acquireLockAndProbeZombie (shared_conn U s) (sh_home s) (sh_installPath s) (shared_client U s))) (\<lambda>lockProbe.
         await_open (settled (copyAuthFiles (shared_conn U s) (sh_home s) (u_authFiles U))) (\<lambda>_.
         await_open (case truthy_int (lp_reusePort lockProbe) of
                       Some port \<Rightarrow> settled (reused_server U s port)
                     | None \<Rightarrow> started_server U a (lp_locked lockProbe)) (\<lambda>ob.
         let reused = (truthy_int (lp_reusePort lockProbe) \<noteq> None)
         in await_open (settled (conclude_start U a (lp_locked lockProbe) reused ob)) (\<lambda>_ w1.
              let (f, w2) = add_flow authority (resolve_flow_of authority a (r_shared w1 a) reused ob) w1
              in Some (Inr (resolved_flow f w2), w2))))) w)"

definition resolver_resolveFlow ::
    "('x resolver_scheme) flow_env \<Rightarrow> string \<Rightarrow> string \<Rightarrow> nat \<Rightarrow> ('x resolver_scheme, resolved) open_promise" where
  "resolver_resolveFlow U authority hostLabel a w =
     (let prev = map_of (r_connections w) authority
      in case reuse_flow U prev w of
           (Some f, w1) \<Rightarrow> Some (Inr (resolved_flow f w1), w1)
         | (None, w1) \<Rightarrow>
             connect_flow U authority a (forget_previous authority prev (register_label authority hostLabel w1)))"

section \<open>Resolving an authority\<close>

definition not_ssh_remote :: "string \<Rightarrow> js_error" where
  "not_ssh_remote authority = plain_error (''Not an ssh-remote authority: '' @ authority)"

definition evict_shared :: "('x resolver_scheme) flow_env \<Rightarrow> nat option \<Rightarrow> ('x resolver_scheme, unit) promise" where
  "evict_shared U a w = evict_if_used (u_env U) (case a of None \<Rightarrow> None | Some a \<Rightarrow> sh_askpass (r_shared w a)) w"

definition resolve_failed ::
    "('x resolver_scheme) flow_env \<Rightarrow> string \<Rightarrow> nat option \<Rightarrow> js_error \<Rightarrow> ('x resolver_scheme, resolved) open_promise" where
  "resolve_failed U hostLabel a err =
     settled (await (evict_shared U a) (\<lambda>_.
              await (u_showError U (''SSH connection to '' @ hostLabel @ '' failed: '' @ err_message err)) (\<lambda>retry.
              await (if retry then u_reloadWindow U else resolve ()) (\<lambda>_.
              reject err))))"

text \<open>The session path looks for a flow to reuse before it acquires a transport.\<close>

definition resolve_connected ::
    "('x resolver_scheme) flow_env \<Rightarrow> string \<Rightarrow> raw_destination \<Rightarrow> bool \<Rightarrow> ('x resolver_scheme, resolved) open_promise" where
  "resolve_connected U authority dest isSession w =
     (case acquireTransport (u_env U) authority dest \<lparr>ao_share = isSession, ao_install = True, ao_agent = True\<rparr> w of
        None \<Rightarrow> None
      | Some (Inl err, w1) \<Rightarrow> resolve_failed U (host_label dest) None err w1
      | Some (Inr a, w1) \<Rightarrow>
          catching_open (resolver_resolveFlow U authority (host_label dest) a) (resolve_failed U (host_label dest) (Some a)) w1)"

definition resolver_resolve ::
    "('x resolver_scheme) flow_env \<Rightarrow> string \<Rightarrow> ('x resolver_scheme, resolved) open_promise" where
  "resolver_resolve U authority w =
     (case parseAuthority authority of
        None \<Rightarrow> Some (Inl (not_ssh_remote authority), w)
      | Some (_, payload) \<Rightarrow>
          (case decodeAuthority payload of
             Inl e \<Rightarrow> Some (Inl e, w)
           | Inr dest \<Rightarrow>
               (let isSession = v_isSession (u_env U) w
                in case (if isSession then reuse_flow U (map_of (r_connections w) authority) w else (None, w)) of
                     (Some f, w1) \<Rightarrow> Some (Inr (resolved_flow f w1), w1)
                   | (None, w1) \<Rightarrow> resolve_connected U authority dest isSession w1)))"

section \<open>Exec servers\<close>

text \<open>What the exec server is built from.\<close>

record exec_server_ref =
  es_conn :: nat
  es_socksPort :: nat
  es_client :: "nat option"

definition exec_key :: "string \<Rightarrow> string" where
  "exec_key authority = authority @ '':execServer''"

definition exec_flow_of :: "string \<Rightarrow> nat \<Rightarrow> flow" where
  "exec_flow_of authority a =
     \<lparr>fl_shared = a, fl_key = exec_key authority, fl_kind = KindExecServer, fl_server = None, fl_remotePort = 0,
      fl_tokenFile = [], fl_connectionToken = [], fl_ownsServer = False, fl_env = None, fl_dead = False\<rparr>"

definition attach_exec_flow :: "string \<Rightarrow> nat \<Rightarrow> 'x resolver_scheme \<Rightarrow> exec_server_ref \<times> 'x resolver_scheme" where
  "attach_exec_flow authority a w =
     (let prev = map_of (r_connections w) (exec_key authority);
          w1 = forget_previous (exec_key authority) prev w;
          (f, w2) = add_flow (exec_key authority) (exec_flow_of authority a) w1;
          s = r_shared w2 a
      in (\<lparr>es_conn = sh_conn s, es_socksPort = sh_socksPort s, es_client = sh_client s\<rparr>, w2))"

definition resolver_resolveExecServer ::
    "('x resolver_scheme) flow_env \<Rightarrow> string \<Rightarrow> ('x resolver_scheme, exec_server_ref) open_promise" where
  "resolver_resolveExecServer U authority w =
     (case parseAuthority authority of
        None \<Rightarrow> Some (Inl (not_ssh_remote authority), w)
      | Some (_, payload) \<Rightarrow>
          (case decodeAuthority payload of
             Inl e \<Rightarrow> Some (Inl e, w)
           | Inr dest \<Rightarrow>
               (let isSession = v_isSession (u_env U) w
                in case acquireTransport (u_env U) authority dest \<lparr>ao_share = isSession, ao_install = isSession, ao_agent = isSession\<rparr> w of
                     None \<Rightarrow> None
                   | Some (Inl err, w1) \<Rightarrow> Some (Inl err, w1)
                   | Some (Inr a, w1) \<Rightarrow> (let (x, w2) = attach_exec_flow authority a w1 in Some (Inr x, w2)))))"

section \<open>Lemmas\<close>

lemma await_open_settled: "await_open (settled m) k w = (case m w of (Inl e, w') \<Rightarrow> Some (Inl e, w') | (Inr x, w') \<Rightarrow> k x w')"
  by (simp add: await_open_def settled_def split: prod.splits sum.splits)

lemma forget_shared [simp]:
  "r_shared (forget_previous key (Some f) w) = r_shared (killConnection f w)"
  "r_transports (forget_previous key (Some f) w) = r_transports (killConnection f w)"
  "r_effects (forget_previous key (Some f) w) = r_effects (killConnection f w)"
  "r_connections (forget_previous key (Some f) w) = AList.delete key (r_connections w)"
  by (simp_all add: forget_previous_def)

lemma add_flow_props:
  assumes "add_flow key fl w = (f, w')"
  shows "r_next w = f \<and> r_flow w' f = fl \<and> map_of (r_connections w') key = Some f \<and> f \<in> sh_flows (r_shared w' (fl_shared fl))
       \<and> r_transports w' = r_transports w \<and> r_effects w' = r_effects w
       \<and> (\<forall>a. sh_refs (r_shared w' a) = sh_refs (r_shared w a) \<and> sh_dead (r_shared w' a) = sh_dead (r_shared w a)
              \<and> sh_socksPort (r_shared w' a) = sh_socksPort (r_shared w a))"
  using assms by (auto simp: add_flow_def Let_def update_conv' split: if_splits)

lemma connect_flow_success:
  assumes "connect_flow U authority a w = Some (Inr r, w')"
  obtains reused ob w1 where "add_flow authority (resolve_flow_of authority a (r_shared w1 a) reused ob) w1 = (rs_flow r, w')"
    and "r = resolved_flow (rs_flow r) w'"
  using assms unfolding connect_flow_def Let_def await_open_settled
  by (auto simp: await_open_def resolved_flow_def split: prod.splits sum.splits option.splits)

section \<open>Properties\<close>

text \<open>C25. What a successful resolve returns is the flow that is registered under the authority and attached
  to the transport, with its own token; a connection made for it goes through the SOCKS port
  that the transport has at that moment, so that a repaired forward is used, to the server's
  port; and once the server or the forward has died it fails with the error on which the editor
  reconnects, and the flow is not reused.\<close>

theorem resolved_flow_connects:
  assumes "connect_flow U authority a w = Some (Inr r, w1)" and "rs_flow r = f"
  shows "map_of (r_connections w1) authority = Some f \<and> f \<in> sh_flows (r_shared w1 a)
       \<and> rs_connectionToken r = fl_connectionToken (r_flow w1 f)
       \<and> (\<not> sh_dead (r_shared w1 a) \<longrightarrow>
            makeConnection dial hostLabel f (upd_shared a (\<lambda>s. s\<lparr>sh_socksPort := port\<rparr>) w1)
            = dial port (fl_remotePort (r_flow w1 f)) (upd_shared a (\<lambda>s. s\<lparr>sh_socksPort := port\<rparr>) w1))
       \<and> (\<forall>w2 \<in> {flow_server_closed f w1, upd_shared a (\<lambda>s. s\<lparr>sh_dead := True\<rparr>) w1}.
            makeConnection dial hostLabel f w2 = (Inl (dead_error hostLabel), w2)
          \<and> err_code (dead_error hostLabel) = Some ''ECONNREFUSED''
          \<and> reuse_flow U (map_of (r_connections w2) authority) w2 = (None, w2))"
proof -
  from assms obtain reused ob v where
    v: "add_flow authority (resolve_flow_of authority a (r_shared v a) reused ob) v = (f, w1)" and r: "r = resolved_flow f w1"
    by (metis connect_flow_success)
  note p = add_flow_props [OF v]
  from p have fl: "r_flow w1 f = resolve_flow_of authority a (r_shared v a) reused ob" by blast
  then have shared: "fl_shared (r_flow w1 f) = a" "\<not> fl_dead (r_flow w1 f)" by (simp_all add: resolve_flow_of_def)
  from p have conn: "map_of (r_connections w1) authority = Some f"
    "f \<in> sh_flows (r_shared w1 (fl_shared (resolve_flow_of authority a (r_shared v a) reused ob)))" by blast+
  then have conn: "map_of (r_connections w1) authority = Some f" "f \<in> sh_flows (r_shared w1 a)" by (simp_all add: resolve_flow_of_def)
  have gone: "fl_shared (r_flow (flow_server_closed f w1) f) = a" "fl_dead (r_flow (flow_server_closed f w1) f)"
    "r_connections (flow_server_closed f w1) = r_connections w1"
    using shared by (simp_all add: flow_server_closed_def)
  show ?thesis
    using conn shared gone by (simp add: r resolved_flow_def makeConnection_def Let_def reuse_flow_def reject_def dead_error_def)
qed

text \<open>C26. The resolve lock is given back when starting the server fails, on the session path and without
  the session: the call ends with the error of the start, or with that of the release if this fails
  too. It is not when copying the authentication files fails: the call ends with that error right
  away, the lock directory stays until it looks stale, and the reference that was taken for the flow
  stays too, because no flow was registered that could release it.\<close>

theorem lock_left_behind:
  assumes "acquireLockAndProbeZombie (shared_conn U (r_shared w a)) (sh_home (r_shared w a)) (sh_installPath (r_shared w a))
             (shared_client U (r_shared w a)) w = (Inr lp, w1)" and "lp_locked lp"
    and "tokenFile = sh_home (r_shared w2 a) @ ''/.ssh-remote/conn-token-'' @ basename (sh_installPath (r_shared w2 a))"
    and "token = generateToken (u_random16 U w2)"
  shows "(copyAuthFiles (shared_conn U (r_shared w a)) (sh_home (r_shared w a)) (u_authFiles U) w1 = (Inl e, w2) \<longrightarrow>
            connect_flow U authority a w = Some (Inl e, w2))
       \<and> (copyAuthFiles (shared_conn U (r_shared w a)) (sh_home (r_shared w a)) (u_authFiles U) w1 = (Inr (), w2)
            \<and> truthy_int (lp_reusePort lp) = None
            \<and> (if sh_isSession (r_shared w2 a) then run_start_session U (r_shared w2 a) tokenFile token
               else run_start_server U (r_shared w2 a) tokenFile token) w2 = Some (Inl e, w3) \<longrightarrow>
            connect_flow U authority a w
            = Some (case release_lock U a w3 of (Inr _, w4) \<Rightarrow> (Inl e, w4) | (Inl e', w4) \<Rightarrow> (Inl e', w4)))"
proof -
  let ?s = "r_shared w2 a"
  have "connect_flow U authority a w = Some (case release_lock U a w3 of (Inr _, w4) \<Rightarrow> (Inl e, w4) | (Inl e', w4) \<Rightarrow> (Inl e', w4))"
    if h: "copyAuthFiles (shared_conn U (r_shared w a)) (sh_home (r_shared w a)) (u_authFiles U) w1 = (Inr (), w2)"
      "truthy_int (lp_reusePort lp) = None"
      "(if sh_isSession ?s then run_start_session U ?s tokenFile token else run_start_server U ?s tokenFile token) w2 = Some (Inl e, w3)"
  proof -
    have "started_server U a True w2 = Some (case release_lock U a w3 of (Inr _, w4) \<Rightarrow> (Inl e, w4) | (Inl e', w4) \<Rightarrow> (Inl e', w4))"
      using h(3) assms(3,4)
      by (cases "sh_isSession ?s")
        (auto simp: started_server_def Let_def await_open_def catching_open_def settled_def await_def reject_def
          split: prod.split sum.split)
    with h(1,2) assms(1,2) show ?thesis
      by (auto simp: connect_flow_def Let_def await_open_settled await_open_def [of "started_server _ _ _"] split: prod.splits sum.splits)
  qed
  moreover have "connect_flow U authority a w = Some (Inl e, w2)"
    if "copyAuthFiles (shared_conn U (r_shared w a)) (sh_home (r_shared w a)) (u_authFiles U) w1 = (Inl e, w2)"
    using that assms(1,2) by (simp add: connect_flow_def Let_def await_open_settled)
  ultimately show ?thesis by blast
qed

text \<open>On the session path a resolve of an authority whose flow still answers returns that flow before
  it acquires anything. Without the session it returns it after a whole transport has been
  created, and the world it leaves is the one after the probe: the new connection is neither
  closed, nor registered, nor attached to a flow.\<close>

theorem reuse_leaks_transport:
  assumes "parseAuthority authority = Some (x, payload)" and "decodeAuthority payload = Inr dest"
  shows "(v_isSession (u_env U) w \<and> reuse_flow U (map_of (r_connections w) authority) w = (Some f, w1) \<longrightarrow>
            resolver_resolve U authority w = Some (Inr (resolved_flow f w1), w1))
       \<and> (\<not> v_isSession (u_env U) w
            \<and> createTransport (u_env U) authority dest \<lparr>ao_share = False, ao_install = True, ao_agent = True\<rparr> w = (Inr b, w2)
            \<and> reuse_flow U (map_of (r_connections w2) authority) w2 = (Some f, w3) \<longrightarrow>
            resolver_resolve U authority w = Some (Inr (resolved_flow f w3), w3))"
  using assms
  by (auto simp: resolver_resolve_def Let_def resolve_connected_def acquireTransport.simps resolver_resolveFlow_def catching_open_def)

text \<open>A server that exits with code 0, or by a signal, without having announced its port leaves the
  resolve open for ever, with the lock held.\<close>

theorem silent_exit_hangs_resolve:
  assumes "acquireLockAndProbeZombie (shared_conn U (r_shared w a)) (sh_home (r_shared w a)) (sh_installPath (r_shared w a))
             (shared_client U (r_shared w a)) w = (Inr lp, w1)" and "truthy_int (lp_reusePort lp) = None"
    and "copyAuthFiles (shared_conn U (r_shared w a)) (sh_home (r_shared w a)) (u_authFiles U) w1 = (Inr (), w2)"
    and "\<not> sh_isSession (r_shared w2 a)"
    and "\<And>c command stdin. \<exists>p v. u_spawnServer U c command stdin w2 = ((p, es @ ChildClose code signal # later), v)"
    and "list_all output_event es" and "listening_port (stdout_text es) = None" and "code = None \<or> code = Some 0"
    and "list_all (\<lambda>e. e = RunTimeout \<or> (\<exists>c. e = ChildStderr c)) later"
  shows "connect_flow U authority a w = None"
proof -
  from server_exit_unnoticed [OF assms(6,7,9), of code signal] assms(8)
  have hung: "st_result (startServer (es @ ChildClose code signal # later)) = None" by blast
  have "run_start_server U (r_shared w2 a) tokenFile token w2 = None" for tokenFile token
  proof -
    obtain p v where "u_spawnServer U (sh_conn (r_shared w2 a)) (server_command (se_config (u_start U)) (se_extensions (u_start U))
        (sh_home (r_shared w2 a)) (sh_installPath (r_shared w2 a)) (serverApplicationName (v_product (u_env U))) tokenFile)
        (server_stdin token) w2 = ((p, es @ ChildClose code signal # later), v)" using assms(5) by blast
    with hung show ?thesis by (simp add: run_start_server_def Let_def)
  qed
  with assms(1-4) show ?thesis
    by (simp add: connect_flow_def Let_def await_open_settled await_open_def [of "started_server _ _ _"] started_server_def
        await_open_def [of "catching_open _ _"] catching_open_def)
qed

text \<open>Reconnecting on the session path: the dead transport is replaced and the new one registered, but
  then the old flow gives back the last reference of the dead transport, which takes the
  authority out of the registry, whatever is registered under it by then. The new transport is
  shared no more: the next request creates another one.\<close>

theorem reconnect_unregisters:
  assumes "ao_share opts" and "map_of (r_transports w) authority = Some a" and "sh_dead (r_shared w a)"
    and "map_of (r_promises w) authority = None"
    and "createTransport (u_env U) authority dest opts (replacing authority (Some a) w) = (Inr b, w1)"
    and "fl_shared (r_flow w1 f) = a" and "sh_refs (r_shared w1 a) = 1" and "sh_authority (r_shared w1 a) = authority"
  shows "\<exists>w2. acquireTransport (u_env U) authority dest opts w = Some (Inr b, w2) \<and> map_of (r_transports w2) authority = Some b
           \<and> map_of (r_transports (forget_previous authority (Some f) w2)) authority = None
           \<and> (\<forall>w3. r_transports w3 = r_transports (forget_previous authority (Some f) w2) \<and> map_of (r_promises w3) authority = None \<longrightarrow>
                acquireTransport (u_env U) authority dest opts w3
                = Some (create_shared (u_env U) authority dest opts None w3))"
proof -
  let ?w2 = "w1\<lparr>r_transports := AList.update authority b (r_transports w1), r_promises := AList.delete authority (r_promises w1)\<rparr>"
  have "acquireTransport (u_env U) authority dest opts w = Some (Inr b, ?w2)"
    using acquire_creates [OF assms(1), of "u_env U" w authority w dest] create_shared_success [OF assms(5)] assms(2-4)
    by (simp add: reuse_existing_def)
  moreover have none: "map_of (r_transports (forget_previous authority (Some f) ?w2)) authority = None"
    using assms(6-8) by (simp add: kill_transports Let_def)
  moreover have "acquireTransport (u_env U) authority dest opts w3 = Some (create_shared (u_env U) authority dest opts None w3)"
    if "r_transports w3 = r_transports (forget_previous authority (Some f) ?w2)" "map_of (r_promises w3) authority = None" for w3
    using acquire_creates [OF assms(1), of "u_env U" w3 authority w3 dest] that none by (simp add: reuse_existing_def)
  ultimately show ?thesis by (intro exI [of _ ?w2]) simp
qed

section \<open>Concrete runs\<close>

text \<open>Without the session: every command succeeds and prints nothing, and the server's process writes \<open>es\<close>.\<close>

definition plain_flows :: "resolver resolver_env \<Rightarrow> child_event list \<Rightarrow> resolver flow_env" where
  "plain_flows E es =
     \<lparr>u_env = E,
      u_client = \<lambda>_. \<lparr>z_lock = \<lambda>_ _. resolve True, z_unlock = \<lambda>_. resolve (), z_serverStatus = \<lambda>_. reject type_error,
                      z_serverCleanup = \<lambda>_. reject type_error, z_serverFinalize = \<lambda>_ _ _. resolve None, z_rm = \<lambda>_. resolve ()\<rparr>,
      u_waitForFile = \<lambda>_ _ _. reject type_error, u_authFiles = None,
      u_start = \<lparr>se_timer = \<lparr>now_ms = \<lambda>_. 0, pause = \<lambda>_ w. w\<rparr>, se_dial = \<lambda>_ _. resolve (), se_config = \<lambda>_. [],
                 se_extensions = [], se_wrapper = Inl type_error\<rparr>,
      u_spawnServer = \<lambda>_ _ _ w. ((9, es), w), u_random16 = \<lambda>_. [], u_showError = \<lambda>_. resolve False, u_reloadWindow = resolve ()\<rparr>"

definition one_transport :: resolver where
  "one_transport = new_resolver\<lparr>r_shared := (\<lambda>_. no_shared)(0 := fresh_shared ''a'' 7 False None), r_next := 1\<rparr>"

lemma plain_lock:
  "acquireLockAndProbeZombie (shared_conn (plain_flows (plain_env session up) es) s) (sh_home s) (sh_installPath s) None w
   = (Inr (parse_lock_probe []), w)"
  by (simp add: shared_conn_def plain_flows_def plain_env_def acquireLockAndProbeZombie_def bbExec_def fixed_conn_def
      printed_def await_def resolve_def)

lemma empty_probe: "lp_locked (parse_lock_probe []) \<and> lp_reusePort (parse_lock_probe []) = None"
  by (simp add: parse_lock_probe_def)

lemma one_transport_shared: "r_shared one_transport 0 = fresh_shared ''a'' 7 False None" "shared_client U (fresh_shared ''a'' 7 False None) = None"
  by (simp_all add: one_transport_def shared_client_def fresh_shared_def no_shared_def)

theorem silent_exit_hangs_resolve_witness:
  "connect_flow (plain_flows (plain_env False True) ([ChildStderr [1]] @ ChildClose (Some 0) None # [])) ''a'' 0 one_transport = None"
proof -
  let ?U = "plain_flows (plain_env False True) ([ChildStderr [1]] @ ChildClose (Some 0) None # [])"
  have lock: "acquireLockAndProbeZombie (shared_conn ?U (r_shared one_transport 0)) (sh_home (r_shared one_transport 0))
      (sh_installPath (r_shared one_transport 0)) (shared_client ?U (r_shared one_transport 0)) one_transport
    = (Inr (parse_lock_probe []), one_transport)"
    by (simp add: one_transport_shared plain_lock)
  show ?thesis
    by (rule silent_exit_hangs_resolve [where es = "[ChildStderr [1]]" and code = "Some 0" and signal = None and later = "[]"
        and ?w2.0 = one_transport, OF lock])
      (simp_all add: empty_probe truthy_int_def plain_flows_def copyAuthFiles_def resolve_def one_transport_shared fresh_shared_def
        no_shared_def output_event_def listening_port.simps)
qed

text \<open>Three failures: a host whose files cannot be written, since commands with input fail; a server whose
  process cannot be spawned; and, on the session path, a start script that cannot be read.\<close>

definition no_writing :: "resolver flow_env" where
  "no_writing = (plain_flows ((plain_env False True)\<lparr>v_conn := \<lambda>_. (fixed_conn (printed []))
     \<lparr>c_execWithStdin := \<lambda>_ _. resolve ((printed [])\<lparr>out_exitCode := Some 1\<rparr>)\<rparr>\<rparr>) [])\<lparr>u_authFiles := Some [(''t'', ''s'')]\<rparr>"

definition one_session :: resolver where
  "one_session = new_resolver\<lparr>r_shared := (\<lambda>_. no_shared)(0 := fresh_shared ''a'' 7 True None), r_next := 1\<rparr>"

theorem lock_left_behind_witness:
  "(\<exists>e. connect_flow no_writing ''a'' 0 one_transport = Some (Inl e, one_transport))
   \<and> connect_flow (plain_flows (plain_env False True) [ChildError ''ENOENT'']) ''a'' 0 one_transport = Some (Inl (spawn_failed ''ENOENT''), one_transport)
   \<and> connect_flow (plain_flows (plain_env True True) []) ''a'' 0 one_session = Some (Inl type_error, one_session)"
proof (intro conjI)
  have lock: "acquireLockAndProbeZombie (fixed_conn (printed [])) h i None w = (Inr (parse_lock_probe []), w)" for h i and w :: resolver
    by (simp add: acquireLockAndProbeZombie_def bbExec_def fixed_conn_def printed_def await_def resolve_def)
  show "\<exists>e. connect_flow no_writing ''a'' 0 one_transport = Some (Inl e, one_transport)"
  proof -
    let ?s = "r_shared one_transport 0"
    have "acquireLockAndProbeZombie (shared_conn no_writing ?s) (sh_home ?s) (sh_installPath ?s) (shared_client no_writing ?s) one_transport
      = (Inr (parse_lock_probe []), one_transport)"
      by (simp add: one_transport_shared acquireLockAndProbeZombie_def shared_conn_def no_writing_def plain_flows_def plain_env_def bbExec_def
          fixed_conn_def printed_def await_def resolve_def)
    moreover have "\<exists>e. copyAuthFiles (shared_conn no_writing ?s) (sh_home ?s) (u_authFiles no_writing) one_transport = (Inl e, one_transport)"
      by (simp add: copyAuthFiles_def shared_conn_def no_writing_def plain_flows_def plain_env_def bbExecWithStdin_def fixed_conn_def
          printed_def await_def resolve_def reject_def)
    ultimately show ?thesis using lock_left_behind [of no_writing one_transport 0] empty_probe by blast
  qed
  have released: "release_lock (plain_flows (plain_env session True) es) 0 w = (Inr (), w)" if "sh_client (r_shared w 0) = None" for session es w
    using that by (simp add: release_lock_def Let_def releaseResolveLock_def shared_client_def shared_conn_def plain_flows_def plain_env_def
        bbExec_def fixed_conn_def printed_def await_def resolve_def)
  have auth: "copyAuthFiles c h (u_authFiles (plain_flows E es)) w = (Inr (), w)" for E es c h and w :: resolver
    by (simp add: plain_flows_def copyAuthFiles_def resolve_def)
  have conn: "shared_conn (plain_flows (plain_env session True) es) s = fixed_conn (printed [])" for session es s
    by (simp add: shared_conn_def plain_flows_def plain_env_def)
  show "connect_flow (plain_flows (plain_env False True) [ChildError ''ENOENT'']) ''a'' 0 one_transport = Some (Inl (spawn_failed ''ENOENT''), one_transport)"
  proof -
    let ?U = "plain_flows (plain_env False True) [ChildError ''ENOENT'']"
    have "\<not> sh_isSession (r_shared one_transport 0)" "shared_client ?U (r_shared one_transport 0) = None" "sh_client (r_shared one_transport 0) = None"
      by (simp_all add: one_transport_def fresh_shared_def no_shared_def shared_client_def)
    moreover have "run_start_server ?U s tokenFile token one_transport = Some (Inl (spawn_failed ''ENOENT''), one_transport)" for s tokenFile token
      by (simp add: run_start_server_def plain_flows_def startServer_def starting_init_def st_settle_def Let_def)
    ultimately show ?thesis
      using lock_left_behind [of ?U one_transport 0 "parse_lock_probe []" one_transport _ one_transport _ "spawn_failed ''ENOENT''" _ one_transport]
        empty_probe lock auth released [of one_transport False] by (simp add: conn truthy_int_def)
  qed
  show "connect_flow (plain_flows (plain_env True True) []) ''a'' 0 one_session = Some (Inl type_error, one_session)"
  proof -
    let ?U = "plain_flows (plain_env True True) []"
    have "sh_isSession (r_shared one_session 0)" "shared_client ?U (r_shared one_session 0) = None" "sh_client (r_shared one_session 0) = None"
      by (simp_all add: one_session_def fresh_shared_def no_shared_def shared_client_def)
    moreover have "run_start_session ?U s tokenFile token one_session = Some (Inl type_error, one_session)" for s tokenFile token
    proof -
      have "\<exists>x. writeConnectionTokenFile (fixed_conn (printed [])) h t i w = (Inr x, w)" for h t i and w :: resolver
        by (auto simp: writeConnectionTokenFile_def bbExecWithStdin_def bbExec_def fixed_conn_def printed_def await_def resolve_def Let_def)
      moreover have "ship_wrapper (u_start ?U) (fixed_conn (printed [])) f w = (Inl type_error, w)" for f and w :: resolver
        by (simp add: ship_wrapper_def plain_flows_def reject_def await_def)
      ultimately show ?thesis
        by (simp add: run_start_session_def startServerSession_def conn settled_def Let_def await_def split: prod.split sum.split)
          (metis old.sum.exhaust prod.inject sum.distinct(1) sum.inject(1))
    qed
    ultimately show ?thesis
      using lock_left_behind [of ?U one_session 0 "parse_lock_probe []" one_session _ one_session _ type_error _ one_session]
        empty_probe lock auth released [of one_session True] by (simp add: conn truthy_int_def)
  qed
qed

text \<open>A healthy flow 1 of the host \<^verbatim>\<open>h\<close> on transport 0, without the session.\<close>

definition host_h :: string where
  "host_h = ''ssh-remote+'' @ encodeAuthority \<lparr>dest_host = ''h'', dest_user = None, dest_port = None\<rparr>"

lemma host_h_parsed: "parseAuthority host_h = Some (''ssh-remote'', encodeAuthority \<lparr>dest_host = ''h'', dest_user = None, dest_port = None\<rparr>)"
  by (simp add: parseAuthority_def host_h_def)

lemma host_h_decoded:
  "decodeAuthority (encodeAuthority \<lparr>dest_host = ''h'', dest_user = None, dest_port = None\<rparr>)
   = Inr (raw_of \<lparr>dest_host = ''h'', dest_user = None, dest_port = None\<rparr>)"
  by (rule decode_encode) simp

definition with_flow :: "string \<Rightarrow> bool \<Rightarrow> resolver" where
  "with_flow authority session = new_resolver
     \<lparr>r_shared := (\<lambda>_. no_shared)(0 := (fresh_shared authority 7 session None)\<lparr>sh_dead := session, sh_flows := {1}\<rparr>),
      r_flow := (\<lambda>_. no_flow)(1 := no_flow\<lparr>fl_connectionToken := ''t''\<rparr>), r_next := 2, r_connections := [(authority, 1)],
      r_transports := (if session then [(authority, 0)] else [])\<rparr>"

theorem reconnect_unregisters_witness:
  "\<exists>w2. acquireTransport (plain_env True True) ''a'' plain_dest \<lparr>ao_share = True, ao_install = False, ao_agent = False\<rparr> (with_flow ''a'' True)
        = Some (Inr 3, w2) \<and> map_of (r_transports (forget_previous ''a'' (Some 1) w2)) ''a'' = None"
proof -
  let ?w = "with_flow ''a'' True" and ?o = "\<lparr>ao_share = True, ao_install = False, ao_agent = False\<rparr>"
  let ?U = "plain_flows (plain_env True True) []"
  have U: "u_env ?U = plain_env True True" by (simp add: plain_flows_def)
  have n: "r_next (replacing ''a'' (Some 0) ?w) = 3"
    by (simp add: replacing_def drop_existing_def killSharedTransport_def with_flow_def)
  have s: "map_of (r_transports ?w) ''a'' = Some 0" "sh_dead (r_shared ?w 0)" "map_of (r_promises ?w) ''a'' = None"
    by (simp_all add: with_flow_def new_resolver_def)
  from reconnect_unregisters [of ?o ?w "''a''" 0 ?U plain_dest "r_next (replacing ''a'' (Some 0) ?w)" _ 1, OF _ s, unfolded U, OF _ plain_transport] n
  show ?thesis by (auto simp: with_flow_def no_flow_def fresh_shared_def no_shared_def)
qed

text \<open>A host on which everything is installed: every command prints the probe's answer.\<close>

definition probe_answer :: string where
  "probe_answer = noise_lines [probe_marker [], ''/root'', ''x86_64'', ''yes'', ''yes'']"

definition installed_env :: "resolver resolver_env" where
  "installed_env = (plain_env False True)\<lparr>v_conn := \<lambda>_. fixed_conn (printed probe_answer)\<rparr>"

lemma installed_probe:
  "parse_probe (probe_marker []) probe_answer
   = Inr \<lparr>probe_home = ''/root'', probe_arch = ''x64'', busyboxPresent = True, installPresent = True\<rparr>"
proof -
  have "strip_cr (probe_marker []) = probe_marker []" by (simp add: probe_marker_def strip_cr_def hex_encode_def)
  then have "parse_probe (probe_marker []) (noise_lines [] @ noise_lines [probe_marker [], ''/root'', ''x86_64'', ''yes'', ''yes''] @ [])
      = (if trim ''/root'' = [] then Inl HOME_EMPTY
         else case normalizeArch ''x86_64'' of
                Inl e \<Rightarrow> Inl e
              | Inr x \<Rightarrow> Inr \<lparr>probe_home = trim ''/root'', probe_arch = x, busyboxPresent = (trim ''yes'' = ''yes''),
                              installPresent = (trim ''yes'' = ''yes'')\<rparr>)"
    by (intro probe_ignores_noise_lemma) (auto simp: probe_marker_def hex_encode_def)
  moreover have "trim ''/root'' = ''/root''" "trim ''yes'' = ''yes''" "trim ''x86_64'' = ''x86_64''"
    by (rule trim_no_space, simp add: is_space_def)+
  ultimately show ?thesis by (simp add: probe_answer_def noise_lines_def normalizeArch_def)
qed

text \<open>What creating the transport \<open>a\<close> leaves alone.\<close>

definition only_at :: "nat \<Rightarrow> resolver \<Rightarrow> resolver \<Rightarrow> bool" where
  "only_at a w w' = (r_connections w' = r_connections w \<and> r_flow w' = r_flow w \<and> (\<forall>b. b \<noteq> a \<longrightarrow> r_shared w' b = r_shared w b))"

lemma installed_simps:
  "v_isSession installed_env w = False" "v_askpassEnabled installed_env = False" "v_findFreePort installed_env = resolve 1080"
  "v_connect installed_env = (\<lambda>_ _. resolve 7)" "v_spawn installed_env = (\<lambda>_ _ _ w. (9, w))"
  "v_agentReady installed_env = (\<lambda>_ _. resolve False)" "v_conn installed_env = (\<lambda>_. fixed_conn (printed probe_answer))"
  "ie_nonce (v_install installed_env) = []"
  by (simp_all add: installed_env_def plain_env_def)

lemma installed_on: "\<exists>w'. install_on installed_env authority a False None w = (Inr (), w') \<and> only_at a w w'"
proof -
  have "probeRemote [] (fixed_conn (printed probe_answer)) x y v
      = (Inr \<lparr>probe_home = ''/root'', probe_arch = ''x64'', busyboxPresent = True, installPresent = True\<rparr>, v)" for x y and v :: resolver
    using installed_probe by (simp add: probeRemote_def fixed_conn_def await_def resolve_def printed_def)
  moreover have probed: "on_probed installed_env a False None home arch v = (Inr (), upd_shared a (\<lambda>s. s\<lparr>sh_home := home, sh_arch := arch\<rparr>) v)" for home arch v
    by (simp add: on_probed_def await_def modify_world_def)
  ultimately obtain res where res: "ensureServerInstalled ((v_install installed_env)\<lparr>ie_onProbed := Some (on_probed installed_env a False None)\<rparr>)
         (fixed_conn (printed probe_answer)) (v_product installed_env) w
       = (Inr res, upd_shared a (\<lambda>s. s\<lparr>sh_home := ''/root'', sh_arch := ''x64''\<rparr>) w)"
    by (simp add: ensureServerInstalled_def installed_simps await_def resolve_def)
  have "\<exists>w'. record_install installed_env authority a res v = (Inr (), w') \<and> only_at a v w'" for v
    by (simp add: record_install_def agentLinkId_def Let_def only_at_def split: prod.splits)
  then obtain w' where "record_install installed_env authority a res (upd_shared a (\<lambda>s. s\<lparr>sh_home := ''/root'', sh_arch := ''x64''\<rparr>) w) = (Inr (), w')"
    "only_at a (upd_shared a (\<lambda>s. s\<lparr>sh_home := ''/root'', sh_arch := ''x64''\<rparr>) w) w'" by blast
  with res show ?thesis by (auto simp: install_on_def await_def installed_simps only_at_def)
qed

lemma installed_forward: "\<exists>w'. spawned_forward installed_env a useAgent w = (Inr (), w') \<and> only_at a w w'"
proof -
  have "wait_local_port installed_env p v = (Inr (), v)" for p v
    by (rule wait_local_port_up) (simp add: installed_env_def plain_env_def resolve_def)
  then show ?thesis
    by (auto simp: spawned_forward_def installed_simps await_def resolve_def promise_all_def modify_world_def Let_def only_at_def
        split: prod.splits option.splits)
qed

lemma installed_transport:
  "\<exists>w'. createTransport installed_env authority dest \<lparr>ao_share = False, ao_install = True, ao_agent = True\<rparr> w = (Inr (r_next w), w')
     \<and> only_at (r_next w) w w'"
proof -
  let ?a = "r_next w"
  let ?w1 = "upd_shared ?a (\<lambda>_. fresh_shared authority 7 False None) w\<lparr>r_next := Suc ?a\<rparr>"
  obtain w2 where w2: "install_on installed_env authority ?a False None ?w1 = (Inr (), w2)" "only_at ?a ?w1 w2"
    using installed_on by blast
  obtain w3 where w3: "spawned_forward installed_env ?a True w2 = (Inr (), w3)" "only_at ?a w2 w3"
    using installed_forward by blast
  have "build_transport installed_env authority dest \<lparr>ao_share = False, ao_install = True, ao_agent = True\<rparr> None w
      = (Inr ?a, start_effects [MonitorStarted ?a] w3)"
    using w2(1) w3(1)
    by (simp add: build_transport_def Let_def installed_simps await_def resolve_def alloc_shared_def modify_world_def)
  moreover have "only_at ?a w (start_effects [MonitorStarted ?a] w3)" using w2(2) w3(2) by (auto simp: only_at_def)
  ultimately show ?thesis
    by (simp add: createTransport_def maybeStartAskpass_def installed_simps await_def resolve_def catching_def)
qed

theorem reuse_leaks_transport_witness:
  "\<exists>w1. resolver_resolve (plain_flows installed_env []) host_h (with_flow host_h False) = Some (Inr (resolved_flow 1 w1), w1)
      \<and> createTransport installed_env host_h (raw_of \<lparr>dest_host = ''h'', dest_user = None, dest_port = None\<rparr>)
          \<lparr>ao_share = False, ao_install = True, ao_agent = True\<rparr> (with_flow host_h False) = (Inr 2, w1)"
proof -
  let ?U = "plain_flows installed_env []" and ?w = "with_flow host_h False"
  have U: "u_env ?U = installed_env" by (simp add: plain_flows_def)
  have n: "r_next ?w = 2" by (simp add: with_flow_def)
  from installed_transport [of host_h "raw_of \<lparr>dest_host = ''h'', dest_user = None, dest_port = None\<rparr>" ?w]
  obtain w1 where w1: "createTransport installed_env host_h (raw_of \<lparr>dest_host = ''h'', dest_user = None, dest_port = None\<rparr>)
          \<lparr>ao_share = False, ao_install = True, ao_agent = True\<rparr> ?w = (Inr 2, w1)" "only_at 2 ?w w1" unfolding n by blast
  have "map_of (r_connections w1) host_h = Some 1" "\<not> fl_dead (r_flow w1 1)" "fl_shared (r_flow w1 1) = 0" "\<not> sh_dead (r_shared w1 0)"
    using w1(2) by (simp_all add: only_at_def with_flow_def no_flow_def fresh_shared_def no_shared_def)
  moreover have "conn_alive (shared_conn ?U s) v = (True, v)" for s v
    by (simp add: shared_conn_def U installed_simps conn_alive_def fixed_conn_def resolve_def printed_def)
  ultimately have "reuse_flow ?U (map_of (r_connections w1) host_h) w1 = (Some 1, w1)" by (simp add: reuse_flow_def)
  with reuse_leaks_transport [OF host_h_parsed host_h_decoded, of ?U ?w 1 w1 2 w1 w1] w1(1)
  show ?thesis by (auto simp: U installed_simps)
qed

text \<open>A server that announces port 8000.\<close>

theorem resolved_flow_connects_witness:
  "\<exists>r w1. connect_flow (plain_flows (plain_env False True) [ChildStdout (utf8_bytes (LISTENING @ ''8000''))]) ''a'' 0 one_transport = Some (Inr r, w1)
      \<and> makeConnection (\<lambda>s p w. (Inr (s, p), w)) ''h'' (rs_flow r) (upd_shared 0 (\<lambda>s. s\<lparr>sh_socksPort := 1081\<rparr>) w1)
        = (Inr (1081, 8000), upd_shared 0 (\<lambda>s. s\<lparr>sh_socksPort := 1081\<rparr>) w1)"
proof -
  let ?U = "plain_flows (plain_env False True) [ChildStdout (utf8_bytes (LISTENING @ ''8000''))]"
  have lock: "acquireLockAndProbeZombie (shared_conn ?U (r_shared one_transport 0)) (sh_home (r_shared one_transport 0))
      (sh_installPath (r_shared one_transport 0)) (shared_client ?U (r_shared one_transport 0)) one_transport
    = (Inr (parse_lock_probe []), one_transport)"
    by (simp add: one_transport_shared plain_lock)
  have port: "st_result (startServer [ChildStdout (utf8_bytes (LISTENING @ ''8000''))]) = Some (Inr 8000)"
    "\<not> st_killed (startServer [ChildStdout (utf8_bytes (LISTENING @ ''8000''))])"
    by (simp_all add: startServer_def starting_init_def Let_def st_settle_def LISTENING_def is_digit_def nat_of_digits_def digit_val_def)
  have auth: "copyAuthFiles c h (u_authFiles ?U) w = (Inr (), w)" for c h and w :: resolver
    by (simp add: plain_flows_def copyAuthFiles_def resolve_def)
  obtain token tokenFile where start: "started_server ?U 0 (lp_locked (parse_lock_probe [])) one_transport
      = Some (Inr \<lparr>ob_port = 8000, ob_process = Some 9, ob_token = token, ob_tokenFile = tokenFile\<rparr>, one_transport)"
    using port by (simp add: started_server_def Let_def one_transport_shared fresh_shared_def no_shared_def run_start_server_def
        plain_flows_def await_open_def catching_open_def settled_def resolve_def)
  have fin: "conclude_start ?U 0 locked False ob one_transport = (Inr (), one_transport)" for locked ob
    by (simp add: conclude_start_def Let_def one_transport_shared finalizeServerStart_def shared_conn_def plain_flows_def plain_env_def
        bbExec_def fixed_conn_def printed_def await_def resolve_def catching_def)
  obtain f w1 where w1: "add_flow ''a'' (resolve_flow_of ''a'' 0 (r_shared one_transport 0) False
               \<lparr>ob_port = 8000, ob_process = Some 9, ob_token = token, ob_tokenFile = tokenFile\<rparr>) one_transport = (f, w1)" by fastforce
  then have run: "connect_flow ?U ''a'' 0 one_transport = Some (Inr (resolved_flow f w1), w1)"
    using lock auth start fin empty_probe
    by (simp add: connect_flow_def Let_def await_open_settled await_open_def [of "started_server _ _ _"] truthy_int_def)
  have "fl_remotePort (r_flow w1 f) = 8000" "\<not> sh_dead (r_shared w1 0)"
    using add_flow_props [OF w1] by (simp_all add: resolve_flow_of_def one_transport_shared fresh_shared_def no_shared_def)
  with resolved_flow_connects [OF run, of f "\<lambda>s p w. (Inr (s, p), w)" "''h''" 1081] run show ?thesis
    by (auto simp: resolved_flow_def)
qed

end
