(* ===== verification/TransportRefs.thy ===== *)
theory TransportRefs
  imports ResolveFlow
begin

text \<open>
  The references of the shared transports of \<^verbatim>\<open>src/resolver/index.ts\<close>. The calls of the resolver
  interleave, and what they do to transports, flows and their maps between two awaits is one step.
  A transport is created with a reference for the flow it is made for, every other flow takes one
  when it acquires the transport, and between that and the moment in which it is attached its
  reference is pending: \<open>P\<close> counts the pending references of every transport. A flow that fails
  before it is attached leaves its reference pending for ever, since nothing in the code gives it
  back. Two resolves of the same authority that overlap are left out, so a key is free when a flow
  is registered under it, and a flow is ended while it is registered.
\<close>

section \<open>Steps\<close>

inductive ref_step :: "resolver \<times> (nat \<Rightarrow> nat) \<Rightarrow> resolver \<times> (nat \<Rightarrow> nat) \<Rightarrow> bool" where
  create: "alloc_shared (fresh_shared authority conn isSession ask) w = (Inr a, w') \<Longrightarrow> ref_step (w, P) (w', P(a := 1))"
| reuse: "a < r_next w \<Longrightarrow> (\<And>c. conn_alive (v_conn E c) w = (True, w)) \<Longrightarrow> reuse_existing E (Some a) w = (Some a, w') \<Longrightarrow>
     ref_step (w, P) (w', P(a := Suc (P a)))"
| join: "a < r_next w \<Longrightarrow> ao_share opts \<Longrightarrow> reuse_existing E (map_of (r_transports w) authority) w = (None, w) \<Longrightarrow>
     map_of (r_promises w) authority = Some t \<Longrightarrow> v_awaitPromise E t w = (Inr a, w) \<Longrightarrow> \<not> sh_dead (r_shared w a) \<Longrightarrow>
     acquireTransport E authority dest opts w = Some (Inr a, w') \<Longrightarrow> ref_step (w, P) (w', P(a := Suc (P a)))"
| attach: "0 < P (fl_shared fl) \<Longrightarrow> map_of (r_connections w) key = None \<Longrightarrow> add_flow key fl w = (f, w') \<Longrightarrow>
     ref_step (w, P) (w', P(fl_shared fl := P (fl_shared fl) - 1))"
| forget: "map_of (r_connections w) key = Some f \<Longrightarrow> ref_step (w, P) (forget_previous key (Some f) w, P)"
| fill: "(\<And>s. sh_refs (g s) = sh_refs s \<and> sh_flows (g s) = sh_flows s) \<Longrightarrow> ref_step (w, P) (upd_shared a g w, P)"
| mark: "(\<And>x. fl_shared (g x) = fl_shared x) \<Longrightarrow> ref_step (w, P) (upd_flow f g w, P)"
| other: "r_shared w' = r_shared w \<Longrightarrow> r_flow w' = r_flow w \<Longrightarrow> r_connections w' = r_connections w \<Longrightarrow> r_next w \<le> r_next w' \<Longrightarrow>
     ref_step (w, P) (w', P)"

definition ref_start :: "resolver \<times> (nat \<Rightarrow> nat)" where
  "ref_start = (new_resolver, \<lambda>_. 0)"

text \<open>Steps of the other theories that are made of these: replacing a transport changes the registry and
  starts effects only, attaching an exec server's flow ends the previous one first, and a resolve
  ends with attaching its flow.\<close>

lemma drop_existing_step: "ref_step (w, P) (drop_existing authority existing w, P)"
  by (rule other) (simp_all add: drop_existing_def killSharedTransport_def split: option.split)

lemma promise_step: "ref_step (w, P) (w\<lparr>r_promises := x, r_transports := y\<rparr>, P)"
  by (rule other) simp_all

lemma exec_flow_steps:
  assumes "0 < P a"
  shows "ref_step\<^sup>*\<^sup>* (w, P) (snd (attach_exec_flow authority a w), P(a := P a - 1))"
proof -
  let ?key = "exec_key authority"
  define w1 where "w1 = forget_previous ?key (map_of (r_connections w) ?key) w"
  have free: "map_of (r_connections w1) ?key = None"
    by (cases "map_of (r_connections w) ?key") (simp_all add: w1_def forget_previous_def)
  have one: "ref_step\<^sup>*\<^sup>* (w, P) (w1, P)"
  proof (cases "map_of (r_connections w) ?key")
    case (Some f)
    then show ?thesis using forget [OF Some, of P] by (simp add: w1_def r_into_rtranclp)
  qed (simp add: w1_def forget_previous_def)
  obtain f w2 where w2: "add_flow ?key (exec_flow_of authority a) w1 = (f, w2)" by fastforce
  have "fl_shared (exec_flow_of authority a) = a" by (simp add: exec_flow_of_def)
  with attach [of P "exec_flow_of authority a", OF _ free w2] assms have "ref_step (w1, P) (w2, P(a := P a - 1))" by simp
  moreover have "snd (attach_exec_flow authority a w) = w2"
    using w2 by (simp add: attach_exec_flow_def w1_def Let_def)
  ultimately show ?thesis using one by simp
qed

section \<open>The invariant\<close>

definition ref_inv :: "resolver \<times> (nat \<Rightarrow> nat) \<Rightarrow> bool" where
  "ref_inv s = (let (w, P) = s; fs = map snd (r_connections w) in
     counted P w \<and> distinct (map fst (r_connections w)) \<and> distinct fs
     \<and> (\<forall>a. sh_flows (r_shared w a) = {f \<in> set fs. fl_shared (r_flow w f) = a})
     \<and> (\<forall>f \<in> set fs. f < r_next w \<and> fl_shared (r_flow w f) < r_next w) \<and> (\<forall>a. r_next w \<le> a \<longrightarrow> P a = 0))"

lemma ref_invD:
  assumes "ref_inv (w, P)"
  shows "counted P w" "distinct (map fst (r_connections w))" "distinct (map snd (r_connections w))"
    "\<forall>a. sh_flows (r_shared w a) = {f \<in> set (map snd (r_connections w)). fl_shared (r_flow w f) = a}"
    "\<forall>f \<in> set (map snd (r_connections w)). f < r_next w \<and> fl_shared (r_flow w f) < r_next w" "\<forall>a. r_next w \<le> a \<longrightarrow> P a = 0"
  using assms by (simp_all add: ref_inv_def Let_def)

lemma ref_gain:
  assumes "a < r_next w" "ref_inv (w, P)"
  shows "ref_inv (upd_shared a (\<lambda>s. s\<lparr>sh_refs := sh_refs s + 1\<rparr>) w, P(a := Suc (P a)))"
proof -
  note inv = ref_invD [OF assms(2)]
  have "sh_flows (r_shared (upd_shared a (\<lambda>s. s\<lparr>sh_refs := sh_refs s + 1\<rparr>) w) b) = sh_flows (r_shared w b)" for b by simp
  moreover have "counted (P(a := Suc (P a))) (upd_shared a (\<lambda>s. s\<lparr>sh_refs := sh_refs s + 1\<rparr>) w)"
    using inv(1) by (simp add: counted_def)
  moreover have "\<forall>b. r_next w \<le> b \<longrightarrow> (P(a := Suc (P a))) b = 0" using inv(6) assms(1) by auto
  ultimately show ?thesis using inv(2-5) by (simp add: ref_inv_def Let_def)
qed

lemma ref_inv_same:
  assumes "ref_inv (w, P)" "r_connections w' = r_connections w" "r_next w \<le> r_next w'"
    and "\<And>a. sh_refs (r_shared w' a) = sh_refs (r_shared w a)" "\<And>a. sh_flows (r_shared w' a) = sh_flows (r_shared w a)"
    and "\<And>f. fl_shared (r_flow w' f) = fl_shared (r_flow w f)"
  shows "ref_inv (w', P)"
proof -
  note inv = ref_invD [OF assms(1)]
  have "counted P w'" using inv(1) by (simp add: counted_def assms(4-6))
  moreover have "\<forall>a. sh_flows (r_shared w' a) = {f \<in> set (map snd (r_connections w')). fl_shared (r_flow w' f) = a}"
    unfolding assms(2,5,6) by (rule inv(4))
  moreover have "\<forall>f \<in> set (map snd (r_connections w')). f < r_next w' \<and> fl_shared (r_flow w' f) < r_next w'"
    unfolding assms(2,6) using inv(5) assms(3) by (meson order.strict_trans2)
  moreover have "\<forall>a. r_next w' \<le> a \<longrightarrow> P a = 0" using inv(6) assms(3) by (meson order.trans)
  ultimately show ?thesis using inv(2,3) unfolding ref_inv_def Let_def prod.case assms(2) by metis
qed

lemma snd_deleted:
  "distinct (map fst ps) \<Longrightarrow> distinct (map snd ps) \<Longrightarrow> map_of ps k = Some v \<Longrightarrow>
   set (map snd (AList.delete k ps)) = set (map snd ps) - {v} \<and> distinct (map snd (AList.delete k ps))"
proof (induction ps)
  case (Cons p ps)
  have del: "AList.delete k ps = ps" if "k \<notin> fst ` set ps" using that by (simp add: AList.delete_idem)
  show ?case
  proof (cases "fst p = k")
    case True
    with Cons.prems have "v = snd p" "k \<notin> fst ` set ps" by (cases p; auto)+
    with Cons.prems True del show ?thesis by (cases p) auto
  next
    case False
    with Cons.prems have v: "map_of ps k = Some v" by (cases p) auto
    then have "v \<in> snd ` set ps" by (force dest: map_of_SomeD)
    with Cons.prems have "snd p \<noteq> v" by auto
    with Cons v False show ?thesis by (cases p) auto
  qed
qed simp

lemma update_new: "map_of ps k = None \<Longrightarrow> AList.update k v ps = ps @ [(k, v)]"
  by (induction ps) auto

lemma ref_inv_step: "ref_step s t \<Longrightarrow> ref_inv s \<Longrightarrow> ref_inv t"
proof (induction rule: ref_step.induct)
  case (create authority conn isSession ask w a w' P)
  then have a: "a = r_next w" "w' = upd_shared a (\<lambda>_. fresh_shared authority conn isSession ask) w\<lparr>r_next := Suc a\<rparr>"
    by (auto simp: alloc_shared_def)
  have new: "sh_refs (fresh_shared authority conn isSession ask) = 1" "sh_flows (fresh_shared authority conn isSession ask) = {}"
    by (simp_all add: fresh_shared_def no_shared_def)
  note inv = ref_invD [OF create(2)]
  have "counted (P(a := 1)) w'" using inv(1) new by (simp add: a counted_def)
  moreover have "sh_flows (r_shared w' b) = {f \<in> set (map snd (r_connections w')). fl_shared (r_flow w' f) = b}" for b
    using inv(4) [rule_format, of b] inv(5) new by (auto simp: a)
  moreover have "\<forall>f \<in> set (map snd (r_connections w')). f < r_next w' \<and> fl_shared (r_flow w' f) < r_next w'"
    using inv(5) by (auto simp: a less_SucI)
  ultimately show ?case using inv(2,3,6) by (simp add: ref_inv_def Let_def) (simp add: a)
next
  case (reuse a w E w' P)
  then have "w' = upd_shared a (\<lambda>s. s\<lparr>sh_refs := sh_refs s + 1\<rparr>) w"
    by (auto simp: reuse_existing_def split: if_splits)
  with reuse(1,4) show ?case by (simp only: ref_gain)
next
  case (join a w opts E authority t dest w' P)
  then have "w' = upd_shared a (\<lambda>s. s\<lparr>sh_refs := sh_refs s + 1\<rparr>) w"
    by (subst (asm) acquireTransport.simps) simp
  with join(1,8) show ?case by (simp only: ref_gain)
next
  case (attach P fl w key f w')
  let ?a = "fl_shared fl"
  from attach(3) have f: "f = r_next w" "r_flow w' = (r_flow w)(f := fl)" "r_next w' = Suc f"
    "r_shared w' = (r_shared w)(?a := (r_shared w ?a)\<lparr>sh_flows := insert f (sh_flows (r_shared w ?a))\<rparr>)"
    "r_connections w' = r_connections w @ [(key, f)]"
    using attach(2) by (auto simp: add_flow_def Let_def update_new)
  note inv = ref_invD [OF attach(4)]
  have new: "f \<notin> set (map snd (r_connections w))" using inv(5) f(1) by blast
  then have new': "(x, f) \<notin> set (r_connections w)" for x by force
  have fresh: "f \<notin> sh_flows (r_shared w a)" for a using inv(4) new by auto
  have known: "?a < r_next w" using inv(6) attach(1) by (metis not_less less_irrefl)
  have "counted (P(?a := P ?a - 1)) w'"
    unfolding counted_def
  proof
    fix b
    have c: "finite (sh_flows (r_shared w b))" "sh_refs (r_shared w b) = int (card (sh_flows (r_shared w b)) + P b)"
      "\<forall>g \<in> sh_flows (r_shared w b). fl_shared (r_flow w g) = b" using inv(1) by (auto simp: counted_def)
    show "finite (sh_flows (r_shared w' b)) \<and> sh_refs (r_shared w' b) = int (card (sh_flows (r_shared w' b)) + (P(?a := P ?a - 1)) b)
        \<and> (\<forall>g \<in> sh_flows (r_shared w' b). fl_shared (r_flow w' g) = b)"
      using c fresh [of b] attach(1) by (auto simp: f)
  qed
  moreover have "key \<notin> set (map fst (r_connections w))" using attach(2) by (simp add: map_of_eq_None_iff)
  moreover have "sh_flows (r_shared w' b) = {g \<in> set (map snd (r_connections w')). fl_shared (r_flow w' g) = b}" for b
    using inv(4) [rule_format, of b] new new' fresh [of b] by (auto simp: f(2-5) split: if_splits)
  moreover have "\<forall>g \<in> set (map snd (r_connections w')). g < r_next w' \<and> fl_shared (r_flow w' g) < r_next w'"
    using inv(5) known by (auto simp: f less_Suc_eq)
  ultimately show ?case using inv new by (simp add: ref_inv_def Let_def f(3,5)) (simp add: f(1))
next
  case (forget w key f P)
  let ?a = "fl_shared (r_flow w f)" and ?w = "forget_previous key (Some f) w"
  note inv = ref_invD [OF forget(2)]
  have flow: "r_flow ?w = r_flow w" "r_next ?w = r_next w" by (simp_all add: forget_previous_def)
  have del: "set (map snd (r_connections ?w)) = set (map snd (r_connections w)) - {f}" "distinct (map snd (r_connections ?w))"
    using snd_deleted [OF inv(2,3) forget(1)] by simp_all
  have "f \<in> set (map snd (r_connections w))" using forget(1) by (force dest: map_of_SomeD)
  then have att: "f \<in> sh_flows (r_shared w ?a)" using inv(4) by blast
  have "counted P ?w" using counted_kill [OF inv(1) att] by (simp add: counted_def flow)
  moreover have "sh_flows (r_shared ?w b) = {g \<in> set (map snd (r_connections ?w)). fl_shared (r_flow ?w g) = b}" for b
    using inv(4) [rule_format, of b] unfolding del(1) flow by (auto simp: kill_shared Let_def)
  moreover have "distinct (map fst (r_connections ?w))" using inv(2) by (simp add: distinct_delete)
  moreover have "\<forall>g \<in> set (map snd (r_connections ?w)). g < r_next ?w \<and> fl_shared (r_flow ?w g) < r_next ?w"
    unfolding flow del(1) using inv(5) by blast
  ultimately show ?case using inv(6) del(2) flow(2) unfolding ref_inv_def Let_def prod.case by metis
next
  case (fill g w P a)
  from fill(2) show ?case by (rule ref_inv_same) (simp_all add: fill(1))
next
  case (mark g w P f)
  from mark(2) show ?case by (rule ref_inv_same) (simp_all add: mark(1))
next
  case (other w' w P)
  from other(5) show ?case by (rule ref_inv_same) (simp_all add: other(1-4))
qed

lemma ref_inv_reachable: "ref_step\<^sup>*\<^sup>* ref_start s \<Longrightarrow> ref_inv s"
proof (induction rule: rtranclp_induct)
  case base
  show ?case by (simp add: ref_inv_def ref_start_def counted_def new_resolver_def no_shared_def Let_def)
qed (rule ref_inv_step)

lemma attached_flow:
  assumes "ref_step\<^sup>*\<^sup>* ref_start (w, P)" and "map_of (r_connections w) key = Some f"
  shows "counted P w" and "f \<in> sh_flows (r_shared w (fl_shared (r_flow w f)))"
proof -
  note inv = ref_invD [OF ref_inv_reachable [OF assms(1)]]
  show "counted P w" by (rule inv)
  have "f \<in> set (map snd (r_connections w))" using assms(2) by (force dest: map_of_SomeD)
  with inv(4) show "f \<in> sh_flows (r_shared w (fl_shared (r_flow w f)))" by blast
qed

lemma dispose_kept:
  "r_promises (resolver_dispose w) = r_promises w \<and> r_linkIds (resolver_dispose w) = r_linkIds w"
proof -
  have kill: "r_promises (fold (\<lambda>(k, f). killConnection f) ps v) = r_promises v" "r_linkIds (fold (\<lambda>(k, f). killConnection f) ps v) = r_linkIds v"
    for ps and v :: "'a resolver_scheme"
    by (induction ps arbitrary: v)
      (auto simp: killConnection_def releaseTransport_def killSharedTransport_def Let_def upd_shared_def start_effects_def)
  have teardown: "r_promises (fold (\<lambda>(k, a). killSharedTransport a) ts v) = r_promises v" "r_linkIds (fold (\<lambda>(k, a). killSharedTransport a) ts v) = r_linkIds v"
    for ts and v :: "'a resolver_scheme"
    by (induction ts arbitrary: v) (auto simp: killSharedTransport_def start_effects_def)
  show ?thesis by (simp add: resolver_dispose_def Let_def kill teardown)
qed

section \<open>Properties\<close>

text \<open>C22. A shared transport lives as long as it is used: in every state that the steps reach, ending a
  registered flow closes its transport and takes the transport's authority out of the registry
  exactly when no other flow is attached to the transport and no reference is pending; otherwise only
  the flow's own server is cleaned up. (A transport that is dead or does not answer is closed by the
  next call that acquires it, whatever flows it has, and a pending reference whose flow failed keeps
  its transport open for ever.)\<close>

theorem transport_outlives_flows:
  assumes "ref_step\<^sup>*\<^sup>* ref_start (w, P)" and "map_of (r_connections w) key = Some f" and "a = fl_shared (r_flow w f)"
  shows "f \<in> sh_flows (r_shared w a)
       \<and> r_effects (forget_previous key (Some f) w) = r_effects w @ server_cleanup_effects (r_shared w a) (r_flow w f)
           @ (if sh_flows (r_shared w a) = {f} \<and> P a = 0 then teardown_effects a (r_shared w a) else [])
       \<and> ConnClosed (sh_conn (r_shared w a)) \<in> set (teardown_effects a (r_shared w a))
       \<and> r_transports (forget_previous key (Some f) w)
         = (if sh_flows (r_shared w a) = {f} \<and> P a = 0 then AList.delete (sh_authority (r_shared w a)) (r_transports w) else r_transports w)"
  using attached_flow [OF assms(1,2)] last_user [OF attached_flow [OF assms(1,2)]] assms(3)
  by (simp add: kill_effects kill_transports Let_def)

text \<open>C23. When the extension is deactivated, in any state that the steps reach, no flow and no transport
  stays registered, no label is left, no flow is attached to any transport, and a connection is closed
  if its transport had flows and no pending reference, or was registered, unless another transport
  with flows had the same authority. What stays in the object are the promises of transports that are
  being created and the agents' link identifiers.\<close>

theorem dispose_closes_all:
  assumes "ref_step\<^sup>*\<^sup>* ref_start (w, P)"
  shows "r_connections (resolver_dispose w) = [] \<and> r_transports (resolver_dispose w) = [] \<and> r_labels (resolver_dispose w) = []
       \<and> r_promises (resolver_dispose w) = r_promises w \<and> r_linkIds (resolver_dispose w) = r_linkIds w
       \<and> (\<forall>a. sh_flows (r_shared (resolver_dispose w) a) = {}
            \<and> (sh_flows (r_shared w a) \<noteq> {} \<and> P a = 0
               \<or> (\<exists>k. map_of (r_transports w) k = Some a
                     \<and> (\<forall>b. b \<noteq> a \<and> sh_flows (r_shared w b) \<noteq> {} \<longrightarrow> sh_authority (r_shared w b) \<noteq> k))
               \<longrightarrow> ConnClosed (sh_conn (r_shared w a)) \<in> set (r_effects (resolver_dispose w))))"
proof -
  note inv = ref_invD [OF ref_inv_reachable [OF assms]]
  let ?fs = "map snd (r_connections w)"
  let ?w = "(fold (\<lambda>(k, f). killConnection f) (r_connections w) w)\<lparr>r_connections := []\<rparr>"
  have w: "?w = (fold killConnection ?fs w)\<lparr>r_connections := []\<rparr>" by (simp add: fold_pairs)
  have att: "\<forall>f \<in> set ?fs. f \<in> sh_flows (r_shared w (fl_shared (r_flow w f)))" "\<forall>a. sh_flows (r_shared w a) \<subseteq> set ?fs"
    using inv(4) by blast+
  from fold_kill [OF inv(3,1) att]
  have flows: "\<forall>a. sh_flows (r_shared ?w a) = {}"
    "\<forall>a. sh_flows (r_shared w a) \<noteq> {} \<and> P a = 0 \<longrightarrow> ConnClosed (sh_conn (r_shared w a)) \<in> set (r_effects ?w)"
    unfolding w by auto
  have conn: "sh_conn (r_shared ?w a) = sh_conn (r_shared w a)" for a
  proof -
    have "sh_conn (r_shared (fold killConnection fs v) a) = sh_conn (r_shared v a)" for fs and v :: resolver
      by (induction fs arbitrary: v) (simp_all add: kill_shared Let_def)
    then show ?thesis unfolding w by simp
  qed
  have registered: "map_of (r_transports ?w) k = Some a \<or> ConnClosed (sh_conn (r_shared w a)) \<in> set (r_effects ?w)"
    if "map_of (r_transports w) k = Some a" "\<forall>b. b \<noteq> a \<and> sh_flows (r_shared w b) \<noteq> {} \<longrightarrow> sh_authority (r_shared w b) \<noteq> k" for k a
    using fold_kill_registered [OF that(1), of ?fs] that(2) att(1) unfolding w by auto
  note down = fold_teardown [of "r_transports ?w" ?w]
  have "ConnClosed (sh_conn (r_shared w a)) \<in> set (r_effects (fold (\<lambda>(k, a). killSharedTransport a) (r_transports ?w) ?w))"
    if "map_of (r_transports ?w) k = Some a" for k a
    using down map_of_SomeD [OF that] conn by fastforce
  with registered flows down
  have "\<forall>a. sh_flows (r_shared (resolver_dispose w) a) = {}
      \<and> (sh_flows (r_shared w a) \<noteq> {} \<and> P a = 0
          \<or> (\<exists>k. map_of (r_transports w) k = Some a \<and> (\<forall>b. b \<noteq> a \<and> sh_flows (r_shared w b) \<noteq> {} \<longrightarrow> sh_authority (r_shared w b) \<noteq> k))
          \<longrightarrow> ConnClosed (sh_conn (r_shared w a)) \<in> set (r_effects (resolver_dispose w)))"
    unfolding resolver_dispose_def Let_def by simp blast
  moreover have "r_connections (resolver_dispose w) = []" "r_transports (resolver_dispose w) = []" "r_labels (resolver_dispose w) = []"
    using down by (simp_all add: resolver_dispose_def Let_def)
  ultimately show ?thesis using dispose_kept [of w] by blast
qed

section \<open>A concrete run\<close>

text \<open>A transport over connection 7, made for flow 1 and reused for flow 2.\<close>

definition two_users :: resolver where
  "two_users = snd (add_flow ''b'' no_flow (upd_shared 0 (\<lambda>s. s\<lparr>sh_refs := sh_refs s + 1\<rparr>)
     (snd (add_flow ''a'' no_flow (snd (alloc_shared (fresh_shared ''a'' 7 True None) new_resolver))))))"

lemma two_users_reached: "ref_step\<^sup>*\<^sup>* ref_start (two_users, \<lambda>_. 0)"
proof -
  let ?E = "plain_env False True"
  define w1 where "w1 = snd (alloc_shared (fresh_shared ''a'' 7 True None) new_resolver)"
  define w2 where "w2 = snd (add_flow ''a'' no_flow w1)"
  define w3 where "w3 = upd_shared 0 (\<lambda>s. s\<lparr>sh_refs := sh_refs s + 1\<rparr>) w2"
  have no: "fl_shared no_flow = 0" by (simp add: no_flow_def)
  have q: "conn_alive (v_conn ?E c) w = (True, w)" for c w
    by (simp add: conn_alive_def plain_env_def fixed_conn_def printed_def resolve_def)
  have "alloc_shared (fresh_shared ''a'' 7 True None) new_resolver = (Inr 0, w1)"
    by (simp add: w1_def alloc_shared_def new_resolver_def)
  then have "ref_step ref_start (w1, (\<lambda>_. 0)(0 := 1))" unfolding ref_start_def by (rule create)
  moreover have "ref_step (w1, (\<lambda>_. 0)(0 := 1)) (w2, ((\<lambda>_. 0)(0 := 1))(fl_shared no_flow := ((\<lambda>_. 0)(0 := 1)) (fl_shared no_flow) - 1))"
  proof (rule attach)
    show "map_of (r_connections w1) ''a'' = None" by (simp add: w1_def alloc_shared_def new_resolver_def)
    show "add_flow ''a'' no_flow w1 = (fst (add_flow ''a'' no_flow w1), w2)" by (simp add: w2_def)
  qed (simp add: no)
  moreover have "((\<lambda>_. 0)(0 := 1))(fl_shared no_flow := ((\<lambda>_. 0)(0 := 1)) (fl_shared no_flow) - 1) = (\<lambda>_. 0 :: nat)" by (auto simp: no)
  moreover have "ref_step (w2, \<lambda>_. 0) (w3, (\<lambda>_. 0)(0 := Suc 0))"
  proof (rule reuse [where E = ?E])
    show "0 < r_next w2" by (simp add: w2_def add_flow_def Let_def)
    have "\<not> sh_dead (r_shared w2 0)"
      by (simp add: w2_def w1_def add_flow_def alloc_shared_def Let_def no fresh_shared_def no_shared_def new_resolver_def)
    then show "reuse_existing ?E (Some 0) w2 = (Some 0, w3)" by (simp add: reuse_existing_def q w3_def)
  qed (rule q)
  moreover have "ref_step (w3, (\<lambda>_. 0)(0 := Suc 0)) (two_users, ((\<lambda>_. 0)(0 := Suc 0))(fl_shared no_flow := ((\<lambda>_. 0)(0 := Suc 0)) (fl_shared no_flow) - 1))"
  proof (rule attach)
    show "map_of (r_connections w3) ''b'' = None"
      by (simp add: w3_def w2_def w1_def add_flow_def alloc_shared_def Let_def new_resolver_def)
    show "add_flow ''b'' no_flow w3 = (fst (add_flow ''b'' no_flow w3), two_users)" by (simp add: w3_def w2_def w1_def two_users_def)
  qed (simp add: no)
  moreover have "((\<lambda>_. 0)(0 := Suc 0))(fl_shared no_flow := ((\<lambda>_. 0)(0 := Suc 0)) (fl_shared no_flow) - 1) = (\<lambda>_. 0 :: nat)" by (auto simp: no)
  ultimately show ?thesis by (metis (no_types, lifting) converse_rtranclp_into_rtranclp rtranclp.rtrancl_refl)
qed

lemma two_users_simps:
  "r_connections two_users = [(''a'', 1), (''b'', 2)]" "sh_flows (r_shared two_users 0) = {1, 2}" "sh_conn (r_shared two_users 0) = 7"
  "r_transports two_users = []" "r_effects two_users = []" "r_flow two_users (Suc 0) = no_flow"
  by (auto simp: two_users_def add_flow_def alloc_shared_def Let_def new_resolver_def no_flow_def fresh_shared_def no_shared_def)

theorem transport_outlives_flows_witness:
  "r_effects (forget_previous ''a'' (Some 1) two_users) = []"
proof -
  have "map_of (r_connections two_users) ''a'' = Some 1" "0 = fl_shared (r_flow two_users 1)" by (simp_all add: two_users_simps no_flow_def)
  from transport_outlives_flows [OF two_users_reached this] show ?thesis
    by (simp add: two_users_simps server_cleanup_effects_def) (simp add: no_flow_def)
qed

theorem dispose_closes_all_witness:
  "ConnClosed 7 \<in> set (r_effects (resolver_dispose two_users))"
proof -
  have "sh_flows (r_shared two_users 0) \<noteq> {}" by (simp add: two_users_simps)
  with dispose_closes_all [OF two_users_reached] show ?thesis by (metis two_users_simps(3))
qed

end
