(* ===== verification/Transport.thy ===== *)
theory Transport
  imports Json Base64
begin

text \<open>
  \<^verbatim>\<open>src/transport/client.ts\<close> and \<^verbatim>\<open>src/transport/zygos.ts\<close>: the client of the Go transport server.

  A \<open>net\<close> is what the client uses of a socket: dialling (the SOCKS5 connection of Socks5, or
  \<^verbatim>\<open>connectFn\<close>), an awaited write (\<^verbatim>\<open>write\<close> and, when it reports back pressure, \<^verbatim>\<open>drain\<close>), the half
  close, destruction, and the events the socket goes on to deliver. These are the effects of
  Node's \<^verbatim>\<open>net.Socket\<close> on an abstract world. The readers (\<^verbatim>\<open>readResponse\<close>, \<^verbatim>\<open>readFrames\<close>,
  \<^verbatim>\<open>readNBytes\<close>) are machines over socket events; when the events of a socket run out, the peer has ended its side
  and the socket has closed.
  \<open>Expired\<close> is the reader's own timer.
\<close>

section \<open>The protocol\<close>

definition OP_EXEC :: byte where "OP_EXEC = 1"
definition OP_SPAWN :: byte where "OP_SPAWN = 2"
definition OP_PUT :: byte where "OP_PUT = 3"
definition OP_GET :: byte where "OP_GET = 4"
definition OP_STAT :: byte where "OP_STAT = 5"
definition OP_READDIR :: byte where "OP_READDIR = 6"
definition OP_MKDIR :: byte where "OP_MKDIR = 7"
definition OP_RENAME :: byte where "OP_RENAME = 8"
definition OP_RM :: byte where "OP_RM = 9"
definition OP_ENV :: byte where "OP_ENV = 10"
definition OP_KILL :: byte where "OP_KILL = 11"
definition OP_HEALTH :: byte where "OP_HEALTH = 12"
definition OP_CONNECT :: byte where "OP_CONNECT = 13"
definition OP_WAIT_FILE :: byte where "OP_WAIT_FILE = 14"
definition OP_EXTRACT :: byte where "OP_EXTRACT = 105"

definition ST_OK :: byte where "ST_OK = 0"
definition ST_MISSING :: byte where "ST_MISSING = 2"

definition TransportError :: "byte \<Rightarrow> string \<Rightarrow> js_error" where
  "TransportError status message = JsError message None (Some (unat status))"

section \<open>Sockets\<close>

datatype sock_event = Chunk bytes | Broken js_error | EndOfInput | Closed | Expired

record ('w, 's) net =
  dial :: "('w, 's) promise"
  send :: "'s \<Rightarrow> bytes \<Rightarrow> 'w \<Rightarrow> 'w"
  half_close :: "'s \<Rightarrow> 'w \<Rightarrow> 'w"
  destroy :: "'s \<Rightarrow> 'w \<Rightarrow> 'w"
  inbox :: "'s \<Rightarrow> 'w \<Rightarrow> sock_event list \<times> 'w"

text \<open>A promise ignores every settlement after the first.\<close>

definition keep_first :: "'v option \<Rightarrow> 'v \<Rightarrow> 'v option" where
  "keep_first v x = (case v of None \<Rightarrow> Some x | Some y \<Rightarrow> Some y)"

lemma keep_first_simps [simp]: "keep_first None x = Some x" "keep_first (Some y) x = Some y"
  by (simp_all add: keep_first_def)

section \<open>Reading a response\<close>

type_synonym response = "byte \<times> bytes \<times> bytes"

record resp =
  r_buf :: bytes
  r_need :: nat
  r_status :: byte
  r_settled :: bool
  r_verdict :: "response result option"

definition resp_init :: resp where
  "resp_init = \<lparr>r_buf = [], r_need = 5, r_status = 0, r_settled = False, r_verdict = None\<rparr>"

definition resp_data :: "resp \<Rightarrow> bytes \<Rightarrow> resp" where
  "resp_data s chunk =
     (if r_settled s then s
      else let buf = r_buf s @ chunk;
               (status, need) = (if 5 \<le> length buf \<and> r_need s = 5
                                 then (buf ! 0, 5 + read_be32 (drop 1 buf))
                                 else (r_status s, r_need s))
           in if need \<le> length buf
              then s\<lparr>r_buf := buf, r_status := status, r_need := need, r_settled := True,
                     r_verdict := keep_first (r_verdict s)
                       (Inr (status, take (need - 5) (drop 5 buf), drop need buf))\<rparr>
              else s\<lparr>r_buf := buf, r_status := status, r_need := need\<rparr>)"

fun resp_event :: "resp \<Rightarrow> sock_event \<Rightarrow> resp" where
  "resp_event s (Chunk c) = resp_data s c"
| "resp_event s (Broken e) =
     (if r_settled s then s else s\<lparr>r_verdict := keep_first (r_verdict s) (Inl e)\<rparr>)"
| "resp_event s Closed =
     (if r_settled s then s
      else s\<lparr>r_verdict := keep_first (r_verdict s) (Inl (plain_error ''connection closed before response''))\<rparr>)"
| "resp_event s EndOfInput = s"
| "resp_event s Expired = s"

text \<open>The response, and the events that are left for whoever reads next.\<close>

fun resp_run :: "resp \<Rightarrow> sock_event list \<Rightarrow> response result \<times> sock_event list" where
  "resp_run s [] = (the (r_verdict (resp_event s Closed)), [])"
| "resp_run s (e # es) =
     (let s' = resp_event s e in case r_verdict s' of Some v \<Rightarrow> (v, es) | None \<Rightarrow> resp_run s' es)"

definition readResponse :: "sock_event list \<Rightarrow> response result \<times> sock_event list" where
  "readResponse es = resp_run resp_init es"

fun readToEnd :: "bytes \<Rightarrow> sock_event list \<Rightarrow> bytes result" where
  "readToEnd acc (Chunk c # es) = readToEnd (acc @ c) es"
| "readToEnd acc (EndOfInput # es) = Inr acc"
| "readToEnd acc (Broken e # es) = Inl e"
| "readToEnd acc (Closed # es) = readToEnd acc es"
| "readToEnd acc (Expired # es) = readToEnd acc es"
| "readToEnd acc [] = Inr acc"

section \<open>Reading spawn frames\<close>

datatype frame = Stdout bytes | Stderr bytes

definition exit_code_of :: "bytes \<Rightarrow> nat" where
  "exit_code_of data = (if 4 \<le> length data then read_be32 data else 0)"

text \<open>The loop of \<^verbatim>\<open>drain\<close>: the frames for the callbacks, the exit code once its frame is complete,
  and the bytes that are left.\<close>

function drain_frames :: "bytes \<Rightarrow> frame list \<times> nat option \<times> bytes" where
  "drain_frames buf =
     (if length buf < 5 then ([], None, buf)
      else let tag = buf ! 0; len = read_be32 (drop 1 buf)
      in if length buf < 5 + len then ([], None, buf)
      else let data = take len (drop 5 buf); buf' = drop (5 + len) buf
      in if tag = 2 then ([], Some (exit_code_of data), buf')
      else let (fs, x, b) = drain_frames buf'
      in ((if tag = 0 then Stdout data # fs else if tag = 1 then Stderr data # fs else fs), x, b))"
  by pat_completeness auto
termination by (relation "measure length") auto

declare drain_frames.simps [simp del]

record frames =
  f_buf :: bytes
  f_out :: "frame list"
  f_exit :: "nat option"
  f_verdict :: "unit result option"

definition frames_drain :: "frames \<Rightarrow> frames" where
  "frames_drain s =
     (let (fs, x, b) = drain_frames (f_buf s)
      in case x of
           None \<Rightarrow> s\<lparr>f_buf := b, f_out := f_out s @ fs\<rparr>
         | Some code \<Rightarrow> s\<lparr>f_buf := b, f_out := f_out s @ fs, f_exit := Some code,
                         f_verdict := keep_first (f_verdict s) (Inr ())\<rparr>)"

definition frames_start :: "bytes \<Rightarrow> frames" where
  "frames_start initial = frames_drain \<lparr>f_buf = initial, f_out = [], f_exit = None, f_verdict = None\<rparr>"

definition frames_data :: "frames \<Rightarrow> bytes \<Rightarrow> frames" where
  "frames_data s chunk = (if f_exit s \<noteq> None then s else frames_drain (s\<lparr>f_buf := f_buf s @ chunk\<rparr>))"

fun frames_event :: "frames \<Rightarrow> sock_event \<Rightarrow> frames" where
  "frames_event s (Chunk c) = frames_data s c"
| "frames_event s (Broken e) =
     (if f_exit s \<noteq> None then s else s\<lparr>f_verdict := keep_first (f_verdict s) (Inl e)\<rparr>)"
| "frames_event s Closed =
     (if f_exit s \<noteq> None then s
      else s\<lparr>f_verdict := keep_first (f_verdict s) (Inl (plain_error ''connection closed before exit frame''))\<rparr>)"
| "frames_event s EndOfInput = s"
| "frames_event s Expired = s"

definition readFrames :: "bytes \<Rightarrow> sock_event list \<Rightarrow> frames" where
  "readFrames initial es = foldl frames_event (frames_start initial) (es @ [Closed])"

section \<open>Reading a fixed number of bytes\<close>

record nread =
  n_buf :: bytes
  n_verdict :: "bytes result option"

fun nread_event :: "nat \<Rightarrow> nat \<Rightarrow> nread \<Rightarrow> sock_event \<Rightarrow> nread" where
  "nread_event n ms s (Chunk c) =
     (if n_verdict s \<noteq> None then s
      else let buf = n_buf s @ c
           in s\<lparr>n_buf := buf, n_verdict := (if n \<le> length buf then Some (Inr (take n buf)) else None)\<rparr>)"
| "nread_event n ms s (Broken e) = (if n_verdict s \<noteq> None then s else s\<lparr>n_verdict := Some (Inl e)\<rparr>)"
| "nread_event n ms s EndOfInput =
     (if n_verdict s \<noteq> None then s
      else s\<lparr>n_verdict := Some (Inl (plain_error (''connection closed before '' @ dec n @ '' bytes'')))\<rparr>)"
| "nread_event n ms s Expired =
     (if n_verdict s \<noteq> None then s
      else s\<lparr>n_verdict := Some (Inl (plain_error (''read '' @ dec n @ '' bytes timed out after '' @ dec ms @ ''ms'')))\<rparr>)"
| "nread_event n ms s Closed = s"

text \<open>The timer fires at last when nothing else has happened.\<close>

definition readNBytes :: "nat \<Rightarrow> nat \<Rightarrow> sock_event list \<Rightarrow> bytes result" where
  "readNBytes n ms es =
     the (n_verdict (foldl (nread_event n ms) \<lparr>n_buf = [], n_verdict = None\<rparr> (es @ [Expired])))"

section \<open>Requests\<close>

definition frame_header :: "byte \<Rightarrow> nat \<Rightarrow> bytes" where
  "frame_header op len = [op, 0] @ be32 len"

definition writeHeader :: "('w, 's) net \<Rightarrow> string \<Rightarrow> 's \<Rightarrow> byte \<Rightarrow> json \<Rightarrow> 'w \<Rightarrow> 'w" where
  "writeHeader N token sock op args w =
     (let argsBuf = utf8_bytes (stringify args)
      in send N sock argsBuf (send N sock (frame_header op (length argsBuf))
           (send N sock (hex_decode token) w)))"

definition request :: "('w, 's) net \<Rightarrow> string \<Rightarrow> byte \<Rightarrow> json \<Rightarrow> ('w, response) promise" where
  "request N token op args =
     await (dial N) (\<lambda>sock w.
       let (es, w') = inbox N sock (writeHeader N token sock op args w)
       in (fst (readResponse es), destroy N sock w'))"

definition requestJSON :: "('w, 's) net \<Rightarrow> string \<Rightarrow> byte \<Rightarrow> json \<Rightarrow> ('w, json) promise" where
  "requestJSON N token op args =
     await (request N token op args) (\<lambda>(status, body, rest) w.
       if status \<noteq> ST_OK
       then (Inl (TransportError status (''op '' @ dec (unat op) @ '' failed: status '' @ dec (unat status))), w)
       else (parse_json (utf8_string body), w))"

text \<open>A request whose answer is only a status.\<close>

definition expect_ok :: "string \<Rightarrow> ('w, response) promise \<Rightarrow> ('w, bytes) promise" where
  "expect_ok message m =
     await m (\<lambda>(status, body, rest).
       if status \<noteq> ST_OK then reject (TransportError status (message @ dec (unat status))) else resolve body)"

definition ignoring :: "('w, 'a) promise \<Rightarrow> ('w, unit) promise" where
  "ignoring m = await m (\<lambda>_. resolve ())"

definition health :: "('w, 's) net \<Rightarrow> string \<Rightarrow> ('w, unit) promise" where
  "health N token = ignoring (expect_ok ''health failed: status '' (request N token OP_HEALTH (JObj [])))"

definition waitForFile :: "('w, 's) net \<Rightarrow> string \<Rightarrow> string \<Rightarrow> nat \<Rightarrow> ('w, bytes) promise" where
  "waitForFile N token path timeoutMs =
     expect_ok (''waitForFile '' @ path @ '' failed: status '')
       (request N token OP_WAIT_FILE (JObj [(''path'', JStr path), (''timeoutMs'', JNum (dec timeoutMs))]))"

record exec_result =
  stdout_of :: bytes
  stderr_of :: bytes
  exitCode_of :: "json option"

definition string_map_json :: "(string \<times> string) list \<Rightarrow> json" where
  "string_map_json kvs = JObj (map (\<lambda>(k, v). (k, JStr v)) kvs)"

definition command_args :: "string \<Rightarrow> string list \<Rightarrow> string option \<Rightarrow> (string \<times> string) list option \<Rightarrow> json" where
  "command_args cmd args cwd envv =
     JObj ([(''cmd'', JStr cmd), (''args'', JArr (map JStr args))]
           @ opt_field ''cwd'' (map_option JStr cwd) @ opt_field ''env'' (map_option string_map_json envv))"

text \<open>\<^verbatim>\<open>Buffer.from(x, "base64")\<close> throws unless \<^verbatim>\<open>x\<close> is a string.\<close>

definition from_base64 :: "json option \<Rightarrow> bytes result" where
  "from_base64 x = (case json_string x of None \<Rightarrow> Inl type_error | Some t \<Rightarrow> Inr (base64_decode t))"

definition exec_reply :: "json \<Rightarrow> exec_result result" where
  "exec_reply r =
     (case json_prop r ''stdout'' of Inl e \<Rightarrow> Inl e
      | Inr so \<Rightarrow> (case from_base64 so of Inl e \<Rightarrow> Inl e
      | Inr out \<Rightarrow> (case json_prop r ''stderr'' of Inl e \<Rightarrow> Inl e
      | Inr se \<Rightarrow> (case from_base64 se of Inl e \<Rightarrow> Inl e
      | Inr err \<Rightarrow> (case json_prop r ''exitCode'' of Inl e \<Rightarrow> Inl e
      | Inr code \<Rightarrow> Inr \<lparr>stdout_of = out, stderr_of = err, exitCode_of = code\<rparr>)))))"

definition exec :: "('w, 's) net \<Rightarrow> string \<Rightarrow> string \<Rightarrow> string list \<Rightarrow> string option
    \<Rightarrow> (string \<times> string) list option \<Rightarrow> ('w, exec_result) promise" where
  "exec N token cmd args cwd envv =
     await (requestJSON N token OP_EXEC (command_args cmd args cwd envv)) (\<lambda>r w. (exec_reply r, w))"

definition exec_env :: "('w, 's) net \<Rightarrow> string \<Rightarrow> ('w, json) promise" where
  "exec_env N token = requestJSON N token OP_ENV (JObj [])"

definition kill :: "('w, 's) net \<Rightarrow> string \<Rightarrow> nat \<Rightarrow> ('w, unit) promise" where
  "kill N token pid =
     ignoring (expect_ok (''kill '' @ dec pid @ '' failed: status '')
       (request N token OP_KILL (JObj [(''pid'', JNum (dec pid))])))"

definition stat :: "('w, 's) net \<Rightarrow> string \<Rightarrow> string \<Rightarrow> ('w, json) promise" where
  "stat N token path = requestJSON N token OP_STAT (JObj [(''path'', JStr path)])"

definition readdir :: "('w, 's) net \<Rightarrow> string \<Rightarrow> string \<Rightarrow> ('w, json) promise" where
  "readdir N token path = requestJSON N token OP_READDIR (JObj [(''path'', JStr path)])"

definition mkdir :: "('w, 's) net \<Rightarrow> string \<Rightarrow> string \<Rightarrow> ('w, unit) promise" where
  "mkdir N token path =
     ignoring (expect_ok (''mkdir '' @ path @ '' failed: status '')
       (request N token OP_MKDIR (JObj [(''path'', JStr path)])))"

definition rename_file :: "('w, 's) net \<Rightarrow> string \<Rightarrow> string \<Rightarrow> string \<Rightarrow> ('w, unit) promise" where
  "rename_file N token old new =
     ignoring (expect_ok ''rename failed: status ''
       (request N token OP_RENAME (JObj [(''from'', JStr old), (''to'', JStr new)])))"

definition rm :: "('w, 's) net \<Rightarrow> string \<Rightarrow> string \<Rightarrow> ('w, unit) promise" where
  "rm N token path =
     ignoring (expect_ok (''rm '' @ path @ '' failed: status '')
       (request N token OP_RM (JObj [(''path'', JStr path)])))"
section \<open>Files\<close>

definition CHUNK :: nat where "CHUNK = 1048576"

text \<open>The loop that writes a buffer piece by piece, with its progress reports.\<close>

function send_chunks :: "('w, 's) net \<Rightarrow> 's \<Rightarrow> bytes \<Rightarrow> nat \<Rightarrow> 'w \<Rightarrow> (nat \<times> nat) list \<times> 'w" where
  "send_chunks N sock content off w =
     (if off < length content
      then let (ps, w') = send_chunks N sock content (off + CHUNK) (send N sock (take CHUNK (drop off content)) w)
           in ((min (off + CHUNK) (length content), length content) # ps, w')
      else ([], w))"
  by pat_completeness auto
termination by (relation "measure (\<lambda>(N, sock, content, off, w). length content - off)") (auto simp: CHUNK_def)

declare send_chunks.simps [simp del]

definition upload :: "('w, 's) net \<Rightarrow> string \<Rightarrow> byte \<Rightarrow> json \<Rightarrow> string \<Rightarrow> bytes \<Rightarrow> 'w
    \<Rightarrow> (unit result \<times> (nat \<times> nat) list) \<times> 'w" where
  "upload N token op args message content w =
     (case dial N w of
        (Inl e, w1) \<Rightarrow> ((Inl e, []), w1)
      | (Inr sock, w1) \<Rightarrow>
          (let (progress, w2) = send_chunks N sock content 0 (writeHeader N token sock op args w1);
               (es, w3) = inbox N sock (half_close N sock w2);
               verdict = (case fst (readResponse es) of
                            Inl e \<Rightarrow> Inl e
                          | Inr (status, body, rest) \<Rightarrow>
                              if status \<noteq> ST_OK then Inl (TransportError status (message @ dec (unat status)))
                              else Inr ())
           in ((verdict, progress), destroy N sock w3)))"

definition put_args :: "string \<Rightarrow> string option \<Rightarrow> json" where
  "put_args path mode = JObj ((''path'', JStr path) # opt_field ''mode'' (map_option JStr mode))"

definition putFile :: "('w, 's) net \<Rightarrow> string \<Rightarrow> string \<Rightarrow> bytes \<Rightarrow> string option \<Rightarrow> 'w
    \<Rightarrow> (unit result \<times> (nat \<times> nat) list) \<times> 'w" where
  "putFile N token path content mode =
     upload N token OP_PUT (put_args path mode) (''putFile '' @ path @ '' failed: '') content"

definition extractTarball :: "('w, 's) net \<Rightarrow> string \<Rightarrow> string \<Rightarrow> nat \<Rightarrow> bytes \<Rightarrow> 'w
    \<Rightarrow> (unit result \<times> (nat \<times> nat) list) \<times> 'w" where
  "extractTarball N token dest stripComponents content =
     upload N token OP_EXTRACT
       (JObj [(''dest'', JStr dest), (''stripComponents'', JNum (dec stripComponents))])
       (''extract to '' @ dest @ '' failed: '') content"

text \<open>\<^verbatim>\<open>openPutFile\<close> returns the socket as the writer; \<open>put_done\<close> is its promise \<^verbatim>\<open>done\<close>, which leaves
  the socket alone when no response comes.\<close>

definition openPutFile :: "('w, 's) net \<Rightarrow> string \<Rightarrow> string \<Rightarrow> string option \<Rightarrow> ('w, 's) promise" where
  "openPutFile N token path mode =
     await (dial N) (\<lambda>sock w. (Inr sock, writeHeader N token sock OP_PUT (put_args path mode) w))"

definition put_done :: "('w, 's) net \<Rightarrow> 's \<Rightarrow> string \<Rightarrow> ('w, unit) promise" where
  "put_done N sock path w =
     (let (es, w') = inbox N sock w
      in case fst (readResponse es) of
           Inl e \<Rightarrow> (Inl e, w')
         | Inr (status, body, rest) \<Rightarrow>
             (if status \<noteq> ST_OK
              then Inl (TransportError status (''putFile '' @ path @ '' failed: '' @ dec (unat status)))
              else Inr (), destroy N sock w'))"

definition file_reply :: "string \<Rightarrow> sock_event list \<Rightarrow> bytes result" where
  "file_reply path es =
     (case readResponse es of
        (Inl e, _) \<Rightarrow> Inl e
      | (Inr (status, body, rest), es') \<Rightarrow>
          if status = ST_MISSING then Inl (TransportError ST_MISSING (''getFile '' @ path @ '' not found''))
          else if status \<noteq> ST_OK
          then Inl (TransportError status (''getFile '' @ path @ '' failed: '' @ dec (unat status)))
          else (case readToEnd [] es' of Inl e \<Rightarrow> Inl e | Inr tail \<Rightarrow> Inr (body @ rest @ tail)))"

definition getFile :: "('w, 's) net \<Rightarrow> string \<Rightarrow> string \<Rightarrow> ('w, bytes) promise" where
  "getFile N token path =
     await (dial N) (\<lambda>sock w.
       let (es, w') = inbox N sock (writeHeader N token sock OP_GET (JObj [(''path'', JStr path)]) w)
       in (file_reply path es, destroy N sock w'))"

text \<open>A streaming read: chunks wait in \<open>g_pending\<close> until the first callback registers. A callback
  is a number, and \<open>g_log\<close> what each has received.\<close>

record getter =
  g_cbs :: "nat list"
  g_pending :: "bytes list"
  g_log :: "(nat \<times> bytes) list"
  g_ended :: bool

definition getter_emit :: "getter \<Rightarrow> bytes \<Rightarrow> getter" where
  "getter_emit s c =
     (if g_cbs s = [] then s\<lparr>g_pending := g_pending s @ [c]\<rparr>
      else s\<lparr>g_log := g_log s @ map (\<lambda>cb. (cb, c)) (g_cbs s)\<rparr>)"

definition getter_start :: "bytes \<Rightarrow> getter" where
  "getter_start rest =
     (let s = \<lparr>g_cbs = [], g_pending = [], g_log = [], g_ended = False\<rparr>
      in if rest \<noteq> [] then getter_emit s rest else s)"

definition getter_onData :: "getter \<Rightarrow> nat \<Rightarrow> getter" where
  "getter_onData s cb =
     s\<lparr>g_cbs := g_cbs s @ [cb], g_log := g_log s @ map (\<lambda>p. (cb, p)) (g_pending s), g_pending := []\<rparr>"

datatype getter_event = FromServer sock_event | OnData nat

fun getter_step :: "getter \<Rightarrow> getter_event \<Rightarrow> getter" where
  "getter_step s (OnData cb) = getter_onData s cb"
| "getter_step s (FromServer (Chunk c)) = (if g_ended s then s else getter_emit s c)"
| "getter_step s (FromServer EndOfInput) = s\<lparr>g_ended := True\<rparr>"
| "getter_step s (FromServer (Broken e)) = s\<lparr>g_ended := True\<rparr>"
| "getter_step s (FromServer Closed) = s"
| "getter_step s (FromServer Expired) = s"

definition openGetFile :: "('w, 's) net \<Rightarrow> string \<Rightarrow> string \<Rightarrow> ('w, getter \<times> sock_event list) promise" where
  "openGetFile N token path =
     await (dial N) (\<lambda>sock w.
       let (es, w') = inbox N sock (writeHeader N token sock OP_GET (JObj [(''path'', JStr path)]) w)
       in case readResponse es of
            (Inl e, _) \<Rightarrow> (Inl e, w')
          | (Inr (status, body, rest), es') \<Rightarrow>
              if status \<noteq> ST_OK
              then (Inl (TransportError status (''getFile '' @ path @ '' failed: '' @ dec (unat status))),
                    destroy N sock w')
              else (Inr (getter_start rest, es'), w'))"

section \<open>Processes\<close>

record spawned =
  s_resp :: resp
  s_frames :: "frames option"
  s_stdout :: "nat list"
  s_stderr :: "nat list"
  s_log :: "(nat \<times> bytes) list"
  s_exit :: "nat result option"
  s_destroyed :: bool

definition spawn_init :: spawned where
  "spawn_init = \<lparr>s_resp = resp_init, s_frames = None, s_stdout = [], s_stderr = [], s_log = [],
     s_exit = None, s_destroyed = False\<rparr>"

fun deliver :: "nat list \<Rightarrow> nat list \<Rightarrow> frame \<Rightarrow> (nat \<times> bytes) list" where
  "deliver outs errs (Stdout d) = map (\<lambda>cb. (cb, d)) outs"
| "deliver outs errs (Stderr d) = map (\<lambda>cb. (cb, d)) errs"

text \<open>The frame reader has gone from \<open>old\<close> frames to a new state: callbacks, the exit promise, and
  the \<^verbatim>\<open>finally\<close>.\<close>

definition spawn_frames :: "spawned \<Rightarrow> nat \<Rightarrow> frames \<Rightarrow> spawned" where
  "spawn_frames s old f =
     (let s' = s\<lparr>s_frames := Some f,
                 s_log := s_log s @ concat (map (deliver (s_stdout s) (s_stderr s)) (drop old (f_out f)))\<rparr>
      in case f_exit f of
           Some code \<Rightarrow> s'\<lparr>s_exit := keep_first (s_exit s) (Inr code), s_destroyed := True\<rparr>
         | None \<Rightarrow> (case f_verdict f of
                      Some (Inl e) \<Rightarrow> s'\<lparr>s_exit := keep_first (s_exit s) (Inl e), s_destroyed := True\<rparr>
                    | _ \<Rightarrow> s'))"

definition spawn_event :: "spawned \<Rightarrow> sock_event \<Rightarrow> spawned" where
  "spawn_event s e =
     (if s_destroyed s then s
      else case s_frames s of
             Some f \<Rightarrow> spawn_frames s (length (f_out f)) (frames_event f e)
           | None \<Rightarrow>
               (let r = resp_event (s_resp s) e; s' = s\<lparr>s_resp := r\<rparr>
                in case r_verdict r of
                     None \<Rightarrow> s'
                   | Some (Inl err) \<Rightarrow> s'\<lparr>s_exit := keep_first (s_exit s) (Inl err), s_destroyed := True\<rparr>
                   | Some (Inr (status, body, rest)) \<Rightarrow>
                       if status \<noteq> ST_OK
                       then s'\<lparr>s_exit := keep_first (s_exit s)
                                (Inl (TransportError status (''spawn failed: status '' @ dec (unat status)))),
                               s_destroyed := True\<rparr>
                       else spawn_frames s' 0 (frames_start rest)))"

datatype spawn_action = OnSocket sock_event | OnStdout nat | OnStderr nat

fun spawn_step :: "spawned \<Rightarrow> spawn_action \<Rightarrow> spawned" where
  "spawn_step s (OnSocket e) = spawn_event s e"
| "spawn_step s (OnStdout cb) = s\<lparr>s_stdout := s_stdout s @ [cb]\<rparr>"
| "spawn_step s (OnStderr cb) = s\<lparr>s_stderr := s_stderr s @ [cb]\<rparr>"

definition spawn :: "('w, 's) net \<Rightarrow> string \<Rightarrow> string \<Rightarrow> string list \<Rightarrow> string option
    \<Rightarrow> (string \<times> string) list option \<Rightarrow> ('w, 's \<times> spawned) promise" where
  "spawn N token cmd args cwd envv =
     await (dial N) (\<lambda>sock w.
       (Inr (sock, spawn_init), writeHeader N token sock OP_SPAWN (command_args cmd args cwd envv) w))"

definition received :: "nat \<Rightarrow> spawned \<Rightarrow> bytes" where
  "received cb s = concat (map snd (filter (\<lambda>(i, d). i = cb) (s_log s)))"

text \<open>\<^verbatim>\<open>execWithStdin\<close> registers its callbacks 0 and 1, writes all input, and awaits the exit.\<close>

definition collect_exit :: "sock_event list \<Rightarrow> exec_result result" where
  "collect_exit es =
     (let s = foldl spawn_step spawn_init ([OnStdout 0, OnStderr 1] @ map OnSocket (es @ [Closed]))
      in case the (s_exit s) of
           Inl e \<Rightarrow> Inl e
         | Inr status \<Rightarrow> Inr \<lparr>stdout_of = received 0 s, stderr_of = received 1 s,
                             exitCode_of = Some (JNum (dec status))\<rparr>)"

definition execWithStdin :: "('w, 's) net \<Rightarrow> string \<Rightarrow> string \<Rightarrow> bytes \<Rightarrow> ('w, exec_result) promise" where
  "execWithStdin N token command stdin =
     await (spawn N token ''sh'' [''-c'', command] None None) (\<lambda>(sock, s) w.
       let (es, w') = inbox N sock (half_close N sock (send N sock stdin w))
       in (collect_exit es, destroy N sock w'))"

text \<open>The duplex relay: the caller gets the socket and the events that follow the response.\<close>

definition connectUnix :: "('w, 's) net \<Rightarrow> string \<Rightarrow> string \<Rightarrow> ('w, 's \<times> sock_event list) promise" where
  "connectUnix N token path =
     await (dial N) (\<lambda>sock w.
       let (es, w') = inbox N sock (writeHeader N token sock OP_CONNECT (JObj [(''path'', JStr path)]) w)
       in case readResponse es of
            (Inl e, _) \<Rightarrow> (Inl e, w')
          | (Inr (status, body, rest), es') \<Rightarrow>
              if status \<noteq> ST_OK
              then (Inl (TransportError status (''connect '' @ path @ '' failed: '' @ dec (unat status))),
                    destroy N sock w')
              else (Inr (sock, es'), w'))"

section \<open>Probing and heartbeats\<close>

definition probeTransportAlive :: "('w, 's) net \<Rightarrow> string \<Rightarrow> nat \<Rightarrow> 'w \<Rightarrow> bool \<times> 'w" where
  "probeTransportAlive N token timeoutMs w =
     (case dial N w of
        (Inl e, w1) \<Rightarrow> (False, w1)
      | (Inr sock, w1) \<Rightarrow>
          (let tokBuf = hex_decode token
           in if length tokBuf \<noteq> 32 then (False, destroy N sock w1)
              else let w2 = send N sock (frame_header OP_HEALTH 0) (send N sock tokBuf w1);
                       (es, w3) = inbox N sock w2
                   in (case readNBytes 5 timeoutMs es of Inl e \<Rightarrow> False | Inr r \<Rightarrow> r ! 0 = ST_OK,
                       destroy N sock w3)))"

text \<open>\<open>alarms\<close> counts the calls of \<^verbatim>\<open>onUnreachable\<close>, \<open>beats\<close> the health requests started.\<close>

record heartbeat =
  ticking :: bool
  consecutiveFailures :: nat
  unreachableReported :: bool
  alarms :: nat
  beats :: nat

datatype heartbeat_event = Tick | Healthy | Unhealthy | Dispose

definition startHeartbeat :: heartbeat where
  "startHeartbeat = \<lparr>ticking = True, consecutiveFailures = 0, unreachableReported = False, alarms = 0, beats = 1\<rparr>"

fun heartbeat_step :: "heartbeat \<Rightarrow> heartbeat_event \<Rightarrow> heartbeat" where
  "heartbeat_step s Tick = (if ticking s then s\<lparr>beats := Suc (beats s)\<rparr> else s)"
| "heartbeat_step s Healthy = s\<lparr>consecutiveFailures := 0, unreachableReported := False\<rparr>"
| "heartbeat_step s Unhealthy =
     (let n = Suc (consecutiveFailures s)
      in if 3 \<le> n \<and> \<not> unreachableReported s
         then s\<lparr>consecutiveFailures := n, unreachableReported := True, alarms := Suc (alarms s)\<rparr>
         else s\<lparr>consecutiveFailures := n\<rparr>)"
| "heartbeat_step s Dispose = s\<lparr>ticking := False\<rparr>"

section \<open>The operations of Zygos\<close>

definition ZOP_SERVER_STATUS :: byte where "ZOP_SERVER_STATUS = 100"
definition ZOP_SERVER_CLEANUP :: byte where "ZOP_SERVER_CLEANUP = 101"
definition ZOP_SERVER_FINALIZE :: byte where "ZOP_SERVER_FINALIZE = 102"
definition ZOP_LOCK :: byte where "ZOP_LOCK = 103"
definition ZOP_UNLOCK :: byte where "ZOP_UNLOCK = 104"

definition serverStatus :: "('w, 's) net \<Rightarrow> string \<Rightarrow> string \<Rightarrow> ('w, json) promise" where
  "serverStatus N token installPath =
     requestJSON N token ZOP_SERVER_STATUS (JObj [(''installPath'', JStr installPath)])"

definition serverCleanup :: "('w, 's) net \<Rightarrow> string \<Rightarrow> string \<Rightarrow> ('w, json) promise" where
  "serverCleanup N token installPath =
     requestJSON N token ZOP_SERVER_CLEANUP (JObj [(''installPath'', JStr installPath)])"

definition serverFinalize :: "('w, 's) net \<Rightarrow> string \<Rightarrow> string \<Rightarrow> nat \<Rightarrow> bool \<Rightarrow> ('w, json) promise" where
  "serverFinalize N token installPath port releaseLock =
     requestJSON N token ZOP_SERVER_FINALIZE
       (JObj [(''installPath'', JStr installPath), (''port'', JNum (dec port)), (''releaseLock'', JBool releaseLock)])"

definition lock :: "('w, 's) net \<Rightarrow> string \<Rightarrow> string \<Rightarrow> nat \<Rightarrow> ('w, json) promise" where
  "lock N token dir staleSec =
     requestJSON N token ZOP_LOCK (JObj [(''dir'', JStr dir), (''staleSec'', JNum (dec staleSec))])"

definition unlock :: "('w, 's) net \<Rightarrow> string \<Rightarrow> string \<Rightarrow> ('w, unit) promise" where
  "unlock N token dir =
     ignoring (expect_ok (''unlock '' @ dir @ '' failed: '') (request N token ZOP_UNLOCK (JObj [(''dir'', JStr dir)])))"
section \<open>Responses in any number of events\<close>

definition encode_response :: "byte \<Rightarrow> bytes \<Rightarrow> bytes" where
  "encode_response status body = status # be32 (length body) @ body"

lemma length_encode_response [simp]: "length (encode_response st body) = 5 + length body"
  by (simp add: encode_response_def)

text \<open>What a buffer holds of a response: nothing complete, or status, body and the bytes after.\<close>

definition parse_response :: "bytes \<Rightarrow> response option" where
  "parse_response buf =
     (if length buf < 5 then None
      else let need = 5 + read_be32 (drop 1 buf)
           in if length buf < need then None
              else Some (buf ! 0, take (need - 5) (drop 5 buf), drop need buf))"

text \<open>Between events the reader has recorded the header as soon as it is there.\<close>

definition resp_inv :: "resp \<Rightarrow> bool" where
  "resp_inv s = (r_settled s \<or>
     (parse_response (r_buf s) = None \<and>
      (if length (r_buf s) < 5 then r_need s = 5
       else r_status s = r_buf s ! 0 \<and> r_need s = 5 + read_be32 (drop 1 (r_buf s)))))"

lemma read_be32_append: "4 \<le> length b \<Longrightarrow> read_be32 (b @ c) = read_be32 b"
  by (auto simp: read_be32_def nth_append)

lemma resp_data_parse:
  assumes "resp_inv s" "\<not> r_settled s"
  shows "case parse_response (r_buf s @ c) of
           None \<Rightarrow> \<not> r_settled (resp_data s c) \<and> r_verdict (resp_data s c) = r_verdict s
                   \<and> r_buf (resp_data s c) = r_buf s @ c
         | Some r \<Rightarrow> r_settled (resp_data s c) \<and> r_verdict (resp_data s c) = keep_first (r_verdict s) (Inr r)"
    and "resp_inv (resp_data s c)"
proof -
  let ?b = "r_buf s @ c"
  have n5: "r_need s = 5 \<Longrightarrow> \<not> length (r_buf s) < 5 \<Longrightarrow> False"
    using assms by (auto simp: resp_inv_def parse_response_def Let_def)
  have big: "\<not> length (r_buf s) < 5 \<Longrightarrow>
      r_status s = ?b ! 0 \<and> r_need s = 5 + read_be32 (drop 1 ?b)"
    using assms read_be32_append [of "drop 1 (r_buf s)" c]
    by (auto simp: resp_inv_def nth_append)
  have small: "length (r_buf s) < 5 \<Longrightarrow> r_need s = 5"
    using assms by (auto simp: resp_inv_def)
  have *: "(if 5 \<le> length ?b \<and> r_need s = 5 then (?b ! 0, 5 + read_be32 (drop 1 ?b)) else (r_status s, r_need s))
      = (if length ?b < 5 then (r_status s, 5) else (?b ! 0, 5 + read_be32 (drop 1 ?b)))"
    using n5 big small by (cases "length (r_buf s) < 5") auto
  show "case parse_response ?b of
           None \<Rightarrow> \<not> r_settled (resp_data s c) \<and> r_verdict (resp_data s c) = r_verdict s
                   \<and> r_buf (resp_data s c) = r_buf s @ c
         | Some r \<Rightarrow> r_settled (resp_data s c) \<and> r_verdict (resp_data s c) = keep_first (r_verdict s) (Inr r)"
    and "resp_inv (resp_data s c)"
    unfolding resp_data_def Let_def * using assms(2)
    by (auto simp: parse_response_def resp_inv_def Let_def not_less)
qed

lemma resp_data_settled: "r_settled s \<Longrightarrow> resp_data s c = s"
  by (simp add: resp_data_def)

lemma parse_response_more:
  "parse_response b = Some (st, body, rest) \<Longrightarrow> parse_response (b @ c) = Some (st, body, rest @ c)"
proof -
  assume p: "parse_response b = Some (st, body, rest)"
  then have "read_be32 (drop 1 (b @ c)) = read_be32 (drop 1 b)" "(b @ c) ! 0 = b ! 0"
    using read_be32_append [of "drop 1 b" c]
    by (auto simp: parse_response_def nth_append split: if_splits)
  with p show ?thesis
    by (auto simp: parse_response_def Let_def split: if_splits)
qed

text \<open>What is observed of a reader: whether it has settled, on what status and body.\<close>

definition resp_seen :: "resp \<Rightarrow> bool \<times> (js_error + byte \<times> bytes) option" where
  "resp_seen s = (r_settled s, map_option (map_sum id (\<lambda>(st, body, rest). (st, body))) (r_verdict s))"

lemma resp_data_twice:
  assumes "resp_inv s"
  shows "resp_seen (resp_data (resp_data s a) b) = resp_seen (resp_data s (a @ b))"
proof (cases "r_settled s")
  case True
  then show ?thesis by (simp add: resp_data_settled)
next
  case False
  note A = resp_data_parse [OF assms False]
  show ?thesis
  proof (cases "parse_response (r_buf s @ a)")
    case None
    with A(1) [of a] have a: "\<not> r_settled (resp_data s a)" "r_verdict (resp_data s a) = r_verdict s"
      "r_buf (resp_data s a) = r_buf s @ a" by auto
    with A(1) [of "a @ b"] resp_data_parse(1) [OF A(2) [of a] a(1), of b] show ?thesis
      by (auto simp: resp_seen_def split: option.splits)
  next
    case (Some r)
    obtain st body rest where r: "r = (st, body, rest)" by (cases r)
    with Some A(1) [of a] A(1) [of "a @ b"] parse_response_more [of "r_buf s @ a" st body rest b] show ?thesis
      by (cases "r_verdict s") (auto simp: resp_seen_def resp_data_settled)
  qed
qed

lemma resp_inv_data: "resp_inv s \<Longrightarrow> resp_inv (resp_data s c)"
  using resp_data_parse(2) by (cases "r_settled s") (auto simp: resp_data_settled)

interpretation resp_stream: chunk_reader resp_data resp_inv resp_seen
  by unfold_locales (simp_all add: resp_inv_data resp_data_twice)

lemma resp_event_inv: "resp_inv s \<Longrightarrow> resp_inv (resp_event s e)"
  by (cases e) (auto simp: resp_inv_data, auto simp: resp_inv_def)

lemma keep_first_Some: "v \<noteq> None \<Longrightarrow> keep_first v x = v"
  by (cases v) auto

lemma resp_event_settled: "r_verdict s \<noteq> None \<Longrightarrow> r_verdict (resp_event s e) = r_verdict s"
  by (cases e) (auto simp: resp_data_def keep_first_Some Let_def)

interpretation resp_promise: settling resp_event resp_inv "\<lambda>s. r_verdict s \<noteq> None" r_verdict
  by unfold_locales (auto simp: resp_event_inv resp_event_settled)

lemma encoded_parts:
  "drop (5 + length body) (encode_response st body @ tail) = tail"
  "drop 5 (encode_response st body @ tail) = body @ tail"
  "(encode_response st body @ tail) ! 0 = st"
  "drop 1 (encode_response st body @ tail) = be32 (length body) @ body @ tail"
  by (simp, simp_all add: encode_response_def be32_def)

lemma parse_encoded:
  "length body < 4294967296 \<Longrightarrow> parse_response (encode_response st body @ tail) = Some (st, body, tail)"
  unfolding parse_response_def Let_def encoded_parts by (simp add: encoded_parts)

lemma parse_response_parts:
  "parse_response b = Some (st, body, rest) \<Longrightarrow> length b = 5 + length body + length rest \<and> rest = drop (5 + length body) b"
  by (auto simp: parse_response_def Let_def split: if_splits)

lemma parse_response_shrinks: "parse_response b = Some (st, body, rest) \<Longrightarrow> length rest < length b"
  by (auto simp: parse_response_def Let_def split: if_splits)

lemma parse_encoded_prefix:
  assumes "length body < 4294967296" "b @ c = encode_response st body @ tail"
  shows "parse_response b = (if 5 + length body \<le> length b then Some (st, body, drop (5 + length body) b) else None)"
proof (cases "parse_response b")
  case (Some r)
  obtain st' body' rest where r: "r = (st', body', rest)" by (cases r)
  have "parse_response (b @ c) = Some (st, body, tail)" using parse_encoded [OF assms(1)] assms(2) by simp
  moreover have "parse_response (b @ c) = Some (st', body', rest @ c)"
    using Some r by (simp add: parse_response_more)
  ultimately have "parse_response b = Some (st, body, rest)" using Some r by simp
  then show ?thesis using parse_response_parts [of b st body rest] by (metis le_add1)
next
  case None
  have "length b < 5 + length body" if "\<not> length b < 5"
  proof -
    have "drop 1 b @ c = be32 (length body) @ body @ tail"
      using assms(2) that by (cases b) (auto simp: encode_response_def)
    then have "read_be32 (drop 1 b) = length body"
      using read_be32_append [of "drop 1 b" c] that assms(1) by simp
    with None that show ?thesis by (simp add: parse_response_def Let_def split: if_splits)
  qed
  with None show ?thesis by auto
qed

lemma resp_run_chunks:
  assumes "length body < 4294967296" "resp_inv s" "\<not> r_settled s" "r_verdict s = None"
    and "r_buf s @ concat cs = encode_response st body @ tail"
  shows "\<exists>rest ds. resp_run s (map Chunk cs @ es) = (Inr (st, body, rest), map Chunk ds @ es)
           \<and> rest @ concat ds = tail"
  using assms(2-)
proof (induction cs arbitrary: s)
  case Nil
  then have "parse_response (r_buf s) = Some (st, body, tail)" using parse_encoded [OF assms(1)] by simp
  with Nil show ?case by (auto simp: resp_inv_def)
next
  case (Cons c cs)
  note A = resp_data_parse [OF Cons.prems(1,2), of c]
  have e: "(r_buf s @ c) @ concat cs = encode_response st body @ tail" using Cons.prems(4) by simp
  show ?case
  proof (cases "5 + length body \<le> length (r_buf s @ c)")
    case True
    then have "parse_response (r_buf s @ c) = Some (st, body, drop (5 + length body) (r_buf s @ c))"
      using parse_encoded_prefix [OF assms(1) e] by simp
    moreover from this have "drop (5 + length body) (r_buf s @ c) @ concat cs = tail"
      using parse_response_more [where b = "r_buf s @ c" and c = "concat cs"] parse_encoded [OF assms(1), of st tail]
      unfolding e by simp
    ultimately show ?thesis using A(1) Cons.prems(3) by auto
  next
    case False
    then have "parse_response (r_buf s @ c) = None"
      using parse_encoded_prefix [OF assms(1) e] by simp
    with A Cons.prems(3) e Cons.IH [of "resp_data s c"] show ?thesis by simp
  qed
qed

lemma resp_init_inv [simp]: "resp_inv resp_init" "\<not> r_settled resp_init" "r_verdict resp_init = None"
    "r_buf resp_init = []"
  by (simp_all add: resp_init_def resp_inv_def parse_response_def)

lemma readResponse_chunks:
  assumes "length body < 4294967296" "concat cs = encode_response st body @ tail"
  shows "\<exists>rest ds. readResponse (map Chunk cs @ es) = (Inr (st, body, rest), map Chunk ds @ es)
           \<and> rest @ concat ds = tail"
  unfolding readResponse_def by (rule resp_run_chunks [OF assms(1)]) (use assms(2) in simp_all)

lemma readToEnd_chunks: "readToEnd acc (map Chunk ds @ [EndOfInput]) = Inr (acc @ concat ds)"
  by (induction ds arbitrary: acc) simp_all
section \<open>Frames in any number of events\<close>

text \<open>A frame has the same layout as a response: a byte, a length, the data.\<close>

lemma drain_parse:
  "drain_frames buf =
     (case parse_response buf of
        None \<Rightarrow> ([], None, buf)
      | Some (tag, data, buf') \<Rightarrow>
          if tag = 2 then ([], Some (exit_code_of data), buf')
          else let (fs, x, b) = drain_frames buf'
               in ((if tag = 0 then Stdout data # fs else if tag = 1 then Stderr data # fs else fs), x, b))"
  by (subst drain_frames.simps) (simp add: parse_response_def Let_def)

lemma drain_more:
  "drain_frames (b @ c) =
     (case drain_frames b of
        (fs, Some k, r) \<Rightarrow> (fs, Some k, r @ c)
      | (fs, None, r) \<Rightarrow> (case drain_frames (r @ c) of (fs', x, r') \<Rightarrow> (fs @ fs', x, r')))"
proof (induction "length b" arbitrary: b rule: less_induct)
  case less
  show ?case
  proof (cases "parse_response b")
    case None
    then have "drain_frames b = ([], None, b)" by (subst drain_parse) simp
    then show ?thesis by (simp add: case_prod_unfold)
  next
    case (Some p)
    obtain tag data r where p: "p = (tag, data, r)" by (cases p)
    have more: "parse_response (b @ c) = Some (tag, data, r @ c)"
      using Some p parse_response_more by simp
    have "length r < length b" using parse_response_shrinks Some p by blast
    then have IH: "drain_frames (r @ c) =
       (case drain_frames r of
          (fs, Some k, r) \<Rightarrow> (fs, Some k, r @ c)
        | (fs, None, r) \<Rightarrow> (case drain_frames (r @ c) of (fs', x, r') \<Rightarrow> (fs @ fs', x, r')))"
      by (rule less.hyps)
    obtain fs x q where d: "drain_frames r = (fs, x, q)" by (cases "drain_frames r") auto
    obtain fs' x' q' where d': "drain_frames (q @ c) = (fs', x', q')" by (cases "drain_frames (q @ c)") auto
    have B: "drain_frames b = (if tag = 2 then ([], Some (exit_code_of data), r)
        else ((if tag = 0 then Stdout data # fs else if tag = 1 then Stderr data # fs else fs), x, q))"
      by (subst drain_parse) (simp add: Some p d)
    have "drain_frames (b @ c) = (if tag = 2 then ([], Some (exit_code_of data), r @ c)
        else (let (fs, x, b) = drain_frames (r @ c)
              in ((if tag = 0 then Stdout data # fs else if tag = 1 then Stderr data # fs else fs), x, b)))"
      by (subst drain_parse) (simp add: more)
    then show ?thesis unfolding B IH d by (cases x) (simp_all add: d')
  qed
qed

lemma drain_rest: "drain_frames b = (fs, None, r) \<Longrightarrow> parse_response r = None"
proof (induction "length b" arbitrary: b fs rule: less_induct)
  case less
  show ?case
  proof (cases "parse_response b")
    case None
    with less.prems show ?thesis by (subst (asm) drain_parse) simp
  next
    case (Some p)
    obtain tag data q where p: "p = (tag, data, q)" by (cases p)
    have "length q < length b" using parse_response_shrinks Some p by blast
    moreover from less.prems Some p obtain fs' where "drain_frames q = (fs', None, r)"
      by (subst (asm) drain_parse) (auto split: if_splits prod.splits)
    ultimately show ?thesis by (rule less.hyps)
  qed
qed

definition frames_inv :: "frames \<Rightarrow> bool" where
  "frames_inv s = (f_exit s \<noteq> None \<or> parse_response (f_buf s) = None)"

definition frames_seen :: "frames \<Rightarrow> frame list \<times> nat option \<times> unit result option" where
  "frames_seen s = (f_out s, f_exit s, f_verdict s)"

lemma frames_inv_drain: "frames_inv (frames_drain s)"
  using drain_rest [of "f_buf s"]
  by (auto simp: frames_inv_def frames_drain_def split: prod.splits option.splits)

lemma frames_inv_data: "frames_inv s \<Longrightarrow> frames_inv (frames_data s c)"
  by (simp add: frames_data_def frames_inv_drain)

lemma frames_data_exit: "f_exit s \<noteq> None \<Longrightarrow> frames_data s c = s"
  by (simp add: frames_data_def)

lemma frames_data_twice:
  assumes "frames_inv s"
  shows "frames_seen (frames_data (frames_data s a) b) = frames_seen (frames_data s (a @ b))"
proof (cases "f_exit s")
  case (Some x)
  then show ?thesis by (simp add: frames_data_def)
next
  case None
  obtain fs x r where d: "drain_frames (f_buf s @ a) = (fs, x, r)" by (cases "drain_frames (f_buf s @ a)") auto
  have more: "drain_frames (f_buf s @ a @ b) =
     (case x of Some k \<Rightarrow> (fs, Some k, r @ b)
      | None \<Rightarrow> (case drain_frames (r @ b) of (fs', x, r') \<Rightarrow> (fs @ fs', x, r')))"
    using drain_more [of "f_buf s @ a" b] d by simp
  show ?thesis
    using None
    by (cases x) (auto simp: frames_data_def frames_drain_def d more frames_seen_def split: prod.splits option.splits)
qed

interpretation frame_stream: chunk_reader frames_data frames_inv frames_seen
  by unfold_locales (simp_all add: frames_inv_data frames_data_twice)

definition encode_frame :: "frame \<Rightarrow> bytes" where
  "encode_frame fr = (case fr of Stdout d \<Rightarrow> encode_response 0 d | Stderr d \<Rightarrow> encode_response 1 d)"

definition frame_data :: "frame \<Rightarrow> bytes" where
  "frame_data fr = (case fr of Stdout d \<Rightarrow> d | Stderr d \<Rightarrow> d)"

lemma drain_encoded:
  assumes "\<forall>fr \<in> set fs. length (frame_data fr) < 4294967296" "length x < 4294967296"
  shows "drain_frames (concat (map encode_frame fs) @ encode_response 2 x @ junk) = (fs, Some (exit_code_of x), junk)"
  using assms(1)
proof (induction fs)
  case Nil
  have "parse_response (encode_response 2 x @ junk) = Some (2, x, junk)" using assms(2) by (rule parse_encoded)
  then show ?case by (simp add: drain_parse [of "encode_response 2 x @ junk"])
next
  case (Cons fr fs)
  let ?r = "concat (map encode_frame fs) @ encode_response 2 x @ junk"
  have "parse_response (encode_frame fr @ ?r) =
      Some ((case fr of Stdout d \<Rightarrow> 0 | Stderr d \<Rightarrow> 1), frame_data fr, ?r)"
    using Cons.prems by (cases fr) (simp_all add: encode_frame_def frame_data_def parse_encoded)
  with Cons show ?case
    by (subst drain_parse) (cases fr, simp_all add: frame_data_def)
qed

section \<open>A spawned process\<close>

lemma frames_data_extends: "\<exists>fs. f_out (frames_data f d) = f_out f @ fs"
  by (auto simp: frames_data_def frames_drain_def split: prod.splits option.splits)

lemma frames_run_extends: "\<exists>fs. f_out (foldl frames_data f ds) = f_out f @ fs"
proof (induction ds arbitrary: f)
  case (Cons d ds)
  then show ?case using frames_data_extends by (metis append_assoc foldl_Cons)
qed simp

lemma spawn_destroyed: "s_destroyed s \<Longrightarrow> foldl spawn_event s es = s"
  by (induction es) (simp_all add: spawn_event_def)

lemma frames_data_verdict: "f_exit (frames_data f d) = None \<Longrightarrow> f_verdict (frames_data f d) = f_verdict f"
  by (auto simp: frames_data_def frames_drain_def split: prod.splits option.splits)

lemma spawn_frames_run:
  assumes "s_frames s = Some f" "\<not> s_destroyed s" "f_exit f = None" "f_verdict f = None"
    and "f_exit (foldl frames_data f ds) = Some code"
  shows "s_exit (foldl spawn_event s (map Chunk ds)) = keep_first (s_exit s) (Inr code) \<and>
    s_destroyed (foldl spawn_event s (map Chunk ds)) \<and>
    s_log (foldl spawn_event s (map Chunk ds)) = s_log s @ concat (map (deliver (s_stdout s) (s_stderr s))
        (drop (length (f_out f)) (f_out (foldl frames_data f ds))))"
  using assms
proof (induction ds arbitrary: s f)
  case (Cons d ds)
  let ?f = "frames_data f d"
  have step: "spawn_event s (Chunk d) = spawn_frames s (length (f_out f)) ?f"
    using Cons.prems by (simp add: spawn_event_def)
  show ?case
  proof (cases "f_exit ?f")
    case (Some k)
    then have "foldl frames_data ?f ds = ?f" by (induction ds) (simp_all add: frames_data_exit)
    with Cons.prems(5) Some show ?thesis
      by (simp add: step spawn_frames_def spawn_destroyed)
  next
    case None
    note v = frames_data_verdict [OF None]
    let ?s = "spawn_frames s (length (f_out f)) ?f"
    have s: "s_frames ?s = Some ?f" "\<not> s_destroyed ?s" "s_exit ?s = s_exit s" "s_stdout ?s = s_stdout s"
      "s_stderr ?s = s_stderr s"
      "s_log ?s = s_log s @ concat (map (deliver (s_stdout s) (s_stderr s)) (drop (length (f_out f)) (f_out ?f)))"
      using None v Cons.prems by (simp_all add: spawn_frames_def)
    obtain fs where fs: "f_out ?f = f_out f @ fs" using frames_data_extends by blast
    obtain gs where gs: "f_out (foldl frames_data ?f ds) = f_out ?f @ gs" using frames_run_extends by blast
    have "f_exit (foldl frames_data ?f ds) = Some code" using Cons.prems(5) by simp
    from Cons.IH [OF s(1,2) None _ this] v Cons.prems(4) show ?thesis
      by (simp add: step s fs gs)
  qed
qed simp

lemma frames_start_data:
  "frames_start r = frames_data \<lparr>f_buf = [], f_out = [], f_exit = None, f_verdict = None\<rparr> r"
  by (simp add: frames_start_def frames_data_def)

lemma frames_from_start:
  "frames_seen (foldl frames_data (frames_start r) ds) = frames_seen (frames_start (r @ concat ds))"
  using frame_stream.feed_all [of "\<lparr>f_buf = [], f_out = [], f_exit = None, f_verdict = None\<rparr>" "r # ds"]
  by (simp add: frames_start_data frames_inv_def parse_response_def)

lemma frames_start_verdict: "f_exit (frames_start r) = None \<Longrightarrow> f_verdict (frames_start r) = None"
  by (auto simp: frames_start_def frames_drain_def split: prod.splits option.splits)

lemma spawn_output:
  assumes "\<not> s_destroyed s" "frames_seen (frames_start (r @ concat ds)) = (fs, Some code, v)"
  shows "s_exit (foldl spawn_event (spawn_frames s 0 (frames_start r)) (map Chunk ds)) = keep_first (s_exit s) (Inr code) \<and>
    s_destroyed (foldl spawn_event (spawn_frames s 0 (frames_start r)) (map Chunk ds)) \<and>
    s_log (foldl spawn_event (spawn_frames s 0 (frames_start r)) (map Chunk ds))
      = s_log s @ concat (map (deliver (s_stdout s) (s_stderr s)) fs)"
proof -
  let ?f = "frames_start r"
  have seen: "f_out (foldl frames_data ?f ds) = fs" "f_exit (foldl frames_data ?f ds) = Some code"
    using frames_from_start [of r ds] assms(2) by (auto simp: frames_seen_def)
  show ?thesis
  proof (cases "f_exit ?f")
    case (Some k)
    then have "foldl frames_data ?f ds = ?f" by (induction ds) (simp_all add: frames_data_exit)
    with seen Some show ?thesis by (simp add: spawn_frames_def spawn_destroyed)
  next
    case None
    note v = frames_start_verdict [OF None]
    let ?s = "spawn_frames s 0 ?f"
    have s: "s_frames ?s = Some ?f" "\<not> s_destroyed ?s" "s_exit ?s = s_exit s" "s_stdout ?s = s_stdout s"
      "s_stderr ?s = s_stderr s"
      "s_log ?s = s_log s @ concat (map (deliver (s_stdout s) (s_stderr s)) (f_out ?f))"
      using None v assms(1) by (simp_all add: spawn_frames_def)
    obtain gs where "f_out (foldl frames_data ?f ds) = f_out ?f @ gs" using frames_run_extends by blast
    with spawn_frames_run [OF s(1,2) None v seen(2)] seen(1) s show ?thesis by auto
  qed
qed

lemma spawn_response_run:
  assumes "length body < 4294967296" "s_frames s = None" "\<not> s_destroyed s" "resp_inv (s_resp s)"
    "\<not> r_settled (s_resp s)" "r_verdict (s_resp s) = None"
    "r_buf (s_resp s) @ concat cs = encode_response ST_OK body @ tail"
  shows "\<exists>rest ds r. foldl spawn_event s (map Chunk cs)
           = foldl spawn_event (spawn_frames (s\<lparr>s_resp := r\<rparr>) 0 (frames_start rest)) (map Chunk ds)
           \<and> rest @ concat ds = tail"
  using assms(2-)
proof (induction cs arbitrary: s)
  case Nil
  then have "parse_response (r_buf (s_resp s)) = Some (ST_OK, body, tail)"
    using parse_encoded [OF assms(1)] by simp
  with Nil show ?case by (auto simp: resp_inv_def)
next
  case (Cons c cs)
  note A = resp_data_parse [OF Cons.prems(3,4), of c]
  have e: "(r_buf (s_resp s) @ c) @ concat cs = encode_response ST_OK body @ tail" using Cons.prems(6) by simp
  show ?case
  proof (cases "5 + length body \<le> length (r_buf (s_resp s) @ c)")
    case True
    then have p: "parse_response (r_buf (s_resp s) @ c) = Some (ST_OK, body, drop (5 + length body) (r_buf (s_resp s) @ c))"
      using parse_encoded_prefix [OF assms(1) e] by simp
    moreover from this have "drop (5 + length body) (r_buf (s_resp s) @ c) @ concat cs = tail"
      using parse_response_more [where b = "r_buf (s_resp s) @ c" and c = "concat cs"] parse_encoded [OF assms(1), of ST_OK tail]
      unfolding e by simp
    moreover have "spawn_event s (Chunk c) =
        spawn_frames (s\<lparr>s_resp := resp_data (s_resp s) c\<rparr>) 0 (frames_start (drop (5 + length body) (r_buf (s_resp s) @ c)))"
      using A(1) p Cons.prems by (simp add: spawn_event_def Let_def)
    ultimately show ?thesis by (metis foldl_Cons list.simps(9))
  next
    case False
    then have "parse_response (r_buf (s_resp s) @ c) = None"
      using parse_encoded_prefix [OF assms(1) e] by simp
    with A Cons.prems have r: "\<not> r_settled (resp_data (s_resp s) c)" "r_verdict (resp_data (s_resp s) c) = None"
      "r_buf (resp_data (s_resp s) c) = r_buf (s_resp s) @ c" by auto
    then have "spawn_event s (Chunk c) = s\<lparr>s_resp := resp_data (s_resp s) c\<rparr>"
      using Cons.prems by (simp add: spawn_event_def Let_def)
    with r A(2) e Cons.prems Cons.IH [of "s\<lparr>s_resp := resp_data (s_resp s) c\<rparr>"] show ?thesis by simp
  qed
qed
section \<open>What the server receives\<close>

text \<open>A network with one connection: it records what the client writes, and delivers the given
  events. \<open>server_reads\<close> is the server's side of the protocol: token, op, flags, arguments, and
  the body that lasts until the half close.\<close>

record wire =
  w_sent :: bytes
  w_ended :: bool
  w_destroyed :: bool
  w_events :: "sock_event list"

definition wire_net :: "(wire, unit) net" where
  "wire_net = \<lparr>dial = resolve (),
     send = (\<lambda>_ b w. w\<lparr>w_sent := w_sent w @ b\<rparr>),
     half_close = (\<lambda>_ w. w\<lparr>w_ended := True\<rparr>),
     destroy = (\<lambda>_ w. w\<lparr>w_destroyed := True\<rparr>),
     inbox = (\<lambda>_ w. (w_events w, w))\<rparr>"

definition wire_up :: "sock_event list \<Rightarrow> wire" where
  "wire_up es = \<lparr>w_sent = [], w_ended = False, w_destroyed = False, w_events = es\<rparr>"

definition server_reads :: "bytes \<Rightarrow> (bytes \<times> byte \<times> json \<times> bytes) option" where
  "server_reads b =
     (if length b < 38 then None
      else let len = read_be32 (drop 34 b)
           in if length b < 38 + len then None
              else case parse_json (utf8_string (take len (drop 38 b))) of
                     Inl e \<Rightarrow> None
                   | Inr args \<Rightarrow> Some (take 32 b, b ! 32, args, drop (38 + len) b))"

lemma server_reads_request:
  assumes "length tok = 32" "json_ok args" "length (stringify args) < 4294967296"
  shows "server_reads (tok @ [op, 0] @ be32 (length (stringify args)) @ utf8_bytes (stringify args) @ body)
       = Some (tok, op, args, body)"
proof -
  let ?n = "length (stringify args)"
  let ?b = "tok @ [op, 0] @ be32 ?n @ utf8_bytes (stringify args) @ body"
  have d34: "drop 34 ?b = be32 ?n @ utf8_bytes (stringify args) @ body" using assms(1) by simp
  have d38: "drop 38 ?b = utf8_bytes (stringify args) @ body" using assms(1) by (simp add: be32_def)
  have "drop (38 + ?n) ?b = drop ?n (drop 38 ?b)" by (simp add: drop_drop add.commute del: drop_append)
  then have dn: "drop (38 + ?n) ?b = body" unfolding d38 by simp
  have n: "read_be32 (drop 34 ?b) = ?n" unfolding d34 using assms(3) by simp
  have t: "take ?n (drop 38 ?b) = utf8_bytes (stringify args)" unfolding d38 by simp
  have "length ?b = 38 + ?n + length body" "take 32 ?b = tok" "?b ! 32 = op"
    using assms(1) by (simp_all add: nth_append)
  then show ?thesis
    unfolding server_reads_def Let_def n t dn using parse_stringify [OF assms(2)] by simp
qed

lemma wire_header:
  "writeHeader wire_net (hex_encode tok) () op args w
     = w\<lparr>w_sent := w_sent w @ tok @ [op, 0] @ be32 (length (stringify args)) @ utf8_bytes (stringify args)\<rparr>"
  by (simp add: writeHeader_def wire_net_def frame_header_def Let_def)

text \<open>The pieces of an upload.\<close>

function pieces :: "bytes \<Rightarrow> nat \<Rightarrow> bytes list" where
  "pieces content off =
     (if off < length content then take CHUNK (drop off content) # pieces content (off + CHUNK) else [])"
  by pat_completeness auto
termination by (relation "measure (\<lambda>(content, off). length content - off)") (auto simp: CHUNK_def)

declare pieces.simps [simp del]

lemma pieces_concat: "concat (pieces content off) = drop off content"
proof (induction content off rule: pieces.induct)
  case (1 content off)
  then show ?case
    by (subst pieces.simps) (auto simp: drop_drop [symmetric] add.commute simp del: drop_drop)
qed

lemma pieces_size: "p \<in> set (pieces content off) \<Longrightarrow> 0 < length p \<and> length p \<le> CHUNK"
proof (induction content off rule: pieces.induct)
  case (1 content off)
  have pos: "0 < CHUNK" by (simp add: CHUNK_def)
  show ?case
  proof (cases "off < length content")
    case True
    then have "pieces content off = take CHUNK (drop off content) # pieces content (off + CHUNK)"
      by (simp add: pieces.simps [of content off])
    with 1(2) consider "p = take CHUNK (drop off content)" | "p \<in> set (pieces content (off + CHUNK))" by auto
    then show ?thesis
    proof cases
      case 1
      with True pos show ?thesis by simp
    next
      case 2
      with "1.IH" True show ?thesis by simp
    qed
  next
    case False
    then have "pieces content off = []" by (simp add: pieces.simps [of content off])
    with 1(2) show ?thesis by simp
  qed
qed

lemma send_chunks_wire:
  "snd (send_chunks wire_net () content off w) = w\<lparr>w_sent := w_sent w @ drop off content\<rparr>"
proof (induction wire_net "()" content off w rule: send_chunks.induct)
  case (1 content off w)
  show ?case
  proof (cases "off < length content")
    case True
    have "drop off content = take CHUNK (drop off content) @ drop (off + CHUNK) content"
      by (metis append_take_drop_id drop_drop add.commute)
    with 1 [OF True] True show ?thesis
      by (subst send_chunks.simps) (simp add: wire_net_def case_prod_unfold)
  qed (subst send_chunks.simps, simp)
qed

text \<open>Progress: what has been sent after each piece, out of the total.\<close>

lemma send_chunks_progress:
  "fst (send_chunks N sock content off w) =
     map (\<lambda>p. (min (off + CHUNK * Suc p) (length content), length content)) [0..<length (pieces content off)]"
proof (induction N sock content off w rule: send_chunks.induct)
  case (1 N sock content off w)
  show ?case
  proof (cases "off < length content")
    case True
    have *: "[0..<Suc n] = 0 # map Suc [0..<n]" for n
      by (metis upt_conv_Cons zero_less_Suc map_Suc_upt)
    from 1 [OF True] True show ?thesis
      by (subst send_chunks.simps, subst pieces.simps)
        (simp add: case_prod_unfold * comp_def algebra_simps del: upt_Suc)
  qed (subst send_chunks.simps, subst pieces.simps, simp)
qed

lemma upload_wire:
  "upload wire_net (hex_encode tok) op args message content (wire_up es) =
     ((case fst (readResponse es) of
         Inl e \<Rightarrow> Inl e
       | Inr (status, body, rest) \<Rightarrow>
           if status \<noteq> ST_OK then Inl (TransportError status (message @ dec (unat status))) else Inr (),
       map (\<lambda>p. (min (CHUNK * Suc p) (length content), length content)) [0..<length (pieces content 0)]),
      \<lparr>w_sent = tok @ [op, 0] @ be32 (length (stringify args)) @ utf8_bytes (stringify args) @ content,
       w_ended = True, w_destroyed = True, w_events = es\<rparr>)"
proof -
  have w: "dial wire_net = resolve ()" "half_close wire_net () x = x\<lparr>w_ended := True\<rparr>"
      "destroy wire_net () x = x\<lparr>w_destroyed := True\<rparr>" "inbox wire_net () x = (w_events x, x)" for x
    by (simp_all add: wire_net_def)
  show ?thesis
    by (simp add: upload_def w resolve_def send_chunks_wire send_chunks_progress wire_header wire_up_def
        case_prod_unfold Let_def)
qed

section \<open>Heartbeats\<close>

text \<open>An outage is a maximal run of failed health checks between two successes.\<close>

fun outages :: "nat \<Rightarrow> heartbeat_event list \<Rightarrow> nat list" where
  "outages n [] = [n]"
| "outages n (Healthy # es) = n # outages 0 es"
| "outages n (Unhealthy # es) = outages (Suc n) es"
| "outages n (e # es) = outages n es"

lemma outages_ge: "\<exists>m ns. outages n es = m # ns \<and> n \<le> m"
proof (induction n es rule: outages.induct)
  case (3 n es)
  then show ?case using Suc_leD by auto
qed auto

lemma heartbeat_alarms:
  assumes "unreachableReported s \<longleftrightarrow> 3 \<le> consecutiveFailures s"
  shows "alarms (foldl heartbeat_step s es) + (if unreachableReported s then 1 else 0)
       = alarms s + length (filter (\<lambda>n. 3 \<le> n) (outages (consecutiveFailures s) es))"
  using assms
proof (induction es arbitrary: s)
  case (Cons e es)
  show ?case
  proof (cases e)
    case Tick
    then show ?thesis
      using Cons.prems Cons.IH [of "heartbeat_step s Tick"] by (cases "ticking s") auto
  next
    case Healthy
    then show ?thesis
      using Cons.prems Cons.IH [of "heartbeat_step s Healthy"] by auto
  next
    case Unhealthy
    then show ?thesis
      using Cons.prems Cons.IH [of "heartbeat_step s Unhealthy"] by (auto simp: Let_def split: if_splits)
  next
    case Dispose
    then show ?thesis
      using Cons.prems Cons.IH [of "heartbeat_step s Dispose"] by auto
  qed
qed simp

section \<open>Streaming reads\<close>

text \<open>The bytes that arrive before the end of a stream.\<close>

fun stream_bytes :: "getter_event list \<Rightarrow> bytes" where
  "stream_bytes (FromServer (Chunk c) # es) = c @ stream_bytes es"
| "stream_bytes (FromServer EndOfInput # es) = []"
| "stream_bytes (FromServer (Broken e) # es) = []"
| "stream_bytes (e # es) = stream_bytes es"
| "stream_bytes [] = []"

definition got :: "nat \<Rightarrow> getter \<Rightarrow> bytes" where
  "got cb s = concat (map snd (filter (\<lambda>(i, d). i = cb) (g_log s)))"

lemma got_simps:
  "got cb (s\<lparr>g_log := l @ map (\<lambda>p. (cb, p)) ps, g_pending := []\<rparr>) = got cb (s\<lparr>g_log := l\<rparr>) @ concat ps"
  by (induction ps) (simp_all add: got_def comp_def filter_map)

lemma getter_step_ended: "g_ended s \<Longrightarrow> getter_step s (FromServer e) = s"
  by (cases e; cases s) auto

lemma getter_ended: "g_ended s \<Longrightarrow> \<forall>k. OnData k \<notin> set es \<Longrightarrow> foldl getter_step s es = s"
proof (induction es)
  case (Cons e es)
  then show ?case by (cases e) (auto simp: getter_step_ended)
qed simp

lemma getter_attached:
  assumes "g_cbs s = [cb]" "\<not> g_ended s" "\<forall>k. OnData k \<notin> set es"
  shows "got cb (foldl getter_step s es) = got cb s @ stream_bytes es"
  using assms
proof (induction es arbitrary: s rule: stream_bytes.induct)
  case (1 c es)
  then have "got cb (getter_step s (FromServer (Chunk c))) = got cb s @ c"
    by (simp add: getter_emit_def got_def)
  with 1 show ?case by (simp add: getter_emit_def)
next
  case (2 es)
  then show ?case by (simp add: getter_ended got_def)
next
  case (3 e es)
  then show ?case by (simp add: getter_ended got_def)
qed auto

lemma getter_detached:
  assumes "g_cbs s = []" "g_log s = []" "\<not> g_ended s" "\<forall>k. OnData k \<notin> set es"
  shows "g_cbs (foldl getter_step s es) = [] \<and> g_log (foldl getter_step s es) = [] \<and>
     concat (g_pending (foldl getter_step s es)) = concat (g_pending s) @ stream_bytes es \<and>
     (stream_bytes (es @ fs) = stream_bytes es @ (if g_ended (foldl getter_step s es) then [] else stream_bytes fs))"
  using assms
proof (induction es arbitrary: s rule: stream_bytes.induct)
  case (1 c es)
  from "1.prems" "1.IH" [of "s\<lparr>g_pending := g_pending s @ [c]\<rparr>"] show ?case
    by (simp add: getter_emit_def)
next
  case (2 es)
  then show ?case by (simp add: getter_ended)
next
  case (3 e es)
  then show ?case by (simp add: getter_ended)
qed auto
section \<open>Fixed-length reads\<close>

lemma nread_settled: "n_verdict s \<noteq> None \<Longrightarrow> nread_event n ms s e = s"
  by (cases e) auto

lemma nread_run_settled: "n_verdict s \<noteq> None \<Longrightarrow> foldl (nread_event n ms) s es = s"
  by (induction es) (simp_all add: nread_settled)

lemma nread_chunks:
  "n_verdict s = None \<Longrightarrow> length (n_buf s) < n \<Longrightarrow> n \<le> length (n_buf s @ concat cs) \<Longrightarrow>
   n_verdict (foldl (nread_event n ms) s (map Chunk cs @ es)) = Some (Inr (take n (n_buf s @ concat cs)))"
proof (induction cs arbitrary: s)
  case (Cons c cs)
  show ?case
  proof (cases "n \<le> length (n_buf s @ c)")
    case True
    with Cons.prems show ?thesis by (simp add: nread_run_settled Let_def)
  next
    case False
    with Cons show ?thesis by (simp add: Let_def)
  qed
qed simp

lemma readNBytes_chunks:
  "0 < n \<Longrightarrow> n \<le> length (concat cs) \<Longrightarrow> readNBytes n ms (map Chunk cs @ es) = Inr (take n (concat cs))"
  using nread_chunks [of "\<lparr>n_buf = [], n_verdict = None\<rparr>" n cs ms "es @ [Expired]"]
  by (simp add: readNBytes_def)

section \<open>Properties\<close>

text \<open>A download is complete however the server's answer is cut into events: with an OK response
  that carries \<open>body\<close> inline, then \<open>file\<close>, then the end of the stream, \<^verbatim>\<open>getFile\<close> resolves to
  exactly \<open>body @ file\<close>, none of the bytes that arrive together with the header being lost.\<close>

theorem getFile_any_chunking:
  assumes "length body < 4294967296"
    and "concat cs = encode_response ST_OK body @ file"
  shows "fst (getFile wire_net token path (wire_up (map Chunk cs @ [EndOfInput]))) = Inr (body @ file)"
proof -
  obtain rest ds where "readResponse (map Chunk cs @ [EndOfInput])
      = (Inr (ST_OK, body, rest), map Chunk ds @ [EndOfInput])" "rest @ concat ds = file"
    using readResponse_chunks [OF assms] by blast
  then have "file_reply path (map Chunk cs @ [EndOfInput]) = Inr (body @ file)"
    by (simp add: file_reply_def readToEnd_chunks ST_OK_def ST_MISSING_def)
  then show ?thesis
    by (simp add: getFile_def await_def wire_net_def resolve_def writeHeader_def wire_up_def Let_def)
qed

theorem getFile_any_chunking_witness:
  "fst (getFile wire_net ''00'' ''/f'' (wire_up (map Chunk [[0, 0], [0, 0, 1, 7, 8], [9]] @ [EndOfInput]))) = Inr ([7] @ [8, 9])"
  by (rule getFile_any_chunking) (simp_all add: encode_response_def be32_def ST_OK_def)

text \<open>C4. A command run through the transport reports exactly what the remote process wrote: from an
  OK response, output frames in any order and an exit frame, cut into events in any way and
  followed by anything, \<^verbatim>\<open>execWithStdin\<close> collects the standard output, the standard error and
  the exit code.\<close>

theorem execWithStdin_streams:
  assumes "length body < 4294967296" and "\<forall>fr \<in> set fs. length (frame_data fr) < 4294967296"
    and "code < 4294967296"
    and "concat cs = encode_response ST_OK body @ concat (map encode_frame fs) @ encode_response 2 (be32 code) @ junk"
  shows "fst (execWithStdin wire_net token command stdin (wire_up (map Chunk cs @ es))) =
     Inr \<lparr>stdout_of = concat (List.map_filter (\<lambda>fr. case fr of Stdout d \<Rightarrow> Some d | Stderr d \<Rightarrow> None) fs),
          stderr_of = concat (List.map_filter (\<lambda>fr. case fr of Stderr d \<Rightarrow> Some d | Stdout d \<Rightarrow> None) fs),
          exitCode_of = Some (JNum (dec code))\<rparr>"
proof -
  let ?tail = "concat (map encode_frame fs) @ encode_response 2 (be32 code) @ junk"
  let ?s = "spawn_init\<lparr>s_stdout := [0], s_stderr := [1]\<rparr>"
  have init: "foldl spawn_step spawn_init [OnStdout 0, OnStderr 1] = ?s" by (simp add: spawn_init_def)
  have sock: "foldl spawn_step s (map OnSocket xs) = foldl spawn_event s xs" for s xs
    by (induction xs arbitrary: s) simp_all
  obtain rest ds r where run: "foldl spawn_event ?s (map Chunk cs)
      = foldl spawn_event (spawn_frames (?s\<lparr>s_resp := r\<rparr>) 0 (frames_start rest)) (map Chunk ds)"
    and tail: "rest @ concat ds = ?tail"
    using spawn_response_run [OF assms(1), of ?s cs ?tail] assms(4) by (auto simp: spawn_init_def)
  have "drain_frames ?tail = (fs, Some (exit_code_of (be32 code)), junk)"
    by (rule drain_encoded [OF assms(2)]) simp
  moreover have "exit_code_of (be32 code) = code"
    using read_be32_be32 [OF assms(3), of "[]"] by (simp add: exit_code_of_def)
  ultimately have seen: "frames_seen (frames_start (rest @ concat ds)) = (fs, Some code, Some (Inr ()))"
    unfolding tail by (simp add: frames_start_def frames_drain_def frames_seen_def)
  let ?t = "foldl spawn_event ?s (map Chunk cs)"
  have t: "s_exit ?t = Some (Inr code)" "s_destroyed ?t"
    "s_log ?t = concat (map (deliver [0] [1]) fs)"
    using spawn_output [OF _ seen, of "?s\<lparr>s_resp := r\<rparr>"] unfolding run by (simp_all add: spawn_init_def)
  have "foldl spawn_step spawn_init ([OnStdout 0, OnStderr 1] @ map OnSocket ((map Chunk cs @ es) @ [Closed])) = ?t"
    unfolding foldl_append [of _ _ "[OnStdout 0, OnStderr 1]"] init sock
    by (simp only: foldl_append spawn_destroyed [OF t(2)])
  moreover have "received 0 ?t = concat (List.map_filter (\<lambda>fr. case fr of Stdout d \<Rightarrow> Some d | Stderr d \<Rightarrow> None) fs)"
      "received 1 ?t = concat (List.map_filter (\<lambda>fr. case fr of Stderr d \<Rightarrow> Some d | Stdout d \<Rightarrow> None) fs)"
    unfolding received_def t(3) by (induction fs) (auto split: frame.splits)
  ultimately show ?thesis
    using t(1)
    by (simp add: execWithStdin_def spawn_def await_def wire_net_def resolve_def writeHeader_def wire_up_def
        collect_exit_def Let_def)
qed

theorem execWithStdin_streams_witness:
  "fst (execWithStdin wire_net ''00'' ''ls'' [] (wire_up (map Chunk
     [[0, 0, 0], [0, 0, 0, 0, 0, 0, 2, 7], [8, 1, 0, 0, 0, 1, 5, 2, 0, 0, 0, 4, 0, 0, 0], [3, 99]] @ [EndOfInput])))
   = Inr \<lparr>stdout_of = [7, 8], stderr_of = [5], exitCode_of = Some (JNum ''3'')\<rparr>"
  using execWithStdin_streams [of "[]" "[Stdout [7, 8], Stderr [5]]" 3
      "[[0, 0, 0], [0, 0, 0, 0, 0, 0, 2, 7], [8, 1, 0, 0, 0, 1, 5, 2, 0, 0, 0, 4, 0, 0, 0], [3, 99]]" "[99]"
      "''00''" "''ls''" "[]" "[EndOfInput]"]
  by (simp add: encode_response_def encode_frame_def frame_data_def be32_def ST_OK_def dec.simps)

text \<open>The server receives an uploaded file whole: with a token of 32 bytes, what it reads from the
  connection is the token, the op, the path and mode asked for, and the content, and the client
  has half-closed the connection and destroyed it. The promise fulfils exactly when the status
  is OK, and progress reports run in steps of 1 MiB up to the full length.\<close>

theorem putFile_received:
  assumes "length tok = 32" and "length (stringify (put_args path mode)) < 4294967296"
    and "putFile wire_net (hex_encode tok) path content mode (wire_up es) = ((verdict, progress), w)"
  shows "server_reads (w_sent w) = Some (tok, OP_PUT, put_args path mode, content)
    \<and> w_ended w \<and> w_destroyed w
    \<and> (verdict = Inr () \<longleftrightarrow> (\<exists>body rest. fst (readResponse es) = Inr (ST_OK, body, rest)))
    \<and> progress = map (\<lambda>p. (min (CHUNK * Suc p) (length content), length content)) [0..<length progress]"
proof -
  have "json_ok (put_args path mode)"
    by (cases mode) (simp_all add: put_args_def opt_field_def)
  from server_reads_request [OF assms(1) this assms(2)] assms(3) show ?thesis
    unfolding putFile_def upload_wire by (auto split: sum.splits if_splits)
qed

theorem putFile_received_witness:
  "\<exists>v p w. putFile wire_net (hex_encode (replicate 32 1)) ''/f'' [1, 2, 3] None (wire_up []) = ((v, p), w)
     \<and> server_reads (w_sent w) = Some (replicate 32 1, OP_PUT, put_args ''/f'' None, [1, 2, 3])"
proof -
  obtain v p w where w: "putFile wire_net (hex_encode (replicate 32 1)) ''/f'' [1, 2, 3] None (wire_up []) = ((v, p), w)"
    by (metis surj_pair)
  have "length (stringify (put_args ''/f'' None)) < 4294967296"
    by (simp add: put_args_def opt_field_def json_quote_def json_escape_char_def)
  from putFile_received [OF _ this w] w show ?thesis by auto
qed

text \<open>\<^verbatim>\<open>onUnreachable\<close> is called once for every outage of at least three failed health checks in
  a row, however long it lasts and however ticks and late answers interleave, and never
  otherwise; an outage that is still going on has been reported once it reaches three.\<close>

theorem heartbeat_alarms_outages:
  "alarms (foldl heartbeat_step startHeartbeat es) = length (filter (\<lambda>n. 3 \<le> n) (outages 0 es))"
  using heartbeat_alarms [of startHeartbeat es] by (simp add: startHeartbeat_def)

text \<open>A streaming reader loses nothing: whenever its callback registers, before or after data has
  arrived, it receives every byte from the one after the response header to the end.\<close>

theorem openGetFile_all_bytes:
  assumes "\<forall>k. OnData k \<notin> set es" and "\<forall>k. OnData k \<notin> set fs"
  shows "got cb (foldl getter_step (getter_start rest) (es @ [OnData cb] @ fs)) = rest @ stream_bytes (es @ fs)"
proof -
  let ?s = "getter_start rest"
  have s: "g_cbs ?s = []" "g_log ?s = []" "\<not> g_ended ?s" "concat (g_pending ?s) = rest"
    by (simp_all add: getter_start_def getter_emit_def Let_def)
  let ?t = "foldl getter_step ?s es"
  note D = getter_detached [OF s(1-3) assms(1), of fs]
  let ?u = "getter_onData ?t cb"
  have u: "got cb ?u = rest @ stream_bytes es" "g_cbs ?u = [cb]" "g_ended ?u = g_ended ?t"
    using D s(4) by (simp_all add: getter_onData_def got_def filter_map comp_def)
  have "got cb (foldl getter_step ?u fs) = got cb ?u @ (if g_ended ?t then [] else stream_bytes fs)"
    using getter_attached [OF u(2) _ assms(2)] getter_ended [OF _ assms(2), of ?u] u(3) by auto
  with D u(1) show ?thesis by simp
qed

theorem openGetFile_all_bytes_witness:
  "got 5 (foldl getter_step (getter_start [1]) ([FromServer (Chunk [2])] @ [OnData 5] @ [FromServer (Chunk [3]), FromServer EndOfInput]))
   = [1] @ stream_bytes ([FromServer (Chunk [2])] @ [FromServer (Chunk [3]), FromServer EndOfInput])"
  by (rule openGetFile_all_bytes) simp_all

text \<open>A probe sends the server exactly the token and an empty health request, and answers by the
  first byte that comes back in any number of events; a token that is not 32 bytes is never sent.\<close>

theorem probe_exact:
  assumes "5 \<le> length (concat cs)"
  shows "probeTransportAlive wire_net token ms (wire_up (map Chunk cs @ es)) =
     (length (hex_decode token) = 32 \<and> hd (concat cs) = ST_OK,
      \<lparr>w_sent = (if length (hex_decode token) = 32 then hex_decode token @ [12, 0, 0, 0, 0, 0] else []),
       w_ended = False, w_destroyed = True, w_events = map Chunk cs @ es\<rparr>)"
proof -
  have "readNBytes 5 ms (map Chunk cs @ es) = Inr (take 5 (concat cs))"
    by (rule readNBytes_chunks) (use assms in simp_all)
  moreover have "take 5 (concat cs) ! 0 = hd (concat cs)"
    using assms by (cases "concat cs") auto
  ultimately show ?thesis
    by (simp add: probeTransportAlive_def wire_net_def resolve_def wire_up_def frame_header_def
        OP_HEALTH_def be32_def Let_def)
qed

theorem probe_exact_witness:
  "fst (probeTransportAlive wire_net (hex_encode (replicate 32 7)) 10 (wire_up (map Chunk [[0], [0, 0, 0, 0]] @ [])))"
  using probe_exact [of "[[0], [0, 0, 0, 0]]" "hex_encode (replicate 32 7)" 10 "[]"] by (simp add: ST_OK_def)

end
