(* ===== verification/LocalServer.thy ===== *)
theory LocalServer
  imports Json ShellQuote Paths Utf8
begin

text \<open>
  \<^verbatim>\<open>src/ssh/localServer.ts\<close>: the detached process that owns the ssh child and serves commands over
  a local socket. \<open>server\<close> is \<^verbatim>\<open>ServerState\<close>; a request handler maps the state and a request to
  the new state and a response, or to a shell job that the execution queue runs and whose
  result becomes the response. The queue (\<^verbatim>\<open>execQueue\<close>) is a machine over submissions, output of
  the shell and timers; each event of shell output is one chunk, decoded as UTF-8 on its own as
  the code does. Logging is left out, \<^verbatim>\<open>Date.now()\<close> is a parameter.
\<close>

section \<open>Server state\<close>

record server_config =
  ipcHandlePath :: string
  sshArgs :: "string list"
  dataFilePath :: string
  shutdownTimeoutMs :: nat

text \<open>The child is its process id, \<^term>\<open>Some None\<close> when ssh could not be started; \<open>shutdownTimer\<close>
  is the time at which it fires. \<open>killed\<close>, \<open>unlinked\<close>, \<open>data_file\<close> and \<open>shut_down\<close> are the
  effects: the signal sent, the files removed and written, \<^verbatim>\<open>onShutdown\<close> called.\<close>

record server =
  config :: server_config
  tokenHex :: string
  sshChild :: "nat option option"
  sshAlive :: bool
  socksPort :: int
  startupTime :: nat
  shutdownTimer :: "nat option"
  refcount :: nat
  killed :: bool
  unlinked :: "string list"
  data_file :: "string option"
  shut_down :: bool

fun socks_port_arg :: "string list \<Rightarrow> int" where
  "socks_port_arg (a # b # r) =
     (if a = ''-D'' then (case parse_int b of None \<Rightarrow> 0 | Some n \<Rightarrow> n) else socks_port_arg (b # r))"
| "socks_port_arg _ = 0"

definition createServerState :: "server_config \<Rightarrow> string \<Rightarrow> nat option option \<Rightarrow> nat \<Rightarrow> server" where
  "createServerState cfg token child now =
     \<lparr>config = cfg, tokenHex = token, sshChild = child, sshAlive = (child \<noteq> None),
      socksPort = socks_port_arg (sshArgs cfg), startupTime = now, shutdownTimer = None, refcount = 0,
      killed = False, unlinked = [], data_file = None, shut_down = False\<rparr>"

definition SSH_SESSION_PROTOCOL_VERSION :: nat where "SSH_SESSION_PROTOCOL_VERSION = 1"

definition json_of_int :: "int \<Rightarrow> json" where "json_of_int i = JNum (dec_int i)"

definition session_record :: "server \<Rightarrow> nat \<Rightarrow> json" where
  "session_record s pid = JObj [(''pid'', JNum (dec pid)), (''ipcHandlePath'', JStr (ipcHandlePath (config s))),
     (''socksPort'', json_of_int (socksPort s)), (''startupTime'', JNum (dec (startupTime s))),
     (''sshSessionProtocolVersion'', JNum (dec SSH_SESSION_PROTOCOL_VERSION))]"

text \<open>\<open>writable\<close> tells whether the file system takes the file; a failure is only logged.\<close>

definition writePersistenceFile :: "bool \<Rightarrow> server \<Rightarrow> server" where
  "writePersistenceFile writable s =
     (case sshChild s of
        Some (Some pid) \<Rightarrow>
          (if pid \<noteq> 0 \<and> writable then s\<lparr>data_file := Some (stringify (session_record s pid))\<rparr> else s)
      | _ \<Rightarrow> s)"

definition resetShutdownTimer :: "nat \<Rightarrow> server \<Rightarrow> server" where
  "resetShutdownTimer now s = s\<lparr>shutdownTimer := Some (now + shutdownTimeoutMs (config s))\<rparr>"

definition cleanup :: "bool \<Rightarrow> server \<Rightarrow> server" where
  "cleanup windows s =
     (let ipc = ipcHandlePath (config s); dat = dataFilePath (config s)
      in s\<lparr>shutdownTimer := None,
           killed := (killed s \<or> sshChild s \<noteq> None),
           unlinked := unlinked s @ (if ipc \<noteq> [] \<and> \<not> windows then [ipc] else [])
                                  @ (if dat \<noteq> [] then [dat] else []),
           data_file := (if dat \<noteq> [] then None else data_file s)\<rparr>)"

text \<open>The timer's callback; and the end of the ssh child, with the exit code of the process.\<close>

definition shutdown_timer_fires :: "bool \<Rightarrow> nat \<Rightarrow> server \<Rightarrow> server" where
  "shutdown_timer_fires windows now s =
     (case shutdownTimer s of
        Some t \<Rightarrow> (if t \<le> now then (cleanup windows s)\<lparr>shut_down := True\<rparr> else s)
      | None \<Rightarrow> s)"

definition child_ended :: "bool \<Rightarrow> bool \<Rightarrow> server \<Rightarrow> server \<times> nat" where
  "child_ended windows spawn_error s = (cleanup windows (s\<lparr>sshAlive := False\<rparr>), if spawn_error then 1 else 0)"

section \<open>Start-up\<close>

text \<open>The first line of standard input; \<^verbatim>\<open>end\<close> without one takes what is there.\<close>

datatype input_event = Text string | InputError js_error | InputEnd

record line_reader =
  l_buf :: string
  l_listening :: bool
  l_verdict :: "string result option"

definition line_init :: line_reader where
  "line_init = \<lparr>l_buf = [], l_listening = True, l_verdict = None\<rparr>"

fun line_event :: "line_reader \<Rightarrow> input_event \<Rightarrow> line_reader" where
  "line_event s (Text c) =
     (if \<not> l_listening s then s
      else let buf = l_buf s @ decoded c
           in case index_of (CHR 0x0A) buf of
                None \<Rightarrow> s\<lparr>l_buf := buf\<rparr>
              | Some nl \<Rightarrow> s\<lparr>l_buf := buf, l_listening := False,
                            l_verdict := (if l_verdict s = None then Some (Inr (trim (take nl buf))) else l_verdict s)\<rparr>)"
| "line_event s (InputError e) =
     (if l_listening s \<and> l_verdict s = None then s\<lparr>l_verdict := Some (Inl e)\<rparr> else s)"
| "line_event s InputEnd =
     (if l_verdict s \<noteq> None then s
      else if l_buf s \<noteq> [] then s\<lparr>l_verdict := Some (Inr (trim (l_buf s)))\<rparr>
      else s\<lparr>l_verdict := Some (Inl (plain_error ''stdin closed before config''))\<rparr>)"

definition readStdinLine :: "input_event list \<Rightarrow> string result option" where
  "readStdinLine es = l_verdict (foldl line_event line_init es)"

text \<open>\<^verbatim>\<open>main\<close> up to the start of ssh: config and token, or exit code 1. A config of null, or a text
  without these properties, throws, and the handler of \<^verbatim>\<open>main\<close>'s promise exits with 1 too.\<close>

definition main_config :: "string \<Rightarrow> nat + json option \<times> string" where
  "main_config raw =
     (case parse_json raw of
        Inl _ \<Rightarrow> Inl 1
      | Inr p \<Rightarrow>
          (case (json_prop p ''config'', json_prop p ''token'') of
             (Inr cfg, Inr t) \<Rightarrow>
               (case json_string t of
                  Some tok \<Rightarrow> if tok = [] then Inl 1 else Inr (cfg, tok)
                | None \<Rightarrow> Inl 1)
           | _ \<Rightarrow> Inl 1))"

text \<open>The handshake waits for a line that is the marker, and keeps only the last partial line.\<close>

datatype shell_event = Output string | TimerFired

record ready_wait =
  y_buf :: string
  y_verdict :: "unit result option"

definition ready_command :: "string \<Rightarrow> string" where
  "ready_command marker = ''printf '' @ [CHR 0x27] @ marker @ [CHR 0x0A, CHR 0x27, CHR 0x0A]"

fun ready_event :: "string \<Rightarrow> ready_wait \<Rightarrow> shell_event \<Rightarrow> ready_wait" where
  "ready_event marker s (Output c) =
     (if y_verdict s \<noteq> None then s
      else let lines = js_split (CHR 0x0A) (y_buf s @ decoded c)
           in if \<exists>l \<in> set lines. trim l = marker then s\<lparr>y_buf := y_buf s @ decoded c, y_verdict := Some (Inr ())\<rparr>
              else s\<lparr>y_buf := last lines\<rparr>)"
| "ready_event marker s TimerFired =
     (if y_verdict s \<noteq> None then s
      else s\<lparr>y_verdict := Some (Inl (plain_error ''ready handshake timed out''))\<rparr>)"

definition waitForReady :: "string \<Rightarrow> shell_event list \<Rightarrow> unit result option" where
  "waitForReady marker es = y_verdict (foldl (ready_event marker) \<lparr>y_buf = [], y_verdict = None\<rparr> es)"

text \<open>After the handshake: the data file is written and the first timer set.\<close>

definition handshake_done :: "bool \<Rightarrow> nat \<Rightarrow> server \<Rightarrow> server" where
  "handshake_done writable now s = resetShutdownTimer now (writePersistenceFile writable (s\<lparr>sshAlive := True\<rparr>))"

section \<open>Running one command\<close>

record shell_result =
  sh_stdout :: string
  sh_exitCode :: nat

text \<open>\<^verbatim>\<open>.replace(/^\n/, "")\<close>.\<close>

definition drop_newline :: "string \<Rightarrow> string" where
  "drop_newline s = (case s of c # r \<Rightarrow> if c = CHR 0x0A then r else s | [] \<Rightarrow> [])"

definition marker_code :: "string \<Rightarrow> string \<Rightarrow> nat option" where
  "marker_code exitMarker line =
     (let pre = exitMarker @ '':''
      in if prefix pre line \<and> all_digits (drop (length pre) line)
         then Some (nat_of_digits (drop (length pre) line)) else None)"

text \<open>The loop over the lines: \<open>seen\<close> are those before the current one.\<close>

fun scan_lines :: "string \<Rightarrow> string list \<Rightarrow> string list \<Rightarrow> shell_result option" where
  "scan_lines exitMarker seen [] = None"
| "scan_lines exitMarker seen (line # lines) =
     (case marker_code exitMarker line of
        Some code \<Rightarrow> Some \<lparr>sh_stdout = drop_newline (js_join [CHR 0x0A] seen), sh_exitCode = code\<rparr>
      | None \<Rightarrow> scan_lines exitMarker (seen @ [line]) lines)"

definition scan_output :: "string \<Rightarrow> string \<Rightarrow> shell_result option" where
  "scan_output exitMarker buf =
     (case last_index_of (CHR 0x0A) buf of
        None \<Rightarrow> None
      | Some nl \<Rightarrow> scan_lines exitMarker [] (js_split (CHR 0x0A) (take (Suc nl) buf)))"

record shell_reader =
  x_buf :: string
  x_verdict :: "shell_result result option"

definition reader_init :: shell_reader where
  "reader_init = \<lparr>x_buf = [], x_verdict = None\<rparr>"

definition reader_text :: "string \<Rightarrow> shell_reader \<Rightarrow> string \<Rightarrow> shell_reader" where
  "reader_text exitMarker s c =
     (if x_verdict s \<noteq> None then s
      else let buf = x_buf s @ c
           in s\<lparr>x_buf := buf, x_verdict := map_option Inr (scan_output exitMarker buf)\<rparr>)"

definition reader_output :: "string \<Rightarrow> shell_reader \<Rightarrow> string \<Rightarrow> shell_reader" where
  "reader_output exitMarker s c = reader_text exitMarker s (decoded c)"

text \<open>A timer is only set for a truthy \<^verbatim>\<open>timeoutMs\<close>.\<close>

fun reader_event :: "string \<Rightarrow> json option \<Rightarrow> shell_reader \<Rightarrow> shell_event \<Rightarrow> shell_reader" where
  "reader_event exitMarker timeoutMs s (Output c) = reader_output exitMarker s c"
| "reader_event exitMarker timeoutMs s TimerFired =
     (if x_verdict s \<noteq> None \<or> \<not> json_truthy timeoutMs then s
      else s\<lparr>x_verdict := Some (Inl (plain_error
             (''exec timed out after '' @ (case timeoutMs of Some j \<Rightarrow> stringify j | None \<Rightarrow> []) @ ''ms'')))\<rparr>)"

section \<open>The execution queue\<close>

record job =
  j_id :: json
  j_marker :: string
  j_cmd :: string
  j_timeout :: "json option"

record shell =
  running :: "(job \<times> shell_reader) option"
  waiting :: "job list"
  stdin_log :: "string list"
  results :: "(job \<times> shell_result result) list"

definition shell_init :: shell where
  "shell_init = \<lparr>running = None, waiting = [], stdin_log = [], results = []\<rparr>"

text \<open>\<^verbatim>\<open>doRunShellCommand\<close> of the next job, once the previous promise has settled.\<close>

fun start_next :: "bool \<Rightarrow> job list \<Rightarrow> shell \<Rightarrow> shell" where
  "start_next alive [] s = s\<lparr>running := None, waiting := []\<rparr>"
| "start_next alive (j # js) s =
     (if alive
      then s\<lparr>running := Some (j, reader_init), waiting := js, stdin_log := stdin_log s @ [j_cmd j]\<rparr>
      else start_next alive js (s\<lparr>results := results s @ [(j, Inl (plain_error ''ssh not alive''))]\<rparr>))"

datatype queue_event = Submit job | Shell shell_event

text \<open>\<open>alive\<close>: the child has both pipes, which does not change while the process runs.\<close>

fun queue_step :: "bool \<Rightarrow> shell \<Rightarrow> queue_event \<Rightarrow> shell" where
  "queue_step alive s (Submit j) =
     (case running s of
        None \<Rightarrow> start_next alive (waiting s @ [j]) s
      | Some _ \<Rightarrow> s\<lparr>waiting := waiting s @ [j]\<rparr>)"
| "queue_step alive s (Shell e) =
     (case running s of
        None \<Rightarrow> s
      | Some (j, r) \<Rightarrow>
          (let r' = reader_event (j_marker j) (j_timeout j) r e
           in case x_verdict r' of
                None \<Rightarrow> s\<lparr>running := Some (j, r')\<rparr>
              | Some v \<Rightarrow> start_next alive (waiting s) (s\<lparr>results := results s @ [(j, v)]\<rparr>)))"

definition runShellCommand :: "bool \<Rightarrow> queue_event list \<Rightarrow> shell" where
  "runShellCommand alive es = foldl (queue_step alive) shell_init es"

section \<open>Requests\<close>

definition EXIT_PREFIX :: string where "EXIT_PREFIX = ''AERGIC_SSH_SESSION_''"
definition EXIT_SUFFIX :: string where "EXIT_SUFFIX = ''_EXIT''"

definition exit_marker :: "json \<Rightarrow> string" where
  "exit_marker i = EXIT_PREFIX @ json_text i @ EXIT_SUFFIX"

definition marker_command :: "string \<Rightarrow> string" where
  "marker_command exitMarker =
     ''printf '' @ [CHR 0x27, CHR 0x0A] @ exitMarker @ '':%s'' @ [CHR 0x0A, CHR 0x27, CHR '' '', CHR 0x22] @ ''$?''
       @ [CHR 0x22, CHR 0x0A]"

definition exec_command :: "json \<Rightarrow> string \<Rightarrow> string" where
  "exec_command i command = ''( '' @ command @ '' ) 2>&1'' @ [CHR 0x0A] @ marker_command (exit_marker i)"

definition put_command :: "json \<Rightarrow> string \<Rightarrow> string \<Rightarrow> string \<Rightarrow> string" where
  "put_command i path content mode =
     ''mkdir -p '' @ shellQuote (dirname path) @ '' && echo '' @ shellQuote content @ '' | base64 -d > ''
       @ shellQuote path @ '' && chmod '' @ mode @ '' '' @ shellQuote path @ [CHR 0x0A]
       @ marker_command (exit_marker i)"

text \<open>A request: the authorization header, the path the URL parser finds (\<^term>\<open>None\<close>: it throws), the
  body. The answer is a response, a job whose result will be the response, or nothing at all.\<close>

record req =
  r_authorization :: "string option"
  r_pathname :: "string option"
  r_body :: string

datatype answer = Respond nat json | Run job | Unanswered

definition error_json :: "string \<Rightarrow> json" where
  "error_json m = JObj [(''error'', JStr m)]"

definition ok_json :: json where
  "ok_json = JObj [(''ok'', JBool True)]"

definition caught :: "js_error \<Rightarrow> answer" where
  "caught e = Respond 500 (error_json (err_message e))"

definition validToken :: "server \<Rightarrow> string option \<Rightarrow> bool" where
  "validToken s provided = timingSafeTokenCompare provided (tokenHex s)"

definition handleStatus :: "server \<Rightarrow> answer" where
  "handleStatus s = Respond 200
     (JObj [(''sshAlive'', JBool (sshAlive s)),
            (''pid'', JNum (dec (case sshChild s of Some (Some p) \<Rightarrow> p | _ \<Rightarrow> 0))),
            (''socksPort'', json_of_int (socksPort s)), (''startupTime'', JNum (dec (startupTime s))),
            (''sshSessionProtocolVersion'', JNum (dec SSH_SESSION_PROTOCOL_VERSION))])"

definition handleExec :: "string \<Rightarrow> answer" where
  "handleExec raw =
     (case parse_json raw of
        Inl _ \<Rightarrow> Respond 400 (error_json ''invalid json'')
      | Inr body \<Rightarrow>
          (case (json_prop body ''id'', json_prop body ''command'', json_prop body ''timeoutMs'') of
             (Inr i, Inr command, Inr timeoutMs) \<Rightarrow>
               (case (i, json_string command) of
                  (Some j, Some cmd) \<Rightarrow>
                    if \<not> json_truthy i then Respond 400 (error_json ''missing id or command'')
                    else Run \<lparr>j_id = j, j_marker = exit_marker j, j_cmd = exec_command j cmd,
                              j_timeout = timeoutMs\<rparr>
                | _ \<Rightarrow> Respond 400 (error_json ''missing id or command''))
           | _ \<Rightarrow> caught type_error))"

definition handlePutFile :: "string \<Rightarrow> answer" where
  "handlePutFile raw =
     (case parse_json raw of
        Inl _ \<Rightarrow> Respond 400 (error_json ''invalid json'')
      | Inr body \<Rightarrow>
          (case (json_prop body ''id'', json_prop body ''path'', json_prop body ''content'', json_prop body ''mode'') of
             (Inr i, Inr path, Inr content, Inr mode) \<Rightarrow>
               (case (i, json_string path, json_string content) of
                  (Some j, Some p, Some c) \<Rightarrow>
                    if \<not> json_truthy i then Respond 400 (error_json ''missing fields'')
                    else let m = (case mode of None \<Rightarrow> ''0644'' | Some JNull \<Rightarrow> ''0644'' | Some v \<Rightarrow> json_text v)
                         in Run \<lparr>j_id = j, j_marker = exit_marker j, j_cmd = put_command j p c m, j_timeout = None\<rparr>
                | _ \<Rightarrow> Respond 400 (error_json ''missing fields''))
           | _ \<Rightarrow> caught type_error))"

text \<open>What \<^verbatim>\<open>runExec\<close>, \<^verbatim>\<open>handleExec\<close> and \<^verbatim>\<open>handlePutFile\<close> make of a job's result.\<close>

definition job_response :: "job \<Rightarrow> shell_result result \<Rightarrow> answer" where
  "job_response j r =
     (case r of
        Inl e \<Rightarrow> caught e
      | Inr x \<Rightarrow> Respond 200
          (JObj [(''id'', j_id j), (''stdout'', JStr (sh_stdout x)), (''stderr'', JStr []),
                 (''exitCode'', JNum (dec (sh_exitCode x))), (''signal'', JNull)]))"

definition route :: "bool \<Rightarrow> nat \<Rightarrow> server \<Rightarrow> string \<Rightarrow> string \<Rightarrow> server \<times> answer" where
  "route windows now s path body =
     (if path = ''/status'' then (s, handleStatus s)
      else if path = ''/exec'' then (s, handleExec body)
      else if path = ''/put-file'' then (s, handlePutFile body)
      else if path = ''/attach'' then
        (resetShutdownTimer now (s\<lparr>refcount := Suc (refcount s)\<rparr>),
         Respond 200 (JObj [(''ok'', JBool True), (''socksPort'', json_of_int (socksPort s))]))
      else if path = ''/detach'' then
        (let s' = s\<lparr>refcount := refcount s - 1\<rparr>
         in (if refcount s' = 0 then resetShutdownTimer now s' else s', Respond 200 ok_json))
      else if path = ''/delay-shutdown'' then (resetShutdownTimer now s, Respond 200 ok_json)
      else if path = ''/shutdown'' then ((cleanup windows s)\<lparr>shut_down := True\<rparr>, Respond 200 ok_json)
      else (s, Respond 404 (error_json ''not found'')))"

definition handleRequest :: "bool \<Rightarrow> nat \<Rightarrow> server \<Rightarrow> req \<Rightarrow> server \<times> answer" where
  "handleRequest windows now s r =
     (case r_authorization r of
        None \<Rightarrow> (s, Respond 401 (error_json ''unauthorized''))
      | Some auth \<Rightarrow>
          if auth = [] \<or> \<not> prefix ''Bearer '' auth then (s, Respond 401 (error_json ''unauthorized''))
          else if \<not> validToken s (Some (drop 7 auth)) then (s, Respond 403 (error_json ''forbidden''))
          else (case r_pathname r of
                  None \<Rightarrow> (s, Unanswered)
                | Some path \<Rightarrow> route windows now s path (r_body r)))"

section \<open>Lines\<close>

abbreviation NL :: char where "NL \<equiv> CHR 0x0A"

lemma js_split_lines: "js_split c (a @ c # b) = js_split c a @ js_split c b"
  by (induction a) (auto split: list.splits)

lemma index_split: "NL \<notin> set t \<or> (\<exists>a w. t = a @ NL # w \<and> NL \<notin> set w)"
  using split_list_last [of NL t] by auto

lemma scan_lines_append:
  "scan_lines m seen (xs @ ys) =
     (case scan_lines m seen xs of Some r \<Rightarrow> Some r | None \<Rightarrow> scan_lines m (seen @ xs) ys)"
  by (induction xs arbitrary: seen) (auto split: option.splits)

lemma marker_code_Nil: "marker_code m [] = None"
  by (simp add: marker_code_def Let_def)

lemma scan_output_none: "NL \<notin> set t \<Longrightarrow> scan_output m t = None"
  by (simp add: scan_output_def)

lemma scan_output_lines: "NL \<notin> set w \<Longrightarrow> scan_output m (a @ NL # w) = scan_lines m [] (js_split NL a)"
  by (simp add: scan_output_def last_index_of_append js_split_lines scan_lines_append marker_code_Nil
      split: option.splits)

lemma scan_output_more:
  assumes "scan_output m t = Some r"
  shows "scan_output m (t @ u) = Some r"
proof -
  obtain a w where t: "t = a @ NL # w" "NL \<notin> set w"
    using assms index_split [of t] by (auto simp: scan_output_none)
  with assms have r: "scan_lines m [] (js_split NL a) = Some r" by (simp add: scan_output_lines)
  show ?thesis
  proof (cases "NL \<in> set (w @ u)")
    case False
    then show ?thesis using t r scan_output_lines [of "w @ u" m a] by simp
  next
    case True
    then obtain b v where b: "w @ u = b @ NL # v" "NL \<notin> set v" using split_list_last by metis
    have "scan_output m (t @ u) = scan_lines m [] (js_split NL (a @ NL # b))"
      using scan_output_lines [OF b(2), of m "a @ NL # b"] t(1) b(1) by simp
    then show ?thesis using r by (simp add: js_split_lines scan_lines_append)
  qed
qed

text \<open>The reader of one command does not depend on how the shell's output is cut.\<close>

definition reader_inv :: "string \<Rightarrow> shell_reader \<Rightarrow> bool" where
  "reader_inv m s = (x_verdict s = None \<longrightarrow> scan_output m (x_buf s) = None)"

interpretation exec_stream: chunk_reader "reader_text m" "reader_inv m" x_verdict for m
proof unfold_locales
  fix s a
  show "reader_inv m (reader_text m s a)"
    by (auto simp: reader_inv_def reader_text_def Let_def)
next
  fix s a b
  show "x_verdict (reader_text m (reader_text m s a) b) = x_verdict (reader_text m s (a @ b))"
    using scan_output_more [of m "x_buf s @ a" _ b]
    by (cases "scan_output m (x_buf s @ a)") (auto simp: reader_text_def Let_def)
qed

interpretation exec_promise: settling "reader_event m t" "\<lambda>_. True" "\<lambda>s. x_verdict s \<noteq> None" x_verdict for m t
proof unfold_locales
  fix s :: shell_reader and e
  assume "x_verdict s \<noteq> None"
  then show "x_verdict (reader_event m t s e) \<noteq> None \<and> x_verdict (reader_event m t s e) = x_verdict s"
    by (cases e) (auto simp: reader_output_def reader_text_def)
qed simp

section \<open>What the shell prints for one command\<close>

text \<open>The output of the command, then the line that \<open>marker_command\<close> prints.\<close>

definition shell_prints :: "string \<Rightarrow> string \<Rightarrow> nat \<Rightarrow> string" where
  "shell_prints m out code = out @ [NL] @ m @ '':'' @ dec code @ [NL]"

definition quiet_output :: "string \<Rightarrow> string \<Rightarrow> bool" where
  "quiet_output m out = (\<forall>l \<in> set (js_split NL out). marker_code m l = None)"

lemma scan_quiet: "(\<forall>l \<in> set ls. marker_code m l = None) \<Longrightarrow> scan_lines m seen ls = None"
  by (induction ls arbitrary: seen) auto

lemma marker_line: "marker_code m (m @ '':'' @ dec code) = Some code"
  by (simp add: marker_code_def Let_def)

lemma scan_printed:
  assumes "NL \<notin> set m" "quiet_output m out"
  shows "scan_output m (shell_prints m out code @ rest) = Some \<lparr>sh_stdout = drop_newline out, sh_exitCode = code\<rparr>"
proof -
  let ?ml = "m @ '':'' @ dec code"
  have ml: "NL \<notin> set ?ml" using assms(1) dec_no_newline by simp
  have q: "scan_lines m [] (js_split NL out) = None"
    by (rule scan_quiet) (use assms(2) in \<open>simp add: quiet_output_def\<close>)
  have "scan_output m (shell_prints m out code) = scan_lines m [] (js_split NL (out @ NL # ?ml))"
    using scan_output_lines [of "[]" m "out @ NL # ?ml"] by (simp add: shell_prints_def)
  also have "\<dots> = scan_lines m [] (js_split NL out @ [?ml])"
    by (simp only: js_split_lines js_split_no_sep [OF ml])
  also have "\<dots> = Some \<lparr>sh_stdout = drop_newline out, sh_exitCode = code\<rparr>"
    unfolding scan_lines_append q by (simp only: option.case append_Nil scan_lines.simps marker_line js_join_split)
  finally show ?thesis by (rule scan_output_more)
qed

text \<open>Before the whole marker line is there, nothing is found.\<close>

lemma scan_before:
  assumes "NL \<notin> set m" "quiet_output m out" "t @ u = shell_prints m out code" "u \<noteq> []"
  shows "scan_output m t = None"
proof (cases "NL \<in> set t")
  case False
  then show ?thesis by (rule scan_output_none)
next
  case True
  then obtain a w where t: "t = a @ NL # w" "NL \<notin> set w" using split_list_last by metis
  let ?ml = "m @ '':'' @ dec code"
  have ml: "NL \<notin> set ?ml" using assms(1) dec_no_newline by simp
  have whole: "js_split NL (shell_prints m out code) = js_split NL out @ [?ml, []]"
  proof -
    have "shell_prints m out code = out @ NL # (?ml @ NL # [])" by (simp add: shell_prints_def)
    then show ?thesis by (simp only: js_split_lines js_split_no_sep [OF ml] js_split.simps) simp
  qed
  have "last (t @ u) = NL" unfolding assms(3) shell_prints_def by simp
  then have "last u = NL" using assms(4) by simp
  then obtain u' where u: "u = u' @ [NL]" using assms(4) by (metis append_butlast_last_id)
  have "shell_prints m out code = a @ NL # ((w @ u') @ NL # [])"
    using assms(3) t(1) u by simp
  then have "js_split NL (shell_prints m out code) = js_split NL a @ js_split NL (w @ u') @ [[]]"
    by (simp only: js_split_lines js_split.simps)
  with whole have e: "js_split NL out @ [?ml] = js_split NL a @ js_split NL (w @ u')" by simp
  then have "set (js_split NL a) \<subseteq> set (js_split NL out)"
  proof -
    have "js_split NL a @ butlast (js_split NL (w @ u')) = butlast (js_split NL out @ [?ml])"
      unfolding e by (simp add: butlast_append)
    then have "js_split NL out = js_split NL a @ butlast (js_split NL (w @ u'))"
      by (simp add: butlast_append)
    then show ?thesis by (metis set_append sup_ge1)
  qed
  then have "\<forall>l \<in> set (js_split NL a). marker_code m l = None"
    using assms(2) by (auto simp: quiet_output_def)
  then show ?thesis using t by (simp add: scan_output_lines scan_quiet)
qed

section \<open>The queue serves jobs in order\<close>

lemma start_next_running: "start_next alive js (s\<lparr>running := x\<rparr>) = start_next alive js s"
proof (induction js arbitrary: s)
  case (Cons j js)
  have upd: "s\<lparr>running := x, results := y\<rparr> = s\<lparr>results := y, running := x\<rparr>" for y by simp
  show ?case
    using Cons [of "s\<lparr>results := results s @ [(j, Inl (plain_error ''ssh not alive''))]\<rparr>"]
    by (cases alive) (simp_all add: upd)
qed simp

lemma queue_one_job:
  assumes "NL \<notin> set (j_marker j)" "quiet_output (j_marker j) out"
    and "\<forall>c \<in> set cs. c \<noteq> [] \<and> whole c" "x_buf r @ concat cs = shell_prints (j_marker j) out code"
    and "running s = Some (j, r)" "x_verdict r = None" "cs \<noteq> []"
  shows "foldl (queue_step alive) s (map (\<lambda>c. Shell (Output c)) cs)
       = start_next alive (waiting s)
           (s\<lparr>results := results s @ [(j, Inr \<lparr>sh_stdout = drop_newline out, sh_exitCode = code\<rparr>)]\<rparr>)"
  using assms(3-)
proof (induction cs arbitrary: r s)
  case Nil
  then show ?case by simp
next
  case (Cons c cs)
  let ?m = "j_marker j"
  let ?r = "reader_output ?m r c"
  show ?case
  proof (cases "cs = []")
    case True
    with Cons.prems have "x_buf r @ c = shell_prints ?m out code" by simp
    then have "x_verdict ?r = Some (Inr \<lparr>sh_stdout = drop_newline out, sh_exitCode = code\<rparr>)"
      using Cons.prems scan_printed [OF assms(1,2), of code "[]"] by (simp add: reader_output_def reader_text_def Let_def)
    with True Cons.prems show ?thesis by (simp add: Let_def)
  next
    case False
    then have ne: "concat cs \<noteq> []" using Cons.prems(1) by (cases cs) auto
    have "scan_output ?m (x_buf r @ c) = None"
      by (rule scan_before [OF assms(1,2) _ ne, of _ code]) (use Cons.prems in simp)
    then have r: "x_verdict ?r = None" "x_buf ?r = x_buf r @ c"
      using Cons.prems by (simp_all add: reader_output_def reader_text_def Let_def)
    then have step: "queue_step alive s (Shell (Output c)) = s\<lparr>running := Some (j, ?r)\<rparr>"
      using Cons.prems by (simp add: Let_def)
    have upd: "s\<lparr>running := x, results := y\<rparr> = s\<lparr>results := y, running := x\<rparr>" for x y by simp
    from Cons.IH [of ?r "s\<lparr>running := Some (j, ?r)\<rparr>"] Cons.prems r False step show ?thesis
      by (simp add: upd start_next_running)
  qed
qed

text \<open>Submitting jobs to an idle queue: the first starts, the others wait.\<close>

lemma submit_all:
  "running s = Some x \<Longrightarrow> foldl (queue_step alive) s (map Submit js) = s\<lparr>waiting := waiting s @ js\<rparr>"
  by (induction js arbitrary: s) simp_all

lemma queue_all_jobs:
  assumes "\<forall>(j, out, code, cs) \<in> set rs. NL \<notin> set (j_marker j) \<and> quiet_output (j_marker j) out
      \<and> concat cs = shell_prints (j_marker j) out code \<and> (\<forall>c \<in> set cs. c \<noteq> [] \<and> whole c)"
  shows "results (foldl (queue_step True) (start_next True (map fst rs) s)
            (concat (map (\<lambda>(j, out, code, cs). map (\<lambda>c. Shell (Output c)) cs) rs)))
       = results s @ map (\<lambda>(j, out, code, cs). (j, Inr \<lparr>sh_stdout = drop_newline out, sh_exitCode = code\<rparr>)) rs \<and>
     stdin_log (foldl (queue_step True) (start_next True (map fst rs) s)
            (concat (map (\<lambda>(j, out, code, cs). map (\<lambda>c. Shell (Output c)) cs) rs)))
       = stdin_log s @ map (\<lambda>x. j_cmd (fst x)) rs"
  using assms
proof (induction rs arbitrary: s)
  case (Cons x rs)
  obtain j out code cs where x: "x = (j, out, code, cs)" by (cases x) auto
  have h: "NL \<notin> set (j_marker j)" "quiet_output (j_marker j) out" "\<forall>c \<in> set cs. c \<noteq> [] \<and> whole c"
    "concat cs = shell_prints (j_marker j) out code"
    using Cons.prems x by auto
  have ne: "cs \<noteq> []" using h(4) by (auto simp: shell_prints_def)
  let ?s = "s\<lparr>running := Some (j, reader_init), waiting := map fst rs, stdin_log := stdin_log s @ [j_cmd j]\<rparr>"
  let ?t = "?s\<lparr>results := results s @ [(j, Inr \<lparr>sh_stdout = drop_newline out, sh_exitCode = code\<rparr>)]\<rparr>"
  have one: "foldl (queue_step True) ?s (map (\<lambda>c. Shell (Output c)) cs) = start_next True (map fst rs) ?t"
    using queue_one_job [OF h(1-3), of reader_init code ?s True] h(4) ne by (simp add: reader_init_def)
  have "start_next True (map fst (x # rs)) s = ?s" by (simp add: x)
  then show ?case
    using Cons.IH [of ?t] Cons.prems by (simp add: x one)
qed simp

text \<open>Without the last newline of a line, \<open>last\<close> and \<open>butlast\<close> of the split are the partial line and
  the complete ones.\<close>

lemma ready_resolved:
  "y_verdict s \<noteq> None \<Longrightarrow> y_verdict (foldl (ready_event m) s es) = y_verdict s"
proof (induction es arbitrary: s)
  case (Cons e es)
  then show ?case by (cases e) auto
qed simp

lemma ready_lines:
  assumes "y_verdict s = None" "NL \<notin> set (y_buf s)"
    and "\<exists>l \<in> set (butlast (js_split NL (y_buf s @ concat (map decoded cs)))). trim l = m"
  shows "y_verdict (foldl (ready_event m) s (map Output cs @ es)) = Some (Inr ())"
  using assms
proof (induction cs arbitrary: s)
  case Nil
  then show ?case by (simp add: js_split_no_sep)
next
  case (Cons c cs)
  let ?lines = "js_split NL (y_buf s @ decoded c)"
  show ?case
  proof (cases "\<exists>l \<in> set ?lines. trim l = m")
    case True
    with Cons.prems show ?thesis by (simp add: ready_resolved del: foldl_append)
  next
    case False
    have "js_split NL (y_buf s @ concat (map decoded (c # cs))) = butlast ?lines @ js_split NL (last ?lines @ concat (map decoded cs))"
      using js_split_last [of NL "y_buf s @ decoded c" "concat (map decoded cs)"] by simp
    then have "\<exists>l \<in> set (butlast (js_split NL (last ?lines @ concat (map decoded cs)))). trim l = m"
      using Cons.prems(3) False by (auto simp: butlast_append dest: in_set_butlastD)
    moreover have "NL \<notin> set (last ?lines)" using js_split_sep_free last_in_set js_split_ne by metis
    ultimately show ?thesis
      using False Cons.prems(1) Cons.IH [of "s\<lparr>y_buf := last ?lines\<rparr>"] by simp
  qed
qed

section \<open>Requests that are refused\<close>

lemma handleRequest_refused:
  "\<not> (\<exists>p. r_authorization r = Some (''Bearer '' @ p) \<and> validToken s (Some p)) \<Longrightarrow>
   handleRequest windows now s r \<in> {(s, Respond 401 (error_json ''unauthorized'')), (s, Respond 403 (error_json ''forbidden''))}"
  by (auto simp: handleRequest_def prefix_def split: option.splits)

lemma handleRequest_accepted:
  assumes "r_authorization r = Some (''Bearer '' @ p)" "validToken s (Some p)" "r_pathname r = Some path"
  shows "handleRequest windows now s r = route windows now s path (r_body r)"
  using assms by (simp add: handleRequest_def)

section \<open>Properties\<close>

text \<open>C5. Commands are served in order and never mixed up: for jobs submitted together, if the shell
  prints for each its output and exit marker line, cut into events in any way between characters
  (each event is decoded by itself), then the commands are written to the shell in the order of submission and every job gets its own output and exit
  code. One newline at the start of an output is lost: the code means to remove the one that
  \<^verbatim>\<open>printf\<close> puts before the marker, but that one ends the last line and the pattern matches at
  the start.\<close>

theorem jobs_get_their_output:
  assumes "rs \<noteq> []"
    and "\<forall>(j, out, code, cs) \<in> set rs. NL \<notin> set (j_marker j) \<and> quiet_output (j_marker j) out
      \<and> concat cs = shell_prints (j_marker j) out code \<and> (\<forall>c \<in> set cs. c \<noteq> [] \<and> whole c)"
  shows "results (runShellCommand True (map (\<lambda>x. Submit (fst x)) rs
            @ concat (map (\<lambda>(j, out, code, cs). map (\<lambda>c. Shell (Output c)) cs) rs)))
       = map (\<lambda>(j, out, code, cs). (j, Inr \<lparr>sh_stdout = drop_newline out, sh_exitCode = code\<rparr>)) rs \<and>
     stdin_log (runShellCommand True (map (\<lambda>x. Submit (fst x)) rs
            @ concat (map (\<lambda>(j, out, code, cs). map (\<lambda>c. Shell (Output c)) cs) rs)))
       = map (\<lambda>x. j_cmd (fst x)) rs"
proof -
  obtain y ys where rs: "rs = y # ys" using assms(1) by (cases rs) auto
  let ?s1 = "shell_init\<lparr>running := Some (fst y, reader_init), waiting := [], stdin_log := [j_cmd (fst y)]\<rparr>"
  have "foldl (queue_step True) shell_init (map (\<lambda>x. Submit (fst x)) rs)
      = foldl (queue_step True) ?s1 (map Submit (map fst ys))"
    by (simp add: rs shell_init_def comp_def)
  also have "\<dots> = start_next True (map fst rs) shell_init"
    using submit_all [of ?s1 "(fst y, reader_init)" True "map fst ys"] by (simp add: rs shell_init_def)
  finally have start: "foldl (queue_step True) shell_init (map (\<lambda>x. Submit (fst x)) rs)
      = start_next True (map fst rs) shell_init" .
  show ?thesis
    using queue_all_jobs [OF assms(2), of shell_init]
    unfolding runShellCommand_def foldl_append start by (simp add: shell_init_def)
qed

theorem jobs_get_their_output_witness:
  "\<exists>a b. map snd (results (runShellCommand True
     ([Submit a, Submit b] @ map (\<lambda>c. Shell (Output c)) [''hi'', [NL, NL] @ ''A:'', ''0'' @ [NL]]
        @ map (\<lambda>c. Shell (Output c)) [''lo'' @ [NL] @ ''B:2'' @ [NL]])))
   = [Inr \<lparr>sh_stdout = ''hi'' @ [NL], sh_exitCode = 0\<rparr>, Inr \<lparr>sh_stdout = ''lo'', sh_exitCode = 2\<rparr>]"
proof -
  let ?a = "\<lparr>j_id = JNull, j_marker = ''A'', j_cmd = [], j_timeout = None\<rparr>"
  let ?b = "\<lparr>j_id = JNull, j_marker = ''B'', j_cmd = [], j_timeout = None\<rparr>"
  let ?rs = "[(?a, ''hi'' @ [NL], 0, [''hi'', [NL, NL] @ ''A:'', ''0'' @ [NL]]), (?b, ''lo'', 2 :: nat, [''lo'' @ [NL] @ ''B:2'' @ [NL]])]"
  have "results (runShellCommand True (map (\<lambda>x. Submit (fst x)) ?rs
            @ concat (map (\<lambda>(j, out, code, cs). map (\<lambda>c. Shell (Output c)) cs) ?rs)))
       = map (\<lambda>(j, out, code, cs). (j, Inr \<lparr>sh_stdout = drop_newline out, sh_exitCode = code\<rparr>)) ?rs"
    by (rule jobs_get_their_output [THEN conjunct1])
      (simp_all add: quiet_output_def marker_code_def shell_prints_def dec.simps)
  then show ?thesis
    by (intro exI [of _ ?a] exI [of _ ?b]) (simp add: drop_newline_def del: append_assoc)
qed

text \<open>The result of one command is the same for every way of cutting the shell's output into
  events of whole characters.\<close>

theorem exec_any_chunking:
  assumes "cs \<noteq> []" and "ds \<noteq> []" and "concat cs = concat ds" and "\<forall>c \<in> set cs \<union> set ds. whole c"
  shows "x_verdict (foldl (reader_event m t) reader_init (map Output cs))
       = x_verdict (foldl (reader_event m t) reader_init (map Output ds))"
proof -
  have "foldl (reader_event m t) s (map Output xs) = foldl (reader_text m) s xs" if "\<forall>c \<in> set xs. whole c" for s xs
    using that by (induction xs arbitrary: s) (simp_all add: reader_output_def)
  moreover have "reader_inv m reader_init"
    by (simp add: reader_inv_def reader_init_def scan_output_none)
  ultimately show ?thesis using exec_stream.chunking_irrelevant [OF _ assms(1-3)] assms(4) by simp
qed

theorem exec_any_chunking_witness:
  "x_verdict (foldl (reader_event ''M'' None) reader_init (map Output [''a'' @ [NL], ''M:'', ''7'' @ [NL]]))
   = x_verdict (foldl (reader_event ''M'' None) reader_init (map Output [''a'' @ [NL] @ ''M:7'' @ [NL]]))"
  by (rule exec_any_chunking) simp_all

text \<open>C6. Nothing happens without the token: a request reaches a handler, and the server's state can
  change, only if its authorization header is \<^verbatim>\<open>Bearer\<close> and the session's token, in any letter
  case; every other request is answered 401 or 403 and leaves the state as it was.\<close>

theorem requests_need_token:
  assumes "tokenHex s = hex_encode token"
    and "handleRequest windows now s r = (s', answer)"
  shows "(\<exists>p. r_authorization r = Some (''Bearer '' @ p) \<and> to_lower (take (2 * length token) p) = hex_encode token)
    \<or> (s' = s \<and> (answer = Respond 401 (error_json ''unauthorized'') \<or> answer = Respond 403 (error_json ''forbidden'')))"
proof (cases "\<exists>p. r_authorization r = Some (''Bearer '' @ p) \<and> validToken s (Some p)")
  case True
  then obtain p where "r_authorization r = Some (''Bearer '' @ p)" "validToken s (Some p)" by blast
  moreover from this have "hex_decode p = token"
    using assms(1) by (auto simp: validToken_def timingSafeTokenCompare_def Let_def split: if_splits)
  ultimately show ?thesis using hex_decode_eq_iff [of p token] by blast
next
  case False
  with handleRequest_refused [of r s windows now] assms(2) show ?thesis by auto
qed

theorem requests_need_token_witness:
  "snd (handleRequest False 5 (createServerState \<lparr>ipcHandlePath = [], sshArgs = [], dataFilePath = [], shutdownTimeoutMs = 0\<rparr>
        (hex_encode [1]) None 0) \<lparr>r_authorization = Some ''Bearer 0'', r_pathname = Some ''/shutdown'', r_body = []\<rparr>)
     \<in> {Respond 401 (error_json ''unauthorized''), Respond 403 (error_json ''forbidden'')}"
proof -
  let ?s = "createServerState \<lparr>ipcHandlePath = [], sshArgs = [], dataFilePath = [], shutdownTimeoutMs = 0\<rparr> (hex_encode [1]) None 0"
  let ?r = "\<lparr>r_authorization = Some ''Bearer 0'', r_pathname = Some ''/shutdown'', r_body = []\<rparr>"
  have no: "\<not> (\<exists>p. r_authorization ?r = Some (''Bearer '' @ p) \<and> to_lower (take (2 * length [1 :: byte]) p) = hex_encode [1])"
    by (simp add: to_lower_def lower_char_def hex_encode_def hex_byte_def hex_char_def char_ofI)
  obtain s' answer where h: "handleRequest False 5 ?s ?r = (s', answer)" by (cases "handleRequest False 5 ?s ?r") auto
  have "tokenHex ?s = hex_encode [1]" by (simp add: createServerState_def)
  from requests_need_token [OF this h] no h show ?thesis by auto
qed

text \<open>The handshake is recognised however it arrives: if some complete line of the shell's first
  output, each event decoded by itself, is the marker up to white space, the wait resolves, for every
  cut of the text into events, although only the last partial line is kept between events.\<close>

theorem ready_any_chunking:
  assumes "concat (map decoded cs) = noise @ line @ [NL] @ rest" and "noise = [] \<or> last noise = NL"
    and "NL \<notin> set line" and "trim line = marker"
  shows "waitForReady marker (map Output cs @ es) = Some (Inr ())"
proof -
  have "line \<in> set (butlast (js_split NL (concat (map decoded cs))))"
  proof -
    have after: "js_split NL (line @ NL # rest) = line # js_split NL rest"
      using assms(3) by (rule js_split_cons)
    consider "noise = []" | n where "noise = n @ [NL]"
      using assms(2) by (metis append_butlast_last_id)
    then show ?thesis
    proof cases
      case 1
      then show ?thesis using assms(1) after by simp
    next
      case 2
      then have "concat (map decoded cs) = n @ NL # (line @ NL # rest)" using assms(1) by simp
      then show ?thesis using after by (simp add: js_split_lines butlast_append)
    qed
  qed
  then show ?thesis
    unfolding waitForReady_def by (intro ready_lines) (use assms(4) in auto)
qed

theorem ready_any_chunking_witness:
  "waitForReady ''RDY'' (map Output [''$ '' @ [NL] @ '' R'', ''DY '' @ [NL] @ ''x''] @ [TimerFired]) = Some (Inr ())"
  by (rule ready_any_chunking [where noise = "''$ '' @ [NL]" and line = "'' RDY ''" and rest = "''x''"])
    (simp_all add: trim_def trim_start_def trim_end_def is_space_def)

end
