(* ===== verification/AskpassServer.thy ===== *)
theory AskpassServer
  imports AskpassCache Utf8
begin

text \<open>
  \<^verbatim>\<open>src/ssh/askpassServer.ts\<close>: the server that answers ssh's password prompts. \<open>askpass\<close> is the
  state of one \<^verbatim>\<open>AskpassServer\<close> with the cache it uses; a socket is a number. What the user
  answers to the prompts of a request is an argument of its handler (\<^term>\<open>None\<close>: dismissed), and
  when the answers run out the request is still waiting. \<open>shown\<close> records the prompts with the
  error shown beside them, \<open>sent\<close> the responses.
\<close>

record askpass =
  a_cache :: "cache option"
  a_token :: string
  a_listening :: bool
  a_stopping :: bool
  a_pending :: "(nat \<times> string) list"
  hostPrompts :: "string list"
  shown :: "(string \<times> string option) list"
  sent :: "(nat \<times> string) list"
  a_destroyed :: "nat list"

text \<open>The surroundings of a request: cryptography, file times, clock, key validation, a fresh IV.\<close>

record env =
  e_crypto :: crypto
  e_mtime :: "string \<Rightarrow> int option"
  e_now :: int
  e_validate :: "string \<Rightarrow> string \<Rightarrow> string option"
  e_iv :: bytes

definition respond :: "nat \<Rightarrow> json \<Rightarrow> askpass \<Rightarrow> askpass" where
  "respond socket obj s =
     s\<lparr>sent := sent s @ [(socket, stringify obj @ [CHR 0x0A])], a_pending := AList.delete socket (a_pending s)\<rparr>"

definition error_obj :: "string \<Rightarrow> json" where "error_obj m = JObj [(''error'', JStr m)]"
definition password_obj :: "string \<Rightarrow> json" where "password_obj p = JObj [(''password'', JStr p)]"
definition cancelled_obj :: json where "cancelled_obj = JObj [(''cancelled'', JBool True)]"

definition ask_validToken :: "askpass \<Rightarrow> json option \<Rightarrow> bool" where
  "ask_validToken s provided = (json_string provided = Some (a_token s))"

definition store :: "env \<Rightarrow> string \<Rightarrow> string \<Rightarrow> bool \<Rightarrow> askpass \<Rightarrow> askpass" where
  "store E prompt password skip s =
     s\<lparr>a_cache := snd (setCached (e_crypto E) (e_validate E) (e_mtime E) (e_now E) (e_iv E) prompt password skip (a_cache s))\<rparr>"

text \<open>The loop over the attempts; the first argument counts those that are left.\<close>

fun prompt_loop :: "nat \<Rightarrow> env \<Rightarrow> nat \<Rightarrow> string \<Rightarrow> string option \<Rightarrow> string option
    \<Rightarrow> string option result list \<Rightarrow> askpass \<Rightarrow> askpass" where
  "prompt_loop 0 E socket prompt keyPath lastError answers s =
     respond socket (error_obj (nullish lastError ''passphrase rejected'')) s"
| "prompt_loop (Suc n) E socket prompt keyPath lastError answers s =
     (let s1 = s\<lparr>shown := shown s @ [(prompt, lastError)]\<rparr>
      in case answers of
           [] \<Rightarrow> s1
         | Inl e # _ \<Rightarrow> respond socket (error_obj (err_message e)) s1
         | Inr None # _ \<Rightarrow> respond socket cancelled_obj s1
         | Inr (Some password) # rest \<Rightarrow>
             if \<not> truthy keyPath then
               respond socket (password_obj password)
                 (store E prompt password False (s1\<lparr>hostPrompts := List.insert prompt (hostPrompts s)\<rparr>))
             else (case e_validate E (nullish keyPath []) password of
                     None \<Rightarrow> respond socket (password_obj password) (store E prompt password True s1)
                   | Some err \<Rightarrow> prompt_loop n E socket prompt keyPath (Some err) rest s1))"

definition answer_prompt :: "env \<Rightarrow> nat \<Rightarrow> string \<Rightarrow> string option result list \<Rightarrow> askpass \<Rightarrow> askpass" where
  "answer_prompt E socket prompt answers s =
     (case getCached (e_crypto E) (e_mtime E) (e_now E) prompt (a_cache s) of
        (Some cached, c) \<Rightarrow> respond socket (password_obj cached) (s\<lparr>a_cache := c\<rparr>)
      | (None, c) \<Rightarrow>
          (let keyPath = parseKeyPath prompt
           in prompt_loop (if truthy keyPath then 3 else 1) E socket prompt keyPath None answers (s\<lparr>a_cache := c\<rparr>)))"

definition ask_handleRequest :: "env \<Rightarrow> nat \<Rightarrow> string \<Rightarrow> string option result list \<Rightarrow> askpass \<Rightarrow> askpass" where
  "ask_handleRequest E socket raw answers s =
     (case parse_json (trim raw) of
        Inl e \<Rightarrow> respond socket (error_obj (err_message e)) s
      | Inr parsed \<Rightarrow>
          (case (json_prop parsed ''token'', json_prop parsed ''request'') of
             (Inr token, Inr request) \<Rightarrow>
               if \<not> ask_validToken s token then respond socket (error_obj ''unauthorized'') s
               else (case json_string request of
                       None \<Rightarrow> respond socket (error_obj ''missing 'request' field'') s
                     | Some prompt \<Rightarrow> answer_prompt E socket prompt answers s)
           | (Inl e, _) \<Rightarrow> respond socket (error_obj (err_message e)) s
           | (Inr _, Inl e) \<Rightarrow> respond socket (error_obj (err_message e)) s))"

text \<open>Connections.\<close>

definition handleConnection :: "nat \<Rightarrow> askpass \<Rightarrow> askpass" where
  "handleConnection socket s =
     (if a_stopping s then s\<lparr>a_destroyed := a_destroyed s @ [socket]\<rparr>
      else s\<lparr>a_pending := AList.update socket [] (a_pending s)\<rparr>)"

definition connection_data :: "env \<Rightarrow> nat \<Rightarrow> string \<Rightarrow> string option result list \<Rightarrow> askpass \<Rightarrow> askpass" where
  "connection_data E socket chunk answers s =
     (case map_of (a_pending s) socket of
        None \<Rightarrow> s
      | Some b \<Rightarrow>
          (let buffer = b @ decoded chunk; s1 = s\<lparr>a_pending := AList.update socket buffer (a_pending s)\<rparr>
           in if CHR 0x0A \<in> set buffer then ask_handleRequest E socket buffer answers s1 else s1))"

definition connection_gone :: "nat \<Rightarrow> askpass \<Rightarrow> askpass" where
  "connection_gone socket s = s\<lparr>a_pending := AList.delete socket (a_pending s)\<rparr>"

definition ask_start :: "cache option \<Rightarrow> bytes \<Rightarrow> askpass" where
  "ask_start c authToken = \<lparr>a_cache = c, a_token = hex_encode authToken, a_listening = True, a_stopping = False,
     a_pending = [], hostPrompts = [], shown = [], sent = [], a_destroyed = []\<rparr>"

definition ask_stop :: "askpass \<Rightarrow> askpass" where
  "ask_stop s = s\<lparr>a_stopping := True, a_destroyed := a_destroyed s @ map fst (a_pending s), a_pending := [],
                  a_listening := False\<rparr>"

definition usedHostPassword :: "askpass \<Rightarrow> bool" where
  "usedHostPassword s = (hostPrompts s \<noteq> [])"

definition evictHostPasswords :: "env \<Rightarrow> askpass \<Rightarrow> askpass" where
  "evictHostPasswords E s =
     s\<lparr>a_cache := fold (\<lambda>prompt. evict (e_crypto E) (e_now E) prompt) (hostPrompts s) (a_cache s), hostPrompts := []\<rparr>"

section \<open>Evicting the host passwords of a session\<close>

lemma evict_fold:
  assumes "hmacKey s = Some hk" "db s = Some r"
  shows "\<exists>s'. fold (\<lambda>p. evict C now p) ps (Some s) = Some s' \<and> hmacKey s' = Some hk \<and> aesKey s' = aesKey s \<and> TTL_MS s' = TTL_MS s
     \<and> db s' = Some (fold AList.delete (map (dbKey C hk) ps) r)"
  using assms
proof (induction ps arbitrary: s r)
  case (Cons p ps)
  let ?s = "cache_evict C now p s"
  have "hmacKey ?s = Some hk" "db ?s = Some (AList.delete (dbKey C hk p) r)" "aesKey ?s = aesKey s" "TTL_MS ?s = TTL_MS s"
    using Cons.prems by (simp_all add: cache_evict_def db_write_def)
  with Cons.IH [of ?s "AList.delete (dbKey C hk p) r"] show ?case by (simp add: evict_def)
qed auto

section \<open>Properties\<close>

text \<open>C7. Without the server's token nothing is given away: the answer is the error \<^verbatim>\<open>unauthorized\<close>,
  no prompt is shown to the user and the cache is not even read.\<close>

theorem askpass_needs_token:
  assumes "parse_json (trim raw) = Inr (JObj kvs)" and "map_of (rev kvs) ''token'' \<noteq> Some (JStr (a_token s))"
  shows "ask_handleRequest E socket raw answers s = respond socket (error_obj ''unauthorized'') s"
proof -
  have "\<not> ask_validToken s (map_of (rev kvs) ''token'')"
    using assms(2) by (auto simp: ask_validToken_def json_string_def split: option.splits json.splits)
  then show ?thesis using assms(1) by (simp add: ask_handleRequest_def json_prop_def)
qed

theorem askpass_needs_token_witness:
  "\<forall>E. ask_handleRequest E 1 (stringify (JObj [(''token'', JStr ''00''), (''request'', JStr ''pw'')])) [Inr (Some ''x'')] (ask_start None [1])
     = respond 1 (error_obj ''unauthorized'') (ask_start None [1])"
proof (rule allI, rule askpass_needs_token)
  let ?j = "JObj [(''token'', JStr ''00''), (''request'', JStr ''pw'')]"
  have "trimmed (stringify ?j)"
    by (simp add: trimmed_def is_space_def)
  then have t: "trim (stringify ?j) = stringify ?j" by (rule trim_trimmed)
  show "parse_json (trim (stringify ?j)) = Inr ?j"
    unfolding t by (rule parse_stringify) simp
qed (simp add: ask_start_def hex_encode_def hex_byte_def hex_char_def char_ofI)

text \<open>A key passphrase is checked before ssh gets it: when the cache has no answer, the response is
  the first of the user's first three answers that the key accepts, which is also the one cached,
  and otherwise the error of the third; each prompt shows why the previous answer failed.\<close>

theorem key_passphrase_attempts:
  assumes "parseKeyPath prompt = Some kp" and "kp \<noteq> []"
    and "getCached (e_crypto E) (e_mtime E) (e_now E) prompt (a_cache s) = (None, c)"
    and "answers = map (Inr \<circ> Some) (p1 # p2 # p3 # others)"
  shows "sent (answer_prompt E socket prompt answers s) = sent s @ [(socket, stringify
      (case List.find (\<lambda>p. e_validate E kp p = None) [p1, p2, p3] of
         Some p \<Rightarrow> password_obj p
       | None \<Rightarrow> error_obj (the (e_validate E kp p3))) @ [CHR 0x0A])]
    \<and> a_cache (answer_prompt E socket prompt answers s) =
      (case List.find (\<lambda>p. e_validate E kp p = None) [p1, p2, p3] of
         Some p \<Rightarrow> snd (setCached (e_crypto E) (e_validate E) (e_mtime E) (e_now E) (e_iv E) prompt p True c)
       | None \<Rightarrow> c)
    \<and> shown (answer_prompt E socket prompt answers s) = shown s @
      take (length (takeWhile (\<lambda>p. e_validate E kp p \<noteq> None) [p1, p2]) + 1)
        [(prompt, None), (prompt, e_validate E kp p1), (prompt, e_validate E kp p2)]"
proof -
  have three: "(3::nat) = Suc (Suc (Suc 0))" by simp
  show ?thesis
    using assms
    by (cases "e_validate E kp p1"; cases "e_validate E kp p2"; cases "e_validate E kp p3")
      (simp_all add: answer_prompt_def three respond_def store_def)
qed

theorem key_passphrase_attempts_witness:
  "sent (answer_prompt \<lparr>e_crypto = clear_crypto, e_mtime = (\<lambda>_. None), e_now = 0,
       e_validate = (\<lambda>k p. if p = ''good'' then None else Some ''bad passphrase''), e_iv = []\<rparr> 4
       (''for key '' @ [CHR 0x27] @ ''/k'' @ [CHR 0x27]) (map (Inr \<circ> Some) [''a'', ''good'', ''b'']) (ask_start None []))
   = [(4, stringify (password_obj ''good'') @ [CHR 0x0A])]"
proof -
  let ?E = "\<lparr>e_crypto = clear_crypto, e_mtime = (\<lambda>_. None), e_now = 0,
       e_validate = (\<lambda>k p. if p = ''good'' then None else Some ''bad passphrase''), e_iv = []\<rparr>"
  have "parseKeyPath (''for key '' @ [CHR 0x27] @ ''/k'' @ [CHR 0x27]) = Some ''/k''"
    by (simp add: parseKeyPath_def)
  from key_passphrase_attempts [OF this, of ?E "ask_start None []" None _ "''a''" "''good''" "''b''" "[]" 4]
  show ?thesis by (simp add: getCached_def ask_start_def)
qed

text \<open>After a failed connection no host password of the session is used again: once they are
  evicted, a lookup of any prompt answered in this session finds nothing, and all other entries
  are kept.\<close>

theorem failed_passwords_forgotten:
  assumes "a_cache s = Some c" and "hmacKey c = Some hk" and "db c = Some r"
  shows "\<exists>c'. a_cache (evictHostPasswords E s) = Some c' \<and> hostPrompts (evictHostPasswords E s) = []
    \<and> (\<forall>prompt \<in> set (hostPrompts s). fst (cache_get (e_crypto E) mtime later prompt c') = None)
    \<and> (\<forall>prompt. hmac (e_crypto E) hk prompt \<notin> hmac (e_crypto E) hk ` set (hostPrompts s) \<longrightarrow>
          fst (cache_get (e_crypto E) mtime later prompt c') = fst (cache_get (e_crypto E) mtime later prompt c))"
proof -
  let ?C = "e_crypto E"
  obtain c' where c': "fold (\<lambda>p. evict ?C (e_now E) p) (hostPrompts s) (Some c) = Some c'"
    "hmacKey c' = Some hk" "aesKey c' = aesKey c" "TTL_MS c' = TTL_MS c"
    "db c' = Some (fold AList.delete (map (dbKey ?C hk) (hostPrompts s)) r)"
    using evict_fold [OF assms(2,3)] by blast
  have "fst (cache_get ?C mtime later p c') = None" if "p \<in> set (hostPrompts s)" for p
    using that c' by (auto simp: cache_get_def rows.get_dels Let_def split: option.splits)
  moreover have "fst (cache_get ?C mtime later p c') = fst (cache_get ?C mtime later p c)"
    if "hmac ?C hk p \<notin> hmac ?C hk ` set (hostPrompts s)" for p
  proof -
    have "dbKey ?C hk p \<notin> set (map (dbKey ?C hk) (hostPrompts s))"
      using that by (auto simp: dbKey_def) (metis hex_decode_encode imageI)
    then show ?thesis using c' assms(2,3)
      by (auto simp: cache_get_def rows.get_dels Let_def split: option.splits)
  qed
  ultimately show ?thesis using c'(1) assms(1) by (auto simp: evictHostPasswords_def)
qed

theorem failed_passwords_forgotten_witness:
  "\<exists>c'. a_cache (evictHostPasswords \<lparr>e_crypto = clear_crypto, e_mtime = (\<lambda>_. None), e_now = 0, e_validate = (\<lambda>_ _. None), e_iv = []\<rparr>
      ((ask_start (Some open_cache) [])\<lparr>hostPrompts := [''pw'']\<rparr>)) = Some c'
     \<and> fst (cache_get clear_crypto (\<lambda>_. None) 5 ''pw'' c') = None"
  using failed_passwords_forgotten [of "(ask_start (Some open_cache) [])\<lparr>hostPrompts := [''pw'']\<rparr>" open_cache "[1]" "[]"
      "\<lparr>e_crypto = clear_crypto, e_mtime = (\<lambda>_. None), e_now = 0, e_validate = (\<lambda>_ _. None), e_iv = []\<rparr>" "\<lambda>_. None" 5]
  by (auto simp: ask_start_def open_cache_def)

end
