(* ===== verification/SessionSecret.thy ===== *)
theory SessionSecret
  imports AskpassCache
begin

text \<open>
  \<^verbatim>\<open>src/ssh/sshSessionSecret.ts\<close>: the master key of the session token. The module's \<^verbatim>\<open>instance\<close> is
  \<^term>\<open>None\<close> or an object whose \<open>masterKey\<close> may still be missing; \<open>stored\<close> is the record in
  SecretStorage. Random keys and the clock are arguments.
\<close>

record session_secret =
  masterKey :: "bytes option"
  rotationMs :: int

record secret_module =
  instance_of :: "session_secret option"
  stored :: "string option"

definition DEFAULT_SESSION_ROTATION_MS :: int where "DEFAULT_SESSION_ROTATION_MS = 7 * 24 * 60 * 60 * 1000"

text \<open>The stored record, a new one (to be stored), or an error.\<close>

definition read_master :: "string option \<Rightarrow> bytes \<Rightarrow> int \<Rightarrow> (bytes \<times> int \<times> string option) result" where
  "read_master raw fresh now =
     (if \<not> truthy raw then Inr (fresh, now, Some (master_record fresh now))
      else (case parse_json (nullish raw []) of
              Inl e \<Rightarrow> Inl e
            | Inr j \<Rightarrow>
                (case json_prop j ''key'' of
                   Inl e \<Rightarrow> Inl e
                 | Inr k \<Rightarrow>
                     (case json_prop j ''createdAt'' of
                        Inl e \<Rightarrow> Inl e
                      | Inr c \<Rightarrow>
                          (case int_of_json c of
                             None \<Rightarrow> Inl (plain_error ''invalid ssh session master key format'')
                           | Some createdAt \<Rightarrow>
                               if \<not> json_truthy k then Inl (plain_error ''invalid ssh session master key format'')
                               else (case json_string k of
                                       None \<Rightarrow> Inl type_error
                                     | Some t \<Rightarrow> Inr (base64_decode t, createdAt, None)))))))"

definition secret_rotate :: "bytes \<Rightarrow> int \<Rightarrow> secret_module \<Rightarrow> secret_module" where
  "secret_rotate newKey now m =
     m\<lparr>stored := Some (master_record newKey now),
       instance_of := map_option (\<lambda>s. s\<lparr>masterKey := Some newKey\<rparr>) (instance_of m)\<rparr>"

definition secret_init :: "bytes \<Rightarrow> bytes \<Rightarrow> int \<Rightarrow> secret_module \<Rightarrow> unit result \<times> secret_module" where
  "secret_init fresh rotated now m =
     (case instance_of m of
        None \<Rightarrow> (Inr (), m)
      | Some s \<Rightarrow>
          (case read_master (stored m) fresh now of
             Inl e \<Rightarrow> (Inl e, m)
           | Inr (key, createdAt, st) \<Rightarrow>
               (let m' = m\<lparr>stored := (case st of None \<Rightarrow> stored m | Some t \<Rightarrow> Some t),
                           instance_of := Some (s\<lparr>masterKey := Some key\<rparr>)\<rparr>
                in (Inr (), if 0 < rotationMs s \<and> now - createdAt > rotationMs s
                            then secret_rotate rotated now m' else m'))))"

definition initSshSessionSecret :: "bytes \<Rightarrow> bytes \<Rightarrow> int \<Rightarrow> int option \<Rightarrow> secret_module \<Rightarrow> unit result \<times> secret_module" where
  "initSshSessionSecret fresh rotated now rotationDays m =
     secret_init fresh rotated now
       (m\<lparr>instance_of := Some \<lparr>masterKey = None,
            rotationMs = (case rotationDays of None \<Rightarrow> DEFAULT_SESSION_ROTATION_MS
                                             | Some d \<Rightarrow> d * 24 * 60 * 60 * 1000)\<rparr>\<rparr>)"

definition deriveToken :: "crypto \<Rightarrow> string \<Rightarrow> session_secret \<Rightarrow> bytes result" where
  "deriveToken C destination s =
     (case masterKey s of
        None \<Rightarrow> Inl (plain_error ''ssh session secret not initialized'')
      | Some k \<Rightarrow> Inr (hmac C k (''zygos-ssh-session:'' @ destination)))"

definition deriveSshSessionToken :: "crypto \<Rightarrow> string \<Rightarrow> secret_module \<Rightarrow> bytes result" where
  "deriveSshSessionToken C destination m =
     (case instance_of m of
        None \<Rightarrow> Inl (plain_error ''ssh session secret not initialized'')
      | Some s \<Rightarrow> deriveToken C destination s)"

definition sshSessionSecretReady :: "secret_module \<Rightarrow> bool" where
  "sshSessionSecretReady m = (instance_of m \<noteq> None)"

definition disposeSshSessionSecret :: "secret_module \<Rightarrow> secret_module" where
  "disposeSshSessionSecret m = m\<lparr>instance_of := None\<rparr>"

lemma read_record:
  assumes "0 \<le> createdAt" "key \<noteq> []"
  shows "read_master (Some (master_record key createdAt)) fresh now = Inr (key, createdAt, None)"
proof -
  let ?j = "JObj [(''key'', JStr (base64_encode key)), (''createdAt'', json_int createdAt)]"
  have "json_ok ?j" using json_int_ok [OF assms(1)] by simp
  then have p: "parse_json (master_record key createdAt) = Inr ?j"
    unfolding master_record_def by (rule parse_stringify)
  have "master_record key createdAt \<noteq> []" by (simp add: master_record_def)
  moreover have "base64_encode key \<noteq> []"
    using assms(2) base64_roundtrip [of key] by (auto simp: base64_decode_def)
  ultimately show ?thesis
    using int_of_json_int [OF assms(1)] p
    by (simp add: read_master_def json_prop_def json_truthy_def json_string_def)
qed

abbreviation rotation :: "int option \<Rightarrow> int" where
  "rotation days \<equiv> (case days of None \<Rightarrow> DEFAULT_SESSION_ROTATION_MS | Some d \<Rightarrow> d * 24 * 60 * 60 * 1000)"

lemma init_fresh:
  assumes "\<not> truthy (stored m)"
  shows "initSshSessionSecret fresh rotated now days m = (Inr (), m\<lparr>stored := Some (master_record fresh now),
           instance_of := Some \<lparr>masterKey = Some fresh, rotationMs = rotation days\<rparr>\<rparr>)"
proof -
  show ?thesis
    using assms unfolding initSshSessionSecret_def secret_init_def read_master_def Let_def
    by auto
qed

lemma init_loaded:
  assumes "read_master (stored m) fresh now = Inr (k, createdAt, None)" "now - createdAt \<le> rotation days"
  shows "initSshSessionSecret fresh rotated now days m =
     (Inr (), m\<lparr>stored := stored m, instance_of := Some \<lparr>masterKey = Some k, rotationMs = rotation days\<rparr>\<rparr>)"
  using assms by (simp add: initSshSessionSecret_def secret_init_def Let_def)

text \<open>Both sides of a session derive the same token: after a successful start that created or
  loaded the key at time \<open>now\<close>, a later start from what was stored, within the rotation period
  of the stored key, derives the same token for every destination.\<close>

theorem session_token_stable:
  assumes "initSshSessionSecret fresh rotated now days m = (Inr (), m1)" and "fresh \<noteq> []" and "rotated \<noteq> []"
    and "0 \<le> now" and "\<not> truthy (stored m)"
    and "later - now \<le> (case days of None \<Rightarrow> DEFAULT_SESSION_ROTATION_MS | Some d \<Rightarrow> d * 24 * 60 * 60 * 1000)"
    and "instance_of m2 = None" and "stored m2 = stored m1"
  shows "\<exists>m3. initSshSessionSecret fresh' rotated' later days m2 = (Inr (), m3)
    \<and> deriveSshSessionToken C destination m3 = deriveSshSessionToken C destination m1
    \<and> deriveSshSessionToken C destination m1 = Inr (hmac C fresh (''zygos-ssh-session:'' @ destination))"
proof -
  have m1: "m1 = m\<lparr>stored := Some (master_record fresh now),
      instance_of := Some \<lparr>masterKey = Some fresh, rotationMs = rotation days\<rparr>\<rparr>"
    using init_fresh [OF assms(5), of fresh rotated now days] assms(1) by simp
  then have "read_master (stored m2) fresh' later = Inr (fresh, now, None)"
    using assms(8) read_record [OF assms(4,2)] by simp
  from init_loaded [OF this assms(6)] show ?thesis
    unfolding m1 by (simp add: deriveSshSessionToken_def deriveToken_def)
qed

theorem session_token_stable_witness:
  "\<exists>m1. initSshSessionSecret [9] [8] 5 None \<lparr>instance_of = None, stored = None\<rparr> = (Inr (), m1)
     \<and> deriveSshSessionToken clear_crypto ''host'' m1 = Inr (utf8_bytes ''zygos-ssh-session:host'')"
proof -
  let ?m = "\<lparr>instance_of = None, stored = None\<rparr>"
  let ?i = "initSshSessionSecret [9] [8] 5 None ?m"
  have i: "?i = (Inr (), snd ?i)" by (simp add: initSshSessionSecret_def secret_init_def read_master_def Let_def)
  have "\<exists>m3. initSshSessionSecret [7] [6] 50 None \<lparr>instance_of = None, stored = stored (snd ?i)\<rparr> = (Inr (), m3)
    \<and> deriveSshSessionToken clear_crypto ''host'' m3 = deriveSshSessionToken clear_crypto ''host'' (snd ?i)
    \<and> deriveSshSessionToken clear_crypto ''host'' (snd ?i) = Inr (hmac clear_crypto [9] (''zygos-ssh-session:'' @ ''host''))"
    by (rule session_token_stable [OF i]) (simp_all add: DEFAULT_SESSION_ROTATION_MS_def)
  with i show ?thesis by (auto simp: clear_crypto_def)
qed

end
