(* ===== verification/Health.thy ===== *)
theory Health
  imports Prelude
begin

text \<open>
  \<^verbatim>\<open>src/health/sleepDetector.ts\<close> and \<^verbatim>\<open>src/health/connectionMonitor.ts\<close>. The detector is a state with
  the clock as an argument. The monitor is a machine: \<open>awaiting\<close> is what the probe in flight waits
  for, and an event is a timer, a focus change, the death of a forward, or the answer to what
  a probe awaits. A process is a number; an event at which the code looks at
  processes carries which of them are alive. What the code logs is left out, what it reports as
  status is kept.
\<close>

section \<open>Sleep detection\<close>

record detector =
  d_timer :: bool
  d_lastFire :: int
  d_interval :: int
  d_multiple :: int
  d_listening :: bool

definition new_detector :: detector where
  "new_detector = \<lparr>d_timer = False, d_lastFire = 0, d_interval = 5000, d_multiple = 3, d_listening = False\<rparr>"

definition detector_onSleep :: "detector \<Rightarrow> detector" where
  "detector_onSleep d = d\<lparr>d_listening := True\<rparr>"

definition detector_start :: "int \<Rightarrow> detector \<Rightarrow> detector" where
  "detector_start now d = (if d_timer d then d else d\<lparr>d_lastFire := now, d_timer := True\<rparr>)"

definition detector_stop :: "detector \<Rightarrow> detector" where
  "detector_stop d = d\<lparr>d_timer := False, d_listening := False\<rparr>"

definition currentGap :: "int \<Rightarrow> detector \<Rightarrow> int" where
  "currentGap now d = (if 0 < d_lastFire d then now - d_lastFire d else 0)"

definition isSleepingByGap :: "int \<Rightarrow> detector \<Rightarrow> bool" where
  "isSleepingByGap now d =
     (if d_lastFire d = 0 then False else currentGap now d > d_interval d * d_multiple d)"

text \<open>One tick: the new state, and the time slept if the listeners are called.\<close>

definition detector_tick :: "int \<Rightarrow> detector \<Rightarrow> detector \<times> int option" where
  "detector_tick now d =
     (let gap = now - d_lastFire d; d' = d\<lparr>d_lastFire := now, d_timer := True\<rparr>
      in (d', if gap > d_interval d * d_multiple d \<and> d_listening d then Some (gap - d_interval d) else None))"

section \<open>The monitored connection\<close>

text \<open>\<open>WaitSsh f s\<close>: \<^verbatim>\<open>sshAlive\<close> was called after the forward was seen alive (\<open>f\<close>) and the server
  (\<open>s\<close>); \<open>WaitPort\<close> and \<open>WaitForward\<close> are the steps of \<^verbatim>\<open>restartForward\<close>.\<close>

datatype awaiting = WaitSession | WaitSsh bool bool | WaitPort bool | WaitForward nat nat bool

record monitor =
  m_socksPort :: nat
  m_forward :: "nat option"
  m_server :: "nat option"
  m_isSession :: bool
  m_dead :: bool
  m_ownsServer :: bool
  detector :: detector
  periodicTimer :: bool
  tickWaiting :: bool
  m_stopped :: bool
  lastProbeAt :: int
  inFlight :: "awaiting option"
  watched :: "nat list"
  lastStatus :: string
  statuses :: "string list"
  forwards :: "nat list"
  m_killed :: "nat list"
  probes :: "int list"

text \<open>\<open>forwards\<close> lists the processes started, \<open>m_killed\<close> those killed, \<open>watched\<close> those whose close is
  listened to, \<open>probes\<close> the start times of probes, the last first.\<close>

definition monitored :: "nat \<Rightarrow> nat option \<Rightarrow> nat option \<Rightarrow> bool \<Rightarrow> bool \<Rightarrow> monitor" where
  "monitored port forward server isSession ownsServer =
     \<lparr>m_socksPort = port, m_forward = forward, m_server = server, m_isSession = isSession, m_dead = False,
      m_ownsServer = ownsServer, detector = new_detector, periodicTimer = False, tickWaiting = False,
      m_stopped = False, lastProbeAt = 0, inFlight = None, watched = [], lastStatus = [], statuses = [],
      forwards = [], m_killed = [], probes = []\<rparr>"

definition PERIODIC_PROBE_MS :: int where "PERIODIC_PROBE_MS = 60000"
definition MIN_PROBE_GAP_MS :: int where "MIN_PROBE_GAP_MS = 15000"

definition reportStatus :: "string \<Rightarrow> monitor \<Rightarrow> monitor" where
  "reportStatus msg m = (if msg = lastStatus m then m else m\<lparr>lastStatus := msg, statuses := statuses m @ [msg]\<rparr>)"

definition isAlive :: "(nat \<Rightarrow> bool) \<Rightarrow> nat option \<Rightarrow> bool" where
  "isAlive live proc = (case proc of None \<Rightarrow> False | Some p \<Rightarrow> live p)"

definition monitor_start :: "int \<Rightarrow> monitor \<Rightarrow> monitor" where
  "monitor_start now m =
     m\<lparr>detector := detector_start now (detector_onSleep (detector m)), periodicTimer := True\<rparr>"

definition monitor_stop :: "monitor \<Rightarrow> monitor" where
  "monitor_stop m = m\<lparr>detector := detector_stop (detector m), m_stopped := True, periodicTimer := False\<rparr>"

text \<open>The probe up to its first await.\<close>

definition probe_begin :: "(nat \<Rightarrow> bool) \<Rightarrow> monitor \<Rightarrow> awaiting" where
  "probe_begin live m =
     (if m_isSession m then WaitSession
      else WaitSsh (isAlive live (m_forward m)) (if m_ownsServer m then isAlive live (m_server m) else True))"

definition triggerProbe :: "(nat \<Rightarrow> bool) \<Rightarrow> int \<Rightarrow> monitor \<Rightarrow> monitor" where
  "triggerProbe live now m =
     (if m_dead m then m
      else if inFlight m \<noteq> None then m
      else if now - lastProbeAt m < MIN_PROBE_GAP_MS then m
      else m\<lparr>lastProbeAt := now, inFlight := Some (probe_begin live m), probes := now # probes m\<rparr>)"

text \<open>The end of a probe: the promise in flight is cleared, and a periodic tick that waited for it
  sets its timer again.\<close>

definition rearm :: "monitor \<Rightarrow> monitor" where
  "rearm m = (if m_stopped m \<or> m_dead m then m else m\<lparr>periodicTimer := True\<rparr>)"

definition probe_end :: "monitor \<Rightarrow> monitor" where
  "probe_end m = (if tickWaiting m then rearm (m\<lparr>inFlight := None, tickWaiting := False\<rparr>) else m\<lparr>inFlight := None\<rparr>)"

definition mark_dead :: "monitor \<Rightarrow> monitor" where
  "mark_dead m = probe_end (reportStatus ''Reconnecting...'' (m\<lparr>m_dead := True\<rparr>))"

definition healthy :: "monitor \<Rightarrow> monitor" where
  "healthy m = probe_end (reportStatus ''Connected'' m)"

definition ssh_answer :: "bool \<Rightarrow> monitor \<Rightarrow> monitor" where
  "ssh_answer ok m =
     (case inFlight m of
        Some WaitSession \<Rightarrow> (if ok then healthy m else mark_dead m)
      | Some (WaitSsh f s) \<Rightarrow>
          (if \<not> ok then mark_dead m
           else if f \<and> s then healthy m
           else if \<not> f then m\<lparr>inFlight := Some (WaitPort s)\<rparr>
           else mark_dead m)
      | _ \<Rightarrow> m)"

text \<open>\<^verbatim>\<open>findFreePort\<close> and \<^verbatim>\<open>startSocksForward\<close>: the port and the process, \<^term>\<open>None\<close> when one of them fails.\<close>

definition port_answer :: "(nat \<times> nat) option \<Rightarrow> monitor \<Rightarrow> monitor" where
  "port_answer r m =
     (case inFlight m of
        Some (WaitPort s) \<Rightarrow>
          (case r of
             None \<Rightarrow> mark_dead m
           | Some (port, proc) \<Rightarrow> m\<lparr>inFlight := Some (WaitForward port proc s), forwards := forwards m @ [proc]\<rparr>)
      | _ \<Rightarrow> m)"

definition kill_forward :: "monitor \<Rightarrow> monitor" where
  "kill_forward m = (case m_forward m of None \<Rightarrow> m | Some p \<Rightarrow> m\<lparr>m_killed := m_killed m @ [p]\<rparr>)"

definition forward_answer :: "bool \<Rightarrow> monitor \<Rightarrow> monitor" where
  "forward_answer ok m =
     (case inFlight m of
        Some (WaitForward port proc s) \<Rightarrow>
          (if \<not> ok then mark_dead m
           else let m' = (kill_forward m)\<lparr>m_socksPort := port, m_forward := Some proc, watched := watched m @ [proc]\<rparr>
                in if s then healthy m' else mark_dead m')
      | _ \<Rightarrow> m)"

definition onSleep :: "(nat \<Rightarrow> bool) \<Rightarrow> int \<Rightarrow> int \<Rightarrow> monitor \<Rightarrow> monitor" where
  "onSleep live now sleptMs m =
     triggerProbe live now
       (reportStatus (''Restoring after sleep (~'' @ dec_int ((sleptMs + 500) div 1000) @ ''s)...'') m)"

definition onFocus :: "(nat \<Rightarrow> bool) \<Rightarrow> int \<Rightarrow> bool \<Rightarrow> monitor \<Rightarrow> monitor" where
  "onFocus live now focused m =
     (if \<not> focused \<or> m_stopped m then m
      else if m_dead m then m
      else if \<not> isSleepingByGap now (detector m) then m
      else triggerProbe live now m)"

definition periodic_tick :: "(nat \<Rightarrow> bool) \<Rightarrow> int \<Rightarrow> monitor \<Rightarrow> monitor" where
  "periodic_tick live now m =
     (if \<not> periodicTimer m then m
      else if m_stopped m \<or> m_dead m then m\<lparr>periodicTimer := False\<rparr>
      else let m' = triggerProbe live now (m\<lparr>periodicTimer := False\<rparr>)
           in if inFlight m' \<noteq> None then m'\<lparr>tickWaiting := True\<rparr> else rearm m')"

definition forward_closed :: "(nat \<Rightarrow> bool) \<Rightarrow> int \<Rightarrow> nat \<Rightarrow> monitor \<Rightarrow> monitor" where
  "forward_closed live now proc m =
     (if proc \<notin> set (watched m) then m
      else let m' = m\<lparr>watched := removeAll proc (watched m)\<rparr>
           in if m_dead m \<or> m_forward m \<noteq> Some proc then m'
              else triggerProbe live now (m'\<lparr>lastProbeAt := 0\<rparr>))"

datatype monitor_event =
    DetectorTick "nat \<Rightarrow> bool" int
  | Focus "nat \<Rightarrow> bool" int bool
  | PeriodicTimer "nat \<Rightarrow> bool" int
  | ForwardClosed "nat \<Rightarrow> bool" int nat
  | SshAnswer bool
  | PortAnswer "(nat \<times> nat) option"
  | ForwardAnswer bool
  | Stop

fun monitor_step :: "monitor \<Rightarrow> monitor_event \<Rightarrow> monitor" where
  "monitor_step m (DetectorTick live now) =
     (if \<not> d_timer (detector m) then m
      else case detector_tick now (detector m) of
             (d, None) \<Rightarrow> m\<lparr>detector := d\<rparr>
           | (d, Some slept) \<Rightarrow> onSleep live now slept (m\<lparr>detector := d\<rparr>))"
| "monitor_step m (Focus live now focused) = onFocus live now focused m"
| "monitor_step m (PeriodicTimer live now) = periodic_tick live now m"
| "monitor_step m (ForwardClosed live now proc) = forward_closed live now proc m"
| "monitor_step m (SshAnswer ok) = ssh_answer ok m"
| "monitor_step m (PortAnswer r) = port_answer r m"
| "monitor_step m (ForwardAnswer ok) = forward_answer ok m"
| "monitor_step m Stop = monitor_stop m"

section \<open>Dead is final\<close>

definition monitor_inv :: "monitor \<Rightarrow> bool" where
  "monitor_inv m = (m_dead m \<longrightarrow> inFlight m = None)"

definition endpoint :: "monitor \<Rightarrow> bool \<times> nat \<times> nat option \<times> nat list \<times> int list" where
  "endpoint m = (m_dead m, m_socksPort m, m_forward m, forwards m, probes m)"

lemma status_simps [simp]:
  "m_dead (reportStatus s m) = m_dead m" "inFlight (reportStatus s m) = inFlight m"
  "endpoint (reportStatus s m) = endpoint m" "probes (reportStatus s m) = probes m"
  "lastProbeAt (reportStatus s m) = lastProbeAt m" "m_socksPort (reportStatus s m) = m_socksPort m"
  "m_forward (reportStatus s m) = m_forward m" "m_killed (reportStatus s m) = m_killed m"
  "forwards (reportStatus s m) = forwards m" "lastStatus (reportStatus s m) = s"
  "m_stopped (reportStatus s m) = m_stopped m" "watched (reportStatus s m) = watched m"
  by (simp_all add: reportStatus_def endpoint_def)

lemma probe_end_simps [simp]:
  "m_dead (probe_end m) = m_dead m" "inFlight (probe_end m) = None"
  "endpoint (probe_end m) = endpoint m" "probes (probe_end m) = probes m"
  "lastProbeAt (probe_end m) = lastProbeAt m" "m_socksPort (probe_end m) = m_socksPort m"
  "m_forward (probe_end m) = m_forward m" "m_killed (probe_end m) = m_killed m"
  "forwards (probe_end m) = forwards m" "lastStatus (probe_end m) = lastStatus m"
  "watched (probe_end m) = watched m"
  by (simp_all add: probe_end_def rearm_def endpoint_def)

lemma outcome_simps [simp]:
  "m_dead (mark_dead m)" "inFlight (mark_dead m) = None" "inFlight (healthy m) = None"
  "m_dead (healthy m) = m_dead m" "endpoint (healthy m) = endpoint m"
  "probes (mark_dead m) = probes m" "probes (healthy m) = probes m"
  "lastProbeAt (mark_dead m) = lastProbeAt m" "lastProbeAt (healthy m) = lastProbeAt m"
  "m_socksPort (mark_dead m) = m_socksPort m" "m_socksPort (healthy m) = m_socksPort m"
  "m_forward (mark_dead m) = m_forward m" "m_forward (healthy m) = m_forward m"
  "m_killed (mark_dead m) = m_killed m" "m_killed (healthy m) = m_killed m"
  "forwards (mark_dead m) = forwards m" "forwards (healthy m) = forwards m"
  "lastStatus (mark_dead m) = ''Reconnecting...''" "lastStatus (healthy m) = ''Connected''"
  "watched (mark_dead m) = watched m" "watched (healthy m) = watched m"
  by (simp_all add: mark_dead_def healthy_def)

lemma trigger_dead [simp]: "m_dead m \<Longrightarrow> triggerProbe live now m = m"
  by (simp add: triggerProbe_def)

lemma trigger_inv: "monitor_inv m \<Longrightarrow> monitor_inv (triggerProbe live now m)"
  by (auto simp: monitor_inv_def triggerProbe_def)

lemma monitor_step_inv: "monitor_inv m \<Longrightarrow> monitor_inv (monitor_step m e)"
proof (cases e)
  case (DetectorTick live now)
  assume inv: "monitor_inv m"
  then have "monitor_inv (m\<lparr>detector := d\<rparr>)" "monitor_inv (reportStatus s (m\<lparr>detector := d\<rparr>))" for d s
    by (simp_all add: monitor_inv_def)
  with inv DetectorTick show ?thesis
    by (auto simp: onSleep_def trigger_inv split: prod.splits option.splits)
next
  case (Focus live now focused)
  then show "monitor_inv m \<Longrightarrow> ?thesis" by (simp add: onFocus_def trigger_inv)
next
  case (PeriodicTimer live now)
  assume inv: "monitor_inv m"
  have "monitor_inv (triggerProbe live now (m\<lparr>periodicTimer := False\<rparr>))"
    by (rule trigger_inv) (use inv in \<open>simp add: monitor_inv_def\<close>)
  with inv PeriodicTimer show ?thesis
    by (auto simp: periodic_tick_def rearm_def monitor_inv_def Let_def)
next
  case (ForwardClosed live now p)
  assume inv: "monitor_inv m"
  have "monitor_inv (triggerProbe live now (m\<lparr>watched := w, lastProbeAt := 0\<rparr>))" for w
    by (rule trigger_inv) (use inv in \<open>simp add: monitor_inv_def\<close>)
  with inv ForwardClosed show ?thesis
    by (auto simp: forward_closed_def monitor_inv_def Let_def)
qed (auto simp: onFocus_def trigger_inv ssh_answer_def port_answer_def forward_answer_def monitor_stop_def
       monitor_inv_def kill_forward_def Let_def split: option.splits awaiting.splits)

lemma monitor_step_dead:
  assumes "monitor_inv m" "m_dead m"
  shows "endpoint (monitor_step m e) = endpoint m"
proof -
  have n: "inFlight m = None" using assms by (simp add: monitor_inv_def)
  show ?thesis
  proof (cases e)
    case (DetectorTick live now)
    with assms show ?thesis
      by (auto simp: onSleep_def endpoint_def split: prod.splits option.splits)
  qed (use assms n in \<open>auto simp: onFocus_def periodic_tick_def forward_closed_def ssh_answer_def port_answer_def
         forward_answer_def monitor_stop_def endpoint_def Let_def\<close>)
qed

interpretation monitoring: settling monitor_step monitor_inv m_dead endpoint
proof unfold_locales
  fix m e
  assume "monitor_inv m"
  then show "monitor_inv (monitor_step m e)" by (rule monitor_step_inv)
next
  fix m e
  assume "monitor_inv m" "m_dead m"
  from monitor_step_dead [OF this] this
  show "m_dead (monitor_step m e) \<and> endpoint (monitor_step m e) = endpoint m"
    by (auto simp: endpoint_def)
qed

section \<open>Probes are spaced\<close>

definition spaced :: "monitor \<Rightarrow> bool" where
  "spaced m = (successively (\<lambda>later earlier. MIN_PROBE_GAP_MS \<le> later - earlier) (probes m)
               \<and> (probes m \<noteq> [] \<longrightarrow> hd (probes m) = lastProbeAt m))"

lemma spaced_cong: "probes m' = probes m \<Longrightarrow> lastProbeAt m' = lastProbeAt m \<Longrightarrow> spaced m \<Longrightarrow> spaced m'"
  by (simp add: spaced_def)

lemma spaced_trigger: "spaced m \<Longrightarrow> spaced (triggerProbe live now m)"
  by (auto simp: spaced_def triggerProbe_def successively_Cons)

lemma spaced_step:
  assumes "spaced m" "\<not> (\<exists>live now p. e = ForwardClosed live now p)"
  shows "spaced (monitor_step m e)"
proof (cases e)
  case (DetectorTick live now)
  have "spaced (m\<lparr>detector := d\<rparr>)" "spaced (reportStatus s (m\<lparr>detector := d\<rparr>))" for d s
    using assms(1) by (simp_all add: spaced_def)
  with assms DetectorTick show ?thesis
    by (auto simp: onSleep_def spaced_trigger split: prod.splits option.splits)
next
  case (Focus live now focused)
  with assms show ?thesis by (simp add: onFocus_def spaced_trigger)
next
  case (PeriodicTimer live now)
  have "spaced (triggerProbe live now (m\<lparr>periodicTimer := False\<rparr>))"
    by (rule spaced_trigger) (use assms(1) in \<open>simp add: spaced_def\<close>)
  with assms PeriodicTimer show ?thesis
    by (auto simp: periodic_tick_def rearm_def spaced_def Let_def)
qed (use assms in \<open>auto simp: ssh_answer_def port_answer_def forward_answer_def monitor_stop_def
       spaced_def kill_forward_def Let_def split: option.splits awaiting.splits\<close>)

lemma spaced_run:
  "spaced m \<Longrightarrow> \<forall>live now p. ForwardClosed live now p \<notin> set es \<Longrightarrow> spaced (foldl monitor_step m es)"
proof (induction es arbitrary: m)
  case (Cons e es)
  have "spaced (monitor_step m e)" by (rule spaced_step) (use Cons.prems in auto)
  with Cons show ?case by simp
qed simp

section \<open>Properties\<close>

text \<open>A connection that was given up stays given up: once dead, no event changes the end point
  that \<^verbatim>\<open>makeConnection\<close> reads, starts a forward or a probe, or makes it alive again.\<close>

theorem dead_is_final:
  assumes "m_dead (foldl monitor_step (monitor_start t (monitored port forward server isSession ownsServer)) es)"
  shows "endpoint (foldl monitor_step (monitor_start t (monitored port forward server isSession ownsServer)) (es @ fs))
       = endpoint (foldl monitor_step (monitor_start t (monitored port forward server isSession ownsServer)) es)"
  using monitoring.first_verdict [OF _ assms] by (simp add: monitor_inv_def monitor_start_def monitored_def)

theorem dead_is_final_witness:
  "endpoint (foldl monitor_step (monitor_start 1 (monitored 1080 None None True False))
     ([PeriodicTimer (\<lambda>_. True) 60001, SshAnswer False] @ [PeriodicTimer (\<lambda>_. True) 120001, SshAnswer True]))
   = (True, 1080, None, [], [60001])"
proof -
  let ?m = "foldl monitor_step (monitor_start 1 (monitored 1080 None None True False)) [PeriodicTimer (\<lambda>_. True) 60001, SshAnswer False]"
  have m: "m_dead ?m \<and> endpoint ?m = (True, 1080, None, [], [60001])"
    by (simp add: monitor_start_def monitored_def periodic_tick_def triggerProbe_def probe_begin_def MIN_PROBE_GAP_MS_def
        ssh_answer_def Let_def endpoint_def)
  from dead_is_final [OF conjunct1 [OF m], of "[PeriodicTimer (\<lambda>_. True) 120001, SshAnswer True]"] m
  show ?thesis by simp
qed

text \<open>Unless a repaired forward exits, which bypasses the debounce on purpose, two probes never
  start less than 15 seconds apart, whatever timers, sleeps and focus changes coincide.\<close>

theorem probes_spaced:
  assumes "\<forall>live now p. ForwardClosed live now p \<notin> set es"
  shows "successively (\<lambda>later earlier. MIN_PROBE_GAP_MS \<le> later - earlier)
     (probes (foldl monitor_step (monitor_start t (monitored port forward server isSession ownsServer)) es))"
  using spaced_run [OF _ assms, of "monitor_start t (monitored port forward server isSession ownsServer)"]
  by (simp add: spaced_def monitor_start_def monitored_def)

theorem probes_spaced_witness:
  "successively (\<lambda>later earlier. MIN_PROBE_GAP_MS \<le> later - earlier)
     (probes (foldl monitor_step (monitor_start 1 (monitored 1080 None None True False)) [PeriodicTimer (\<lambda>_. True) 60001, Stop]))"
  by (rule probes_spaced) simp

text \<open>What a probe does when ssh answers but the forward is dead: the new forward is started, and
  if it comes up the old one is killed and the connection moved to the new port and process, which
  is watched; the connection then counts as connected exactly if the server lives. If the new
  forward does not come up the connection is dead and keeps its old end point, and the process
  that was started is left running: it is neither killed nor used.\<close>

theorem forward_repair:
  assumes "\<not> m_dead m" and "inFlight m = None" and "\<not> m_isSession m" and "MIN_PROBE_GAP_MS \<le> now - lastProbeAt m"
    and "\<not> isAlive live (m_forward m)"
  shows "let s = (if m_ownsServer m then isAlive live (m_server m) else True);
             m' = foldl monitor_step (triggerProbe live now m) [SshAnswer True, PortAnswer (Some (port, proc)), ForwardAnswer up]
         in inFlight m' = None \<and> forwards m' = forwards m @ [proc]
          \<and> (if up then m_socksPort m' = port \<and> m_forward m' = Some proc \<and> proc \<in> set (watched m')
                       \<and> m_killed m' = m_killed m @ (case m_forward m of None \<Rightarrow> [] | Some p \<Rightarrow> [p])
                       \<and> m_dead m' = (\<not> s) \<and> lastStatus m' = (if s then ''Connected'' else ''Reconnecting...'')
             else m_dead m' \<and> m_socksPort m' = m_socksPort m \<and> m_forward m' = m_forward m
                       \<and> m_killed m' = m_killed m \<and> lastStatus m' = ''Reconnecting...'')"
  using assms
  by (simp add: triggerProbe_def probe_begin_def ssh_answer_def port_answer_def forward_answer_def kill_forward_def
      Let_def split: option.splits)

theorem forward_repair_witness:
  "m_forward (foldl monitor_step (triggerProbe (\<lambda>p. p = 2) 60000 (monitored 1080 (Some 1) (Some 2) False True))
      [SshAnswer True, PortAnswer (Some (1081, 3)), ForwardAnswer True]) = Some 3"
  using forward_repair [of "monitored 1080 (Some 1) (Some 2) False True" 60000 "\<lambda>p. p = 2" 1081 3 True]
  by (simp add: monitored_def MIN_PROBE_GAP_MS_def isAlive_def Let_def)

text \<open>Stopping the monitor does not disarm a repaired forward: when that forward exits after
  \<^verbatim>\<open>stop\<close>, as it does when the connection is torn down, the stopped monitor probes again and can
  start a new forward.\<close>

theorem stopped_monitor_restarts:
  assumes "\<not> m_dead m" and "inFlight m = None" and "m_forward m = Some proc" and "proc \<in> set (watched m)"
    and "\<not> m_isSession m" and "MIN_PROBE_GAP_MS \<le> now" and "\<not> live proc"
  shows "forwards (foldl monitor_step m [Stop, ForwardClosed live now proc, SshAnswer True, PortAnswer (Some (port, new))])
       = forwards m @ [new]"
  using assms
  by (simp add: monitor_stop_def forward_closed_def triggerProbe_def probe_begin_def ssh_answer_def port_answer_def
      isAlive_def Let_def)

theorem stopped_monitor_restarts_witness:
  "forwards (foldl monitor_step ((monitored 1080 (Some 3) None False False)\<lparr>watched := [3]\<rparr>)
     [Stop, ForwardClosed (\<lambda>_. False) 60000 3, SshAnswer True, PortAnswer (Some (1081, 4))]) = [4]"
  using stopped_monitor_restarts [of "(monitored 1080 (Some 3) None False False)\<lparr>watched := [3]\<rparr>" 3 60000 "\<lambda>_. False" 1081 4]
  by (simp add: monitored_def MIN_PROBE_GAP_MS_def)

end
