(* ===== verification/VscodiumFeed.thy ===== *)
theory VscodiumFeed
  imports Json
begin

text \<open>
  \<^verbatim>\<open>src/remote/vscodiumFeed.ts\<close>: finding the VSCodium release nearest to a local version. \<open>feed\<close> is
  what the module reads and writes: the bundled list and the cache file, as parsed JSON
  (\<^term>\<open>None\<close>: missing or not JSON), whether the cache can be written, and the release pages the
  network answers with. A JavaScript set is a list without repetition, in order of insertion.
  \<^verbatim>\<open>Number(s)\<close> is modelled for exact whole numbers (no rounding beyond 2^53).

  The interface \<open>ranking\<close> states what the two selection loops need of the comparison: that it is
  a total preorder. It is interpreted on the code's \<open>compare\<close>.
\<close>

section \<open>Ranked choice\<close>

text \<open>The loop of \<^verbatim>\<open>pickMatch\<close> and \<^verbatim>\<open>pickHighestLe\<close>: the first of the greatest candidates at or below the
  limit. Values without a key are skipped.\<close>

fun best_le :: "('v \<Rightarrow> 'k option) \<Rightarrow> ('k \<Rightarrow> 'k \<Rightarrow> int) \<Rightarrow> 'k \<Rightarrow> ('v \<times> 'k) option \<Rightarrow> 'v list \<Rightarrow> ('v \<times> 'k) option" where
  "best_le key cmp limit best [] = best"
| "best_le key cmp limit best (v # vs) =
     best_le key cmp limit
       (case key v of
          None \<Rightarrow> best
        | Some k \<Rightarrow>
            if cmp k limit \<le> 0 \<and> (case best of None \<Rightarrow> True | Some (_, b) \<Rightarrow> cmp k b > 0) then Some (v, k) else best)
       vs"

locale ranking =
  fixes key :: "'v \<Rightarrow> 'k option" and cmp :: "'k \<Rightarrow> 'k \<Rightarrow> int"
  assumes cmp_flip: "cmp a b = - cmp b a"
    and cmp_trans: "cmp a b \<le> 0 \<Longrightarrow> cmp b c \<le> 0 \<Longrightarrow> cmp a c \<le> 0"
begin

definition below :: "'k \<Rightarrow> 'v \<Rightarrow> 'k \<Rightarrow> bool" where
  "below limit v k = (key v = Some k \<and> cmp k limit \<le> 0)"

definition chosen :: "'v set \<Rightarrow> 'k \<Rightarrow> ('v \<times> 'k) option \<Rightarrow> bool" where
  "chosen S limit best =
     (case best of
        None \<Rightarrow> (\<forall>u \<in> S. \<forall>k. \<not> below limit u k)
      | Some (v, b) \<Rightarrow> v \<in> S \<and> below limit v b \<and> (\<forall>u \<in> S. \<forall>k. below limit u k \<longrightarrow> cmp k b \<le> 0))"

lemma chosen_step:
  assumes "chosen S limit best"
  shows "chosen (insert v S) limit (case key v of None \<Rightarrow> best
     | Some k \<Rightarrow> if cmp k limit \<le> 0 \<and> (case best of None \<Rightarrow> True | Some (_, b) \<Rightarrow> cmp k b > 0) then Some (v, k) else best)"
proof (cases "key v")
  case None
  with assms show ?thesis by (auto simp: chosen_def below_def split: option.splits)
next
  case (Some k)
  have refl: "cmp a a \<le> 0" for a using cmp_flip [of a a] by simp
  have ge: "cmp b k \<le> 0" if "cmp k b > 0" for k b using that cmp_flip [of b k] by simp
  show ?thesis
  proof (cases "cmp k limit \<le> 0 \<and> (case best of None \<Rightarrow> True | Some (_, b) \<Rightarrow> cmp k b > 0)")
    case True
    with Some assms refl show ?thesis
      by (auto simp: chosen_def below_def split: option.splits dest: ge intro: cmp_trans)
  next
    case False
    with Some assms show ?thesis by (auto simp: chosen_def below_def not_less split: option.splits)
  qed
qed

lemma best_le_chosen: "chosen S limit best \<Longrightarrow> chosen (S \<union> set vs) limit (best_le key cmp limit best vs)"
proof (induction vs arbitrary: best S)
  case (Cons v vs)
  have "S \<union> set (v # vs) = insert v S \<union> set vs" by auto
  with Cons.IH [OF chosen_step [OF Cons.prems]] show ?case by simp
qed simp

lemma best_le_correct: "chosen (set vs) limit (best_le key cmp limit None vs)"
  using best_le_chosen [of "{}" limit None vs] by (simp add: chosen_def)

end

section \<open>Versions\<close>

text \<open>\<^verbatim>\<open>Number(s)\<close>, \<^term>\<open>None\<close> unless it is a whole number.\<close>

definition radix_digits :: "nat \<Rightarrow> string \<Rightarrow> int option" where
  "radix_digits b s =
     (if s \<noteq> [] \<and> list_all (\<lambda>c. case hex_val c of None \<Rightarrow> False | Some d \<Rightarrow> d < b) s
      then Some (int (foldl (\<lambda>a c. a * b + the (hex_val c)) 0 s)) else None)"

definition scaled :: "int \<Rightarrow> int \<Rightarrow> int option" where
  "scaled m e =
     (if 0 \<le> e then Some (m * 10 ^ nat e)
      else if m mod 10 ^ nat (- e) = 0 then Some (m div 10 ^ nat (- e)) else None)"

definition signed :: "string \<Rightarrow> int \<times> string" where
  "signed s = (case s of c # r \<Rightarrow> if c = CHR ''-'' then (-1, r) else if c = CHR ''+'' then (1, r) else (1, s)
                       | [] \<Rightarrow> (1, []))"

definition decimal :: "string \<Rightarrow> int option" where
  "decimal s =
     (let (sg, u) = signed s; ds = takeWhile is_digit u; r = dropWhile is_digit u
      in if ds = [] then None
         else if r = [] then Some (sg * int (nat_of_digits ds))
         else if hd r = CHR ''e'' \<or> hd r = CHR ''E''
         then (let (es, x) = signed (tl r)
               in if all_digits x then scaled (sg * int (nat_of_digits ds)) (es * int (nat_of_digits x)) else None)
         else None)"

definition js_number :: "string \<Rightarrow> int option" where
  "js_number s =
     (let t = trim s
      in if t = [] then Some 0
         else if prefix ''0x'' t \<or> prefix ''0X'' t then radix_digits 16 (drop 2 t)
         else if prefix ''0o'' t \<or> prefix ''0O'' t then radix_digits 8 (drop 2 t)
         else if prefix ''0b'' t \<or> prefix ''0B'' t then radix_digits 2 (drop 2 t)
         else decimal t)"

fun segments :: "string \<Rightarrow> string list \<Rightarrow> int list result" where
  "segments v [] = Inr []"
| "segments v (p # ps) =
     (case js_number p of
        Some n \<Rightarrow>
          (if n < 0 then Inl (plain_error (''bad version segment '' @ [CHR 0x22] @ p @ [CHR 0x22] @ '' in '' @ [CHR 0x22] @ v @ [CHR 0x22]))
           else (case segments v ps of Inl e \<Rightarrow> Inl e | Inr ns \<Rightarrow> Inr (n # ns)))
      | None \<Rightarrow> Inl (plain_error (''bad version segment '' @ [CHR 0x22] @ p @ [CHR 0x22] @ '' in '' @ [CHR 0x22] @ v @ [CHR 0x22])))"

definition parseVersion :: "string \<Rightarrow> int list result" where
  "parseVersion v =
     (case segments v (js_split CHR ''.'' v) of
        Inl e \<Rightarrow> Inl e
      | Inr nums \<Rightarrow>
          (let nums' = nums @ replicate (4 - length nums) 0
           in if 4 < length nums' then Inl (plain_error (''unexpected version format '' @ [CHR 0x22] @ v @ [CHR 0x22]))
              else Inr nums'))"

definition version_of :: "string \<Rightarrow> int list option" where
  "version_of v = (case parseVersion v of Inl _ \<Rightarrow> None | Inr t \<Rightarrow> Some t)"

fun compare_from :: "nat \<Rightarrow> nat \<Rightarrow> int list \<Rightarrow> int list \<Rightarrow> int" where
  "compare_from 0 i a b = 0"
| "compare_from (Suc n) i a b = (if a ! i \<noteq> b ! i then a ! i - b ! i else compare_from n (Suc i) a b)"

definition compare :: "int list \<Rightarrow> int list \<Rightarrow> int" where
  "compare a b = compare_from 4 0 a b"

lemma compare_from_flip: "compare_from n i a b = - compare_from n i b a"
  by (induction n arbitrary: i) auto

lemma compare_from_trans: "compare_from n i a b \<le> 0 \<Longrightarrow> compare_from n i b c \<le> 0 \<Longrightarrow> compare_from n i a c \<le> 0"
  by (induction n arbitrary: i) (auto split: if_splits)

interpretation releases: ranking version_of compare
proof unfold_locales
  fix a b c
  show "compare a b = - compare b a" unfolding compare_def by (rule compare_from_flip)
  show "compare a b \<le> 0 \<Longrightarrow> compare b c \<le> 0 \<Longrightarrow> compare a c \<le> 0"
    unfolding compare_def by (rule compare_from_trans)
qed

definition pickMatch :: "string list \<Rightarrow> int list \<Rightarrow> string option" where
  "pickMatch vs local =
     (let hasGe = list_ex (\<lambda>v. case version_of v of None \<Rightarrow> False | Some t \<Rightarrow> compare t local \<ge> 0) vs
      in if hasGe then map_option fst (best_le version_of compare local None vs) else None)"

definition pickHighestLe :: "string list \<Rightarrow> int list \<Rightarrow> string option" where
  "pickHighestLe vs local = map_option fst (best_le version_of compare local None vs)"

section \<open>The lists\<close>

definition add_strings :: "json option \<Rightarrow> string list \<Rightarrow> string list" where
  "add_strings file xs =
     (case file of
        Some (JArr vs) \<Rightarrow> fold (\<lambda>v ys. case v of JStr s \<Rightarrow> set_add s ys | _ \<Rightarrow> ys) vs xs
      | _ \<Rightarrow> xs)"

record feed =
  bundled :: "json option"
  cache_file :: "json option"
  hasCachePath :: bool
  writable :: bool
  fetched :: "nat list"

definition loadUnion :: "feed \<Rightarrow> string list" where
  "loadUnion w = add_strings (if hasCachePath w then cache_file w else None) (add_strings (bundled w) [])"

definition loadCacheSet :: "feed \<Rightarrow> string list" where
  "loadCacheSet w = (if hasCachePath w then add_strings (cache_file w) [] else [])"

text \<open>\<^verbatim>\<open>sort\<close> is stable; it calls the comparison for every element once there are two.\<close>

fun insert_desc :: "string \<Rightarrow> string list \<Rightarrow> string list" where
  "insert_desc x [] = [x]"
| "insert_desc x (y # ys) =
     (if compare (the (version_of y)) (the (version_of x)) \<ge> 0 then y # insert_desc x ys else x # y # ys)"

definition sort_desc :: "string list \<Rightarrow> string list result" where
  "sort_desc vs =
     (case List.find (\<lambda>v. version_of v = None) vs of
        Some v \<Rightarrow> (if length vs < 2 then Inr vs else (case parseVersion v of Inl e \<Rightarrow> Inl e | Inr _ \<Rightarrow> Inr vs))
      | None \<Rightarrow> Inr (fold insert_desc vs []))"

definition appendToCache :: "string list \<Rightarrow> feed \<Rightarrow> unit result \<times> feed" where
  "appendToCache new w =
     (if \<not> hasCachePath w then (Inr (), w)
      else let existing = loadCacheSet w; all = fold set_add new existing
           in if set new \<subseteq> set existing then (Inr (), w)
              else (case sort_desc all of
                      Inl e \<Rightarrow> (Inl e, w)
                    | Inr sorted_vs \<Rightarrow>
                        (Inr (), if writable w then w\<lparr>cache_file := Some (JArr (map JStr sorted_vs))\<rparr> else w)))"

text \<open>The global match of the tag expression.\<close>

definition TAG_PATH :: string where "TAG_PATH = ''/VSCodium/vscodium/releases/tag/''"

definition tag_char :: "char \<Rightarrow> bool" where "tag_char c = (is_digit c \<or> c = CHR ''.'')"

function tags :: "string \<Rightarrow> string list" where
  "tags s =
     (if s = [] then []
      else if prefix TAG_PATH s \<and> takeWhile tag_char (drop (length TAG_PATH) s) \<noteq> []
      then takeWhile tag_char (drop (length TAG_PATH) s) # tags (dropWhile tag_char (drop (length TAG_PATH) s))
      else tags (tl s))"
  by pat_completeness auto
termination
proof (relation "measure length", simp)
  fix s :: string
  assume "s \<noteq> []" "prefix TAG_PATH s \<and> takeWhile tag_char (drop (length TAG_PATH) s) \<noteq> []"
  then have "length (drop (length TAG_PATH) s) < length s" by (simp add: TAG_PATH_def)
  then show "(dropWhile tag_char (drop (length TAG_PATH) s), s) \<in> measure length"
    using length_dropWhile_le [of tag_char "drop (length TAG_PATH) s"] by simp
qed simp

declare tags.simps [simp del]

definition parseVersions :: "string \<Rightarrow> string list" where
  "parseVersions html = fold set_add (tags html) []"

section \<open>Resolution\<close>

text \<open>\<open>pages\<close> is what the network answers for each page, \<^term>\<open>None\<close> for a failure or a status that is
  not OK.\<close>

definition saw_ge :: "int list \<Rightarrow> string list \<Rightarrow> bool result" where
  "saw_ge local vs =
     fold (\<lambda>v r. case r of
             Inr False \<Rightarrow> (case parseVersion v of Inl e \<Rightarrow> Inl e | Inr t \<Rightarrow> Inr (compare t local \<ge> 0))
           | _ \<Rightarrow> r) vs (Inr False)"

function resolve_page :: "(nat \<Rightarrow> string option) \<Rightarrow> int list \<Rightarrow> nat \<Rightarrow> feed \<Rightarrow> string result \<times> feed" where
  "resolve_page pages local page w =
     (case pickMatch (loadUnion w) local of
        Some v \<Rightarrow> (Inr v, w)
      | None \<Rightarrow>
          (let w1 = w\<lparr>fetched := fetched w @ [page]\<rparr>
           in case pages page of
                None \<Rightarrow> (Inr [], w1)
              | Some html \<Rightarrow>
                  (let vs = parseVersions html
                   in if vs = [] then (Inr [], w1)
                      else (case appendToCache vs w1 of
                              (Inl e, w2) \<Rightarrow> (Inl e, w2)
                            | (Inr _, w2) \<Rightarrow>
                                (case saw_ge local vs of
                                   Inl e \<Rightarrow> (Inl e, w2)
                                 | Inr True \<Rightarrow> (Inr (nullish (pickMatch (loadUnion w2) local) []), w2)
                                 | Inr False \<Rightarrow>
                                     if page = 1 then (Inr (nullish (pickHighestLe (loadUnion w2) local) []), w2)
                                     else if page > 50 then (Inr [], w2)
                                     else resolve_page pages local (Suc page) w2)))))"
  by pat_completeness auto
termination by (relation "measure (\<lambda>(pages, local, page, w). 52 - page)") auto

declare resolve_page.simps [simp del]

definition resolveNearestVsCodiumVersion :: "(nat \<Rightarrow> string option) \<Rightarrow> string \<Rightarrow> feed \<Rightarrow> string result \<times> feed" where
  "resolveNearestVsCodiumVersion pages localVersion w =
     (case parseVersion localVersion of
        Inl e \<Rightarrow> (Inl e, w)
      | Inr local \<Rightarrow> resolve_page pages local 1 w)"

section \<open>Lemmas\<close>

lemma best_le_version:
  assumes "best_le version_of compare local None vs = Some (v, t)"
  shows "v \<in> set vs \<and> version_of v = Some t \<and> compare t local \<le> 0
    \<and> (\<forall>u \<in> set vs. \<forall>k. version_of u = Some k \<and> compare k local \<le> 0 \<longrightarrow> compare k t \<le> 0)"
  using releases.best_le_correct [where limit = local and vs = vs] assms
  by (simp add: releases.chosen_def releases.below_def)

lemma best_le_none:
  assumes "best_le version_of compare local None vs = None"
  shows "\<forall>u \<in> set vs. \<forall>k. version_of u = Some k \<longrightarrow> \<not> compare k local \<le> 0"
  using releases.best_le_correct [where limit = local and vs = vs] assms
  by (simp add: releases.chosen_def releases.below_def)

definition nearest :: "string list \<Rightarrow> int list \<Rightarrow> string \<Rightarrow> bool" where
  "nearest vs local v =
     (v \<in> set vs \<and> (\<exists>t. version_of v = Some t \<and> compare t local \<le> 0
        \<and> (\<forall>u \<in> set vs. \<forall>k. version_of u = Some k \<and> compare k local \<le> 0 \<longrightarrow> compare k t \<le> 0)))"

lemma pickHighestLe_nearest: "pickHighestLe vs local = Some v \<Longrightarrow> nearest vs local v"
  using best_le_version by (fastforce simp: pickHighestLe_def nearest_def)

lemma pickMatch_nearest: "pickMatch vs local = Some v \<Longrightarrow> nearest vs local v"
  using best_le_version by (fastforce simp: pickMatch_def nearest_def Let_def split: if_splits)

lemma appendToCache_keeps:
  "appendToCache new w = (r, w') \<Longrightarrow> fetched w' = fetched w \<and> (\<not> writable w \<longrightarrow> w' = w)"
  by (auto simp: appendToCache_def Let_def split: if_splits sum.splits)

lemma resolve_page_1:
  assumes "resolve_page pages local 1 w = (r, w')"
  shows "(w' = w \<or> (fetched w' = fetched w @ [1] \<and> (\<not> writable w \<longrightarrow> loadUnion w' = loadUnion w)))
    \<and> (\<forall>v. r = Inr v \<longrightarrow> v = [] \<or> nearest (loadUnion w') local v)"
proof (cases "pickMatch (loadUnion w) local")
  case (Some v)
  with assms pickMatch_nearest [OF Some] show ?thesis by (subst (asm) resolve_page.simps) auto
next
  case None
  let ?w1 = "w\<lparr>fetched := fetched w @ [1]\<rparr>"
  have u: "loadUnion ?w1 = loadUnion w" by (simp add: loadUnion_def)
  show ?thesis
  proof (cases "pages 1")
    case nopage: None
    with assms None u show ?thesis by (subst (asm) resolve_page.simps) auto
  next
    case (Some html)
    let ?vs = "parseVersions html"
    obtain a w2 where a: "appendToCache ?vs ?w1 = (a, w2)" by (cases "appendToCache ?vs ?w1") auto
    note k = appendToCache_keeps [OF a]
    show ?thesis
      using assms None Some u a k
      by (subst (asm) resolve_page.simps)
        (auto simp: Let_def nullish_def split: if_splits sum.splits bool.splits option.splits
          dest: pickMatch_nearest pickHighestLe_nearest)
  qed
qed

section \<open>Properties\<close>

text \<open>C8. The version chosen from a list is the greatest of its well-formed versions that are not above
  the local one, and one is chosen exactly when the list also holds a version at or above the local
  one and some version not above it. Entries that are not versions are ignored.\<close>

theorem pickMatch_correct:
  "(\<forall>v. pickMatch vs local = Some v \<longrightarrow> nearest vs local v)
   \<and> (pickMatch vs local \<noteq> None \<longleftrightarrow>
        (\<exists>u \<in> set vs. \<exists>k. version_of u = Some k \<and> 0 \<le> compare k local)
        \<and> (\<exists>u \<in> set vs. \<exists>k. version_of u = Some k \<and> compare k local \<le> 0))"
proof -
  have "list_ex (\<lambda>v. case version_of v of None \<Rightarrow> False | Some t \<Rightarrow> compare t local \<ge> 0) vs
      \<longleftrightarrow> (\<exists>u \<in> set vs. \<exists>k. version_of u = Some k \<and> 0 \<le> compare k local)"
    by (auto simp: list_ex_iff split: option.splits)
  moreover have "best_le version_of compare local None vs \<noteq> None
      \<longleftrightarrow> (\<exists>u \<in> set vs. \<exists>k. version_of u = Some k \<and> compare k local \<le> 0)"
    using best_le_none [of local vs] best_le_version [of local vs] by fastforce
  ultimately show ?thesis
    using pickMatch_nearest by (auto simp: pickMatch_def Let_def)
qed

theorem pickMatch_correct_witness:
  "nearest [''1.98'', ''x'', ''1.99.3'', ''1.101''] [1, 100, 0, 0] ''1.99.3''"
proof -
  have "version_of ''1.98'' = Some [1, 98, 0, 0]" "version_of ''x'' = None"
    "version_of ''1.99.3'' = Some [1, 99, 3, 0]" "version_of ''1.101'' = Some [1, 101, 0, 0]"
    by (simp_all add: version_of_def parseVersion_def js_number_def decimal_def signed_def trim_def trim_start_def
        trim_end_def is_space_def is_digit_def nat_of_digits_def digit_val_def all_digits_def Let_def numeral_eq_Suc)
  then have "pickMatch [''1.98'', ''x'', ''1.99.3'', ''1.101''] [1, 100, 0, 0] = Some ''1.99.3''"
    by (simp add: pickMatch_def compare_def numeral_eq_Suc Let_def)
  with pickMatch_correct [of "[''1.98'', ''x'', ''1.99.3'', ''1.101'']" "[1, 100, 0, 0]"] show ?thesis by blast
qed

text \<open>Resolution asks the network for the first page of releases at most, never for a second one,
  and an answer other than the empty text is the greatest version not above the local one among
  the bundled and cached versions it ends with. When the cache file cannot be written these are the
  versions from before: those just fetched are not used.\<close>

theorem resolve_nearest_first_page:
  assumes "parseVersion localVersion = Inr local"
    and "resolveNearestVsCodiumVersion pages localVersion w = (r, w')"
  shows "fetched w' \<in> {fetched w, fetched w @ [1]}
    \<and> (\<forall>v. r = Inr v \<longrightarrow> v = [] \<or> nearest (loadUnion w') local v)
    \<and> (\<not> writable w \<longrightarrow> loadUnion w' = loadUnion w)"
  using resolve_page_1 [of pages local w r w'] assms
  by (auto simp: resolveNearestVsCodiumVersion_def)

theorem resolve_nearest_first_page_witness:
  "\<exists>w'. resolveNearestVsCodiumVersion (\<lambda>_. None) ''7'' \<lparr>bundled = None, cache_file = None, hasCachePath = False, writable = False, fetched = []\<rparr>
     = (Inr [], w') \<and> fetched w' \<in> {[], [1]}"
proof -
  let ?w = "\<lparr>bundled = None, cache_file = None, hasCachePath = False, writable = False, fetched = []\<rparr>"
  have v: "parseVersion ''7'' = Inr [7, 0, 0, 0]"
    by (simp add: parseVersion_def js_number_def decimal_def signed_def trim_def trim_start_def
        trim_end_def is_space_def is_digit_def nat_of_digits_def digit_val_def Let_def numeral_eq_Suc)
  let ?r = "resolveNearestVsCodiumVersion (\<lambda>_. None) ''7'' ?w"
  have "?r = (Inr [], snd ?r)"
    using v by (simp add: resolveNearestVsCodiumVersion_def resolve_page.simps pickMatch_def loadUnion_def add_strings_def)
  with resolve_nearest_first_page [OF v this] show ?thesis by auto
qed

end
