(* ===== verification/FolderHistory.thy ===== *)
theory FolderHistory
  imports Prelude "HOL-Library.AList"
begin

text \<open>
  \<^verbatim>\<open>src/remote/folderHistory.ts\<close>: the recent folders of each remote. The stored object is its list
  of properties; the manager is that object with the number of change events fired. A descriptor
  is a pair of authority and folder.
\<close>

record history =
  h_data :: "(string \<times> string list) list"
  h_fired :: nat

text \<open>\<open>fromUri\<close> looks at scheme, authority and path of a URI.\<close>

definition fromUri :: "string \<Rightarrow> string \<Rightarrow> string \<Rightarrow> (string \<times> string) option" where
  "fromUri scheme authority path =
     (if scheme \<noteq> ''vscode-remote'' then None
      else if authority = [] \<or> CHR ''+'' \<notin> set authority then None
      else Some (authority, path))"

definition toUri :: "string \<times> string \<Rightarrow> string" where
  "toUri d = ''vscode-remote://'' @ fst d @ snd d"

definition add_folder :: "string \<times> string \<Rightarrow> (string \<times> string list) list \<Rightarrow> (string \<times> string list) list" where
  "add_folder f data =
     (let l = nullish (map_of data (fst f)) [];
          l' = snd f # filter (\<lambda>p. p \<noteq> snd f) l
      in AList.update (fst f) (take 20 l') data)"

definition addFolders :: "(string \<times> string) list \<Rightarrow> history \<Rightarrow> history" where
  "addFolders folders h =
     (if folders = [] then h else \<lparr>h_data = fold add_folder folders (h_data h), h_fired = Suc (h_fired h)\<rparr>)"

definition removeFolder :: "string \<times> string \<Rightarrow> history \<Rightarrow> bool \<times> history" where
  "removeFolder f h =
     (case map_of (h_data h) (fst f) of
        None \<Rightarrow> (False, h)
      | Some l \<Rightarrow>
          (let next = filter (\<lambda>p. p \<noteq> snd f) l
           in if length next = length l then (False, h)
              else (True, \<lparr>h_data = (if next = [] then AList.delete (fst f) (h_data h)
                                    else AList.update (fst f) next (h_data h)),
                           h_fired = Suc (h_fired h)\<rparr>)))"

definition getFolders :: "string \<Rightarrow> history \<Rightarrow> (string \<times> string) list" where
  "getFolders remote h = map (\<lambda>folder. (remote, folder)) (nullish (map_of (h_data h) remote) [])"

definition getRemotes :: "history \<Rightarrow> string list" where
  "getRemotes h = map fst (h_data h)"

text \<open>Workspace folders are triples of scheme, authority and path.\<close>

definition captureCurrentWorkspace :: "(string \<times> string \<times> string) list \<Rightarrow> string \<Rightarrow> history \<Rightarrow> history" where
  "captureCurrentWorkspace folders remoteNamePrefix h =
     addFolders (filter (\<lambda>d. prefix remoteNamePrefix (fst d))
                   (List.map_filter (\<lambda>(s, a, p). fromUri s a p) folders)) h"

section \<open>Most recently used first\<close>

definition bump :: "string \<Rightarrow> string list \<Rightarrow> string list" where
  "bump f l = f # filter (\<lambda>p. p \<noteq> f) l"

definition folders_of :: "string \<Rightarrow> history \<Rightarrow> string list" where
  "folders_of remote h = nullish (map_of (h_data h) remote) []"

lemma distinct_bump: "distinct l \<Longrightarrow> distinct (bump f l)"
  by (simp add: bump_def)

lemma take_filter_one:
  "distinct l \<Longrightarrow> take n (filter (\<lambda>p. p \<noteq> f) (take (Suc n) l)) = take n (filter (\<lambda>p. p \<noteq> f) l)"
proof (induction l arbitrary: n)
  case (Cons x l)
  show ?case
  proof (cases "x = f")
    case True
    then have "filter (\<lambda>p. p \<noteq> f) l = l" using Cons.prems by (auto simp: filter_id_conv)
    moreover from this have "filter (\<lambda>p. p \<noteq> f) (take n l) = take n l"
      by (metis filter_id_conv in_set_takeD)
    ultimately show ?thesis using True by simp
  next
    case False
    with Cons show ?thesis by (cases n) auto
  qed
qed simp

lemma bump_take: "distinct l \<Longrightarrow> take 20 (bump f (take 20 l)) = take 20 (bump f l)"
  using take_filter_one [of l 19 f] by (simp add: bump_def take_Cons')

lemma fold_add:
  assumes "nullish (map_of data remote) [] = take 20 l" "distinct l"
  shows "nullish (map_of (fold add_folder fs data) remote) []
      = take 20 (fold bump (map snd (filter (\<lambda>f. fst f = remote) fs)) l)"
  using assms
proof (induction fs arbitrary: data l)
  case (Cons f fs)
  show ?case
  proof (cases "fst f = remote")
    case True
    have "nullish (map_of (add_folder f data) remote) [] = take 20 (bump (snd f) l)"
      using True Cons.prems bump_take [OF Cons.prems(2), of "snd f"]
      by (simp add: add_folder_def update_conv' bump_def Let_def)
    from Cons.IH [OF this distinct_bump [OF Cons.prems(2)]] True show ?thesis by simp
  next
    case False
    then have "nullish (map_of (add_folder f data) remote) [] = take 20 l"
      using Cons.prems by (simp add: add_folder_def update_conv' Let_def)
    from Cons.IH [OF this Cons.prems(2)] False show ?thesis by simp
  qed
qed simp

lemma set_update_subset: "set (AList.update k v al) \<subseteq> insert (k, v) (set al)"
  by (induction al) auto

lemma set_delete_subset: "set (AList.delete k al) \<subseteq> set al"
  by (auto simp: AList.delete_eq)

definition entry_ok :: "string \<times> string list \<Rightarrow> bool" where
  "entry_ok e = (snd e \<noteq> [] \<and> distinct (snd e) \<and> length (snd e) \<le> 20)"

definition data_ok :: "(string \<times> string list) list \<Rightarrow> bool" where
  "data_ok data = (distinct (map fst data) \<and> (\<forall>e \<in> set data. entry_ok e))"

lemma entry_of_data: "data_ok data \<Longrightarrow> map_of data r = Some l \<Longrightarrow> entry_ok (r, l)"
  by (auto simp: data_ok_def dest!: map_of_SomeD)

lemma update_ok: "data_ok data \<Longrightarrow> entry_ok (r, l) \<Longrightarrow> data_ok (AList.update r l data)"
  using set_update_subset [of r l data] by (auto simp: data_ok_def distinct_update)

lemma delete_ok: "data_ok data \<Longrightarrow> data_ok (AList.delete r data)"
  using set_delete_subset [of r data] by (auto simp: data_ok_def distinct_delete)

lemma distinct_stored: "data_ok data \<Longrightarrow> distinct (nullish (map_of data r) [])"
  by (cases "map_of data r") (auto dest: entry_of_data simp: entry_ok_def)

lemma bumped_ok:
  assumes "distinct l"
  shows "entry_ok (r, take 20 (bump f l))"
proof -
  have "distinct (take 20 (bump f l))" by (intro distinct_take distinct_bump assms)
  moreover have "take 20 (bump f l) \<noteq> []" by (simp add: bump_def)
  moreover have "length (take 20 (bump f l)) \<le> 20" by (simp only: length_take)
  ultimately show ?thesis by (simp only: entry_ok_def snd_conv) simp
qed

lemma add_folder_bump:
  "add_folder f data = AList.update (fst f) (take 20 (bump (snd f) (nullish (map_of data (fst f)) []))) data"
  by (simp add: add_folder_def bump_def Let_def)

lemma add_ok: "data_ok data \<Longrightarrow> data_ok (add_folder f data)"
  by (simp add: add_folder_bump update_ok bumped_ok distinct_stored)

lemma adds_ok: "data_ok data \<Longrightarrow> data_ok (fold add_folder fs data)"
  by (induction fs arbitrary: data) (simp_all add: add_ok)

lemma remove_ok: "data_ok (h_data h) \<Longrightarrow> data_ok (h_data (snd (removeFolder f h)))"
proof (cases "map_of (h_data h) (fst f)")
  case (Some l)
  assume ok: "data_ok (h_data h)"
  have e: "entry_ok (fst f, l)" by (rule entry_of_data [OF ok Some])
  have "length (filter (\<lambda>p. p \<noteq> snd f) l) \<le> 20"
    using e by (simp add: entry_ok_def) (metis length_filter_le order_trans)
  with e have "filter (\<lambda>p. p \<noteq> snd f) l \<noteq> [] \<Longrightarrow> entry_ok (fst f, filter (\<lambda>p. p \<noteq> snd f) l)"
    by (simp add: entry_ok_def)
  with ok Some show ?thesis by (simp add: removeFolder_def Let_def update_ok delete_ok)
qed (simp add: removeFolder_def)

section \<open>The manager as a machine\<close>

datatype history_op = AddFolders "(string \<times> string) list" | RemoveFolder "string \<times> string"

fun history_step :: "history \<Rightarrow> history_op \<Rightarrow> history" where
  "history_step h (AddFolders fs) = addFolders fs h"
| "history_step h (RemoveFolder f) = snd (removeFolder f h)"

definition history_ok :: "history \<Rightarrow> bool" where
  "history_ok h = data_ok (h_data h)"

interpretation history_machine: machine history_step history_ok
proof
  fix h e
  assume "history_ok h"
  then show "history_ok (history_step h e)"
    by (cases e) (simp_all add: history_ok_def addFolders_def adds_ok remove_ok)
qed

definition empty_history :: history where
  "empty_history = \<lparr>h_data = [], h_fired = 0\<rparr>"

lemma empty_ok: "history_ok empty_history"
  by (simp add: history_ok_def empty_history_def data_ok_def)

lemma getFolders_add:
  assumes "history_ok h"
  shows "getFolders remote (addFolders fs h)
      = map (Pair remote) (take 20 (fold bump (map snd (filter (\<lambda>f. fst f = remote) fs)) (folders_of remote h)))"
proof -
  have d: "distinct (folders_of remote h)" and l: "length (folders_of remote h) \<le> 20"
  proof -
    show "distinct (folders_of remote h)"
      using assms distinct_stored by (simp add: history_ok_def folders_of_def)
    show "length (folders_of remote h) \<le> 20"
      using assms entry_of_data [of "h_data h" remote]
      by (cases "map_of (h_data h) remote") (auto simp: history_ok_def folders_of_def entry_ok_def)
  qed
  show ?thesis
  proof (cases "fs = []")
    case True
    with l show ?thesis by (simp add: addFolders_def getFolders_def folders_of_def)
  next
    case False
    have "nullish (map_of (h_data h) remote) [] = take 20 (folders_of remote h)"
      using l by (simp add: folders_of_def)
    from fold_add [OF this d] False show ?thesis by (simp add: addFolders_def getFolders_def)
  qed
qed

lemma folders_remove:
  assumes "history_ok h"
  shows "folders_of remote (snd (removeFolder f h))
      = (if fst f = remote then filter (\<lambda>p. p \<noteq> snd f) (folders_of remote h) else folders_of remote h)"
proof (cases "map_of (h_data h) (fst f)")
  case (Some l)
  have "length (filter (\<lambda>p. p \<noteq> snd f) l) = length l \<longleftrightarrow> filter (\<lambda>p. p \<noteq> snd f) l = l"
    by (metis filter_id_conv length_filter_less linorder_neq_iff)
  with Some show ?thesis by (auto simp: removeFolder_def folders_of_def update_conv' delete_conv' Let_def)
qed (auto simp: removeFolder_def folders_of_def)

text \<open>The reference: the list of one remote, an added folder comes to the front, only 20 are kept, and a
  removed one leaves the others in their order.\<close>

fun recent_step :: "string \<Rightarrow> string list \<Rightarrow> history_op \<Rightarrow> string list" where
  "recent_step remote l (AddFolders fs) = take 20 (fold bump (map snd (filter (\<lambda>f. fst f = remote) fs)) l)"
| "recent_step remote l (RemoveFolder f) = (if fst f = remote then filter (\<lambda>p. p \<noteq> snd f) l else l)"

lemma folders_step:
  assumes "history_ok h"
  shows "folders_of remote (history_step h e) = recent_step remote (folders_of remote h) e"
proof (cases e)
  case (AddFolders fs)
  have "map (Pair remote) (folders_of remote (addFolders fs h))
      = map (Pair remote) (take 20 (fold bump (map snd (filter (\<lambda>f. fst f = remote) fs)) (folders_of remote h)))"
    using getFolders_add [OF assms, of remote fs] by (simp add: getFolders_def folders_of_def)
  then have "map snd (map (Pair remote) (folders_of remote (addFolders fs h)))
      = map snd (map (Pair remote) (take 20 (fold bump (map snd (filter (\<lambda>f. fst f = remote) fs)) (folders_of remote h))))"
    by (simp only:)
  then show ?thesis by (simp add: AddFolders comp_def)
qed (simp add: folders_remove [OF assms])

lemma folders_run:
  "history_ok h \<Longrightarrow> folders_of remote (foldl history_step h ops) = foldl (recent_step remote) (folders_of remote h) ops"
  by (induction ops arbitrary: h) (simp_all add: folders_step history_machine.inv_step)

lemma remotes_of_data: "data_ok data \<Longrightarrow> set (map fst data) = {r. nullish (map_of data r) [] \<noteq> []}"
proof (intro set_eqI)
  fix r assume ok: "data_ok data"
  show "r \<in> set (map fst data) \<longleftrightarrow> r \<in> {r. nullish (map_of data r) [] \<noteq> []}"
  proof (cases "map_of data r")
    case None
    moreover from this have "r \<notin> set (map fst data)" by (simp add: map_of_eq_None_iff)
    ultimately show ?thesis by simp
  next
    case (Some l)
    then have "r \<in> set (map fst data)" by (force dest: map_of_SomeD)
    with entry_of_data [OF ok Some] Some show ?thesis by (simp add: entry_ok_def)
  qed
qed

lemma filter_keeps_all: "length (filter (\<lambda>p. p \<noteq> x) l) = length l \<longleftrightarrow> x \<notin> set l"
  by (induction l) (auto simp: order.strict_implies_not_eq less_Suc_eq_le)

text \<open>C10. After any sequence of additions and removals on an empty history, a remote's list is the one
  that \<open>recent_step\<close> computes: most recent first, since every added folder of that remote was moved to
  the front, one after the other, and every removed one was taken out without changing the order of
  the others. No folder is listed twice, at most 20 are kept, a remote is listed exactly when it has
  folders, and a removal reports whether the folder was listed.\<close>

theorem recent_folders:
  "let h = foldl history_step empty_history ops in
     getFolders remote h = map (Pair remote) (foldl (recent_step remote) [] ops)
     \<and> distinct (getFolders remote h) \<and> length (getFolders remote h) \<le> 20
     \<and> set (getRemotes h) = {r. getFolders r h \<noteq> []}
     \<and> (fst (removeFolder (remote, folder) h) \<longleftrightarrow> (remote, folder) \<in> set (getFolders remote h))"
proof -
  let ?h = "foldl history_step empty_history ops"
  have ok: "history_ok ?h" by (rule history_machine.inv_run [OF empty_ok])
  have "folders_of remote ?h = foldl (recent_step remote) [] ops"
    using folders_run [OF empty_ok, of remote ops] by (simp add: folders_of_def empty_history_def)
  moreover have "getFolders remote ?h = map (Pair remote) (folders_of remote ?h)" by (simp add: getFolders_def folders_of_def)
  moreover have "distinct (folders_of remote ?h)" using ok distinct_stored by (simp add: history_ok_def folders_of_def)
  moreover have "length (folders_of remote ?h) \<le> 20"
    using ok entry_of_data [of "h_data ?h" remote]
    by (cases "map_of (h_data ?h) remote") (auto simp: history_ok_def folders_of_def entry_ok_def)
  moreover have "set (getRemotes ?h) = {r. getFolders r ?h \<noteq> []}"
    using ok remotes_of_data by (simp add: getRemotes_def getFolders_def history_ok_def)
  moreover have "fst (removeFolder (remote, folder) ?h) \<longleftrightarrow> folder \<in> set (folders_of remote ?h)"
    by (auto simp: removeFolder_def folders_of_def Let_def filter_keeps_all split: option.splits)
  ultimately show ?thesis by (auto simp: Let_def distinct_map inj_on_def)
qed

end
