(* ===== verification/LogTailer.thy ===== *)
theory LogTailer
  imports Utf8
begin

text \<open>
  \<^verbatim>\<open>src/ssh/sshSession/logTailer.ts\<close>: following a log file. The tailer is a machine over the attempts
  to open the file, the watcher's and the timer's callbacks (each with the file's content when it
  is read, \<^term>\<open>None\<close> when it cannot be read) and \<^verbatim>\<open>dispose\<close>. \<open>t_emitted\<close> holds the lines given to
  the callback. A file is a string of UTF-8 bytes, and each read is decoded on its own (\<open>decoded\<close>): a
  character that two reads share is garbled.
\<close>

definition SEEK_BACK_LINES :: nat where "SEEK_BACK_LINES = 200"
definition SEEK_BACK_BYTES :: nat where "SEEK_BACK_BYTES = 16 * 1024"
definition OPEN_TIMEOUT_MS :: nat where "OPEN_TIMEOUT_MS = 2000"

text \<open>\<open>t_deadline\<close> is set while \<^verbatim>\<open>start\<close> waits for the file.\<close>

record tailer =
  t_fd :: bool
  t_offset :: nat
  t_watcher :: bool
  t_pollTimer :: bool
  t_lineBuf :: string
  t_stopped :: bool
  t_deadline :: "nat option"
  t_emitted :: "string list"

definition new_tailer :: tailer where
  "new_tailer = \<lparr>t_fd = False, t_offset = 0, t_watcher = False, t_pollTimer = False, t_lineBuf = [],
     t_stopped = False, t_deadline = None, t_emitted = []\<rparr>"

definition tail_start :: "nat \<Rightarrow> tailer \<Rightarrow> tailer" where
  "tail_start now s = s\<lparr>t_deadline := Some (now + OPEN_TIMEOUT_MS)\<rparr>"

definition seek_back :: "string \<Rightarrow> string list" where
  "seek_back file =
     (let size = length file; readSize = min size SEEK_BACK_BYTES
      in if readSize = 0 then []
         else let text = decoded (take readSize (drop (size - readSize) file));
                  lines = js_split (CHR 0x0A) text;
                  lines1 = (if readSize < size \<and> 1 < length lines then tl lines else lines);
                  lines2 = (if lines1 \<noteq> [] \<and> last lines1 = [] then butlast lines1 else lines1);
                  tail = drop (length lines2 - SEEK_BACK_LINES) lines2
              in filter (\<lambda>l. l \<noteq> []) tail)"

text \<open>One turn of the loop that opens the file, and what follows it; \<open>watchable\<close>: \<^verbatim>\<open>fs.watch\<close> works.\<close>

definition tail_open :: "nat \<Rightarrow> string option \<Rightarrow> bool \<Rightarrow> tailer \<Rightarrow> tailer" where
  "tail_open now file watchable s =
     (case t_deadline s of
        None \<Rightarrow> s
      | Some d \<Rightarrow>
          if d \<le> now then s\<lparr>t_deadline := None\<rparr>
          else (case file of
                  None \<Rightarrow> s
                | Some content \<Rightarrow>
                    s\<lparr>t_deadline := None, t_fd := True, t_emitted := t_emitted s @ seek_back content,
                      t_offset := length content,
                      t_watcher := watchable, t_pollTimer := (t_pollTimer s \<or> \<not> watchable)\<rparr>))"

definition readNew :: "string option \<Rightarrow> tailer \<Rightarrow> tailer" where
  "readNew file s =
     (if t_stopped s \<or> \<not> t_fd s then s
      else case file of
             None \<Rightarrow> s
           | Some content \<Rightarrow>
               if length content \<le> t_offset s then s
               else let buf = t_lineBuf s @ decoded (drop (t_offset s) content); lines = js_split (CHR 0x0A) buf
                    in s\<lparr>t_offset := length content, t_lineBuf := last lines,
                         t_emitted := t_emitted s @ filter (\<lambda>l. l \<noteq> []) (butlast lines)\<rparr>)"

definition startPolling :: "tailer \<Rightarrow> tailer" where
  "startPolling s = s\<lparr>t_pollTimer := True\<rparr>"

definition tail_dispose :: "tailer \<Rightarrow> tailer" where
  "tail_dispose s = s\<lparr>t_stopped := True, t_pollTimer := False, t_watcher := False, t_fd := False\<rparr>"

datatype tail_event = TryOpen nat "string option" bool | WatchFired "string option" | WatchFailed
  | PollFired "string option" | Dispose

fun tail_step :: "tailer \<Rightarrow> tail_event \<Rightarrow> tailer" where
  "tail_step s (TryOpen now file watchable) = tail_open now file watchable s"
| "tail_step s (WatchFired file) = (if t_watcher s then readNew file s else s)"
| "tail_step s WatchFailed = (if t_watcher s then startPolling s else s)"
| "tail_step s (PollFired file) = (if t_pollTimer s then readNew file s else s)"
| "tail_step s Dispose = tail_dispose s"

definition LogTailer :: "nat \<Rightarrow> tail_event list \<Rightarrow> tailer" where
  "LogTailer now es = foldl tail_step (tail_start now new_tailer) es"

section \<open>Following a growing file\<close>

text \<open>The text appended since the file was opened is read in pieces; \<open>append_text\<close> is one read.\<close>

definition append_text :: "tailer \<Rightarrow> string \<Rightarrow> tailer" where
  "append_text s d =
     (let lines = js_split (CHR 0x0A) (t_lineBuf s @ d)
      in if d = [] then s
         else s\<lparr>t_offset := t_offset s + length d, t_lineBuf := last lines,
                t_emitted := t_emitted s @ filter (\<lambda>l. l \<noteq> []) (butlast lines)\<rparr>)"

definition tail_inv :: "tailer \<Rightarrow> bool" where
  "tail_inv s = (CHR 0x0A \<notin> set (t_lineBuf s))"

interpretation tail_stream: chunk_reader append_text tail_inv "\<lambda>s. s"
proof
  fix s :: tailer and a b
  assume inv: "tail_inv s"
  show "tail_inv (append_text s a)"
    using inv last_split_open by (simp add: tail_inv_def append_text_def Let_def)
  show "append_text (append_text s a) b = append_text s (a @ b)"
  proof (cases "a = [] \<or> b = []")
    case True
    then show ?thesis by (auto simp: append_text_def Let_def)
  next
    case False
    have ne: "js_split (CHR 0x0A) (last (js_split (CHR 0x0A) (t_lineBuf s @ a)) @ b) \<noteq> []" by simp
    have "js_split (CHR 0x0A) (t_lineBuf s @ a @ b)
        = butlast (js_split (CHR 0x0A) (t_lineBuf s @ a))
          @ js_split (CHR 0x0A) (last (js_split (CHR 0x0A) (t_lineBuf s @ a)) @ b)"
      using js_split_last [of "CHR 0x0A" "t_lineBuf s @ a" b] by simp
    with False ne show ?thesis
      by (simp add: append_text_def Let_def butlast_append)
  qed
qed

lemma readNew_append:
  "t_fd s \<Longrightarrow> \<not> t_stopped s \<Longrightarrow> length base = t_offset s \<Longrightarrow> whole d \<Longrightarrow> readNew (Some (base @ d)) s = append_text s d"
  by (auto simp: readNew_def append_text_def Let_def)

lemma append_text_kept: "t_fd (append_text s d) = t_fd s" "t_stopped (append_text s d) = t_stopped s"
  "t_watcher (append_text s d) = t_watcher s" "t_pollTimer (append_text s d) = t_pollTimer s"
  "t_offset (append_text s d) = t_offset s + length d"
  by (simp_all add: append_text_def Let_def)

text \<open>The callbacks that see the file grow piece by piece.\<close>

fun growth :: "(string option \<Rightarrow> tail_event) \<Rightarrow> string \<Rightarrow> string list \<Rightarrow> tail_event list" where
  "growth fired base [] = []"
| "growth fired base (d # ds) = fired (Some (base @ d)) # growth fired (base @ d) ds"

lemma growth_reads:
  assumes "\<And>s f. t_watcher s \<Longrightarrow> tail_step s (fired f) = readNew f s"
    and "t_fd s" "\<not> t_stopped s" "t_watcher s" "t_offset s = length base" "\<forall>d \<in> set ds. whole d"
  shows "foldl tail_step s (growth fired base ds) = foldl append_text s ds"
  using assms(2-)
proof (induction ds arbitrary: s base)
  case (Cons d ds)
  have "tail_step s (fired (Some (base @ d))) = append_text s d"
    using assms(1) [of s "Some (base @ d)"] readNew_append [of s base d] Cons.prems by simp
  with Cons.IH [of "append_text s d" "base @ d"] Cons.prems show ?case
    by (simp add: append_text_kept)
qed simp

text \<open>C11. Once the tailer watches the file, every complete line appended later that is not empty is
  emitted exactly once and in order, after the lines of the seek-back, however the growth of the
  file is cut into watch events between characters (each read is decoded by itself); empty lines
  are not emitted.\<close>

theorem tail_emits_appended:
  assumes "now < start + OPEN_TIMEOUT_MS" and "\<forall>d \<in> set ds. whole d"
  shows "t_emitted (LogTailer start (TryOpen now (Some content) True # growth WatchFired content ds))
       = seek_back content @ filter (\<lambda>l. l \<noteq> []) (butlast (js_split (CHR 0x0A) (concat ds)))"
proof -
  define s where "s = tail_step (tail_start start new_tailer) (TryOpen now (Some content) True)"
  have s: "t_fd s" "\<not> t_stopped s" "t_watcher s" "t_offset s = length content" "t_lineBuf s = []"
    "t_emitted s = seek_back content"
    using assms(1) by (simp_all add: s_def tail_start_def tail_open_def new_tailer_def)
  have "LogTailer start (TryOpen now (Some content) True # growth WatchFired content ds)
      = foldl tail_step s (growth WatchFired content ds)"
    by (simp add: LogTailer_def s_def)
  also have "\<dots> = foldl append_text s ds"
    by (rule growth_reads) (use s assms(2) in auto)
  finally have run: "LogTailer start (TryOpen now (Some content) True # growth WatchFired content ds)
      = foldl append_text s ds" .
  show ?thesis
  proof (cases "ds = []")
    case True
    with run s show ?thesis by simp
  next
    case False
    have "tail_inv s" using s by (simp add: tail_inv_def)
    then have "foldl append_text s ds = append_text s (concat ds)"
      using False by (rule tail_stream.feed_all)
    moreover have "t_emitted (append_text s d) = t_emitted s @ filter (\<lambda>l. l \<noteq> []) (butlast (js_split (CHR 0x0A) d))" for d
      using s by (cases "d = []") (simp_all add: append_text_def Let_def)
    ultimately show ?thesis using run s by simp
  qed
qed

theorem tail_emits_appended_witness:
  "t_emitted (LogTailer 0 (TryOpen 5 (Some (''a'' @ [CHR 0x0A])) True
     # growth WatchFired (''a'' @ [CHR 0x0A]) [''b'', ''c'' @ [CHR 0x0A] @ ''d'']))
   = [''a'', ''bc'']"
proof -
  have "(5::nat) < 0 + OPEN_TIMEOUT_MS" by (simp add: OPEN_TIMEOUT_MS_def)
  moreover have "\<forall>d \<in> set [''b'', ''c'' @ [CHR 0x0A] @ ''d'']. whole d" by simp
  ultimately have "t_emitted (LogTailer 0 (TryOpen 5 (Some (''a'' @ [CHR 0x0A])) True
       # growth WatchFired (''a'' @ [CHR 0x0A]) [''b'', ''c'' @ [CHR 0x0A] @ ''d'']))
     = seek_back (''a'' @ [CHR 0x0A])
       @ filter (\<lambda>l. l \<noteq> []) (butlast (js_split (CHR 0x0A) (concat [''b'', ''c'' @ [CHR 0x0A] @ ''d''])))"
    by (rule tail_emits_appended)
  then
  show ?thesis
    by (simp add: seek_back_def SEEK_BACK_BYTES_def SEEK_BACK_LINES_def Let_def)
qed

text \<open>\<^verbatim>\<open>dispose\<close> does not end a wait for the file: the file and its watcher are then opened and stay
  open, although nothing is read any more.\<close>

lemma dispose_while_waiting:
  assumes "now < start + OPEN_TIMEOUT_MS"
  shows "let s = LogTailer start [Dispose, TryOpen now (Some content) True]
         in t_fd s \<and> t_watcher s \<and> t_stopped s \<and> t_emitted s = seek_back content"
  using assms by (simp add: LogTailer_def tail_start_def tail_open_def tail_dispose_def new_tailer_def Let_def)

end
