(* ===== verification/SessionClient.thy ===== *)
theory SessionClient
  imports LocalServer SessionSecret Paths
begin

text \<open>
  \<^verbatim>\<open>src/ssh/sshSession/client.ts\<close>: the client of the local session server. \<open>client\<close> is the state of
  one \<^verbatim>\<open>SshSessionClient\<close>; its methods are promises over the client and the world \<^typ>\<open>'w\<close>. What the
  code asks of the world is \<open>host\<close>: one HTTP request on a socket (its status and whole body, or the
  error of \<^verbatim>\<open>req\<close>), the file system, starting node, whether that process has closed, the clock.
  The log tailer is only started or not here; \<^verbatim>\<open>LogTailer\<close> models it.
\<close>

section \<open>State and surroundings\<close>

record http_request =
  q_method :: string
  q_path :: string
  q_authorization :: string
  q_body :: "string option"

record 'w host =
  http :: "string \<Rightarrow> http_request \<Rightarrow> ('w, nat \<times> string) promise"
  read_file :: "string \<Rightarrow> ('w, string) promise"
  unlink_file :: "string \<Rightarrow> 'w \<Rightarrow> 'w"
  spawn_node :: "string \<Rightarrow> string \<Rightarrow> string \<Rightarrow> 'w \<Rightarrow> nat option \<times> 'w"
  child_closed :: "'w \<Rightarrow> nat option option"
  clock :: "'w \<Rightarrow> nat"
  wait_ms :: "nat \<Rightarrow> 'w \<Rightarrow> 'w"
  random_bytes :: "nat \<Rightarrow> 'w \<Rightarrow> bytes \<times> 'w"
  tmpdir :: string
  windows :: bool

record client_options =
  o_destination :: string
  o_sshCommand :: string
  o_sshArgs :: "string list"
  o_sshEnv :: "(string \<times> string) list option"
  o_serverScriptPath :: string
  o_nodePath :: string
  o_dataDir :: string
  o_handshakeTimeoutMs :: "nat option"

text \<open>The child is its process id once it has been started; \<open>k_socksPort\<close> is what the server said
  (\<^term>\<open>None\<close>: \<^verbatim>\<open>undefined\<close>).\<close>

record client =
  k_serverChild :: "nat option option"
  k_ipcHandlePath :: string
  k_tokenHex :: string
  k_keepalive :: bool
  k_dataFilePath :: string
  k_logFilePath :: string
  k_tailing :: bool
  k_started :: bool
  k_socksPort :: "json option"

definition new_client :: client where
  "new_client = \<lparr>k_serverChild = None, k_ipcHandlePath = [], k_tokenHex = [], k_keepalive = False,
     k_dataFilePath = [], k_logFilePath = [], k_tailing = False, k_started = False,
     k_socksPort = Some (JNum ''0'')\<rparr>"

definition SHUTDOWN_TIMEOUT_MS :: nat where "SHUTDOWN_TIMEOUT_MS = 18000"
definition KEEPALIVE_INTERVAL_MS :: nat where "KEEPALIVE_INTERVAL_MS = 6000"

text \<open>A promise over client and world; \<open>modify\<close> assigns to the client's fields.\<close>

type_synonym ('w, 'a) client_call = "(client \<times> 'w, 'a) promise"

definition modify :: "(client \<Rightarrow> client) \<Rightarrow> ('w, unit) client_call" where
  "modify f s = (Inr (), (f (fst s), snd s))"

text \<open>\<^verbatim>\<open>.catch(() => {})\<close>.\<close>

definition settle_quietly :: "('w, 'a) promise \<Rightarrow> ('w, unit) promise" where
  "settle_quietly m w = (Inr (), snd (m w))"

section \<open>Requests\<close>

definition session_request :: "'w host \<Rightarrow> string \<Rightarrow> string \<Rightarrow> json option \<Rightarrow> ('w, json) client_call" where
  "session_request H routePath verb body s =
     (let (k, w) = s
      in if k_ipcHandlePath k = [] then (Inl (plain_error ''ssh session not started''), s)
         else case http H (k_ipcHandlePath k)
                     \<lparr>q_method = verb, q_path = routePath, q_authorization = ''Bearer '' @ k_tokenHex k,
                      q_body = map_option stringify body\<rparr> w of
           (Inl e, w') \<Rightarrow> (Inl (plain_error (''ssh session '' @ routePath @ '': '' @ err_message e)), (k, w'))
         | (Inr (status, text), w') \<Rightarrow>
             (if 400 \<le> status
              then (Inl (plain_error (''ssh session '' @ routePath @ '' failed ('' @ dec status @ ''): '' @ text)), (k, w'))
              else if text = [] then (Inr (JObj []), (k, w'))
              else case parse_json text of
                     Inl _ \<Rightarrow> (Inl (plain_error (''ssh session '' @ routePath @ '': invalid json response'')), (k, w'))
                   | Inr j \<Rightarrow> (Inr j, (k, w'))))"

definition session_status :: "'w host \<Rightarrow> ('w, json) client_call" where
  "session_status H = session_request H ''/status'' ''GET'' None"

definition client_getSocksPort :: "'w host \<Rightarrow> ('w, json option) client_call" where
  "client_getSocksPort H = await (session_status H) (\<lambda>status s. (json_prop status ''socksPort'', s))"

definition fresh_hex :: "'w host \<Rightarrow> nat \<Rightarrow> ('w, string) client_call" where
  "fresh_hex H n s = (let (bs, w) = random_bytes H n (snd s) in (Inr (hex_encode bs), (fst s, w)))"

definition exec_body :: "string \<Rightarrow> string \<Rightarrow> nat option \<Rightarrow> bool \<Rightarrow> json" where
  "exec_body i command timeoutMs quiet =
     JObj ([(''id'', JStr i), (''command'', JStr command)]
           @ opt_field ''timeoutMs'' (map_option (\<lambda>n. JNum (dec n)) timeoutMs) @ [(''quiet'', JBool quiet)])"

definition client_exec :: "'w host \<Rightarrow> string \<Rightarrow> nat option \<Rightarrow> bool \<Rightarrow> ('w, json) client_call" where
  "client_exec H command timeoutMs quiet =
     await (fresh_hex H 8) (\<lambda>i. session_request H ''/exec'' ''POST'' (Some (exec_body i command timeoutMs quiet)))"

definition put_body :: "string \<Rightarrow> string \<Rightarrow> bytes \<Rightarrow> string option \<Rightarrow> json" where
  "put_body i remotePath content mode =
     JObj ([(''id'', JStr i), (''path'', JStr remotePath), (''content'', JStr (base64_encode content))]
           @ opt_field ''mode'' (map_option JStr mode))"

definition client_putFile :: "'w host \<Rightarrow> string \<Rightarrow> bytes \<Rightarrow> string option \<Rightarrow> ('w, json) client_call" where
  "client_putFile H remotePath content mode =
     await (fresh_hex H 8) (\<lambda>i. session_request H ''/put-file'' ''POST'' (Some (put_body i remotePath content mode)))"

section \<open>Start and stop\<close>

definition data_file_of :: "client_options \<Rightarrow> string" where
  "data_file_of opts = path_join [o_dataDir opts, encodeURIComponent (o_destination opts) @ ''.json'']"

definition log_file_of :: "client_options \<Rightarrow> string" where
  "log_file_of opts = path_join [o_dataDir opts, encodeURIComponent (o_destination opts) @ ''.local-server.log'']"

text \<open>The persistence record: a truthy \<^verbatim>\<open>ipcHandlePath\<close> and a number. A truthy path that is not a
  string makes the next request throw, which \<open>[]\<close> does as well. Numbers are compared by their
  text; both programs write plain decimal integers.\<close>

definition persisted :: "json \<Rightarrow> (string \<times> json) option" where
  "persisted record =
     (case (json_prop record ''ipcHandlePath'', json_prop record ''socksPort'') of
        (Inr ipc, Inr (Some (JNum port))) \<Rightarrow>
          if json_truthy ipc then Some (nullish (json_string ipc) [], JNum port) else None
      | _ \<Rightarrow> None)"

definition exit_ok :: "json option \<Rightarrow> bool" where
  "exit_ok code = (case code of Some JNull \<Rightarrow> True | Some (JNum l) \<Rightarrow> \<not> json_truthy (Some (JNum l)) | _ \<Rightarrow> False)"

definition attach_quietly :: "'w host \<Rightarrow> ('w, unit) client_call" where
  "attach_quietly H = settle_quietly (session_request H ''/attach'' ''POST'' None)"

definition after_probe :: "'w host \<Rightarrow> json \<Rightarrow> json \<Rightarrow> ('w, json option) client_call" where
  "after_probe H status probe =
     (case json_prop probe ''exitCode'' of
        Inl e \<Rightarrow> reject e
      | Inr code \<Rightarrow>
          if \<not> exit_ok code then reject (plain_error ''probe exited'')
          else await (attach_quietly H) (\<lambda>_. resolve (Some status)))"

definition after_status :: "'w host \<Rightarrow> json \<Rightarrow> json \<Rightarrow> ('w, json option) client_call" where
  "after_status H port status =
     (case (json_prop status ''sshAlive'', json_prop status ''socksPort'') of
        (Inr alive, Inr p) \<Rightarrow>
          if \<not> json_truthy alive \<or> p \<noteq> Some port then resolve None
          else await (client_exec H ''true'' (Some 5000) True) (after_probe H status)
      | _ \<Rightarrow> reject type_error)"

definition check_server :: "'w host \<Rightarrow> json \<Rightarrow> ('w, json option) client_call" where
  "check_server H port = await (session_status H) (after_status H port)"

definition tryReconnect :: "'w host \<Rightarrow> client \<times> 'w \<Rightarrow> json option \<times> client \<times> 'w" where
  "tryReconnect H s =
     (let (k, w) = s
      in case read_file H (k_dataFilePath k) w of
           (Inl _, w1) \<Rightarrow> (None, k, w1)
         | (Inr raw, w1) \<Rightarrow>
             (case parse_json raw of
                Inl _ \<Rightarrow> (None, k, w1)
              | Inr record \<Rightarrow>
                  (case persisted record of
                     None \<Rightarrow> (None, k, w1)
                   | Some (ipc, port) \<Rightarrow>
                       (case check_server H port (k\<lparr>k_ipcHandlePath := ipc, k_socksPort := Some port\<rparr>, w1) of
                          (Inr status, s2) \<Rightarrow> (status, s2)
                        | (Inl _, (k2, w2)) \<Rightarrow> (None, k2, unlink_file H (k_dataFilePath k2) w2)))))"

definition generateIpcPath :: "'w host \<Rightarrow> ('w, string) client_call" where
  "generateIpcPath H =
     await (fresh_hex H 16) (\<lambda>i. resolve
       (if windows H then [CHR 0x5C, CHR 0x5C] @ ''.'' @ [CHR 0x5C] @ ''pipe'' @ [CHR 0x5C] @ ''aergic-ssh-session-'' @ i
        else path_join [tmpdir H, ''aergic-ssh-session-'' @ i @ ''.sock'']))"

definition strings_json :: "string list \<Rightarrow> json" where
  "strings_json ss = JArr (map JStr ss)"

definition env_json :: "(string \<times> string) list \<Rightarrow> json" where
  "env_json kvs = JObj (map (\<lambda>(n, v). (n, JStr v)) kvs)"

definition session_config :: "client_options \<Rightarrow> client \<Rightarrow> json" where
  "session_config opts k =
     JObj ([(''ipcHandlePath'', JStr (k_ipcHandlePath k)), (''sshCommand'', JStr (o_sshCommand opts)),
            (''sshArgs'', strings_json (o_sshArgs opts @ [o_destination opts, ''sh'']))]
           @ opt_field ''sshEnv'' (map_option env_json (o_sshEnv opts))
           @ [(''dataFilePath'', JStr (k_dataFilePath k)), (''logFilePath'', JStr (k_logFilePath k)),
              (''shutdownTimeoutMs'', JNum (dec SHUTDOWN_TIMEOUT_MS)),
              (''keepaliveIntervalMs'', JNum (dec KEEPALIVE_INTERVAL_MS))]
           @ opt_field ''handshakeTimeoutMs'' (map_option (\<lambda>n. JNum (dec n)) (o_handshakeTimeoutMs opts)))"

definition server_stdin :: "client_options \<Rightarrow> client \<Rightarrow> string" where
  "server_stdin opts k =
     stringify (JObj [(''config'', session_config opts k), (''token'', JStr (k_tokenHex k))]) @ [CHR 0x0A]"

definition spawn_server :: "'w host \<Rightarrow> client_options \<Rightarrow> ('w, unit) client_call" where
  "spawn_server H opts s =
     (let (k, w) = s; (pid, w') = spawn_node H (o_nodePath opts) (o_serverScriptPath opts) (server_stdin opts k) w
      in (Inr (), (k\<lparr>k_serverChild := Some pid\<rparr>, w')))"

definition startLogTailer :: "client \<Rightarrow> client" where
  "startLogTailer k = (if k_tailing k \<or> k_logFilePath k = [] then k else k\<lparr>k_tailing := True\<rparr>)"

definition stopLogTailer :: "client \<Rightarrow> client" where
  "stopLogTailer k = k\<lparr>k_tailing := False\<rparr>"

definition startKeepalive :: "client \<Rightarrow> client" where
  "startKeepalive k = k\<lparr>k_keepalive := True\<rparr>"

definition stopKeepalive :: "client \<Rightarrow> client" where
  "stopKeepalive k = k\<lparr>k_keepalive := False\<rparr>"

text \<open>\<^verbatim>\<open>waitForReady\<close> raced against the exit of the server. Each failed poll is followed by a wait of
  500 ms, so that 120 polls use up the 60 s; the race is lost when the process has closed before a
  poll or after one that failed.\<close>

definition READY_POLLS :: nat where "READY_POLLS = 120"

definition exited_error :: "nat option \<Rightarrow> js_error" where
  "exited_error code = plain_error (''ssh session server exited before ready (code=''
      @ (case code of None \<Rightarrow> ''null'' | Some n \<Rightarrow> dec n) @ '')'')"

definition not_ready_error :: js_error where
  "not_ready_error = plain_error ''ssh session server failed to become ready within 60s''"

fun wait_ready :: "nat \<Rightarrow> 'w host \<Rightarrow> nat \<Rightarrow> ('w, unit) client_call" where
  "wait_ready 0 H deadline s = (Inl not_ready_error, s)"
| "wait_ready (Suc n) H deadline s =
     (case child_closed H (snd s) of
        Some code \<Rightarrow> (Inl (exited_error code), s)
      | None \<Rightarrow>
          if deadline \<le> clock H (snd s) then (Inl not_ready_error, s)
          else (case session_status H s of
                  (Inr _, s') \<Rightarrow> (Inr (), s')
                | (Inl _, s') \<Rightarrow>
                    (case child_closed H (snd s') of
                       Some code \<Rightarrow> (Inl (exited_error code), s')
                     | None \<Rightarrow> wait_ready n H deadline (fst s', wait_ms H 500 (snd s')))))"

definition client_waitForReady :: "'w host \<Rightarrow> ('w, unit) client_call" where
  "client_waitForReady H s = wait_ready READY_POLLS H (clock H (snd s) + 60000) s"

text \<open>After the server has been spawned: waiting for it, asking for its port, attaching.\<close>

definition attach_to_server :: "'w host \<Rightarrow> ('w, unit) client_call" where
  "attach_to_server H =
     await (client_waitForReady H) (\<lambda>_.
     await (client_getSocksPort H) (\<lambda>port.
     await (modify (\<lambda>k. k\<lparr>k_socksPort := port\<rparr>)) (\<lambda>_.
     await (attach_quietly H) (\<lambda>_.
     modify (\<lambda>k. (startKeepalive k)\<lparr>k_started := True\<rparr>)))))"

definition fresh_server :: "'w host \<Rightarrow> client_options \<Rightarrow> ('w, unit) client_call" where
  "fresh_server H opts =
     await (generateIpcPath H) (\<lambda>ipc.
     await (modify (\<lambda>k. k\<lparr>k_ipcHandlePath := ipc\<rparr>)) (\<lambda>_.
     await (spawn_server H opts) (\<lambda>_.
     await (modify startLogTailer) (\<lambda>_. attach_to_server H))))"

definition client_start :: "'w host \<Rightarrow> crypto \<Rightarrow> secret_module \<Rightarrow> client_options \<Rightarrow> ('w, unit) client_call" where
  "client_start H C sec opts s =
     (let (k, w) = s; k1 = k\<lparr>k_dataFilePath := data_file_of opts\<rparr>
      in if k_started k then (Inr (), s)
         else case deriveSshSessionToken C (o_destination opts) sec of
                Inl e \<Rightarrow> (Inl e, (k1, w))
              | Inr token \<Rightarrow>
                  (case tryReconnect H (k1\<lparr>k_tokenHex := hex_encode token, k_logFilePath := log_file_of opts\<rparr>, w) of
                     (Some _, k2, w2) \<Rightarrow> (Inr (), (startLogTailer (startKeepalive (k2\<lparr>k_started := True\<rparr>)), w2))
                   | (None, k2, w2) \<Rightarrow> fresh_server H opts (k2, w2)))"

definition client_stop :: "'w host \<Rightarrow> ('w, unit) client_call" where
  "client_stop H s =
     (if \<not> k_started (fst s) then (Inr (), s)
      else await (modify (\<lambda>k. stopLogTailer (stopKeepalive k))) (\<lambda>_.
           await (settle_quietly (session_request H ''/detach'' ''POST'' None)) (\<lambda>_.
           modify (\<lambda>k. k\<lparr>k_started := False\<rparr>))) s)"

definition keepalive_tick :: "'w host \<Rightarrow> ('w, unit) client_call" where
  "keepalive_tick H s =
     (if \<not> k_keepalive (fst s) then (Inr (), s)
      else case session_request H ''/delay-shutdown'' ''POST'' None s of
             (Inr _, s') \<Rightarrow> (Inr (), s')
           | (Inl _, (k, w)) \<Rightarrow> (Inr (), (stopKeepalive k, w)))"

section \<open>Client and server together\<close>

text \<open>The local server as the client sees it: the request goes through \<open>handleRequest\<close>; a job runs in the
  shell, whose output (\<open>outputs\<close>) arrives in some pieces, and its result becomes the response.\<close>

definition request_of :: "http_request \<Rightarrow> req" where
  "request_of q = \<lparr>r_authorization = Some (q_authorization q), r_pathname = Some (q_path q), r_body = nullish (q_body q) []\<rparr>"

definition response_of :: "answer \<Rightarrow> (nat \<times> string) option" where
  "response_of a = (case a of Respond status body \<Rightarrow> Some (status, stringify body) | _ \<Rightarrow> None)"

definition serve_http :: "bool \<Rightarrow> nat \<Rightarrow> server \<Rightarrow> (job \<Rightarrow> string list) \<Rightarrow> http_request \<Rightarrow> (nat \<times> string) option" where
  "serve_http win now s outputs q =
     (case snd (handleRequest win now s (request_of q)) of
        Run j \<Rightarrow>
          (case results (runShellCommand True (Submit j # map (\<lambda>c. Shell (Output c)) (outputs j))) of
             [(j', r)] \<Rightarrow> response_of (job_response j' r)
           | _ \<Rightarrow> None)
      | a \<Rightarrow> response_of a)"

lemma session_token_accepted:
  assumes "token \<noteq> []" "tokenHex s = hex_encode token"
  shows "validToken s (Some (hex_encode token))"
proof -
  obtain b bs where "token = b # bs" using assms(1) by (cases token) auto
  then have "hex_encode token \<noteq> []" by (simp add: hex_encode_def hex_byte_def)
  with assms(2) show ?thesis by (simp add: validToken_def timingSafeTokenCompare_def)
qed

lemma exec_body_read:
  "parse_json (stringify (exec_body i command timeoutMs quiet)) = Inr (exec_body i command timeoutMs quiet)"
  by (rule parse_stringify) (auto simp: exec_body_def opt_field_def split: option.splits)

definition exec_job :: "string \<Rightarrow> string \<Rightarrow> nat option \<Rightarrow> job" where
  "exec_job i command timeoutMs =
     \<lparr>j_id = JStr i, j_marker = exit_marker (JStr i), j_cmd = exec_command (JStr i) command,
      j_timeout = map_option (\<lambda>n. JNum (dec n)) timeoutMs\<rparr>"

lemma exec_body_handled:
  assumes "i \<noteq> []"
  shows "handleExec (stringify (exec_body i command timeoutMs quiet)) = Run (exec_job i command timeoutMs)"
proof -
  let ?b = "exec_body i command timeoutMs quiet"
  have "json_prop ?b ''id'' = Inr (Some (JStr i))" "json_prop ?b ''command'' = Inr (Some (JStr command))"
    "json_prop ?b ''timeoutMs'' = Inr (map_option (\<lambda>n. JNum (dec n)) timeoutMs)"
    by (cases timeoutMs; simp add: exec_body_def json_prop_def opt_field_def)+
  with assms show ?thesis
    by (simp add: handleExec_def exec_body_read json_string_def json_truthy_def exec_job_def)
qed

lemma exec_request_handled:
  assumes "token \<noteq> []" "tokenHex s = hex_encode token" "i \<noteq> []"
  shows "handleRequest win now s (request_of \<lparr>q_method = ''POST'', q_path = ''/exec'',
            q_authorization = ''Bearer '' @ hex_encode token, q_body = Some (stringify (exec_body i command timeoutMs quiet))\<rparr>)
       = (s, Run (exec_job i command timeoutMs))"
  using exec_body_handled [OF assms(3)] session_token_accepted [OF assms(1,2)]
  by (subst handleRequest_accepted [where p = "hex_encode token" and path = "''/exec''"])
    (simp_all add: request_of_def route_def)

lemma shell_runs_job:
  assumes "NL \<notin> set (j_marker j)" "quiet_output (j_marker j) out"
    and "concat cs = shell_prints (j_marker j) out code" "\<forall>c \<in> set cs. c \<noteq> [] \<and> whole c"
  shows "results (runShellCommand True (Submit j # map (\<lambda>c. Shell (Output c)) cs))
       = [(j, Inr \<lparr>sh_stdout = drop_newline out, sh_exitCode = code\<rparr>)]"
proof -
  let ?s = "shell_init\<lparr>running := Some (j, reader_init), stdin_log := [j_cmd j]\<rparr>"
  have "cs \<noteq> []" using assms(3) by (auto simp: shell_prints_def)
  then have "foldl (queue_step True) ?s (map (\<lambda>c. Shell (Output c)) cs)
      = start_next True (waiting ?s) (?s\<lparr>results := results ?s @ [(j, Inr \<lparr>sh_stdout = drop_newline out, sh_exitCode = code\<rparr>)]\<rparr>)"
    using queue_one_job [OF assms(1,2,4), of reader_init code ?s True] assms(3) by (simp add: reader_init_def)
  moreover have "queue_step True shell_init (Submit j) = ?s"
    by (simp add: shell_init_def)
  ultimately show ?thesis by (simp add: runShellCommand_def shell_init_def)
qed

definition exec_response :: "string \<Rightarrow> string \<Rightarrow> nat \<Rightarrow> json" where
  "exec_response i out code =
     JObj [(''id'', JStr i), (''stdout'', JStr out), (''stderr'', JStr []), (''exitCode'', JNum (dec code)), (''signal'', JNull)]"

lemma exec_served:
  assumes "token \<noteq> []" "tokenHex s = hex_encode token" "i \<noteq> []"
    and "NL \<notin> set (exit_marker (JStr i))" "quiet_output (exit_marker (JStr i)) out"
    and "concat (outputs (exec_job i command timeoutMs)) = shell_prints (exit_marker (JStr i)) out code"
    and "\<forall>c \<in> set (outputs (exec_job i command timeoutMs)). c \<noteq> [] \<and> whole c"
  shows "serve_http win now s outputs \<lparr>q_method = ''POST'', q_path = ''/exec'',
            q_authorization = ''Bearer '' @ hex_encode token, q_body = Some (stringify (exec_body i command timeoutMs quiet))\<rparr>
       = Some (200, stringify (exec_response i (drop_newline out) code))"
proof -
  have "j_marker (exec_job i command timeoutMs) = exit_marker (JStr i)" "j_id (exec_job i command timeoutMs) = JStr i"
    by (simp_all add: exec_job_def)
  then show ?thesis
    using shell_runs_job [of "exec_job i command timeoutMs" out "outputs (exec_job i command timeoutMs)" code] assms(4-7)
    unfolding serve_http_def exec_request_handled [OF assms(1-3)]
    by (simp add: job_response_def response_of_def exec_response_def)
qed

lemma exec_response_read: "parse_json (stringify (exec_response i out code)) = Inr (exec_response i out code)"
  by (rule parse_stringify) (simp add: exec_response_def)

lemma marker_of_hex: "NL \<notin> set (exit_marker (JStr (hex_encode bs)))"
proof -
  have "c \<noteq> NL" if c: "c \<in> set (hex_encode bs)" for c
  proof -
    obtain b where "b \<in> set bs" "c \<in> set (hex_byte b)" using c by (auto simp: hex_encode_def)
    then have "c = hex_char (unat b div 16) \<or> c = hex_char (unat b mod 16)" by (auto simp: hex_byte_def)
    moreover have "unat b div 16 < 16" "unat b mod 16 < 16"
      using unat_byte_less [of b] by (auto simp: less_mult_imp_div_less)
    moreover have "hex_char n \<noteq> NL" if "n < 16" for n
      using hex_val_char [OF that] by (auto simp: hex_val_def)
    ultimately show ?thesis by metis
  qed
  then show ?thesis by (auto simp: exit_marker_def EXIT_PREFIX_def EXIT_SUFFIX_def)
qed

text \<open>C12. A command run through client, server and shell: with the session's token, and a world that
  hands the client's requests to the server, \<^verbatim>\<open>exec\<close> resolves with exactly what the command printed
  (less one leading newline) and its exit code, however the shell's output is cut into events between
  characters (each event is decoded by itself), if no line of the output looks like the exit marker.\<close>

theorem session_exec:
  assumes "k_ipcHandlePath k \<noteq> []" "k_tokenHex k = hex_encode token" "token \<noteq> []" "tokenHex srv = k_tokenHex k"
    and "random_bytes H 8 w = (bs, w1)" "bs \<noteq> []"
    and "quiet_output (exit_marker (JStr (hex_encode bs))) out"
    and "concat (outputs (exec_job (hex_encode bs) command timeoutMs))
           = shell_prints (exit_marker (JStr (hex_encode bs))) out code"
    and "\<forall>c \<in> set (outputs (exec_job (hex_encode bs) command timeoutMs)). c \<noteq> [] \<and> whole c"
    and "\<And>q a. serve_http win now srv outputs q = Some a \<Longrightarrow> http H (k_ipcHandlePath k) q w1 = (Inr a, w2)"
  shows "client_exec H command timeoutMs quiet (k, w)
       = (Inr (JObj [(''id'', JStr (hex_encode bs)), (''stdout'', JStr (drop_newline out)), (''stderr'', JStr []),
                     (''exitCode'', JNum (dec code)), (''signal'', JNull)]), (k, w2))"
proof -
  have i: "hex_encode bs \<noteq> []" using assms(6) by (cases bs) (simp_all add: hex_encode_def hex_byte_def)
  have tok: "tokenHex srv = hex_encode token" using assms(2,4) by simp
  have served: "serve_http win now srv outputs \<lparr>q_method = ''POST'', q_path = ''/exec'',
            q_authorization = ''Bearer '' @ hex_encode token,
            q_body = Some (stringify (exec_body (hex_encode bs) command timeoutMs quiet))\<rparr>
       = Some (200, stringify (exec_response (hex_encode bs) (drop_newline out) code))"
    by (rule exec_served [OF assms(3) tok i marker_of_hex]) (rule assms(7-9))+
  have nonempty: "stringify (exec_response (hex_encode bs) (drop_newline out) code) \<noteq> []"
    by (simp add: exec_response_def)
  show ?thesis
    using assms(1,2,5) assms(10) [OF served] nonempty exec_response_read
    by (simp add: client_exec_def await_def fresh_hex_def session_request_def Let_def exec_response_def)
qed

definition demo_server :: server where
  "demo_server = createServerState \<lparr>ipcHandlePath = ''/s'', sshArgs = [], dataFilePath = [], shutdownTimeoutMs = 0\<rparr>
     (hex_encode [7]) None 0"

definition demo_host :: "(job \<Rightarrow> string list) \<Rightarrow> unit host" where
  "demo_host outputs =
     \<lparr>http = (\<lambda>ipc q w. case serve_http False 0 demo_server outputs q of
                None \<Rightarrow> (Inl (plain_error ''socket hang up''), w) | Some a \<Rightarrow> (Inr a, w)),
      read_file = (\<lambda>p w. (Inl (plain_error ''ENOENT''), w)), unlink_file = (\<lambda>p w. w),
      spawn_node = (\<lambda>n p c w. (Some 1, w)), child_closed = (\<lambda>w. None), clock = (\<lambda>w. 0), wait_ms = (\<lambda>n w. w),
      random_bytes = (\<lambda>n w. (replicate n 1, w)), tmpdir = ''/tmp'', windows = False\<rparr>"

definition demo_client :: client where
  "demo_client = new_client\<lparr>k_ipcHandlePath := ''/s'', k_tokenHex := hex_encode [7]\<rparr>"

theorem session_exec_witness:
  "client_exec (demo_host (\<lambda>j. [''hi'', NL # j_marker j, '':0'' @ [NL]])) ''id'' None False (demo_client, ())
   = (Inr (JObj [(''id'', JStr (hex_encode (replicate 8 1))), (''stdout'', JStr ''hi''), (''stderr'', JStr []),
                 (''exitCode'', JNum ''0''), (''signal'', JNull)]), (demo_client, ()))"
proof -
  let ?o = "\<lambda>j. [''hi'', NL # j_marker j, '':0'' @ [NL]]"
  have w: "whole (NL # exit_marker (JStr (hex_encode (replicate 8 1))))" by code_simp
  have "client_exec (demo_host ?o) ''id'' None False (demo_client, ())
       = (Inr (JObj [(''id'', JStr (hex_encode (replicate 8 1))), (''stdout'', JStr (drop_newline ''hi'')), (''stderr'', JStr []),
                     (''exitCode'', JNum (dec 0)), (''signal'', JNull)]), (demo_client, ()))"
    using w by (intro session_exec [where token = "[7]" and srv = demo_server and outputs = ?o and win = False and now = 0])
      (simp_all add: demo_client_def demo_server_def createServerState_def demo_host_def quiet_output_def marker_code_def
         exit_marker_def EXIT_PREFIX_def exec_job_def shell_prints_def dec.simps)
  then show ?thesis by (simp add: drop_newline_def dec.simps)
qed

section \<open>The configuration reaches the server\<close>

lemma line_settled:
  "\<not> l_listening s \<Longrightarrow> l_verdict s = Some v \<Longrightarrow> l_verdict (foldl line_event s (map Text cs @ [InputEnd])) = Some v"
  by (induction cs) simp_all

lemma line_read:
  assumes "NL \<notin> set line"
  shows "l_listening s \<Longrightarrow> l_verdict s = None \<Longrightarrow> NL \<notin> set (l_buf s) \<Longrightarrow> l_buf s @ concat cs = line @ [NL] \<Longrightarrow> \<forall>c \<in> set cs. whole c
     \<Longrightarrow> l_verdict (foldl line_event s (map Text cs @ [InputEnd])) = Some (Inr (trim line))"
proof (induction cs arbitrary: s)
  case Nil
  then have "NL \<in> set (l_buf s)" by simp
  with Nil show ?case by simp
next
  case (Cons c cs)
  show ?case
  proof (cases "NL \<in> set (l_buf s @ c)")
    case False
    then have "line_event s (Text c) = s\<lparr>l_buf := l_buf s @ c\<rparr>"
      using Cons.prems by (simp add: Let_def)
    with Cons.IH [of "s\<lparr>l_buf := l_buf s @ c\<rparr>"] Cons.prems False show ?thesis by simp
  next
    case True
    obtain x y where xy: "l_buf s @ c = x @ NL # y" "NL \<notin> set x" using True by (metis split_list_first)
    then have "x @ NL # (y @ concat cs) = line @ NL # []"
      using Cons.prems(4) by (metis append.assoc append_Cons concat.simps(2))
    then have "takeWhile (\<lambda>d. d \<noteq> NL) (x @ NL # (y @ concat cs)) = takeWhile (\<lambda>d. d \<noteq> NL) (line @ NL # [])" by simp
    moreover have "takeWhile (\<lambda>d. d \<noteq> NL) (a @ NL # b) = a" if "NL \<notin> set a" for a b
      using that by (induction a) auto
    ultimately have "x = line" using xy(2) assms by simp
    with xy Cons.prems have "\<not> l_listening (line_event s (Text c)) \<and> l_verdict (line_event s (Text c)) = Some (Inr (trim line))"
      by (simp add: Let_def index_of_append)
    then show ?thesis using line_settled [of "line_event s (Text c)"] by simp
  qed
qed

lemma object_trimmed: "trimmed (stringify (JObj kvs))"
  by (simp add: trimmed_def is_space_def)

text \<open>The server that the client starts reads, from its standard input in whatever pieces it
  arrives between characters, exactly the client's configuration and token.\<close>

theorem session_handover:
  assumes "concat cs = server_stdin opts k" and "k_tokenHex k \<noteq> []" and "\<forall>c \<in> set cs. whole c"
  shows "\<exists>line. readStdinLine (map Text cs @ [InputEnd]) = Some (Inr line)
       \<and> main_config line = Inr (Some (session_config opts k), k_tokenHex k)"
proof -
  let ?j = "JObj [(''config'', session_config opts k), (''token'', JStr (k_tokenHex k))]"
  have ok: "json_ok ?j"
    by (auto simp: session_config_def opt_field_def strings_json_def env_json_def list_all_iff split: option.splits)
  have "readStdinLine (map Text cs @ [InputEnd]) = Some (Inr (trim (stringify ?j)))"
    unfolding readStdinLine_def
    by (rule line_read [OF stringify_no_newline [OF ok]]) (simp_all add: line_init_def assms(1,3) server_stdin_def)
  moreover have "main_config (stringify ?j) = Inr (Some (session_config opts k), k_tokenHex k)"
    using assms(2) unfolding main_config_def parse_stringify [OF ok] by (simp add: json_prop_def json_string_def)
  ultimately show ?thesis using trim_trimmed [OF object_trimmed] by metis
qed

section \<open>What a start leaves behind\<close>

text \<open>Requests only change the world; reconnecting only assigns the socket and the port.\<close>

lemma request_frame: "fst (snd (session_request H routePath verb body s)) = fst s"
  by (auto simp: session_request_def Let_def split: prod.splits sum.splits)

lemma quietly_frame: "fst (snd (settle_quietly (session_request H routePath verb body) s)) = fst s"
  by (simp add: settle_quietly_def request_frame)

lemma await_frame:
  assumes "P (snd (m s))" and "\<And>x s'. P s' \<Longrightarrow> P (snd (f x s'))"
  shows "P (snd (await m f s))"
  using assms by (auto simp: await_def split: prod.splits sum.splits)

lemma fresh_hex_frame: "fst (snd (fresh_hex H n s)) = fst s"
  by (simp add: fresh_hex_def split: prod.splits)

lemma exec_frame: "fst (snd (client_exec H command timeoutMs quiet s)) = fst s"
  unfolding client_exec_def
  by (rule await_frame [where P = "\<lambda>s'. fst s' = fst s"]) (simp_all add: fresh_hex_frame request_frame)

lemma after_probe_frame: "fst (snd (after_probe H status probe s)) = fst s"
proof -
  have "fst (snd (await (attach_quietly H) (\<lambda>_. resolve (Some status)) s)) = fst s"
    by (rule await_frame [where P = "\<lambda>s'. fst s' = fst s"]) (simp_all add: attach_quietly_def quietly_frame resolve_def)
  then show ?thesis by (simp add: after_probe_def reject_def split: sum.splits)
qed

lemma after_status_frame: "fst (snd (after_status H port status s)) = fst s"
proof -
  have "fst (snd (await (client_exec H ''true'' (Some 5000) True) (after_probe H status) s)) = fst s"
    by (rule await_frame [where P = "\<lambda>s'. fst s' = fst s"]) (simp_all add: exec_frame after_probe_frame)
  then show ?thesis by (simp add: after_status_def reject_def resolve_def split: sum.splits)
qed

lemma check_frame: "fst (snd (check_server H port s)) = fst s"
  unfolding check_server_def session_status_def
  by (rule await_frame [where P = "\<lambda>s'. fst s' = fst s"]) (simp_all add: request_frame after_status_frame)

definition lifecycle :: "client \<Rightarrow> bool \<times> bool \<times> bool \<times> string" where
  "lifecycle k = (k_started k, k_keepalive k, k_tailing k, k_logFilePath k)"

lemma reconnect_frame: "lifecycle (fst (snd (tryReconnect H s))) = lifecycle (fst s)"
proof -
  obtain k w where s: "s = (k, w)" by (cases s)
  have "lifecycle (fst (snd (check_server H port (k\<lparr>k_ipcHandlePath := ipc, k_socksPort := p\<rparr>, w1)))) = lifecycle k"
    for port ipc p w1
    by (simp add: check_frame lifecycle_def)
  then show ?thesis
    unfolding tryReconnect_def s
    by (auto simp: Let_def split: prod.splits sum.splits option.splits) (metis fst_conv snd_conv)+
qed

lemma wait_frame: "fst (snd (wait_ready n H deadline s)) = fst s"
proof (induction n arbitrary: s)
  case (Suc n)
  have "fst (snd (session_status H s)) = fst s" by (simp add: session_status_def request_frame)
  with Suc show ?case by (auto split: option.splits prod.splits sum.splits)
qed simp

lemma path_join_ne: "path_join ps \<noteq> []"
  by (auto simp: path_join_def posix_normalize_def Let_def)

lemma ipc_frame: "\<exists>ipc w'. generateIpcPath H (k, w) = (Inr ipc, (k, w'))"
  by (simp add: generateIpcPath_def await_def fresh_hex_def resolve_def split: prod.splits)

lemma attach_outcome:
  assumes "attach_to_server H s = (r, s')"
  shows "k_tailing (fst s') = k_tailing (fst s) \<and> k_serverChild (fst s') = k_serverChild (fst s) \<and>
    (case r of Inr _ \<Rightarrow> k_started (fst s') \<and> k_keepalive (fst s')
             | Inl _ \<Rightarrow> k_started (fst s') = k_started (fst s) \<and> k_keepalive (fst s') = k_keepalive (fst s))"
proof -
  obtain r1 s1 where 1: "client_waitForReady H s = (r1, s1)" by (cases "client_waitForReady H s")
  then have f1: "fst s1 = fst s" using wait_frame by (metis client_waitForReady_def snd_conv)
  show ?thesis
  proof (cases r1)
    case (Inl e)
    with 1 assms f1 show ?thesis by (auto simp: attach_to_server_def await_def)
  next
    case (Inr u)
    obtain r2 s2 where 2: "client_getSocksPort H s1 = (r2, s2)" by (cases "client_getSocksPort H s1")
    have "fst (snd (client_getSocksPort H s1)) = fst s1"
      unfolding client_getSocksPort_def session_status_def
      by (rule await_frame [where P = "\<lambda>s'. fst s' = fst s1"]) (simp_all add: request_frame)
    with 2 f1 have f2: "fst s2 = fst s" by simp
    show ?thesis
    proof (cases r2)
      case (Inl e)
      with 1 2 Inr assms f2 show ?thesis by (auto simp: attach_to_server_def await_def)
    next
      case Inr2: (Inr port)
      obtain s4 where 4: "attach_quietly H ((fst s2)\<lparr>k_socksPort := port\<rparr>, snd s2) = (Inr (), s4)"
        by (simp add: attach_quietly_def settle_quietly_def)
      have "fst s4 = (fst s2)\<lparr>k_socksPort := port\<rparr>"
        using 4 quietly_frame by (metis attach_quietly_def fst_conv snd_conv)
      with 1 2 4 Inr Inr2 assms f2 show ?thesis
        by (auto simp: attach_to_server_def await_def modify_def startKeepalive_def)
    qed
  qed
qed

lemma fresh_server_steps:
  "\<exists>ipc pid w2. fresh_server H opts (k, w)
     = attach_to_server H (startLogTailer (k\<lparr>k_ipcHandlePath := ipc, k_serverChild := Some pid\<rparr>), w2)"
proof -
  obtain ipc w1 where "generateIpcPath H (k, w) = (Inr ipc, (k, w1))" using ipc_frame [of H k w] by blast
  then show ?thesis
    by (cases "spawn_node H (o_nodePath opts) (o_serverScriptPath opts) (server_stdin opts (k\<lparr>k_ipcHandlePath := ipc\<rparr>)) w1")
      (auto simp: fresh_server_def await_def modify_def spawn_server_def)
qed

text \<open>A start either resolves, with the client started, its keep-alive timer set and the server's
  log followed, or rejects with the client not started. After a rejection \<^verbatim>\<open>stop\<close> does nothing, so
  that a log tailer that was started for a server that never became ready runs on.\<close>

theorem session_start_outcome:
  assumes "client_start H C sec opts (k, w) = (r, (k', w'))"
    and "lifecycle k = (False, False, False, l)" "k_serverChild k = None"
  shows "(r = Inr () \<and> k_started k' \<and> k_keepalive k' \<and> k_tailing k')
    \<or> ((\<exists>e. r = Inl e) \<and> \<not> k_started k' \<and> \<not> k_keepalive k' \<and> client_stop H (k', w') = (Inr (), (k', w'))
        \<and> (k_tailing k' \<longleftrightarrow> k_serverChild k' \<noteq> None))"
proof -
  have new: "\<not> k_started k" "\<not> k_keepalive k" "\<not> k_tailing k" using assms(2) by (simp_all add: lifecycle_def)
  show ?thesis
  proof (cases "deriveSshSessionToken C (o_destination opts) sec")
    case (Inl e)
    with assms new show ?thesis by (auto simp: client_start_def client_stop_def Let_def)
  next
    case (Inr token)
    define k1 where "k1 = k\<lparr>k_dataFilePath := data_file_of opts, k_tokenHex := hex_encode token, k_logFilePath := log_file_of opts\<rparr>"
    obtain st k2 w2 where t: "tryReconnect H (k1, w) = (st, k2, w2)" by (cases "tryReconnect H (k1, w)") auto
    have log: "log_file_of opts \<noteq> []" by (simp add: log_file_of_def path_join_ne)
    have l2: "\<not> k_started k2" "\<not> k_keepalive k2" "\<not> k_tailing k2" "k_logFilePath k2 = log_file_of opts"
      using reconnect_frame [of H "(k1, w)"] t new by (simp_all add: lifecycle_def k1_def)
    show ?thesis
    proof (cases st)
      case (Some x)
      with assms(1) Inr t l2 log new show ?thesis
        by (auto simp: client_start_def Let_def k1_def startLogTailer_def startKeepalive_def)
    next
      case None
      with assms(1) Inr t new have f: "fresh_server H opts (k2, w2) = (r, (k', w'))"
        by (auto simp: client_start_def Let_def k1_def)
      obtain ipc pid w3 where "fresh_server H opts (k2, w2)
          = attach_to_server H (startLogTailer (k2\<lparr>k_ipcHandlePath := ipc, k_serverChild := Some pid\<rparr>), w3)"
        using fresh_server_steps [of H opts k2 w2] by blast
      from attach_outcome [OF this [symmetric, unfolded f]] l2 log show ?thesis
        by (cases r) (auto simp: startLogTailer_def client_stop_def)
    qed
  qed
qed

theorem session_start_outcome_witness:
  "\<exists>k'. client_start (demo_host (\<lambda>_. []) \<lparr>child_closed := \<lambda>_. Some (Some 1)\<rparr>) clear_crypto
        \<lparr>instance_of = Some \<lparr>masterKey = Some [1], rotationMs = 1\<rparr>, stored = None\<rparr>
        \<lparr>o_destination = ''me@host'', o_sshCommand = ''ssh'', o_sshArgs = [], o_sshEnv = None, o_serverScriptPath = ''s.js'',
         o_nodePath = ''node'', o_dataDir = ''/d'', o_handshakeTimeoutMs = None\<rparr> (new_client, ())
      = (Inl (exited_error (Some 1)), (k', ())) \<and> k_tailing k'
    \<and> client_stop (demo_host (\<lambda>_. []) \<lparr>child_closed := \<lambda>_. Some (Some 1)\<rparr>) (k', ()) = (Inr (), (k', ()))"
proof -
  let ?H = "demo_host (\<lambda>_. []) \<lparr>child_closed := \<lambda>_. Some (Some 1)\<rparr>"
  let ?sec = "\<lparr>instance_of = Some \<lparr>masterKey = Some [1], rotationMs = 1\<rparr>, stored = None\<rparr>"
  let ?o = "\<lparr>o_destination = ''me@host'', o_sshCommand = ''ssh'', o_sshArgs = [], o_sshEnv = None, o_serverScriptPath = ''s.js'',
         o_nodePath = ''node'', o_dataDir = ''/d'', o_handshakeTimeoutMs = None\<rparr>"
  have poll: "client_waitForReady ?H s = (Inl (exited_error (Some 1)), s)" for s
  proof -
    have polls: "READY_POLLS = Suc 119" by (simp add: READY_POLLS_def)
    show ?thesis unfolding client_waitForReady_def polls wait_ready.simps by (simp add: demo_host_def)
  qed
  obtain r k' where run: "client_start ?H clear_crypto ?sec ?o (new_client, ()) = (r, (k', ()))"
    by (cases "client_start ?H clear_crypto ?sec ?o (new_client, ())") auto
  have r: "r = Inl (exited_error (Some 1)) \<and> k_serverChild k' = Some (Some 1)"
    using run poll
    by (auto simp: client_start_def Let_def deriveSshSessionToken_def deriveToken_def new_client_def tryReconnect_def
        demo_host_def fresh_server_def await_def modify_def spawn_server_def attach_to_server_def startLogTailer_def
        generateIpcPath_def fresh_hex_def resolve_def log_file_of_def path_join_ne)
  have l: "lifecycle new_client = (False, False, False, [])" "k_serverChild new_client = None"
    by (simp_all add: lifecycle_def new_client_def)
  from session_start_outcome [OF run l] r run show ?thesis by auto
qed

theorem session_handover_witness:
  "\<exists>line. readStdinLine (map Text [server_stdin \<lparr>o_destination = ''me@host'', o_sshCommand = ''ssh'', o_sshArgs = [], o_sshEnv = None,
        o_serverScriptPath = ''s.js'', o_nodePath = ''node'', o_dataDir = ''/d'', o_handshakeTimeoutMs = Some 5\<rparr> demo_client] @ [InputEnd])
      = Some (Inr line)
    \<and> main_config line = Inr (Some (session_config \<lparr>o_destination = ''me@host'', o_sshCommand = ''ssh'', o_sshArgs = [], o_sshEnv = None,
        o_serverScriptPath = ''s.js'', o_nodePath = ''node'', o_dataDir = ''/d'', o_handshakeTimeoutMs = Some 5\<rparr> demo_client), k_tokenHex demo_client)"
  (is "\<exists>line. readStdinLine (map Text [?x] @ _) = _ \<and> _")
proof (rule session_handover)
  have "whole ?x"
    by (simp add: server_stdin_def session_config_def SHUTDOWN_TIMEOUT_MS_def KEEPALIVE_INTERVAL_MS_def dec.simps strings_json_def
        opt_field_def json_quote_def json_escape_char_def demo_client_def new_client_def hex_encode_def hex_byte_def hex_char_def)
  then show "\<forall>c \<in> set [?x]. whole c" by simp
qed (simp_all add: demo_client_def hex_encode_def hex_byte_def)

end
