(* ===== verification/SessionProcess.thy ===== *)
theory SessionProcess
  imports LocalServer
begin

text \<open>
  \<^verbatim>\<open>src/ssh/sshSession/process.ts\<close>: a virtual child process on top of one-shot commands. \<open>process\<close> is the
  state of one \<^verbatim>\<open>SshSessionProcess\<close>; \<open>run\<close>, a promise over the world, is the client's \<^verbatim>\<open>exec\<close> with its
  optional timeout, which gives the server's JSON answer. The timer's callbacks do not overlap (\<^verbatim>\<open>polling\<close>),
  so each is one function of state and world. \<open>p_data\<close> holds the \<^verbatim>\<open>data\<close> events, \<open>p_closed\<close> the
  \<^verbatim>\<open>close\<close> event, \<open>p_error\<close> the \<^verbatim>\<open>error\<close> event.
\<close>

type_synonym 'w shell_runner = "string \<Rightarrow> nat option \<Rightarrow> ('w, json) promise"

definition SPAWN_TIMEOUT_MS :: nat where "SPAWN_TIMEOUT_MS = 120000"

record process =
  p_pid :: int
  p_exitCode :: "int option"
  p_killed :: bool
  p_tmpBase :: string
  p_timer :: bool
  p_polling :: bool
  p_settled :: bool
  p_stdoutOffset :: nat
  p_data :: "string list"
  p_closed :: "int option option"
  p_error :: "js_error option"

definition new_process :: "bytes \<Rightarrow> process" where
  "new_process random =
     \<lparr>p_pid = 0, p_exitCode = None, p_killed = False, p_tmpBase = ''/tmp/zygos-spawn-'' @ hex_encode random,
      p_timer = False, p_polling = False, p_settled = False, p_stdoutOffset = 0, p_data = [], p_closed = None,
      p_error = None\<rparr>"

definition outFile :: "process \<Rightarrow> string" where "outFile s = p_tmpBase s @ ''.out''"
definition exitFile :: "process \<Rightarrow> string" where "exitFile s = p_tmpBase s @ ''.exit''"

definition quoted_status :: string where
  "quoted_status = ''printf '' @ [CHR 0x27] @ ''%s'' @ [CHR 0x27, CHR '' '', CHR 0x22]"

definition start_command :: "process \<Rightarrow> string \<Rightarrow> string" where
  "start_command s command =
     ''( '' @ command @ '' ) > '' @ shellQuote (outFile s) @ '' 2>&1; '' @ quoted_status @ ''$?'' @ [CHR 0x22] @ '' > ''
       @ shellQuote (exitFile s) @ '' & '' @ quoted_status @ ''$!'' @ [CHR 0x22]"

definition read_command :: "string \<Rightarrow> nat \<Rightarrow> string" where
  "read_command file off =
     ''dd if='' @ shellQuote file @ '' bs=4096 skip='' @ dec (off div 4096) @ '' 2>/dev/null | tail -c +'' @ dec (off mod 4096 + 1)"

definition cat_command :: "string \<Rightarrow> string" where
  "cat_command file = ''cat '' @ shellQuote file @ '' 2>/dev/null''"

definition clean_command :: "process \<Rightarrow> string" where
  "clean_command s = ''rm -f '' @ shellQuote (p_tmpBase s) @ ''.out '' @ shellQuote (p_tmpBase s) @ ''.exit''"

text \<open>\<^verbatim>\<open>result.stdout.trim()\<close> throws unless it is a string; \<^verbatim>\<open>parseInt(t, 10) || 0\<close>.\<close>

definition stdout_text :: "json \<Rightarrow> string result" where
  "stdout_text r =
     (case json_prop r ''stdout'' of
        Inl e \<Rightarrow> Inl e
      | Inr v \<Rightarrow> (case json_string v of None \<Rightarrow> Inl type_error | Some s \<Rightarrow> Inr s))"

definition number_or_zero :: "string \<Rightarrow> int" where
  "number_or_zero t = nullish (parse_int t) 0"

definition process_start :: "'w shell_runner \<Rightarrow> string \<Rightarrow> process \<times> 'w \<Rightarrow> process \<times> 'w" where
  "process_start run command s =
     (case run (start_command (fst s) command) (Some SPAWN_TIMEOUT_MS) (snd s) of
        (Inl e, w) \<Rightarrow> (fst s\<lparr>p_error := Some e\<rparr>, w)
      | (Inr r, w) \<Rightarrow>
          (case stdout_text r of
             Inl e \<Rightarrow> (fst s\<lparr>p_error := Some e\<rparr>, w)
           | Inr t \<Rightarrow> (fst s\<lparr>p_pid := number_or_zero (trim t), p_timer := True\<rparr>, w)))"

definition process_kill :: "'w shell_runner \<Rightarrow> string option \<Rightarrow> process \<times> 'w \<Rightarrow> process \<times> 'w" where
  "process_kill run signal s =
     (let p = p_pid (fst s);
          w = (if p = 0 then snd s
               else snd (run (''kill -'' @ nullish signal ''TERM'' @ '' '' @ dec_int p @ '' 2>/dev/null'') None (snd s)))
      in (fst s\<lparr>p_killed := True\<rparr>, w))"

text \<open>The last flush reads the whole file again; \<^verbatim>\<open>close\<close> and the clean-up follow whatever it gives.\<close>

definition flushed :: "json result \<Rightarrow> process \<Rightarrow> process" where
  "flushed r s =
     (case r of
        Inl _ \<Rightarrow> s
      | Inr j \<Rightarrow>
          (case stdout_text j of
             Inl _ \<Rightarrow> s
           | Inr full \<Rightarrow> if p_stdoutOffset s < length full
                         then s\<lparr>p_data := p_data s @ [drop (p_stdoutOffset s) full]\<rparr> else s))"

definition settle :: "'w shell_runner \<Rightarrow> process \<times> 'w \<Rightarrow> process \<times> 'w" where
  "settle run s =
     (if p_settled (fst s) then s
      else let s1 = fst s\<lparr>p_settled := True, p_timer := False\<rparr>;
               (r, w1) = run (cat_command (outFile s1)) None (snd s);
               s2 = flushed r s1
           in (s2\<lparr>p_closed := Some (p_exitCode s2)\<rparr>, snd (run (clean_command s2) None w1)))"

definition emit_new :: "json \<Rightarrow> process \<Rightarrow> process result" where
  "emit_new r s =
     (case json_prop r ''stdout'' of
        Inl e \<Rightarrow> Inl e
      | Inr v \<Rightarrow>
          if \<not> json_truthy v then Inr s
          else (case json_string v of
                  None \<Rightarrow> Inl type_error
                | Some t \<Rightarrow> Inr (s\<lparr>p_stdoutOffset := p_stdoutOffset s + length t, p_data := p_data s @ [t]\<rparr>)))"

definition check_exit :: "'w shell_runner \<Rightarrow> process \<times> 'w \<Rightarrow> process \<times> 'w" where
  "check_exit run s =
     (case run (cat_command (exitFile (fst s))) None (snd s) of
        (Inl _, w) \<Rightarrow> (fst s, w)
      | (Inr r, w) \<Rightarrow>
          (case stdout_text r of
             Inl _ \<Rightarrow> (fst s, w)
           | Inr t \<Rightarrow> if trim t = [] then (fst s, w)
                      else settle run (fst s\<lparr>p_exitCode := Some (number_or_zero (trim t))\<rparr>, w)))"

definition poll :: "'w shell_runner \<Rightarrow> process \<times> 'w \<Rightarrow> process \<times> 'w" where
  "poll run s =
     (if p_settled (fst s) \<or> p_polling (fst s) then s
      else let s1 = fst s\<lparr>p_polling := True\<rparr>;
               s2 = (case run (read_command (outFile s1) (p_stdoutOffset s1)) None (snd s) of
                       (Inl _, w) \<Rightarrow> (s1, w)
                     | (Inr r, w) \<Rightarrow>
                         (case emit_new r s1 of Inl _ \<Rightarrow> (s1, w) | Inr s' \<Rightarrow> check_exit run (s', w)))
           in (fst s2\<lparr>p_polling := False\<rparr>, snd s2))"

section \<open>Output\<close>

text \<open>The remote side: the output file grows with each command that is run on it, \<open>file t\<close>; the exit file
  is empty until the command has ended, \<open>exit_text t\<close>. Every answer loses a leading newline on the
  way (\<open>drop_newline\<close> of the local server).\<close>

definition answer_json :: "string \<Rightarrow> json" where
  "answer_json t = JObj [(''stdout'', JStr (drop_newline t))]"

definition remote :: "'w shell_runner \<Rightarrow> process \<Rightarrow> ('w \<Rightarrow> string) \<Rightarrow> ('w \<Rightarrow> string) \<Rightarrow> ('w \<Rightarrow> 'w) \<Rightarrow> bool" where
  "remote run s file exit_text next_w =
     (\<forall>w. (\<forall>off. run (read_command (outFile s) off) None w = (Inr (answer_json (drop off (file w))), next_w w))
        \<and> run (cat_command (exitFile s)) None w = (Inr (answer_json (exit_text w)), next_w w)
        \<and> run (cat_command (outFile s)) None w = (Inr (answer_json (file w)), next_w w))"

lemma answer_text [simp]: "stdout_text (answer_json t) = Inr (drop_newline t)"
  by (simp add: stdout_text_def answer_json_def json_prop_def json_string_def)

lemma answer_emit:
  "emit_new (answer_json t) s = Inr (if drop_newline t = [] then s
     else s\<lparr>p_stdoutOffset := p_stdoutOffset s + length (drop_newline t), p_data := p_data s @ [drop_newline t]\<rparr>)"
  by (simp add: emit_new_def answer_json_def json_prop_def json_string_def json_truthy_def)

lemma drop_newline_id: "\<not> prefix [NL] t \<Longrightarrow> drop_newline t = t"
  by (cases t) (simp_all add: drop_newline_def)

definition reading :: "('w \<Rightarrow> string) \<Rightarrow> process \<times> 'w \<Rightarrow> bool" where
  "reading file s = (\<not> p_settled (fst s) \<and> \<not> p_polling (fst s) \<and> p_closed (fst s) = None
     \<and> p_stdoutOffset (fst s) = length (concat (p_data (fst s))) \<and> prefix (concat (p_data (fst s))) (file (snd s)))"

definition finished :: "string \<Rightarrow> process \<times> 'w \<Rightarrow> bool" where
  "finished F s = (p_settled (fst s) \<and> concat (p_data (fst s)) = F \<and> p_closed (fst s) = Some (p_exitCode (fst s))
     \<and> p_exitCode (fst s) \<noteq> None)"

lemma poll_settled: "p_settled (fst s) \<Longrightarrow> poll run s = s"
  by (simp add: poll_def)

lemma read_step:
  assumes "remote run (fst s) file exit_text next_w" "reading file s" "\<not> prefix [NL] (drop (p_stdoutOffset (fst s)) (file (snd s)))"
  shows "\<exists>r d. run (read_command (outFile (fst s)) (p_stdoutOffset (fst s))) None (snd s) = (Inr r, next_w (snd s))
    \<and> emit_new r (fst s\<lparr>p_polling := True\<rparr>)
        = Inr (fst s\<lparr>p_polling := True, p_stdoutOffset := length (file (snd s)), p_data := d\<rparr>)
    \<and> concat d = file (snd s)"
proof -
  let ?off = "p_stdoutOffset (fst s)" and ?t = "drop (p_stdoutOffset (fst s)) (file (snd s))"
  have whole: "file (snd s) = concat (p_data (fst s)) @ ?t"
    using assms(2) by (auto simp: reading_def prefix_def)
  show ?thesis
  proof (cases "?t = []")
    case True
    moreover from this whole assms(2) have "?off = length (file (snd s))" by (simp add: reading_def)
    ultimately show ?thesis
      using assms(1) whole by (intro exI [of _ "answer_json ?t"] exI [of _ "p_data (fst s)"])
        (simp add: remote_def answer_emit drop_newline_def)
  next
    case False
    have "?off + length ?t = length (file (snd s))"
      using assms(2) by (simp add: reading_def prefix_length_le)
    with False show ?thesis
      using assms(1) drop_newline_id [OF assms(3)] whole
      by (intro exI [of _ "answer_json ?t"] exI [of _ "p_data (fst s) @ [?t]"]) (simp add: remote_def answer_emit)
  qed
qed

lemma poll_step:
  assumes rem: "remote run (fst s) file exit_text next_w" and rd: "reading file s"
    and nl: "\<not> prefix [NL] (drop (p_stdoutOffset (fst s)) (file (snd s)))" and F: "\<not> prefix [NL] F"
    and grows: "\<And>w. prefix (file w) (file (next_w w))" "\<And>w. prefix (file w) F"
    and exited: "\<And>w. trim (drop_newline (exit_text w)) \<noteq> [] \<Longrightarrow> file (next_w w) = F"
  shows "(reading file (poll run s) \<or> finished F (poll run s)) \<and> p_tmpBase (fst (poll run s)) = p_tmpBase (fst s)"
proof -
  obtain s0 w where s: "s = (s0, w)" by (cases s)
  obtain r d where read: "run (read_command (outFile s0) (p_stdoutOffset s0)) None w = (Inr r, next_w w)"
    and emit: "emit_new r (s0\<lparr>p_polling := True\<rparr>) = Inr (s0\<lparr>p_polling := True, p_stdoutOffset := length (file w), p_data := d\<rparr>)"
    and d: "concat d = file w"
    using read_step [OF rem rd nl] s by auto
  let ?s1 = "s0\<lparr>p_polling := True, p_stdoutOffset := length (file w), p_data := d\<rparr>"
  let ?w1 = "next_w w" and ?w2 = "next_w (next_w w)"
  have cat: "run (cat_command (exitFile s0)) None ?w1 = (Inr (answer_json (exit_text ?w1)), ?w2)"
    "run (cat_command (outFile s0)) None ?w2 = (Inr (answer_json (file ?w2)), next_w ?w2)"
    using rem s by (simp_all add: remote_def)
  have files: "exitFile (s0\<lparr>p_polling := a, p_stdoutOffset := b, p_data := c\<rparr>) = exitFile s0"
    "outFile (s0\<lparr>p_polling := a\<rparr>) = outFile s0" for a b c by (simp_all add: exitFile_def outFile_def)
  have open_: "\<not> p_settled s0" "\<not> p_polling s0" "p_closed s0 = None" using rd s by (simp_all add: reading_def)
  have p: "poll run s = (let s2 = check_exit run (?s1, ?w1) in (fst s2\<lparr>p_polling := False\<rparr>, snd s2))"
    using read emit open_ by (simp add: poll_def s Let_def files)
  show ?thesis
  proof (cases "trim (drop_newline (exit_text ?w1)) = []")
    case True
    then have "check_exit run (?s1, ?w1) = (?s1, ?w2)" using cat(1) by (simp add: check_exit_def files)
    moreover have "prefix (file w) (file ?w2)" using grows(1) prefix_order.trans by blast
    ultimately show ?thesis using open_ d by (simp add: p [unfolded s] reading_def s)
  next
    case False
    let ?e = "Some (number_or_zero (trim (drop_newline (exit_text ?w1))))"
    let ?s2 = "?s1\<lparr>p_exitCode := ?e, p_settled := True, p_timer := False\<rparr>"
    have "check_exit run (?s1, ?w1) = settle run (?s1\<lparr>p_exitCode := ?e\<rparr>, ?w2)"
      using cat(1) False by (simp add: check_exit_def files)
    also have "\<dots> = (let s2 = flushed (Inr (answer_json F)) ?s2
                   in (s2\<lparr>p_closed := Some (p_exitCode s2)\<rparr>, snd (run (clean_command s2) None (next_w ?w2))))"
      using cat(2) open_ exited [OF False] by (simp add: settle_def outFile_def Let_def)
    finally have c: "check_exit run (?s1, ?w1)
        = (let s2 = flushed (Inr (answer_json F)) ?s2
           in (s2\<lparr>p_closed := Some (p_exitCode s2)\<rparr>, snd (run (clean_command s2) None (next_w ?w2))))" .
    have "flushed (Inr (answer_json F)) ?s2
        = (if length (file w) < length F then ?s2\<lparr>p_data := d @ [drop (length (file w)) F]\<rparr> else ?s2)"
      by (simp add: flushed_def drop_newline_id [OF F])
    moreover have "length (file w) < length F \<Longrightarrow> file w @ drop (length (file w)) F = F"
      using grows(2) [of w] by (auto simp: prefix_def)
    moreover have "\<not> length (file w) < length F \<Longrightarrow> file w = F"
      using grows(2) [of w] by (auto simp: prefix_def)
    ultimately show ?thesis by (auto simp: p [unfolded s] c Let_def finished_def d s)
  qed
qed

text \<open>The events of a virtual process: as long as no answer to a poll starts with a newline, what
  it emits is at every moment a prefix of the command's output, and once the exit code has been
  seen exactly the whole output, followed by \<^verbatim>\<open>close\<close> with the exit code.\<close>

theorem process_output:
  assumes "remote run s file exit_text next_w" "reading file (s, w)"
    and "\<And>w. prefix (file w) (file (next_w w))" "\<And>w. prefix (file w) F"
    and "\<And>w. trim (drop_newline (exit_text w)) \<noteq> [] \<Longrightarrow> file (next_w w) = F"
    and "\<And>i t v. i < n \<Longrightarrow> (poll run ^^ i) (s, w) = (t, v) \<Longrightarrow> \<not> prefix [NL] (drop (p_stdoutOffset t) (file v))"
    and "\<not> prefix [NL] F"
  shows "let t = fst ((poll run ^^ n) (s, w))
         in (if p_settled t then concat (p_data t) = F \<and> p_closed t = Some (p_exitCode t) \<and> p_exitCode t \<noteq> None
             else prefix (concat (p_data t)) F \<and> p_closed t = None)"
proof -
  have "(reading file ((poll run ^^ i) (s, w)) \<or> finished F ((poll run ^^ i) (s, w)))
      \<and> p_tmpBase (fst ((poll run ^^ i) (s, w))) = p_tmpBase s" if "i \<le> n" for i
    using that
  proof (induction i)
    case 0
    then show ?case using assms(2) by simp
  next
    case (Suc i)
    let ?t = "(poll run ^^ i) (s, w)"
    have tmp: "p_tmpBase (fst ?t) = p_tmpBase s" using Suc by simp
    show ?case
    proof (cases "finished F ?t")
      case True
      with tmp show ?thesis by (simp add: poll_settled finished_def)
    next
      case False
      then have rd: "reading file ?t" using Suc by simp
      have rem: "remote run (fst ?t) file exit_text next_w"
        using assms(1) tmp by (simp add: remote_def outFile_def exitFile_def)
      have "\<not> prefix [NL] (drop (p_stdoutOffset (fst ?t)) (file (snd ?t)))"
        using assms(6) [of i "fst ?t" "snd ?t"] Suc.prems by simp
      then have "(reading file (poll run ?t) \<or> finished F (poll run ?t)) \<and> p_tmpBase (fst (poll run ?t)) = p_tmpBase (fst ?t)"
        using assms(3-5,7) by (intro poll_step [OF rem rd]) auto
      with tmp show ?thesis by simp
    qed
  qed
  from this [of n] assms(4) show ?thesis
    by (auto simp: Let_def reading_def finished_def intro: prefix_order.trans)
qed

text \<open>Different offsets are different commands, so that a shell can tell them apart.\<close>

lemma dec_inj: "dec a = dec b \<longleftrightarrow> a = b"
  by (metis nat_of_digits_dec)

lemma dec_prefix:
  assumes "\<not> is_digit c" "dec a @ c # r = dec b @ c # q"
  shows "a = b \<and> r = q"
proof -
  have "takeWhile is_digit (dec n @ c # x) = dec n" for n x
    using assms(1) dec_digits [of n] by (simp add: takeWhile_append list_all_iff)
  then have "dec a = dec b" using assms(2) by metis
  with assms(2) show ?thesis by (simp add: dec_inj)
qed

lemma read_command_inj: "read_command f a = read_command f b \<longleftrightarrow> a = b"
proof
  assume "read_command f a = read_command f b"
  then have eq: "dec (a div 4096) @ CHR '' '' # ''2>/dev/null | tail -c +'' @ dec (a mod 4096 + 1)
      = dec (b div 4096) @ CHR '' '' # ''2>/dev/null | tail -c +'' @ dec (b mod 4096 + 1)"
    by (simp add: read_command_def)
  have "\<not> is_digit (CHR '' '')" by (simp add: is_digit_def)
  from dec_prefix [OF this eq] have "a div 4096 = b div 4096" "a mod 4096 = b mod 4096"
    by (auto simp: dec_inj)
  then show "a = b" by (metis div_mult_mod_eq)
qed simp

definition demo_file :: "nat \<Rightarrow> string" where "demo_file t = (if t = 0 then ''a'' else ''ab'')"
definition demo_exit :: "nat \<Rightarrow> string" where "demo_exit t = (if 2 \<le> t then ''0'' else [])"

definition demo_shell :: "process \<Rightarrow> nat shell_runner" where
  "demo_shell s cmd tmo t =
     (Inr (answer_json
        (if cmd = cat_command (exitFile s) then demo_exit t
         else if cmd = cat_command (outFile s) then demo_file t
         else drop (THE off. cmd = read_command (outFile s) off) (demo_file t))), Suc t)"

lemma demo_remote: "remote (demo_shell s) s demo_file demo_exit Suc"
proof -
  have "read_command f off \<noteq> cat_command g" for f g off
    by (simp add: read_command_def cat_command_def)
  moreover have "(THE x. read_command f off = read_command f x) = off" for f off
    by (simp add: read_command_inj)
  moreover have "cat_command (outFile s) \<noteq> cat_command (exitFile s)"
    by (simp add: cat_command_def shellQuote_def quote_char_def outFile_def exitFile_def)
  ultimately show ?thesis by (simp add: remote_def demo_shell_def)
qed

theorem process_output_witness:
  "let t = fst ((poll (demo_shell (new_process [1])) ^^ 2) (new_process [1], 0))
   in (if p_settled t then concat (p_data t) = ''ab'' \<and> p_closed t = Some (p_exitCode t) \<and> p_exitCode t \<noteq> None
       else prefix (concat (p_data t)) ''ab'' \<and> p_closed t = None)"
proof (rule process_output [OF demo_remote])
  show "reading demo_file (new_process [1], 0)" by (simp add: reading_def new_process_def)
  show "prefix (demo_file w) (demo_file (Suc w))" for w by (simp add: demo_file_def)
  show "prefix (demo_file w) ''ab''" for w by (simp add: demo_file_def)
  show "demo_file (Suc w) = ''ab''" for w by (simp add: demo_file_def)
  have "NL \<notin> set (demo_file v)" for v by (simp add: demo_file_def)
  then show "\<not> prefix [NL] (drop k (demo_file v))" for k v
    by (metis in_set_dropD list.set_intros(1) prefix_def append_Cons)
qed simp

text \<open>An answer that starts with a newline loses it, the offset falls behind by one, and the next byte is
  read twice: a command that prints \<^verbatim>\<open>a\<close>, newline, \<^verbatim>\<open>b\<close> in two steps is reported as \<^verbatim>\<open>abb\<close>.\<close>

lemma newline_at_a_poll_boundary:
  "p_data (fst (settle (\<lambda>_ _ w. (Inr (answer_json (''a'' @ [NL] @ ''b'')), w))
      (case emit_new (answer_json (drop 1 (''a'' @ [NL] @ ''b'')))
              (new_process [1]\<lparr>p_stdoutOffset := 1, p_data := [''a'']\<rparr>) of Inr s \<Rightarrow> s, ()))) = [''a'', ''b'', ''b'']"
  by (simp add: answer_emit settle_def flushed_def new_process_def drop_newline_def)

end
