(* ===== verification/SshSession.thy ===== *)
theory SshSession
  imports SessionClient SessionProcess SshConnection Transport
begin

text \<open>
  \<^verbatim>\<open>src/ssh/sshSession/connection.ts\<close>: the connection that runs its commands through the local session
  server, or through the Go transport once there is one. A command's result is the JSON object
  that the callers see (\<^verbatim>\<open>ExecResult\<close>). Methods are promises over the session and the world.
\<close>

section \<open>State\<close>

record session_deps =
  d_serverScriptPath :: string
  d_nodePath :: string
  d_dataDir :: string

record ('w, 's) session =
  ses_options :: ssh_options
  ses_deps :: session_deps
  ses_client :: "client option"
  ses_connected :: bool
  ses_socksPort :: "json option"
  ses_transport :: "(('w, 's) net \<times> string) option"

definition new_session :: "ssh_options \<Rightarrow> session_deps \<Rightarrow> ('w, 's) session" where
  "new_session o1 deps = \<lparr>ses_options = o1, ses_deps = deps, ses_client = None, ses_connected = False,
     ses_socksPort = Some (JNum ''0''), ses_transport = None\<rparr>"

definition remoteLabel :: "('w, 's) session \<Rightarrow> string" where
  "remoteLabel s = opt_host (ses_options s)"

definition session_fromDestination :: "string \<Rightarrow> string option \<Rightarrow> nat option \<Rightarrow> ssh_options \<Rightarrow> session_deps \<Rightarrow> ('w, 's) session" where
  "session_fromDestination host user port opts deps =
     (let hostStr = (if truthy user then nullish user [] @ ''@'' @ host else host);
          extra = nullish (opt_extraArgs opts) []
                    @ (case port of None \<Rightarrow> [] | Some p \<Rightarrow> if p = 0 then [] else [''-p'', dec p])
      in new_session (opts\<lparr>opt_host := hostStr, opt_extraArgs := Some extra\<rparr>) deps)"

type_synonym ('w, 's, 'a) session_method = "(('w, 's) session \<times> 'w, 'a) promise"

definition via_client :: "('w, 'a) client_call \<Rightarrow> ('w, 's, 'a) session_method" where
  "via_client m s =
     (case ses_client (fst s) of
        None \<Rightarrow> (Inl type_error, s)
      | Some k \<Rightarrow> (let (r, k', w') = m (k, snd s) in (r, fst s\<lparr>ses_client := Some k'\<rparr>, w')))"

definition in_world :: "('w, 'a) promise \<Rightarrow> ('w, 's, 'a) session_method" where
  "in_world m s = (let (r, w') = m (snd s) in (r, fst s, w'))"

section \<open>Connecting\<close>

definition session_sshArgs :: "ssh_options \<Rightarrow> string list" where
  "session_sshArgs o1 =
     [''-T''] @ (if opt_askpass o1 \<noteq> None then [] else [''-o'', ''BatchMode=yes''])
       @ (case opt_tcpTimeoutSeconds o1 of
            Some n \<Rightarrow> if 0 < n then [''-o'', ''ConnectTimeout='' @ dec n] else []
          | None \<Rightarrow> [])
       @ (if truthy (opt_configFile o1) then [''-F'', nullish (opt_configFile o1) []] else [])
       @ nullish (opt_extraArgs o1) []
       @ (case opt_socksPort o1 of Some p \<Rightarrow> if p = 0 then [] else [''-D'', dec p] | None \<Rightarrow> [])"

definition session_sshEnv :: "ssh_options \<Rightarrow> (string \<times> string) list option" where
  "session_sshEnv o1 =
     (case opt_askpass o1 of
        None \<Rightarrow> None
      | Some (handle, token) \<Rightarrow>
          if \<not> truthy (opt_askpassScript o1) \<or> \<not> truthy (opt_askpassMain o1) \<or> \<not> truthy (opt_nodePath o1) then None
          else Some [(''SSH_ASKPASS'', nullish (opt_askpassScript o1) []), (''SSH_ASKPASS_REQUIRE'', ''force''),
                     (''DISPLAY'', ''zygos''), (''AERGIC_SSH_ASKPASS_HANDLE'', handle),
                     (''AERGIC_SSH_ASKPASS_TOKEN'', token), (''AERGIC_SSH_ASKPASS_NODE'', nullish (opt_nodePath o1) []),
                     (''AERGIC_SSH_ASKPASS_MAIN'', nullish (opt_askpassMain o1) [])])"

definition session_handshake_timeout :: "ssh_options \<Rightarrow> nat" where
  "session_handshake_timeout o1 =
     (let base = nullish (opt_handshakeTimeoutMs o1) 30000
      in if opt_askpass o1 \<noteq> None then max base ASKPASS_CONNECT_FLOOR_MS else base)"

definition session_client_options :: "('w, 's) session \<Rightarrow> client_options" where
  "session_client_options s =
     \<lparr>o_destination = remoteLabel s, o_sshCommand = nullish (opt_sshPath (ses_options s)) ''ssh'',
      o_sshArgs = session_sshArgs (ses_options s), o_sshEnv = session_sshEnv (ses_options s),
      o_serverScriptPath = d_serverScriptPath (ses_deps s), o_nodePath = d_nodePath (ses_deps s),
      o_dataDir = d_dataDir (ses_deps s),
      o_handshakeTimeoutMs = Some (session_handshake_timeout (ses_options s))\<rparr>"

definition session_connect :: "'w host \<Rightarrow> crypto \<Rightarrow> secret_module \<Rightarrow> ('w, 's, unit) session_method" where
  "session_connect H C sec s =
     (if ses_connected (fst s) then (Inr (), s)
      else if opt_host (ses_options (fst s)) = [] then (Inl (plain_error ''missing host''), s)
      else await (via_client (client_start H C sec (session_client_options (fst s))))
             (\<lambda>_ s'. (Inr (), fst s'\<lparr>ses_socksPort := (case ses_client (fst s') of None \<Rightarrow> None | Some k \<Rightarrow> k_socksPort k),
                                   ses_connected := True\<rparr>, snd s'))
             (fst s\<lparr>ses_client := Some new_client\<rparr>, snd s))"

definition session_close :: "'w host \<Rightarrow> ('w, 's, unit) session_method" where
  "session_close H s =
     (case ses_client (fst s) of
        None \<Rightarrow> (Inr (), fst s\<lparr>ses_connected := False\<rparr>, snd s)
      | Some k \<Rightarrow> await (via_client (client_stop H))
                    (\<lambda>_ s'. (Inr (), fst s'\<lparr>ses_client := None, ses_connected := False\<rparr>, snd s')) s)"

definition setTransportClient :: "(('w, 's) net \<times> string) option \<Rightarrow> ('w, 's) session \<Rightarrow> ('w, 's) session" where
  "setTransportClient t s = s\<lparr>ses_transport := t\<rparr>"

definition session_requireConnected :: "('w, 's, unit) session_method" where
  "session_requireConnected s =
     (if ses_connected (fst s) then (Inr (), s)
      else (Inl (plain_error (''SSH connection to '' @ remoteLabel (fst s) @ '' is not connected'')), s))"

section \<open>Running commands\<close>

definition transport_result :: "exec_result \<Rightarrow> json" where
  "transport_result r =
     JObj ([(''stdout'', JStr (utf8_string (stdout_of r))), (''stderr'', JStr (utf8_string (stderr_of r)))]
           @ opt_field ''exitCode'' (exitCode_of r) @ [(''signal'', JNull)])"

definition plain_result :: "string \<Rightarrow> nat \<Rightarrow> json" where
  "plain_result err code =
     JObj [(''stdout'', JStr []), (''stderr'', JStr err), (''exitCode'', JNum (dec code)), (''signal'', JNull)]"

text \<open>\<^verbatim>\<open>x ?? d\<close> also replaces null.\<close>

definition json_default :: "json option \<Rightarrow> json \<Rightarrow> json" where
  "json_default v d = (case v of None \<Rightarrow> d | Some JNull \<Rightarrow> d | Some j \<Rightarrow> j)"

definition response_result :: "json \<Rightarrow> json result" where
  "response_result r =
     (case (json_prop r ''stdout'', json_prop r ''stderr'', json_prop r ''exitCode'', json_prop r ''signal'') of
        (Inr out, Inr err, Inr code, Inr sig) \<Rightarrow>
          Inr (JObj (opt_field ''stdout'' out @ [(''stderr'', json_default err (JStr []))]
                     @ opt_field ''exitCode'' code @ [(''signal'', json_default sig JNull)]))
      | _ \<Rightarrow> Inl type_error)"

definition session_exec_command :: "'w host \<Rightarrow> string \<Rightarrow> nat option \<Rightarrow> bool \<Rightarrow> ('w, 's, json) session_method" where
  "session_exec_command H command timeoutMs quiet =
     await session_requireConnected (\<lambda>_ s.
       case ses_transport (fst s) of
         Some (N, token) \<Rightarrow>
           if nullish timeoutMs 0 = 0
           then await (in_world (Transport.exec N token ''sh'' [''-c'', command] None None)) (\<lambda>r. resolve (transport_result r)) s
           else await (via_client (client_exec H command timeoutMs quiet)) (\<lambda>r s. (response_result r, s)) s
       | None \<Rightarrow> await (via_client (client_exec H command timeoutMs quiet)) (\<lambda>r s. (response_result r, s)) s)"

definition stdin_command :: "string \<Rightarrow> bytes \<Rightarrow> string" where
  "stdin_command command stdinData = ''echo '' @ shellQuote (base64_encode stdinData) @ '' | base64 -d | '' @ command"

definition session_execWithStdin :: "'w host \<Rightarrow> string \<Rightarrow> bytes \<Rightarrow> ('w, 's, json) session_method" where
  "session_execWithStdin H command stdinData =
     await session_requireConnected (\<lambda>_ s.
       case ses_transport (fst s) of
         Some (N, token) \<Rightarrow>
           await (in_world (Transport.execWithStdin N token command stdinData)) (\<lambda>r. resolve (transport_result r)) s
       | None \<Rightarrow> session_exec_command H (stdin_command command stdinData) None False s)"

text \<open>With the transport, the upload also reports its progress; the session server does not.\<close>

definition session_putFile :: "'w host \<Rightarrow> string \<Rightarrow> bytes \<Rightarrow> string option \<Rightarrow> ('w, 's, json \<times> (nat \<times> nat) list) session_method" where
  "session_putFile H remotePath content mode =
     await session_requireConnected (\<lambda>_ s.
       case ses_transport (fst s) of
         Some (N, token) \<Rightarrow>
           (case Transport.putFile N token remotePath content mode (snd s) of
              ((Inl e, _), w') \<Rightarrow> (Inl e, fst s, w')
            | ((Inr _, progress), w') \<Rightarrow> (Inr (plain_result [] 0, progress), fst s, w'))
       | None \<Rightarrow> await (via_client (client_putFile H remotePath content mode)) (\<lambda>r. resolve (r, [])) s)"

definition json_zero :: "json option \<Rightarrow> bool" where
  "json_zero v = (case v of Some (JNum l) \<Rightarrow> \<not> json_truthy (Some (JNum l)) | _ \<Rightarrow> False)"

definition extract_command :: "string \<Rightarrow> string \<Rightarrow> nat \<Rightarrow> string" where
  "extract_command tmp dest stripComponents =
     ''gzip -dc '' @ tmp @ '' | tar -xC '' @ dest @ '' --strip-components='' @ dec stripComponents @ '' && rm -f '' @ tmp"

definition drop_upload :: "'w host \<Rightarrow> string \<Rightarrow> ('w, 's, unit) session_method" where
  "drop_upload H tmp = settle_quietly (session_exec_command H (''rm -f '' @ tmp) None False)"

text \<open>\<^verbatim>\<open>putResult.stderr || putResult.stdout\<close>, and the result of a failed upload.\<close>

definition failed_upload :: "json \<Rightarrow> json result" where
  "failed_upload r =
     (case (json_prop r ''stdout'', json_prop r ''stderr'', json_prop r ''exitCode'', json_prop r ''signal'') of
        (Inr out, Inr err, Inr code, Inr sig) \<Rightarrow>
          Inr (JObj (opt_field ''stdout'' out @ opt_field ''stderr'' (if json_truthy err then err else out)
                     @ opt_field ''exitCode'' code @ opt_field ''signal'' sig))
      | _ \<Rightarrow> Inl type_error)"

definition extract_upload :: "'w host \<Rightarrow> string \<Rightarrow> nat \<Rightarrow> bytes \<Rightarrow> ('w, 's, json) session_method" where
  "extract_upload H dest stripComponents content =
     (let tmp = dest @ ''.tar.gz''
      in await (session_putFile H tmp content (Some ''0600'')) (\<lambda>(put, _).
           case json_prop put ''exitCode'' of
             Inl e \<Rightarrow> reject e
           | Inr code \<Rightarrow>
               if \<not> json_zero code then await (drop_upload H tmp) (\<lambda>_ s. (failed_upload put, s))
               else await (session_exec_command H (extract_command tmp dest stripComponents) None False) (\<lambda>result.
                 case json_prop result ''exitCode'' of
                   Inl e \<Rightarrow> reject e
                 | Inr code \<Rightarrow> if json_zero code then resolve result
                              else await (drop_upload H tmp) (\<lambda>_. resolve result))))"

definition session_extract :: "'w host \<Rightarrow> string \<Rightarrow> nat \<Rightarrow> bytes \<Rightarrow> ('w, 's, json) session_method" where
  "session_extract H dest stripComponents content =
     await session_requireConnected (\<lambda>_ s.
       case ses_transport (fst s) of
         Some (N, token) \<Rightarrow>
           (case Transport.extractTarball N token dest stripComponents content (snd s) of
              ((Inl e, _), w') \<Rightarrow> (Inr (plain_result (err_message e) 1), fst s, w')
            | ((Inr _, _), w') \<Rightarrow> (Inr (plain_result [] 0), fst s, w'))
       | None \<Rightarrow> extract_upload H dest stripComponents content s)"

text \<open>The virtual child runs over the session's client; \<open>random\<close> names its files.\<close>

definition session_runner :: "'w host \<Rightarrow> (('w, 's) session \<times> 'w) shell_runner" where
  "session_runner H command timeoutMs = via_client (client_exec H command timeoutMs False)"

definition session_spawnProcess :: "'w host \<Rightarrow> bytes \<Rightarrow> string option \<Rightarrow> ('w, 's, process) session_method" where
  "session_spawnProcess H random command s =
     (if \<not> truthy command then (Inl (plain_error ''spawnProcess with no command not supported on ssh session''), s)
      else let (p, s') = process_start (session_runner H) (nullish command []) (new_process random, s) in (Inr p, s'))"

section \<open>Sessions are shared by host name\<close>

text \<open>The client options of a destination.\<close>

definition destination_options :: "string \<Rightarrow> string option \<Rightarrow> nat option \<Rightarrow> ssh_options \<Rightarrow> session_deps \<Rightarrow> client_options" where
  "destination_options host user port opts deps =
     session_client_options (session_fromDestination host user port opts deps :: (unit, unit) session)"

lemma destination_options_eq:
  "session_client_options (session_fromDestination host user port opts deps) = destination_options host user port opts deps"
  by (simp add: destination_options_def session_client_options_def session_fromDestination_def new_session_def
      remoteLabel_def Let_def)

lemmas destination_defs = destination_options_def session_client_options_def session_fromDestination_def
  new_session_def remoteLabel_def Let_def

lemma same_files:
  "o_destination (destination_options host user p opts deps) = o_destination (destination_options host user q opts deps)"
  "data_file_of (destination_options host user p opts deps) = data_file_of (destination_options host user q opts deps)"
  "log_file_of (destination_options host user p opts deps) = log_file_of (destination_options host user q opts deps)"
  by (simp_all add: destination_defs data_file_of_def log_file_of_def)

lemma other_arguments:
  assumes "p \<noteq> q" "0 < p" "0 < q"
  shows "o_sshArgs (destination_options host user (Some p) opts deps) \<noteq> o_sshArgs (destination_options host user (Some q) opts deps)"
  using assms by (auto simp: destination_defs session_sshArgs_def dec_inj split: option.splits)

text \<open>The persistence file and the token of a session depend on the user and host of a destination
  but not on its port. When a session to one port of a host is running, connecting to another port
  of the same host resolves with that session's server: no ssh is started for the new port,
  although its arguments are different.\<close>

theorem session_ignores_port:
  assumes "p \<noteq> q" "0 < p" "0 < q" "\<not> k_started k"
    and "deriveSshSessionToken C (o_destination (destination_options host user (Some p) opts deps)) sec = Inr token"
    and "tryReconnect H (k\<lparr>k_dataFilePath := data_file_of (destination_options host user (Some p) opts deps),
            k_tokenHex := hex_encode token, k_logFilePath := log_file_of (destination_options host user (Some p) opts deps)\<rparr>, w)
          = (Some st, k2, w2)"
  shows "o_sshArgs (destination_options host user (Some q) opts deps) \<noteq> o_sshArgs (destination_options host user (Some p) opts deps)
    \<and> client_start H C sec (destination_options host user (Some q) opts deps) (k, w)
      = client_start H C sec (destination_options host user (Some p) opts deps) (k, w)
    \<and> client_start H C sec (destination_options host user (Some q) opts deps) (k, w)
      = (Inr (), startLogTailer (startKeepalive (k2\<lparr>k_started := True\<rparr>)), w2)"
proof -
  have "client_start H C sec (destination_options host user r opts deps) (k, w)
      = (Inr (), startLogTailer (startKeepalive (k2\<lparr>k_started := True\<rparr>)), w2)" for r
    using assms(4-6) same_files [of host user "Some p" opts deps r]
    by (simp add: client_start_def Let_def)
  with other_arguments [OF assms(1-3)] show ?thesis by metis
qed

definition shared_status :: json where
  "shared_status = JObj [(''sshAlive'', JBool True), (''socksPort'', JNum ''1080'')]"

definition shared_record :: json where
  "shared_record = JObj [(''ipcHandlePath'', JStr ''/s''), (''socksPort'', JNum ''1080'')]"

definition shared_host :: "unit host" where
  "shared_host = (demo_host (\<lambda>_. []))\<lparr>
     read_file := (\<lambda>p w. (Inr (stringify shared_record), w)),
     http := (\<lambda>ipc q w. (Inr (200, stringify (if q_path q = ''/status'' then shared_status
                                     else JObj [(''exitCode'', JNum ''0'')])), w))\<rparr>"

definition shared_options :: ssh_options where
  "shared_options = \<lparr>opt_host = [], opt_sshPath = None, opt_configFile = None, opt_extraArgs = None, opt_askpass = None,
     opt_askpassScript = None, opt_askpassMain = None, opt_nodePath = None, opt_handshakeTimeoutMs = None,
     opt_tcpTimeoutSeconds = None, opt_socksPort = None\<rparr>"

definition shared_deps :: session_deps where
  "shared_deps = \<lparr>d_serverScriptPath = ''s.js'', d_nodePath = ''node'', d_dataDir = ''/d''\<rparr>"

lemma shared_request:
  assumes "k_ipcHandlePath k \<noteq> []"
  shows "session_request shared_host path verb body (k, w)
       = (Inr (if path = ''/status'' then shared_status else JObj [(''exitCode'', JNum ''0'')]), (k, w))"
proof -
  have "dec 1080 = ''1080''" "dec 0 = ''0''" by (simp_all add: dec.simps)
  then have "json_ok shared_status" "json_ok (JObj [(''exitCode'', JNum ''0'')])"
    by (simp_all add: shared_status_def nat_of_digits_def digit_val_def)
  then show ?thesis
    using assms by (simp add: session_request_def shared_host_def Let_def parse_stringify shared_status_def)
qed

lemma shared_reconnect: "\<exists>k2 w2. tryReconnect shared_host (k, w) = (Some shared_status, k2, w2)"
proof -
  have "dec 1080 = ''1080''" by (simp add: dec.simps)
  then have ok: "json_ok shared_record"
    by (simp add: shared_record_def nat_of_digits_def digit_val_def)
  let ?k = "k\<lparr>k_ipcHandlePath := ''/s'', k_socksPort := Some (JNum ''1080'')\<rparr>"
  have "\<exists>v. check_server shared_host (JNum ''1080'') (?k, w) = (Inr (Some shared_status), ?k, v)"
    by (simp add: check_server_def after_status_def after_probe_def attach_quietly_def settle_quietly_def session_status_def
        client_exec_def fresh_hex_def await_def resolve_def shared_request json_prop_def json_truthy_def exit_ok_def
        shared_status_def is_digit_def split: prod.splits)
  moreover have "read_file shared_host f v = (Inr (stringify shared_record), v)" for f v
    by (simp add: shared_host_def)
  moreover have "persisted shared_record = Some (''/s'', JNum ''1080'')"
    by (simp add: persisted_def shared_record_def json_prop_def json_truthy_def json_string_def)
  ultimately show ?thesis by (auto simp: tryReconnect_def parse_stringify [OF ok])
qed

theorem session_ignores_port_witness:
  "\<exists>k' w'. client_start shared_host clear_crypto \<lparr>instance_of = Some \<lparr>masterKey = Some [1], rotationMs = 1\<rparr>, stored = None\<rparr>
        (destination_options ''host'' None (Some 2222) shared_options shared_deps) (new_client, ()) = (Inr (), k', w')
     \<and> o_sshArgs (destination_options ''host'' None (Some 2222) shared_options shared_deps)
       \<noteq> o_sshArgs (destination_options ''host'' None (Some 22) shared_options shared_deps)"
proof -
  let ?sec = "\<lparr>instance_of = Some \<lparr>masterKey = Some [1], rotationMs = 1\<rparr>, stored = None\<rparr>"
  let ?p = "destination_options ''host'' None (Some 22) shared_options shared_deps"
  obtain token where t: "deriveSshSessionToken clear_crypto (o_destination ?p) ?sec = Inr token"
    by (simp add: deriveSshSessionToken_def deriveToken_def)
  obtain k2 w2 where r: "tryReconnect shared_host (new_client\<lparr>k_dataFilePath := data_file_of ?p, k_tokenHex := hex_encode token,
      k_logFilePath := log_file_of ?p\<rparr>, ()) = (Some shared_status, k2, w2)"
    using shared_reconnect by blast
  have "(22::nat) \<noteq> 2222" "(0::nat) < 22" "(0::nat) < 2222" "\<not> k_started new_client" by (simp_all add: new_client_def)
  from session_ignores_port [OF this t r] show ?thesis by blast
qed

end
