(* ===== verification/Socks5.thy ===== *)
theory Socks5
  imports Prelude
begin

text \<open>
  \<^verbatim>\<open>src/net/socks5.ts\<close>: the SOCKS5 CONNECT client. \<open>socks\<close> is the state the closures of
  \<^verbatim>\<open>socks5Connect\<close> share, \<open>on_event\<close> one socket or timer event. The lemmas show that a reader
  of the tunnelled stream sees the same bytes however the proxy's replies were cut into
  \<^verbatim>\<open>data\<close> events, that the promise settles once, and what the server reads from a request.

  \<open>tunneled\<close> collects what the consumer of the returned socket receives: the bytes that came
  with the reply, delivered first, and every later event. Node delivers no data on a destroyed
  socket. The default of 15 seconds is a parameter of the timer, which is an event here.
\<close>

section \<open>Requests\<close>

definition parseIPv4 :: "string \<Rightarrow> bytes option" where
  "parseIPv4 host =
     (let parts = js_split CHR ''.'' host;
          octets = map parse_int parts
      in if length parts \<noteq> 4 then None
         else if list_all (\<lambda>n. case n of None \<Rightarrow> False | Some v \<Rightarrow> 0 \<le> v \<and> v \<le> 255) octets
         then Some (map (\<lambda>n. of_int (the n)) octets) else None)"

definition range_error :: js_error where
  "range_error = plain_error ''RangeError''"

text \<open>\<^verbatim>\<open>writeUInt16BE\<close> throws when the port does not fit; \<^verbatim>\<open>Buffer.from\<close> keeps the low byte of the
  host length.\<close>

definition buildConnectRequest :: "string \<Rightarrow> nat \<Rightarrow> bytes result" where
  "buildConnectRequest host port =
     (if port > 65535 then Inl range_error
      else case parseIPv4 host of
             Some ipv4 \<Rightarrow> Inr ([5, 1, 0, 1] @ ipv4 @ be16 port)
           | None \<Rightarrow> Inr ([5, 1, 0, 3, of_nat (length (utf8_bytes host))] @ utf8_bytes host @ be16 port))"

section \<open>The handshake\<close>

datatype socks_phase = Greeting | Connect | Done

datatype socks_outcome = Resolved | Rejected js_error

record socks =
  phase :: socks_phase
  buf :: bytes
  written :: "bytes list"
  outcome :: "socks_outcome option"
  listening :: bool
  timer :: bool
  destroyed :: bool
  uncaught :: bool
  tunneled :: bytes

definition socks_init :: socks where
  "socks_init = \<lparr>phase = Greeting, buf = [], written = [], outcome = None, listening = True,
     timer = True, destroyed = False, uncaught = False, tunneled = []\<rparr>"

definition refused :: "string \<Rightarrow> js_error" where
  "refused msg = JsError msg (Some ''ECONNREFUSED'') None"

text \<open>A promise keeps its first outcome.\<close>

definition settle :: "socks_outcome \<Rightarrow> socks \<Rightarrow> socks" where
  "settle r s = (if outcome s = None then s\<lparr>outcome := Some r\<rparr> else s)"

definition fail :: "string \<Rightarrow> socks \<Rightarrow> socks" where
  "fail msg s = settle (Rejected (refused msg)) (s\<lparr>timer := False, listening := False, destroyed := True\<rparr>)"

text \<open>Each handler returns whether it consumed a message, so that the loop goes on.\<close>

definition processGreeting :: "string \<Rightarrow> nat \<Rightarrow> socks \<Rightarrow> socks \<times> bool" where
  "processGreeting destHost destPort s =
     (if length (buf s) < 2 then (s, False)
      else if buf s ! 0 \<noteq> 5 \<or> buf s ! 1 \<noteq> 0 then
        (fail (''SOCKS5 greeting rejected (method='' @ dec (unat (buf s ! 1)) @ '')'') s, False)
      else let s' = s\<lparr>buf := drop 2 (buf s)\<rparr> in
        (case buildConnectRequest destHost destPort of
           Inl e \<Rightarrow> (s'\<lparr>uncaught := True\<rparr>, False)
         | Inr req \<Rightarrow> (s'\<lparr>written := written s @ [req], phase := Connect\<rparr>, True)))"

datatype reply = NeedMore | Bad string | Complete nat

definition connect_reply :: "bytes \<Rightarrow> reply" where
  "connect_reply b =
     (if length b < 4 then NeedMore
      else if b ! 0 \<noteq> 5 then Bad ''SOCKS5 bad version in reply''
      else if b ! 1 \<noteq> 0 then Bad (''SOCKS5 connect rejected (code='' @ dec (unat (b ! 1)) @ '')'')
      else if b ! 3 = 1 then (if length b < 10 then NeedMore else Complete 10)
      else if b ! 3 = 4 then (if length b < 22 then NeedMore else Complete 22)
      else if b ! 3 = 3 then
        (if length b < 5 then NeedMore
         else let replyLen = 4 + 1 + unat (b ! 4) + 2
              in if length b < replyLen then NeedMore else Complete replyLen)
      else Bad (''SOCKS5 unknown address type in reply (atyp='' @ dec (unat (b ! 3)) @ '')''))"

definition processConnect :: "socks \<Rightarrow> socks" where
  "processConnect s =
     (case connect_reply (buf s) of
        NeedMore \<Rightarrow> s
      | Bad msg \<Rightarrow> fail msg s
      | Complete replyLen \<Rightarrow>
          settle Resolved
            (s\<lparr>listening := False, timer := False, phase := Done,
               tunneled := tunneled s @ drop replyLen (buf s)\<rparr>))"

text \<open>The loop of \<^verbatim>\<open>onData\<close>: the greeting may be followed by the reply in the same event.\<close>

definition socks_loop :: "string \<Rightarrow> nat \<Rightarrow> socks \<Rightarrow> socks" where
  "socks_loop destHost destPort s =
     (case phase s of
        Greeting \<Rightarrow> (case processGreeting destHost destPort s of
                       (s', True) \<Rightarrow> processConnect s'
                     | (s', False) \<Rightarrow> s')
      | Connect \<Rightarrow> processConnect s
      | Done \<Rightarrow> s)"

definition on_data :: "string \<Rightarrow> nat \<Rightarrow> socks \<Rightarrow> bytes \<Rightarrow> socks" where
  "on_data destHost destPort s chunk =
     (if destroyed s then s
      else if \<not> listening s then s\<lparr>tunneled := tunneled s @ chunk\<rparr>
      else socks_loop destHost destPort (s\<lparr>buf := buf s @ chunk\<rparr>))"

datatype socks_event = Connected | Data bytes | SockError js_error | TimedOut nat

fun on_event :: "string \<Rightarrow> nat \<Rightarrow> socks \<Rightarrow> socks_event \<Rightarrow> socks" where
  "on_event h p s Connected =
     (if destroyed s then s else s\<lparr>written := written s @ [[5, 1, 0]]\<rparr>)"
| "on_event h p s (Data chunk) = on_data h p s chunk"
| "on_event h p s (SockError e) = settle (Rejected e) (s\<lparr>timer := False\<rparr>)"
| "on_event h p s (TimedOut ms) =
     (if timer s
      then settle (Rejected (refused (''SOCKS5 connect timed out after '' @ dec ms @ ''ms'')))
             (s\<lparr>timer := False, destroyed := True\<rparr>)
      else s)"

definition socks5Connect :: "string \<Rightarrow> nat \<Rightarrow> socks_event list \<Rightarrow> socks" where
  "socks5Connect destHost destPort es = foldl (on_event destHost destPort) socks_init es"

section \<open>How a reply grows\<close>

lemma connect_reply_more:
  assumes "connect_reply b \<noteq> NeedMore"
  shows "connect_reply (b @ c) = connect_reply b"
proof -
  have l: "\<not> length b < 4" using assms by (auto simp: connect_reply_def)
  then have n: "(b @ c) ! 0 = b ! 0" "(b @ c) ! 1 = b ! 1" "(b @ c) ! 3 = b ! 3"
    by (auto simp: nth_append)
  have n4: "\<not> length b < 5 \<Longrightarrow> (b @ c) ! 4 = b ! 4" by (auto simp: nth_append)
  show ?thesis
    using assms l n4 unfolding connect_reply_def Let_def n by (simp split: if_split_asm)
qed

lemma connect_reply_le: "connect_reply b = Complete n \<Longrightarrow> n \<le> length b"
  by (auto simp: connect_reply_def Let_def split: if_splits)

definition seen :: "socks \<Rightarrow> socks_phase \<times> bytes list \<times> socks_outcome option \<times> bool \<times> bytes" where
  "seen s = (phase s, written s, outcome s, destroyed s, tunneled s)"

text \<open>Between events the reader waits for bytes: the loop has nothing left to do.\<close>

definition waiting :: "string \<Rightarrow> nat \<Rightarrow> socks \<Rightarrow> bool" where
  "waiting h p s =
     (p \<le> 65535
      \<and> (destroyed s \<or> \<not> listening s \<or>
         (case phase s of Greeting \<Rightarrow> length (buf s) < 2
                        | Connect \<Rightarrow> connect_reply (buf s) = NeedMore | Done \<Rightarrow> True)))"

lemma settle_simps [simp]:
  "phase (settle r s) = phase s" "buf (settle r s) = buf s" "written (settle r s) = written s"
  "listening (settle r s) = listening s" "timer (settle r s) = timer s"
  "destroyed (settle r s) = destroyed s" "uncaught (settle r s) = uncaught s"
  "tunneled (settle r s) = tunneled s"
  "outcome (settle r s) = (if outcome s = None then Some r else outcome s)"
  by (simp_all add: settle_def)

lemma fail_simps [simp]:
  "destroyed (fail m s)" "\<not> listening (fail m s)" "\<not> timer (fail m s)" "tunneled (fail m s) = tunneled s"
  "phase (fail m s) = phase s" "written (fail m s) = written s"
  "outcome (fail m s) = (if outcome s = None then Some (Rejected (refused m)) else outcome s)"
  by (simp_all add: fail_def)

lemma build_ok: "p \<le> 65535 \<Longrightarrow> \<exists>req. buildConnectRequest h p = Inr req"
  by (auto simp: buildConnectRequest_def split: option.splits)

lemma waiting_data: "waiting h p s \<Longrightarrow> waiting h p (on_data h p s a)"
  using build_ok [of p h]
  by (auto simp: waiting_def on_data_def socks_loop_def processGreeting_def processConnect_def Let_def
      split: socks_phase.splits reply.splits if_splits sum.splits)

text \<open>Data while the reply is awaited, and while the greeting is.\<close>

lemma connect_twice:
  assumes "phase s = Connect" "listening s" "\<not> destroyed s"
  shows "seen (on_data h p (processConnect (s\<lparr>buf := x\<rparr>)) c) = seen (processConnect (s\<lparr>buf := x @ c\<rparr>))"
proof (cases "connect_reply x")
  case NeedMore
  with assms show ?thesis by (simp add: processConnect_def on_data_def socks_loop_def)
next
  case (Bad m)
  with assms connect_reply_more [of x c] show ?thesis
    by (simp add: processConnect_def on_data_def seen_def)
next
  case (Complete n)
  with assms connect_reply_more [of x c] connect_reply_le [OF Complete] show ?thesis
    by (simp add: processConnect_def on_data_def seen_def)
qed

lemma data_twice:
  assumes "waiting h p s"
  shows "seen (on_data h p (on_data h p s a) b) = seen (on_data h p s (a @ b))"
proof (cases "destroyed s \<or> \<not> listening s")
  case True
  then show ?thesis by (auto simp: on_data_def seen_def)
next
  case False
  then have live: "\<not> destroyed s" "listening s" by auto
  obtain req where req: "buildConnectRequest h p = Inr req"
    using assms build_ok by (auto simp: waiting_def)
  show ?thesis
  proof (cases "phase s")
    case Greeting
    let ?x = "buf s @ a"
    show ?thesis
    proof (cases "length ?x < 2")
      case True
      with Greeting live show ?thesis by (simp add: on_data_def socks_loop_def processGreeting_def)
    next
      case False
      then have nth: "(?x @ b) ! 0 = ?x ! 0" "(?x @ b) ! 1 = ?x ! 1" by (auto simp: nth_append)
      show ?thesis
      proof (cases "?x ! 0 \<noteq> 5 \<or> ?x ! 1 \<noteq> 0")
        case True
        with False Greeting live nth show ?thesis
          by (auto simp: on_data_def socks_loop_def processGreeting_def seen_def)
      next
        case ok: False
        let ?s = "s\<lparr>written := written s @ [req], phase := Connect\<rparr>"
        have upd: "?s\<lparr>buf := z\<rparr> = s\<lparr>buf := z, written := written s @ [req], phase := Connect\<rparr>" for z
          by simp
        have "on_data h p s a = processConnect (?s\<lparr>buf := drop 2 ?x\<rparr>)"
          using False Greeting live ok req unfolding upd
          by (simp add: on_data_def socks_loop_def processGreeting_def Let_def)
        moreover have "on_data h p s (a @ b) = processConnect (?s\<lparr>buf := drop 2 ?x @ b\<rparr>)"
          using False Greeting live ok req nth unfolding upd
          by (simp add: on_data_def socks_loop_def processGreeting_def Let_def)
        ultimately show ?thesis using connect_twice [of ?s h p "drop 2 ?x" b] live by simp
      qed
    qed
  next
    case Connect
    with live connect_twice [of s h p "buf s @ a" b] show ?thesis
      by (simp add: on_data_def socks_loop_def)
  next
    case Done
    with live show ?thesis by (simp add: on_data_def socks_loop_def seen_def)
  qed
qed

interpretation socks_stream: chunk_reader "on_data h p" "waiting h p" seen for h p
  by unfold_locales (simp_all add: waiting_data data_twice)

lemma processConnect_settled: "outcome s \<noteq> None \<Longrightarrow> outcome (processConnect s) = outcome s"
  by (auto simp: processConnect_def split: reply.splits)

lemma on_event_settled: "outcome s \<noteq> None \<Longrightarrow> outcome (on_event h p s e) = outcome s"
  by (cases e)
    (auto simp: on_data_def socks_loop_def processGreeting_def processConnect_settled Let_def
      split: socks_phase.splits if_splits sum.splits)

interpretation socks_promise: settling "on_event h p" "\<lambda>_. True" "\<lambda>s. outcome s \<noteq> None" outcome for h p
  by unfold_locales (auto simp: on_event_settled)

section \<open>What the proxy reads\<close>

text \<open>A reference reader of requests (RFC 1928): the fixed header, an IPv4 address or a domain
  name with its length byte, the port, and nothing else.\<close>

datatype socks_target = TargetIPv4 bytes | TargetDomain string

definition read_request :: "bytes \<Rightarrow> (socks_target \<times> nat) option" where
  "read_request b =
     (if take 3 b \<noteq> [5, 1, 0] \<or> length b < 5 then None
      else if b ! 3 = 1 then
        (if length b = 10 then Some (TargetIPv4 (take 4 (drop 4 b)), read_be16 (drop 8 b)) else None)
      else if b ! 3 = 3 then
        (let n = unat (b ! 4)
         in if length b = 7 + n
            then Some (TargetDomain (utf8_string (take n (drop 5 b))), read_be16 (drop (5 + n) b))
            else None)
      else None)"

lemma parseIPv4_length: "parseIPv4 host = Some ip \<Longrightarrow> length ip = 4"
  by (auto simp: parseIPv4_def Let_def split: if_splits)

lemma length4: "length ip = 4 \<Longrightarrow> \<exists>a b c d. ip = [a, b, c, d]"
  by (auto simp: length_Suc_conv numeral_eq_Suc)

lemma read_be16_be16' [simp]: "n \<le> 65535 \<Longrightarrow> read_be16 (be16 n) = n"
  using read_be16_be16 [of n "[]"] by simp

section \<open>The tunnel\<close>

lemma on_event_data: "foldl (on_event h p) s (map Data cs) = foldl (on_data h p) s cs"
  by (induction cs arbitrary: s) simp_all

lemma waiting_start: "p \<le> 65535 \<Longrightarrow> waiting h p (on_event h p socks_init Connected)"
  by (simp add: waiting_def socks_init_def)

lemma connect_chunks:
  "p \<le> 65535 \<Longrightarrow> cs \<noteq> [] \<Longrightarrow>
   seen (socks5Connect h p (Connected # map Data cs))
     = seen (on_data h p (on_event h p socks_init Connected) (concat cs))"
  unfolding socks5Connect_def foldl.simps on_event_data
  by (rule socks_stream.feed_all [OF waiting_start])

text \<open>A successful reply, put together from its fields.\<close>

definition reply_address :: "byte \<Rightarrow> bytes \<Rightarrow> bool" where
  "reply_address atyp addr =
     (atyp = 1 \<and> length addr = 4 \<or> atyp = 4 \<and> length addr = 16
      \<or> atyp = 3 \<and> addr \<noteq> [] \<and> length addr = 1 + unat (hd addr))"

lemma connect_reply_ok:
  assumes "reply_address atyp addr" "length bnd = 2"
  shows "connect_reply ([5, 0, rsv, atyp] @ addr @ bnd @ rest) = Complete (6 + length addr)"
  using assms by (auto simp: connect_reply_def reply_address_def Let_def neq_Nil_conv)

section \<open>Errors\<close>

definition errors_ok :: "js_error set \<Rightarrow> socks \<Rightarrow> bool" where
  "errors_ok E s = (\<forall>e. outcome s = Some (Rejected e) \<longrightarrow> e \<in> E \<or> err_code e = Some ''ECONNREFUSED'')"

lemma processConnect_errors: "errors_ok E s \<Longrightarrow> errors_ok E (processConnect s)"
  by (auto simp: errors_ok_def processConnect_def refused_def split: reply.splits)

lemma on_data_errors: "errors_ok E s \<Longrightarrow> errors_ok E (on_data h p s c)"
proof -
  assume e: "errors_ok E s"
  have g: "errors_ok E (fst (processGreeting h p (s\<lparr>buf := b\<rparr>)))" for b
    using e by (auto simp: errors_ok_def processGreeting_def refused_def Let_def split: sum.splits)
  have b: "errors_ok E (s\<lparr>buf := b\<rparr>)" for b using e by (simp add: errors_ok_def)
  have "errors_ok E (socks_loop h p (s\<lparr>buf := b\<rparr>))" for b
    using g [of b] b [of b] processConnect_errors
    by (cases "phase s") (auto simp: socks_loop_def split: prod.splits bool.splits)
  then show ?thesis using e by (simp add: on_data_def) (simp add: errors_ok_def)
qed

lemma run_errors: "errors_ok E s \<Longrightarrow> {e. SockError e \<in> set es} \<subseteq> E \<Longrightarrow> errors_ok E (foldl (on_event h p) s es)"
proof (induction es arbitrary: s)
  case (Cons x es)
  have "errors_ok E (on_event h p s x)"
    using Cons.prems on_data_errors by (cases x) (auto simp: errors_ok_def refused_def)
  with Cons show ?case by auto
qed simp

section \<open>Properties\<close>

text \<open>C3. However the proxy's bytes are cut into \<^verbatim>\<open>data\<close> events, one per byte or the greeting, the
  reply and application data in one, the connection ends the same way: the same requests
  written, the same outcome, and the same bytes for the consumer of the tunnel.\<close>

theorem socks_chunking:
  assumes "destPort \<le> 65535" and "cs \<noteq> []" and "ds \<noteq> []" and "concat cs = concat ds"
  shows "seen (socks5Connect destHost destPort (Connected # map Data cs))
       = seen (socks5Connect destHost destPort (Connected # map Data ds))"
  using assms by (simp add: connect_chunks)

theorem socks_chunking_witness:
  "seen (socks5Connect ''db'' 80 (Connected # map Data [[5], [0, 5, 0], [0, 1, 9, 9, 9, 9, 1, 2, 7], [8]]))
   = seen (socks5Connect ''db'' 80 (Connected # map Data [[5, 0, 5, 0, 0, 1, 9, 9, 9, 9, 1, 2, 7, 8]]))"
  by (rule socks_chunking) simp_all

text \<open>Against a proxy that accepts (method 0, then a success reply with an IPv4, IPv6 or domain
  address), cut into events in any way, the promise resolves, exactly the greeting and the
  request were written, and the consumer receives every byte after the reply, from the first.\<close>

theorem socks_tunnel:
  assumes "buildConnectRequest destHost destPort = Inr req"
    and "reply_address atyp addr" and "length bnd = 2"
    and "cs \<noteq> []" and "concat cs = [5, 0] @ [5, 0, rsv, atyp] @ addr @ bnd @ rest"
  shows "seen (socks5Connect destHost destPort (Connected # map Data cs))
       = (Done, [[5, 1, 0], req], Some Resolved, False, rest)"
proof -
  have p: "destPort \<le> 65535" using assms(1) by (auto simp: buildConnectRequest_def split: if_splits)
  have "connect_reply ([5, 0, rsv, atyp] @ addr @ bnd @ rest) = Complete (6 + length addr)"
    by (rule connect_reply_ok) (use assms in simp_all)
  moreover have "drop (6 + length addr) ([5, 0, rsv, atyp] @ addr @ bnd @ rest) = rest"
  proof -
    have "6 + length addr = Suc (Suc (Suc (Suc (length (addr @ bnd)))))" using assms(3) by simp
    then show ?thesis by (simp only: append_Cons append_Nil drop_Suc_Cons) simp
  qed
  ultimately show ?thesis
    unfolding connect_chunks [OF p assms(4)] assms(5)
    using assms(1)
    by (simp add: on_data_def socks_init_def socks_loop_def processGreeting_def processConnect_def seen_def)
qed

theorem socks_tunnel_witness:
  "tunneled (socks5Connect ''db'' 80 (Connected # map Data [[5], [0, 5, 0, 0, 3], [1, 65, 0, 80, 42], [43]])) = [42, 43]"
proof -
  have "buildConnectRequest ''db'' 80 = Inr ([5, 1, 0, 3, 2] @ utf8_bytes ''db'' @ be16 80)"
    by (simp add: buildConnectRequest_def parseIPv4_def)
  from socks_tunnel [OF this, of 3 "[1, 65]" "[0, 80]" "[[5], [0, 5, 0, 0, 3], [1, 65, 0, 80, 42], [43]]" 0 "[42, 43]"]
  show ?thesis by (simp add: reply_address_def seen_def)
qed

text \<open>The first outcome of the connection is final: whatever events follow, a resolved promise
  stays resolved and a rejected one keeps its error.\<close>

theorem socks_settles_once:
  assumes "outcome (socks5Connect destHost destPort es) \<noteq> None"
  shows "outcome (socks5Connect destHost destPort (es @ fs)) = outcome (socks5Connect destHost destPort es)"
  using assms socks_promise.first_verdict [where s = socks_init and es = es and fs = fs and h = destHost and p = destPort]
  by (simp add: socks5Connect_def)

theorem socks_settles_once_witness:
  "outcome (socks5Connect ''db'' 80 ([TimedOut 5] @ [Data [5, 0], SockError range_error]))
   = Some (Rejected (refused ''SOCKS5 connect timed out after 5ms''))"
proof -
  have "outcome (socks5Connect ''db'' 80 [TimedOut 5])
      = Some (Rejected (refused ''SOCKS5 connect timed out after 5ms''))"
    by (simp add: socks5Connect_def socks_init_def dec.simps)
  with socks_settles_once [of "''db''" 80 "[TimedOut 5]" "[Data [5, 0], SockError range_error]"]
  show ?thesis by simp
qed

text \<open>Every rejection is one the editor retries: an error of this client carries the code
  \<^verbatim>\<open>ECONNREFUSED\<close>, and any other error is a socket's own, passed on unchanged.\<close>

theorem socks_errors_retryable:
  assumes "outcome (socks5Connect destHost destPort es) = Some (Rejected e)"
  shows "err_code e = Some ''ECONNREFUSED'' \<or> SockError e \<in> set es"
proof -
  have "errors_ok {e. SockError e \<in> set es} (socks5Connect destHost destPort es)"
    unfolding socks5Connect_def by (rule run_errors) (simp_all add: errors_ok_def socks_init_def)
  with assms show ?thesis by (auto simp: errors_ok_def)
qed

theorem socks_errors_retryable_witness:
  "err_code (refused ''SOCKS5 greeting rejected (method=255)'') = Some ''ECONNREFUSED''"
proof -
  have "outcome (socks5Connect ''db'' 80 [Connected, Data [5, 255]])
      = Some (Rejected (refused ''SOCKS5 greeting rejected (method=255)''))"
    by (simp add: socks5Connect_def socks_init_def on_data_def socks_loop_def processGreeting_def
        fail_def dec.simps)
  from socks_errors_retryable [OF this] show ?thesis by auto
qed

text \<open>The proxy reads back from a request the host and port it was built for, with one
  exception: for a host name of more than 255 bytes the length byte wraps around and the request
  is malformed, although it is sent all the same.\<close>

theorem connect_request_readable:
  assumes "destPort \<le> 65535"
  shows "\<exists>req. buildConnectRequest destHost destPort = Inr req
    \<and> read_request req =
        (case parseIPv4 destHost of
           Some ip \<Rightarrow> Some (TargetIPv4 ip, destPort)
         | None \<Rightarrow> if length destHost \<le> 255 then Some (TargetDomain destHost, destPort) else None)"
proof (cases "parseIPv4 destHost")
  case (Some ip)
  then obtain a b c d where "ip = [a, b, c, d]" using length4 parseIPv4_length by blast
  with Some assms show ?thesis
    by (simp add: buildConnectRequest_def read_request_def numeral_3_eq_3)
next
  case None
  let ?n = "length destHost"
  have wrap: "?n = ?n mod 256 \<longleftrightarrow> ?n \<le> 255"
    using mod_less_divisor [of 256 ?n] mod_less [of ?n 256] by linarith
  define req where "req = [5, 1, 0, 3, of_nat ?n] @ utf8_bytes destHost @ be16 destPort"
  have "buildConnectRequest destHost destPort = Inr req"
    using None assms by (simp add: buildConnectRequest_def req_def)
  moreover have "length req = 7 + ?n" "take 3 req = [5, 1, 0]" "req ! 3 = 3" "unat (req ! 4) = ?n mod 256"
    by (simp_all add: req_def unat_byte_of_nat)
  moreover have "drop 5 req = utf8_bytes destHost @ be16 destPort" by (simp add: req_def)
  then have "take ?n (drop 5 req) = utf8_bytes destHost" "drop (?n + 5) req = be16 destPort"
    by (simp_all add: drop_drop [symmetric] del: drop_drop)
  then have "take ?n (drop 5 req) = utf8_bytes destHost" "read_be16 (drop (5 + ?n) req) = destPort"
    using assms by (simp_all add: add.commute)
  ultimately show ?thesis using None wrap by (auto simp: read_request_def Let_def)
qed

theorem connect_request_readable_witness:
  "\<exists>req. buildConnectRequest ''db.example'' 5432 = Inr req
     \<and> read_request req = Some (TargetDomain ''db.example'', 5432)"
proof -
  have "parseIPv4 ''db.example'' = None" by (simp add: parseIPv4_def)
  with connect_request_readable [of 5432 "''db.example''"] show ?thesis by simp
qed

text \<open>Four numbers between 0 and 255 separated by dots are an IPv4 address, with whatever text
  follows the digits of each number ignored: \<^verbatim>\<open>10.0.0.1\<close> is read as written, and the host name
  \<^verbatim>\<open>10a.20b.30c.40d\<close> as the address 10.20.30.40.\<close>

theorem ipv4_octets:
  assumes "length octets = 4" and "length tails = 4"
    and "\<forall>t \<in> set tails. CHR ''.'' \<notin> set t \<and> (t = [] \<or> \<not> is_digit (hd t))"
  shows "parseIPv4 (js_join ''.'' (map2 (\<lambda>n t. dec (unat n) @ t) octets tails)) = Some octets"
proof -
  let ?parts = "map2 (\<lambda>n t. dec (unat n) @ t) octets tails"
  have nodot: "CHR ''.'' \<notin> set (dec n)" for n
    using dec_digits [of n] by (auto simp: list_all_iff is_digit_def)
  have ne: "?parts \<noteq> []" using assms(1,2) by auto
  have "\<forall>x \<in> set ?parts. CHR ''.'' \<notin> set x"
    using assms(3) nodot by (auto dest: set_zip_rightD)
  then have split: "js_split CHR ''.'' (js_join ''.'' ?parts) = ?parts" using ne by (rule js_split_join [rotated])
  have "map parse_int ?parts = map (\<lambda>n. Some (int (unat n))) octets"
  proof (rule nth_equalityI)
    fix i assume "i < length (map parse_int ?parts)"
    then have i: "i < length octets" "i < length tails" by auto
    then have "tails ! i = [] \<or> \<not> is_digit (hd (tails ! i))" using assms(3) by simp
    then have "parse_int (dec (unat (octets ! i)) @ tails ! i) = Some (int (unat (octets ! i)))"
      using parse_int_digits [OF all_digits_dec, of "tails ! i" "unat (octets ! i)"] by simp
    with i show "map parse_int ?parts ! i = map (\<lambda>n. Some (int (unat n))) octets ! i" by simp
  qed (use assms in simp)
  moreover have "uint n \<le> 255" for n :: byte
  proof -
    have "uint n < 2 ^ LENGTH(8)" by (rule unsigned_less)
    then show ?thesis by simp
  qed
  ultimately show ?thesis
    using assms(1,2) split by (simp add: parseIPv4_def Let_def list_all_iff comp_def)
qed

theorem ipv4_octets_witness:
  "parseIPv4 ''10a.20b.30c.40d'' = Some [10, 20, 30, 40] \<and> parseIPv4 ''10.0.0.1'' = Some [10, 0, 0, 1]"
  using ipv4_octets [of "[10, 20, 30, 40]" "[''a'', ''b'', ''c'', ''d'']"]
    ipv4_octets [of "[10, 0, 0, 1]" "[[], [], [], []]"]
  by (simp add: dec.simps is_digit_def)

end
