(* ===== verification/Events.thy ===== *)
theory Events
  imports Socks5
begin

text \<open>
  \<^verbatim>\<open>src/common/event.ts\<close> and \<^verbatim>\<open>src/net/managedConnection.ts\<close>: the event emitter of the program, and
  the socket of a SOCKS5 tunnel as VS Code's \<^verbatim>\<open>ManagedMessagePassing\<close>. A listener is known by a
  number; the emitter is the set of its listeners in the order of registration, and \<open>deliveries\<close>
  is what they have been called with. The lemmas say who receives what, and that the close of
  a connection is announced once, with the first reason.
\<close>

section \<open>The emitter\<close>

record 'e emitter =
  listeners :: "nat list"
  deliveries :: "(nat \<times> 'e) list"

definition newEvent :: "'e emitter" where
  "newEvent = \<lparr>listeners = [], deliveries = []\<rparr>"

text \<open>A JavaScript \<^verbatim>\<open>Set\<close> keeps the place of a member that is added again.\<close>

definition event_listen :: "'e emitter \<Rightarrow> nat \<Rightarrow> 'e emitter" where
  "event_listen s l = (if l \<in> set (listeners s) then s else s\<lparr>listeners := listeners s @ [l]\<rparr>)"

definition event_unlisten :: "'e emitter \<Rightarrow> nat \<Rightarrow> 'e emitter" where
  "event_unlisten s l = s\<lparr>listeners := filter (\<lambda>x. x \<noteq> l) (listeners s)\<rparr>"

definition event_fire :: "'e emitter \<Rightarrow> 'e \<Rightarrow> 'e emitter" where
  "event_fire s e = s\<lparr>deliveries := deliveries s @ map (\<lambda>l. (l, e)) (listeners s)\<rparr>"

definition event_dispose :: "'e emitter \<Rightarrow> 'e emitter" where
  "event_dispose s = s\<lparr>listeners := []\<rparr>"

datatype 'e emitter_op = Listen nat | Unlisten nat | Fire 'e | DisposeAll

fun event_op :: "'e emitter \<Rightarrow> 'e emitter_op \<Rightarrow> 'e emitter" where
  "event_op s (Listen l) = event_listen s l"
| "event_op s (Unlisten l) = event_unlisten s l"
| "event_op s (Fire e) = event_fire s e"
| "event_op s DisposeAll = event_dispose s"

definition delivered_to :: "nat \<Rightarrow> 'e emitter \<Rightarrow> 'e list" where
  "delivered_to l s = map snd (filter (\<lambda>(i, e). i = l) (deliveries s))"

section \<open>A wrapped socket\<close>

datatype close_reason = ClosedBy js_error | ClosedCleanly

record managed =
  m_receive :: "bytes emitter"
  m_close :: "close_reason emitter"
  m_end :: "unit emitter"
  m_closed :: bool
  m_sent :: "bytes list"
  m_ended :: bool

definition wrapSocket :: managed where
  "wrapSocket = \<lparr>m_receive = newEvent, m_close = newEvent, m_end = newEvent, m_closed = False,
                 m_sent = [], m_ended = False\<rparr>"

datatype managed_event =
    MData bytes
  | MError js_error
  | MClose bool
  | MEnd
  | OnReceive nat
  | OnClose nat
  | OnEnd nat
  | Send bytes
  | SendEnd

fun managed_step :: "managed \<Rightarrow> managed_event \<Rightarrow> managed" where
  "managed_step s (MData chunk) = s\<lparr>m_receive := event_fire (m_receive s) chunk\<rparr>"
| "managed_step s (MError err) =
     (if \<not> m_closed s then s\<lparr>m_closed := True, m_close := event_fire (m_close s) (ClosedBy err)\<rparr> else s)"
| "managed_step s (MClose hadError) =
     (if \<not> m_closed s
      then s\<lparr>m_closed := True, m_close := event_fire (m_close s)
               (if hadError then ClosedBy (plain_error ''Socket closed with error'') else ClosedCleanly)\<rparr>
      else s)"
| "managed_step s MEnd = s\<lparr>m_end := event_fire (m_end s) ()\<rparr>"
| "managed_step s (OnReceive l) = s\<lparr>m_receive := event_listen (m_receive s) l\<rparr>"
| "managed_step s (OnClose l) = s\<lparr>m_close := event_listen (m_close s) l\<rparr>"
| "managed_step s (OnEnd l) = s\<lparr>m_end := event_listen (m_end s) l\<rparr>"
| "managed_step s (Send data) = s\<lparr>m_sent := m_sent s @ [data]\<rparr>"
| "managed_step s SendEnd = s\<lparr>m_ended := True\<rparr>"

section \<open>Lemmas\<close>

definition emitter_inv :: "'e emitter \<Rightarrow> bool" where
  "emitter_inv s = distinct (listeners s)"

lemmas emitter_defs = event_listen_def event_unlisten_def event_fire_def event_dispose_def

interpretation emitter: machine event_op emitter_inv
proof unfold_locales
  fix s :: "'a emitter" and e
  show "emitter_inv s \<Longrightarrow> emitter_inv (event_op s e)" by (cases e) (auto simp: emitter_inv_def emitter_defs)
qed

lemma delivered_simps [simp]:
  "delivered_to l (event_listen s k) = delivered_to l s"
  "delivered_to l (event_unlisten s k) = delivered_to l s"
  "delivered_to l (event_dispose s) = delivered_to l s"
  "delivered_to l newEvent = []"
  by (simp_all add: delivered_to_def event_listen_def event_unlisten_def event_dispose_def newEvent_def)

lemma fire_delivers:
  "emitter_inv s \<Longrightarrow> delivered_to l (event_fire s e) = delivered_to l s @ (if l \<in> set (listeners s) then [e] else [])"
proof -
  have "map snd (filter (\<lambda>(i, x). i = l) (map (\<lambda>k. (k, e)) ks)) = (if l \<in> set ks then [e] else [])" if "distinct ks" for ks
    using that
  proof (induction ks)
    case (Cons k ks)
    then show ?case by (cases "k = l") auto
  qed simp
  then show "emitter_inv s \<Longrightarrow> ?thesis"
    by (simp add: emitter_inv_def delivered_to_def event_fire_def)
qed

lemma listening_simps [simp]:
  "l \<in> set (listeners (event_listen s k)) \<longleftrightarrow> l = k \<or> l \<in> set (listeners s)"
  "l \<in> set (listeners (event_unlisten s k)) \<longleftrightarrow> l \<noteq> k \<and> l \<in> set (listeners s)"
  "listeners (event_fire s e) = listeners s"
  "listeners (event_dispose s) = []"
  by (auto simp: event_listen_def event_unlisten_def event_fire_def event_dispose_def)

text \<open>What a listener should receive: the events fired while it is registered.\<close>

fun heard :: "nat \<Rightarrow> bool \<Rightarrow> 'e emitter_op list \<Rightarrow> 'e list" where
  "heard l on [] = []"
| "heard l on (Listen k # ops) = heard l (on \<or> k = l) ops"
| "heard l on (Unlisten k # ops) = heard l (on \<and> k \<noteq> l) ops"
| "heard l on (Fire e # ops) = (if on then e # heard l on ops else heard l on ops)"
| "heard l on (DisposeAll # ops) = heard l False ops"

lemma heard_from:
  "emitter_inv s \<Longrightarrow>
   delivered_to l (foldl event_op s ops) = delivered_to l s @ heard l (l \<in> set (listeners s)) ops"
proof (induction ops arbitrary: s)
  case (Cons x ops)
  have "emitter_inv (event_op s x)" using Cons.prems by (rule emitter.inv_step)
  with Cons show ?case
    by (cases x) (auto simp: fire_delivers eq_commute disj_commute conj_commute)
qed simp

definition managed_inv :: "managed \<Rightarrow> bool" where
  "managed_inv s = (emitter_inv (m_close s) \<and> emitter_inv (m_receive s))"

interpretation managed: settling managed_step managed_inv m_closed "\<lambda>s. deliveries (m_close s)"
proof unfold_locales
  fix s :: managed and e
  show "managed_inv s \<Longrightarrow> managed_inv (managed_step s e)"
    by (cases e) (auto simp: managed_inv_def emitter_inv_def emitter_defs)
  show "managed_inv s \<Longrightarrow> m_closed s \<Longrightarrow>
      m_closed (managed_step s e) \<and> deliveries (m_close (managed_step s e)) = deliveries (m_close s)"
    by (cases e) (auto simp: emitter_defs)
qed

section \<open>Properties\<close>

text \<open>A listener is called with exactly the events fired while it is registered, each once and in
  order; what it did not hear is not delivered later, and registering twice changes nothing.\<close>

theorem emitter_delivers:
  "delivered_to l (foldl event_op newEvent ops) = heard l False ops"
  using heard_from [of newEvent l ops] by (simp add: emitter_inv_def) (simp add: newEvent_def)

text \<open>The close of a tunnelled connection is announced once: the first of its error and close
  events decides the reason, and no later event reaches the listeners of \<^verbatim>\<open>onDidClose\<close>.\<close>

theorem close_announced_once:
  assumes "m_closed (foldl managed_step wrapSocket es)"
  shows "deliveries (m_close (foldl managed_step wrapSocket (es @ later))) = deliveries (m_close (foldl managed_step wrapSocket es))
       \<and> length (delivered_to l (m_close (foldl managed_step wrapSocket es))) \<le> 1"
proof -
  have inv: "managed_inv wrapSocket" by (simp add: managed_inv_def emitter_inv_def wrapSocket_def newEvent_def)
  have "managed_inv s \<and> (m_closed s \<longrightarrow> length (delivered_to l (m_close s)) \<le> 1)
      \<and> (\<not> m_closed s \<longrightarrow> delivered_to l (m_close s) = [])"
    if "s = foldl managed_step wrapSocket xs" for s xs
    using that
  proof (induction xs arbitrary: s rule: rev_induct)
    case Nil
    with inv show ?case by (simp add: wrapSocket_def)
  next
    case (snoc x xs)
    let ?s = "foldl managed_step wrapSocket xs"
    from snoc.IH [OF refl] have h: "managed_inv ?s" "m_closed ?s \<longrightarrow> length (delivered_to l (m_close ?s)) \<le> 1"
      "\<not> m_closed ?s \<longrightarrow> delivered_to l (m_close ?s) = []" by auto
    have "managed_inv s" using snoc.prems managed.inv_step [OF h(1), of x] by simp
    with snoc.prems h show ?case
      by (cases x) (auto simp: fire_delivers managed_inv_def)
  qed
  then show ?thesis using managed.first_verdict [OF inv assms, of later] assms by blast
qed

theorem close_announced_once_witness:
  "length (delivered_to 4 (m_close (foldl managed_step wrapSocket [OnClose 4, MError (plain_error ''reset'')]))) \<le> 1"
  using close_announced_once [of "[OnClose 4, MError (plain_error ''reset'')]" "[MClose True]" 4] by (simp add: wrapSocket_def)

end
