(* ===== verification/ExecServer.thy ===== *)
theory ExecServer
  imports Busybox Transport Events
begin

text \<open>
  \<^verbatim>\<open>src/remote/execServer.ts\<close>: running commands and touching files on the remote host for other
  extensions, through the Go transport when there is one and otherwise through shell commands,
  whose text and whose output are modelled. What a caller gets is a JavaScript object, hence a
  \<^typ>\<open>json\<close>, since the transport's answers are passed on as they are. A spawned process is a
  machine over the events of its child process; \<^verbatim>\<open>Object.entries\<close> of an environment is the list of
  its entries.
\<close>

section \<open>File types\<close>

definition FT_UNKNOWN :: nat where "FT_UNKNOWN = 0"
definition FT_FILE :: nat where "FT_FILE = 1"
definition FT_DIR :: nat where "FT_DIR = 2"
definition FT_SYMLINK :: nat where "FT_SYMLINK = 64"

record file_stat =
  fs_type :: nat
  fs_ctime :: nat
  fs_mtime :: nat
  fs_size :: nat

type_synonym directory_entry = "nat \<times> string"

definition stat_object :: "file_stat \<Rightarrow> json" where
  "stat_object s = JObj [(''type'', JNum (dec (fs_type s))), (''ctime'', JNum (dec (fs_ctime s))),
                         (''mtime'', JNum (dec (fs_mtime s))), (''size'', JNum (dec (fs_size s)))]"

definition entries_object :: "directory_entry list \<Rightarrow> json" where
  "entries_object es = JArr (map (\<lambda>(t, n). JObj [(''type'', JNum (dec t)), (''name'', JStr n)]) es)"

section \<open>Commands\<close>

definition env_name_start :: "char \<Rightarrow> bool" where
  "env_name_start c = (65 \<le> (of_char c :: nat) \<and> of_char c \<le> (90 :: nat)
     \<or> 97 \<le> (of_char c :: nat) \<and> of_char c \<le> (122 :: nat) \<or> c = CHR ''_'')"

text \<open>\<^verbatim>\<open>/^[A-Za-z_][A-Za-z0-9_]*$/.test(k)\<close>.\<close>

definition env_name :: "string \<Rightarrow> bool" where
  "env_name k = (case k of [] \<Rightarrow> False
                 | c # r \<Rightarrow> env_name_start c \<and> list_all (\<lambda>x. env_name_start x \<or> is_digit x) r)"

fun env_parts :: "(string \<times> string) list \<Rightarrow> string list result" where
  "env_parts [] = Inr []"
| "env_parts ((k, v) # kvs) =
     (if \<not> env_name k then Inl (plain_error (''Invalid env var name: '' @ k))
      else case env_parts kvs of
             Inl e \<Rightarrow> Inl e
           | Inr ps \<Rightarrow> Inr ((k @ ''='' @ shellQuote v) # ps))"

definition CD_SCRIPT :: string where
  "CD_SCRIPT = ''cd \"$0\" && exec \"$@\"''"

definition buildCommand ::
    "string \<Rightarrow> string list \<Rightarrow> (string \<times> string) list option \<Rightarrow> string option \<Rightarrow> string result" where
  "buildCommand command args envv cwd =
     (case (case envv of None \<Rightarrow> Inr [] | Some kvs \<Rightarrow> map_sum id ((#) ''env'') (env_parts kvs)) of
        Inl e \<Rightarrow> Inl e
      | Inr ps \<Rightarrow>
          Inr (js_join '' '' (ps
            @ (if truthy cwd then [''sh -c '' @ shellQuote CD_SCRIPT @ '' '' @ shellQuote (nullish cwd [])] else [])
            @ [command] @ map shellQuote args)))"

section \<open>Spawned processes\<close>

record process_exit =
  exit_status :: nat
  exit_message :: "string option"

datatype exit_event = ChildClosed "nat option" "string option" | ChildFailed string

definition exit_of :: "exit_event \<Rightarrow> process_exit" where
  "exit_of e =
     (case e of
        ChildClosed code signal \<Rightarrow>
          \<lparr>exit_status = nullish code (if truthy signal then 1 else 0),
           exit_message = (if truthy signal then Some (''killed by signal '' @ nullish signal []) else None)\<rparr>
      | ChildFailed message \<Rightarrow> \<lparr>exit_status = 1, exit_message = Some message\<rparr>)"

text \<open>A promise keeps its first resolution.\<close>

definition onExit_event :: "process_exit option \<Rightarrow> exit_event \<Rightarrow> process_exit option" where
  "onExit_event p e = keep_first p (exit_of e)"

definition onExit :: "exit_event list \<Rightarrow> process_exit option" where
  "onExit es = foldl onExit_event None es"

text \<open>The stream of a child's output fires an event per chunk and ends with the close.\<close>

record read_stream =
  r_event :: "bytes emitter"
  r_ended :: bool

datatype read_event = ReadChunk bytes | ReadClosed | ReadListen nat

definition newReadStream :: read_stream where
  "newReadStream = \<lparr>r_event = newEvent, r_ended = False\<rparr>"

fun read_step :: "read_stream \<Rightarrow> read_event \<Rightarrow> read_stream" where
  "read_step s (ReadChunk c) = s\<lparr>r_event := event_fire (r_event s) c\<rparr>"
| "read_step s ReadClosed = s\<lparr>r_ended := True\<rparr>"
| "read_step s (ReadListen l) = s\<lparr>r_event := event_listen (r_event s) l\<rparr>"

text \<open>\<open>run_child\<close> starts a child process on the connection.\<close>

datatype 'c spawned_command = OverSsh 'c | OverTransport "('c \<times> spawned)"

definition es_spawn ::
    "(string \<Rightarrow> ('w, 'c) promise) \<Rightarrow> (('w, 'c) net \<times> string) option
      \<Rightarrow> string \<Rightarrow> string list \<Rightarrow> (string \<times> string) list option \<Rightarrow> string option \<Rightarrow> ('w, 'c spawned_command) promise" where
  "es_spawn run_child transport command args envv cwd =
     (case buildCommand command args envv cwd of
        Inl e \<Rightarrow> reject e
      | Inr fullCmd \<Rightarrow>
          (case transport of
             Some (N, token) \<Rightarrow>
               await (spawn N token ''sh'' [''-c'', fullCmd] None None) (\<lambda>p. resolve (OverTransport p))
           | None \<Rightarrow> await (run_child fullCmd) (\<lambda>c. resolve (OverSsh c))))"

section \<open>The remote environment\<close>

definition os_platform :: "string \<Rightarrow> string" where
  "os_platform platOut =
     (if platOut = ''Linux'' then ''linux'' else if platOut = ''Darwin'' then ''darwin'' else to_lower platOut)"

text \<open>An object's properties, in order of creation; assigning a string to \<^verbatim>\<open>__proto__\<close> has no effect.\<close>

fun set_prop :: "(string \<times> 'a) list \<Rightarrow> string \<Rightarrow> 'a \<Rightarrow> (string \<times> 'a) list" where
  "set_prop [] k v = [(k, v)]"
| "set_prop ((k', v') # r) k v = (if k' = k then (k, v) # r else (k', v') # set_prop r k v)"

definition env_line :: "(string \<times> string) list \<Rightarrow> string \<Rightarrow> (string \<times> string) list" where
  "env_line env line =
     (case index_of (CHR ''='') line of
        None \<Rightarrow> env
      | Some eq \<Rightarrow> if 0 < eq \<and> take eq line \<noteq> ''__proto__''
                    then set_prop env (take eq line) (drop (eq + 1) line) else env)"

definition parse_env :: "string \<Rightarrow> (string \<times> string) list" where
  "parse_env stdout = foldl env_line [] (js_split (CHR 0x0A) stdout)"

definition env_object :: "(string \<times> string) list \<Rightarrow> string \<Rightarrow> string option \<Rightarrow> json" where
  "env_object env osPlatform osRelease =
     JObj ([(''env'', string_map_json env), (''osPlatform'', JStr osPlatform)]
           @ opt_field ''osRelease'' (map_option JStr osRelease))"

definition es_env :: "'w conn \<Rightarrow> (('w, 's) net \<times> string) option \<Rightarrow> ('w, json) promise" where
  "es_env conn transport =
     (case transport of
        Some (N, token) \<Rightarrow> exec_env N token
      | None \<Rightarrow>
          await (c_exec conn ''uname -s'' None) (\<lambda>plat.
          await (c_exec conn ''uname -r'' None) (\<lambda>rel.
          await (c_exec conn ''env'' None) (\<lambda>envr.
            let osRelease = trim (out_stdout rel)
            in resolve (env_object (parse_env (out_stdout envr)) (os_platform (trim (out_stdout plat)))
                          (if osRelease = [] then None else Some osRelease))))))"

definition es_kill :: "'w conn \<Rightarrow> (('w, 's) net \<times> string) option \<Rightarrow> nat \<Rightarrow> ('w, unit) promise" where
  "es_kill conn transport processId =
     (case transport of
        Some (N, token) \<Rightarrow> kill N token processId
      | None \<Rightarrow> await (c_exec conn (''kill '' @ dec processId) None) (\<lambda>_. resolve ()))"

text \<open>\<open>socks\<close> is \<^verbatim>\<open>socks5Connect\<close>, of which the theory \<open>Socks5\<close> is the model.\<close>

definition es_tcpConnect ::
    "(string \<Rightarrow> nat \<Rightarrow> string \<Rightarrow> nat \<Rightarrow> ('w, 'c) promise) \<Rightarrow> nat option \<Rightarrow> string \<Rightarrow> nat \<Rightarrow> ('w, 'c \<times> managed) promise" where
  "es_tcpConnect socks socksPort host port =
     (case socksPort of
        None \<Rightarrow> reject (plain_error ''SOCKS port not available'')
      | Some p \<Rightarrow>
          if p = 0 then reject (plain_error ''SOCKS port not available'')
          else await (socks ''127.0.0.1'' p host port) (\<lambda>socket. resolve (socket, wrapSocket)))"

section \<open>Files\<close>

definition STAT_SCRIPT :: string where
  "STAT_SCRIPT = ''stat -c \"%F %s %Y\" \"$1\" 2>/dev/null || stat -f \"%HT %z %m\" \"$1\" 2>/dev/null''"

definition stat_command :: "string \<Rightarrow> string" where
  "stat_command path = ''sh -c '' @ shellQuote STAT_SCRIPT @ '' sh '' @ shellQuote path"

definition stat_type :: "string \<Rightarrow> nat" where
  "stat_type typeStr =
     (if prefix ''regular'' typeStr \<or> typeStr = ''File'' then FT_FILE
      else if prefix ''directory'' typeStr \<or> typeStr = ''Directory'' then FT_DIR
      else if has_sub typeStr ''symbolic link'' \<or> has_sub typeStr ''link'' then FT_SYMLINK
      else FT_UNKNOWN)"

text \<open>
  The regular expressions \<^verbatim>\<open>/(\d+)\s*$/\<close>, \<^verbatim>\<open>/(\d+)\s+\d+\s*$/\<close> and \<^verbatim>\<open>/\s*\d+\s+\d+\s*$/\<close> on a text that ends in no
  white space: its last run of digits, and the run of digits and white space before that.
\<close>

definition parse_stat :: "string \<Rightarrow> file_stat" where
  "parse_stat stdout =
     (let trimmed = trim stdout;
          back = rev trimmed;
          d2 = takeWhile is_digit back;
          r2 = dropWhile is_digit back;
          sp = takeWhile is_space r2;
          r1 = dropWhile is_space r2;
          d1 = takeWhile is_digit r1;
          r0 = dropWhile is_digit r1;
          two = (d2 \<noteq> [] \<and> sp \<noteq> [] \<and> d1 \<noteq> []);
          typeStr = (if two then trim (rev r0) else trimmed);
          size = (if two then nat_of_digits (rev d1) else 0);
          mtime = (if d2 \<noteq> [] then nat_of_digits (rev d2) else 0)
      in \<lparr>fs_type = stat_type typeStr, fs_ctime = mtime, fs_mtime = mtime, fs_size = size\<rparr>)"

definition failed_on :: "string \<Rightarrow> string \<Rightarrow> exec_output \<Rightarrow> js_error" where
  "failed_on what path result = plain_error (what @ '' failed for '' @ path @ '': '' @ out_stderr result)"

definition es_stat :: "'w conn \<Rightarrow> (('w, 's) net \<times> string) option \<Rightarrow> string \<Rightarrow> ('w, json) promise" where
  "es_stat conn transport path =
     (case transport of
        Some (N, token) \<Rightarrow> stat N token path
      | None \<Rightarrow>
          await (c_exec conn (stat_command path) None) (\<lambda>result.
            if out_exitCode result \<noteq> Some 0 then reject (failed_on ''stat'' path result)
            else resolve (stat_object (parse_stat (out_stdout result)))))"

definition es_mkdirp :: "'w conn \<Rightarrow> (('w, 's) net \<times> string) option \<Rightarrow> string \<Rightarrow> ('w, unit) promise" where
  "es_mkdirp conn transport path =
     (case transport of
        Some (N, token) \<Rightarrow> mkdir N token path
      | None \<Rightarrow>
          await (c_exec conn (''mkdir -p '' @ shellQuote path) None) (\<lambda>result.
            if out_exitCode result \<noteq> Some 0 then reject (failed_on ''mkdirp'' path result) else resolve ()))"

definition es_rm :: "'w conn \<Rightarrow> (('w, 's) net \<times> string) option \<Rightarrow> string \<Rightarrow> ('w, unit) promise" where
  "es_rm conn transport path =
     (case transport of
        Some (N, token) \<Rightarrow> rm N token path
      | None \<Rightarrow> await (c_exec conn (''rm -rf '' @ shellQuote path) None) (\<lambda>_. resolve ()))"

definition es_rename :: "'w conn \<Rightarrow> (('w, 's) net \<times> string) option \<Rightarrow> string \<Rightarrow> string \<Rightarrow> ('w, unit) promise" where
  "es_rename conn transport fromPath toPath =
     (case transport of
        Some (N, token) \<Rightarrow> rename_file N token fromPath toPath
      | None \<Rightarrow>
          await (c_exec conn (''mv '' @ shellQuote fromPath @ '' '' @ shellQuote toPath) None) (\<lambda>result.
            if out_exitCode result \<noteq> Some 0
            then reject (plain_error (''rename failed '' @ fromPath @ '' -> '' @ toPath @ '': '' @ out_stderr result))
            else resolve ()))"

definition dir_entry :: "string \<Rightarrow> directory_entry" where
  "dir_entry line =
     (let c = last line
      in if c = CHR ''/'' then (FT_DIR, butlast line)
         else if c = CHR ''@'' then (FT_SYMLINK, butlast line)
         else if c = CHR ''*'' \<or> c = CHR ''='' \<or> c = CHR ''|''
         then (if c = CHR ''|'' then FT_UNKNOWN else FT_FILE, butlast line)
         else (FT_FILE, line))"

definition parse_readdir :: "string \<Rightarrow> directory_entry list" where
  "parse_readdir stdout = map dir_entry (filter (\<lambda>l. l \<noteq> []) (js_split (CHR 0x0A) stdout))"

definition es_readdir :: "'w conn \<Rightarrow> (('w, 's) net \<times> string) option \<Rightarrow> string \<Rightarrow> ('w, json) promise" where
  "es_readdir conn transport path =
     (case transport of
        Some (N, token) \<Rightarrow> readdir N token path
      | None \<Rightarrow>
          await (c_exec conn (''ls -A -F '' @ shellQuote path) None) (\<lambda>result.
            if out_exitCode result \<noteq> Some 0 then reject (failed_on ''readdir'' path result)
            else resolve (entries_object (parse_readdir (out_stdout result)))))"

section \<open>Buffered writing\<close>

text \<open>The promise \<^verbatim>\<open>done\<close> of a write that is flushed at its end.\<close>

record write_stream =
  w_chunks :: "bytes list"
  w_flushed :: "bytes list"
  w_settled :: "unit result option"

definition newWriteStream :: write_stream where
  "newWriteStream = \<lparr>w_chunks = [], w_flushed = [], w_settled = None\<rparr>"

definition ws_write :: "write_stream \<Rightarrow> bytes \<Rightarrow> write_stream" where
  "ws_write s data = s\<lparr>w_chunks := w_chunks s @ [data]\<rparr>"

definition flush_outcome :: "exec_output result \<Rightarrow> unit result" where
  "flush_outcome r =
     (case r of
        Inl err \<Rightarrow> Inl (plain_error (''write failed: '' @ err_message err))
      | Inr result \<Rightarrow>
          if out_exitCode result = Some 0 \<or> out_exitCode result = None then Inr ()
          else Inl (plain_error (''write failed with code '' @ show_code (out_exitCode result))))"

definition ws_end :: "(bytes \<Rightarrow> ('w, exec_output) promise) \<Rightarrow> write_stream \<Rightarrow> 'w \<Rightarrow> write_stream \<times> 'w" where
  "ws_end flush s w =
     (let content = concat (w_chunks s);
          (r, w') = flush content w
      in (s\<lparr>w_flushed := w_flushed s @ [content], w_settled := keep_first (w_settled s) (flush_outcome r)\<rparr>, w'))"

text \<open>Which kind of stream \<^verbatim>\<open>write\<close> and \<^verbatim>\<open>read\<close> return, with the command of a child process.\<close>

datatype 's file_writer = TransportWriter 's | BufferedWriter | ChildWriter string

definition es_write ::
    "'w conn \<Rightarrow> (('w, 's) net \<times> string) option \<Rightarrow> string \<Rightarrow> ('w, 's file_writer) promise" where
  "es_write conn transport path =
     (case transport of
        Some (N, token) \<Rightarrow> await (openPutFile N token path None) (\<lambda>sock. resolve (TransportWriter sock))
      | None \<Rightarrow>
          (case c_putFile conn of
             Some _ \<Rightarrow> resolve BufferedWriter
           | None \<Rightarrow> resolve (ChildWriter (''cat > '' @ shellQuote path))))"

definition child_write_outcome :: "exit_event \<Rightarrow> unit result" where
  "child_write_outcome e =
     (case e of
        ChildClosed code signal \<Rightarrow>
          if code = Some 0 \<or> code = None then Inr ()
          else Inl (plain_error (''write failed with code '' @ show_code code))
      | ChildFailed message \<Rightarrow> Inl (plain_error (''write failed: '' @ message)))"

datatype file_reader = TransportReader getter "sock_event list" | ChildReader string

definition es_read :: "(('w, 's) net \<times> string) option \<Rightarrow> string \<Rightarrow> ('w, file_reader) promise" where
  "es_read transport path =
     (case transport of
        Some (N, token) \<Rightarrow> await (openGetFile N token path) (\<lambda>(g, es). resolve (TransportReader g es))
      | None \<Rightarrow> resolve (ChildReader (''cat '' @ shellQuote path)))"

section \<open>Words of a composed command\<close>

text \<open>A piece of a command line that the shell reads as the given words, also before a blank.\<close>

definition reads :: "string \<Rightarrow> string list \<Rightarrow> bool" where
  "reads t ws \<longleftrightarrow> sh_scan Between [] t = Some ws
     \<and> (\<forall>r. sh_scan Between [] (t @ CHR '' '' # r) = map_option ((@) ws) (sh_scan Between [] r))"

lemma reads_quoted: "reads (shellQuote s) [s]"
  by (simp add: reads_def word_quoted_last word_quoted append_Cons [symmetric] del: append_Cons) (auto intro!: option.map_cong0)

lemma reads_plain: "list_all sh_plain s \<Longrightarrow> s \<noteq> [] \<Longrightarrow> reads s [s]"
  using scan_plain [of s Between "[]" "[]"] word_plain [of s]
  by (auto simp: reads_def intro!: option.map_cong0)

lemma reads_two: "reads a ws \<Longrightarrow> reads b vs \<Longrightarrow> reads (a @ CHR '' '' # b) (ws @ vs)"
  by (auto simp: reads_def option.map_comp comp_def intro!: option.map_cong0)

lemma env_start_plain: "env_name_start c \<or> is_digit c \<Longrightarrow> sh_plain c"
  by (auto simp: env_name_start_def is_digit_def sh_plain_def)

lemma env_name_plain: "env_name k \<Longrightarrow> list_all sh_plain (k @ ''='')"
  by (cases k) (auto simp: env_name_def list_all_iff env_start_plain sh_plain_def [of "CHR ''=''"])

lemma reads_assignment: "env_name k \<Longrightarrow> reads (k @ ''='' @ shellQuote v) [k @ ''='' @ v]"
proof -
  assume k: "env_name k"
  have "sh_scan Between [] ((k @ ''='') @ shellQuote v @ r) = sh_scan InWord (k @ ''='' @ v) r" for r
    using scan_plain [OF env_name_plain [OF k], of Between "[]"] scan_shellQuote [of InWord] by simp
  from this [of "[]"] this [of "CHR '' '' # _"] show ?thesis
    by (auto simp: reads_def intro!: option.map_cong0)
qed

lemma reads_join:
  "list_all2 reads ts wss \<Longrightarrow> ts \<noteq> [] \<Longrightarrow> reads (js_join '' '' ts) (concat wss)"
proof (induction rule: list_all2_induct)
  case (Cons t ts ws wss)
  show ?case
  proof (cases "ts = []")
    case True
    with Cons show ?thesis by simp
  next
    case False
    with Cons reads_two [of t ws "js_join '' '' ts" "concat wss"] show ?thesis by (simp add: js_join_cons)
  qed
qed simp

lemma env_parts_ok:
  "env_parts kvs = Inr ps \<Longrightarrow> list_all (env_name \<circ> fst) kvs \<and> list_all2 reads ps (map (\<lambda>(k, v). [k @ ''='' @ v]) kvs)"
  by (induction kvs arbitrary: ps rule: env_parts.induct) (auto simp: reads_assignment [simplified] split: if_splits sum.splits)

lemma env_parts_fails: "(\<exists>e. env_parts kvs = Inl e) \<longleftrightarrow> \<not> list_all (env_name \<circ> fst) kvs"
  by (induction kvs rule: env_parts.induct) (auto split: sum.splits)

definition env_words :: "(string \<times> string) list option \<Rightarrow> string list" where
  "env_words envv = (case envv of None \<Rightarrow> [] | Some kvs \<Rightarrow> ''env'' # map (\<lambda>(k, v). k @ ''='' @ v) kvs)"

definition cwd_words :: "string option \<Rightarrow> string list" where
  "cwd_words cwd = (if truthy cwd then [''sh'', ''-c'', CD_SCRIPT, nullish cwd []] else [])"

lemma reads_cd: "reads (''sh -c '' @ shellQuote CD_SCRIPT @ '' '' @ shellQuote d) [''sh'', ''-c'', CD_SCRIPT, d]"
  using reads_two [OF reads_plain [of "''sh''"] reads_two [OF reads_plain [of "''-c''"]
        reads_two [OF reads_quoted [of CD_SCRIPT] reads_quoted [of d]]]]
  by (simp add: sh_plain_def)

section \<open>Reading what commands print\<close>

lemma set_prop_new: "k \<notin> fst ` set kvs \<Longrightarrow> set_prop kvs k v = kvs @ [(k, v)]"
  by (induction kvs k v rule: set_prop.induct) auto

definition env_text :: "(string \<times> string) list \<Rightarrow> string list" where
  "env_text kvs = map (\<lambda>(k, v). k @ ''='' @ v) kvs"

definition env_entry :: "string \<times> string \<Rightarrow> bool" where
  "env_entry kv = (case kv of (k, v) \<Rightarrow> k \<noteq> [] \<and> k \<noteq> ''__proto__'' \<and> CHR ''='' \<notin> set k
                     \<and> CHR 0x0A \<notin> set k \<and> CHR 0x0A \<notin> set v)"

lemma env_line_entry: "env_entry (k, v) \<Longrightarrow> env_line env (k @ ''='' @ v) = set_prop env k v"
  using index_of_append [of "CHR ''=''" k v] by (simp add: env_line_def env_entry_def)

lemma env_lines:
  "\<forall>kv \<in> set kvs. env_entry kv \<Longrightarrow> distinct (map fst (env @ kvs)) \<Longrightarrow> foldl env_line env (env_text kvs) = env @ kvs"
proof (induction kvs arbitrary: env)
  case (Cons kv kvs)
  obtain k v where kv: "kv = (k, v)" by force
  have "k \<notin> fst ` set env" using Cons.prems(2) kv by auto
  with kv Cons.prems(1) have "env_line env (k @ ''='' @ v) = env @ [kv]"
    using env_line_entry [of k v env] by (simp add: set_prop_new)
  with Cons.IH [of "env @ [kv]"] Cons.prems kv show ?case by (simp add: env_text_def)
qed (simp add: env_text_def)

section \<open>Properties\<close>

text \<open>The remote shell reads a spawned command as exactly the variables, the working directory,
  the command and the arguments that the caller gave, whatever characters their values
  contain; a variable name that is not an identifier is refused, and nothing else is.\<close>

theorem buildCommand_words:
  assumes "list_all sh_plain command" and "command \<noteq> []"
  shows "(case buildCommand command args envv cwd of
            Inl e \<Rightarrow> \<exists>kvs. envv = Some kvs \<and> \<not> list_all (env_name \<circ> fst) kvs
          | Inr line \<Rightarrow> sh_words line = Some (env_words envv @ cwd_words cwd @ [command] @ args))"
proof -
  let ?tail = "(if truthy cwd then [''sh -c '' @ shellQuote CD_SCRIPT @ '' '' @ shellQuote (nullish cwd [])] else [])
            @ [command] @ map shellQuote args"
  let ?wtail = "(if truthy cwd then [[''sh'', ''-c'', CD_SCRIPT, nullish cwd []]] else []) @ [[command]] @ map (\<lambda>a. [a]) args"
  have args: "list_all2 reads (map shellQuote args) (map (\<lambda>a. [a]) args)"
    by (simp add: list_all2_conv_all_nth reads_quoted)
  have tail: "list_all2 reads ?tail ?wtail"
    using args reads_plain [OF assms] reads_cd [of "nullish cwd []"] by auto
  have words: "sh_words (js_join '' '' (ps @ ?tail)) = Some (concat wss @ cwd_words cwd @ [command] @ args)"
    if "list_all2 reads ps wss" for ps wss
    using reads_join [OF list_all2_appendI [OF that tail]]
    by (simp add: sh_words_def reads_def cwd_words_def)
  show ?thesis
  proof (cases envv)
    case None
    with words [of "[]" "[]"] show ?thesis by (simp add: buildCommand_def env_words_def)
  next
    case (Some kvs)
    show ?thesis
    proof (cases "env_parts kvs")
      case (Inl e)
      with Some env_parts_fails [of kvs] show ?thesis by (auto simp: buildCommand_def)
    next
      case (Inr ps)
      have "reads ''env'' [''env'']" by (rule reads_plain) (simp_all add: sh_plain_def)
      with env_parts_ok [OF Inr] words [of "''env'' # ps" "[''env''] # map (\<lambda>(k, v). [k @ ''='' @ v]) kvs"]
      have "sh_words (js_join '' '' ((''env'' # ps) @ ?tail))
          = Some (''env'' # concat (map (\<lambda>(k, v). [k @ ''='' @ v]) kvs) @ cwd_words cwd @ [command] @ args)" by simp
      moreover have "concat (map (\<lambda>(k, v). [k @ ''='' @ v]) kvs) = map (\<lambda>(k, v). k @ ''='' @ v) kvs"
        by (induction kvs) auto
      ultimately show ?thesis using Some Inr by (simp add: buildCommand_def env_words_def)
    qed
  qed
qed

text \<open>The environment that a caller gets is the remote environment, in its order, when no name or
  value contains a newline. A value with a newline is cut there, and the rest of it can pass for
  a variable of its own.\<close>

theorem env_read_back:
  assumes "\<forall>kv \<in> set kvs. env_entry kv" and "distinct (map fst kvs)"
  shows "parse_env (noise_lines (env_text kvs)) = kvs
       \<and> parse_env (''A=b'' @ [CHR 0x0A] @ ''PATH=/tmp'' @ [CHR 0x0A]) = [(''A'', ''b''), (''PATH'', ''/tmp'')]"
proof -
  have "\<forall>l \<in> set (env_text kvs). CHR 0x0A \<notin> set l"
    using assms(1) by (auto simp: env_text_def env_entry_def)
  then have "js_split (CHR 0x0A) (noise_lines (env_text kvs)) = env_text kvs @ [[]]"
    using split_noise [of "env_text kvs" "[]"] by simp
  then have "parse_env (noise_lines (env_text kvs)) = kvs"
    using env_lines [OF assms(1), of "[]"] assms(2) by (simp add: parse_env_def) (simp add: env_line_def)
  then show ?thesis by (simp add: parse_env_def env_line_def)
qed

theorem buildCommand_words_witness:
  "(case buildCommand ''docker'' [''run'', ''a b; c''] (Some [(''K'', ''x y'')]) (Some ''/tmp/d d'') of
      Inl e \<Rightarrow> False
    | Inr line \<Rightarrow> sh_words line = Some [''env'', ''K=x y'', ''sh'', ''-c'', CD_SCRIPT, ''/tmp/d d'', ''docker'', ''run'', ''a b; c''])"
  using buildCommand_words [where command = "''docker''" and args = "[''run'', ''a b; c'']" and envv = "Some [(''K'', ''x y'')]"
      and cwd = "Some ''/tmp/d d''"]
  by (simp add: sh_plain_def env_words_def cwd_words_def env_name_def env_name_start_def split: sum.splits)

theorem env_read_back_witness:
  "parse_env (noise_lines (env_text [(''HOME'', ''/root''), (''X'', ''a=b'')])) = [(''HOME'', ''/root''), (''X'', ''a=b'')]"
  using env_read_back [of "[(''HOME'', ''/root''), (''X'', ''a=b'')]"] by (simp add: env_entry_def)

text \<open>What \<^verbatim>\<open>ls -F\<close> appends to the name of an entry, and the type the caller should see.\<close>

datatype entry_kind = Regular | Directory | Symlink | Executable | UnixSocket | Fifo

fun ls_mark :: "entry_kind \<Rightarrow> string" where
  "ls_mark Regular = []"
| "ls_mark Directory = ''/''"
| "ls_mark Symlink = ''@''"
| "ls_mark Executable = ''*''"
| "ls_mark UnixSocket = ''=''"
| "ls_mark Fifo = ''|''"

fun kind_type :: "entry_kind \<Rightarrow> nat" where
  "kind_type Directory = FT_DIR"
| "kind_type Symlink = FT_SYMLINK"
| "kind_type Fifo = FT_UNKNOWN"
| "kind_type _ = FT_FILE"

definition ls_output :: "(entry_kind \<times> string) list \<Rightarrow> string" where
  "ls_output es = noise_lines (map (\<lambda>(k, n). n @ ls_mark k) es)"

lemma dir_entry_marked: "n \<noteq> [] \<Longrightarrow> k \<noteq> Regular \<or> last n \<notin> set ''/@*=|'' \<Longrightarrow> dir_entry (n @ ls_mark k) = (kind_type k, n)"
  by (cases k) (auto simp: dir_entry_def Let_def)

text \<open>A directory listing names every entry with its type, in order, except that the name of a
  plain file that itself ends in one of the marks of \<^verbatim>\<open>ls -F\<close> loses its last character, and is
  then taken for something it is not.\<close>

theorem readdir_listing:
  assumes "\<forall>(k, n) \<in> set es. n \<noteq> [] \<and> CHR 0x0A \<notin> set n"
  shows "parse_readdir (ls_output es) =
     map (\<lambda>(k, n). if k = Regular \<and> last n \<in> set ''/@*=|'' then dir_entry n else (kind_type k, n)) es
   \<and> dir_entry ''notes*'' = (FT_FILE, ''notes'') \<and> dir_entry ''mail@'' = (FT_SYMLINK, ''mail'')"
proof -
  let ?ls = "map (\<lambda>(k, n). n @ ls_mark k) es"
  have nl: "CHR 0x0A \<notin> set (ls_mark k)" for k by (cases k) auto
  then have "\<forall>l \<in> set ?ls. CHR 0x0A \<notin> set l" using assms by auto
  then have "js_split (CHR 0x0A) (ls_output es) = ?ls @ [[]]"
    using split_noise [of ?ls "[]"] by (simp add: ls_output_def)
  moreover have "filter (\<lambda>l. l \<noteq> []) ?ls = ?ls" using assms by (auto simp: filter_id_conv)
  ultimately have "parse_readdir (ls_output es) = map dir_entry ?ls" by (simp add: parse_readdir_def)
  moreover have "dir_entry (n @ ls_mark k) = (if k = Regular \<and> last n \<in> set ''/@*=|'' then dir_entry n else (kind_type k, n))"
    if "(k, n) \<in> set es" for k n
    using dir_entry_marked [of n k] that assms by (cases "k = Regular \<and> last n \<in> set ''/@*=|''") auto
  ultimately have "parse_readdir (ls_output es)
      = map (\<lambda>(k, n). if k = Regular \<and> last n \<in> set ''/@*=|'' then dir_entry n else (kind_type k, n)) es"
    by (simp only: map_map, intro map_cong [OF refl]) (auto simp only: comp_def split: prod.splits)
  then show ?thesis by (simp add: dir_entry_def)
qed

theorem readdir_listing_witness:
  "parse_readdir (ls_output [(Directory, ''src''), (Regular, ''a.txt''), (Executable, ''run'')])
   = [(FT_DIR, ''src''), (FT_FILE, ''a.txt''), (FT_FILE, ''run'')]"
  using readdir_listing [of "[(Directory, ''src''), (Regular, ''a.txt''), (Executable, ''run'')]"] by simp

text \<open>The size and the modification time of a file are read back from the line that \<^verbatim>\<open>stat\<close>
  prints, also when the type has several words, and the type is recognised for GNU's texts. The
  capitalised texts of the BSD \<^verbatim>\<open>stat\<close> that the command falls back to are not: a regular file and
  a symbolic link are of unknown type there.\<close>

theorem stat_read_back:
  assumes "trimmed t" and "t \<noteq> []"
  shows "parse_stat (t @ '' '' @ dec sz @ '' '' @ dec mtime @ [CHR 0x0A])
       = \<lparr>fs_type = stat_type t, fs_ctime = mtime, fs_mtime = mtime, fs_size = sz\<rparr>
   \<and> map stat_type [''regular file'', ''regular empty file'', ''directory'', ''symbolic link'', ''Directory'', ''Regular File'', ''Symbolic Link'']
     = [FT_FILE, FT_FILE, FT_DIR, FT_SYMLINK, FT_DIR, FT_UNKNOWN, FT_UNKNOWN]"
proof -
  let ?s = "t @ '' '' @ dec sz @ '' '' @ dec mtime"
  have sp: "is_space (CHR '' '')" "\<not> is_digit (CHR '' '')" by (simp_all add: is_space_def is_digit_def)
  have digits: "takeWhile is_digit (rev (dec n) @ CHR '' '' # r) = rev (dec n)"
    "dropWhile is_digit (rev (dec n) @ CHR '' '' # r) = CHR '' '' # r" for n r
    using dec_digits [of n] sp by (simp_all add: takeWhile_append dropWhile_append list_all_iff)
  have nosp: "takeWhile is_space (rev (dec n) @ r) = []" "dropWhile is_space (rev (dec n) @ r) = rev (dec n) @ r" for n r
    using dec_last [of n] by (cases "dec n" rule: rev_cases; simp)+
  have "trimmed ?s" using assms by (auto simp: trimmed_def)
  then have tr: "trim (?s @ [CHR 0x0A]) = ?s"
    using trim_snoc_space [of "CHR 0x0A" ?s] by (simp add: trim_trimmed is_space_def)
  have "rev ?s = rev (dec mtime) @ CHR '' '' # rev (dec sz) @ CHR '' '' # rev t" by simp
  then have "parse_stat (?s @ [CHR 0x0A]) = \<lparr>fs_type = stat_type (trim (t @ [CHR '' ''])), fs_ctime = mtime, fs_mtime = mtime, fs_size = sz\<rparr>"
    unfolding parse_stat_def tr Let_def by (simp add: digits nosp sp)
  moreover have "trim (t @ [CHR '' '']) = t"
    using trim_snoc_space [OF sp(1), of t] trim_trimmed [OF assms(1)] by simp
  moreover have "map stat_type [''regular file'', ''regular empty file'', ''directory'', ''symbolic link'', ''Directory'', ''Regular File'', ''Symbolic Link'']
     = [FT_FILE, FT_FILE, FT_DIR, FT_SYMLINK, FT_DIR, FT_UNKNOWN, FT_UNKNOWN]"
    by (simp add: stat_type_def has_sub_def)
  ultimately show ?thesis by simp
qed

theorem stat_read_back_witness:
  "parse_stat (''regular file 12 1700000000'' @ [CHR 0x0A])
   = \<lparr>fs_type = FT_FILE, fs_ctime = 1700000000, fs_mtime = 1700000000, fs_size = 12\<rparr>"
proof -
  have "dec 12 = ''12''" "dec 1700000000 = ''1700000000''" by (simp_all add: dec.simps)
  then show ?thesis
    using stat_read_back [of "''regular file''" 12 1700000000] by (simp add: trimmed_def is_space_def)
qed

text \<open>A file that is written over the session connection is uploaded once, as the concatenation of
  everything written before the end, and the promise \<^verbatim>\<open>done\<close> resolves exactly when the upload
  ended with exit code 0 or none.\<close>

theorem buffered_write_uploads_all:
  assumes "flush (concat chunks) w = (r, w')"
  shows "(case ws_end flush (foldl ws_write newWriteStream chunks) w of
            (s, w'') \<Rightarrow> w_flushed s = [concat chunks] \<and> w'' = w'
              \<and> (w_settled s = Some (Inr ()) \<longleftrightarrow> (\<exists>x. r = Inr x \<and> out_exitCode x \<in> {Some 0, None}))
              \<and> w_settled s \<noteq> None)"
proof -
  have "foldl ws_write s chunks = s\<lparr>w_chunks := w_chunks s @ chunks\<rparr>" for s
    by (induction chunks arbitrary: s) (simp_all add: ws_write_def)
  then have "foldl ws_write newWriteStream chunks = newWriteStream\<lparr>w_chunks := chunks\<rparr>"
    by (simp add: newWriteStream_def)
  with assms show ?thesis
    by (cases r) (auto simp: ws_end_def newWriteStream_def keep_first_def flush_outcome_def Let_def)
qed

theorem buffered_write_uploads_all_witness:
  "fst (ws_end (\<lambda>content w. (Inr (printed []), w @ content)) (foldl ws_write newWriteStream [[1, 2], [3]]) [])
   = \<lparr>w_chunks = [[1, 2], [3]], w_flushed = [[1, 2, 3]], w_settled = Some (Inr ())\<rparr>"
  using buffered_write_uploads_all [of "\<lambda>content w. (Inr (printed []), w @ content)" "[[1, 2], [3]]" "[]" "Inr (printed [])" "[1, 2, 3]"]
  by (simp add: ws_end_def ws_write_def newWriteStream_def keep_first_def flush_outcome_def printed_def Let_def)

end
