(* ===== verification/Download.thy ===== *)
theory Download
  imports Prelude "HOL-Library.Multiset"
begin

text \<open>
  \<^verbatim>\<open>src/remote/download.ts\<close>: fetching the server tarball, with redirects, retries and a cache on
  disk. One request is an argument: its URL to an error or a response, which is the status,
  the headers used, and the chunks of the body with its end. So are \<^verbatim>\<open>new URL(location, base)\<close>,
  waiting, the cache (\<^verbatim>\<open>cacache\<close>) and the rounding of a percentage. An exception that is thrown
  in the callback of a response is caught by nobody and leaves the promise pending; such an
  outcome is \<^term>\<open>None\<close>.
\<close>

definition MAX_REDIRECTS :: nat where "MAX_REDIRECTS = 5"
definition MAX_CACHE_BYTES :: nat where "MAX_CACHE_BYTES = 2 * 1024 * 1024 * 1024"
definition MAX_RETRIES :: nat where "MAX_RETRIES = 2"
definition RETRY_BASE_MS :: nat where "RETRY_BASE_MS = 500"
definition PROGRESS_BYTE_STEP :: nat where "PROGRESS_BYTE_STEP = 2 ^ 20"

definition RETRY_STATUS :: "nat set" where "RETRY_STATUS = {408, 429, 500, 502, 503, 504}"
definition RETRY_ERRORS :: "string set" where "RETRY_ERRORS = {''ECONNRESET'', ''ECONNREFUSED'', ''ETIMEDOUT''}"

section \<open>One fetch\<close>

record hop =
  hop_status :: nat
  hop_location :: "string option"
  hop_length :: "string option"
  hop_chunks :: "bytes list"
  hop_error :: "js_error option"

type_synonym 'w getter = "string \<Rightarrow> ('w, hop) promise"
type_synonym 'w fetched = "bytes result option \<times> 'w"

definition is_https :: "string \<Rightarrow> bool" where "is_https u = prefix ''https:'' u"

text \<open>\<^verbatim>\<open>http.get\<close> throws for the URL of another protocol.\<close>

definition gettable :: "string \<Rightarrow> bool" where "gettable u = (is_https u \<or> prefix ''http:'' u)"

definition too_many_redirects :: js_error where
  "too_many_redirects = plain_error ''Too many redirects fetching server''"

definition downgrade_refused :: "string \<Rightarrow> js_error" where
  "downgrade_refused to = plain_error (''Refusing to follow HTTPS->non-HTTPS redirect to '' @ to)"

definition http_error :: "nat \<Rightarrow> string \<Rightarrow> js_error" where
  "http_error status u = JsError (''HTTP '' @ dec status @ '' fetching server from '' @ u) None (Some status)"

definition body_result :: "hop \<Rightarrow> bytes result" where
  "body_result r = (case hop_error r of Some e \<Rightarrow> Inl e | None \<Rightarrow> Inr (concat (hop_chunks r)))"

definition redirects :: "hop \<Rightarrow> bool" where
  "redirects r = (300 \<le> hop_status r \<and> hop_status r < 400 \<and> truthy (hop_location r))"

fun attempt ::
    "'w getter \<Rightarrow> (string \<Rightarrow> string \<Rightarrow> string option) \<Rightarrow> bool \<Rightarrow> nat \<Rightarrow> string \<Rightarrow> 'w \<Rightarrow> 'w fetched" where
  "attempt G new_url httpsOnly redirectsLeft u w =
     (if \<not> gettable u then (None, w)
      else case G u w of
             (Inl e, w') \<Rightarrow> (Some (Inl e), w')
           | (Inr r, w') \<Rightarrow>
               if redirects r then
                 (case redirectsLeft of
                    0 \<Rightarrow> (Some (Inl too_many_redirects), w')
                  | Suc n \<Rightarrow>
                      (case new_url (nullish (hop_location r) []) u of
                         None \<Rightarrow> (None, w')
                       | Some to \<Rightarrow>
                           if httpsOnly \<and> \<not> is_https to then (Some (Inl (downgrade_refused to)), w')
                           else attempt G new_url httpsOnly n to w'))
               else if hop_status r < 200 \<or> 300 \<le> hop_status r
               then (Some (Inl (http_error (hop_status r) u)), w')
               else (Some (body_result r), w'))"

declare attempt.simps [simp del]

definition fetchOnce ::
    "'w getter \<Rightarrow> (string \<Rightarrow> string \<Rightarrow> string option) \<Rightarrow> string \<Rightarrow> 'w \<Rightarrow> 'w fetched" where
  "fetchOnce G new_url url w =
     (if \<not> gettable url then (Some (Inl (plain_error ''ERR_INVALID_PROTOCOL'')), w)
      else attempt G new_url (is_https url) MAX_REDIRECTS url w)"

section \<open>Progress\<close>

text \<open>The reports of one body; \<open>pct\<close> is \<^verbatim>\<open>Math.floor((received / total) * 100)\<close> in floating point.
  Node's parser lets only digits pass as a content length.\<close>

record progress =
  pr_received :: nat
  lastPct :: int
  lastReportedBytes :: int
  pr_reports :: "(nat \<times> nat option) list"

definition progress_start :: progress where
  "progress_start = \<lparr>pr_received = 0, lastPct = -1, lastReportedBytes = - int PROGRESS_BYTE_STEP, pr_reports = []\<rparr>"

definition content_total :: "string option \<Rightarrow> nat option" where
  "content_total h =
     (if truthy h then (case parse_int (nullish h []) of
                          Some n \<Rightarrow> if 0 < n then Some (nat n) else None
                        | None \<Rightarrow> None)
      else None)"

definition progress_chunk :: "(nat \<Rightarrow> nat \<Rightarrow> int) \<Rightarrow> nat option \<Rightarrow> progress \<Rightarrow> bytes \<Rightarrow> progress" where
  "progress_chunk pct tot p c =
     (let n = pr_received p + length c;
          step = (int n - lastReportedBytes p \<ge> int PROGRESS_BYTE_STEP)
      in case tot of
           Some t \<Rightarrow>
             if pct n t \<noteq> lastPct p \<or> step
             then \<lparr>pr_received = n, lastPct = pct n t, lastReportedBytes = int n, pr_reports = pr_reports p @ [(n, Some t)]\<rparr>
             else p\<lparr>pr_received := n\<rparr>
         | None \<Rightarrow>
             if step then p\<lparr>pr_received := n, lastReportedBytes := int n, pr_reports := pr_reports p @ [(n, None)]\<rparr>
             else p\<lparr>pr_received := n\<rparr>)"

definition progress_end :: "nat option \<Rightarrow> progress \<Rightarrow> progress" where
  "progress_end tot p = p\<lparr>pr_reports := pr_reports p @ [(pr_received p, Some (nullish tot (pr_received p)))]\<rparr>"

definition body_progress :: "(nat \<Rightarrow> nat \<Rightarrow> int) \<Rightarrow> hop \<Rightarrow> (nat \<times> nat option) list" where
  "body_progress pct r =
     (let tot = content_total (hop_length r);
          p = foldl (progress_chunk pct tot) progress_start (hop_chunks r)
      in pr_reports (if hop_error r = None then progress_end tot p else p))"

section \<open>Retries\<close>

definition retryable :: "js_error \<Rightarrow> bool" where
  "retryable e = ((case err_code e of None \<Rightarrow> False | Some c \<Rightarrow> c \<noteq> [] \<and> c \<in> RETRY_ERRORS)
                  \<or> (case err_status e of None \<Rightarrow> False | Some s \<Rightarrow> s \<in> RETRY_STATUS))"

text \<open>\<open>left\<close> counts the retries that remain: the code's \<^verbatim>\<open>attempt\<close> is \<^term>\<open>MAX_RETRIES - left\<close>.\<close>

fun try_from ::
    "('w \<Rightarrow> 'w fetched) \<Rightarrow> (nat \<Rightarrow> 'w \<Rightarrow> 'w) \<Rightarrow> nat \<Rightarrow> 'w \<Rightarrow> 'w fetched" where
  "try_from once wait left w =
     (case once w of
        (Some (Inl err), w') \<Rightarrow>
          if \<not> retryable err then (Some (Inl err), w')
          else (case left of
                  0 \<Rightarrow> (Some (Inl err), w')
                | Suc n \<Rightarrow> try_from once wait n (wait (RETRY_BASE_MS * 2 ^ (MAX_RETRIES - left)) w'))
      | (res, w') \<Rightarrow> (res, w'))"

declare try_from.simps [simp del]

definition fetchWithRetries ::
    "'w getter \<Rightarrow> (string \<Rightarrow> string \<Rightarrow> string option) \<Rightarrow> (nat \<Rightarrow> 'w \<Rightarrow> 'w) \<Rightarrow> string \<Rightarrow> 'w \<Rightarrow> 'w fetched" where
  "fetchWithRetries G new_url wait url w = try_from (fetchOnce G new_url url) wait MAX_RETRIES w"

section \<open>The cache\<close>

record 'w cacache =
  cache_get :: "string \<Rightarrow> string \<Rightarrow> ('w, bytes) promise"
  cache_put :: "string \<Rightarrow> string \<Rightarrow> bytes \<Rightarrow> ('w, unit) promise"
  cache_ls :: "string \<Rightarrow> ('w, (string \<times> nat \<times> nat) list) promise"
  cache_rm_entry :: "string \<Rightarrow> string \<Rightarrow> ('w, unit) promise"

text \<open>\<open>configuredCachePath\<close> is the directory, if \<^verbatim>\<open>configureDownloadCache\<close> was called.\<close>

definition downloadToBuffer ::
    "'w cacache \<Rightarrow> ('w \<Rightarrow> 'w fetched) \<Rightarrow> string option \<Rightarrow> string \<Rightarrow> 'w \<Rightarrow> 'w fetched" where
  "downloadToBuffer C fetch configuredCachePath url w =
     (let dir = nullish configuredCachePath [];
          cached = (if dir \<noteq> [] then cache_get C dir url w else (Inl (plain_error []), w))
      in case cached of
           (Inr data, w') \<Rightarrow> (Some (Inr data), w')
         | (Inl e, w') \<Rightarrow>
             (case fetch w' of
                (Some (Inr body), w'') \<Rightarrow>
                  (Some (Inr body), if dir \<noteq> [] then snd (cache_put C dir url body w'') else w'')
              | other \<Rightarrow> other))"

text \<open>Entries are key, time and size.\<close>

definition entry_size :: "string \<times> nat \<times> nat \<Rightarrow> nat" where "entry_size e = snd (snd e)"
definition entry_time :: "string \<times> nat \<times> nat \<Rightarrow> nat" where "entry_time e = fst (snd e)"

fun prune_loop ::
    "'w cacache \<Rightarrow> string \<Rightarrow> nat \<Rightarrow> (string \<times> nat \<times> nat) list \<Rightarrow> 'w \<Rightarrow> (string \<times> nat \<times> nat) list \<times> 'w" where
  "prune_loop C dir totalBytes [] w = ([], w)"
| "prune_loop C dir totalBytes (oldest # rest) w =
     (if totalBytes > MAX_CACHE_BYTES
      then case cache_rm_entry C dir (fst oldest) w of
             (Inl e, w') \<Rightarrow> (rest, w')
           | (Inr _, w') \<Rightarrow> prune_loop C dir (totalBytes - entry_size oldest) rest w'
      else (oldest # rest, w))"

definition maybePruneCache :: "'w cacache \<Rightarrow> string option \<Rightarrow> 'w \<Rightarrow> (string \<times> nat \<times> nat) list \<times> 'w" where
  "maybePruneCache C configuredCachePath w =
     (let dir = nullish configuredCachePath []
      in if dir = [] then ([], w)
         else case cache_ls C dir w of
                (Inl e, w') \<Rightarrow> ([], w')
              | (Inr entries, w') \<Rightarrow>
                  (let totalBytes = sum_list (map entry_size entries)
                   in if totalBytes \<le> MAX_CACHE_BYTES then (entries, w')
                      else prune_loop C dir totalBytes (sort_key entry_time entries) w'))"

section \<open>Lemmas\<close>

text \<open>A getter that notes the URLs it is asked for.\<close>

definition noting :: "'w getter \<Rightarrow> ('w \<times> string list) getter" where
  "noting G u s = (case G u (fst s) of (r, w) \<Rightarrow> (r, (w, snd s @ [u])))"

definition noted :: "('w \<times> string list) fetched \<Rightarrow> string list" where
  "noted f = snd (snd f)"

lemma attempt_requests:
  "\<exists>us. snd (snd (attempt (noting G) new_url h n u s)) = snd s @ us
     \<and> length us \<le> Suc n \<and> (h \<and> is_https u \<longrightarrow> list_all is_https us)"
proof (induction n arbitrary: u s)
  case 0
  show ?case
    by (subst attempt.simps) (auto simp: noting_def redirects_def split: prod.splits sum.splits option.splits)
next
  case (Suc n)
  show ?case
  proof (cases "\<exists>r w to. G u (fst s) = (Inr r, w) \<and> gettable u \<and> redirects r
        \<and> new_url (nullish (hop_location r) []) u = Some to \<and> \<not> (h \<and> \<not> is_https to)")
    case True
    then obtain r w to where t: "G u (fst s) = (Inr r, w)" "gettable u" "redirects r"
      "new_url (nullish (hop_location r) []) u = Some to" "\<not> (h \<and> \<not> is_https to)" by blast
    then have "attempt (noting G) new_url h (Suc n) u s = attempt (noting G) new_url h n to (w, snd s @ [u])"
      by (subst attempt.simps) (auto simp: noting_def)
    moreover obtain us where "snd (snd (attempt (noting G) new_url h n to (w, snd s @ [u]))) = (snd s @ [u]) @ us"
      "length us \<le> Suc n" "h \<and> is_https to \<longrightarrow> list_all is_https us"
      using Suc.IH [of to "(w, snd s @ [u])"] by auto
    ultimately show ?thesis using t(5) by (intro exI [of _ "u # us"]) auto
  next
    case False
    have "snd (snd (attempt (noting G) new_url h (Suc n) u s)) \<in> {snd s, snd s @ [u]}"
      using False by (subst attempt.simps) (auto simp: noting_def split: prod.splits sum.splits option.splits)
    then show ?thesis
    proof (elim insertE emptyE)
      assume "snd (snd (attempt (noting G) new_url h (Suc n) u s)) = snd s"
      then show ?thesis by (intro exI [of _ "[]"]) simp
    next
      assume "snd (snd (attempt (noting G) new_url h (Suc n) u s)) = snd s @ [u]"
      then show ?thesis by (intro exI [of _ "[u]"]) simp
    qed
  qed
qed

lemma fetchOnce_requests:
  "\<exists>us. snd (snd (fetchOnce (noting G) new_url u s)) = snd s @ us
     \<and> length us \<le> 6 \<and> (is_https u \<longrightarrow> list_all is_https us)"
  using attempt_requests [of G new_url "is_https u" MAX_REDIRECTS u s]
  by (auto simp: fetchOnce_def MAX_REDIRECTS_def)

text \<open>Waiting does not touch the network.\<close>

definition quiet :: "(nat \<Rightarrow> 'w \<Rightarrow> 'w) \<Rightarrow> nat \<Rightarrow> 'w \<times> string list \<Rightarrow> 'w \<times> string list" where
  "quiet wait ms s = (wait ms (fst s), snd s)"

lemma retry_requests:
  assumes "\<And>s. \<exists>us. snd (snd (once s)) = snd s @ us \<and> length us \<le> k \<and> (P \<longrightarrow> list_all Q us)"
  shows "\<exists>us. snd (snd (try_from once (quiet wait) n s)) = snd s @ us \<and> length us \<le> k * Suc n \<and> (P \<longrightarrow> list_all Q us)"
proof (induction n arbitrary: s)
  case 0
  show ?case using assms [of s]
    by (subst try_from.simps) (auto split: prod.splits option.splits sum.splits)
next
  case (Suc n)
  obtain us where us: "snd (snd (once s)) = snd s @ us" "length us \<le> k" "P \<longrightarrow> list_all Q us" using assms by blast
  show ?case
  proof (cases "\<exists>err s'. once s = (Some (Inl err), s') \<and> retryable err")
    case True
    then obtain err s' where o1: "once s = (Some (Inl err), s')" "retryable err" by blast
    let ?t = "quiet wait (RETRY_BASE_MS * 2 ^ (MAX_RETRIES - Suc n)) s'"
    have "try_from once (quiet wait) (Suc n) s = try_from once (quiet wait) n ?t"
      using o1 by (subst try_from.simps) simp
    moreover obtain vs where "snd (snd (try_from once (quiet wait) n ?t)) = snd ?t @ vs"
      "length vs \<le> k * Suc n" "P \<longrightarrow> list_all Q vs" using Suc.IH by blast
    moreover have "snd ?t = snd s'" by (simp add: quiet_def)
    ultimately show ?thesis using us o1(1) by (intro exI [of _ "us @ vs"]) auto
  next
    case False
    then have "snd (snd (try_from once (quiet wait) (Suc n) s)) = snd (snd (once s))"
      by (subst try_from.simps) (auto split: prod.splits option.splits sum.splits)
    with us show ?thesis by (intro exI [of _ us]) auto
  qed
qed

text \<open>Pruning from the oldest entry on, when every removal succeeds.\<close>

lemma prune_loop_keeps:
  assumes "\<And>k w. \<exists>w'. cache_rm_entry C dir k w = (Inr (), w')"
  shows "\<exists>gone. gone @ fst (prune_loop C dir (sum_list (map entry_size es)) es w) = es
      \<and> sum_list (map entry_size (fst (prune_loop C dir (sum_list (map entry_size es)) es w))) \<le> MAX_CACHE_BYTES
      \<and> (gone \<noteq> [] \<longrightarrow> sum_list (map entry_size (last gone # fst (prune_loop C dir (sum_list (map entry_size es)) es w))) > MAX_CACHE_BYTES)"
proof (induction es arbitrary: w)
  case (Cons e es)
  let ?s = "sum_list (map entry_size (e # es))"
  show ?case
  proof (cases "?s > MAX_CACHE_BYTES")
    case False
    then have "fst (prune_loop C dir ?s (e # es) w) = e # es" by simp
    with False show ?thesis by (intro exI [of _ "[]"]) simp
  next
    case True
    obtain w' where w': "cache_rm_entry C dir (fst e) w = (Inr (), w')" using assms by blast
    then have p: "prune_loop C dir ?s (e # es) w = prune_loop C dir (sum_list (map entry_size es)) es w'"
      using True by simp
    obtain gone where g: "gone @ fst (prune_loop C dir (sum_list (map entry_size es)) es w') = es"
      "sum_list (map entry_size (fst (prune_loop C dir (sum_list (map entry_size es)) es w'))) \<le> MAX_CACHE_BYTES"
      "gone \<noteq> [] \<longrightarrow> sum_list (map entry_size (last gone # fst (prune_loop C dir (sum_list (map entry_size es)) es w'))) > MAX_CACHE_BYTES"
      using Cons.IH [of w'] by blast
    then show ?thesis
      unfolding p using True by (intro exI [of _ "e # gone"]) auto
  qed
qed simp

section \<open>Properties\<close>

text \<open>C16. A download makes at most eighteen requests, three attempts of six hops each, whatever the
  servers answer, and a download that starts over HTTPS never makes a request over anything
  else.\<close>

theorem download_requests_bounded:
  "length (noted (fetchWithRetries (noting G) new_url (quiet wait) url (w, []))) \<le> 18
   \<and> (is_https url \<longrightarrow> list_all is_https (noted (fetchWithRetries (noting G) new_url (quiet wait) url (w, []))))"
proof -
  have "\<exists>us. snd (snd (try_from (fetchOnce (noting G) new_url url) (quiet wait) MAX_RETRIES (w, []))) = snd (w, []) @ us
      \<and> length us \<le> 6 * Suc MAX_RETRIES \<and> (is_https url \<longrightarrow> list_all is_https us)"
    by (rule retry_requests) (rule fetchOnce_requests)
  then show ?thesis by (auto simp: fetchWithRetries_def noted_def MAX_RETRIES_def)
qed

theorem download_requests_bounded_witness:
  "list_all is_https (noted (fetchWithRetries (noting (\<lambda>u w. (Inl (http_error 404 u), w))) (\<lambda>l b. Some l)
     (quiet (\<lambda>n w. w)) ''https://update.example/server.tgz'' ((), [])))"
  using download_requests_bounded [of "\<lambda>u w. (Inl (http_error 404 u), w)" "\<lambda>l b. Some l" "\<lambda>n w. w"
      "''https://update.example/server.tgz''" "()"]
  by (simp add: is_https_def)

text \<open>Pruning leaves the entries within the size limit and removes no more than it must: what goes is
  the oldest, every entry that stays is at least as recent, and without the last removal the
  limit would still be exceeded.\<close>

theorem cache_pruned:
  assumes "dir \<noteq> []" and "cache_ls C dir w = (Inr entries, w1)"
    and "\<And>k w. \<exists>w'. cache_rm_entry C dir k w = (Inr (), w')"
    and "maybePruneCache C (Some dir) w = (kept, w2)"
  shows "\<exists>gone. mset (gone @ kept) = mset entries
      \<and> sum_list (map entry_size kept) \<le> MAX_CACHE_BYTES
      \<and> (\<forall>g \<in> set gone. \<forall>k \<in> set kept. entry_time g \<le> entry_time k)
      \<and> (gone \<noteq> [] \<longrightarrow> sum_list (map entry_size (last gone # kept)) > MAX_CACHE_BYTES)"
proof (cases "sum_list (map entry_size entries) \<le> MAX_CACHE_BYTES")
  case True
  with assms(1,2,4) have "kept = entries" by (simp add: maybePruneCache_def Let_def)
  with True show ?thesis by (intro exI [of _ "[]"]) simp
next
  case False
  let ?es = "sort_key entry_time entries"
  have t: "sum_list (map entry_size ?es) = sum_list (map entry_size entries)"
    by (metis mset_map mset_sort sum_mset_sum_list)
  with False assms(1,2,4) have k: "fst (prune_loop C dir (sum_list (map entry_size ?es)) ?es w1) = kept"
    by (simp add: maybePruneCache_def Let_def)
  obtain gone where g: "gone @ kept = ?es" "sum_list (map entry_size kept) \<le> MAX_CACHE_BYTES"
    "gone \<noteq> [] \<longrightarrow> sum_list (map entry_size (last gone # kept)) > MAX_CACHE_BYTES"
    using prune_loop_keeps [of C dir ?es w1] assms(3) k by auto
  have "sorted (map entry_time (gone @ kept))" unfolding g(1) by simp
  then have "\<forall>g \<in> set gone. \<forall>k \<in> set kept. entry_time g \<le> entry_time k" by (simp add: sorted_append)
  moreover have "mset (gone @ kept) = mset entries" unfolding g(1) by simp
  ultimately show ?thesis using g by blast
qed

theorem cache_pruned_witness:
  "\<exists>gone. mset (gone @ fst (maybePruneCache
        \<lparr>cache_get = \<lambda>_ _. reject (plain_error []), cache_put = \<lambda>_ _ _. resolve (),
         cache_ls = \<lambda>_. resolve [(''a'', 5, 2000000000), (''b'', 3, 1000000000)], cache_rm_entry = \<lambda>_ _. resolve ()\<rparr>
        (Some ''/c'') ())) = mset [(''a'', 5, 2000000000), (''b'', 3, 1000000000)]"
  using cache_pruned [where dir = "''/c''" and entries = "[(''a'', 5, 2000000000), (''b'', 3, 1000000000)]" and w = "()" and
      C = "\<lparr>cache_get = \<lambda>_ _. reject (plain_error []), cache_put = \<lambda>_ _ _. resolve (),
         cache_ls = \<lambda>_. resolve [(''a'', 5, 2000000000), (''b'', 3, 1000000000)], cache_rm_entry = \<lambda>_ _. resolve ()\<rparr>",
      OF _ _ _ surjective_pairing]
  by (simp add: resolve_def) blast

text \<open>What a download stored is what the next one returns, without any request: a cache that gives
  back what was put makes the second download of a URL cost nothing.\<close>

theorem second_download_from_cache:
  assumes "dir \<noteq> []"
    and "\<And>w. fst (cache_get C dir url (snd (cache_put C dir url body w))) = Inr body"
    and "fst (cache_get C dir url w) = Inl e" and "fetch (snd (cache_get C dir url w)) = (Some (Inr body), w1)"
    and "downloadToBuffer C fetch (Some dir) url w = (r, w2)"
  shows "r = Some (Inr body) \<and> fst (downloadToBuffer C fetch' (Some dir) url w2) = Some (Inr body)"
proof -
  have "downloadToBuffer C fetch (Some dir) url w = (Some (Inr body), snd (cache_put C dir url body w1))"
    using assms(1,3,4) by (cases "cache_get C dir url w") (simp add: downloadToBuffer_def)
  with assms(5) have r: "r = Some (Inr body)" "w2 = snd (cache_put C dir url body w1)" by auto
  then have "fst (cache_get C dir url w2) = Inr body" using assms(2) by simp
  with r assms(1) show ?thesis by (cases "cache_get C dir url w2") (simp add: downloadToBuffer_def)
qed

theorem second_download_from_cache_witness:
  "fst (downloadToBuffer
      \<lparr>cache_get = \<lambda>_ k m. (case m k of Some b \<Rightarrow> Inr b | None \<Rightarrow> Inl (plain_error ''E_NOT_FOUND''), m),
       cache_put = \<lambda>_ k b m. (Inr (), m(k \<mapsto> b)), cache_ls = \<lambda>_. resolve [], cache_rm_entry = \<lambda>_ _. resolve ()\<rparr>
      (\<lambda>m. (None, m)) (Some ''/c'') ''https://x'' [''https://x'' \<mapsto> [7]]) = Some (Inr [7])"
  using second_download_from_cache [where dir = "''/c''" and url = "''https://x''" and body = "[7]" and w = "Map.empty" and
      fetch = "\<lambda>m. (Some (Inr [7]), m)" and fetch' = "\<lambda>m. (None, m)" and
      C = "\<lparr>cache_get = \<lambda>_ k m. (case m k of Some b \<Rightarrow> Inr b | None \<Rightarrow> Inl (plain_error ''E_NOT_FOUND''), m),
       cache_put = \<lambda>_ k b m. (Inr (), m(k \<mapsto> b)), cache_ls = \<lambda>_. resolve [], cache_rm_entry = \<lambda>_ _. resolve ()\<rparr>",
      OF _ _ _ _ surjective_pairing]
  by (simp add: downloadToBuffer_def)

end
