(* ===== verification/SshConfig.thy ===== *)
theory SshConfig
  imports Destination Paths Complex_Main
begin

text \<open>
  \<^verbatim>\<open>src/ssh/sshConfig.ts\<close>: the settings that concern ssh, and the reader of the ssh
  configuration. The package \<^verbatim>\<open>ssh-config\<close> (parsing, and \<^verbatim>\<open>compute\<close> for one host) and the
  files are arguments, collected in \<open>config_env\<close>; a line is abstract, seen as its parameter and
  value when it is a directive. Settings are JSON values, since a user can write anything there.
  A number is \<open>Finite\<close> or not; \<open>value\<close> reads a JSON literal as the double it denotes and \<open>mul\<close>
  is the rounded product of two doubles, \<open>NotFinite\<close> when it overflows.
\<close>

type_synonym settings_map = "string \<Rightarrow> json option"

section \<open>Paths\<close>

text \<open>\<^verbatim>\<open>v.startsWith("~/") ? path.join(os.homedir(), v.slice(2)) : v\<close>.\<close>

definition expand_home :: "string \<Rightarrow> string \<Rightarrow> string" where
  "expand_home homedir v = (if prefix ''~/'' v then path_join [homedir, drop 2 v] else v)"

definition DEFAULT_CONFIG_PATH :: "string \<Rightarrow> string" where
  "DEFAULT_CONFIG_PATH homedir = path_join [homedir, ''.ssh'', ''config'']"

definition getConfigPath :: "string \<Rightarrow> settings_map \<Rightarrow> string result" where
  "getConfigPath homedir cfg =
     (if json_truthy (cfg ''configFile'')
      then (case cfg ''configFile'' of
              Some (JStr s) \<Rightarrow> Inr (expand_home homedir s)
            | _ \<Rightarrow> Inl type_error)
      else Inr (DEFAULT_CONFIG_PATH homedir))"

section \<open>Settings\<close>

datatype js_num = Finite rat | NotFinite

text \<open>\<^verbatim>\<open>Math.round\<close>.\<close>

definition js_round :: "js_num \<Rightarrow> js_num" where
  "js_round x = (case x of Finite q \<Rightarrow> Finite (of_int \<lfloor>q + 1 / 2\<rfloor>) | NotFinite \<Rightarrow> NotFinite)"

text \<open>\<^verbatim>\<open>x >= n\<close>, where a product of positive numbers that is not finite is \<^verbatim>\<open>Infinity\<close>.\<close>

definition at_least :: "js_num \<Rightarrow> rat \<Rightarrow> bool" where
  "at_least x n = (case x of Finite q \<Rightarrow> n \<le> q | NotFinite \<Rightarrow> True)"

definition resolveHandshakeMs :: "(rat \<Rightarrow> rat \<Rightarrow> js_num) \<Rightarrow> js_num \<Rightarrow> js_num" where
  "resolveHandshakeMs mul seconds =
     (case seconds of
        NotFinite \<Rightarrow> Finite 30000
      | Finite s \<Rightarrow>
          if s \<le> 0 then Finite 30000
          else let ms = js_round (mul s 1000) in if at_least ms 1000 then ms else Finite 30000)"

definition resolveTcpSeconds :: "js_num \<Rightarrow> js_num" where
  "resolveTcpSeconds seconds =
     (case seconds of
        NotFinite \<Rightarrow> Finite 15
      | Finite s \<Rightarrow> if s < 0 then Finite 15 else js_round seconds)"

text \<open>\<^verbatim>\<open>cfg.get<number>(key, d)\<close>, to be looked at by \<^verbatim>\<open>Number.isFinite\<close>, which is false for anything
  that is not a number.\<close>

definition number_setting :: "(string \<Rightarrow> js_num) \<Rightarrow> json option \<Rightarrow> rat \<Rightarrow> js_num" where
  "number_setting value v d =
     (case v of None \<Rightarrow> Finite d | Some (JNum l) \<Rightarrow> value l | Some _ \<Rightarrow> NotFinite)"

text \<open>\<^verbatim>\<open>cfg.get<string>(key, "").trim()\<close>: only a string has that method.\<close>

definition trimmed_setting :: "json option \<Rightarrow> string result" where
  "trimmed_setting v = (case v of None \<Rightarrow> Inr [] | Some (JStr s) \<Rightarrow> Inr (trim s) | Some _ \<Rightarrow> Inl type_error)"

record user_settings =
  us_sshPath :: "string option"
  us_configFile :: "string option"
  us_handshakeTimeoutMs :: js_num
  us_tcpTimeoutSeconds :: js_num
  us_usePersistentSession :: json

definition sshSettings ::
    "(string \<Rightarrow> js_num) \<Rightarrow> (rat \<Rightarrow> rat \<Rightarrow> js_num) \<Rightarrow> string \<Rightarrow> settings_map \<Rightarrow> user_settings result" where
  "sshSettings value mul homedir cfg =
     (case trimmed_setting (cfg ''sshPath'') of
        Inl e \<Rightarrow> Inl e
      | Inr sshPath \<Rightarrow>
          (case trimmed_setting (cfg ''configFile'') of
             Inl e \<Rightarrow> Inl e
           | Inr configFile \<Rightarrow>
               Inr \<lparr>us_sshPath = (if sshPath \<noteq> [] then Some (expand_home homedir sshPath) else None),
                    us_configFile = (if configFile \<noteq> [] then Some (expand_home homedir configFile) else None),
                    us_handshakeTimeoutMs = resolveHandshakeMs mul (number_setting value (cfg ''handshakeTimeout'') 30),
                    us_tcpTimeoutSeconds = resolveTcpSeconds (number_setting value (cfg ''tcpTimeout'') 15),
                    us_usePersistentSession = nullish (cfg ''usePersistentSession'') (JBool True)\<rparr>))"

section \<open>The configuration\<close>

datatype config_value = Single string | Parts "string list"

type_synonym config_line = "(string \<times> config_value) option"

record 'l config_env =
  ce_homedir :: string
  ce_settings :: settings_map
  ce_systemPath :: string
  ce_exists :: "string \<Rightarrow> bool"
  ce_readFile :: "string \<Rightarrow> string result"
  ce_parse :: "string \<Rightarrow> 'l list result"
  ce_view :: "'l \<Rightarrow> config_line"
  ce_compute :: "'l list \<Rightarrow> string \<Rightarrow> (string \<times> json) list result"

text \<open>\<^verbatim>\<open>systemPath\<close>; \<^verbatim>\<open>path.resolve\<close> of Windows is an argument.\<close>

definition systemPath :: "bool \<Rightarrow> (string list \<Rightarrow> string) \<Rightarrow> string option \<Rightarrow> string" where
  "systemPath win32 path_resolve allUsersProfile =
     (if win32 then path_resolve [nullish allUsersProfile (''C:'' @ [char_of (92 :: nat)] @ ''ProgramData''), ''ssh'', ''ssh_config'']
      else ''/etc/ssh/ssh_config'')"

definition readConfigFile :: "'l config_env \<Rightarrow> string \<Rightarrow> 'l list result" where
  "readConfigFile env filePath =
     (case (if ce_exists env filePath then map_sum id trim (ce_readFile env filePath) else Inr []) of
        Inl e \<Rightarrow> Inl e
      | Inr content \<Rightarrow> ce_parse env content)"

definition valueToString :: "json option \<Rightarrow> string + string list" where
  "valueToString v =
     (case v of
        Some (JArr vs) \<Rightarrow> Inr (map json_text vs)
      | Some JNull \<Rightarrow> Inl []
      | None \<Rightarrow> Inl []
      | Some x \<Rightarrow> Inl (json_text x))"

definition pickString :: "json option \<Rightarrow> string option" where
  "pickString v = (case valueToString v of Inl s \<Rightarrow> if s \<noteq> [] then Some s else None | Inr _ \<Rightarrow> None)"

text \<open>The value of a \<^verbatim>\<open>Host\<close> directive that is listed: its first pattern, unless that has a wildcard.\<close>

definition first_value :: "config_value \<Rightarrow> string option" where
  "first_value v = (case v of Single s \<Rightarrow> Some s | Parts [] \<Rightarrow> None | Parts (x # _) \<Rightarrow> Some x)"

definition is_pattern :: "string \<Rightarrow> bool" where
  "is_pattern v = ((v \<noteq> [] \<and> hd v \<in> set ''!*?'') \<or> (\<exists>c \<in> set v. c = CHR ''*'' \<or> c = CHR ''?''))"

definition listed_host :: "config_line \<Rightarrow> string option" where
  "listed_host line =
     (case line of
        None \<Rightarrow> None
      | Some (param, value) \<Rightarrow>
          if to_lower param \<noteq> ''host'' \<or> value = Single [] then None
          else (case first_value value of
                  None \<Rightarrow> None
                | Some v \<Rightarrow> if v \<noteq> [] \<and> \<not> is_pattern v then Some v else None))"

record host_config =
  hc_alias :: string
  hc_hostName :: string
  hc_user :: "string option"
  hc_port :: "int option"
  hc_identityFile :: "string list option"
  hc_proxyJump :: "string option"
  hc_proxyCommand :: "string option"

text \<open>The merged configuration: the lines of the user's file, then those of the system's.\<close>

definition merged_config :: "'l config_env \<Rightarrow> 'l list result" where
  "merged_config env =
     (case getConfigPath (ce_homedir env) (ce_settings env) of
        Inl e \<Rightarrow> Inl e
      | Inr path \<Rightarrow>
          (case readConfigFile env path of
             Inl e \<Rightarrow> Inl e
           | Inr user \<Rightarrow>
               (case readConfigFile env (ce_systemPath env) of
                  Inl e \<Rightarrow> Inl e
                | Inr system \<Rightarrow>
                    (case ce_parse env [] of Inl e \<Rightarrow> Inl e | Inr fresh \<Rightarrow> Inr (fresh @ user @ system)))))"

definition getConfig :: "'l config_env \<Rightarrow> 'l list \<Rightarrow> string \<Rightarrow> host_config option result" where
  "getConfig env merged alias =
     (case ce_compute env merged alias of
        Inl e \<Rightarrow> Inl e
      | Inr computed \<Rightarrow>
          if computed = [] then Inr None
          else
            let get = map_of (rev computed);
                portStr = pickString (get ''Port'')
            in Inr (Some
                 \<lparr>hc_alias = alias, hc_hostName = nullish (pickString (get ''HostName'')) alias,
                  hc_user = pickString (get ''User''),
                  hc_port = Option.bind portStr parse_int,
                  hc_identityFile =
                    (case valueToString (get ''IdentityFile'') of
                       Inr ps \<Rightarrow> Some (filter (\<lambda>p. p \<noteq> []) ps)
                     | Inl p \<Rightarrow> if p \<noteq> [] then Some [p] else None),
                  hc_proxyJump = pickString (get ''ProxyJump''), hc_proxyCommand = pickString (get ''ProxyCommand'')\<rparr>))"

text \<open>The hosts, and the lines that \<^verbatim>\<open>getConfig\<close> closes over.\<close>

definition loadSshConfig :: "'l config_env \<Rightarrow> (string list \<times> 'l list) result" where
  "loadSshConfig env =
     map_sum id (\<lambda>merged. (js_set (List.map_filter (\<lambda>l. listed_host (ce_view env l)) merged), merged))
       (merged_config env)"

definition literal_config :: "string \<Rightarrow> ssh_destination \<Rightarrow> host_config" where
  "literal_config alias dest =
     \<lparr>hc_alias = alias, hc_hostName = dest_host dest, hc_user = dest_user dest,
      hc_port = map_option int (dest_port dest), hc_identityFile = None, hc_proxyJump = None, hc_proxyCommand = None\<rparr>"

definition resolveHostInput :: "'l config_env \<Rightarrow> string \<Rightarrow> host_config result" where
  "resolveHostInput env input =
     (case loadSshConfig env of
        Inl e \<Rightarrow> Inl e
      | Inr (hosts, merged) \<Rightarrow>
          (case getConfig env merged (trim input) of
             Inl e \<Rightarrow> Inl e
           | Inr (Some c) \<Rightarrow> Inr c
           | Inr None \<Rightarrow> map_sum id (literal_config (trim input)) (parseSshDestination (trim input))))"

text \<open>A configured port may be any integer, so the destination is the raw one of \<open>Destination\<close>.\<close>

definition hostConfigToDestination :: "host_config \<Rightarrow> raw_destination" where
  "hostConfigToDestination cfg =
     \<lparr>raw_host = JStr (hc_hostName cfg), raw_user = map_option JStr (hc_user cfg),
      raw_port = map_option (\<lambda>p. JNum (dec_int p)) (hc_port cfg)\<rparr>"

section \<open>Lemmas\<close>

lemma listed_host_Some:
  "listed_host line = Some v \<longleftrightarrow>
     (\<exists>param value. line = Some (param, value) \<and> to_lower param = ''host'' \<and> first_value value = Some v
        \<and> v \<noteq> [] \<and> \<not> is_pattern v)"
  by (auto simp: listed_host_def first_value_def split: option.splits config_value.splits list.splits)

lemma in_map_filter: "v \<in> set (List.map_filter f xs) \<longleftrightarrow> (\<exists>x \<in> set xs. f x = Some v)"
  by (force simp: List.map_filter_def)

lemma number_setting_default [simp]: "number_setting value None d = Finite d"
  by (simp add: number_setting_def)

lemma at_least_default [simp]: "at_least (Finite 30000) 1000"
  by (simp add: at_least_def)

lemma handshake_at_least: "at_least (resolveHandshakeMs mul s) 1000"
  by (simp add: resolveHandshakeMs_def Let_def split: js_num.split)

lemma near_halves: "a \<le> q + 1 / 2 \<Longrightarrow> q + 1 / 2 < a + 1 \<Longrightarrow> \<bar>a - q\<bar> \<le> 1 / 2" for a q :: rat
  by linarith

lemma js_round_near: "\<exists>r. js_round (Finite q) = Finite r \<and> \<bar>r - q\<bar> \<le> 1 / 2"
  using near_halves [of "of_int \<lfloor>q + 1 / 2\<rfloor>" q] floor_correct [of "q + 1 / 2"] by (simp only: js_round_def js_num.case) simp

lemma js_round_below: "q < n - 1 / 2 \<Longrightarrow> js_round (Finite q) = Finite r \<Longrightarrow> n = of_int k \<Longrightarrow> r < n"
  by (auto simp: js_round_def floor_less_iff)

lemma getConfig_alias: "getConfig env merged a = Inr (Some c) \<Longrightarrow> hc_alias c = a"
  by (auto simp: getConfig_def Let_def split: sum.splits if_splits)

lemma destination_of_literal: "hostConfigToDestination (literal_config a d) = raw_of d"
  by (cases "dest_port d") (simp_all add: hostConfigToDestination_def literal_config_def raw_of_def dec_int_def)

section \<open>Properties\<close>

text \<open>The host list has no repetition and holds exactly the first pattern of every \<^verbatim>\<open>Host\<close> directive
  of the user's and the system's file, in whatever letter case the keyword is written, unless that
  pattern is empty, negated or has a wildcard.\<close>

theorem listed_hosts_exact:
  assumes "loadSshConfig env = Inr (hosts, merged)"
  shows "distinct hosts
       \<and> (\<forall>v. v \<in> set hosts \<longleftrightarrow> (\<exists>l \<in> set merged. \<exists>param value. ce_view env l = Some (param, value)
            \<and> to_lower param = ''host'' \<and> first_value value = Some v \<and> v \<noteq> [] \<and> \<not> is_pattern v))"
  using assms by (cases "merged_config env") (simp add: loadSshConfig_def, force simp: loadSshConfig_def in_map_filter listed_host_Some)

definition demo_lines :: "(string \<times> config_value) list" where
  "demo_lines = [(''Host'', Parts [''web'', ''db'']), (''HostName'', Single ''10.0.0.1''), (''HOST'', Single ''web''), (''Host'', Single ''*''), (''host'', Single ''ci'')]"

definition demo_env :: "(string \<times> json) list \<Rightarrow> (string \<times> config_value) config_env" where
  "demo_env computed =
     \<lparr>ce_homedir = ''/home/u'', ce_settings = Map.empty, ce_systemPath = ''/etc/ssh/ssh_config'',
      ce_exists = (\<lambda>p. p = ''/home/u/.ssh/config''), ce_readFile = (\<lambda>p. Inr ''x''),
      ce_parse = (\<lambda>t. Inr (if t = ''x'' then demo_lines else [])), ce_view = Some, ce_compute = (\<lambda>_ _. Inr computed)\<rparr>"

lemma demo_path: "path_join [''/home/u'', ''.ssh'', ''config''] = ''/home/u/.ssh/config''"
  by (simp add: path_join_def posix_normalize_def Let_def)

lemma demo_trim: "trim ''x'' = ''x''"
  by (rule trim_no_space) (simp add: is_space_def)

lemma demo_load: "loadSshConfig (demo_env computed) = Inr ([''web'', ''ci''], demo_lines)"
proof -
  have "merged_config (demo_env computed) = Inr demo_lines"
    by (simp add: merged_config_def getConfigPath_def demo_env_def DEFAULT_CONFIG_PATH_def demo_path readConfigFile_def
        json_truthy_def demo_trim)
  moreover have "ce_view (demo_env computed) = Some" by (simp add: demo_env_def)
  moreover have "js_set (List.map_filter listed_host (map Some demo_lines)) = [''web'', ''ci'']" by code_simp
  ultimately show ?thesis by (simp add: loadSshConfig_def List.map_filter_def filter_map comp_def)
qed

theorem listed_hosts_exact_witness: "distinct [''web'', ''ci''] \<and> ''db'' \<notin> set [''web'', ''ci'']"
  using listed_hosts_exact [OF demo_load [of "[]"]] by simp

text \<open>What the user types means a configured host as soon as the configuration has any value for it,
  and only otherwise the destination that is written. So one \<^verbatim>\<open>Host *\<close> block with any option
  makes a literal \<^verbatim>\<open>user@host:port\<close> a host name as a whole, without user and port.\<close>

theorem wildcard_shadows_literal:
  assumes "loadSshConfig env = Inr (hosts, merged)" and "ce_compute env merged (trim input) = Inr computed"
  shows "(computed = [] \<longrightarrow>
            map_sum id hostConfigToDestination (resolveHostInput env input) = map_sum id raw_of (parseSshDestination (trim input)))
       \<and> (computed \<noteq> [] \<and> (\<forall>k \<in> {''HostName'', ''User'', ''Port''}. k \<notin> fst ` set computed) \<longrightarrow>
            map_sum id hostConfigToDestination (resolveHostInput env input)
              = Inr \<lparr>raw_host = JStr (trim input), raw_user = None, raw_port = None\<rparr>)"
proof (intro conjI impI)
  assume "computed = []"
  with assms show "map_sum id hostConfigToDestination (resolveHostInput env input) = map_sum id raw_of (parseSshDestination (trim input))"
    by (cases "parseSshDestination (trim input)") (simp_all add: resolveHostInput_def getConfig_def destination_of_literal)
next
  assume c: "computed \<noteq> [] \<and> (\<forall>k \<in> {''HostName'', ''User'', ''Port''}. k \<notin> fst ` set computed)"
  then have "map_of (rev computed) k = None" if "k \<in> {''HostName'', ''User'', ''Port''}" for k
    using that by (simp only: map_of_eq_None_iff set_rev) blast
  then have "map_of (rev computed) ''HostName'' = None" "map_of (rev computed) ''User'' = None" "map_of (rev computed) ''Port'' = None"
    by simp_all
  with assms c show "map_sum id hostConfigToDestination (resolveHostInput env input)
      = Inr \<lparr>raw_host = JStr (trim input), raw_user = None, raw_port = None\<rparr>"
    by (simp add: resolveHostInput_def getConfig_def Let_def pickString_def valueToString_def hostConfigToDestination_def)
qed

theorem wildcard_shadows_literal_witness:
  "map_sum id hostConfigToDestination (resolveHostInput (demo_env [(''ServerAliveInterval'', JStr ''60'')]) ''me@box:2222'')
     = Inr \<lparr>raw_host = JStr ''me@box:2222'', raw_user = None, raw_port = None\<rparr>"
proof -
  have t: "trim ''me@box:2222'' = ''me@box:2222''" by (rule trim_no_space) (simp add: is_space_def)
  have "ce_compute (demo_env [(''ServerAliveInterval'', JStr ''60'')]) demo_lines (trim ''me@box:2222'') = Inr [(''ServerAliveInterval'', JStr ''60'')]"
    by (simp add: demo_env_def)
  from wildcard_shadows_literal [OF demo_load this] show ?thesis by (simp add: t)
qed

text \<open>Whatever the settings hold, the handshake timeout is at least a second; a finite setting of at
  least a second is kept to the millisecond, one below that is replaced by thirty seconds. The TCP
  timeout is never negative, and the setting to within half a second.\<close>

theorem timeouts_bounded:
  "at_least (resolveHandshakeMs mul s) 1000
   \<and> (1 \<le> x \<longrightarrow> mul x 1000 = Finite (x * 1000) \<longrightarrow>
        (\<exists>ms. resolveHandshakeMs mul (Finite x) = Finite ms \<and> \<bar>ms - x * 1000\<bar> \<le> 1 / 2))
   \<and> (x < 1999 / 2000 \<longrightarrow> mul x 1000 = Finite (x * 1000) \<longrightarrow> resolveHandshakeMs mul (Finite x) = Finite 30000)
   \<and> at_least (resolveTcpSeconds s) 0 \<and> (0 \<le> x \<longrightarrow> (\<exists>n. resolveTcpSeconds (Finite x) = Finite n \<and> \<bar>n - x\<bar> \<le> 1 / 2))"
proof (intro conjI impI)
  show "at_least (resolveHandshakeMs mul s) 1000" by (rule handshake_at_least)
next
  assume x: "1 \<le> x" and m: "mul x 1000 = Finite (x * 1000)"
  obtain ms where ms: "js_round (Finite (x * 1000)) = Finite ms" "\<bar>ms - x * 1000\<bar> \<le> 1 / 2"
    using js_round_near by blast
  have "(1000 :: int) \<le> \<lfloor>x * 1000 + 1 / 2\<rfloor>" using x by (simp add: le_floor_iff)
  then have "1000 \<le> (of_int \<lfloor>x * 1000 + 1 / 2\<rfloor> :: rat)" by (metis of_int_le_iff of_int_numeral)
  with ms have "1000 \<le> ms" by (simp add: js_round_def)
  with x m ms show "\<exists>ms. resolveHandshakeMs mul (Finite x) = Finite ms \<and> \<bar>ms - x * 1000\<bar> \<le> 1 / 2"
    by (simp add: resolveHandshakeMs_def at_least_def)
next
  assume x: "x < 1999 / 2000" and m: "mul x 1000 = Finite (x * 1000)"
  obtain ms where ms: "js_round (Finite (x * 1000)) = Finite ms" by (simp add: js_round_def)
  have "ms < 1000" by (rule js_round_below [OF _ ms, where k = 1000]) (use x in simp_all)
  with m ms show "resolveHandshakeMs mul (Finite x) = Finite 30000"
    by (simp add: resolveHandshakeMs_def at_least_def)
next
  show "at_least (resolveTcpSeconds s) 0"
  proof (cases s)
    case (Finite q)
    have "0 \<le> \<lfloor>q + 1 / 2\<rfloor>" if "\<not> q < 0" using that by simp
    with Finite show ?thesis by (simp add: resolveTcpSeconds_def js_round_def at_least_def)
  qed (simp add: resolveTcpSeconds_def at_least_def)
next
  assume "0 \<le> x"
  then show "\<exists>n. resolveTcpSeconds (Finite x) = Finite n \<and> \<bar>n - x\<bar> \<le> 1 / 2"
    using js_round_near [of x] by (simp add: resolveTcpSeconds_def)
qed

theorem timeouts_bounded_witness:
  "resolveHandshakeMs (\<lambda>x y. Finite (x * y)) (Finite (1 / 2)) = Finite 30000"
  using timeouts_bounded [of "\<lambda>x y. Finite (x * y)" "Finite 1" "1 / 2"] by simp

text \<open>The host list and ssh itself use the same configuration file when the setting is a path with no
  white space around it; otherwise they may not: \<^verbatim>\<open>getConfigPath\<close> does not trim, so white space
  alone names a file for the list while ssh uses its default.\<close>

theorem config_paths_agree:
  assumes "cfg ''configFile'' = Some (JStr s)" and "cfg ''sshPath'' = None"
  shows "(trimmed s \<and> s \<noteq> [] \<longrightarrow>
            map_sum id us_configFile (sshSettings value mul homedir cfg) = map_sum id Some (getConfigPath homedir cfg))
       \<and> (s \<noteq> [] \<and> trim s = [] \<longrightarrow>
            map_sum id us_configFile (sshSettings value mul homedir cfg) = Inr None \<and> getConfigPath homedir cfg = Inr (expand_home homedir s))"
  using assms by (auto simp: sshSettings_def getConfigPath_def trimmed_setting_def trim_trimmed json_truthy_def)

theorem config_paths_agree_witness:
  "getConfigPath ''/h'' [''configFile'' \<mapsto> JStr '' ''] = Inr (expand_home ''/h'' '' '')"
proof -
  have "trim '' '' = []" by (simp add: trim_def trim_start_def trim_end_def is_space_def)
  then show ?thesis using config_paths_agree [of "[''configFile'' \<mapsto> JStr '' '']" "'' ''"] by simp
qed

end
