(* ===== verification/Platform.thy ===== *)
theory Platform
  imports ServerUrl Paths
begin

text \<open>
  \<^verbatim>\<open>src/platform/vscodium.ts\<close>, \<^verbatim>\<open>kiro.ts\<close>, \<^verbatim>\<open>index.ts\<close> and \<^verbatim>\<open>forkTemplates.ts\<close>: the adapters of the
  supported editors, what they read from the editor's product.json, and the templates offered in
  the configuration panel. \<open>product\<close> is what \<^verbatim>\<open>readProductJson\<close> gives at that moment: a JSON value or
  the error of reading or parsing. The network, \<^verbatim>\<open>resolveNearestVsCodiumVersion\<close> (modelled in
  \<open>VscodiumFeed\<close>), the file system and the installed extensions are arguments. The code compares
  fork configurations by identity; they are seven records that differ in their names.
\<close>

section \<open>product.json\<close>

definition readProductJson :: "(string \<Rightarrow> string result) \<Rightarrow> string \<Rightarrow> json result" where
  "readProductJson readFile appRoot =
     (case readFile (path_join [appRoot, ''product.json'']) of Inl e \<Rightarrow> Inl e | Inr t \<Rightarrow> parse_json t)"

text \<open>\<^verbatim>\<open>String(v ?? d)\<close>.\<close>

definition text_or :: "json option \<Rightarrow> string \<Rightarrow> string" where
  "text_or v d = (case v of None \<Rightarrow> d | Some JNull \<Rightarrow> d | Some x \<Rightarrow> json_text x)"

text \<open>\<^verbatim>\<open>v?.k\<close>.\<close>

definition opt_prop :: "json option \<Rightarrow> string \<Rightarrow> json option" where
  "opt_prop v k = (case v of Some (JObj kvs) \<Rightarrow> map_of (rev kvs) k | _ \<Rightarrow> None)"

text \<open>\<^verbatim>\<open>a ?? b\<close> on JSON values, where null counts as missing.\<close>

definition json_or :: "json option \<Rightarrow> json option \<Rightarrow> json option" where
  "json_or a b = (case a of None \<Rightarrow> b | Some JNull \<Rightarrow> b | _ \<Rightarrow> a)"

text \<open>\<^verbatim>\<open>a || b\<close> on JSON values.\<close>

definition json_alt :: "json option \<Rightarrow> json option \<Rightarrow> json option" where
  "json_alt a b = (if json_truthy a then a else b)"

definition readProductField :: "json result \<Rightarrow> string \<Rightarrow> string option" where
  "readProductField product field =
     (case product of
        Inl _ \<Rightarrow> None
      | Inr v \<Rightarrow> (case json_prop v field of Inr x \<Rightarrow> json_string x | Inl _ \<Rightarrow> None))"

section \<open>Forks\<close>

record fork_config =
  f_name :: string
  f_dataFolderName :: string
  f_serverDataFolderName :: string
  f_serverApplicationName :: string
  f_argvDataFolderNames :: "string list"
  f_remoteExtensionsDirs :: "string list"
  f_needsArgvPatch :: bool

definition VSCODIUM_CONFIG :: fork_config where
  "VSCODIUM_CONFIG =
     \<lparr>f_name = ''VSCodium'', f_dataFolderName = ''.vscode-oss'', f_serverDataFolderName = ''.vscodium-server'',
      f_serverApplicationName = ''codium-server'',
      f_argvDataFolderNames = [''.vscode-oss'', ''.vscodium'', ''.code-oss'', ''.vscode''],
      f_remoteExtensionsDirs = [''.vscodium-server/extensions'', ''.vscode-oss-server/extensions''], f_needsArgvPatch = True\<rparr>"

definition TRAE_CONFIG :: fork_config where
  "TRAE_CONFIG =
     \<lparr>f_name = ''Trae'', f_dataFolderName = ''.trae'', f_serverDataFolderName = ''.trae-server'',
      f_serverApplicationName = ''trae-server'', f_argvDataFolderNames = [''.trae''],
      f_remoteExtensionsDirs = [''.trae-server/extensions''], f_needsArgvPatch = False\<rparr>"

definition DEVIN_CONFIG :: fork_config where
  "DEVIN_CONFIG =
     \<lparr>f_name = ''Devin'', f_dataFolderName = ''.devin'', f_serverDataFolderName = ''.devin-server'',
      f_serverApplicationName = ''devin-server'', f_argvDataFolderNames = [''.devin''],
      f_remoteExtensionsDirs = [''.devin-server/extensions''], f_needsArgvPatch = True\<rparr>"

definition ANTIGRAVITY_CONFIG :: fork_config where
  "ANTIGRAVITY_CONFIG =
     \<lparr>f_name = ''Antigravity'', f_dataFolderName = ''.antigravity-ide'', f_serverDataFolderName = ''.antigravity-ide-server'',
      f_serverApplicationName = ''antigravity-ide-server'', f_argvDataFolderNames = [''.antigravity-ide''],
      f_remoteExtensionsDirs = [''.antigravity-ide-server/extensions''], f_needsArgvPatch = True\<rparr>"

definition QODER_CONFIG :: fork_config where
  "QODER_CONFIG =
     \<lparr>f_name = ''Qoder'', f_dataFolderName = ''.qoder'', f_serverDataFolderName = ''.qoder-server'',
      f_serverApplicationName = ''qoder-server'', f_argvDataFolderNames = [''.qoder''],
      f_remoteExtensionsDirs = [''.qoder-server/extensions''], f_needsArgvPatch = True\<rparr>"

definition BOB_CONFIG :: fork_config where
  "BOB_CONFIG =
     \<lparr>f_name = ''Bob'', f_dataFolderName = ''.bobide'', f_serverDataFolderName = ''.bobide-server'',
      f_serverApplicationName = ''bobide-server'', f_argvDataFolderNames = [''.bobide''],
      f_remoteExtensionsDirs = [''.bobide-server/extensions''], f_needsArgvPatch = True\<rparr>"

definition VSCODE_OSS_CONFIG :: fork_config where
  "VSCODE_OSS_CONFIG =
     \<lparr>f_name = ''Code-OSS'', f_dataFolderName = ''.vscode-oss'', f_serverDataFolderName = ''.vscode-server-oss'',
      f_serverApplicationName = ''code-server-oss'', f_argvDataFolderNames = [''.vscode-oss'', ''.code-oss'', ''.vscode''],
      f_remoteExtensionsDirs = [''.vscode-server-oss/extensions''], f_needsArgvPatch = True\<rparr>"

definition fork_of_name :: "string \<Rightarrow> fork_config" where
  "fork_of_name name =
     (if name = ''code-oss'' then VSCODE_OSS_CONFIG
      else if has_sub name ''trae'' \<or> has_sub name ''byte'' then TRAE_CONFIG
      else if has_sub name ''devin'' \<or> has_sub name ''windsurf'' then DEVIN_CONFIG
      else if has_sub name ''antigravity'' then ANTIGRAVITY_CONFIG
      else if has_sub name ''qoder'' then QODER_CONFIG
      else if has_sub name ''bob'' then BOB_CONFIG
      else VSCODIUM_CONFIG)"

definition detectFork :: "json result \<Rightarrow> fork_config" where
  "detectFork product =
     (case product of
        Inl _ \<Rightarrow> VSCODIUM_CONFIG
      | Inr v \<Rightarrow>
          (case json_prop v ''applicationName'' of
             Inl _ \<Rightarrow> VSCODIUM_CONFIG
           | Inr a \<Rightarrow> fork_of_name (to_lower (text_or a []))))"

section \<open>Trae\<close>

definition TRAE_CDN_FALLBACK :: string where
  "TRAE_CDN_FALLBACK = ''https://lf-cdn.trae.ai/obj/trae-ai-sg''"

definition TRAE_GUIDANCE_API :: string where
  "TRAE_GUIDANCE_API = ''https://api.trae.ai/cloudide/api/v3/trae/GetLoginGuidanceForBytedance''"

text \<open>The object or other value \<^verbatim>\<open>bootConfig.cdn\<close>; without one an empty object.\<close>

definition readTraeCdnConfig :: "json result \<Rightarrow> json" where
  "readTraeCdnConfig product =
     (case product of
        Inl _ \<Rightarrow> JObj []
      | Inr v \<Rightarrow> nullish (json_or (opt_prop (opt_prop (Some v) ''bootConfig'') ''cdn'') None) (JObj []))"

definition upper_char :: "char \<Rightarrow> char" where
  "upper_char c = (if 97 \<le> (of_char c :: nat) \<and> of_char c \<le> (122 :: nat)
                   then char_of (of_char c - 32 :: nat) else c)"

text \<open>A region that is not a string has no \<^verbatim>\<open>toUpperCase\<close>; that error is caught too.\<close>

definition detectTraeRegion :: "'w fetcher \<Rightarrow> ('w, string) promise" where
  "detectTraeRegion fetch_post =
     catching
       (await (fetch_post TRAE_GUIDANCE_API) (\<lambda>res.
          if http_ok res
          then (case parse_json (http_body res) of
                  Inl e \<Rightarrow> reject e
                | Inr data \<Rightarrow>
                    (let region = opt_prop (opt_prop (Some data) ''Result'') ''Region'' in
                     if json_truthy region
                     then (case region of Some (JStr r) \<Rightarrow> resolve (map upper_char r) | _ \<Rightarrow> reject type_error)
                     else resolve ''US''))
          else resolve ''US''))
       (\<lambda>_. resolve ''US'')"

definition strip_slash :: "string \<Rightarrow> string" where
  "strip_slash s = (if s \<noteq> [] \<and> last s = CHR ''/'' then butlast s else s)"

definition cdn_base_of :: "json \<Rightarrow> string \<Rightarrow> json option" where
  "cdn_base_of cdn region =
     (let get = opt_prop (Some cdn) in
      if region = ''US'' then json_alt (json_alt (get ''USTTP'') (get ''US'')) (get ''SG'')
      else if region = ''CN'' then json_alt (get ''CN'') (get ''SG'')
      else json_alt (get region) (get ''SG''))"

definition traeCdnBase :: "'w fetcher \<Rightarrow> json result \<Rightarrow> ('w, string) promise" where
  "traeCdnBase fetch_post product =
     await (detectTraeRegion fetch_post) (\<lambda>region.
       case json_alt (cdn_base_of (readTraeCdnConfig product) region) (Some (JStr TRAE_CDN_FALLBACK)) of
         Some (JStr base) \<Rightarrow> resolve (strip_slash base)
       | _ \<Rightarrow> reject type_error)"

definition fetchTraeVersion :: "'w fetcher \<Rightarrow> string \<Rightarrow> string \<Rightarrow> ('w, string) promise" where
  "fetchTraeVersion fetch versionUrl commitId =
     catching
       (await (fetch versionUrl) (\<lambda>response.
          resolve (if http_ok response \<and> trim (http_body response) \<noteq> [] then trim (http_body response) else commitId)))
       (\<lambda>_. resolve commitId)"

section \<open>Addresses\<close>

definition VSCODIUM_GITHUB_BASE :: string where
  "VSCODIUM_GITHUB_BASE = ''https://github.com/VSCodium/vscodium/releases/download''"

definition DEVIN_CDN_BASE :: string where
  "DEVIN_CDN_BASE = ''https://windsurf-stable.codeiumdata.com''"

definition ANTIGRAVITY_CDN_BASE :: string where
  "ANTIGRAVITY_CDN_BASE = ''https://dl.google.com/edgedl/release2/j0qc3/antigravity''"

definition QODER_CDN_BASE :: string where
  "QODER_CDN_BASE = ''https://download.qoder.com''"

definition version_field :: "json result \<Rightarrow> string \<Rightarrow> string" where
  "version_field product field = or_else (nullish (readProductField product field) []) ''0.0.0''"

definition vscodium_url :: "string \<Rightarrow> string \<Rightarrow> string \<Rightarrow> string" where
  "vscodium_url v os arch =
     VSCODIUM_GITHUB_BASE @ ''/'' @ v @ ''/vscodium-reh-'' @ os @ ''-'' @ arch @ ''-'' @ v @ ''.tar.gz''"

definition vscodiumDownloadUrl :: "json result \<Rightarrow> string \<Rightarrow> string \<Rightarrow> string" where
  "vscodiumDownloadUrl product os arch = vscodium_url (version_field product ''version'') os arch"

definition vscodeOssDownloadUrl ::
    "(string \<Rightarrow> ('w, string) promise) \<Rightarrow> json result \<Rightarrow> string \<Rightarrow> string \<Rightarrow> ('w, string) promise" where
  "vscodeOssDownloadUrl nearest product os arch =
     await (nearest (version_field product ''version'')) (\<lambda>n. resolve (vscodium_url (or_else n ''0.0.0'') os arch))"

definition trae_dir :: "string \<Rightarrow> string \<Rightarrow> string" where
  "trae_dir cdnBase commitId = cdnBase @ ''/pkg/server/releases/stable/'' @ commitId @ ''/linux-debian10''"

definition traeDownloadUrl ::
    "'w fetcher \<Rightarrow> 'w fetcher \<Rightarrow> json result \<Rightarrow> string \<Rightarrow> string \<Rightarrow> ('w, string) promise" where
  "traeDownloadUrl fetch_post fetch product commitId arch =
     await (traeCdnBase fetch_post product) (\<lambda>cdnBase.
     await (fetchTraeVersion fetch (trae_dir cdnBase commitId @ ''/version'') commitId) (\<lambda>ver.
       resolve (trae_dir cdnBase commitId @ ''/Trae-linux-'' @ arch @ ''-'' @ ver @ ''.tar.gz'')))"

definition devinDownloadUrl :: "json result \<Rightarrow> string \<Rightarrow> string \<Rightarrow> string \<Rightarrow> string \<Rightarrow> string" where
  "devinDownloadUrl product commitId qual os arch =
     DEVIN_CDN_BASE @ ''/'' @ os @ ''-reh-'' @ arch @ ''/'' @ qual @ ''/'' @ commitId @ ''/devin-reh-'' @ os @ ''-'' @ arch @ ''-''
       @ version_field product ''windsurfVersion'' @ ''.tar.gz''"

definition antigravityDownloadUrl :: "json result \<Rightarrow> string \<Rightarrow> string \<Rightarrow> string \<Rightarrow> string \<Rightarrow> string" where
  "antigravityDownloadUrl product commitId qual os arch =
     ANTIGRAVITY_CDN_BASE @ ''/'' @ qual @ ''/'' @ version_field product ''ideVersion'' @ ''-'' @ commitId @ ''/'' @ os @ ''-'' @ arch
       @ ''/Antigravity%20IDE-reh.tar.gz''"

definition qoderDownloadUrl :: "json result \<Rightarrow> string \<Rightarrow> string \<Rightarrow> string \<Rightarrow> string" where
  "qoderDownloadUrl product commitId os arch =
     (let v = version_field product ''productVersion''
      in QODER_CDN_BASE @ ''/server/'' @ v @ ''/'' @ commitId @ ''/qoder-reh-'' @ os @ ''-'' @ arch @ ''-'' @ v @ ''.tar.gz'')"

text \<open>\<^verbatim>\<open>getServerDownloadUrl\<close> of the VSCodium adapter, for the fork it detected when it was made.\<close>

definition vscodium_getServerDownloadUrl ::
    "'w fetcher \<Rightarrow> 'w fetcher \<Rightarrow> (string \<Rightarrow> ('w, string) promise) \<Rightarrow> json result \<Rightarrow> fork_config
      \<Rightarrow> string \<Rightarrow> string \<Rightarrow> string \<Rightarrow> string \<Rightarrow> ('w, string \<times> url_type) promise" where
  "vscodium_getServerDownloadUrl fetch_post fetch nearest product fork commitId qual os arch =
     (if fork = TRAE_CONFIG then await (traeDownloadUrl fetch_post fetch product commitId arch) (\<lambda>u. resolve (u, Auto))
      else if fork = DEVIN_CONFIG then resolve (devinDownloadUrl product commitId qual os arch, Auto)
      else if fork = ANTIGRAVITY_CONFIG then resolve (antigravityDownloadUrl product commitId qual os arch, Auto)
      else if fork = QODER_CONFIG then resolve (qoderDownloadUrl product commitId os arch, Auto)
      else if fork = VSCODE_OSS_CONFIG then await (vscodeOssDownloadUrl nearest product os arch) (\<lambda>u. resolve (u, Auto))
      else if fork = VSCODIUM_CONFIG then resolve (vscodiumDownloadUrl product os arch, Auto)
      else resolve (vscodiumDownloadUrl product os arch, Fallback))"

section \<open>The VSCodium adapter\<close>

definition getArgvDataFolderNames :: "json result \<Rightarrow> fork_config \<Rightarrow> string list" where
  "getArgvDataFolderNames product fork =
     (let primary = nullish (readProductField product ''dataFolderName'') (f_dataFolderName fork)
      in primary # filter (\<lambda>f. f \<noteq> primary) (f_argvDataFolderNames fork))"

definition getRemoteExtensionsDirCandidates :: "json result \<Rightarrow> fork_config \<Rightarrow> string list" where
  "getRemoteExtensionsDirCandidates product fork =
     (let serverFolder = readProductField product ''serverDataFolderName'' in
      if truthy serverFolder then [nullish serverFolder [] @ ''/extensions''] else f_remoteExtensionsDirs fork)"

record extension =
  ext_id :: string
  ext_package :: "json option"

definition resolves_ssh :: "json option \<Rightarrow> bool" where
  "resolves_ssh pj =
     (case json_or (opt_prop pj ''activationEvents'') (opt_prop (opt_prop pj ''contributes'') ''activationEvents'') of
        Some (JArr events) \<Rightarrow> JStr ''onResolveRemoteAuthority:ssh-remote'' \<in> set events
      | _ \<Rightarrow> False)"

definition getConflictingSshExtensionIds :: "extension list \<Rightarrow> string list" where
  "getConflictingSshExtensionIds installed =
     map ext_id (filter (\<lambda>x. ext_id x \<noteq> ''aergic.zygos-vscodium'' \<and> resolves_ssh (ext_package x)) installed)"

definition no_checksum :: checksum_defaults where
  "no_checksum = \<lparr>def_checksumMethod = None, def_checksumAlgo = None, def_manifestTemplate = None, def_manifestField = None\<rparr>"

definition getChecksumConfig :: "fork_config \<Rightarrow> checksum_defaults" where
  "getChecksumConfig fork =
     (if fork = VSCODIUM_CONFIG \<or> fork = VSCODE_OSS_CONFIG
      then no_checksum\<lparr>def_checksumMethod := Some ''sidecar'', def_checksumAlgo := Some ''sha256''\<rparr>
      else if fork = TRAE_CONFIG \<or> fork = QODER_CONFIG
      then no_checksum\<lparr>def_checksumMethod := Some ''sidecar'', def_checksumAlgo := Some ''md5''\<rparr>
      else if fork = DEVIN_CONFIG
      then \<lparr>def_checksumMethod = Some ''manifest'', def_checksumAlgo = Some ''sha256'',
            def_manifestTemplate =
              Some ''https://windsurf-stable.codeiumdata.com/${os}-reh-${arch}/${quality}/manifest-${commit}.json'',
            def_manifestField = Some ''sha256hash''\<rparr>
      else no_checksum)"

section \<open>The Kiro adapter\<close>

definition LOCAL_AUTH_TOKEN_PATH :: string where
  "LOCAL_AUTH_TOKEN_PATH = ''.aws/sso/cache/kiro-auth-token.json''"

definition is_hex :: "string \<Rightarrow> bool" where
  "is_hex s = (s \<noteq> [] \<and> list_all (\<lambda>c. hex_val c \<noteq> None) s)"

text \<open>The file beside the token that it names by \<^verbatim>\<open>clientIdHash\<close>, when it is there and can be read.\<close>

definition registration_file ::
    "string \<Rightarrow> (string \<Rightarrow> bool) \<Rightarrow> (string \<Rightarrow> string result) \<Rightarrow> string \<Rightarrow> (string \<times> string) list" where
  "registration_file cacheDir existsSync readFile tokenContent =
     (case parse_json tokenContent of
        Inl _ \<Rightarrow> []
      | Inr token \<Rightarrow>
          (let hash = nullish (json_string (opt_prop (Some token) ''clientIdHash'')) [];
               regAbsPath = path_join [cacheDir, hash @ ''.json'']
           in if is_hex hash \<and> existsSync regAbsPath
              then (case readFile regAbsPath of Inl _ \<Rightarrow> [] | Inr t \<Rightarrow> [(''.aws/sso/cache/'' @ hash @ ''.json'', t)])
              else []))"

definition kiro_readAuthFiles ::
    "string \<Rightarrow> (string \<Rightarrow> bool) \<Rightarrow> (string \<Rightarrow> string result) \<Rightarrow> (string \<times> string) list" where
  "kiro_readAuthFiles homedir existsSync readFile =
     (let cacheDir = path_join [homedir, ''.aws'', ''sso'', ''cache'']; tokenAbsPath = path_join [cacheDir, ''kiro-auth-token.json''] in
      if \<not> existsSync tokenAbsPath then []
      else (case readFile tokenAbsPath of
              Inl _ \<Rightarrow> []
            | Inr tokenContent \<Rightarrow>
                (LOCAL_AUTH_TOKEN_PATH, tokenContent) # registration_file cacheDir existsSync readFile tokenContent))"

definition kiroDownloadUrl :: "string \<Rightarrow> string \<Rightarrow> string \<Rightarrow> string" where
  "kiroDownloadUrl commitId os arch =
     ''https://prod.download.desktop.kiro.dev/releases/remotes/'' @ commitId @ ''/kiro-reh-'' @ os @ ''-'' @ arch @ ''.tar.gz''"

definition kiro_isValidRuntime :: "json result \<Rightarrow> bool" where
  "kiro_isValidRuntime product =
     (case product of
        Inl _ \<Rightarrow> False
      | Inr v \<Rightarrow>
          (case json_prop v ''applicationName'' of
             Inl _ \<Rightarrow> False
           | Inr a \<Rightarrow> has_sub (to_lower (text_or a [])) ''kiro''))"

section \<open>Adapters\<close>

datatype adapter = KiroAdapter | VscodiumAdapter fork_config

definition adapter_name :: "adapter \<Rightarrow> string" where
  "adapter_name a = (case a of KiroAdapter \<Rightarrow> ''Kiro'' | VscodiumAdapter f \<Rightarrow> f_name f)"

definition adapter_dataFolderName :: "adapter \<Rightarrow> string" where
  "adapter_dataFolderName a = (case a of KiroAdapter \<Rightarrow> ''.kiro'' | VscodiumAdapter f \<Rightarrow> f_dataFolderName f)"

definition adapter_serverDataFolderName :: "adapter \<Rightarrow> string" where
  "adapter_serverDataFolderName a = (case a of KiroAdapter \<Rightarrow> ''.kiro-server'' | VscodiumAdapter f \<Rightarrow> f_serverDataFolderName f)"

definition adapter_serverApplicationName :: "adapter \<Rightarrow> string" where
  "adapter_serverApplicationName a = (case a of KiroAdapter \<Rightarrow> ''kiro-server'' | VscodiumAdapter f \<Rightarrow> f_serverApplicationName f)"

definition needsArgvPatch :: "adapter \<Rightarrow> bool" where
  "needsArgvPatch a = (case a of KiroAdapter \<Rightarrow> True | VscodiumAdapter f \<Rightarrow> f_needsArgvPatch f)"

definition isValidRuntime :: "json result \<Rightarrow> adapter \<Rightarrow> bool" where
  "isValidRuntime product a = (case a of KiroAdapter \<Rightarrow> kiro_isValidRuntime product | VscodiumAdapter f \<Rightarrow> True)"

definition adapter_getServerDownloadUrl ::
    "'w fetcher \<Rightarrow> 'w fetcher \<Rightarrow> (string \<Rightarrow> ('w, string) promise) \<Rightarrow> json result \<Rightarrow> adapter
      \<Rightarrow> string \<Rightarrow> string \<Rightarrow> string \<Rightarrow> string \<Rightarrow> ('w, string \<times> url_type) promise" where
  "adapter_getServerDownloadUrl fetch_post fetch nearest product a commitId qual os arch =
     (case a of
        KiroAdapter \<Rightarrow> resolve (kiroDownloadUrl commitId os arch, Auto)
      | VscodiumAdapter f \<Rightarrow> vscodium_getServerDownloadUrl fetch_post fetch nearest product f commitId qual os arch)"

text \<open>The module keeps the adapter it made first; the two flags are set when the extension is built.\<close>

definition detectPlatform :: "bool \<Rightarrow> bool \<Rightarrow> json result \<Rightarrow> adapter option \<Rightarrow> adapter result \<times> adapter option" where
  "detectPlatform hasKiro hasVscodium product made =
     (case made of
        Some a \<Rightarrow> (Inr a, Some a)
      | None \<Rightarrow>
          if hasKiro then (Inr KiroAdapter, Some KiroAdapter)
          else if hasVscodium
          then (Inr (VscodiumAdapter (detectFork product)), Some (VscodiumAdapter (detectFork product)))
          else (Inl (plain_error ''No platform adapter compiled in. Rebuild with a valid --target.''), None))"

text \<open>The template of product.json itself, or that of its \<^verbatim>\<open>remote.SSH\<close>.\<close>

definition product_template :: "json \<Rightarrow> string option" where
  "product_template v =
     (case opt_prop (Some v) ''serverDownloadUrlTemplate'' of
        Some (JStr t) \<Rightarrow> Some t
      | _ \<Rightarrow> json_string (opt_prop (opt_prop (opt_prop (Some v) ''remote'') ''SSH'') ''serverDownloadUrlTemplate''))"

definition raw_product_of :: "json \<Rightarrow> adapter \<Rightarrow> raw_product" where
  "raw_product_of v a =
     (let get = opt_prop (Some v)
      in \<lparr>raw_commit = text_or (get ''commit'') [], raw_quality = text_or (get ''quality'') ''stable'',
          raw_version = text_or (get ''version'') [],
          raw_productVersion = Some (nullish (json_string (get ''productVersion'')) []),
          raw_windsurfVersion = Some (nullish (json_string (get ''windsurfVersion'')) []),
          raw_ideVersion = Some (nullish (json_string (get ''ideVersion'')) []),
          raw_serverApplicationName = nullish (json_string (get ''serverApplicationName'')) (adapter_serverApplicationName a),
          raw_serverDataFolderName = nullish (json_string (get ''serverDataFolderName'')) (adapter_serverDataFolderName a)\<rparr>)"

definition adapter_checksums :: "adapter \<Rightarrow> checksum_defaults option" where
  "adapter_checksums a = (case a of KiroAdapter \<Rightarrow> None | VscodiumAdapter f \<Rightarrow> Some (getChecksumConfig f))"

definition with_product_template :: "json \<Rightarrow> product_info \<Rightarrow> product_info" where
  "with_product_template v merged =
     (if truthy (serverDownloadUrlTemplate merged) then merged
      else (case product_template v of
              None \<Rightarrow> merged
            | Some t \<Rightarrow> merged\<lparr>serverDownloadUrlTemplate := Some t\<rparr>))"

definition getProductInfo :: "json result \<Rightarrow> adapter \<Rightarrow> settings \<Rightarrow> product_info result" where
  "getProductInfo product a sd =
     (case product of
        Inl e \<Rightarrow> Inl e
      | Inr v \<Rightarrow>
          if v = JNull then Inl type_error
          else Inr (with_product_template v (mergeServerDownloadConfig (raw_product_of v a) (adapter_checksums a) sd)))"

section \<open>The templates of the configuration panel\<close>

record fork_template =
  t_id :: string
  t_name :: string
  t_template :: string
  t_checksumMethod :: "string option"
  t_checksumAlgo :: "string option"
  t_manifestTemplate :: "string option"
  t_manifestField :: "string option"

definition plain_template :: "string \<Rightarrow> string \<Rightarrow> string \<Rightarrow> fork_template" where
  "plain_template i n t =
     \<lparr>t_id = i, t_name = n, t_template = t, t_checksumMethod = None, t_checksumAlgo = None, t_manifestTemplate = None, t_manifestField = None\<rparr>"

definition sidecar_template :: "string \<Rightarrow> string \<Rightarrow> string \<Rightarrow> string \<Rightarrow> fork_template" where
  "sidecar_template i n t algo = (plain_template i n t)\<lparr>t_checksumMethod := Some ''sidecar'', t_checksumAlgo := Some algo\<rparr>"

definition FORK_TEMPLATES :: "fork_template list" where
  "FORK_TEMPLATES =
    [sidecar_template ''vscodium'' ''VSCodium''
       ''https://github.com/VSCodium/vscodium/releases/download/${version}/vscodium-reh-${os}-${arch}-${version}.tar.gz'' ''sha256'',
     sidecar_template ''vscode-oss'' ''Code-OSS''
       ''https://github.com/VSCodium/vscodium/releases/download/${nearestVsCodiumVersion}/vscodium-reh-${os}-${arch}-${nearestVsCodiumVersion}.tar.gz'' ''sha256'',
     plain_template ''kiro'' ''Kiro''
       ''https://prod.download.desktop.kiro.dev/releases/remotes/${commit}/kiro-reh-${os}-${arch}.tar.gz'',
     sidecar_template ''trae-us'' ''Trae (US)''
       ''https://lf-static.traecdn.us/obj/trae-ai-tx/pkg/server/releases/stable/${commit}/linux-debian10/Trae-linux-${arch}-${cdnVersion}.tar.gz'' ''md5'',
     sidecar_template ''trae-sg'' ''Trae (SG)''
       ''https://lf-cdn.trae.ai/obj/trae-ai-sg/pkg/server/releases/stable/${commit}/linux-debian10/Trae-linux-${arch}-${cdnVersion}.tar.gz'' ''md5'',
     sidecar_template ''trae-cn'' ''Trae (CN)''
       ''https://lf-cdn.trae.com.cn/obj/trae-com-cn/pkg/server/releases/stable/${commit}/linux-debian10/Trae-linux-${arch}-${cdnVersion}.tar.gz'' ''md5'',
     (plain_template ''devin'' ''Devin''
       ''https://windsurf-stable.codeiumdata.com/${os}-reh-${arch}/${quality}/${commit}/devin-reh-${os}-${arch}-${windsurfVersion}.tar.gz'')
       \<lparr>t_checksumMethod := Some ''manifest'',
        t_manifestTemplate := Some ''https://windsurf-stable.codeiumdata.com/${os}-reh-${arch}/${quality}/manifest-${commit}.json'',
        t_manifestField := Some ''sha256hash'', t_checksumAlgo := Some ''sha256''\<rparr>,
     plain_template ''antigravity'' ''Antigravity''
       ''https://dl.google.com/edgedl/release2/j0qc3/antigravity/${quality}/${ideVersion}-${commit}/${os}-${arch}/Antigravity%20IDE-reh.tar.gz'',
     (plain_template ''qoder'' ''Qoder''
       ''https://download.qoder.com/server/${productVersion}/${commit}/qoder-reh-${os}-${arch}-${productVersion}.tar.gz'')
       \<lparr>t_checksumAlgo := Some ''md5''\<rparr>,
     plain_template ''bob'' ''Bob'' ''https://api.us-east.bob.ibm.com/update/reh/ibm-bob/${os}/${arch}/${version}'',
     plain_template ''custom'' ''Custom'' []]"

definition fork_template_of :: "string \<Rightarrow> string option" where
  "fork_template_of i = map_option t_template (find (\<lambda>t. t_id t = i) FORK_TEMPLATES)"

section \<open>Lemmas\<close>

lemma readProductField_prop: "readProductField (Inr v) k = json_string (opt_prop (Some v) k)"
  by (cases v) (simp_all add: readProductField_def json_prop_def opt_prop_def json_string_def)

lemma merged_fields:
  "commit (mergeServerDownloadConfig raw d sd) = raw_commit raw"
  "quality (mergeServerDownloadConfig raw d sd) = raw_quality raw"
  "version (mergeServerDownloadConfig raw d sd) = raw_version raw"
  "productVersion (mergeServerDownloadConfig raw d sd) = raw_productVersion raw"
  "windsurfVersion (mergeServerDownloadConfig raw d sd) = raw_windsurfVersion raw"
  "ideVersion (mergeServerDownloadConfig raw d sd) = raw_ideVersion raw"
  by (simp_all add: mergeServerDownloadConfig_def Let_def)

lemma with_template_fields [simp]:
  "commit (with_product_template v m) = commit m" "quality (with_product_template v m) = quality m"
  "version (with_product_template v m) = version m" "productVersion (with_product_template v m) = productVersion m"
  "windsurfVersion (with_product_template v m) = windsurfVersion m" "ideVersion (with_product_template v m) = ideVersion m"
  "serverDataFolderName (with_product_template v m) = serverDataFolderName m"
  by (simp_all add: with_product_template_def split: option.splits)

lemma product_info_fields:
  assumes "getProductInfo (Inr v) a sd = Inr info"
  shows "commit info = text_or (opt_prop (Some v) ''commit'') []"
    "quality info = text_or (opt_prop (Some v) ''quality'') ''stable''"
    "version info = text_or (opt_prop (Some v) ''version'') []"
    "productVersion info = Some (nullish (readProductField (Inr v) ''productVersion'') [])"
    "windsurfVersion info = Some (nullish (readProductField (Inr v) ''windsurfVersion'') [])"
    "ideVersion info = Some (nullish (readProductField (Inr v) ''ideVersion'') [])"
proof -
  have "info = with_product_template v (mergeServerDownloadConfig (raw_product_of v a) (adapter_checksums a) sd)"
    using assms by (simp add: getProductInfo_def split: if_splits)
  then show "commit info = text_or (opt_prop (Some v) ''commit'') []"
    "quality info = text_or (opt_prop (Some v) ''quality'') ''stable''"
    "version info = text_or (opt_prop (Some v) ''version'') []"
    "productVersion info = Some (nullish (readProductField (Inr v) ''productVersion'') [])"
    "windsurfVersion info = Some (nullish (readProductField (Inr v) ''windsurfVersion'') [])"
    "ideVersion info = Some (nullish (readProductField (Inr v) ''ideVersion'') [])"
    by (simp_all add: merged_fields raw_product_of_def Let_def readProductField_prop)
qed

lemma text_or_string: "json_string x = Some s \<Longrightarrow> text_or x d = s"
  by (auto simp: json_string_def text_or_def split: option.splits json.splits)

lemma version_field_truthy: "truthy (readProductField product k) \<Longrightarrow> version_field product k = nullish (readProductField product k) []"
  by (cases "readProductField product k") (simp_all add: version_field_def or_else_def)

lemma version_field_ne: "version_field product k \<noteq> []"
  by (simp add: version_field_def or_else_def)

text \<open>The templates as pieces.\<close>

lemma template_texts:
  "''https://github.com/VSCodium/vscodium/releases/download/${version}/vscodium-reh-${os}-${arch}-${version}.tar.gz'' = render_all [Lit ''https://github.com/VSCodium/vscodium/releases/download/'', Var ''version'', Lit ''/vscodium-reh-'', Var ''os'', Lit ''-'',
     Var ''arch'', Lit ''-'', Var ''version'', Lit ''.tar.gz'']"
  "''https://prod.download.desktop.kiro.dev/releases/remotes/${commit}/kiro-reh-${os}-${arch}.tar.gz'' = render_all [Lit ''https://prod.download.desktop.kiro.dev/releases/remotes/'', Var ''commit'', Lit ''/kiro-reh-'', Var ''os'', Lit ''-'',
     Var ''arch'', Lit ''.tar.gz'']"
  "''https://windsurf-stable.codeiumdata.com/${os}-reh-${arch}/${quality}/${commit}/devin-reh-${os}-${arch}-${windsurfVersion}.tar.gz'' = render_all [Lit ''https://windsurf-stable.codeiumdata.com/'', Var ''os'', Lit ''-reh-'', Var ''arch'', Lit ''/'', Var ''quality'',
     Lit ''/'', Var ''commit'', Lit ''/devin-reh-'', Var ''os'', Lit ''-'', Var ''arch'', Lit ''-'', Var ''windsurfVersion'',
     Lit ''.tar.gz'']"
  "''https://dl.google.com/edgedl/release2/j0qc3/antigravity/${quality}/${ideVersion}-${commit}/${os}-${arch}/Antigravity%20IDE-reh.tar.gz'' = render_all [Lit ''https://dl.google.com/edgedl/release2/j0qc3/antigravity/'', Var ''quality'', Lit ''/'', Var ''ideVersion'', Lit ''-'',
     Var ''commit'', Lit ''/'', Var ''os'', Lit ''-'', Var ''arch'', Lit ''/Antigravity%20IDE-reh.tar.gz'']"
  "''https://download.qoder.com/server/${productVersion}/${commit}/qoder-reh-${os}-${arch}-${productVersion}.tar.gz'' = render_all [Lit ''https://download.qoder.com/server/'', Var ''productVersion'', Lit ''/'', Var ''commit'', Lit ''/qoder-reh-'', Var ''os'',
     Lit ''-'', Var ''arch'', Lit ''-'', Var ''productVersion'', Lit ''.tar.gz'']"
  "''https://api.us-east.bob.ibm.com/update/reh/ibm-bob/${os}/${arch}/${version}'' = render_all [Lit ''https://api.us-east.bob.ibm.com/update/reh/ibm-bob/'', Var ''os'', Lit ''/'', Var ''arch'', Lit ''/'', Var ''version'']"
  by (simp_all only: render_all_def placeholder_def list.map concat.simps append.simps render.simps)

lemma fork_template_texts:
  "fork_template_of ''vscodium'' = Some ''https://github.com/VSCodium/vscodium/releases/download/${version}/vscodium-reh-${os}-${arch}-${version}.tar.gz''"
  "fork_template_of ''kiro'' = Some ''https://prod.download.desktop.kiro.dev/releases/remotes/${commit}/kiro-reh-${os}-${arch}.tar.gz''"
  "fork_template_of ''devin'' = Some ''https://windsurf-stable.codeiumdata.com/${os}-reh-${arch}/${quality}/${commit}/devin-reh-${os}-${arch}-${windsurfVersion}.tar.gz''"
  "fork_template_of ''antigravity'' = Some ''https://dl.google.com/edgedl/release2/j0qc3/antigravity/${quality}/${ideVersion}-${commit}/${os}-${arch}/Antigravity%20IDE-reh.tar.gz''"
  "fork_template_of ''qoder'' = Some ''https://download.qoder.com/server/${productVersion}/${commit}/qoder-reh-${os}-${arch}-${productVersion}.tar.gz''"
  "fork_template_of ''bob'' = Some ''https://api.us-east.bob.ibm.com/update/reh/ibm-bob/${os}/${arch}/${version}''"
  by (simp_all add: fork_template_of_def FORK_TEMPLATES_def plain_template_def sidecar_template_def)

lemmas fork_template_pieces = fork_template_texts [unfolded template_texts]

lemma oss_template:
  "fork_template_of ''vscode-oss''
     = Some (render_all [Lit ''https://github.com/VSCodium/vscodium/releases/download/'', Var ''nearestVsCodiumVersion'', Lit ''/vscodium-reh-'',
         Var ''os'', Lit ''-'', Var ''arch'', Lit ''-'', Var ''nearestVsCodiumVersion'', Lit ''.tar.gz''])"
  by (simp add: fork_template_of_def FORK_TEMPLATES_def plain_template_def sidecar_template_def render_all_def placeholder_def)

lemma find_sub_none: "no_dollar s \<Longrightarrow> find_sub (placeholder n) s = None"
  by (induction s) (auto simp: no_dollar_def placeholder_def)

lemma no_placeholder: "no_dollar s \<Longrightarrow> \<not> has_sub s (placeholder n)"
  by (simp add: has_sub_def find_sub_none)

lemma find_sub_lit: "no_dollar s \<Longrightarrow> find_sub (placeholder n) (s @ t) = None \<longleftrightarrow> find_sub (placeholder n) t = None"
  by (induction s) (auto simp: no_dollar_def placeholder_def)

lemma find_sub_other:
  assumes "x \<noteq> n" and "CHR ''}'' \<notin> set n" and "CHR ''}'' \<notin> set x" and "no_dollar x"
  shows "find_sub (placeholder n) (placeholder x @ t) = None \<longleftrightarrow> find_sub (placeholder n) t = None"
proof -
  have "\<not> prefix (n @ ''}'') (x @ CHR ''}'' # t)" using prefix_brace assms(1,2,3) by metis
  then have "find_sub (placeholder n) (placeholder x @ t) = None \<longleftrightarrow> find_sub (placeholder n) ((''{'' @ x @ ''}'') @ t) = None"
    by (simp add: placeholder_def)
  also have "\<dots> \<longleftrightarrow> find_sub (placeholder n) t = None"
    by (rule find_sub_lit) (use assms(4) in \<open>simp add: no_dollar_def\<close>)
  finally show ?thesis .
qed

lemma has_placeholder:
  "\<forall>q \<in> set ps. piece_ok q \<Longrightarrow> CHR ''}'' \<notin> set n \<Longrightarrow> has_sub (render_all ps) (placeholder n) \<longleftrightarrow> Var n \<in> set ps"
proof (induction ps)
  case Nil
  then show ?case by (simp add: has_sub_def render_all_def placeholder_def)
next
  case (Cons q ps)
  have tail: "render_all (q # ps) = render q @ render_all ps" by (simp add: render_all_def)
  show ?case
  proof (cases q)
    case (Lit s)
    with Cons tail show ?thesis by (simp add: has_sub_def find_sub_lit piece_ok_def)
  next
    case (Var x)
    show ?thesis
    proof (cases "x = n")
      case True
      have "find_sub (placeholder n) (placeholder n @ render_all ps) = Some 0" by (simp add: placeholder_def)
      with Var True tail show ?thesis by (simp add: has_sub_def)
    next
      case False
      with Var Cons tail find_sub_other [of x n "render_all ps"] show ?thesis by (simp add: has_sub_def piece_ok_def)
    qed
  qed
qed

lemma placeholders_none: "no_dollar s \<Longrightarrow> placeholders s = []"
  by (induction s) (auto simp: no_dollar_def Let_def)

lemmas fork_configs = VSCODIUM_CONFIG_def VSCODE_OSS_CONFIG_def TRAE_CONFIG_def DEVIN_CONFIG_def ANTIGRAVITY_CONFIG_def QODER_CONFIG_def
  BOB_CONFIG_def

lemmas piece_simps = piece_ok_def no_dollar_def render_all_def template_values_def VSCODIUM_GITHUB_BASE_def DEVIN_CDN_BASE_def
  ANTIGRAVITY_CDN_BASE_def QODER_CDN_BASE_def

lemma template_unused:
  "template_values (info\<lparr>serverDownloadUrlTemplate := x\<rparr>) os arch = template_values info os arch"
  "substituteTemplate t (info\<lparr>serverDownloadUrlTemplate := x\<rparr>) os arch = substituteTemplate t info os arch"
  by (simp_all add: template_values_def substituteTemplate_def)

lemma oss_template_of:
  "nullish (serverDownloadUrlTemplate (info\<lparr>serverDownloadUrlTemplate := fork_template_of ''vscode-oss''\<rparr>)) []
     = render_all [Lit ''https://github.com/VSCodium/vscodium/releases/download/'', Var ''nearestVsCodiumVersion'', Lit ''/vscodium-reh-'',
         Var ''os'', Lit ''-'', Var ''arch'', Lit ''-'', Var ''nearestVsCodiumVersion'', Lit ''.tar.gz'']"
  by (cases info) (simp only: oss_template product_info.simps nullish_simps)

lemma nearest_address:
  assumes "truthy (serverDownloadUrlTemplate info)" and "substituteTemplate (nullish (serverDownloadUrlTemplate info) []) info os arch = r"
    and "\<not> has_sub r (placeholder ''cdnVersion'')" and "has_sub r (placeholder ''nearestVsCodiumVersion'')"
    and "nearest (version info) w = (Inr n, w')" and "js_replace (placeholder ''nearestVsCodiumVersion'') n r = u" and "no_dollar u"
  shows "buildServerDownloadUrl fetch nearest g info os arch w = (Inr (u, Custom), w')"
  using assms by (simp add: buildServerDownloadUrl_def resolveTemplateUrl_def expand_async_def placeholders_none promise_simps)

text \<open>The template of Code-OSS asks the release feed, once, for both of its placeholders.\<close>

lemma oss_template_address:
  assumes "\<forall>(n, x) \<in> set (template_values info os arch). no_dollar x"
    and "nearest (version info) w = (Inr n, w')" and "no_dollar n"
  shows "buildServerDownloadUrl fetch nearest g (info\<lparr>serverDownloadUrlTemplate := fork_template_of ''vscode-oss''\<rparr>) os arch w
       = (Inr (''https://github.com/VSCodium/vscodium/releases/download/'' @ n @ ''/vscodium-reh-'' @ os @ ''-'' @ arch @ ''-'' @ n @ ''.tar.gz'', Custom), w')"
    (is "_ = (Inr (?u, _), _)")
proof -
  let ?info = "info\<lparr>serverDownloadUrlTemplate := fork_template_of ''vscode-oss''\<rparr>"
  define qs where "qs = [Lit ''https://github.com/VSCodium/vscodium/releases/download/'', Var ''nearestVsCodiumVersion'', Lit ''/vscodium-reh-'',
    Lit os, Lit ''-'', Lit arch, Lit ''-'', Var ''nearestVsCodiumVersion'', Lit ''.tar.gz'']"
  have parts: "no_dollar os" "no_dollar arch" using assms(1) by (simp_all add: template_values_def)
  have filled: "substituteTemplate (nullish (serverDownloadUrlTemplate ?info) []) ?info os arch = render_all qs"
    unfolding template_unused oss_template_of
    by (subst substitute_values)
      (use assms(1) in \<open>simp_all add: piece_ok_def no_dollar_def template_values_def render_all_def qs_def\<close>)
  have ok: "\<forall>q \<in> set qs. piece_ok q" using parts by (simp add: qs_def piece_ok_def no_dollar_def)
  have "js_replace (placeholder ''nearestVsCodiumVersion'') n (render_all qs) = render_all (map (fill ''nearestVsCodiumVersion'' n) qs)"
    unfolding js_replace_def by (rule replace_pieces [OF assms(3) _ ok]) simp
  also have "\<dots> = ?u" by (simp add: qs_def fill_def render_all_def)
  finally have replaced: "js_replace (placeholder ''nearestVsCodiumVersion'') n (render_all qs) = ?u" .
  have "no_dollar ?u" using parts assms(3) by (simp add: no_dollar_def)
  moreover have "has_sub (render_all qs) (placeholder ''nearestVsCodiumVersion'')"
    using has_placeholder [OF ok] by (simp add: qs_def)
  moreover have "\<not> has_sub (render_all qs) (placeholder ''cdnVersion'')"
    using has_placeholder [OF ok] by (simp add: qs_def)
  moreover have "truthy (fork_template_of ''vscode-oss'')" by (simp add: oss_template render_all_def)
  ultimately show ?thesis
    by (intro nearest_address [OF _ filled _ _ _ replaced]) (simp_all add: assms(2))
qed

definition panel_and_adapter where
  "panel_and_adapter fetch_post fetch nearest v i a info os arch w =
     (buildServerDownloadUrl fetch nearest (adapter_getServerDownloadUrl fetch_post fetch nearest (Inr v) a)
        (info\<lparr>serverDownloadUrlTemplate := fork_template_of i\<rparr>) os arch w,
      buildServerDownloadUrl fetch nearest (adapter_getServerDownloadUrl fetch_post fetch nearest (Inr v) a)
        (info\<lparr>serverDownloadUrlTemplate := None\<rparr>) os arch w)"

text \<open>The templates of \<open>FORK_TEMPLATES\<close> that stand for an adapter whose address is made of product.json
  alone, with the version field of product.json that the address needs.\<close>

definition own_templates :: "(string \<times> adapter \<times> string option) list" where
  "own_templates =
     [(''vscodium'', VscodiumAdapter VSCODIUM_CONFIG, Some ''version''), (''kiro'', KiroAdapter, None),
      (''devin'', VscodiumAdapter DEVIN_CONFIG, Some ''windsurfVersion''),
      (''antigravity'', VscodiumAdapter ANTIGRAVITY_CONFIG, Some ''ideVersion''),
      (''qoder'', VscodiumAdapter QODER_CONFIG, Some ''productVersion'')]"

lemma own_template_cases:
  assumes "(i, a, k) \<in> set own_templates"
  obtains "i = ''vscodium''" "a = VscodiumAdapter VSCODIUM_CONFIG" "k = Some ''version''"
    | "i = ''kiro''" "a = KiroAdapter" "k = None"
    | "i = ''devin''" "a = VscodiumAdapter DEVIN_CONFIG" "k = Some ''windsurfVersion''"
    | "i = ''antigravity''" "a = VscodiumAdapter ANTIGRAVITY_CONFIG" "k = Some ''ideVersion''"
    | "i = ''qoder''" "a = VscodiumAdapter QODER_CONFIG" "k = Some ''productVersion''"
proof -
  from assms have "(i, a, k) = (''vscodium'', VscodiumAdapter VSCODIUM_CONFIG, Some ''version'') \<or> (i, a, k) = (''kiro'', KiroAdapter, None)
      \<or> (i, a, k) = (''devin'', VscodiumAdapter DEVIN_CONFIG, Some ''windsurfVersion'')
      \<or> (i, a, k) = (''antigravity'', VscodiumAdapter ANTIGRAVITY_CONFIG, Some ''ideVersion'')
      \<or> (i, a, k) = (''qoder'', VscodiumAdapter QODER_CONFIG, Some ''productVersion'')"
    by (simp only: own_templates_def list.set insert_iff empty_iff HOL.simp_thms)
  then show thesis unfolding prod.inject by (elim disjE conjE) (erule (2) that)+
qed

lemma template_address:
  assumes "\<forall>q \<in> set ps. piece_ok q" and "\<forall>(n, x) \<in> set (template_values info os arch). no_dollar x"
    and "fork_template_of i = Some (render_all ps)" and "render_all ps \<noteq> []"
    and "\<forall>n. Var n \<in> set ps \<longrightarrow> map_of (template_values info os arch) n \<noteq> None"
  shows "buildServerDownloadUrl fetch nearest g (info\<lparr>serverDownloadUrlTemplate := fork_template_of i\<rparr>) os arch w
       = (Inr (concat (map (\<lambda>q. case q of Lit s \<Rightarrow> s | Var n \<Rightarrow> nullish (map_of (template_values info os arch) n) []) ps), Custom), w)"
    (is "_ = (Inr (?u, _), _)")
proof -
  let ?info = "info\<lparr>serverDownloadUrlTemplate := fork_template_of i\<rparr>"
  have pieces: "(case q of Lit s \<Rightarrow> s | Var n \<Rightarrow> nullish (map_of (template_values info os arch) n) (placeholder n))
      = (case q of Lit s \<Rightarrow> s | Var n \<Rightarrow> nullish (map_of (template_values info os arch) n) [])" if q: "q \<in> set ps" for q
  proof (cases q)
    case (Var n)
    with q assms(5) show ?thesis by fastforce
  qed simp
  have "no_dollar (case q of Lit s \<Rightarrow> s | Var n \<Rightarrow> nullish (map_of (template_values info os arch) n) [])" if q: "q \<in> set ps" for q
  proof (cases q)
    case (Lit s)
    with q assms(1) show ?thesis by (auto simp: piece_ok_def)
  next
    case (Var n)
    with q assms(5) obtain x where x: "map_of (template_values info os arch) n = Some x" by blast
    with assms(2) have "no_dollar x" by (auto dest: map_of_SomeD)
    with Var x show ?thesis by simp
  qed
  then have u: "no_dollar ?u" by (auto simp: no_dollar_def)
  have "substituteTemplate (render_all ps) ?info os arch = ?u"
    unfolding template_unused substitute_values [OF assms(1,2)] by (simp add: pieces cong: map_cong)
  with u assms(3,4) show ?thesis
    by (simp add: buildServerDownloadUrl_def resolveTemplateUrl_def expand_async_def no_placeholder placeholders_none promise_simps)
qed

text \<open>C27. For VSCodium, Kiro, Devin, Antigravity and Qoder, the template of the configuration panel leads
  \<^verbatim>\<open>buildServerDownloadUrl\<close> to exactly the address it gets from the fork's adapter when there is no
  template, with nothing fetched, whenever product.json has the version field the address needs and no
  value filled in contains a dollar sign; the two differ only in being called a custom and an automatic
  address. For Code-OSS the same holds when the release feed answers with a release. For Bob it does not
  hold: its template is IBM's address, where its adapter falls back to that of VSCodium. The three
  templates of Trae name a region each, where its adapter asks for the region; they are not compared.\<close>

theorem templates_match_adapter:
  assumes "getProductInfo (Inr v) a0 sd = Inr info" and "\<forall>(n, x) \<in> set (template_values info os arch). no_dollar x"
  shows "((i, a, k) \<in> set own_templates \<and> (\<forall>f. k = Some f \<longrightarrow> truthy (readProductField (Inr v) f)) \<longrightarrow>
            (\<exists>u. panel_and_adapter fetch_post fetch nearest v i a info os arch w = ((Inr (u, Custom), w), (Inr (u, Auto), w))))
       \<and> (truthy (readProductField (Inr v) ''version'') \<and> nearest (version info) w = (Inr n, w') \<and> n \<noteq> [] \<and> no_dollar n \<longrightarrow>
            (\<exists>u. panel_and_adapter fetch_post fetch nearest v ''vscode-oss'' (VscodiumAdapter VSCODE_OSS_CONFIG) info os arch w
               = ((Inr (u, Custom), w'), (Inr (u, Auto), w'))))
       \<and> (\<exists>u u'. panel_and_adapter fetch_post fetch nearest v ''bob'' (VscodiumAdapter BOB_CONFIG) info os arch w
               = ((Inr (u, Custom), w), (Inr (u', Fallback), w)) \<and> u \<noteq> u')"
proof (intro conjI impI)
  note fields = product_info_fields [OF assms(1)]
  have v: "truthy (readProductField (Inr v) ''version'') \<Longrightarrow> version info = version_field (Inr v) ''version''"
    by (cases "readProductField (Inr v) ''version''")
      (auto simp: fields version_field_truthy text_or_string readProductField_prop)
  have k: "truthy (readProductField (Inr v) k) \<Longrightarrow> nullish (readProductField (Inr v) k) [] = version_field (Inr v) k" for k
    by (simp add: version_field_truthy)
  note address = template_address [OF _ assms(2)]
  note adapters = buildServerDownloadUrl_def adapter_getServerDownloadUrl_def vscodium_getServerDownloadUrl_def fork_configs promise_simps
  {
    assume "(i, a, k) \<in> set own_templates \<and> (\<forall>f. k = Some f \<longrightarrow> truthy (readProductField (Inr v) f))"
    then have own: "(i, a, k) \<in> set own_templates" and f: "\<And>f. k = Some f \<Longrightarrow> truthy (readProductField (Inr v) f)" by simp_all
    from own show "\<exists>u. panel_and_adapter fetch_post fetch nearest v i a info os arch w = ((Inr (u, Custom), w), (Inr (u, Auto), w))"
    proof (cases rule: own_template_cases)
      case 1
      show ?thesis unfolding panel_and_adapter_def 1(1,2)
        by (subst address [OF _ fork_template_pieces(1)])
          (simp_all add: piece_simps adapters f [OF 1(3)] v vscodiumDownloadUrl_def vscodium_url_def)
    next
      case 2
      show ?thesis unfolding panel_and_adapter_def 2(1,2)
        by (subst address [OF _ fork_template_pieces(2)]) (simp_all add: piece_simps adapters kiroDownloadUrl_def)
    next
      case 3
      show ?thesis unfolding panel_and_adapter_def 3(1,2)
        by (subst address [OF _ fork_template_pieces(3)]) (simp_all add: piece_simps adapters f [OF 3(3)] k fields(5) devinDownloadUrl_def)
    next
      case 4
      show ?thesis unfolding panel_and_adapter_def 4(1,2)
        by (subst address [OF _ fork_template_pieces(4)]) (simp_all add: piece_simps adapters f [OF 4(3)] k fields(6) antigravityDownloadUrl_def)
    next
      case 5
      show ?thesis unfolding panel_and_adapter_def 5(1,2)
        by (subst address [OF _ fork_template_pieces(5)]) (simp_all add: piece_simps adapters f [OF 5(3)] k fields(4) qoderDownloadUrl_def Let_def)
    qed
  }
  show "\<exists>u u'. panel_and_adapter fetch_post fetch nearest v ''bob'' (VscodiumAdapter BOB_CONFIG) info os arch w
      = ((Inr (u, Custom), w), (Inr (u', Fallback), w)) \<and> u \<noteq> u'"
    unfolding panel_and_adapter_def
    by (subst address [OF _ fork_template_pieces(6)]) (simp_all add: piece_simps adapters vscodiumDownloadUrl_def vscodium_url_def)
  assume oss: "truthy (readProductField (Inr v) ''version'') \<and> nearest (version info) w = (Inr n, w') \<and> n \<noteq> [] \<and> no_dollar n"
  then have feed: "nearest (version info) w = (Inr n, w')" "no_dollar n" "n \<noteq> []" and version: "version info = version_field (Inr v) ''version''"
    using v by simp_all
  show "\<exists>u. panel_and_adapter fetch_post fetch nearest v ''vscode-oss'' (VscodiumAdapter VSCODE_OSS_CONFIG) info os arch w
      = ((Inr (u, Custom), w'), (Inr (u, Auto), w'))"
    unfolding panel_and_adapter_def
    by (subst oss_template_address [where nearest = nearest and w = w, OF assms(2) feed(1,2)])
      (simp add: adapters vscodeOssDownloadUrl_def vscodium_url_def or_else_def VSCODIUM_GITHUB_BASE_def
        feed(3) await_Inr [of "nearest (version_field (Inr v) ''version'')" w n w', OF feed(1) [unfolded version]])
qed

definition vscodium_product :: json where
  "vscodium_product = JObj [(''applicationName'', JStr ''codium''), (''version'', JStr ''1.2''), (''commit'', JStr ''abc'')]"

definition qoder_product :: json where
  "qoder_product = JObj [(''applicationName'', JStr ''qoder''), (''version'', JStr ''1.2''), (''productVersion'', JStr ''0.9''), (''commit'', JStr ''abc'')]"

definition qoder_product_info :: product_info where
  "qoder_product_info = with_product_template qoder_product (mergeServerDownloadConfig (raw_product_of qoder_product KiroAdapter) None Map.empty)"

theorem templates_match_adapter_witness:
  "(\<exists>u. panel_and_adapter (\<lambda>_. reject type_error) (\<lambda>_. reject type_error) (\<lambda>_. resolve ''1.1'') qoder_product ''qoder''
        (VscodiumAdapter QODER_CONFIG) qoder_product_info ''linux'' ''x64'' () = ((Inr (u, Custom), ()), (Inr (u, Auto), ())))
   \<and> (\<exists>u. panel_and_adapter (\<lambda>_. reject type_error) (\<lambda>_. reject type_error) (\<lambda>_. resolve ''1.1'') qoder_product ''vscode-oss''
        (VscodiumAdapter VSCODE_OSS_CONFIG) qoder_product_info ''linux'' ''x64'' () = ((Inr (u, Custom), ()), (Inr (u, Auto), ())))"
proof -
  have i: "getProductInfo (Inr qoder_product) KiroAdapter Map.empty = Inr qoder_product_info"
    by (simp add: getProductInfo_def qoder_product_def adapter_checksums_def qoder_product_info_def)
  have d: "\<forall>(n, x) \<in> set (template_values qoder_product_info ''linux'' ''x64''). no_dollar x"
    by (simp add: template_values_def product_info_fields [OF i] qoder_product_info_def with_product_template_def merged_fields raw_product_of_def
        Let_def opt_prop_def qoder_product_def text_or_def json_string_def no_dollar_def readProductField_prop mergeServerDownloadConfig_def
        or_else_def string_setting_def product_template_def)
  have t: "truthy (readProductField (Inr qoder_product) ''version'')" "truthy (readProductField (Inr qoder_product) ''productVersion'')"
    by (simp_all add: readProductField_prop qoder_product_def opt_prop_def json_string_def)
  have own: "(''qoder'', VscodiumAdapter QODER_CONFIG, Some ''productVersion'') \<in> set own_templates"
    by (simp only: own_templates_def list.set insert_iff HOL.simp_thms)
  note match = templates_match_adapter [OF i d, where nearest = "\<lambda>_. resolve ''1.1''" and fetch = "\<lambda>_. reject type_error"
      and fetch_post = "\<lambda>_. reject type_error" and w = "()" and w' = "()" and n = "''1.1''"]
  from own t(2) match [where i = "''qoder''" and a = "VscodiumAdapter QODER_CONFIG" and k = "Some ''productVersion''"]
    match [THEN conjunct2, THEN conjunct1] t(1)
  show ?thesis by (simp add: resolve_def no_dollar_def)
qed

lemma hex_plain: "is_hex h \<Longrightarrow> plain_segment (h @ ''.json'')"
proof -
  assume h: "is_hex h"
  then have "CHR ''/'' \<notin> set h" by (auto simp: is_hex_def list_all_iff hex_val_def)
  with h show ?thesis by (cases h) (auto simp: plain_segment_def is_hex_def)
qed

lemma cache_file:
  assumes "ss \<noteq> []" and "\<forall>s \<in> set ss. plain_segment s" and "plain_segment f"
  shows "path_join [path_join [''/'' @ js_join ''/'' ss, ''.aws'', ''sso'', ''cache''], f] = ''/'' @ js_join ''/'' ss @ ''/.aws/sso/cache/'' @ f"
proof -
  have p: "\<forall>s \<in> set (ss @ [''.aws'', ''sso'', ''cache'']). plain_segment s" using assms(2) by (auto simp: plain_segment_def)
  have "path_join [path_join [''/'' @ js_join ''/'' ss, ''.aws'', ''sso'', ''cache''], f]
      = path_join [''/'' @ js_join ''/'' (ss @ [''.aws'', ''sso'', ''cache'']), f]"
    using path_join_plain [OF assms(1) _ p] by simp
  also have "\<dots> = ''/'' @ js_join ''/'' (ss @ [''.aws'', ''sso'', ''cache'']) @ ''/'' @ f"
    by (rule path_join_file [OF _ p assms(3)]) simp
  finally show ?thesis using assms(1) by (simp add: js_join_append)
qed

lemma registration_file_cases:
  assumes "(p, t) \<in> set (registration_file d existsSync readFile c)"
  shows "\<exists>h. is_hex h \<and> p = ''.aws/sso/cache/'' @ h @ ''.json'' \<and> readFile (path_join [d, h @ ''.json'']) = Inr t"
proof (cases "parse_json c")
  case Inl
  with assms show ?thesis by (simp add: registration_file_def)
next
  case (Inr token)
  define h where "h = nullish (json_string (opt_prop (Some token) ''clientIdHash'')) []"
  define f where "f = path_join [d, h @ ''.json'']"
  have "registration_file d existsSync readFile c
      = (if is_hex h \<and> existsSync f then (case readFile f of Inl _ \<Rightarrow> [] | Inr t \<Rightarrow> [(''.aws/sso/cache/'' @ h @ ''.json'', t)]) else [])"
    unfolding registration_file_def Inr sum.case Let_def h_def f_def by (rule refl)
  then have "registration_file d existsSync readFile c = []
      \<or> (\<exists>u. is_hex h \<and> readFile f = Inr u \<and> registration_file d existsSync readFile c = [(''.aws/sso/cache/'' @ h @ ''.json'', u)])"
    by (cases "readFile f") simp_all
  with assms have "is_hex h \<and> p = ''.aws/sso/cache/'' @ h @ ''.json'' \<and> readFile f = Inr t"
    by (elim disjE exE conjE) simp_all
  then show ?thesis unfolding f_def by blast
qed

lemma auth_file_cases:
  assumes "(p, t) \<in> set (kiro_readAuthFiles homedir existsSync readFile)"
  shows "p = LOCAL_AUTH_TOKEN_PATH \<and> readFile (path_join [path_join [homedir, ''.aws'', ''sso'', ''cache''], ''kiro-auth-token.json'']) = Inr t
       \<or> (\<exists>h. is_hex h \<and> p = ''.aws/sso/cache/'' @ h @ ''.json''
            \<and> readFile (path_join [path_join [homedir, ''.aws'', ''sso'', ''cache''], h @ ''.json'']) = Inr t)"
proof -
  define d where "d = path_join [homedir, ''.aws'', ''sso'', ''cache'']"
  define f where "f = path_join [d, ''kiro-auth-token.json'']"
  have "kiro_readAuthFiles homedir existsSync readFile
      = (if \<not> existsSync f then []
         else (case readFile f of Inl _ \<Rightarrow> [] | Inr c \<Rightarrow> (LOCAL_AUTH_TOKEN_PATH, c) # registration_file d existsSync readFile c))"
    unfolding kiro_readAuthFiles_def d_def f_def Let_def by (rule refl)
  then have "kiro_readAuthFiles homedir existsSync readFile = []
      \<or> (\<exists>c. readFile f = Inr c \<and> kiro_readAuthFiles homedir existsSync readFile
                = (LOCAL_AUTH_TOKEN_PATH, c) # registration_file d existsSync readFile c)"
    by (cases "readFile f") simp_all
  with assms obtain c where "readFile f = Inr c" "(p, t) = (LOCAL_AUTH_TOKEN_PATH, c) \<or> (p, t) \<in> set (registration_file d existsSync readFile c)"
    by (elim disjE exE conjE) simp_all
  then show ?thesis using registration_file_cases [of p t d existsSync readFile c] unfolding f_def d_def by auto
qed

text \<open>The authentication files read for the remote lie directly in the cache directory, whatever the
  token says: the name taken from it can only be hexadecimal digits, so it cannot lead out of the
  directory, on either side. When the token can be read it is the first of the files, whatever
  is wrong with its content or with the registration beside it.\<close>

theorem kiro_auth_files_confined:
  assumes "homedir = ''/'' @ js_join ''/'' ss" and "ss \<noteq> []" and "\<forall>s \<in> set ss. plain_segment s"
  shows "((p, t) \<in> set (kiro_readAuthFiles homedir existsSync readFile) \<longrightarrow>
            (\<exists>f. plain_segment f \<and> p = ''.aws/sso/cache/'' @ f \<and> readFile (homedir @ ''/.aws/sso/cache/'' @ f) = Inr t))
       \<and> (existsSync (homedir @ ''/'' @ LOCAL_AUTH_TOKEN_PATH) \<and> readFile (homedir @ ''/'' @ LOCAL_AUTH_TOKEN_PATH) = Inr c \<longrightarrow>
            (\<exists>rest. kiro_readAuthFiles homedir existsSync readFile = (LOCAL_AUTH_TOKEN_PATH, c) # rest \<and> length rest \<le> 1))"
proof (intro conjI impI)
  have tok: "plain_segment ''kiro-auth-token.json''" by (simp add: plain_segment_def)
  note at = cache_file [OF assms(2,3)]
  {
    assume "(p, t) \<in> set (kiro_readAuthFiles homedir existsSync readFile)"
    then consider "p = LOCAL_AUTH_TOKEN_PATH" "readFile (path_join [path_join [homedir, ''.aws'', ''sso'', ''cache''], ''kiro-auth-token.json'']) = Inr t"
      | h where "is_hex h" "p = ''.aws/sso/cache/'' @ h @ ''.json''"
          "readFile (path_join [path_join [homedir, ''.aws'', ''sso'', ''cache''], h @ ''.json'']) = Inr t"
      using auth_file_cases by metis
    then show "\<exists>f. plain_segment f \<and> p = ''.aws/sso/cache/'' @ f \<and> readFile (homedir @ ''/.aws/sso/cache/'' @ f) = Inr t"
    proof cases
      case 1
      with tok at [OF tok] assms(1) show ?thesis
        by (intro exI [of _ "''kiro-auth-token.json''"]) (simp add: LOCAL_AUTH_TOKEN_PATH_def)
    next
      case (2 h)
      with at [OF hex_plain [OF 2(1)]] assms(1) show ?thesis
        by (intro exI [of _ "h @ ''.json''"]) (simp add: hex_plain)
    qed
  }
  assume "existsSync (homedir @ ''/'' @ LOCAL_AUTH_TOKEN_PATH) \<and> readFile (homedir @ ''/'' @ LOCAL_AUTH_TOKEN_PATH) = Inr c"
  with at [OF tok] assms(1)
  have "kiro_readAuthFiles homedir existsSync readFile
      = (LOCAL_AUTH_TOKEN_PATH, c) # registration_file (path_join [homedir, ''.aws'', ''sso'', ''cache'']) existsSync readFile c"
    by (simp add: kiro_readAuthFiles_def LOCAL_AUTH_TOKEN_PATH_def)
  moreover have "length (registration_file d existsSync readFile c) \<le> 1" for d
    by (simp add: registration_file_def Let_def split: sum.splits)
  ultimately show "\<exists>rest. kiro_readAuthFiles homedir existsSync readFile = (LOCAL_AUTH_TOKEN_PATH, c) # rest \<and> length rest \<le> 1"
    by blast
qed

theorem kiro_auth_files_confined_witness:
  "\<exists>rest. kiro_readAuthFiles ''/home/u'' (\<lambda>_. True) (\<lambda>_. Inr ''{'') = (LOCAL_AUTH_TOKEN_PATH, ''{'') # rest \<and> length rest \<le> 1"
  using kiro_auth_files_confined [of "''/home/u''" "[''home'', ''u'']" "[]" "[]" "\<lambda>_. True" "\<lambda>_. Inr ''{''" "''{''"]
  by (simp add: plain_segment_def)

lemma region_resolves: "\<exists>r w'. detectTraeRegion fetch_post w = (Inr r, w')"
  by (auto simp: detectTraeRegion_def catching_def await_def resolve_def reject_def Let_def split: prod.splits sum.splits option.splits json.splits if_splits)

lemma version_resolves: "c \<noteq> [] \<Longrightarrow> \<exists>v w'. fetchTraeVersion fetch u c w = (Inr v, w') \<and> v \<noteq> []"
  by (auto simp: fetchTraeVersion_def catching_def await_def resolve_def split: prod.splits sum.splits)

lemma json_alt_ne: "b \<noteq> None \<Longrightarrow> json_alt a b \<noteq> None"
  by (cases a) (auto simp: json_alt_def json_truthy_def)

lemma json_alt_string: "(\<forall>x. a = Some x \<longrightarrow> (\<exists>s. x = JStr s)) \<Longrightarrow> (\<forall>x. b = Some x \<longrightarrow> (\<exists>s. x = JStr s)) \<Longrightarrow> json_alt a b = Some x \<Longrightarrow> \<exists>s. x = JStr s"
  by (auto simp: json_alt_def split: if_splits)

text \<open>However the network behaves, a Trae address is computed, as long as the regions of product.json
  name their servers by strings: an unreachable or nonsensical guidance service means the region
  US, a version that cannot be fetched means the commit. A server that is not a string (but true)
  rejects.\<close>

theorem trae_address_total:
  assumes "\<forall>k x. opt_prop (Some (readTraeCdnConfig product)) k = Some x \<longrightarrow> (\<exists>s. x = JStr s)" and "commitId \<noteq> []"
  shows "\<exists>base v w'. traeDownloadUrl fetch_post fetch product commitId arch w
           = (Inr (trae_dir base commitId @ ''/Trae-linux-'' @ arch @ ''-'' @ v @ ''.tar.gz''), w') \<and> v \<noteq> []"
proof -
  obtain r w1 where r: "detectTraeRegion fetch_post w = (Inr r, w1)" using region_resolves [of fetch_post w] by auto
  let ?base = "json_alt (cdn_base_of (readTraeCdnConfig product) r) (Some (JStr TRAE_CDN_FALLBACK))"
  have cdn: "\<forall>x. cdn_base_of (readTraeCdnConfig product) r = Some x \<longrightarrow> (\<exists>s. x = JStr s)"
    using assms(1) by (auto simp: cdn_base_of_def json_alt_def Let_def split: if_splits)
  have "?base \<noteq> None" by (rule json_alt_ne) simp
  then obtain x where x: "?base = Some x" by blast
  have "\<exists>s. x = JStr s" by (rule json_alt_string [OF cdn _ x]) simp
  with x obtain s where "?base = Some (JStr s)" by blast
  with r have "traeCdnBase fetch_post product w = (Inr (strip_slash s), w1)"
    by (simp add: traeCdnBase_def promise_simps)
  moreover obtain v w2 where "fetchTraeVersion fetch (trae_dir (strip_slash s) commitId @ ''/version'') commitId w1 = (Inr v, w2)" "v \<noteq> []"
    using version_resolves [OF assms(2), of fetch "trae_dir (strip_slash s) commitId @ ''/version''" w1] by auto
  ultimately show ?thesis by (auto simp: traeDownloadUrl_def promise_simps)
qed

theorem trae_address_total_witness:
  "\<exists>base v w'. traeDownloadUrl (\<lambda>u. reject type_error) (\<lambda>u. reject type_error) (Inl type_error) ''c0'' ''x64'' ()
     = (Inr (trae_dir base ''c0'' @ ''/Trae-linux-'' @ ''x64'' @ ''-'' @ v @ ''.tar.gz''), w') \<and> v \<noteq> []"
  by (rule trae_address_total) (simp_all add: readTraeCdnConfig_def opt_prop_def)

definition known_forks :: "fork_config set" where
  "known_forks = {VSCODIUM_CONFIG, VSCODE_OSS_CONFIG, TRAE_CONFIG, DEVIN_CONFIG, ANTIGRAVITY_CONFIG, QODER_CONFIG, BOB_CONFIG}"

lemma detectFork_known: "detectFork product \<in> known_forks"
  by (auto simp: detectFork_def fork_of_name_def known_forks_def split: sum.split)

text \<open>Which fork runs is decided by the lower-case application name, exactly for Code-OSS and by a part of
  it for the others; a product.json that cannot be read means VSCodium. Only Bob's address is marked
  as a fallback. A failure of the release feed is passed on, it does not become version 0.0.0.\<close>

theorem fork_detected:
  "detectFork (Inl e) = VSCODIUM_CONFIG \<and> detectFork (Inr JNull) = VSCODIUM_CONFIG
   \<and> (json_prop v ''applicationName'' = Inr (Some (JStr n)) \<longrightarrow> detectFork (Inr v) = fork_of_name (to_lower n))
   \<and> (fork \<in> known_forks \<longrightarrow>
        vscodium_getServerDownloadUrl fetch_post fetch nearest product fork c q os arch w = (Inr (u, t), w') \<longrightarrow>
        (t = Fallback \<longleftrightarrow> fork = BOB_CONFIG) \<and> t \<noteq> Custom)
   \<and> (nearest (version_field product ''version'') w = (Inl e, w') \<longrightarrow>
        vscodium_getServerDownloadUrl fetch_post fetch nearest product VSCODE_OSS_CONFIG c q os arch w = (Inl e, w'))"
proof (intro conjI impI)
  assume "fork \<in> known_forks"
    and "vscodium_getServerDownloadUrl fetch_post fetch nearest product fork c q os arch w = (Inr (u, t), w')"
  then show "t = Fallback \<longleftrightarrow> fork = BOB_CONFIG" "t \<noteq> Custom"
    by (auto simp: vscodium_getServerDownloadUrl_def resolve_def known_forks_def VSCODIUM_CONFIG_def VSCODE_OSS_CONFIG_def TRAE_CONFIG_def DEVIN_CONFIG_def
        ANTIGRAVITY_CONFIG_def QODER_CONFIG_def BOB_CONFIG_def split: if_splits elim!: await_InrE)
qed (simp_all add: detectFork_def json_prop_def text_or_def vscodium_getServerDownloadUrl_def vscodeOssDownloadUrl_def
    promise_simps VSCODIUM_CONFIG_def VSCODE_OSS_CONFIG_def TRAE_CONFIG_def DEVIN_CONFIG_def ANTIGRAVITY_CONFIG_def QODER_CONFIG_def)

theorem fork_detected_witness:
  "vscodium_getServerDownloadUrl (\<lambda>_. reject type_error) (\<lambda>_. reject type_error) (\<lambda>_. reject type_error) (Inl type_error) VSCODE_OSS_CONFIG
     ''c'' ''q'' ''linux'' ''x64'' () = (Inl type_error, ())"
  using fork_detected [where e = type_error and nearest = "\<lambda>_. reject type_error" and w = "()" and w' = "()" and product = "Inl type_error"
      and fetch_post = "\<lambda>_. reject type_error" and fetch = "\<lambda>_. reject type_error" and c = "''c''" and q = "''q''" and os = "''linux''" and arch = "''x64''"]
  by (simp add: reject_def)

end
