(* ===== verification/Logger.thy ===== *)
theory Logger
  imports Json
begin

text \<open>
  \<^verbatim>\<open>src/common/logger.ts\<close>: the logger. Its output channel is the list of lines written, the shared
  file is its text; whether an append succeeds is an argument, and so is the time stamp. The levels
  form a linear order, as the numbers of the enumeration do.
\<close>

datatype log_level = LInfo | LDebug | LTrace

fun level_number :: "log_level \<Rightarrow> nat" where
  "level_number LInfo = 0"
| "level_number LDebug = 1"
| "level_number LTrace = 2"

instantiation log_level :: linorder
begin

definition less_eq_log_level :: "log_level \<Rightarrow> log_level \<Rightarrow> bool" where
  "less_eq_log_level a b = (level_number a \<le> level_number b)"

definition less_log_level :: "log_level \<Rightarrow> log_level \<Rightarrow> bool" where
  "less_log_level a b = (level_number a < level_number b)"

instance
proof
  fix a b c :: log_level
  show "(a < b) = (a \<le> b \<and> \<not> b \<le> a)" by (auto simp: less_eq_log_level_def less_log_level_def)
  show "a \<le> a" by (simp add: less_eq_log_level_def)
  show "a \<le> b \<Longrightarrow> b \<le> c \<Longrightarrow> a \<le> c" by (simp add: less_eq_log_level_def)
  show "a \<le> b \<Longrightarrow> b \<le> a \<Longrightarrow> a = b" by (cases a; cases b) (simp_all add: less_eq_log_level_def)
  show "a \<le> b \<or> b \<le> a" by (auto simp: less_eq_log_level_def)
qed

end

text \<open>The setting may hold anything; only the two words raise the level.\<close>

definition parseLogLevel :: "json option \<Rightarrow> log_level" where
  "parseLogLevel v =
     (case v of
        Some (JStr s) \<Rightarrow> if s = ''trace'' then LTrace else if s = ''debug'' then LDebug else LInfo
      | _ \<Rightarrow> LInfo)"

record logger =
  lg_channel :: "string list"
  lg_shown :: nat
  lg_level :: log_level
  lg_fileLogging :: bool
  lg_file :: string

definition new_logger :: "json option \<Rightarrow> json option \<Rightarrow> string \<Rightarrow> logger" where
  "new_logger logLevel fileLog content =
     \<lparr>lg_channel = [], lg_shown = 0, lg_level = parseLogLevel logLevel, lg_fileLogging = json_truthy fileLog, lg_file = content\<rparr>"

text \<open>One line to the channel, and to the file when that is switched on; a failing append is ignored.\<close>

definition log_raw :: "bool \<Rightarrow> string \<Rightarrow> logger \<Rightarrow> logger" where
  "log_raw writable line l =
     l\<lparr>lg_channel := lg_channel l @ [line],
       lg_file := (if lg_fileLogging l \<and> writable then lg_file l @ line @ [CHR 0x0A] else lg_file l)\<rparr>"

definition log_line :: "string \<Rightarrow> string \<Rightarrow> string \<Rightarrow> string" where
  "log_line now level msg = ''['' @ now @ ''] ['' @ level @ ''] '' @ msg"

definition log_append :: "bool \<Rightarrow> string \<Rightarrow> string \<Rightarrow> string \<Rightarrow> logger \<Rightarrow> logger" where
  "log_append writable now level msg l = log_raw writable (log_line now level msg) l"

definition log_info :: "bool \<Rightarrow> string \<Rightarrow> string \<Rightarrow> logger \<Rightarrow> logger" where
  "log_info writable now msg l = log_append writable now ''info'' msg l"

definition log_error :: "bool \<Rightarrow> string \<Rightarrow> string \<Rightarrow> logger \<Rightarrow> logger" where
  "log_error writable now msg l = log_append writable now ''error'' msg l"

definition log_debug :: "bool \<Rightarrow> string \<Rightarrow> string \<Rightarrow> logger \<Rightarrow> logger" where
  "log_debug writable now msg l = (if LDebug \<le> lg_level l then log_append writable now ''debug'' msg l else l)"

definition log_trace :: "bool \<Rightarrow> string \<Rightarrow> string \<Rightarrow> logger \<Rightarrow> logger" where
  "log_trace writable now msg l = (if LTrace \<le> lg_level l then log_append writable now ''trace'' msg l else l)"

definition log_show :: "logger \<Rightarrow> logger" where
  "log_show l = l\<lparr>lg_shown := Suc (lg_shown l)\<rparr>"

definition showLines :: "bool \<Rightarrow> string list \<Rightarrow> logger \<Rightarrow> logger" where
  "showLines writable lines l = log_show (fold (log_raw writable) lines l)"

section \<open>A sequence of calls\<close>

datatype log_call = Info string string | Error string string | Debug string string | Trace string string
  | Raw string | ShowLines "string list" | Show

fun log_step :: "bool \<Rightarrow> logger \<Rightarrow> log_call \<Rightarrow> logger" where
  "log_step writable l (Info now m) = log_info writable now m l"
| "log_step writable l (Error now m) = log_error writable now m l"
| "log_step writable l (Debug now m) = log_debug writable now m l"
| "log_step writable l (Trace now m) = log_trace writable now m l"
| "log_step writable l (Raw s) = log_raw writable s l"
| "log_step writable l (ShowLines ss) = showLines writable ss l"
| "log_step writable l Show = log_show l"

text \<open>What a call is to write at a level.\<close>

fun lines_of :: "log_level \<Rightarrow> log_call \<Rightarrow> string list" where
  "lines_of v (Info now m) = [log_line now ''info'' m]"
| "lines_of v (Error now m) = [log_line now ''error'' m]"
| "lines_of v (Debug now m) = (if v = LInfo then [] else [log_line now ''debug'' m])"
| "lines_of v (Trace now m) = (if v = LTrace then [log_line now ''trace'' m] else [])"
| "lines_of v (Raw s) = [s]"
| "lines_of v (ShowLines ss) = ss"
| "lines_of v Show = []"

definition file_text :: "string list \<Rightarrow> string" where
  "file_text ls = concat (map (\<lambda>l. l @ [CHR 0x0A]) ls)"

text \<open>What has been written since a logger \<open>l0\<close>: the same lines to the channel and to the file.\<close>

definition wrote :: "bool \<Rightarrow> logger \<Rightarrow> string list \<Rightarrow> logger \<Rightarrow> bool" where
  "wrote writable l0 ls l =
     (lg_level l = lg_level l0 \<and> lg_fileLogging l = lg_fileLogging l0 \<and> lg_channel l = lg_channel l0 @ ls
      \<and> lg_file l = lg_file l0 @ (if lg_fileLogging l0 \<and> writable then file_text ls else []))"

lemma wrote_raw: "wrote writable l0 ls l \<Longrightarrow> wrote writable l0 (ls @ [s]) (log_raw writable s l)"
  by (simp add: wrote_def log_raw_def file_text_def)

lemma wrote_raws: "wrote writable l0 ls l \<Longrightarrow> wrote writable l0 (ls @ ss) (fold (log_raw writable) ss l)"
proof (induction ss arbitrary: ls l)
  case (Cons s ss)
  from Cons.IH [OF wrote_raw [OF Cons.prems]] show ?case by simp
qed simp

lemma wrote_show: "wrote writable l0 ls l \<Longrightarrow> wrote writable l0 ls (log_show l)"
  by (simp add: wrote_def log_show_def)

lemma wrote_level: "wrote writable l0 ls l \<Longrightarrow> lg_level l = lg_level l0"
  by (simp add: wrote_def)

lemma fine_level: "LDebug \<le> v \<longleftrightarrow> v \<noteq> LInfo" "LTrace \<le> v \<longleftrightarrow> v = LTrace"
  by (cases v; simp add: less_eq_log_level_def)+

lemma wrote_step:
  assumes "wrote writable l0 ls l"
  shows "wrote writable l0 (ls @ lines_of (lg_level l0) c) (log_step writable l c)"
  using assms wrote_level [OF assms]
  by (cases c) (simp_all add: log_info_def log_error_def log_debug_def log_trace_def log_append_def showLines_def fine_level wrote_raw wrote_raws wrote_show)

interpretation logging: machine "log_step writable" "\<lambda>l. \<exists>ls. wrote writable l0 ls l" for writable l0
  by unfold_locales (use wrote_step in blast)

lemma wrote_run: "wrote writable l0 ls l \<Longrightarrow> wrote writable l0 (ls @ concat (map (lines_of (lg_level l0)) cs)) (foldl (log_step writable) l cs)"
proof (induction cs arbitrary: ls l)
  case (Cons c cs)
  from Cons.IH [OF wrote_step [OF Cons.prems]] show ?case by simp
qed simp

text \<open>Whatever is logged, channel and file receive the same lines in the same order: every information,
  error and raw line, and those of a finer level exactly when the setting asks for it. The file is
  touched only when file logging is on; when it cannot be written the channel still has the lines.\<close>

theorem log_written:
  "let l = foldl (log_step writable) (new_logger logLevel fileLog content) calls;
       ls = concat (map (lines_of (parseLogLevel logLevel)) calls)
   in lg_channel l = ls
    \<and> lg_file l = content @ (if json_truthy fileLog \<and> writable then file_text ls else [])"
proof -
  have "wrote writable (new_logger logLevel fileLog content) [] (new_logger logLevel fileLog content)"
    by (simp add: wrote_def file_text_def)
  from wrote_run [OF this, of calls] show ?thesis by (simp add: wrote_def new_logger_def Let_def)
qed

end
