(* ===== verification/TempDir.thy ===== *)
theory TempDir
  imports Paths
begin

text \<open>
  \<^verbatim>\<open>src/common/temp.ts\<close>: temporary directories that only the owner can enter. The directories of
  the file system are a map from paths to modes; which calls the system refuses, and with
  which error code, is an argument, and so are the random names. The body of \<^verbatim>\<open>withTempDir\<close> is a
  promise over a world that contains the directories.
\<close>

record dirs =
  d_mode :: "string \<Rightarrow> nat option"

record temp_env =
  te_win32 :: bool
  te_base :: string
  te_names :: "nat \<Rightarrow> bytes"
  te_mkdir :: "string \<Rightarrow> js_error option"
  te_chmod :: "string \<Rightarrow> js_error option"
  te_rm :: "string \<Rightarrow> bool"
  te_default :: nat

definition MAX_RETRIES :: nat where "MAX_RETRIES = 3"

text \<open>\<^verbatim>\<open>realpathSync\<close> of the system's directory for temporary files may throw.\<close>

definition tempBase :: "bool \<Rightarrow> string option \<Rightarrow> string \<Rightarrow> (string \<Rightarrow> string result) \<Rightarrow> string result" where
  "tempBase win32 TEMP tmpdir realpath =
     (if win32 then Inr (if truthy TEMP then nullish TEMP [] else tmpdir) else realpath tmpdir)"

definition randomName :: "bytes \<Rightarrow> string" where
  "randomName bs = ''aergic-'' @ hex_encode bs"

definition eexist :: "string \<Rightarrow> js_error" where
  "eexist dir = JsError (''EEXIST: file already exists, mkdir '' @ [CHR 0x27] @ dir @ [CHR 0x27]) (Some ''EEXIST'') None"

definition mkdirSync :: "temp_env \<Rightarrow> string \<Rightarrow> 'x dirs_scheme \<Rightarrow> js_error option \<times> 'x dirs_scheme" where
  "mkdirSync E dir w =
     (if d_mode w dir \<noteq> None then (Some (eexist dir), w)
      else case te_mkdir E dir of
             Some e \<Rightarrow> (Some e, w)
           | None \<Rightarrow> (None, w\<lparr>d_mode := (d_mode w)(dir \<mapsto> te_default E)\<rparr>))"

definition chmodSync :: "temp_env \<Rightarrow> string \<Rightarrow> nat \<Rightarrow> 'x dirs_scheme \<Rightarrow> js_error option \<times> 'x dirs_scheme" where
  "chmodSync E dir mode w =
     (case te_chmod E dir of
        Some e \<Rightarrow> (Some e, w)
      | None \<Rightarrow> (None, w\<lparr>d_mode := (d_mode w)(dir \<mapsto> mode)\<rparr>))"

text \<open>One turn of the loop: the error it catches, if there is one. Modes are written in decimal: 448 is
  0o700, 384 is 0o600.\<close>

definition temp_attempt :: "temp_env \<Rightarrow> string \<Rightarrow> 'x dirs_scheme \<Rightarrow> js_error option \<times> 'x dirs_scheme" where
  "temp_attempt E dir w =
     (case mkdirSync E dir w of
        (Some e, w1) \<Rightarrow> (Some e, w1)
      | (None, w1) \<Rightarrow> if te_win32 E then (None, snd (chmodSync E dir 384 w1)) else chmodSync E dir 448 w1)"

definition temp_path :: "temp_env \<Rightarrow> nat \<Rightarrow> string" where
  "temp_path E i = path_join [te_base E, randomName (te_names E i)]"

text \<open>\<^verbatim>\<open>String(lastErr)\<close> is \<^verbatim>\<open>undefined\<close> before the first error.\<close>

definition temp_failed :: "js_error option \<Rightarrow> js_error" where
  "temp_failed lastErr =
     plain_error (''Failed to create secure temp dir: ''
       @ (case lastErr of None \<Rightarrow> ''undefined'' | Some e \<Rightarrow> ''Error: '' @ err_message e))"

fun temp_loop :: "temp_env \<Rightarrow> nat \<Rightarrow> nat \<Rightarrow> js_error option \<Rightarrow> 'x dirs_scheme \<Rightarrow> string result \<times> 'x dirs_scheme" where
  "temp_loop E 0 i lastErr w = (Inl (temp_failed lastErr), w)"
| "temp_loop E (Suc n) i lastErr w =
     (case temp_attempt E (temp_path E i) w of
        (None, w1) \<Rightarrow> (Inr (temp_path E i), w1)
      | (Some e, w1) \<Rightarrow>
          if err_code e \<noteq> Some ''EEXIST'' then (Inl (temp_failed (Some e)), w1)
          else temp_loop E n (Suc i) (Some e) w1)"

definition secureTempDir :: "temp_env \<Rightarrow> ('x dirs_scheme, string) promise" where
  "secureTempDir E w = temp_loop E MAX_RETRIES 0 None w"

text \<open>\<^verbatim>\<open>rmSync\<close> with \<^verbatim>\<open>recursive\<close> and \<^verbatim>\<open>force\<close>: the directory and what is below it; failing is ignored.\<close>

definition rmSync :: "temp_env \<Rightarrow> string \<Rightarrow> 'x dirs_scheme \<Rightarrow> 'x dirs_scheme" where
  "rmSync E dir w =
     (if te_rm E dir
      then w\<lparr>d_mode := (\<lambda>p. if p = dir \<or> prefix (dir @ ''/'') p then None else d_mode w p)\<rparr>
      else w)"

definition withTempDir :: "temp_env \<Rightarrow> (string \<Rightarrow> ('x dirs_scheme, 'a) promise) \<Rightarrow> ('x dirs_scheme, 'a) promise" where
  "withTempDir E fn =
     await (secureTempDir E) (\<lambda>dir w. case fn dir w of (r, w1) \<Rightarrow> (r, rmSync E dir w1))"

definition withTempFile :: "temp_env \<Rightarrow> (string \<Rightarrow> ('x dirs_scheme, 'a) promise) \<Rightarrow> ('x dirs_scheme, 'a) promise" where
  "withTempFile E fn = withTempDir E (\<lambda>dir. fn (path_join [dir, ''file'']))"

section \<open>Lemmas\<close>

text \<open>What a successful creation did: the directory is new, no other changed, and on Unix its mode
  is 0o700.\<close>

definition created :: "temp_env \<Rightarrow> 'x dirs_scheme \<Rightarrow> string \<Rightarrow> 'x dirs_scheme \<Rightarrow> bool" where
  "created E w dir w' =
     (d_mode w dir = None \<and> d_mode w' dir \<noteq> None \<and> (\<not> te_win32 E \<longrightarrow> d_mode w' dir = Some 448)
      \<and> (\<forall>p. p \<noteq> dir \<longrightarrow> d_mode w' p = d_mode w p))"

lemma attempt_created: "temp_attempt E dir w = (None, w') \<Longrightarrow> created E w dir w'"
  by (auto simp: temp_attempt_def mkdirSync_def chmodSync_def created_def split: if_splits option.splits)

text \<open>What the system calls are documented to report: only an existing path gives \<^verbatim>\<open>EEXIST\<close>.\<close>

definition eexist_only :: "temp_env \<Rightarrow> bool" where
  "eexist_only E = (\<forall>p e. te_mkdir E p = Some e \<or> te_chmod E p = Some e \<longrightarrow> err_code e \<noteq> Some ''EEXIST'')"

lemma attempt_retry:
  "eexist_only E \<Longrightarrow> temp_attempt E dir w = (Some e, w') \<Longrightarrow> err_code e = Some ''EEXIST'' \<Longrightarrow> w' = w \<and> d_mode w dir \<noteq> None"
  by (auto simp: temp_attempt_def mkdirSync_def chmodSync_def eexist_only_def split: if_splits option.splits)

lemma loop_created:
  assumes "eexist_only E"
  shows "temp_loop E n i lastErr w = (Inr dir, w') \<Longrightarrow>
     created E w dir w' \<and> (\<exists>j < n. dir = temp_path E (i + j) \<and> (\<forall>k < j. d_mode w (temp_path E (i + k)) \<noteq> None))"
proof (induction n arbitrary: i lastErr w)
  case (Suc n)
  obtain r w1 where a: "temp_attempt E (temp_path E i) w = (r, w1)" by force
  show ?case
  proof (cases r)
    case None
    with Suc.prems a have "dir = temp_path E i" "w' = w1" by simp_all
    with a None attempt_created show ?thesis by (intro conjI exI [of _ 0]) simp_all
  next
    case (Some e)
    with Suc.prems a have c: "err_code e = Some ''EEXIST''" by (simp split: if_splits)
    with a Some have w: "w1 = w" "d_mode w (temp_path E i) \<noteq> None" using attempt_retry [OF assms] by blast+
    with Suc.prems a Some c have "temp_loop E n (Suc i) (Some e) w = (Inr dir, w')" by simp
    from Suc.IH [OF this] obtain j where j: "created E w dir w'" "j < n" "dir = temp_path E (Suc i + j)"
      "\<forall>k < j. d_mode w (temp_path E (Suc i + k)) \<noteq> None" by blast
    have "d_mode w (temp_path E (i + k)) \<noteq> None" if "k < Suc j" for k
      using that j(4) w(2) by (cases k) auto
    with j show ?thesis by (intro conjI exI [of _ "Suc j"]) simp_all
  qed
qed simp

lemma hex_char_no_slash: "n < 16 \<Longrightarrow> hex_char n \<noteq> CHR ''/''"
proof
  assume "n < 16" "hex_char n = CHR ''/''"
  then have "hex_val (CHR ''/'') = Some n" by (metis hex_val_char)
  then show False by (simp add: hex_val_def)
qed

lemma hex_no_slash: "CHR ''/'' \<notin> set (hex_encode bs)"
proof
  assume "CHR ''/'' \<in> set (hex_encode bs)"
  then obtain b where "CHR ''/'' \<in> set (hex_byte b)" by (auto simp: hex_encode_def)
  then have "hex_char (unat b div 16) = CHR ''/'' \<or> hex_char (unat b mod 16) = CHR ''/''" by (simp add: hex_byte_def eq_commute)
  moreover have "unat b div 16 < 16" "unat b mod 16 < 16"
    using unat_byte_less [of b] by (auto simp: less_mult_imp_div_less)
  ultimately show False using hex_char_no_slash by blast
qed

lemma randomName_plain: "plain_segment (randomName bs)"
  using hex_no_slash by (auto simp: plain_segment_def randomName_def)

section \<open>Properties\<close>

text \<open>C28. A temporary directory did not exist before, is on Unix open to its owner only, and lies directly in
  the base directory under a name of random digits; nothing else changed. It is one of at most three
  attempts, and every earlier one found its name taken.\<close>

theorem temp_dir_private:
  assumes "eexist_only E" and "secureTempDir E w = (Inr dir, w')"
    and "te_base E = ''/'' @ js_join ''/'' ss" and "ss \<noteq> []" and "\<forall>s \<in> set ss. plain_segment s"
  shows "d_mode w dir = None \<and> (\<not> te_win32 E \<longrightarrow> d_mode w' dir = Some 448) \<and> (\<forall>p. p \<noteq> dir \<longrightarrow> d_mode w' p = d_mode w p)
       \<and> (\<exists>j < 3. dir = te_base E @ ''/aergic-'' @ hex_encode (te_names E j) \<and> (\<forall>k < j. d_mode w (temp_path E k) \<noteq> None))"
proof -
  from assms(2) have "temp_loop E 3 0 None w = (Inr dir, w')" by (simp add: secureTempDir_def MAX_RETRIES_def)
  from loop_created [OF assms(1) this] obtain j where j: "created E w dir w'" "j < 3" "dir = temp_path E j"
    "\<forall>k < j. d_mode w (temp_path E k) \<noteq> None" by auto
  have "temp_path E j = te_base E @ ''/aergic-'' @ hex_encode (te_names E j)"
    using path_join_file [OF assms(4,5) randomName_plain [of "te_names E j"]] by (simp add: temp_path_def assms(3) randomName_def)
  with j show ?thesis by (auto simp: created_def)
qed

definition plain_temp :: temp_env where
  "plain_temp = \<lparr>te_win32 = False, te_base = ''/tmp'', te_names = (\<lambda>i. [of_nat i]), te_mkdir = (\<lambda>_. None), te_chmod = (\<lambda>_. None),
     te_rm = (\<lambda>_. True), te_default = 493\<rparr>"

lemma plain_temp_path: "temp_path plain_temp i = ''/tmp/aergic-'' @ hex_encode [of_nat i]"
  using path_join_file [of "[''tmp'']" "randomName [of_nat i]"] randomName_plain
  by (simp add: temp_path_def plain_temp_def plain_segment_def randomName_def)

lemma plain_temp_runs:
  "secureTempDir plain_temp \<lparr>d_mode = [''/tmp/aergic-00'' \<mapsto> 493]\<rparr>
     = (Inr ''/tmp/aergic-01'', \<lparr>d_mode = [''/tmp/aergic-00'' \<mapsto> 493, ''/tmp/aergic-01'' \<mapsto> 448]\<rparr>)"
proof -
  have "hex_encode [of_nat 0] = ''00''" "hex_encode [of_nat (Suc 0)] = ''01''"
    by (simp_all add: hex_encode_def hex_byte_def hex_char_def char_ofI)
  then have p: "temp_path plain_temp 0 = ''/tmp/aergic-00''" "temp_path plain_temp (Suc 0) = ''/tmp/aergic-01''"
    by (simp_all add: plain_temp_path)
  have c: "te_mkdir plain_temp = (\<lambda>_. None)" "te_chmod plain_temp = (\<lambda>_. None)" "\<not> te_win32 plain_temp" "te_default plain_temp = 493"
    by (simp_all add: plain_temp_def)
  show ?thesis
    by (simp add: secureTempDir_def MAX_RETRIES_def numeral_3_eq_3 p temp_attempt_def mkdirSync_def chmodSync_def c eexist_def)
qed

theorem temp_dir_private_witness:
  "d_mode (snd (secureTempDir plain_temp \<lparr>d_mode = [''/tmp/aergic-00'' \<mapsto> 493]\<rparr>)) ''/tmp/aergic-01'' = Some 448
   \<and> fst (secureTempDir plain_temp \<lparr>d_mode = [''/tmp/aergic-00'' \<mapsto> 493]\<rparr>) = Inr (te_base plain_temp @ ''/aergic-'' @ hex_encode [1])"
proof -
  have "eexist_only plain_temp" by (simp add: eexist_only_def plain_temp_def)
  moreover have "hex_encode [1] = ''01''"
    by (simp add: hex_encode_def hex_byte_def hex_char_def char_ofI)
  ultimately show ?thesis
    using temp_dir_private [OF _ plain_temp_runs, of "[''tmp'']"]
    by (simp add: plain_temp_def plain_segment_def plain_temp_runs [unfolded plain_temp_def])
qed

text \<open>Whatever happens in its body, \<^verbatim>\<open>withTempDir\<close> gives the body's result or error and leaves no trace of
  its directory, and of nothing else: only a failing removal leaves it. When the mode cannot be set
  on Unix the creation fails and the new directory stays behind.\<close>

theorem temp_dir_removed:
  assumes "secureTempDir E w = (Inr dir, w1)" and "fn dir w1 = (r, w2)"
  shows "fst (withTempDir E fn w) = r
       \<and> (te_rm E dir \<longrightarrow> (\<forall>p. d_mode (snd (withTempDir E fn w)) p = (if p = dir \<or> prefix (dir @ ''/'') p then None else d_mode w2 p)))
       \<and> (\<not> te_rm E dir \<longrightarrow> snd (withTempDir E fn w) = w2)
       \<and> (\<not> te_win32 E' \<and> d_mode w (temp_path E' 0) = None \<and> te_mkdir E' (temp_path E' 0) = None \<and> te_chmod E' (temp_path E' 0) = Some e
            \<and> err_code e \<noteq> Some ''EEXIST'' \<longrightarrow>
            (\<exists>err w'. withTempDir E' fn w = (Inl err, w') \<and> d_mode w' (temp_path E' 0) = Some (te_default E')))"
proof (intro conjI impI)
  have run: "withTempDir E fn w = (r, rmSync E dir w2)"
    using assms by (simp add: withTempDir_def await_def)
  then show "fst (withTempDir E fn w) = r" by simp
  show "te_rm E dir \<Longrightarrow> \<forall>p. d_mode (snd (withTempDir E fn w)) p = (if p = dir \<or> prefix (dir @ ''/'') p then None else d_mode w2 p)"
    by (simp add: run rmSync_def)
  show "\<not> te_rm E dir \<Longrightarrow> snd (withTempDir E fn w) = w2" by (simp add: run rmSync_def)
next
  assume a: "\<not> te_win32 E' \<and> d_mode w (temp_path E' 0) = None \<and> te_mkdir E' (temp_path E' 0) = None \<and> te_chmod E' (temp_path E' 0) = Some e
            \<and> err_code e \<noteq> Some ''EEXIST''"
  then have "secureTempDir E' w = (Inl (temp_failed (Some e)), w\<lparr>d_mode := (d_mode w)(temp_path E' 0 \<mapsto> te_default E')\<rparr>)"
    by (simp add: secureTempDir_def MAX_RETRIES_def numeral_3_eq_3 temp_attempt_def mkdirSync_def chmodSync_def)
  then show "\<exists>err w'. withTempDir E' fn w = (Inl err, w') \<and> d_mode w' (temp_path E' 0) = Some (te_default E')"
    by (simp add: withTempDir_def await_def)
qed

theorem temp_dir_removed_witness:
  "fst (withTempDir plain_temp (\<lambda>d. reject (plain_error ''boom'')) \<lparr>d_mode = [''/tmp/aergic-00'' \<mapsto> 493]\<rparr>) = (Inl (plain_error ''boom'') :: string result)"
  using temp_dir_removed [OF plain_temp_runs, of "\<lambda>d. reject (plain_error ''boom'')" "Inl (plain_error ''boom'') :: string result"] by (simp add: reject_def)

end
