(* ===== verification/ArgvPatch.thy ===== *)
theory ArgvPatch
  imports Platform
begin

text \<open>
  \<^verbatim>\<open>src/host/argvPatch.ts\<close> and \<^verbatim>\<open>src/platform/argv.ts\<close>: adding the extension to \<^verbatim>\<open>enable-proposed-api\<close> of
  the editor's argv.json. The package \<^verbatim>\<open>jsonc-parser\<close> is an argument: \<open>jc_parse\<close>, and \<open>jc_set\<close> for
  \<^verbatim>\<open>modify\<close> followed by \<^verbatim>\<open>applyEdits\<close>. The disk is a map from paths to contents. The world keeps every
  state of the disk that a system call has left behind, so that statements can speak of what
  another process, or the next start after a crash, finds; \<open>os_calls\<close> says which calls fail.
\<close>

type_synonym disk = "string \<Rightarrow> string option"

record jsonc =
  jc_parse :: "string \<Rightarrow> json option"
  jc_set :: "string \<Rightarrow> string \<Rightarrow> json list \<Rightarrow> string result"

definition PROPOSED_KEY :: string where "PROPOSED_KEY = ''enable-proposed-api''"

text \<open>\<^verbatim>\<open>undefined\<close>, which \<^verbatim>\<open>parse\<close> gives for an empty text, has no properties.\<close>

definition parsed_prop :: "json option \<Rightarrow> string \<Rightarrow> json option result" where
  "parsed_prop v k = (case v of None \<Rightarrow> Inl type_error | Some j \<Rightarrow> json_prop j k)"

definition patchArgvContent :: "jsonc \<Rightarrow> string \<Rightarrow> string \<Rightarrow> string option result" where
  "patchArgvContent J content extensionId =
     (case parsed_prop (jc_parse J content) PROPOSED_KEY of
        Inl e \<Rightarrow> Inl e
      | Inr existing \<Rightarrow>
          (case existing of
             Some (JArr vs) \<Rightarrow>
               if JStr extensionId \<in> set vs then Inr None
               else map_sum id Some (jc_set J content PROPOSED_KEY (vs @ [JStr extensionId]))
           | _ \<Rightarrow> map_sum id Some (jc_set J content PROPOSED_KEY [JStr extensionId])))"

section \<open>Files\<close>

record os_calls =
  os_read :: "string \<Rightarrow> js_error option"
  os_mkdir :: "string \<Rightarrow> js_error option"
  os_open :: "js_error option"
  os_write :: "(nat \<times> js_error) option"
  os_fsync :: "js_error option"
  os_close :: "js_error option"
  os_rename :: "js_error option"

record fsys =
  fs_disk :: disk
  fs_past :: "disk list"

definition sys :: "(disk \<Rightarrow> disk) \<Rightarrow> 'x fsys_scheme \<Rightarrow> 'x fsys_scheme" where
  "sys g w = w\<lparr>fs_disk := g (fs_disk w), fs_past := fs_past w @ [g (fs_disk w)]\<rparr>"

text \<open>A system call that may fail, and its effect when it does not.\<close>

definition syscall :: "js_error option \<Rightarrow> (disk \<Rightarrow> disk) \<Rightarrow> ('x fsys_scheme, unit) promise" where
  "syscall failure g w = (case failure of Some e \<Rightarrow> (Inl e, w) | None \<Rightarrow> (Inr (), sys g w))"

text \<open>\<^verbatim>\<open>writeFileSync\<close> on a descriptor: a failing write may have written a part.\<close>

definition write_all :: "(nat \<times> js_error) option \<Rightarrow> string \<Rightarrow> string \<Rightarrow> ('x fsys_scheme, unit) promise" where
  "write_all failure path data w =
     (case failure of
        Some (n, e) \<Rightarrow> (Inl e, sys (\<lambda>d. d(path \<mapsto> take n data)) w)
      | None \<Rightarrow> (Inr (), sys (\<lambda>d. d(path \<mapsto> data)) w))"

text \<open>\<^verbatim>\<open>try { a } finally { b }\<close>: an error of \<open>b\<close> replaces that of \<open>a\<close>.\<close>

definition finally_do :: "('w, 'a) promise \<Rightarrow> ('w, unit) promise \<Rightarrow> ('w, 'a) promise" where
  "finally_do a b w = (case a w of (r, w1) \<Rightarrow> (case b w1 of (Inl e, w2) \<Rightarrow> (Inl e, w2) | (Inr _, w2) \<Rightarrow> (r, w2)))"

definition writeFileAtomic :: "os_calls \<Rightarrow> nat \<Rightarrow> string \<Rightarrow> string \<Rightarrow> ('x fsys_scheme, unit) promise" where
  "writeFileAtomic os pid target data =
     (let tmp = target @ ''.tmp.'' @ dec pid in
      await (syscall (os_open os) (\<lambda>d. d(tmp \<mapsto> []))) (\<lambda>_.
      await (finally_do
              (await (write_all (os_write os) tmp data) (\<lambda>_.
                 catching (syscall (os_fsync os) (\<lambda>d. d)) (\<lambda>_. resolve ())))
              (syscall (os_close os) (\<lambda>d. d))) (\<lambda>_.
      syscall (os_rename os) (\<lambda>d. d(target := d tmp, tmp := None)))))"

record patch_result =
  pr_path :: string
  pr_changed :: bool
  pr_created :: bool

text \<open>The candidate that is patched, and whether it exists.\<close>

definition pick_target :: "disk \<Rightarrow> string list \<Rightarrow> string \<times> bool" where
  "pick_target d candidates =
     (case find (\<lambda>c. d c \<noteq> None) candidates of Some c \<Rightarrow> (c, True) | None \<Rightarrow> (hd candidates, False))"

definition applyArgvPatch ::
    "jsonc \<Rightarrow> os_calls \<Rightarrow> nat \<Rightarrow> string \<Rightarrow> string list \<Rightarrow> ('x fsys_scheme, patch_result) promise" where
  "applyArgvPatch J os pid extensionId candidates w =
     (if candidates = [] then reject (plain_error ''applyArgvPatch: no candidate paths provided'') w
      else
        let (target, exists) = pick_target (fs_disk w) candidates in
        await (if exists then (case os_read os target of Some e \<Rightarrow> reject e
                                 | None \<Rightarrow> resolve (nullish (fs_disk w target) []))
               else (case os_mkdir os (dirname target) of Some e \<Rightarrow> reject e | None \<Rightarrow> resolve ''{}'')) (\<lambda>content.
          case patchArgvContent J content extensionId of
            Inl e \<Rightarrow> reject e
          | Inr None \<Rightarrow> resolve \<lparr>pr_path = target, pr_changed = False, pr_created = False\<rparr>
          | Inr (Some patched) \<Rightarrow>
              await (writeFileAtomic os pid target patched) (\<lambda>_.
                resolve \<lparr>pr_path = target, pr_changed = True, pr_created = \<not> exists\<rparr>)) w)"

section \<open>The check at activation\<close>

definition getArgvExtensionId :: "bool \<Rightarrow> string" where
  "getArgvExtensionId hasKiro = (if hasKiro then ''aergic.zygos-kiro'' else ''aergic.zygos-vscodium'')"

definition argv_folders :: "json result \<Rightarrow> adapter \<Rightarrow> string list" where
  "argv_folders product a =
     (case a of KiroAdapter \<Rightarrow> [adapter_dataFolderName a] | VscodiumAdapter f \<Rightarrow> getArgvDataFolderNames product f)"

definition ensureArgvProposedApi ::
    "jsonc \<Rightarrow> os_calls \<Rightarrow> nat \<Rightarrow> bool \<Rightarrow> json result \<Rightarrow> string \<Rightarrow> adapter \<Rightarrow> ('x fsys_scheme, bool) promise" where
  "ensureArgvProposedApi J os pid hasKiro product homedir a =
     (if \<not> needsArgvPatch a then resolve False
      else let candidates = map (\<lambda>f. path_join [homedir, f, ''argv.json'']) (argv_folders product a) in
           catching (await (applyArgvPatch J os pid (getArgvExtensionId hasKiro) candidates) (\<lambda>r. resolve (pr_changed r)))
             (\<lambda>_. resolve False))"

text \<open>\<open>answer\<close> is what the user chooses in the modal message; the second result is whether the editor is
  told to quit.\<close>

definition checkArgvAndPromptRestart ::
    "jsonc \<Rightarrow> os_calls \<Rightarrow> nat \<Rightarrow> bool \<Rightarrow> json result \<Rightarrow> string \<Rightarrow> string option \<Rightarrow> adapter
      \<Rightarrow> ('x fsys_scheme, bool \<times> bool) promise" where
  "checkArgvAndPromptRestart J os pid hasKiro product homedir answer a =
     await (ensureArgvProposedApi J os pid hasKiro product homedir a) (\<lambda>patched.
       if \<not> patched then resolve (False, False)
       else resolve (True, answer = Some (''Quit '' @ adapter_name a)))"

section \<open>Lemmas\<close>

text \<open>From \<open>w\<close> to \<open>w'\<close> every state of the disk satisfies \<open>P\<close>.\<close>

definition stays :: "(disk \<Rightarrow> bool) \<Rightarrow> 'x fsys_scheme \<Rightarrow> 'x fsys_scheme \<Rightarrow> bool" where
  "stays P w w' = (\<exists>ds. fs_past w' = fs_past w @ ds \<and> (\<forall>d \<in> set ds. P d) \<and> P (fs_disk w'))"

lemma stays_refl: "P (fs_disk w) \<Longrightarrow> stays P w w"
  by (simp add: stays_def)

lemma stays_trans: "stays P w w1 \<Longrightarrow> stays P w1 w2 \<Longrightarrow> stays P w w2"
  by (auto simp: stays_def)

lemma stays_sys: "P (g (fs_disk w)) \<Longrightarrow> stays P w (sys g w)"
  by (simp add: stays_def sys_def)

lemma fs_disk_sys [simp]: "fs_disk (sys g w) = g (fs_disk w)"
  by (simp add: sys_def)

text \<open>What a disk may look like while a file is replaced: the file has its old or its new content, and
  everything but it and the temporary file is as before.\<close>

definition replacing_file :: "disk \<Rightarrow> string \<Rightarrow> string \<Rightarrow> string \<Rightarrow> disk \<Rightarrow> bool" where
  "replacing_file d0 target tmp data d =
     (d target \<in> {d0 target, Some data} \<and> (\<forall>p. p \<noteq> target \<and> p \<noteq> tmp \<longrightarrow> d p = d0 p))"

lemma tmp_name_ne [simp]: "target @ ''.tmp.'' @ dec pid \<noteq> target" "target \<noteq> target @ ''.tmp.'' @ dec pid"
  by simp_all

lemma write_atomic:
  assumes "writeFileAtomic os pid target data w = (r, w')"
  shows "stays (replacing_file (fs_disk w) target (target @ ''.tmp.'' @ dec pid) data) w w'"
    and "r = Inl e \<Longrightarrow> fs_disk w' target = fs_disk w target"
    and "r = Inr u \<Longrightarrow> fs_disk w' = (fs_disk w)(target \<mapsto> data, target @ ''.tmp.'' @ dec pid := None)"
  using assms
  by (auto simp: writeFileAtomic_def Let_def await_def finally_do_def catching_def syscall_def write_all_def resolve_def sys_def
      stays_def replacing_file_def fun_eq_iff split: option.splits prod.splits sum.splits if_splits)

text \<open>What \<open>jsonc-parser\<close> documents: an edited text parses to a value that has the array under the key,
  and the empty object has no properties.\<close>

definition edits :: "jsonc \<Rightarrow> bool" where
  "edits J = (jc_parse J ''{}'' = Some (JObj [])
     \<and> (\<forall>content k vs c. jc_set J content k vs = Inr c \<longrightarrow> parsed_prop (jc_parse J c) k = Inr (Some (JArr vs))))"

definition has_id :: "jsonc \<Rightarrow> string \<Rightarrow> string \<Rightarrow> bool" where
  "has_id J extensionId content =
     (case parsed_prop (jc_parse J content) PROPOSED_KEY of
        Inr (Some (JArr vs)) \<Rightarrow> JStr extensionId \<in> set vs
      | _ \<Rightarrow> False)"

lemma patch_None: "patchArgvContent J content x = Inr None \<longleftrightarrow> has_id J x content"
  by (auto simp: patchArgvContent_def has_id_def map_sum_InrD split: sum.splits option.splits json.splits)

lemma patch_Some: "edits J \<Longrightarrow> patchArgvContent J content x = Inr (Some c) \<Longrightarrow> has_id J x c"
  by (auto simp: patchArgvContent_def has_id_def edits_def map_sum_InrD split: sum.splits option.splits json.splits if_splits)

lemma patch_keeps:
  assumes "edits J" "patchArgvContent J content x = Inr (Some c)" "parsed_prop (jc_parse J content) PROPOSED_KEY = Inr (Some (JArr vs))"
  shows "parsed_prop (jc_parse J c) PROPOSED_KEY = Inr (Some (JArr (vs @ [JStr x])))"
  using assms by (auto simp: patchArgvContent_def edits_def map_sum_InrD split: if_splits)

lemma pick_target_cases:
  assumes "pick_target d cs = (target, exists)"
  shows "exists \<Longrightarrow> d target \<noteq> None \<and> find (\<lambda>c. d c \<noteq> None) cs = Some target"
    and "\<not> exists \<Longrightarrow> target = hd cs \<and> find (\<lambda>c. d c \<noteq> None) cs = None"
  using assms by (auto simp: pick_target_def find_Some_iff split: option.splits)

lemma pick_target_again:
  assumes "pick_target d cs = (target, exists)" "cs \<noteq> []" "d' target \<noteq> None" "\<And>p. p \<noteq> target \<Longrightarrow> d p = None \<Longrightarrow> d' p = None"
  shows "pick_target d' cs = (target, True)"
proof -
  have "find (\<lambda>c. d' c \<noteq> None) cs = Some target"
  proof (cases exists)
    case True
    with pick_target_cases(1) [OF assms(1)] obtain i where i: "i < length cs" "cs ! i = target" "\<forall>j < i. d (cs ! j) = None"
      by (auto simp: find_Some_iff)
    have "\<forall>j < i. d' (cs ! j) = None"
    proof (intro allI impI)
      fix j
      assume "j < i"
      with i have "d (cs ! j) = None" by blast
      moreover have "cs ! j \<noteq> target" using calculation pick_target_cases(1) [OF assms(1) True] by metis
      ultimately show "d' (cs ! j) = None" using assms(4) by blast
    qed
    with i assms(3) show ?thesis by (auto simp: find_Some_iff)
  next
    case False
    with pick_target_cases(2) [OF assms(1)] have "target = hd cs" by blast
    with assms(2,3) show ?thesis by (cases cs) simp_all
  qed
  then show ?thesis by (simp add: pick_target_def)
qed

text \<open>The content a run starts from.\<close>

lemma apply_cases:
  assumes "applyArgvPatch J os pid x cs w = (r, w')" "cs \<noteq> []" "pick_target (fs_disk w) cs = (target, exists)"
  obtains (failed) e where "r = Inl e" "w' = w"
  | (unchanged) content where "content = (if exists then nullish (fs_disk w target) [] else ''{}'')" "patchArgvContent J content x = Inr None"
      "r = Inr \<lparr>pr_path = target, pr_changed = False, pr_created = False\<rparr>" "w' = w"
  | (written) content data u where "content = (if exists then nullish (fs_disk w target) [] else ''{}'')"
      "patchArgvContent J content x = Inr (Some data)" "writeFileAtomic os pid target data w = (Inr u, w')"
      "r = Inr \<lparr>pr_path = target, pr_changed = True, pr_created = \<not> exists\<rparr>"
  | (not_written) content data e where "content = (if exists then nullish (fs_disk w target) [] else ''{}'')"
      "patchArgvContent J content x = Inr (Some data)"
      "writeFileAtomic os pid target data w = (Inl e, w')" "r = Inl e"
proof -
  define content where "content = (if exists then nullish (fs_disk w target) [] else ''{}'')"
  define start where "start = (if exists then (case os_read os target of Some e \<Rightarrow> reject e | None \<Rightarrow> resolve (nullish (fs_disk w target) []))
               else (case os_mkdir os (dirname target) of Some e \<Rightarrow> reject e | None \<Rightarrow> resolve ''{}'') :: ('a fsys_scheme, string) promise)"
  have start: "start w = (Inr content, w) \<or> (\<exists>e. start w = (Inl e, w))"
    by (auto simp: start_def content_def resolve_def reject_def split: option.splits)
  have run: "applyArgvPatch J os pid x cs w = await start (\<lambda>content.
          case patchArgvContent J content x of
            Inl e \<Rightarrow> reject e
          | Inr None \<Rightarrow> resolve \<lparr>pr_path = target, pr_changed = False, pr_created = False\<rparr>
          | Inr (Some patched) \<Rightarrow>
              await (writeFileAtomic os pid target patched) (\<lambda>_.
                resolve \<lparr>pr_path = target, pr_changed = True, pr_created = \<not> exists\<rparr>)) w"
    unfolding applyArgvPatch_def start_def assms(3) by (simp add: assms(2))
  show ?thesis
  proof (cases "\<exists>e. start w = (Inl e, w)")
    case True
    with run assms(1) failed show ?thesis by (auto simp: await_def)
  next
    case False
    with start have s: "start w = (Inr content, w)" by blast
    show ?thesis
    proof (cases "patchArgvContent J content x")
      case (Inl e)
      with run s assms(1) failed show ?thesis by (simp add: await_def reject_def)
    next
      case (Inr p)
      show ?thesis
      proof (cases p)
        case None
        with Inr run s assms(1) unchanged [OF content_def] show ?thesis by (simp add: await_def resolve_def)
      next
        case (Some data)
        obtain v w2 where v: "writeFileAtomic os pid target data w = (v, w2)" by force
        with Inr Some run s assms(1) written [OF content_def, of data] not_written [OF content_def, of data] show ?thesis
          by (cases v) (simp_all add: await_def resolve_def)
      qed
    qed
  qed
qed

section \<open>Properties\<close>

text \<open>The content a run starts from: that of the file it patches, or the empty object when there is none.\<close>

definition argv_content :: "disk \<Rightarrow> string list \<Rightarrow> string" where
  "argv_content d cs = (let (target, exists) = pick_target d cs in if exists then nullish (d target) [] else ''{}'')"

text \<open>C29. However the system calls fail, and whenever the process dies, argv.json has its complete old or
  its complete new content, which is the old one with the extension added (what \<open>patchArgvContent\<close>
  makes of it), and no other file is touched but the temporary one beside it. An error leaves the old
  content, a success the new one and no temporary file; when nothing is to be added, or the old
  content cannot be edited, no file is touched at all.\<close>

theorem argv_written_atomically:
  assumes "applyArgvPatch J os pid x cs w = (r, w')" and "cs \<noteq> []" and "pick_target (fs_disk w) cs = (target, exists)"
  shows "case patchArgvContent J (argv_content (fs_disk w) cs) x of
       Inr (Some data) \<Rightarrow>
         stays (replacing_file (fs_disk w) target (target @ ''.tmp.'' @ dec pid) data) w w'
         \<and> (case r of Inl e \<Rightarrow> fs_disk w' target = fs_disk w target
            | Inr p \<Rightarrow> p = \<lparr>pr_path = target, pr_changed = True, pr_created = \<not> exists\<rparr>
                \<and> fs_disk w' = (fs_disk w)(target \<mapsto> data, target @ ''.tmp.'' @ dec pid := None))
     | Inr None \<Rightarrow> w' = w \<and> (case r of Inl e \<Rightarrow> True | Inr p \<Rightarrow> p = \<lparr>pr_path = target, pr_changed = False, pr_created = False\<rparr>)
     | Inl e \<Rightarrow> w' = w \<and> isl r"
proof -
  have c: "argv_content (fs_disk w) cs = (if exists then nullish (fs_disk w target) [] else ''{}'')"
    by (simp add: argv_content_def assms(3))
  show ?thesis
    using assms
  proof (cases rule: apply_cases)
    case (failed e)
    then show ?thesis by (auto simp: replacing_file_def stays_refl split: sum.split option.split)
  next
    case (unchanged content)
    then show ?thesis by (simp add: c)
  next
    case (written content data u)
    with write_atomic [OF written(3)] show ?thesis by (simp add: c)
  next
    case (not_written content data e)
    with write_atomic [OF not_written(3)] show ?thesis by (simp add: c)
  qed
qed

definition json_jsonc :: jsonc where
  "json_jsonc =
     \<lparr>jc_parse = (\<lambda>c. case parse_json c of Inr v \<Rightarrow> Some v | Inl _ \<Rightarrow> None),
      jc_set = (\<lambda>c k vs. case parse_json c of
         Inr (JObj kvs) \<Rightarrow>
           (let v = JObj (filter (\<lambda>p. fst p \<noteq> k) kvs @ [(k, JArr vs)])
            in if json_ok v then Inr (stringify v) else Inl type_error)
       | _ \<Rightarrow> Inl type_error)\<rparr>"

lemma json_jsonc_edits: "edits json_jsonc"
proof -
  have "parse_json ''{}'' = Inr (JObj [])"
    using parse_stringify [of "JObj []"] by simp
  moreover have "parsed_prop (jc_parse json_jsonc c) k = Inr (Some (JArr vs))" if set: "jc_set json_jsonc content k vs = Inr c" for content k vs c
  proof -
    from set obtain kvs where "json_ok (JObj (filter (\<lambda>p. fst p \<noteq> k) kvs @ [(k, JArr vs)]))"
      and c: "c = stringify (JObj (filter (\<lambda>p. fst p \<noteq> k) kvs @ [(k, JArr vs)]))"
      by (auto simp: json_jsonc_def Let_def simp del: stringify.simps json_ok.simps split: sum.splits json.splits if_splits)
    then have "parse_json c = Inr (JObj (filter (\<lambda>p. fst p \<noteq> k) kvs @ [(k, JArr vs)]))"
      by (simp only: parse_stringify)
    then show ?thesis by (simp add: json_jsonc_def parsed_prop_def json_prop_def)
  qed
  ultimately show ?thesis by (simp add: edits_def json_jsonc_def)
qed

definition no_faults :: os_calls where
  "no_faults = \<lparr>os_read = (\<lambda>_. None), os_mkdir = (\<lambda>_. None), os_open = None, os_write = None, os_fsync = None, os_close = None, os_rename = None\<rparr>"

definition argv_disk :: fsys where
  "argv_disk = \<lparr>fs_disk = [''/h/.kiro/argv.json'' \<mapsto> ''{}''], fs_past = []\<rparr>"

lemma json_jsonc_run:
  "patchArgvContent json_jsonc ''{}'' ''x.y'' = Inr (Some (stringify (JObj [(PROPOSED_KEY, JArr [JStr ''x.y''])])))"
proof -
  have "parse_json ''{}'' = Inr (JObj [])" using parse_stringify [of "JObj []"] by simp
  then show ?thesis
    by (simp add: patchArgvContent_def json_jsonc_def parsed_prop_def json_prop_def PROPOSED_KEY_def del: stringify.simps)
qed

theorem argv_written_atomically_witness:
  "fs_disk (snd (applyArgvPatch json_jsonc (no_faults\<lparr>os_write := Some (3, type_error)\<rparr>) 7 ''x.y'' [''/h/.kiro/argv.json''] argv_disk))
     ''/h/.kiro/argv.json'' \<in> {Some ''{}'', Some (stringify (JObj [(PROPOSED_KEY, JArr [JStr ''x.y''])]))}"
proof -
  obtain r w' where a: "applyArgvPatch json_jsonc (no_faults\<lparr>os_write := Some (3, type_error)\<rparr>) 7 ''x.y'' [''/h/.kiro/argv.json''] argv_disk = (r, w')"
    by force
  have t: "pick_target (fs_disk argv_disk) [''/h/.kiro/argv.json''] = (''/h/.kiro/argv.json'', True)"
    by (simp add: pick_target_def argv_disk_def)
  then have "argv_content (fs_disk argv_disk) [''/h/.kiro/argv.json''] = ''{}''" by (simp add: argv_content_def) (simp add: argv_disk_def)
  with argv_written_atomically [OF a _ t] have "stays (replacing_file (fs_disk argv_disk) ''/h/.kiro/argv.json'' (''/h/.kiro/argv.json'' @ ''.tmp.'' @ dec 7)
      (stringify (JObj [(PROPOSED_KEY, JArr [JStr ''x.y''])]))) argv_disk w'"
    by (simp add: json_jsonc_run del: stringify.simps)
  then have "fs_disk w' ''/h/.kiro/argv.json'' \<in> {Some ''{}'', Some (stringify (JObj [(PROPOSED_KEY, JArr [JStr ''x.y''])]))}"
    by (simp add: stays_def replacing_file_def argv_disk_def del: stringify.simps)
  then show ?thesis by (simp add: a)
qed

text \<open>A run that succeeds leaves a file that lists the extension, so the next run, in whatever process,
  finds the same file and changes nothing: the user is asked to restart once. Entries that the list
  had before keep their place.\<close>

theorem argv_patch_idempotent:
  assumes "edits J" and "applyArgvPatch J os pid x cs w = (Inr p, w')" and "\<forall>f. os_read os2 f = None"
  shows "applyArgvPatch J os2 pid2 x cs w' = (Inr \<lparr>pr_path = pr_path p, pr_changed = False, pr_created = False\<rparr>, w')
       \<and> has_id J x (nullish (fs_disk w' (pr_path p)) [])
       \<and> (\<forall>vs. parsed_prop (jc_parse J (nullish (fs_disk w (pr_path p)) [])) PROPOSED_KEY = Inr (Some (JArr vs)) \<and> fs_disk w (pr_path p) \<noteq> None \<longrightarrow>
            parsed_prop (jc_parse J (nullish (fs_disk w' (pr_path p)) [])) PROPOSED_KEY
              = Inr (Some (JArr (if JStr x \<in> set vs then vs else vs @ [JStr x]))))"
proof -
  have cs: "cs \<noteq> []" using assms(2) by (auto simp: applyArgvPatch_def reject_def)
  obtain target ex where t: "pick_target (fs_disk w) cs = (target, ex)" by force
  have fresh: "\<not> has_id J x ''{}''"
    using assms(1) by (simp add: has_id_def edits_def parsed_prop_def json_prop_def)
  have again: "applyArgvPatch J os2 pid2 x cs w' = (Inr \<lparr>pr_path = target, pr_changed = False, pr_created = False\<rparr>, w')"
    if "pick_target (fs_disk w') cs = (target, True)" "has_id J x (nullish (fs_disk w' target) [])"
    using that cs assms(3) by (simp add: applyArgvPatch_def resolve_def await_def patch_None [THEN iffD2])
  show ?thesis
    using assms(2) cs t
  proof (cases rule: apply_cases)
    case (unchanged content)
    then have ex and id: "has_id J x (nullish (fs_disk w target) [])" using fresh by (auto simp: patch_None split: if_splits)
    with again unchanged t show ?thesis by (auto simp: has_id_def)
  next
    case (written content data u)
    from write_atomic(3) [OF written(3) refl] have d: "fs_disk w' = (fs_disk w)(target \<mapsto> data, target @ ''.tmp.'' @ dec pid := None)" .
    then have pick: "pick_target (fs_disk w') cs = (target, True)" by (intro pick_target_again [OF t cs]) auto
    have id: "has_id J x (nullish (fs_disk w' target) [])" using patch_Some [OF assms(1) written(2)] by (simp add: d)
    have "parsed_prop (jc_parse J data) PROPOSED_KEY = Inr (Some (JArr (if JStr x \<in> set vs then vs else vs @ [JStr x])))"
      if "parsed_prop (jc_parse J (nullish (fs_disk w target) [])) PROPOSED_KEY = Inr (Some (JArr vs))" "fs_disk w target \<noteq> None" for vs
    proof -
      have "ex"
      proof (rule ccontr)
        assume "\<not> ex"
        from pick_target_cases(2) [OF t this] have h: "target = hd cs" "find (\<lambda>c. fs_disk w c \<noteq> None) cs = None" by blast+
        with cs have "fs_disk w (hd cs) = None" by (simp add: find_None_iff)
        with h(1) that(2) show False by simp
      qed
      with that(1) written(1,2) have "parsed_prop (jc_parse J data) PROPOSED_KEY = Inr (Some (JArr (vs @ [JStr x])))"
        using patch_keeps [OF assms(1)] by simp
      moreover have "JStr x \<notin> set vs"
      proof
        assume "JStr x \<in> set vs"
        with that(1) have "has_id J x (nullish (fs_disk w target) [])" by (simp add: has_id_def)
        with written(1,2) \<open>ex\<close> patch_None show False by simp (metis option.distinct(1) sum.inject(2))
      qed
      ultimately show ?thesis by simp
    qed
    with again [OF pick id] id written(4) show ?thesis by (simp add: d)
  qed auto
qed

lemma json_jsonc_applies:
  "applyArgvPatch json_jsonc no_faults 7 ''x.y'' [''/h/.kiro/argv.json''] argv_disk
     = (Inr \<lparr>pr_path = ''/h/.kiro/argv.json'', pr_changed = True, pr_created = False\<rparr>,
        snd (applyArgvPatch json_jsonc no_faults 7 ''x.y'' [''/h/.kiro/argv.json''] argv_disk))"
  by (simp add: applyArgvPatch_def argv_disk_def pick_target_def no_faults_def await_def resolve_def json_jsonc_run writeFileAtomic_def
      syscall_def finally_do_def catching_def write_all_def Let_def del: stringify.simps)

theorem argv_patch_idempotent_witness:
  "pr_changed (case fst (applyArgvPatch json_jsonc no_faults 8 ''x.y'' [''/h/.kiro/argv.json'']
      (snd (applyArgvPatch json_jsonc no_faults 7 ''x.y'' [''/h/.kiro/argv.json''] argv_disk))) of Inr p \<Rightarrow> p) = False"
proof -
  have "\<forall>f. os_read no_faults f = None" by (simp add: no_faults_def)
  from argv_patch_idempotent [OF json_jsonc_edits json_jsonc_applies this, THEN conjunct1, of 8]
  show ?thesis by simp
qed

text \<open>The user is asked to restart only when one of the candidate files now lists the extension; an
  editor that needs no patch is never touched, and a failing patch does not ask for a restart.\<close>

theorem restart_means_patched:
  assumes "edits J" and "checkArgvAndPromptRestart J os pid hasKiro product homedir answer a w = (r, w')"
  shows "\<exists>restart quit. r = Inr (restart, quit)
       \<and> (restart \<longrightarrow> (\<exists>f \<in> set (argv_folders product a). \<exists>c. fs_disk w' (path_join [homedir, f, ''argv.json'']) = Some c
             \<and> has_id J (getArgvExtensionId hasKiro) c))
       \<and> (\<not> needsArgvPatch a \<longrightarrow> \<not> restart \<and> w' = w) \<and> (quit \<longrightarrow> restart \<and> answer = Some (''Quit '' @ adapter_name a))"
proof (cases "needsArgvPatch a")
  case False
  with assms(2) have "r = Inr (False, False)" "w' = w"
    by (simp_all add: checkArgvAndPromptRestart_def ensureArgvProposedApi_def resolve_def await_def)
  with False show ?thesis by (intro exI [of _ False]) simp
next
  case True
  let ?cs = "map (\<lambda>f. path_join [homedir, f, ''argv.json'']) (argv_folders product a)" and ?x = "getArgvExtensionId hasKiro"
  have cs: "?cs \<noteq> []" by (auto simp: argv_folders_def getArgvDataFolderNames_def Let_def split: adapter.splits)
  obtain q w1 where run: "applyArgvPatch J os pid ?x ?cs w = (q, w1)" by force
  obtain target ex where t: "pick_target (fs_disk w) ?cs = (target, ex)" by force
  have patched: "\<exists>f \<in> set (argv_folders product a). \<exists>c. fs_disk w1 (path_join [homedir, f, ''argv.json'']) = Some c \<and> has_id J ?x c"
    if q: "q = Inr p" "pr_changed p" for p
    using run cs t
  proof (cases rule: apply_cases)
    case (written content data u)
    from write_atomic(3) [OF written(3) refl] have "fs_disk w1 target = Some data" by simp
    moreover have "target \<in> set ?cs"
    proof (cases ex)
      case True
      with pick_target_cases(1) [OF t] show ?thesis by (metis (mono_tags, lifting) find_Some_iff nth_mem)
    next
      case False
      with pick_target_cases(2) [OF t] cs show ?thesis by (metis hd_in_set)
    qed
    ultimately show ?thesis using patch_Some [OF assms(1) written(2)] by auto
  qed (use q in auto)
  show ?thesis
  proof (cases q)
    case (Inl e)
    with assms(2) True run have "r = Inr (False, False)"
      by (simp add: checkArgvAndPromptRestart_def ensureArgvProposedApi_def resolve_def await_def catching_def)
    with True show ?thesis by (intro exI [of _ False]) simp
  next
    case (Inr p)
    with assms(2) True run patched [OF Inr] show ?thesis
      by (cases "pr_changed p") (auto simp: checkArgvAndPromptRestart_def ensureArgvProposedApi_def resolve_def await_def catching_def)
  qed
qed

theorem restart_means_patched_witness:
  "\<exists>restart quit. fst (checkArgvAndPromptRestart json_jsonc no_faults 7 False (Inl type_error) ''/h'' None (VscodiumAdapter TRAE_CONFIG) argv_disk)
      = Inr (restart, quit) \<and> \<not> restart"
  using restart_means_patched [OF json_jsonc_edits, of no_faults 7 False "Inl type_error" "''/h''" None "VscodiumAdapter TRAE_CONFIG" argv_disk]
  by (simp add: needsArgvPatch_def TRAE_CONFIG_def split: prod.splits) (metis prod.collapse)

end
