(* ===== verification/HostTree.thy ===== *)
theory HostTree
  imports SshConfig FolderHistory Platform
begin

text \<open>
  \<^verbatim>\<open>src/host/treeView.ts\<close> and \<^verbatim>\<open>src/host/index.ts\<close>: the tree of hosts and recent folders, and the
  commands on it. A tree item carries what the user sees of it (icons and the constants of the
  context menu are left out). The history is that of \<open>FolderHistory\<close>; the ssh configuration is read
  through \<open>SshConfig\<close>. What the user types or picks and the reply to a request are arguments; a
  command is the list of calls it makes to the editor.
\<close>

section \<open>Authorities\<close>

text \<open>\<^verbatim>\<open>encodeAuthority\<close> and \<^verbatim>\<open>formatSshDestination\<close> of a destination whose properties are what they
  were parsed or configured to be.\<close>

definition encode_raw :: "raw_destination \<Rightarrow> string" where
  "encode_raw d =
     hex_encode (utf8_bytes (stringify (JObj ([(''hostName'', raw_host d)] @ opt_field ''user'' (raw_user d) @ opt_field ''port'' (raw_port d)))))"

definition format_raw :: "raw_destination \<Rightarrow> string" where
  "format_raw d =
     (let s = json_text (raw_host d);
          s = (if json_truthy (raw_user d) then json_text (nullish (raw_user d) JNull) @ ''@'' @ s else s)
      in if json_truthy (raw_port d) then s @ '':'' @ json_text (nullish (raw_port d) JNull) else s)"

definition SSH_PREFIX :: string where "SSH_PREFIX = ''ssh-remote+''"

definition host_only :: "string \<Rightarrow> raw_destination" where
  "host_only alias = \<lparr>raw_host = JStr alias, raw_user = None, raw_port = None\<rparr>"

definition remote_of :: "raw_destination \<Rightarrow> string" where
  "remote_of d = SSH_PREFIX @ encode_raw d"

definition decodeLabel :: "string \<Rightarrow> string" where
  "decodeLabel remote =
     (case decodeAuthority (drop (length SSH_PREFIX) remote) of Inr d \<Rightarrow> format_raw d | Inl _ \<Rightarrow> remote)"

section \<open>Items\<close>

datatype tree_item =
    HostItem (item_alias: string) (item_remote: string) (item_collapsible: bool) (item_description: "string option") (item_tooltip: string)
  | RecentGroupItem (item_remote: string) (item_label: string)
  | RecentFolderItem (item_descriptor: "string \<times> string") (item_label: string)

definition new_HostItem :: "string \<Rightarrow> string \<Rightarrow> bool \<Rightarrow> raw_destination \<Rightarrow> tree_item" where
  "new_HostItem alias remote hasFolders resolved =
     (let desc = (if json_truthy (raw_user resolved)
                  then json_text (nullish (raw_user resolved) JNull) @ ''@'' @ json_text (raw_host resolved)
                  else json_text (raw_host resolved))
      in HostItem alias remote hasFolders (if desc \<noteq> alias then Some desc else None) (''SSH: '' @ alias @ '' ('' @ desc @ '')''))"

definition new_RecentFolderItem :: "string \<times> string \<Rightarrow> tree_item" where
  "new_RecentFolderItem d =
     (let parts = filter (\<lambda>p. p \<noteq> []) (js_split (CHR ''/'') (snd d))
      in RecentFolderItem d (if parts = [] then snd d else last parts))"

section \<open>The tree\<close>

definition migrateHistory :: "string \<Rightarrow> raw_destination \<Rightarrow> history \<Rightarrow> history" where
  "migrateHistory newRemote resolved h =
     (let oldRemote = remote_of resolved; oldFolders = getFolders oldRemote h in
      if oldRemote = newRemote then h
      else if oldFolders = [] then h
      else fold (\<lambda>f h. snd (removeFolder f h)) oldFolders (addFolders (map (\<lambda>f. (newRemote, snd f)) oldFolders) h))"

text \<open>The loop over the aliases: the items so far, or the error of \<^verbatim>\<open>getConfig\<close>, and the history.\<close>

fun host_items :: "'l config_env \<Rightarrow> 'l list \<Rightarrow> string list \<Rightarrow> history \<Rightarrow> tree_item list result \<times> history" where
  "host_items env merged [] h = (Inr [], h)"
| "host_items env merged (alias # rest) h =
     (case getConfig env merged alias of
        Inl e \<Rightarrow> (Inl e, h)
      | Inr cfg \<Rightarrow>
          (let resolved = (case cfg of Some c \<Rightarrow> hostConfigToDestination c | None \<Rightarrow> host_only alias);
               remote = remote_of (host_only alias);
               h1 = (if cfg \<noteq> None then migrateHistory remote resolved h else h);
               hasFolders = (getFolders remote h1 \<noteq> [])
           in case host_items env merged rest h1 of
                (Inl e, h2) \<Rightarrow> (Inl e, h2)
              | (Inr items, h2) \<Rightarrow> (Inr (new_HostItem alias remote hasFolders resolved # items), h2)))"

definition orphans :: "string list \<Rightarrow> history \<Rightarrow> string list" where
  "orphans known h = filter (\<lambda>r. prefix SSH_PREFIX r \<and> r \<notin> set known) (getRemotes h)"

definition root_children :: "'l config_env \<Rightarrow> history \<Rightarrow> tree_item list \<times> history" where
  "root_children env h =
     (case loadSshConfig env of
        Inl _ \<Rightarrow> ([], h)
      | Inr (hosts, merged) \<Rightarrow>
          (case host_items env merged hosts h of
             (Inl _, h1) \<Rightarrow> ([], h1)
           | (Inr items, h1) \<Rightarrow>
               (items @ map (\<lambda>r. RecentGroupItem r (decodeLabel r)) (orphans (map item_remote items) h1), h1)))"

definition getChildren :: "'l config_env \<Rightarrow> tree_item option \<Rightarrow> history \<Rightarrow> tree_item list \<times> history" where
  "getChildren env element h =
     (case element of
        None \<Rightarrow> root_children env h
      | Some (RecentFolderItem d l) \<Rightarrow> ([], h)
      | Some parent \<Rightarrow> (map new_RecentFolderItem (getFolders (item_remote parent) h), h))"

section \<open>Commands\<close>

datatype editor_call =
    CreateTerminal (term_name: string) (term_path: string) (term_args: "string list")
  | NewWindow (win_authority: string) (win_reuse: bool)
  | OpenFolder (folder_uri: string) (folder_reuse: bool)
  | OpenDocument (doc_path: string) (doc_at_top: bool)
  | RefreshTree
  | ShowError string
  | ShowWarning string
  | ShowInformation string

definition ssh_terminal_args :: "user_settings \<Rightarrow> string \<Rightarrow> string list" where
  "ssh_terminal_args s alias = (if truthy (us_configFile s) then [''-F'', nullish (us_configFile s) []] else []) @ [alias]"

definition openTerminal :: "user_settings result \<Rightarrow> string option \<Rightarrow> editor_call list result" where
  "openTerminal settings item =
     (case item of
        None \<Rightarrow> Inr []
      | Some alias \<Rightarrow>
          map_sum id (\<lambda>s. [CreateTerminal (''SSH: '' @ alias) (nullish (us_sshPath s) ''ssh'') (ssh_terminal_args s alias)]) settings)"

definition server_log_path :: "product_info \<Rightarrow> string" where
  "server_log_path info = ''~/.'' @ serverDataFolderName info @ ''/.'' @ commit info @ ''.log''"

definition showServerLog :: "user_settings result \<Rightarrow> product_info result \<Rightarrow> string option \<Rightarrow> editor_call list result" where
  "showServerLog settings info item =
     (case item of
        None \<Rightarrow> Inr []
      | Some alias \<Rightarrow>
          (case settings of
             Inl e \<Rightarrow> Inl e
           | Inr s \<Rightarrow>
               map_sum id (\<lambda>i. [CreateTerminal (''Server Log: '' @ alias) (nullish (us_sshPath s) ''ssh'')
                                  (ssh_terminal_args s alias @ [''tail -f '' @ server_log_path i])]) info))"

definition resolveDestination :: "string \<Rightarrow> ssh_destination" where
  "resolveDestination alias = \<lparr>dest_host = alias, dest_user = None, dest_port = None\<rparr>"

definition connectFromTree :: "string option \<Rightarrow> editor_call list" where
  "connectFromTree item =
     (case item of None \<Rightarrow> [] | Some alias \<Rightarrow> [NewWindow (SSH_PREFIX @ encodeAuthority (resolveDestination alias)) False])"

definition openFolder :: "bool \<Rightarrow> (string \<times> string) option \<Rightarrow> history \<Rightarrow> editor_call list \<times> history" where
  "openFolder reuse item h =
     (case item of None \<Rightarrow> ([], h) | Some d \<Rightarrow> ([OpenFolder (toUri d) reuse], addFolders [d] h))"

definition forgetFolder :: "(string \<times> string) option \<Rightarrow> history \<Rightarrow> editor_call list \<times> history" where
  "forgetFolder item h =
     (case item of None \<Rightarrow> ([], h) | Some d \<Rightarrow> ([RefreshTree], snd (removeFolder d h)))"

definition openConfigFile :: "bool \<Rightarrow> string result \<Rightarrow> editor_call list result" where
  "openConfigFile atTop configPath = map_sum id (\<lambda>p. [OpenDocument p atTop]) configPath"

definition pickHost :: "string option \<Rightarrow> string option" where
  "pickHost input = (if truthy (map_option trim input) then map_option trim input else None)"

definition runConnect :: "bool \<Rightarrow> string option \<Rightarrow> editor_call list result" where
  "runConnect reuseWindow input =
     (case pickHost input of
        None \<Rightarrow> Inr []
      | Some hostInput \<Rightarrow>
          map_sum id (\<lambda>dest. [NewWindow (SSH_PREFIX @ encodeAuthority dest) reuseWindow]) (parseSshDestination hostInput))"

text \<open>The view is registered only in windows in which it is contributed.\<close>

definition viewContributedHere :: "string option \<Rightarrow> bool" where
  "viewContributedHere remoteName = (remoteName = None \<or> remoteName = Some ''ssh-remote'')"

definition registered_commands :: "bool \<Rightarrow> string list" where
  "registered_commands hasVscodium =
     [''zygos.connect'', ''zygos.connectToHost'', ''zygos.openConfigFile'', ''zygos.addHost'', ''zygos.refresh'', ''zygos.openTerminal'',
      ''zygos.showServerLog'', ''zygos.connectFromTree'', ''zygos.explorer.openFolderCurrentWindow'',
      ''zygos.explorer.openFolderNewWindow'', ''zygos.explorer.forgetFolder'']
     @ (if hasVscodium then [''zygos.testDownloadUrl''] else [])"

record head_response =
  head_status :: nat
  head_statusText :: string
  head_contentLength :: "string option"

text \<open>\<open>mb\<close> writes a content length in megabytes; a time-out of the request is one of its errors.\<close>

definition head_report :: "(string \<Rightarrow> string) \<Rightarrow> string \<Rightarrow> head_response \<Rightarrow> editor_call" where
  "head_report mb url res =
     (if 200 \<le> head_status res \<and> head_status res < 300
      then ShowInformation (''Reachable (HTTP '' @ dec (head_status res) @ '', ''
             @ (if truthy (head_contentLength res) then mb (nullish (head_contentLength res) []) @ '' MB'' else ''size unknown'')
             @ '').'' @ [CHR 0x0A] @ ''URL: '' @ url)
      else ShowWarning (''HTTP '' @ dec (head_status res) @ '' '' @ head_statusText res @ ''.'' @ [CHR 0x0A] @ ''URL: '' @ url))"

definition runTestDownloadUrl ::
    "'w fetcher \<Rightarrow> 'w fetcher \<Rightarrow> (string \<Rightarrow> ('w, string) promise) \<Rightarrow> (string \<Rightarrow> ('w, head_response) promise) \<Rightarrow> (string \<Rightarrow> string)
      \<Rightarrow> json result \<Rightarrow> adapter \<Rightarrow> product_info result \<Rightarrow> string \<Rightarrow> ('w, editor_call) promise" where
  "runTestDownloadUrl fetch_post fetch nearest head mb product a productInfo processArch w =
     (case productInfo of
        Inl e \<Rightarrow> (Inl e, w)
      | Inr i \<Rightarrow>
          (case buildServerDownloadUrl fetch nearest (adapter_getServerDownloadUrl fetch_post fetch nearest product a) i ''linux''
                  (if processArch = ''arm64'' then ''arm64'' else ''x64'') w of
             (Inl e, w1) \<Rightarrow> (Inr (ShowError (''Failed to resolve URL: '' @ err_message e)), w1)
           | (Inr (url, t), w1) \<Rightarrow>
               if placeholders url \<noteq> []
               then (Inr (ShowWarning (''Resolved URL has unsubstituted variables: '' @ js_join '', '' (placeholders url)
                       @ [CHR 0x0A] @ ''URL: '' @ url)), w1)
               else (case head url w1 of
                       (Inl e, w2) \<Rightarrow> (Inr (ShowError (''Unreachable: '' @ err_message e @ [CHR 0x0A] @ ''URL: '' @ url)), w2)
                     | (Inr res, w2) \<Rightarrow> (Inr (head_report mb url res), w2))))"

section \<open>Lemmas\<close>

lemma encode_raw_of: "encode_raw (raw_of d) = encodeAuthority d"
  by (simp add: encode_raw_def raw_of_def encodeAuthority_def destination_json_def)

lemma raw_of_host: "raw_of (resolveDestination a) = host_only a"
  by (simp add: raw_of_def resolveDestination_def host_only_def)

lemma remote_of_host: "remote_of (host_only a) = SSH_PREFIX @ encodeAuthority (resolveDestination a)"
  using encode_raw_of [of "resolveDestination a"] by (simp add: remote_of_def raw_of_host)

lemma remote_of_inj: "a \<noteq> [] \<Longrightarrow> b \<noteq> [] \<Longrightarrow> remote_of (host_only a) = remote_of (host_only b) \<Longrightarrow> a = b"
proof -
  assume n: "a \<noteq> []" "b \<noteq> []" and "remote_of (host_only a) = remote_of (host_only b)"
  then have "encodeAuthority (resolveDestination a) = encodeAuthority (resolveDestination b)" by (simp add: remote_of_host)
  then have "(Inr (raw_of (resolveDestination a)) :: raw_destination result) = Inr (raw_of (resolveDestination b))"
    using n decode_encode [of "resolveDestination a"] decode_encode [of "resolveDestination b"] by (simp add: resolveDestination_def)
  then show "a = b" by (simp add: raw_of_host host_only_def)
qed

lemma folders_of_None: "history_ok h \<Longrightarrow> folders_of r h = [] \<longleftrightarrow> r \<notin> set (getRemotes h)"
proof -
  assume ok: "history_ok h"
  show ?thesis
  proof (cases "map_of (h_data h) r")
    case None
    then show ?thesis by (simp add: folders_of_def getRemotes_def) (metis map_of_eq_None_iff)
  next
    case (Some l)
    with ok have "l \<noteq> []" by (auto simp: history_ok_def dest: entry_of_data simp: entry_ok_def)
    with Some show ?thesis by (force simp: folders_of_def getRemotes_def dest: map_of_SomeD)
  qed
qed

lemma getFolders_of: "getFolders r h = map (Pair r) (folders_of r h)"
  by (simp add: getFolders_def folders_of_def)

lemma folders_of_ok: "history_ok h \<Longrightarrow> distinct (folders_of r h) \<and> length (folders_of r h) \<le> 20"
  using distinct_stored entry_of_data [of "h_data h" r]
  by (cases "map_of (h_data h) r") (auto simp: history_ok_def folders_of_def entry_ok_def)

lemma folders_of_remove:
  "folders_of r (snd (removeFolder f h)) = (if r = fst f then filter (\<lambda>p. p \<noteq> snd f) (folders_of r h) else folders_of r h)"
proof (cases "map_of (h_data h) (fst f)")
  case (Some l)
  have "length (filter (\<lambda>p. p \<noteq> snd f) l) = length l \<Longrightarrow> filter (\<lambda>p. p \<noteq> snd f) l = l"
    by (metis filter_id_conv length_filter_less less_irrefl)
  with Some show ?thesis
    by (auto simp: removeFolder_def folders_of_def Let_def update_conv' delete_conv' split: if_splits)
qed (auto simp: removeFolder_def folders_of_def)

lemma folders_of_removes:
  "folders_of r (fold (\<lambda>f h. snd (removeFolder f h)) (map (Pair old) ps) h)
     = (if r = old then filter (\<lambda>p. p \<notin> set ps) (folders_of r h) else folders_of r h)"
  by (induction ps arbitrary: h) (auto simp: folders_of_remove intro: filter_cong)

lemma ok_remove: "history_ok h \<Longrightarrow> history_ok (snd (removeFolder f h))"
  using history_machine.inv_step [of h "RemoveFolder f"] by simp

lemma ok_removes: "history_ok h \<Longrightarrow> history_ok (fold (\<lambda>f h. snd (removeFolder f h)) fs h)"
  by (induction fs arbitrary: h) (simp_all add: ok_remove)

lemma ok_add: "history_ok h \<Longrightarrow> history_ok (addFolders fs h)"
  using history_machine.inv_step [of h "AddFolders fs"] by simp

lemma fold_bump: "distinct ps \<Longrightarrow> fold bump ps l = rev ps @ filter (\<lambda>p. p \<notin> set ps) l"
proof (induction ps arbitrary: l)
  case (Cons p ps)
  then have "filter (\<lambda>q. q \<notin> set ps) (bump p l) = p # filter (\<lambda>q. q \<notin> set (p # ps)) l"
    by (auto simp: bump_def intro: filter_cong)
  with Cons show ?case by simp
qed simp

lemma folders_of_add:
  assumes "history_ok h" "distinct ps"
  shows "folders_of r (addFolders (map (Pair new) ps) h)
       = (if r = new then take 20 (rev ps @ filter (\<lambda>p. p \<notin> set ps) (folders_of r h)) else folders_of r h)"
proof -
  have inj: "map (Pair r) a = map (Pair r) b \<longleftrightarrow> a = b" for a b :: "string list"
    by (rule inj_map_eq_map) (simp add: inj_def)
  have "map snd (filter (\<lambda>f. fst f = r) (map (Pair new) ps)) = (if r = new then ps else [])"
    by (auto simp: filter_map comp_def)
  with getFolders_add [OF assms(1), of r "map (Pair new) ps"] folders_of_ok [OF assms(1), of r]
  show ?thesis by (simp add: getFolders_of inj fold_bump [OF assms(2)])
qed

lemma migrate_ok: "history_ok h \<Longrightarrow> history_ok (migrateHistory new d h)"
  by (simp add: migrateHistory_def Let_def ok_removes ok_add)

lemma migrate_folders:
  assumes "history_ok h"
  shows "folders_of r (migrateHistory new d h)
       = (if remote_of d = new \<or> folders_of (remote_of d) h = [] then folders_of r h
          else if r = remote_of d then []
          else if r = new then take 20 (rev (folders_of (remote_of d) h) @ filter (\<lambda>p. p \<notin> set (folders_of (remote_of d) h)) (folders_of r h))
          else folders_of r h)"
proof -
  have [simp]: "(\<lambda>f. (new, snd f)) \<circ> Pair x = Pair new" for x :: string by auto
  from folders_of_ok [OF assms, of "remote_of d"] show ?thesis
    by (auto simp: migrateHistory_def Let_def getFolders_of folders_of_removes folders_of_add [OF assms])
qed

lemma host_items_Inr:
  "host_items env merged hosts h = (Inr items, h') \<Longrightarrow>
     map item_alias items = hosts \<and> map item_remote items = map (\<lambda>a. remote_of (host_only a)) hosts \<and> (history_ok h \<longrightarrow> history_ok h')"
proof (induction hosts arbitrary: h items)
  case (Cons a hosts)
  obtain cfg where cfg: "getConfig env merged a = Inr cfg" using Cons.prems by (cases "getConfig env merged a") simp_all
  define res where "res = (case cfg of Some c \<Rightarrow> hostConfigToDestination c | None \<Rightarrow> host_only a)"
  define h1 where "h1 = (if cfg \<noteq> None then migrateHistory (remote_of (host_only a)) res h else h)"
  have step: "host_items env merged (a # hosts) h = (case host_items env merged hosts h1 of
                (Inl e, h2) \<Rightarrow> (Inl e, h2)
              | (Inr items, h2) \<Rightarrow>
                  (Inr (new_HostItem a (remote_of (host_only a)) (getFolders (remote_of (host_only a)) h1 \<noteq> []) res # items), h2))"
    unfolding host_items.simps cfg sum.case Let_def h1_def res_def by (rule refl)
  obtain rest where rest: "host_items env merged hosts h1 = (Inr rest, h')"
    and items: "items = new_HostItem a (remote_of (host_only a)) (getFolders (remote_of (host_only a)) h1 \<noteq> []) res # rest"
    using Cons.prems unfolding step by (auto split: prod.splits sum.splits)
  have "history_ok h \<Longrightarrow> history_ok h1" by (simp add: h1_def migrate_ok)
  with Cons.IH [OF rest] show ?case by (simp add: items new_HostItem_def Let_def)
qed simp

lemma host_items_runs:
  "(\<forall>a. \<exists>c. getConfig env merged a = Inr c) \<Longrightarrow> \<exists>items h'. host_items env merged hosts h = (Inr items, h')"
proof (induction hosts arbitrary: h)
  case (Cons a hosts)
  obtain cfg where cfg: "getConfig env merged a = Inr cfg" using Cons.prems by blast
  obtain items h' where "host_items env merged hosts
      (if cfg \<noteq> None then migrateHistory (remote_of (host_only a)) (case cfg of Some c \<Rightarrow> hostConfigToDestination c | None \<Rightarrow> host_only a) h else h)
      = (Inr items, h')"
    using Cons.IH [OF Cons.prems] by blast
  then show ?case by (simp only: host_items.simps cfg sum.case Let_def prod.case) simp
qed simp

lemma hosts_listed: "loadSshConfig env = Inr (hosts, merged) \<Longrightarrow> distinct hosts \<and> [] \<notin> set hosts"
  by (cases "merged_config env") (auto simp: loadSshConfig_def in_map_filter listed_host_Some)

section \<open>Properties\<close>

text \<open>When the tree is shown, the folders that were recorded under the resolved address of a host are
  all under its alias and none is left, other remotes keep theirs, and the history stays well formed.
  But the recency is turned round: the most recent of the moved folders becomes the last of them, so
  with more than twenty it is the most recent ones of the alias's own list that stay.\<close>

theorem migration_moves_folders:
  assumes "history_ok h" and "remote_of d \<noteq> new" and "folders_of (remote_of d) h \<noteq> []"
  shows "folders_of new (migrateHistory new d h)
           = take 20 (rev (folders_of (remote_of d) h) @ filter (\<lambda>p. p \<notin> set (folders_of (remote_of d) h)) (folders_of new h))
       \<and> folders_of (remote_of d) (migrateHistory new d h) = []
       \<and> (\<forall>r. r \<noteq> new \<and> r \<noteq> remote_of d \<longrightarrow> folders_of r (migrateHistory new d h) = folders_of r h)
       \<and> history_ok (migrateHistory new d h)"
  using assms by (simp add: migrate_folders migrate_ok)

text \<open>Every remote with a recent folder has exactly one item in the tree under which its folders are
  listed: its host when the configuration has one, a group of its own otherwise.\<close>

theorem every_folder_reachable:
  assumes "history_ok h" and load: "loadSshConfig env = Inr (hosts, merged)"
    and "\<forall>a. \<exists>c. getConfig env merged a = Inr c" and "root_children env h = (items, h')"
  shows "history_ok h' \<and> (\<forall>r \<in> set (getRemotes h'). prefix SSH_PREFIX r \<longrightarrow>
            (\<exists>!i. i \<in> set items \<and> item_remote i = r)
            \<and> (\<forall>i \<in> set items. item_remote i = r \<longrightarrow>
                 fst (getChildren env (Some i) h') = map (\<lambda>f. new_RecentFolderItem (r, f)) (folders_of r h')))"
proof -
  obtain its h1 where run: "host_items env merged hosts h = (Inr its, h1)" using host_items_runs [OF assms(3)] by blast
  let ?os = "orphans (map item_remote its) h1"
  from assms(4) load run have h': "h' = h1" and items: "items = its @ map (\<lambda>r. RecentGroupItem r (decodeLabel r)) ?os"
    by (auto simp: root_children_def)
  from host_items_Inr [OF run] assms(1) have remotes: "map item_remote its = map (\<lambda>a. remote_of (host_only a)) hosts" and ok: "history_ok h1"
    by blast+
  have "inj_on (\<lambda>a. remote_of (host_only a)) (set hosts)"
    unfolding inj_on_def using hosts_listed [OF load] remote_of_inj by metis
  with hosts_listed [OF load] have "distinct (map (\<lambda>a. remote_of (host_only a)) hosts)"
    by (simp add: distinct_map)
  moreover have "distinct ?os" using ok by (simp add: orphans_def getRemotes_def history_ok_def data_ok_def)
  moreover have all: "map item_remote items = map item_remote its @ ?os" by (simp add: items comp_def)
  moreover have "set (map item_remote its) \<inter> set ?os = {}" by (auto simp: orphans_def)
  ultimately have dist: "distinct (map item_remote items)" using remotes by simp
  have kinds: "fst (getChildren env (Some i) h') = map new_RecentFolderItem (getFolders (item_remote i) h')" if "i \<in> set items" for i
  proof -
    have "\<exists>r c d t a. i = HostItem a r c d t \<or> i = RecentGroupItem r a"
    proof (cases "i \<in> set its")
      case True
      have "\<forall>i \<in> set its. \<exists>a r c d t. i = HostItem a r c d t"
        using run
      proof (induction hosts arbitrary: h its)
        case (Cons a hosts)
        then show ?case
          by (auto simp: new_HostItem_def Let_def split: sum.splits prod.splits)
      qed simp
      with True show ?thesis by blast
    qed (use that items in auto)
    then show ?thesis by (auto simp: getChildren_def)
  qed
  have "(\<exists>!i. i \<in> set items \<and> item_remote i = r)
      \<and> (\<forall>i \<in> set items. item_remote i = r \<longrightarrow> fst (getChildren env (Some i) h') = map (\<lambda>f. new_RecentFolderItem (r, f)) (folders_of r h'))"
    if "r \<in> set (getRemotes h')" "prefix SSH_PREFIX r" for r
  proof
    have "r \<in> set (map item_remote items)" using that by (auto simp: all orphans_def h')
    then obtain i where i: "i \<in> set items" "item_remote i = r" by auto
    moreover have "j = i" if "j \<in> set items" "item_remote j = r" for j
      using dist i that by (auto simp: distinct_map inj_on_def)
    ultimately show "\<exists>!i. i \<in> set items \<and> item_remote i = r" by blast
    show "\<forall>i \<in> set items. item_remote i = r \<longrightarrow> fst (getChildren env (Some i) h') = map (\<lambda>f. new_RecentFolderItem (r, f)) (folders_of r h')"
      by (simp add: kinds getFolders_of comp_def)
  qed
  with ok h' show ?thesis by blast
qed

text \<open>A configuration in which both hosts resolve to \<^verbatim>\<open>web\<close>, and a history for its alias.\<close>

abbreviation web_env :: "(string \<times> config_value) config_env" where
  "web_env \<equiv> demo_env [(''HostName'', JStr ''web'')]"

definition web_history :: history where
  "web_history = addFolders [(remote_of (host_only ''web''), ''/srv''), (remote_of (host_only ''web''), ''/etc'')] empty_history"

lemma web_config:
  "getConfig web_env merged a = Inr (Some \<lparr>hc_alias = a, hc_hostName = ''web'', hc_user = None, hc_port = None, hc_identityFile = None,
     hc_proxyJump = None, hc_proxyCommand = None\<rparr>)"
  by (simp add: getConfig_def demo_env_def Let_def pickString_def valueToString_def)

lemma web_ok: "history_ok web_history"
  by (simp add: web_history_def ok_add empty_ok)

lemma web_folders: "folders_of (remote_of (host_only ''web'')) web_history = [''/etc'', ''/srv'']"
  using folders_of_add [OF empty_ok, of "[''/srv'', ''/etc'']" "remote_of (host_only ''web'')" "remote_of (host_only ''web'')"]
  by (simp add: web_history_def) (simp add: folders_of_def empty_history_def)

theorem migration_moves_folders_witness:
  "folders_of (remote_of (host_only ''ci'')) (migrateHistory (remote_of (host_only ''ci'')) (host_only ''web'') web_history) = [''/srv'', ''/etc'']"
proof -
  have ne: "remote_of (host_only ''web'') \<noteq> remote_of (host_only ''ci'')" using remote_of_inj [of "''web''" "''ci''"] by auto
  have "map_of (h_data web_history) (remote_of (host_only ''ci'')) = None"
    using ne by (simp add: web_history_def addFolders_def empty_history_def add_folder_def Let_def update_conv')
  then have "folders_of (remote_of (host_only ''ci'')) web_history = []" by (simp add: folders_of_def)
  with migration_moves_folders [OF web_ok ne] show ?thesis by (simp add: web_folders)
qed

lemma alias_history_taken:
  assumes "history_ok h" and load: "loadSshConfig env = Inr ([a, b], merged)"
    and ca: "getConfig env merged a = Inr ca" "ca = None \<or> (\<exists>c. ca = Some c \<and> hostConfigToDestination c = host_only a)"
    and cb: "getConfig env merged b = Inr (Some c')" "hostConfigToDestination c' = host_only a"
    and some: "folders_of (remote_of (host_only a)) h \<noteq> []"
  shows "\<exists>i j os h'. root_children env h = (i # j # os, h') \<and> item_alias i = a \<and> item_remote i = remote_of (host_only a) \<and> item_collapsible i
       \<and> fst (getChildren env (Some i) h') = [] \<and> set (folders_of (remote_of (host_only a)) h) \<subseteq> set (folders_of (remote_of (host_only b)) h')"
proof -
  have ab: "a \<noteq> b" "a \<noteq> []" "b \<noteq> []" using hosts_listed [OF load] by auto
  then have ne: "remote_of (host_only a) \<noteq> remote_of (host_only b)" using remote_of_inj by blast
  have h1: "(if ca \<noteq> None then migrateHistory (remote_of (host_only a)) (case ca of Some c \<Rightarrow> hostConfigToDestination c | None \<Rightarrow> host_only a) h else h) = h"
    using ca(2) by (auto simp: migrateHistory_def Let_def)
  define h' where "h' = migrateHistory (remote_of (host_only b)) (host_only a) h"
  have moved: "folders_of (remote_of (host_only a)) h' = []"
    "folders_of (remote_of (host_only b)) h' = take 20 (rev (folders_of (remote_of (host_only a)) h)
        @ filter (\<lambda>p. p \<notin> set (folders_of (remote_of (host_only a)) h)) (folders_of (remote_of (host_only b)) h))"
    using migrate_folders [OF assms(1)] ne some by (simp_all add: h'_def)
  have "length (folders_of (remote_of (host_only a)) h) \<le> 20" using folders_of_ok [OF assms(1)] by blast
  with moved(2) have sub: "set (folders_of (remote_of (host_only a)) h) \<subseteq> set (folders_of (remote_of (host_only b)) h')" by simp
  let ?ra = "case ca of Some c \<Rightarrow> hostConfigToDestination c | None \<Rightarrow> host_only a"
  have items: "host_items env merged [a, b] h = (Inr [new_HostItem a (remote_of (host_only a)) True ?ra,
      new_HostItem b (remote_of (host_only b)) (getFolders (remote_of (host_only b)) h' \<noteq> []) (host_only a)], h')"
    using ca(1) cb some by (simp only: host_items.simps sum.case Let_def h1) (simp add: h'_def getFolders_of)
  then have "root_children env h = (new_HostItem a (remote_of (host_only a)) True ?ra #
      new_HostItem b (remote_of (host_only b)) (getFolders (remote_of (host_only b)) h' \<noteq> []) (host_only a) #
      map (\<lambda>r. RecentGroupItem r (decodeLabel r)) (orphans (map item_remote [new_HostItem a (remote_of (host_only a)) True ?ra,
      new_HostItem b (remote_of (host_only b)) (getFolders (remote_of (host_only b)) h' \<noteq> []) (host_only a)]) h'), h')"
    by (simp add: root_children_def load)
  moreover have "item_alias (new_HostItem a (remote_of (host_only a)) True ?ra) = a"
    "item_remote (new_HostItem a (remote_of (host_only a)) True ?ra) = remote_of (host_only a)"
    "item_collapsible (new_HostItem a (remote_of (host_only a)) True ?ra)"
    "fst (getChildren env (Some (new_HostItem a (remote_of (host_only a)) True ?ra)) h') = []"
    by (simp_all add: new_HostItem_def Let_def getChildren_def getFolders_of moved)
  ultimately show ?thesis using sub by blast
qed

lemma web_destination:
  "hostConfigToDestination \<lparr>hc_alias = x, hc_hostName = ''web'', hc_user = None, hc_port = None, hc_identityFile = None,
     hc_proxyJump = None, hc_proxyCommand = None\<rparr> = host_only ''web''"
  by (simp add: hostConfigToDestination_def host_only_def)

theorem every_folder_reachable_witness:
  "\<exists>!i. i \<in> set (fst (root_children web_env web_history)) \<and> item_remote i = remote_of (host_only ''ci'')"
proof -
  let ?h' = "snd (root_children web_env web_history)" and ?r = "remote_of (host_only ''ci'')"
  have some: "folders_of (remote_of (host_only ''web'')) web_history \<noteq> []" by (simp add: web_folders)
  from alias_history_taken [OF web_ok demo_load web_config _ web_config web_destination this] some web_destination
  have "folders_of ?r ?h' \<noteq> []" by fastforce
  moreover have reach: "history_ok ?h' \<and> (\<forall>r \<in> set (getRemotes ?h'). prefix SSH_PREFIX r \<longrightarrow>
       (\<exists>!i. i \<in> set (fst (root_children web_env web_history)) \<and> item_remote i = r))"
    using every_folder_reachable [OF web_ok demo_load [of "[(''HostName'', JStr ''web'')]"],
        where items = "fst (root_children web_env web_history)" and h' = ?h']
    by (simp add: web_config)
  ultimately have "?r \<in> set (getRemotes ?h')" using folders_of_None by blast
  with reach show ?thesis by (simp add: remote_of_def)
qed

text \<open>Showing the tree can take the recent folders away from a host: when another host of the
  configuration has the first one's alias as its host name (\<^verbatim>\<open>Host web\<close> beside \<^verbatim>\<open>Host ci\<close> with
  \<^verbatim>\<open>HostName web\<close>), everything recorded for the first is moved to the second, although the
  authority it was recorded under is the first one's own. The first is still drawn as a node to
  open, with nothing in it.\<close>

theorem alias_loses_history:
  assumes "history_ok h" and load: "loadSshConfig env = Inr ([a, b], merged)"
    and ca: "getConfig env merged a = Inr ca" "ca = None \<or> (\<exists>c. ca = Some c \<and> hostConfigToDestination c = host_only a)"
    and cb: "getConfig env merged b = Inr (Some c')" "hostConfigToDestination c' = host_only a"
    and some: "folders_of (remote_of (host_only a)) h \<noteq> []"
  shows "\<exists>i j os h'. root_children env h = (i # j # os, h') \<and> item_alias i = a \<and> item_remote i = remote_of (host_only a) \<and> item_collapsible i
       \<and> fst (getChildren env (Some i) h') = [] \<and> set (folders_of (remote_of (host_only a)) h) \<subseteq> set (folders_of (remote_of (host_only b)) h')"
  by (rule alias_history_taken [OF assms])

theorem alias_loses_history_witness:
  "\<exists>i j os h'. root_children web_env web_history = (i # j # os, h') \<and> item_alias i = ''web'' \<and> item_collapsible i
     \<and> fst (getChildren web_env (Some i) h') = []"
proof -
  have "folders_of (remote_of (host_only ''web'')) web_history \<noteq> []" by (simp add: web_folders)
  from alias_loses_history [OF web_ok demo_load web_config _ web_config web_destination this] web_destination show ?thesis by blast
qed

lemma dotted_fork:
  assumes "f \<in> known_forks"
  shows "\<exists>r. f_serverDataFolderName f = CHR ''.'' # r \<and> r \<noteq> [] \<and> hd r \<noteq> CHR ''.''"
proof -
  have "f_serverDataFolderName f \<in> {''.vscodium-server'', ''.vscode-server-oss'', ''.trae-server'', ''.devin-server'', ''.antigravity-ide-server'',
      ''.qoder-server'', ''.bobide-server''}"
    using assms unfolding known_forks_def
    by (elim insertE emptyE) (simp_all add: VSCODIUM_CONFIG_def VSCODE_OSS_CONFIG_def TRAE_CONFIG_def
        DEVIN_CONFIG_def ANTIGRAVITY_CONFIG_def QODER_CONFIG_def BOB_CONFIG_def)
  then show ?thesis by (elim insertE emptyE) simp_all
qed

text \<open>The log that \<^verbatim>\<open>Show Server Log\<close> follows cannot be the server's: every folder name that an adapter or
  product.json gives starts with a dot, to which the path adds another.\<close>

theorem server_log_elsewhere:
  assumes "a = KiroAdapter \<or> (\<exists>product. a = VscodiumAdapter (detectFork product))"
    and "getProductInfo (Inr v) a sd = Inr i" and "json_string (opt_prop (Some v) ''serverDataFolderName'') = None"
  shows "prefix ''~/..'' (server_log_path i) \<and> \<not> prefix (''~/'' @ serverDataFolderName i) (server_log_path i)"
proof -
  have "serverDataFolderName i = adapter_serverDataFolderName a"
    using assms(2,3)
    by (auto simp: getProductInfo_def mergeServerDownloadConfig_def raw_product_of_def Let_def split: if_splits)
  moreover have "\<exists>r. adapter_serverDataFolderName a = CHR ''.'' # r \<and> r \<noteq> [] \<and> hd r \<noteq> CHR ''.''"
    using assms(1) dotted_fork [OF detectFork_known] by (auto simp: adapter_serverDataFolderName_def)
  ultimately show ?thesis by (auto simp: server_log_path_def neq_Nil_conv)
qed

theorem server_log_elsewhere_witness:
  "prefix ''~/..'' (server_log_path (with_product_template vscodium_product
      (mergeServerDownloadConfig (raw_product_of vscodium_product KiroAdapter) None Map.empty)))"
proof -
  let ?info = "with_product_template vscodium_product (mergeServerDownloadConfig (raw_product_of vscodium_product KiroAdapter) None Map.empty)"
  have i: "getProductInfo (Inr vscodium_product) KiroAdapter Map.empty = Inr ?info"
    by (simp add: getProductInfo_def vscodium_product_def adapter_checksums_def)
  have "json_string (opt_prop (Some vscodium_product) ''serverDataFolderName'') = None"
    by (simp add: vscodium_product_def opt_prop_def json_string_def)
  from server_log_elsewhere [OF _ i this] show ?thesis by simp
qed

text \<open>Connecting from the tree opens the remote under which the item lists and records its folders, whose
  destination is the alias alone, so that ssh finds the host's block; and what is typed opens exactly
  the destination it parses to.\<close>

theorem connect_opens_recorded_remote:
  assumes "alias \<noteq> []"
  shows "connectFromTree (Some alias) = [NewWindow (item_remote (new_HostItem alias (remote_of (host_only alias)) x d)) False]
       \<and> decodeAuthority (drop (length SSH_PREFIX) (win_authority (hd (connectFromTree (Some alias))))) = Inr (host_only alias)
       \<and> (\<forall>reuse input calls. runConnect reuse (Some input) = Inr calls \<and> trim input \<noteq> [] \<longrightarrow>
            (\<exists>dest. parseSshDestination (trim input) = Inr dest \<and> calls = [NewWindow (SSH_PREFIX @ encodeAuthority dest) reuse]
              \<and> decodeAuthority (encodeAuthority dest) = Inr (raw_of dest)))"
proof (intro conjI allI impI)
  show "connectFromTree (Some alias) = [NewWindow (item_remote (new_HostItem alias (remote_of (host_only alias)) x d)) False]"
    by (simp add: connectFromTree_def new_HostItem_def Let_def remote_of_host)
  show "decodeAuthority (drop (length SSH_PREFIX) (win_authority (hd (connectFromTree (Some alias))))) = Inr (host_only alias)"
    using decode_encode [of "resolveDestination alias"] assms
    by (simp add: connectFromTree_def raw_of_host) (simp add: resolveDestination_def)
next
  fix reuse input calls
  assume r: "runConnect reuse (Some input) = Inr calls \<and> trim input \<noteq> []"
  then obtain dest where d: "parseSshDestination (trim input) = Inr dest" "calls = [NewWindow (SSH_PREFIX @ encodeAuthority dest) reuse]"
    by (auto simp: runConnect_def pickHost_def map_sum_InrD)
  then have "dest_host dest \<noteq> []" by (auto simp: parseSshDestination_def Let_def split: if_splits)
  with d decode_encode show "\<exists>dest. parseSshDestination (trim input) = Inr dest \<and> calls = [NewWindow (SSH_PREFIX @ encodeAuthority dest) reuse]
              \<and> decodeAuthority (encodeAuthority dest) = Inr (raw_of dest)"
    by blast
qed

theorem connect_opens_recorded_remote_witness:
  "decodeAuthority (drop (length SSH_PREFIX) (win_authority (hd (connectFromTree (Some ''web''))))) = Inr (host_only ''web'')"
  using connect_opens_recorded_remote [of "''web''"] by simp

end
