(* ===== verification/Activation.thy ===== *)
theory Activation
  imports HostTree ArgvPatch Logger
begin

text \<open>
  \<^verbatim>\<open>src/extension.ts\<close> and \<^verbatim>\<open>src/builtin-disable/index.ts\<close>: what happens, in which order, when the
  extension is activated. What each step does is modelled in the theory of its component; here it
  is an operation of \<open>activation_env\<close> on a world that extends \<open>activation\<close>, the record of what has been
  set up. Log messages are left out, except for the details of a conflict, which are the purpose of
  their function.
\<close>

section \<open>Conflicting extensions\<close>

definition CONFLICT_CONTEXT_KEY :: string where "CONFLICT_CONTEXT_KEY = ''zygos.conflict''"

text \<open>The Kiro adapter does not have the method; \<open>present\<close> is \<^verbatim>\<open>getExtension(id) !== undefined\<close>.\<close>

definition candidate_ids :: "extension list \<Rightarrow> adapter \<Rightarrow> string list" where
  "candidate_ids installed a = (case a of KiroAdapter \<Rightarrow> [] | VscodiumAdapter f \<Rightarrow> getConflictingSshExtensionIds installed)"

definition findConflictingExtensions :: "extension list \<Rightarrow> (string \<Rightarrow> bool) \<Rightarrow> adapter \<Rightarrow> string list" where
  "findConflictingExtensions installed present a = filter present (candidate_ids installed a)"

datatype conflict_call = SetContext string bool | ConflictPopup (popup_text: string) (popup_button: string)

definition showConflictPopup :: "string list \<Rightarrow> conflict_call" where
  "showConflictPopup ids =
     ConflictPopup (''Zygos cannot run while '' @ js_join '', '' ids @ '' is active. Disable or uninstall it, then reload.'') ''Show Details''"

text \<open>The identifiers, and the calls made to the editor.\<close>

definition checkForConflicts :: "extension list \<Rightarrow> (string \<Rightarrow> bool) \<Rightarrow> adapter \<Rightarrow> string list \<times> conflict_call list" where
  "checkForConflicts installed present a =
     (let ids = findConflictingExtensions installed present a in
      if ids = [] then ([], [SetContext CONFLICT_CONTEXT_KEY False])
      else (ids, [SetContext CONFLICT_CONTEXT_KEY True, showConflictPopup ids]))"

text \<open>\<open>ext\<close> is \<^verbatim>\<open>getExtension\<close>: its package.json and path.\<close>

definition extension_details :: "(string \<Rightarrow> (json option \<times> string) option) \<Rightarrow> string \<Rightarrow> string list" where
  "extension_details ext i =
     (case ext i of
        Some (pj, path) \<Rightarrow>
          [''  - '' @ i,
           ''    Name: '' @ text_or (json_or (opt_prop pj ''displayName'') (opt_prop pj ''name'')) i,
           ''    Publisher: '' @ text_or (opt_prop pj ''publisher'') ''unknown'',
           ''    Version: '' @ text_or (opt_prop pj ''version'') ''unknown'',
           ''    Path: '' @ path]
      | None \<Rightarrow> [''  - '' @ i @ '' (not found in extension API)''])"

definition conflict_lines :: "string list \<Rightarrow> string list" where
  "conflict_lines ids =
     [''Zygos Remote SSH - SSH Resolver Conflict'',
      ''========================================'',
      [],
      ''Conflicting extension(s): '' @ js_join '', '' ids,
      [],
      ''Zygos and the extension(s) above both register a resolver for the'',
      CHR 0x27 # ''ssh-remote'' @ [CHR 0x27] @ '' authority. VS Code only allows one - the first to activate'',
      ''wins, the rest are silently ignored.'',
      [],
      ''On some forks (e.g. Trae), the built-in SSH extension activates first'',
      ''and is protected - it cannot be disabled via settings or the UI.'',
      [],
      ''To resolve:'',
      ''  1. Extensions panel (Ctrl+Shift+X)'',
      ''  2. Search for: '' @ hd ids,
      ''     If not found, try: @builtin ${ids[0]}'',
      ''  3. Right-click -> Disable (or Uninstall)'',
      ''  4. Reload (Ctrl+Shift+P -> Developer: Reload Window)'',
      [],
      ''If the conflicting extension is a protected built-in (e.g. Trae),'',
      ''Zygos cannot function on this IDE. Use a different fork, or wait for'',
      ''the IDE to remove the protected status.'',
      [],
      ''Details:'']"

definition writeConflictDetails ::
    "(string \<Rightarrow> (json option \<times> string) option) \<Rightarrow> bool \<Rightarrow> string list \<Rightarrow> logger \<Rightarrow> logger" where
  "writeConflictDetails ext writable ids l =
     showLines writable (conflict_lines ids @ concat (map (extension_details ext) ids)) l"

text \<open>The answer to the popup.\<close>

definition conflict_answer ::
    "(string \<Rightarrow> (json option \<times> string) option) \<Rightarrow> bool \<Rightarrow> string list \<Rightarrow> string option \<Rightarrow> logger \<Rightarrow> logger" where
  "conflict_answer ext writable ids choice l =
     (if choice = Some ''Show Details'' then writeConflictDetails ext writable ids l else l)"

section \<open>Activation\<close>

datatype set_up =
    HostCommands
  | WorkspaceCaptured
  | DownloadPanel
  | ConflictCall conflict_call
  | ConflictCommand "string list"
  | ConflictWatcher
  | AskpassExecutable
  | CacheReady json json
  | SecretReady json
  | FeedReady
  | DownloadCacheReady
  | ResolverRegistered
  | ErrorShown string

record activation =
  ac_done :: "set_up list"

definition note_up :: "set_up \<Rightarrow> ('x activation_scheme, unit) promise" where
  "note_up x w = (Inr (), w\<lparr>ac_done := ac_done w @ [x]\<rparr>)"

record 'w activation_env =
  ae_kiro :: bool
  ae_vscodium :: bool
  ae_win32 :: bool
  ae_adapter :: "adapter result"
  ae_product :: "json result"
  ae_remoteName :: "string option"
  ae_installed :: "extension list"
  ae_present :: "string \<Rightarrow> bool"
  ae_settings :: "settings_map"
  ae_persistent :: "json result"
  ae_checkArgv :: "('w, bool) promise"
  ae_chmod :: "('w, unit) promise"
  ae_mkdirStorage :: "('w, unit) promise"
  ae_initCache :: "json \<Rightarrow> json \<Rightarrow> ('w, unit) promise"
  ae_initSecret :: "json \<Rightarrow> ('w, unit) promise"
  ae_mkdirCache :: "('w, unit) promise"
  ae_registerResolver :: "('w, unit) promise"

definition setting_or :: "settings_map \<Rightarrow> string \<Rightarrow> json \<Rightarrow> json" where
  "setting_or cfg k d = nullish (cfg k) d"

definition wrong_editor :: "bool \<Rightarrow> string" where
  "wrong_editor kiro =
     (if kiro then ''Zygos: this build runs in Kiro only. Install the zygos build matching your editor.''
      else ''Zygos: this extension is not compatible with your editor. Install the build matching your editor.'')"

text \<open>\<^verbatim>\<open>capture\<close>: only in an ssh window.\<close>

definition capture :: "'x activation_scheme activation_env \<Rightarrow> ('x activation_scheme, unit) promise" where
  "capture E = (if ae_remoteName E \<noteq> Some ''ssh-remote'' then resolve () else note_up WorkspaceCaptured)"

fun note_all :: "set_up list \<Rightarrow> ('x activation_scheme, unit) promise" where
  "note_all [] = resolve ()"
| "note_all (x # xs) = await (note_up x) (\<lambda>_. note_all xs)"

text \<open>The identifiers of conflicting extensions, looked for in local windows of the VSCodium build.\<close>

definition conflict_check :: "'x activation_scheme activation_env \<Rightarrow> adapter \<Rightarrow> string list \<times> conflict_call list" where
  "conflict_check E a =
     (if ae_vscodium E \<and> \<not> truthy (ae_remoteName E) then checkForConflicts (ae_installed E) (ae_present E) a else ([], []))"

text \<open>From the askpass script to the resolver.\<close>

definition activate_resolver :: "'x activation_scheme activation_env \<Rightarrow> ('x activation_scheme, unit) promise" where
  "activate_resolver E =
     await (if ae_win32 E then resolve ()
            else catching (await (ae_chmod E) (\<lambda>_. note_up AskpassExecutable)) (\<lambda>_. resolve ())) (\<lambda>_.
     await (ae_mkdirStorage E) (\<lambda>_.
     let ttl = setting_or (ae_settings E) ''askpassCacheTtl'' (JNum ''8'');
         rotation = setting_or (ae_settings E) ''askpassKeyRotationDays'' (JNum ''7'') in
     await (ae_initCache E ttl rotation) (\<lambda>_.
     await (note_up (CacheReady ttl rotation)) (\<lambda>_.
     case ae_persistent E of
       Inl e \<Rightarrow> reject e
     | Inr persistent \<Rightarrow>
         await (if json_truthy (Some persistent)
                then let days = setting_or (ae_settings E) ''sessionKeyRotationDays'' (JNum ''7'') in
                     await (ae_initSecret E days) (\<lambda>_. note_up (SecretReady days))
                else resolve ()) (\<lambda>_.
         await (note_up FeedReady) (\<lambda>_.
         await (ae_mkdirCache E) (\<lambda>_.
         await (note_up DownloadCacheReady) (\<lambda>_.
           catching (await (ae_registerResolver E) (\<lambda>_. note_up ResolverRegistered)) (\<lambda>_. resolve ())))))))))"

definition activate :: "'x activation_scheme activation_env \<Rightarrow> ('x activation_scheme, unit) promise" where
  "activate E =
     (case ae_adapter E of
        Inl e \<Rightarrow> reject e
      | Inr a \<Rightarrow>
          if \<not> isValidRuntime (ae_product E) a then note_up (ErrorShown (wrong_editor (ae_kiro E)))
          else
            await (note_up HostCommands) (\<lambda>_.
            await (capture E) (\<lambda>_.
            await (note_up DownloadPanel) (\<lambda>_.
            case conflict_check E a of
              (ids, calls) \<Rightarrow>
                await (note_all (map ConflictCall calls)) (\<lambda>_.
                if 0 < length ids then note_all [ConflictCommand ids, ConflictWatcher]
                else await (ae_checkArgv E) (\<lambda>needsRestart.
                       if needsRestart then resolve () else activate_resolver E))))))"

text \<open>When the extensions change during a conflict: whether the window is reloaded.\<close>

definition extensions_changed :: "extension list \<Rightarrow> (string \<Rightarrow> bool) \<Rightarrow> adapter \<Rightarrow> bool" where
  "extensions_changed installed present a = (findConflictingExtensions installed present a = [])"

definition deactivate :: "('w, unit) promise \<Rightarrow> bool \<Rightarrow> ('w, unit) promise \<Rightarrow> ('w, unit) promise" where
  "deactivate disposeCache secretReady disposeSecret =
     await disposeCache (\<lambda>_. if secretReady then disposeSecret else resolve ())"

section \<open>Lemmas\<close>

text \<open>\<open>sets_up m P\<close>: what \<open>m\<close> adds to the record satisfies \<open>P\<close>, together with its outcome.\<close>

definition sets_up :: "('x activation_scheme, 'a) promise \<Rightarrow> ('a result \<Rightarrow> set_up list \<Rightarrow> bool) \<Rightarrow> bool" where
  "sets_up m P = (\<forall>w r w'. m w = (r, w') \<longrightarrow> (\<exists>xs. ac_done w' = ac_done w @ xs \<and> P r xs))"

text \<open>An operation of the environment that leaves the record alone.\<close>

abbreviation quiet :: "('x activation_scheme, 'a) promise \<Rightarrow> bool" where
  "quiet m \<equiv> sets_up m (\<lambda>r xs. xs = [])"

lemma sets_up_weaken: "sets_up m P \<Longrightarrow> (\<And>r xs. P r xs \<Longrightarrow> Q r xs) \<Longrightarrow> sets_up m Q"
  unfolding sets_up_def by blast

lemma sets_up_resolve: "P (Inr x) [] \<Longrightarrow> sets_up (resolve x) P"
  by (simp add: sets_up_def resolve_def)

lemma sets_up_reject: "P (Inl e) [] \<Longrightarrow> sets_up (reject e) P"
  by (simp add: sets_up_def reject_def)

lemma sets_up_note: "P (Inr ()) [x] \<Longrightarrow> sets_up (note_up x) P"
  by (simp add: sets_up_def note_up_def)

lemma sets_upD: "sets_up m P \<Longrightarrow> m w = (r, w') \<Longrightarrow> \<exists>xs. ac_done w' = ac_done w @ xs \<and> P r xs"
  unfolding sets_up_def by blast

lemma sets_up_await:
  assumes "sets_up m P" and "\<And>x. sets_up (k x) (Q x)"
    and "\<And>e xs. P (Inl e) xs \<Longrightarrow> R (Inl e) xs" and "\<And>x r xs ys. P (Inr x) xs \<Longrightarrow> Q x r ys \<Longrightarrow> R r (xs @ ys)"
  shows "sets_up (await m k) R"
  unfolding sets_up_def
proof (intro allI impI)
  fix w r w'
  assume a: "await m k w = (r, w')"
  obtain r1 w1 where m: "m w = (r1, w1)" by force
  then obtain xs where xs: "ac_done w1 = ac_done w @ xs" "P r1 xs" using sets_upD [OF assms(1)] by blast
  show "\<exists>xs. ac_done w' = ac_done w @ xs \<and> R r xs"
  proof (cases r1)
    case (Inl e)
    with a m xs assms(3) show ?thesis by (auto simp: await_def)
  next
    case (Inr x)
    with a m have "k x w1 = (r, w')" by (simp add: await_def)
    then obtain ys where "ac_done w' = ac_done w1 @ ys" "Q x r ys" using sets_upD [OF assms(2)] by blast
    with xs Inr assms(4) show ?thesis by auto
  qed
qed

lemma sets_up_catching:
  assumes "sets_up m P" and "\<And>e. sets_up (h e) (Q e)"
    and "\<And>x xs. P (Inr x) xs \<Longrightarrow> R (Inr x) xs" and "\<And>e r xs ys. P (Inl e) xs \<Longrightarrow> Q e r ys \<Longrightarrow> R r (xs @ ys)"
  shows "sets_up (catching m h) R"
  unfolding sets_up_def
proof (intro allI impI)
  fix w r w'
  assume a: "catching m h w = (r, w')"
  obtain r1 w1 where m: "m w = (r1, w1)" by force
  then obtain xs where xs: "ac_done w1 = ac_done w @ xs" "P r1 xs" using sets_upD [OF assms(1)] by blast
  show "\<exists>xs. ac_done w' = ac_done w @ xs \<and> R r xs"
  proof (cases r1)
    case (Inr e)
    with a m xs assms(3) show ?thesis by (auto simp: catching_def)
  next
    case (Inl e)
    with a m have "h e w1 = (r, w')" by (simp add: catching_def)
    then obtain ys where "ac_done w' = ac_done w1 @ ys" "Q e r ys" using sets_upD [OF assms(2)] by blast
    with xs Inl assms(4) show ?thesis by auto
  qed
qed

lemma sets_up_note_all: "P (Inr ()) xs \<Longrightarrow> sets_up (note_all xs) P"
proof (induction xs arbitrary: P)
  case (Cons x xs)
  show ?case
    by (simp, rule sets_up_await [OF sets_up_note [of "\<lambda>r ys. r = Inr () \<and> ys = [x]"] Cons.IH [of "\<lambda>r ys. r = Inr () \<and> ys = xs"]])
      (use Cons.prems in auto)
qed (simp add: sets_up_resolve)

definition quiet_env :: "'x activation_scheme activation_env \<Rightarrow> bool" where
  "quiet_env E \<longleftrightarrow> quiet (ae_checkArgv E) \<and> quiet (ae_chmod E) \<and> quiet (ae_mkdirStorage E) \<and> (\<forall>a b. quiet (ae_initCache E a b))
     \<and> (\<forall>a. quiet (ae_initSecret E a)) \<and> quiet (ae_mkdirCache E) \<and> quiet (ae_registerResolver E)"

text \<open>What is set up from the cache to the resolver; the first two steps may be missing.\<close>

definition cache_steps :: "'x activation_scheme activation_env \<Rightarrow> set_up list" where
  "cache_steps E =
     [CacheReady (setting_or (ae_settings E) ''askpassCacheTtl'' (JNum ''8'')) (setting_or (ae_settings E) ''askpassKeyRotationDays'' (JNum ''7''))]
     @ (if \<exists>p. ae_persistent E = Inr p \<and> json_truthy (Some p)
        then [SecretReady (setting_or (ae_settings E) ''sessionKeyRotationDays'' (JNum ''7''))] else [])
     @ [FeedReady, DownloadCacheReady, ResolverRegistered]"

text \<open>Steps that come in a given order, of which the last ones may be missing.\<close>

abbreviation in_order :: "set_up list \<Rightarrow> ('x activation_scheme, 'a) promise \<Rightarrow> bool" where
  "in_order L m \<equiv> sets_up m (\<lambda>r xs. prefix xs L)"

lemma in_order_quiet: "quiet q \<Longrightarrow> (\<And>x. in_order L (k x)) \<Longrightarrow> in_order L (await q k)"
  by (erule sets_up_await) simp_all

lemma in_order_note: "(\<And>x. in_order L (k x)) \<Longrightarrow> in_order (x # L) (await (note_up x) k)"
  by (rule sets_up_await [OF sets_up_note [of "\<lambda>r xs. xs = [x] \<and> r = Inr ()"]]) auto

lemma resolver_in_order:
  assumes q: "quiet_env E"
  shows "in_order [ResolverRegistered] (catching (await (ae_registerResolver E) (\<lambda>_. note_up ResolverRegistered)) (\<lambda>_. resolve ()))"
proof (rule sets_up_catching)
  show "sets_up (await (ae_registerResolver E) (\<lambda>_. note_up ResolverRegistered))
          (\<lambda>r xs. (\<exists>e. r = Inl e) \<and> xs = [] \<or> xs = [ResolverRegistered] \<and> r = Inr ())"
    by (rule sets_up_await [where P = "\<lambda>r xs. xs = []" and Q = "\<lambda>x r xs. xs = [ResolverRegistered] \<and> r = Inr ()"])
      (use q in \<open>auto simp: quiet_env_def intro: sets_up_note\<close>)
  show "sets_up (resolve ()) (\<lambda>r xs. xs = [])" by (rule sets_up_resolve) simp
qed auto

lemma cache_in_order:
  assumes q: "quiet_env E"
  shows "in_order (cache_steps E)
    (await (ae_mkdirStorage E) (\<lambda>_.
     let ttl = setting_or (ae_settings E) ''askpassCacheTtl'' (JNum ''8'');
         rotation = setting_or (ae_settings E) ''askpassKeyRotationDays'' (JNum ''7'') in
     await (ae_initCache E ttl rotation) (\<lambda>_.
     await (note_up (CacheReady ttl rotation)) (\<lambda>_.
     case ae_persistent E of
       Inl e \<Rightarrow> reject e
     | Inr persistent \<Rightarrow>
         await (if json_truthy (Some persistent)
                then let days = setting_or (ae_settings E) ''sessionKeyRotationDays'' (JNum ''7'') in
                     await (ae_initSecret E days) (\<lambda>_. note_up (SecretReady days))
                else resolve ()) (\<lambda>_.
         await (note_up FeedReady) (\<lambda>_.
         await (ae_mkdirCache E) (\<lambda>_.
         await (note_up DownloadCacheReady) (\<lambda>_.
           catching (await (ae_registerResolver E) (\<lambda>_. note_up ResolverRegistered)) (\<lambda>_. resolve ())))))))))"
proof -
  have last: "in_order [FeedReady, DownloadCacheReady, ResolverRegistered]
      (await (note_up FeedReady) (\<lambda>_. await (ae_mkdirCache E) (\<lambda>_. await (note_up DownloadCacheReady) (\<lambda>_.
           catching (await (ae_registerResolver E) (\<lambda>_. note_up ResolverRegistered)) (\<lambda>_. resolve ())))))"
    using q by (intro in_order_note in_order_quiet resolver_in_order) (simp_all add: quiet_env_def)
  show ?thesis
  proof (cases "ae_persistent E")
    case (Inl e)
    then have "\<not> (\<exists>q. ae_persistent E = Inr q \<and> json_truthy (Some q))" by simp
    then have c: "cache_steps E = CacheReady (setting_or (ae_settings E) ''askpassCacheTtl'' (JNum ''8''))
        (setting_or (ae_settings E) ''askpassKeyRotationDays'' (JNum ''7'')) # [FeedReady, DownloadCacheReady, ResolverRegistered]"
      by (simp add: cache_steps_def)
    show ?thesis
      unfolding c Inl sum.case Let_def
      using q by (intro in_order_quiet in_order_note sets_up_reject) (simp_all add: quiet_env_def)
  next
    case (Inr p)
    show ?thesis
    proof (cases "json_truthy (Some p)")
      case True
      with Inr have "\<exists>q. ae_persistent E = Inr q \<and> json_truthy (Some q)" by blast
      then have c: "cache_steps E = CacheReady (setting_or (ae_settings E) ''askpassCacheTtl'' (JNum ''8''))
          (setting_or (ae_settings E) ''askpassKeyRotationDays'' (JNum ''7''))
        # SecretReady (setting_or (ae_settings E) ''sessionKeyRotationDays'' (JNum ''7'')) # [FeedReady, DownloadCacheReady, ResolverRegistered]"
        by (simp add: cache_steps_def)
      show ?thesis
        unfolding c Inr sum.case Let_def if_P [OF True] await_assoc
        using q by (intro in_order_quiet in_order_note last) (simp_all add: quiet_env_def)
    next
      case False
      with Inr have "\<not> (\<exists>q. ae_persistent E = Inr q \<and> json_truthy (Some q))" by simp
      then have c: "cache_steps E = CacheReady (setting_or (ae_settings E) ''askpassCacheTtl'' (JNum ''8''))
          (setting_or (ae_settings E) ''askpassKeyRotationDays'' (JNum ''7'')) # [FeedReady, DownloadCacheReady, ResolverRegistered]"
        by (simp add: cache_steps_def)
      show ?thesis
        unfolding c Inr sum.case Let_def if_not_P [OF False] await_resolve
        using q by (intro in_order_quiet in_order_note last) (simp_all add: quiet_env_def)
    qed
  qed
qed

lemma chmod_steps:
  assumes q: "quiet_env E"
  shows "sets_up (if ae_win32 E then resolve () else catching (await (ae_chmod E) (\<lambda>_. note_up AskpassExecutable)) (\<lambda>_. resolve ()))
     (\<lambda>r xs. r = Inr () \<and> xs \<in> {[], [AskpassExecutable]})"
proof (cases "ae_win32 E")
  case False
  have "sets_up (catching (await (ae_chmod E) (\<lambda>_. note_up AskpassExecutable)) (\<lambda>_. resolve ())) (\<lambda>r xs. r = Inr () \<and> xs \<in> {[], [AskpassExecutable]})"
  proof (rule sets_up_catching)
    show "sets_up (await (ae_chmod E) (\<lambda>_. note_up AskpassExecutable))
            (\<lambda>r xs. (\<exists>e. r = Inl e) \<and> xs = [] \<or> xs = [AskpassExecutable] \<and> r = Inr ())"
      by (rule sets_up_await [where P = "\<lambda>r xs. xs = []" and Q = "\<lambda>x r xs. xs = [AskpassExecutable] \<and> r = Inr ()"])
        (use q in \<open>auto simp: quiet_env_def intro: sets_up_note\<close>)
    show "sets_up (resolve ()) (\<lambda>r xs. r = Inr () \<and> xs = [])" by (rule sets_up_resolve) simp
  qed auto
  with False show ?thesis by simp
qed (simp add: sets_up_resolve)

lemma activate_resolver_steps:
  assumes "quiet_env E"
  shows "sets_up (activate_resolver E) (\<lambda>r xs. \<exists>opt ys. opt \<in> {[], [AskpassExecutable]} \<and> xs = opt @ ys \<and> prefix ys (cache_steps E))"
  unfolding activate_resolver_def
  by (rule sets_up_await [OF chmod_steps [OF assms] cache_in_order [OF assms]]) auto

definition captured :: "'x activation_scheme activation_env \<Rightarrow> set_up list" where
  "captured E = (if ae_remoteName E = Some ''ssh-remote'' then [WorkspaceCaptured] else [])"

definition view_steps :: "'x activation_scheme activation_env \<Rightarrow> adapter \<Rightarrow> set_up list" where
  "view_steps E a = [HostCommands] @ captured E @ [DownloadPanel] @ map ConflictCall (snd (conflict_check E a))"

text \<open>Steps that are always there, before others.\<close>

lemma sets_up_then:
  assumes "\<And>w. \<exists>w'. m w = (Inr (), w') \<and> ac_done w' = ac_done w @ xs" and "sets_up (k ()) Q"
  shows "sets_up (await m k) (\<lambda>r zs. \<exists>ys. zs = xs @ ys \<and> Q r ys)"
  unfolding sets_up_def
proof (intro allI impI)
  fix w r w'
  assume a: "await m k w = (r, w')"
  obtain w1 where m: "m w = (Inr (), w1)" "ac_done w1 = ac_done w @ xs" using assms(1) by blast
  with a have "k () w1 = (r, w')" by (simp add: await_def)
  with sets_upD [OF assms(2)] m(2) show "\<exists>zs. ac_done w' = ac_done w @ zs \<and> (\<exists>ys. zs = xs @ ys \<and> Q r ys)" by fastforce
qed

lemma note_always: "\<exists>w'. note_up x w = (Inr (), w') \<and> ac_done w' = ac_done w @ [x]"
  by (simp add: note_up_def)

lemma capture_always: "\<exists>w'. capture E w = (Inr (), w') \<and> ac_done w' = ac_done w @ captured E"
  by (simp add: capture_def captured_def resolve_def note_up_def)

lemma note_all_always: "\<exists>w'. note_all xs w = (Inr (), w') \<and> ac_done w' = ac_done w @ xs"
proof (induction xs arbitrary: w)
  case (Cons x xs)
  from Cons.IH [of "w\<lparr>ac_done := ac_done w @ [x]\<rparr>"] show ?case by (simp add: await_def note_up_def)
qed (simp add: resolve_def)

lemma activate_valid:
  assumes "ae_adapter E = Inr a" and "isValidRuntime (ae_product E) a" and "sets_up
     (if 0 < length (fst (conflict_check E a)) then note_all [ConflictCommand (fst (conflict_check E a)), ConflictWatcher]
      else await (ae_checkArgv E) (\<lambda>needsRestart. if needsRestart then resolve () else activate_resolver E)) Q"
  shows "sets_up (activate E) (\<lambda>r xs. \<exists>ys. xs = view_steps E a @ ys \<and> Q r ys)"
proof -
  have run: "activate E = await (note_up HostCommands) (\<lambda>_. await (capture E) (\<lambda>_. await (note_up DownloadPanel) (\<lambda>_.
      await (note_all (map ConflictCall (snd (conflict_check E a)))) (\<lambda>_.
        if 0 < length (fst (conflict_check E a)) then note_all [ConflictCommand (fst (conflict_check E a)), ConflictWatcher]
        else await (ae_checkArgv E) (\<lambda>needsRestart. if needsRestart then resolve () else activate_resolver E)))))"
    using assms(1,2) by (simp add: activate_def case_prod_beta)
  show ?thesis
    unfolding run
    by (rule sets_up_weaken, rule sets_up_then [OF note_always], rule sets_up_then [OF capture_always], rule sets_up_then [OF note_always],
        rule sets_up_then [OF note_all_always], rule assms(3)) (auto simp: view_steps_def)
qed

lemma no_resolver_in_view: "ResolverRegistered \<notin> set (view_steps E a)"
  by (auto simp: view_steps_def captured_def)

lemma resolver_is_last: "prefix ys (cache_steps E) \<Longrightarrow> ResolverRegistered \<in> set ys \<Longrightarrow> ys = cache_steps E"
proof -
  assume "prefix ys (cache_steps E)" "ResolverRegistered \<in> set ys"
  moreover obtain bs where "cache_steps E = bs @ [ResolverRegistered]" "ResolverRegistered \<notin> set bs"
    by (simp add: cache_steps_def split: if_splits)
  ultimately show ?thesis by (metis prefix_snoc set_mono_prefix subset_iff)
qed

text \<open>From the check of argv.json on.\<close>

abbreviation from_askpass :: "'x activation_scheme activation_env \<Rightarrow> set_up list \<Rightarrow> bool" where
  "from_askpass E xs \<equiv> \<exists>opt ys. opt \<in> {[], [AskpassExecutable]} \<and> xs = opt @ ys \<and> prefix ys (cache_steps E)"

lemma argv_steps:
  assumes q: "quiet_env E"
  shows "sets_up (await (ae_checkArgv E) (\<lambda>b. if b then resolve () else activate_resolver E))
           (\<lambda>r xs. xs = [] \<or> from_askpass E xs \<and> (\<exists>v. fst (ae_checkArgv E v) = Inr False))"
  unfolding sets_up_def
proof (intro allI impI)
  fix w r w'
  assume a: "await (ae_checkArgv E) (\<lambda>b. if b then resolve () else activate_resolver E) w = (r, w')"
  obtain s w1 where s: "ae_checkArgv E w = (s, w1)" by force
  from q have "quiet (ae_checkArgv E)" by (simp add: quiet_env_def)
  from sets_upD [OF this s] have w1: "ac_done w1 = ac_done w" by simp
  show "\<exists>xs. ac_done w' = ac_done w @ xs \<and> (xs = [] \<or> from_askpass E xs \<and> (\<exists>v. fst (ae_checkArgv E v) = Inr False))"
  proof (cases "s = Inr False")
    case True
    with a s have "activate_resolver E w1 = (r, w')" by (simp add: await_def)
    from sets_upD [OF activate_resolver_steps [OF q] this] obtain xs where "ac_done w' = ac_done w1 @ xs" "from_askpass E xs" by blast
    moreover have "fst (ae_checkArgv E w) = Inr False" using s True by simp
    ultimately show ?thesis using w1 by metis
  next
    case False
    with a s w1 show ?thesis by (cases s) (auto simp: await_def resolve_def)
  qed
qed

lemma no_conflict_steps:
  assumes "quiet_env E" and "ae_adapter E = Inr a" and "isValidRuntime (ae_product E) a" and none: "fst (conflict_check E a) = []"
  shows "sets_up (activate E) (\<lambda>r xs. \<exists>ys. xs = view_steps E a @ ys
           \<and> (ys = [] \<or> from_askpass E ys \<and> (\<exists>v. fst (ae_checkArgv E v) = Inr False)))"
  by (rule activate_valid [OF assms(2,3)]) (simp only: none list.size less_irrefl if_False argv_steps [OF assms(1)])

lemma conflict_steps:
  assumes "ae_adapter E = Inr a" and "isValidRuntime (ae_product E) a" and "fst (conflict_check E a) \<noteq> []"
  shows "sets_up (activate E) (\<lambda>r xs. \<exists>ys. xs = view_steps E a @ ys
           \<and> ys = [ConflictCommand (fst (conflict_check E a)), ConflictWatcher])"
  by (rule activate_valid [OF assms(1,2)]) (use assms(3) in \<open>simp del: note_all.simps add: sets_up_note_all\<close>)

lemma invalid_steps: "ae_adapter E = Inr a \<Longrightarrow> \<not> isValidRuntime (ae_product E) a \<Longrightarrow> activate E w = note_up (ErrorShown (wrong_editor (ae_kiro E))) w"
  by (simp add: activate_def)

lemma resolver_whole:
  assumes "from_askpass E ys" and "ResolverRegistered \<in> set ys"
  shows "\<exists>opt. opt \<in> {[], [AskpassExecutable]} \<and> ys = opt @ cache_steps E"
proof -
  from assms(1) obtain opt zs where o: "opt \<in> {[], [AskpassExecutable]}" "ys = opt @ zs" "prefix zs (cache_steps E)" by blast
  with assms(2) have "ResolverRegistered \<in> set zs" by auto
  from resolver_is_last [OF o(3) this] o show ?thesis by blast
qed

section \<open>Properties\<close>

text \<open>The resolver is registered only in the right editor, with no conflicting extension and no restart
  outstanding, and then as the very last step: the host commands, the caches, the session secret when
  the persistent session is on, and the release feed are all ready, in this order. In a wrong editor
  nothing is set up; with a conflict only the views, the context key, the popup and the command that
  explains it.\<close>

theorem resolver_registered_last:
  assumes q: "quiet_env E" and run: "activate E w = (r, w')" and new: "ac_done w = []"
  shows "(ResolverRegistered \<in> set (ac_done w') \<longrightarrow>
            (\<exists>a opt. ae_adapter E = Inr a \<and> isValidRuntime (ae_product E) a \<and> fst (conflict_check E a) = []
               \<and> opt \<in> {[], [AskpassExecutable]} \<and> ac_done w' = view_steps E a @ opt @ cache_steps E
               \<and> (\<exists>v. fst (ae_checkArgv E v) = Inr False)))
       \<and> (\<forall>a. ae_adapter E = Inr a \<and> \<not> isValidRuntime (ae_product E) a \<longrightarrow> ac_done w' = [ErrorShown (wrong_editor (ae_kiro E))])
       \<and> (\<forall>a. ae_adapter E = Inr a \<and> isValidRuntime (ae_product E) a \<and> fst (conflict_check E a) \<noteq> [] \<longrightarrow>
            ac_done w' = view_steps E a @ [ConflictCommand (fst (conflict_check E a)), ConflictWatcher])"
proof (intro conjI allI impI)
  assume res: "ResolverRegistered \<in> set (ac_done w')"
  obtain a where a: "ae_adapter E = Inr a"
    using run res new by (cases "ae_adapter E") (auto simp: activate_def reject_def)
  have valid: "isValidRuntime (ae_product E) a"
    using run res new invalid_steps [OF a] by (cases "isValidRuntime (ae_product E) a") (auto simp: note_up_def)
  have none: "fst (conflict_check E a) = []"
  proof (rule ccontr)
    assume "fst (conflict_check E a) \<noteq> []"
    from sets_upD [OF conflict_steps [OF a valid this] run] new res no_resolver_in_view show False by auto
  qed
  from sets_upD [OF no_conflict_steps [OF q a valid none] run] new obtain ys where ys: "ac_done w' = view_steps E a @ ys"
    "ys = [] \<or> from_askpass E ys \<and> (\<exists>v. fst (ae_checkArgv E v) = Inr False)" by auto
  with res no_resolver_in_view [of E a] have "ResolverRegistered \<in> set ys" by auto
  moreover from this have "ys \<noteq> []" by auto
  ultimately have "\<exists>opt. opt \<in> {[], [AskpassExecutable]} \<and> ys = opt @ cache_steps E" "\<exists>v. fst (ae_checkArgv E v) = Inr False"
    using ys(2) resolver_whole [of ys E] by blast+
  with a valid none ys(1) show "\<exists>a opt. ae_adapter E = Inr a \<and> isValidRuntime (ae_product E) a \<and> fst (conflict_check E a) = []
               \<and> opt \<in> {[], [AskpassExecutable]} \<and> ac_done w' = view_steps E a @ opt @ cache_steps E
               \<and> (\<exists>v. fst (ae_checkArgv E v) = Inr False)" by blast
next
  fix a
  assume "ae_adapter E = Inr a \<and> \<not> isValidRuntime (ae_product E) a"
  with run new invalid_steps [of E a w] show "ac_done w' = [ErrorShown (wrong_editor (ae_kiro E))]" by (auto simp: note_up_def)
next
  fix a
  assume "ae_adapter E = Inr a \<and> isValidRuntime (ae_product E) a \<and> fst (conflict_check E a) \<noteq> []"
  with sets_upD [OF conflict_steps run] new
  show "ac_done w' = view_steps E a @ [ConflictCommand (fst (conflict_check E a)), ConflictWatcher]" by fastforce
qed

definition ready_env :: "activation activation_env" where
  "ready_env =
     \<lparr>ae_kiro = False, ae_vscodium = True, ae_win32 = False, ae_adapter = Inr (VscodiumAdapter VSCODIUM_CONFIG), ae_product = Inr (JObj []),
      ae_remoteName = Some ''ssh-remote'', ae_installed = [], ae_present = \<lambda>_. False, ae_settings = Map.empty,
      ae_persistent = Inr (JBool True), ae_checkArgv = resolve False, ae_chmod = reject type_error, ae_mkdirStorage = resolve (),
      ae_initCache = \<lambda>_ _. resolve (), ae_initSecret = \<lambda>_. resolve (), ae_mkdirCache = resolve (), ae_registerResolver = resolve ()\<rparr>"

lemma quiet_ready: "quiet_env ready_env"
  by (simp add: quiet_env_def ready_env_def sets_up_resolve sets_up_reject)

lemma ready_registers: "ResolverRegistered \<in> set (ac_done (snd (activate ready_env \<lparr>ac_done = []\<rparr>)))"
  by (simp add: activate_def activate_resolver_def ready_env_def isValidRuntime_def conflict_check_def truthy_def capture_def note_up_def
      await_def resolve_def reject_def catching_def json_truthy_def Let_def)

theorem resolver_registered_last_witness:
  "\<exists>opt. opt \<in> {[], [AskpassExecutable]} \<and> ac_done (snd (activate ready_env \<lparr>ac_done = []\<rparr>))
     = [HostCommands, WorkspaceCaptured, DownloadPanel] @ opt
       @ [CacheReady (JNum ''8'') (JNum ''7''), SecretReady (JNum ''7''), FeedReady, DownloadCacheReady, ResolverRegistered]"
proof -
  have a: "ae_adapter ready_env = Inr (VscodiumAdapter VSCODIUM_CONFIG)" by (simp add: ready_env_def)
  have v: "view_steps ready_env (VscodiumAdapter VSCODIUM_CONFIG) = [HostCommands, WorkspaceCaptured, DownloadPanel]"
    by (simp add: view_steps_def captured_def conflict_check_def ready_env_def truthy_def)
  have "cache_steps ready_env = [CacheReady (JNum ''8'') (JNum ''7''), SecretReady (JNum ''7''), FeedReady, DownloadCacheReady, ResolverRegistered]"
    by (simp add: cache_steps_def ready_env_def setting_or_def json_truthy_def)
  with resolver_registered_last [OF quiet_ready prod.collapse [symmetric], of "\<lparr>ac_done = []\<rparr>"] ready_registers a v
  show ?thesis by (auto simp del: insert_iff)
qed

end
