(* ===== verification/ConfigPanel.thy ===== *)
theory ConfigPanel
  imports Platform Checksum
begin

text \<open>
  \<^verbatim>\<open>src/webviews/serverDownloadPanel.ts\<close>: the extension's side of the page on which the server
  download is configured. The world of a panel holds the messages posted to the page and the
  \<^verbatim>\<open>serverDownload\<close> setting; detecting the editor, the network and the URL parser of the
  runtime are operations of \<open>panel_deps\<close>, and so is an error of the settings service. Log
  messages are left out.
\<close>

section \<open>Messages\<close>

text \<open>\<^verbatim>\<open>sd.mode || "auto"\<close> is whatever the settings hold.\<close>

record panel_state =
  ps_forkName :: string
  ps_downloadMode :: json
  ps_currentTemplate :: "string option"
  ps_resolvedUrl :: "string option"
  ps_binaryName :: string
  ps_forkTemplates :: "fork_template list"
  ps_variables :: "(string \<times> string) list"
  ps_checksumMethod :: string
  ps_checksumAlgo :: string
  ps_manifestTemplate :: string
  ps_manifestField :: string
  ps_verifyChecksum :: bool
  ps_onNoChecksum :: string

record test_result =
  tr_ok :: bool
  tr_status :: "nat option"
  tr_statusText :: "string option"
  tr_contentLength :: "string option"
  tr_contentType :: "string option"
  tr_error :: "string option"

datatype panel_message =
    StateMsg panel_state bool
  | ResolvedUrl string "string list" bool bool
  | ResolvedManifestUrl string "string list"
  | ResolveError string
  | ResolveManifestError string
  | TestResultMsg test_result string
  | Applied "string option"
  | ApplyError string "string option"
  | ErrorMsg string

record apply_msg =
  am_template :: string
  am_binaryName :: string
  am_which :: "string option"
  am_mode :: "json option"
  am_checksumMethod :: "string option"
  am_checksumAlgo :: "string option"
  am_manifestTemplate :: "string option"
  am_manifestField :: "string option"
  am_verifyChecksum :: "bool option"
  am_onNoChecksum :: "string option"

datatype page_message =
    GetState
  | ResolveUrl string
  | ResolveManifestUrl string
  | TestUrl string string
  | Apply apply_msg
  | OtherMsg

section \<open>Dependencies\<close>

record url_parts =
  url_protocol :: string
  url_hostname :: string

record test_response =
  tp_status :: nat
  tp_statusText :: string
  tp_contentLength :: "string option"
  tp_contentType :: "string option"

record panel_world =
  pw_posted :: "panel_message list"
  pw_settings :: settings

record 'w panel_deps =
  pd_info :: "('w, string \<times> (string \<Rightarrow> string \<Rightarrow> string \<Rightarrow> string \<Rightarrow> ('w, string \<times> url_type) promise) \<times> product_info) promise"
  pd_product :: "('w, json) promise"
  pd_forkTemplates :: "fork_template list"
  pd_fetch :: "'w fetcher"
  pd_nearest :: "string \<Rightarrow> ('w, string) promise"
  pd_test :: "string \<Rightarrow> ('w, test_response) promise"
  pd_parse :: "string \<Rightarrow> url_parts option"
  pd_updateError :: "js_error option"

definition postMessage :: "panel_message \<Rightarrow> ('x panel_world_scheme, unit) promise" where
  "postMessage m w = (Inr (), w\<lparr>pw_posted := pw_posted w @ [m]\<rparr>)"

section \<open>The document\<close>

text \<open>Four placeholders are filled; the replacement is \<^verbatim>\<open>String.replaceAll\<close>.\<close>

definition getHtml :: "string result \<Rightarrow> string \<Rightarrow> string \<Rightarrow> string \<Rightarrow> string \<Rightarrow> string result" where
  "getHtml document scriptUri styleUri nonce productName =
     map_sum id (\<lambda>html. foldl (\<lambda>s (n, v). js_replace (placeholder n) v s) html
       [(''SCRIPT_URI'', scriptUri), (''STYLE_URI'', styleUri), (''NONCE'', nonce), (''PRODUCT_NAME'', productName)]) document"

section \<open>The state sent to the page\<close>

definition buildVariables :: "('x panel_world_scheme) panel_deps \<Rightarrow> product_info \<Rightarrow> string \<Rightarrow> string
      \<Rightarrow> ('x panel_world_scheme, (string \<times> string) list) promise" where
  "buildVariables D info os arch =
     await (catching (await (pd_product D) (\<lambda>product.
              case json_prop product ''applicationName'' of
                Inl e \<Rightarrow> reject e
              | Inr a \<Rightarrow> resolve (text_or a [])))
            (\<lambda>_. resolve [])) (\<lambda>appName.
     await (if appName = ''code-oss''
            then catching (await (pd_nearest D (version info)) (\<lambda>n. resolve [(''nearestVsCodiumVersion'', Some n)]))
                   (\<lambda>_. resolve [(''nearestVsCodiumVersion'', None)])
            else resolve []) (\<lambda>extra.
       resolve (map (\<lambda>(n, v). (n, nullish v [])) (filter (\<lambda>(n, v). truthy v)
         ([(''commit'', Some (commit info)), (''quality'', Some (quality info)), (''version'', Some (version info)),
           (''release'', Some (release info)), (''productVersion'', productVersion info),
           (''windsurfVersion'', windsurfVersion info), (''ideVersion'', ideVersion info),
           (''os'', Some os), (''arch'', Some arch), (''platform'', Some arch)] @ extra)))))"

definition state_of ::
    "('x panel_world_scheme) panel_deps \<Rightarrow> string \<Rightarrow> product_info \<Rightarrow> settings \<Rightarrow> string option \<Rightarrow> (string \<times> string) list \<Rightarrow> panel_state" where
  "state_of D name info sd url vars =
     \<lparr>ps_forkName = name,
      ps_downloadMode = (if json_truthy (sd ''mode'') then nullish (sd ''mode'') JNull else JStr ''auto''),
      ps_currentTemplate = (let t = trim (string_setting sd ''template'' []) in if t = [] then None else Some t),
      ps_resolvedUrl = url,
      ps_binaryName = string_setting sd ''binaryName'' [],
      ps_forkTemplates = pd_forkTemplates D,
      ps_variables = vars,
      ps_checksumMethod = nullish (checksumMethod info) ''sidecar'',
      ps_checksumAlgo = nullish (checksumAlgo info) [],
      ps_manifestTemplate = nullish (manifestTemplate info) [],
      ps_manifestField = nullish (manifestField info) [],
      ps_verifyChecksum = verifyChecksum info,
      ps_onNoChecksum = onNoChecksum info\<rparr>"

text \<open>The settings are read before the address is resolved; an address that cannot be resolved is left out.\<close>

definition sendState :: "('x panel_world_scheme) panel_deps \<Rightarrow> string \<Rightarrow> string \<Rightarrow> bool \<Rightarrow> ('x panel_world_scheme, unit) promise" where
  "sendState D os arch isFirst =
     await (pd_info D) (\<lambda>(name, getUrl, info) w.
       let sd = pw_settings w in
       await (catching (await (buildServerDownloadUrl (pd_fetch D) (pd_nearest D) getUrl info os arch) (\<lambda>(url, t). resolve (Some url)))
                (\<lambda>_. resolve None)) (\<lambda>url.
       await (buildVariables D info os arch) (\<lambda>vars.
       postMessage (StateMsg (state_of D name info sd url vars) (\<not> isFirst)))) w)"

section \<open>Resolving templates\<close>

definition handleResolveUrl :: "('x panel_world_scheme) panel_deps \<Rightarrow> string \<Rightarrow> string \<Rightarrow> string \<Rightarrow> ('x panel_world_scheme, unit) promise" where
  "handleResolveUrl D template os arch =
     (if trim template = []
      then catching
             (await (pd_info D) (\<lambda>(name, getUrl, info).
              await (buildServerDownloadUrl (pd_fetch D) (pd_nearest D) getUrl info os arch) (\<lambda>(url, t).
                postMessage (ResolvedUrl url [] False False))))
             (\<lambda>err. postMessage (ResolveError (err_message err)))
      else catching
             (await (pd_info D) (\<lambda>(name, getUrl, info).
              await (resolveTemplateUrl (pd_fetch D) (pd_nearest D) template info os arch) (\<lambda>(url, unresolved).
                postMessage (ResolvedUrl url unresolved (has_sub template (placeholder ''cdnVersion''))
                  (has_sub template (placeholder ''nearestVsCodiumVersion''))))))
             (\<lambda>err. postMessage (ResolveError (err_message err))))"

definition handleResolveManifestUrl :: "('x panel_world_scheme) panel_deps \<Rightarrow> string \<Rightarrow> string \<Rightarrow> string \<Rightarrow> ('x panel_world_scheme, unit) promise" where
  "handleResolveManifestUrl D template os arch =
     (if trim template = [] then postMessage (ResolvedManifestUrl [] [])
      else catching
             (await (pd_info D) (\<lambda>(name, getUrl, info).
              await (resolveTemplateUrl (pd_fetch D) (pd_nearest D) template info os arch) (\<lambda>(url, unresolved).
                postMessage (ResolvedManifestUrl url unresolved))))
             (\<lambda>err. postMessage (ResolveManifestError (err_message err))))"

section \<open>Testing an address\<close>

text \<open>\<^verbatim>\<open>/^fe[89ab][0-9a-f]:/i\<close> on a text in lower case.\<close>

fun fe80_form :: "string \<Rightarrow> bool" where
  "fe80_form (f # e # x # h # c # _) =
     (f = CHR ''f'' \<and> e = CHR ''e'' \<and> x \<in> set ''89ab'' \<and> hex_val h \<noteq> None \<and> c = CHR '':'')"
| "fe80_form _ = False"

definition blocked_host :: "string \<Rightarrow> bool" where
  "blocked_host host =
     (host = ''localhost'' \<or> host = ''metadata.google.internal''
      \<or> prefix ''127.'' host \<or> prefix ''10.'' host \<or> prefix ''192.168.'' host \<or> prefix ''169.254.'' host
      \<or> list_ex (\<lambda>n. prefix (''172.'' @ dec n @ ''.'') host) [16..<32]
      \<or> host = ''::1'' \<or> fe80_form host \<or> host = ''[::1]''
      \<or> prefix ''0x'' host \<and> is_hex (drop 2 host)
      \<or> host \<noteq> [] \<and> all_digits host)"

definition validateFetchUrl :: "(string \<Rightarrow> url_parts option) \<Rightarrow> string \<Rightarrow> string + url_parts" where
  "validateFetchUrl parse raw =
     (case parse raw of
        None \<Rightarrow> Inl ''Invalid URL''
      | Some url \<Rightarrow>
          if url_protocol url \<noteq> ''https:'' then Inl ''Only HTTPS URLs are allowed''
          else if blocked_host (to_lower (url_hostname url)) then Inl ''Private/loopback hosts are not allowed''
          else Inr url)"

definition no_result :: test_result where
  "no_result = \<lparr>tr_ok = False, tr_status = None, tr_statusText = None, tr_contentLength = None, tr_contentType = None, tr_error = None\<rparr>"

definition is_tarball :: "string \<Rightarrow> bool" where
  "is_tarball ct = list_ex (has_sub ct)
     [''application/gzip'', ''application/x-gzip'', ''application/x-tar'', ''application/octet-stream'', ''binary/octet-stream'']"

definition test_verdict :: "test_response \<Rightarrow> test_result" where
  "test_verdict res =
     (let ct = nullish (tp_contentType res) [];
          ok = (200 \<le> tp_status res \<and> tp_status res < 300);
          r = no_result\<lparr>tr_status := Some (tp_status res), tr_statusText := Some (tp_statusText res),
                tr_contentLength := tp_contentLength res, tr_contentType := tp_contentType res\<rparr>
      in if ok \<and> is_tarball ct then r\<lparr>tr_ok := True\<rparr>
         else if ok \<and> has_sub ct ''text/html''
         then r\<lparr>tr_error := Some (''Server returned HTML (content-type: '' @ ct @ ''). Likely an error page, not the tarball.'')\<rparr>
         else if ok then r\<lparr>tr_ok := True, tr_error := Some (''Unexpected content-type: '' @ ct)\<rparr>
         else r\<lparr>tr_error := Some (''HTTP '' @ dec (tp_status res) @ '' '' @ tp_statusText res)\<rparr>)"

definition handleTestUrl :: "('x panel_world_scheme) panel_deps \<Rightarrow> string \<Rightarrow> string \<Rightarrow> ('x panel_world_scheme, unit) promise" where
  "handleTestUrl D url which =
     (case validateFetchUrl (pd_parse D) url of
        Inl e \<Rightarrow> postMessage (TestResultMsg (no_result\<lparr>tr_error := Some e\<rparr>) which)
      | Inr validated \<Rightarrow>
          await (catching (await (pd_test D url) (\<lambda>res. resolve (test_verdict res)))
                   (\<lambda>err. resolve (no_result\<lparr>tr_error := Some (err_message err)\<rparr>))) (\<lambda>result.
            postMessage (TestResultMsg result which)))"

section \<open>Applying\<close>

definition applied_settings :: "apply_msg \<Rightarrow> settings" where
  "applied_settings msg =
     (let modeVal = (if json_truthy (am_mode msg) then nullish (am_mode msg) JNull else JStr ''auto'')
      in [''mode'' \<mapsto> modeVal,
          ''template'' \<mapsto> JStr (if modeVal = JStr ''custom'' then trim (am_template msg) else []),
          ''binaryName'' \<mapsto> JStr (trim (am_binaryName msg)),
          ''checksumMethod'' \<mapsto> JStr (nullish (am_checksumMethod msg) ''sidecar''),
          ''checksumAlgo'' \<mapsto> JStr (nullish (am_checksumAlgo msg) []),
          ''manifestTemplate'' \<mapsto> JStr (nullish (map_option trim (am_manifestTemplate msg)) []),
          ''manifestField'' \<mapsto> JStr (nullish (map_option trim (am_manifestField msg)) []),
          ''verifyChecksum'' \<mapsto> JBool (am_verifyChecksum msg \<noteq> Some False),
          ''onNoChecksum'' \<mapsto> JStr (nullish (am_onNoChecksum msg) ''warn'')])"

definition writeSettingsDirect :: "('x panel_world_scheme) panel_deps \<Rightarrow> apply_msg \<Rightarrow> ('x panel_world_scheme, unit) promise" where
  "writeSettingsDirect D msg w =
     (case pd_updateError D of
        Some e \<Rightarrow> (Inl e, w)
      | None \<Rightarrow> (Inr (), w\<lparr>pw_settings := applied_settings msg\<rparr>))"

definition handleApply :: "('x panel_world_scheme) panel_deps \<Rightarrow> apply_msg \<Rightarrow> ('x panel_world_scheme, unit) promise" where
  "handleApply D msg =
     catching (await (writeSettingsDirect D msg) (\<lambda>_. postMessage (Applied (am_which msg))))
       (\<lambda>err. postMessage (ApplyError (err_message err) (am_which msg)))"

section \<open>The message handler\<close>

definition panel_arch :: "string \<Rightarrow> string" where
  "panel_arch processArch = (if processArch = ''arm64'' then ''arm64'' else ''x64'')"

definition report_error :: "('x panel_world_scheme, unit) promise \<Rightarrow> ('x panel_world_scheme, unit) promise" where
  "report_error m = catching m (\<lambda>err. postMessage (ErrorMsg (err_message err)))"

text \<open>\<^verbatim>\<open>firstState\<close> is false before the page can send its first message.\<close>

definition on_page_message :: "('x panel_world_scheme) panel_deps \<Rightarrow> string \<Rightarrow> page_message \<Rightarrow> ('x panel_world_scheme, unit) promise" where
  "on_page_message D processArch m =
     report_error (let os = ''linux''; arch = panel_arch processArch in
       case m of
         ResolveUrl t \<Rightarrow> handleResolveUrl D t os arch
       | ResolveManifestUrl t \<Rightarrow> handleResolveManifestUrl D t os arch
       | TestUrl url which \<Rightarrow> handleTestUrl D url which
       | Apply msg \<Rightarrow> handleApply D msg
       | GetState \<Rightarrow> sendState D os arch False
       | OtherMsg \<Rightarrow> resolve ())"

definition open_panel :: "('x panel_world_scheme) panel_deps \<Rightarrow> string \<Rightarrow> ('x panel_world_scheme, unit) promise" where
  "open_panel D processArch = report_error (sendState D ''linux'' (panel_arch processArch) True)"

section \<open>Lemmas\<close>

text \<open>A dotted IPv4 address, the form that the URL parser gives every IPv4 host.\<close>

definition dotted :: "nat \<Rightarrow> nat \<Rightarrow> nat \<Rightarrow> nat \<Rightarrow> string" where
  "dotted a b c d = dec a @ ''.'' @ dec b @ ''.'' @ dec c @ ''.'' @ dec d"

definition private_ipv4 :: "nat \<Rightarrow> nat \<Rightarrow> bool" where
  "private_ipv4 a b \<longleftrightarrow> a = 127 \<or> a = 10 \<or> a = 192 \<and> b = 168 \<or> a = 169 \<and> b = 254 \<or> a = 172 \<and> 16 \<le> b \<and> b < 32"

lemma dec_no_dot: "CHR ''.'' \<notin> set (dec n)"
  using dec_digits [of n] digit_neq by (auto simp: list_all_iff)

lemma first_part:
  assumes "c \<notin> set x" and "c \<notin> set y"
  shows "x @ c # r = y @ c # s \<longleftrightarrow> x = y \<and> r = s"
  using assms
proof (induction x arbitrary: y)
  case Nil
  then show ?case by (cases y) auto
next
  case (Cons z x)
  then show ?case by (cases y) auto
qed

lemma prefix_part:
  assumes "c \<notin> set x" and "c \<notin> set y"
  shows "prefix (x @ c # r) (y @ c # s) \<longleftrightarrow> x = y \<and> prefix r s"
  using assms
proof (induction x arbitrary: y)
  case Nil
  then show ?case by (cases y) auto
next
  case (Cons z x)
  then show ?case by (cases y) auto
qed

lemma dec_eq [simp]: "dec a = dec b \<longleftrightarrow> a = b"
  by (metis nat_of_digits_dec)

lemma octet_texts: "''127.'' = dec 127 @ ''.''" "''10.'' = dec 10 @ ''.''" "''192.168.'' = dec 192 @ ''.'' @ dec 168 @ ''.''"
    "''169.254.'' = dec 169 @ ''.'' @ dec 254 @ ''.''" "''172.'' = dec 172 @ ''.''"
  by code_simp+

lemma dotted_prefix: "prefix (dec n @ ''.'') (dotted a b c d) \<longleftrightarrow> n = a"
  using prefix_part [OF dec_no_dot dec_no_dot, of n "[]" a] by (simp add: dotted_def)

lemma dotted_prefix2: "prefix (dec n @ ''.'' @ dec m @ ''.'') (dotted a b c d) \<longleftrightarrow> n = a \<and> m = b"
  using prefix_part [OF dec_no_dot dec_no_dot, of n "dec m @ ''.''" a] prefix_part [OF dec_no_dot dec_no_dot, of m "[]" b] by (simp add: dotted_def)

lemma dec_head: "\<exists>x r. dec a = x # r \<and> is_digit x"
  using dec_digits [of a] dec_ne [of a] by (cases "dec a") auto

lemma dotted_other:
  "dotted a b c d \<notin> {''localhost'', ''metadata.google.internal'', ''::1'', ''[::1]''}" "\<not> fe80_form (dotted a b c d)"
  "\<not> (prefix ''0x'' (dotted a b c d) \<and> is_hex (drop 2 (dotted a b c d)))" "\<not> all_digits (dotted a b c d)"
proof -
  obtain x r where x: "dec a = x # r" "is_digit x" using dec_head by blast
  then show "dotted a b c d \<notin> {''localhost'', ''metadata.google.internal'', ''::1'', ''[::1]''}"
    by (auto simp: dotted_def is_digit_def)
  have "x \<noteq> CHR ''f''" using x by (auto simp: is_digit_def)
  with x show "\<not> fe80_form (dotted a b c d)" by (cases "dotted a b c d" rule: fe80_form.cases) (auto simp: dotted_def)
  have "CHR ''x'' \<notin> set (dec a)" using dec_digits [of a] by (auto simp: list_all_iff is_digit_def)
  with x show "\<not> (prefix ''0x'' (dotted a b c d) \<and> is_hex (drop 2 (dotted a b c d)))" by (cases r) (auto simp: dotted_def)
  show "\<not> all_digits (dotted a b c d)" by (simp add: dotted_def all_digits_def is_digit_def)
qed

lemma blocked_dotted: "blocked_host (dotted a b c d) \<longleftrightarrow> private_ipv4 a b"
proof -
  have "prefix (''172.'' @ dec n @ ''.'') (dotted a b c d) \<longleftrightarrow> 172 = a \<and> n = b" for n
    using dotted_prefix2 [of 172 n] by (simp only: octet_texts(5) append_assoc)
  then have "list_ex (\<lambda>n. prefix (''172.'' @ dec n @ ''.'') (dotted a b c d)) [16..<32] \<longleftrightarrow> (\<exists>n \<in> {16..<32}. 172 = a \<and> n = b)"
    by (simp only: list_ex_iff set_upt)
  then have range172: "list_ex (\<lambda>n. prefix (''172.'' @ dec n @ ''.'') (dotted a b c d)) [16..<32] \<longleftrightarrow> a = 172 \<and> 16 \<le> b \<and> b < 32"
    by auto
  have "prefix ''127.'' (dotted a b c d) \<longleftrightarrow> a = 127" "prefix ''10.'' (dotted a b c d) \<longleftrightarrow> a = 10"
    "prefix ''192.168.'' (dotted a b c d) \<longleftrightarrow> a = 192 \<and> b = 168" "prefix ''169.254.'' (dotted a b c d) \<longleftrightarrow> a = 169 \<and> b = 254"
    by (auto simp only: octet_texts dotted_prefix dotted_prefix2)
  with range172 dotted_other [of a b c d] show ?thesis
    unfolding blocked_host_def private_ipv4_def by blast
qed

lemma lower_dotted: "to_lower (dotted a b c d) = dotted a b c d"
proof -
  have "to_lower (dec n) = dec n" for n
    using dec_digits [of n] by (auto simp: to_lower_def list_all_iff lower_char_def is_digit_def intro!: map_idI)
  then show ?thesis by (simp add: dotted_def to_lower_def lower_char_def)
qed

lemma blocked_bracket: "blocked_host (CHR ''['' # h) \<longleftrightarrow> h = ''::1]''"
  by (cases "CHR ''['' # h" rule: fe80_form.cases) (auto simp: blocked_host_def all_digits_def is_digit_def list_ex_iff)

section \<open>Properties\<close>

text \<open>An address is refused for testing when its host is an IPv4 address of the loopback, private or
  link-local ranges, and accepted when it is any other, 0.0.0.0 among them. Of the IPv6 addresses, which a parsed
  address holds in brackets, only \<^verbatim>\<open>[::1]\<close> is refused: the pattern for link-local ones has no bracket, so those and the
  IPv4 loopback addresses mapped into IPv6 pass.\<close>

theorem test_url_guard:
  assumes "parse raw = Some u" and "url_protocol u = ''https:''"
  shows "(url_hostname u = dotted a b c d \<longrightarrow> (validateFetchUrl parse raw = Inr u \<longleftrightarrow> \<not> private_ipv4 a b))
       \<and> (\<forall>h. url_hostname u = CHR ''['' # h \<longrightarrow> (validateFetchUrl parse raw = Inr u \<longleftrightarrow> to_lower h \<noteq> ''::1]''))"
proof -
  have "to_lower (CHR ''['' # h) = CHR ''['' # to_lower h" for h by (simp add: to_lower_def lower_char_def)
  with assms blocked_dotted [of a b c d] show ?thesis by (simp add: validateFetchUrl_def lower_dotted blocked_bracket)
qed

definition fixed_parse :: "string \<Rightarrow> url_parts option" where
  "fixed_parse raw =
     (if raw = ''https://172.31.0.1/x'' then Some \<lparr>url_protocol = ''https:'', url_hostname = dotted 172 31 0 1\<rparr>
      else if raw = ''https://[fe80::1]/x'' then Some \<lparr>url_protocol = ''https:'', url_hostname = ''[fe80::1]''\<rparr> else None)"

theorem test_url_guard_witness:
  "\<not> isl (validateFetchUrl fixed_parse ''https://[fe80::1]/x'')
   \<and> validateFetchUrl fixed_parse ''https://172.31.0.1/x'' \<noteq> Inr \<lparr>url_protocol = ''https:'', url_hostname = dotted 172 31 0 1\<rparr>"
  using test_url_guard [of fixed_parse "''https://[fe80::1]/x''" "\<lparr>url_protocol = ''https:'', url_hostname = ''[fe80::1]''\<rparr>"]
    test_url_guard [of fixed_parse "''https://172.31.0.1/x''" "\<lparr>url_protocol = ''https:'', url_hostname = dotted 172 31 0 1\<rparr>" 172 31 0 1]
  by (simp add: fixed_parse_def private_ipv4_def to_lower_def lower_char_def)

text \<open>Every request to test an address is answered once, whatever the network does, and never by an
  exception: a refused address without any request, and \<^verbatim>\<open>ok\<close> only for a successful response that is a
  tarball by its content type, or at least not an HTML page.\<close>

theorem url_tested_once:
  "\<exists>result w1. handleTestUrl D url which w = (Inr (), w1\<lparr>pw_posted := pw_posted w1 @ [TestResultMsg result which]\<rparr>)
     \<and> w1 = (if isl (validateFetchUrl (pd_parse D) url) then w else snd (pd_test D url w))
     \<and> (tr_ok result \<longleftrightarrow> (\<exists>res. \<not> isl (validateFetchUrl (pd_parse D) url) \<and> fst (pd_test D url w) = Inr res
          \<and> 200 \<le> tp_status res \<and> tp_status res < 300
          \<and> (is_tarball (nullish (tp_contentType res) []) \<or> (has_sub (nullish (tp_contentType res) []) ''text/html'' = False))))"
proof (cases "validateFetchUrl (pd_parse D) url")
  case (Inl e)
  then show ?thesis
    by (intro exI [of _ "no_result\<lparr>tr_error := Some e\<rparr>"] exI [of _ w]) (simp add: handleTestUrl_def postMessage_def no_result_def)
next
  case (Inr v)
  obtain r w1 where r: "pd_test D url w = (r, w1)" by force
  show ?thesis
  proof (cases r)
    case (Inl e)
    with Inr r show ?thesis
      by (intro exI [of _ "no_result\<lparr>tr_error := Some (err_message e)\<rparr>"] exI [of _ w1])
        (simp add: handleTestUrl_def postMessage_def await_def catching_def resolve_def no_result_def)
  next
    case (Inr res)
    with \<open>validateFetchUrl (pd_parse D) url = Inr v\<close> r show ?thesis
      by (intro exI [of _ "test_verdict res"] exI [of _ w1])
        (auto simp: handleTestUrl_def postMessage_def await_def catching_def resolve_def test_verdict_def no_result_def Let_def)
  qed
qed

end
