(* ===== verification/ConfigPage.thy ===== *)
theory ConfigPage
  imports ConfigPanel
begin

text \<open>
  \<^verbatim>\<open>resources/serverDownload/app.js\<close> with the elements of \<^verbatim>\<open>index.html\<close>: the page on which the server
  download is configured. The document is a record of what the code reads and writes: the values
  of the inputs, the texts and the visibility of the other elements, and the messages posted to
  the extension. An exception that leaves a listener ends it where it is and is counted.
\<close>

section \<open>The document\<close>

record url_box =
  ub_text :: string
  ub_hidden :: bool

datatype mode_button = SwitchToCustom | SwitchToAuto

record config_page =
  pg_state :: "panel_state option"
  pg_forkName :: string
  pg_template :: string
  pg_binaryName :: string
  pg_fork :: string
  pg_forks :: "(string \<times> string) list"
  pg_verify :: string
  pg_method :: string
  pg_algo :: string
  pg_manifestTemplate :: string
  pg_manifestField :: string
  pg_onNoChecksum :: string
  pg_auto :: url_box
  pg_preview :: url_box
  pg_sidecar :: url_box
  pg_manifest :: url_box
  pg_sidecarBtn :: bool
  pg_manifestBtn :: bool
  pg_sidecarRow :: bool
  pg_manifestRow :: bool
  pg_badge :: string
  pg_custom :: bool
  pg_autoVisible :: bool
  pg_switch :: mode_button
  pg_forkRow :: bool
  pg_vars :: "(string \<times> string) list"
  pg_status :: "string \<Rightarrow> (bool \<times> string) option"
  pg_testing :: "string \<Rightarrow> bool"
  pg_saving :: bool
  pg_sent :: "page_message list"
  pg_thrown :: nat

text \<open>The elements that the identifiers built at run time can name.\<close>

definition has_status :: "string \<Rightarrow> bool" where
  "has_status which = (which \<in> {''auto'', ''custom'', ''sidecar'', ''manifest'', ''checksum''})"

definition has_test_button :: "string \<Rightarrow> bool" where
  "has_test_button which = (which \<in> {''auto'', ''custom'', ''sidecar'', ''manifest''})"

text \<open>\<^verbatim>\<open>customApplyBtn\<close> never gets a saved label, so only the other button changes its look.\<close>

definition has_saving_button :: "string \<Rightarrow> bool" where
  "has_saving_button which = (which = ''checksum'')"

definition send :: "page_message \<Rightarrow> config_page \<Rightarrow> config_page" where
  "send m p = p\<lparr>pg_sent := pg_sent p @ [m]\<rparr>"

definition throw :: "config_page \<Rightarrow> config_page" where
  "throw p = p\<lparr>pg_thrown := Suc (pg_thrown p)\<rparr>"

text \<open>Assigning to a \<^verbatim>\<open>select\<close> a value that it does not offer leaves it without a selection.\<close>

definition select_value :: "string list \<Rightarrow> string \<Rightarrow> string" where
  "select_value options v = (if v \<in> set options then v else [])"

definition set_method :: "string \<Rightarrow> config_page \<Rightarrow> config_page" where
  "set_method v p = p\<lparr>pg_method := select_value [''sidecar'', ''manifest''] v\<rparr>"

definition set_algo :: "string \<Rightarrow> config_page \<Rightarrow> config_page" where
  "set_algo v p = p\<lparr>pg_algo := select_value [[], ''sha256'', ''md5''] v\<rparr>"

definition set_policy :: "string \<Rightarrow> config_page \<Rightarrow> config_page" where
  "set_policy v p = p\<lparr>pg_onNoChecksum := select_value [''warn'', ''allow'', ''abort''] v\<rparr>"

definition shown_box :: "string \<Rightarrow> url_box" where
  "shown_box t = \<lparr>ub_text = t, ub_hidden = False\<rparr>"

definition no_box :: url_box where
  "no_box = \<lparr>ub_text = [], ub_hidden = True\<rparr>"

text \<open>The document as it is loaded, after the first message has been sent.\<close>

definition new_page :: config_page where
  "new_page =
     \<lparr>pg_state = None, pg_forkName = ''Detecting...'', pg_template = [], pg_binaryName = [], pg_fork = [], pg_forks = [([], ''(pick a fork)'')],
      pg_verify = ''true'', pg_method = ''sidecar'', pg_algo = [], pg_manifestTemplate = [], pg_manifestField = [], pg_onNoChecksum = ''warn'',
      pg_auto = shown_box ''Resolving...'', pg_preview = shown_box ''(empty)'', pg_sidecar = no_box, pg_manifest = no_box,
      pg_sidecarBtn = False, pg_manifestBtn = False, pg_sidecarRow = True, pg_manifestRow = False, pg_badge = ''AUTO'',
      pg_custom = False, pg_autoVisible = False, pg_switch = SwitchToCustom, pg_forkRow = True, pg_vars = [], pg_status = Map.empty,
      pg_testing = \<lambda>_. False, pg_saving = False, pg_sent = [GetState], pg_thrown = 0\<rparr>"

section \<open>Functions\<close>

text \<open>A missing element is \<^verbatim>\<open>null\<close>, and setting its class throws.\<close>

definition showStatus :: "string \<Rightarrow> bool \<Rightarrow> string \<Rightarrow> config_page \<Rightarrow> config_page option" where
  "showStatus which ok msg p = (if has_status which then Some (p\<lparr>pg_status := (pg_status p)(which \<mapsto> (ok, msg))\<rparr>) else None)"

definition clear_status :: "string \<Rightarrow> config_page \<Rightarrow> config_page" where
  "clear_status which p = p\<lparr>pg_status := (pg_status p)(which := None)\<rparr>"

definition testable :: "string \<Rightarrow> bool" where
  "testable url = (url \<noteq> [] \<and> \<not> has_sub url ''${'' \<and> url \<noteq> ''Resolving...'' \<and> url \<noteq> ''(empty)'')"

definition updateSidecarUrl :: "config_page \<Rightarrow> config_page" where
  "updateSidecarUrl p =
     (let p = clear_status ''sidecar'' p;
          downloadUrl = ub_text (if pg_custom p then pg_preview p else pg_auto p)
      in if pg_algo p = [] \<or> \<not> testable downloadUrl then p\<lparr>pg_sidecar := no_box, pg_sidecarBtn := False\<rparr>
         else p\<lparr>pg_sidecar := shown_box (downloadUrl @ ''.'' @ pg_algo p), pg_sidecarBtn := True\<rparr>)"

definition updateManifestUrl :: "config_page \<Rightarrow> config_page" where
  "updateManifestUrl p =
     (let template = trim (pg_manifestTemplate p); p = clear_status ''manifest'' p
      in if template = [] then p\<lparr>pg_manifest := no_box, pg_manifestBtn := False\<rparr>
         else send (ResolveManifestUrl template) (p\<lparr>pg_manifestBtn := True\<rparr>))"

definition updateChecksumMethod :: "config_page \<Rightarrow> config_page" where
  "updateChecksumMethod p =
     (if pg_method p = ''manifest'' then updateManifestUrl (p\<lparr>pg_sidecarRow := False, pg_manifestRow := True\<rparr>)
      else updateSidecarUrl (p\<lparr>pg_sidecarRow := True, pg_manifestRow := False\<rparr>))"

definition updatePreview :: "config_page \<Rightarrow> config_page" where
  "updatePreview p = send (ResolveUrl (pg_template p)) p"

definition renderVars :: "config_page \<Rightarrow> config_page" where
  "renderVars p = p\<lparr>pg_vars :=
     (case pg_state p of None \<Rightarrow> [] | Some s \<Rightarrow> map (\<lambda>(n, v). (placeholder n, v)) (ps_variables s))
     @ (if has_sub (pg_template p) (placeholder ''cdnVersion'') then [(placeholder ''cdnVersion'', ''(fetched on Test)'')] else [])\<rparr>"

text \<open>\<^verbatim>\<open>state?.downloadMode || "auto"\<close>: a mode that is not a text has no \<^verbatim>\<open>toUpperCase\<close>.\<close>

definition current_mode :: "config_page \<Rightarrow> json" where
  "current_mode p =
     (case pg_state p of None \<Rightarrow> JStr ''auto''
      | Some s \<Rightarrow> if json_truthy (Some (ps_downloadMode s)) then ps_downloadMode s else JStr ''auto'')"

definition updateMode :: "config_page \<Rightarrow> config_page option" where
  "updateMode p =
     (case current_mode p of
        JStr mode \<Rightarrow>
          Some (p\<lparr>pg_badge := map upper_char mode, pg_autoVisible := (mode = ''auto''), pg_custom := (mode \<noteq> ''auto''),
                  pg_switch := (if mode = ''auto'' then SwitchToCustom else SwitchToAuto),
                  pg_forkRow := (2 < (case pg_state p of None \<Rightarrow> 0 | Some s \<Rightarrow> length (ps_forkTemplates s)))\<rparr>)
      | _ \<Rightarrow> None)"

definition apply_of :: "json \<Rightarrow> string option \<Rightarrow> config_page \<Rightarrow> apply_msg" where
  "apply_of mode which p =
     \<lparr>am_template = pg_template p, am_binaryName = pg_binaryName p,
      am_which = Some (if truthy which then nullish which [] else json_text mode), am_mode = Some mode,
      am_checksumMethod = Some (pg_method p), am_checksumAlgo = Some (pg_algo p),
      am_manifestTemplate = Some (pg_manifestTemplate p), am_manifestField = Some (pg_manifestField p),
      am_verifyChecksum = Some (pg_verify p = ''true''), am_onNoChecksum = Some (pg_onNoChecksum p)\<rparr>"

definition sendApply :: "json \<Rightarrow> string option \<Rightarrow> config_page \<Rightarrow> config_page" where
  "sendApply mode which p =
     send (Apply (apply_of mode which p)) (if which \<noteq> None \<and> has_saving_button (nullish which []) then p\<lparr>pg_saving := True\<rparr> else p)"

definition restoreApplyBtn :: "string \<Rightarrow> config_page \<Rightarrow> config_page" where
  "restoreApplyBtn which p = (if has_saving_button which then p\<lparr>pg_saving := False\<rparr> else p)"

definition runTest :: "string \<Rightarrow> string \<Rightarrow> config_page \<Rightarrow> config_page" where
  "runTest which url p =
     (if \<not> testable url
      then (case showStatus which False ''No valid URL to test. Resolve the template first.'' p of Some q \<Rightarrow> q | None \<Rightarrow> throw p)
      else send (TestUrl url which) (if has_test_button which then p\<lparr>pg_testing := (pg_testing p)(which := True)\<rparr> else p))"

section \<open>Events\<close>

text \<open>What the user does: clicks, and edits of the inputs with and without a listener.\<close>

datatype page_event =
    TestAuto | TestCustom | TestSidecar | TestManifest | SwitchMode | ApplyCustom | ApplyChecksum | LoadDefaults
  | EditTemplate string | EditMethod string | EditAlgo string | EditManifestTemplate string
  | EditBinaryName string | EditManifestField string | EditVerify string | EditPolicy string | PickFork string

definition mode_is_custom :: "config_page \<Rightarrow> bool" where
  "mode_is_custom p = (\<exists>s. pg_state p = Some s \<and> ps_downloadMode s = JStr ''custom'')"

definition load_template :: "fork_template \<Rightarrow> config_page \<Rightarrow> config_page" where
  "load_template f p =
     (set_algo (nullish (t_checksumAlgo f) []) (set_method (nullish (t_checksumMethod f) ''sidecar'') p))
       \<lparr>pg_manifestTemplate := nullish (t_manifestTemplate f) [], pg_manifestField := nullish (t_manifestField f) []\<rparr>"

definition load_defaults :: "config_page \<Rightarrow> config_page" where
  "load_defaults p =
     (case Option.bind (pg_state p) (\<lambda>s. find (\<lambda>f. t_id f = pg_fork p) (ps_forkTemplates s)) of
        None \<Rightarrow> p
      | Some f \<Rightarrow>
          (let p1 = load_template f (if t_template f \<noteq> [] then p\<lparr>pg_template := t_template f\<rparr> else p);
               p2 = renderVars (updatePreview (updateChecksumMethod p1))
           in case showStatus ''custom'' True (''Loaded defaults from '' @ t_name f @ ''.'') p2 of Some q \<Rightarrow> q | None \<Rightarrow> throw p2))"

fun on_user :: "page_event \<Rightarrow> config_page \<Rightarrow> config_page" where
  "on_user TestAuto p = runTest ''auto'' (ub_text (pg_auto p)) p"
| "on_user TestCustom p = runTest ''custom'' (ub_text (pg_preview p)) p"
| "on_user TestSidecar p = runTest ''sidecar'' (ub_text (pg_sidecar p)) p"
| "on_user TestManifest p = runTest ''manifest'' (ub_text (pg_manifest p)) p"
| "on_user SwitchMode p = sendApply (JStr (if mode_is_custom p then ''auto'' else ''custom'')) (Some ''mode-switch'') p"
| "on_user ApplyCustom p = sendApply (JStr ''custom'') None p"
| "on_user ApplyChecksum p = sendApply (current_mode p) (Some ''checksum'') p"
| "on_user LoadDefaults p = load_defaults p"
| "on_user (EditTemplate t) p = renderVars (updatePreview (p\<lparr>pg_template := t\<rparr>))"
| "on_user (EditMethod v) p = updateChecksumMethod (set_method v p)"
| "on_user (EditAlgo v) p = updateSidecarUrl (set_algo v p)"
| "on_user (EditManifestTemplate t) p = updateManifestUrl (p\<lparr>pg_manifestTemplate := t\<rparr>)"
| "on_user (EditBinaryName t) p = p\<lparr>pg_binaryName := t\<rparr>"
| "on_user (EditManifestField t) p = p\<lparr>pg_manifestField := t\<rparr>"
| "on_user (EditVerify v) p = p\<lparr>pg_verify := select_value [''true'', ''false''] v\<rparr>"
| "on_user (EditPolicy v) p = set_policy v p"
| "on_user (PickFork v) p = p\<lparr>pg_fork := select_value (map fst (pg_forks p)) v\<rparr>"

section \<open>Messages from the extension\<close>

definition fork_of_state :: "panel_state \<Rightarrow> fork_template option" where
  "fork_of_state s =
     (case find (\<lambda>f. t_name f = ps_forkName s \<or> prefix (ps_forkName s @ '' '') (t_name f)) (ps_forkTemplates s) of
        Some f \<Rightarrow> Some f
      | None \<Rightarrow> (case ps_forkTemplates s of [] \<Rightarrow> None | f # _ \<Rightarrow> Some f))"

text \<open>What the inputs show of a new state.\<close>

definition show_template :: "panel_state \<Rightarrow> config_page \<Rightarrow> config_page" where
  "show_template s p =
     (if truthy (ps_currentTemplate s) then p\<lparr>pg_template := nullish (ps_currentTemplate s) []\<rparr>
      else (case fork_of_state s of
              None \<Rightarrow> p
            | Some f \<Rightarrow> if t_template f = [] then p else load_template f (p\<lparr>pg_template := t_template f\<rparr>)))"

definition show_checksums :: "panel_state \<Rightarrow> config_page \<Rightarrow> config_page" where
  "show_checksums s p =
     (let p = set_method (or_else (ps_checksumMethod s) ''sidecar'') p;
          p = (if ps_checksumAlgo s \<noteq> [] then set_algo (ps_checksumAlgo s) p else p);
          p = (if ps_manifestTemplate s \<noteq> [] then p\<lparr>pg_manifestTemplate := ps_manifestTemplate s\<rparr> else p);
          p = (if ps_manifestField s \<noteq> [] then p\<lparr>pg_manifestField := ps_manifestField s\<rparr> else p);
          p = p\<lparr>pg_verify := (if ps_verifyChecksum s then ''true'' else ''false'')\<rparr>
      in set_policy (or_else (ps_onNoChecksum s) ''warn'') p)"

definition show_inputs :: "panel_state \<Rightarrow> config_page \<Rightarrow> config_page" where
  "show_inputs s p =
     (let p = p\<lparr>pg_state := Some s, pg_forkName := or_else (ps_forkName s) ''(unknown)''\<rparr>;
          p = (if ps_binaryName s \<noteq> [] then p\<lparr>pg_binaryName := ps_binaryName s\<rparr> else p);
          p = p\<lparr>pg_fork := [], pg_forks := ([], ''(pick a fork)'') # map (\<lambda>f. (t_id f, t_name f)) (ps_forkTemplates s)\<rparr>;
          p = show_template s p;
          p = (if truthy (ps_resolvedUrl s)
               then p\<lparr>pg_auto := shown_box (nullish (ps_resolvedUrl s) []), pg_preview := shown_box (nullish (ps_resolvedUrl s) [])\<rparr> else p)
      in show_checksums s p)"

definition on_state :: "panel_state \<Rightarrow> config_page \<Rightarrow> config_page" where
  "on_state s p =
     (let p = renderVars (updatePreview (show_inputs s p))
      in case updateMode p of None \<Rightarrow> throw p | Some q \<Rightarrow> updateChecksumMethod q)"

definition resolved_text :: "string \<Rightarrow> string list \<Rightarrow> string" where
  "resolved_text url unresolved =
     (if unresolved \<noteq> [] then url @ [CHR 0x0A, CHR 0x0A] @ ''Unresolved: '' @ js_join '', '' unresolved else url)"

definition test_text :: "(string \<Rightarrow> string) \<Rightarrow> test_result \<Rightarrow> string" where
  "test_text mb r =
     (let number = (case tr_status r of None \<Rightarrow> ''undefined'' | Some n \<Rightarrow> dec n)
      in if tr_ok r
         then ''OK - HTTP '' @ number
                @ (if truthy (tr_contentLength r) then '' ('' @ mb (nullish (tr_contentLength r) []) @ '' MB)'' else [])
                @ (if truthy (tr_contentType r) then '' ['' @ nullish (tr_contentType r) [] @ '']'' else [])
                @ (if truthy (tr_error r) then CHR 0x0A # nullish (tr_error r) [] else [])
         else (if truthy (tr_error r) then nullish (tr_error r) [] else ''HTTP '' @ number @ '' '' @ nullish (tr_statusText r) [])
                @ (if truthy (tr_contentType r) then '' [content-type: '' @ nullish (tr_contentType r) [] @ '']'' else []))"

definition status_or_throw :: "string \<Rightarrow> bool \<Rightarrow> string \<Rightarrow> (config_page \<Rightarrow> config_page) \<Rightarrow> config_page \<Rightarrow> config_page" where
  "status_or_throw which ok text next_step p = (case showStatus which ok text p of None \<Rightarrow> throw p | Some q \<Rightarrow> next_step q)"

definition which_or_custom :: "string option \<Rightarrow> string" where
  "which_or_custom which = (if truthy which then nullish which [] else ''custom'')"

definition on_applied :: "string \<Rightarrow> config_page \<Rightarrow> config_page" where
  "on_applied which p =
     (let finish = (\<lambda>q. send GetState (restoreApplyBtn which q))
      in if which = ''mode-switch''
         then (if mode_is_custom p then status_or_throw ''auto'' True ''Switched to auto.'' finish p
               else status_or_throw ''custom'' True ''Switched to custom.'' finish p)
         else if which = ''checksum'' then status_or_throw ''checksum'' True ''Checksum settings saved.'' finish p
         else status_or_throw ''custom'' True ''Settings saved.'' finish p)"

fun on_message :: "(string \<Rightarrow> string) \<Rightarrow> panel_message \<Rightarrow> config_page \<Rightarrow> config_page" where
  "on_message mb (StateMsg s refresh) p = on_state s p"
| "on_message mb (ResolvedUrl url unresolved cdn nearest) p =
     updateSidecarUrl (if url \<noteq> [] then p\<lparr>pg_preview := shown_box (resolved_text url unresolved)\<rparr> else p)"
| "on_message mb (ResolveError e) p =
     updateSidecarUrl (if e \<noteq> [] then p\<lparr>pg_preview := shown_box (''Error: '' @ e)\<rparr> else p)"
| "on_message mb (ResolvedManifestUrl url unresolved) p =
     (if url \<noteq> [] then p\<lparr>pg_manifest := shown_box (resolved_text url unresolved)\<rparr> else p)"
| "on_message mb (ResolveManifestError e) p = (if e \<noteq> [] then p\<lparr>pg_manifest := shown_box (''Error: '' @ e)\<rparr> else p)"
| "on_message mb (TestResultMsg r which) p =
     (let which = (if which = [] then ''custom'' else which);
          q = (if has_test_button which then p\<lparr>pg_testing := (pg_testing p)(which := False)\<rparr> else p)
      in status_or_throw which (tr_ok r) (test_text mb r) (\<lambda>q. q) q)"
| "on_message mb (Applied which) p = on_applied (which_or_custom which) p"
| "on_message mb (ApplyError e which) p =
     status_or_throw (which_or_custom which) False (''Save failed: '' @ e) (restoreApplyBtn (which_or_custom which)) p"
| "on_message mb (ErrorMsg e) p = p"

section \<open>Inputs of the page\<close>

datatype page_input = User page_event | Message panel_message

text \<open>What a user can choose, and what the types of the messages allow.\<close>

definition event_possible :: "page_event \<Rightarrow> bool" where
  "event_possible e =
     (case e of
        EditMethod v \<Rightarrow> v \<in> {''sidecar'', ''manifest''}
      | EditAlgo v \<Rightarrow> v \<in> {[], ''sha256'', ''md5''}
      | EditVerify v \<Rightarrow> v \<in> {''true'', ''false''}
      | EditPolicy v \<Rightarrow> v \<in> {''warn'', ''allow'', ''abort''}
      | _ \<Rightarrow> True)"

definition template_typed :: "fork_template \<Rightarrow> bool" where
  "template_typed f \<longleftrightarrow> method_type (t_checksumMethod f) \<and> algo_type (t_checksumAlgo f)"

definition state_typed :: "panel_state \<Rightarrow> bool" where
  "state_typed s \<longleftrightarrow> ps_checksumMethod s \<in> {''sidecar'', ''manifest''} \<and> ps_checksumAlgo s \<in> {[], ''sha256'', ''md5''}
     \<and> ps_onNoChecksum s \<in> {''warn'', ''allow'', ''abort''} \<and> list_all template_typed (ps_forkTemplates s)"

definition input_possible :: "page_input \<Rightarrow> bool" where
  "input_possible x =
     (case x of User e \<Rightarrow> event_possible e | Message (StateMsg s refresh) \<Rightarrow> state_typed s | Message _ \<Rightarrow> True)"

definition page_step :: "(string \<Rightarrow> string) \<Rightarrow> config_page \<Rightarrow> page_input \<Rightarrow> config_page" where
  "page_step mb p x =
     (if \<not> input_possible x then p else case x of User e \<Rightarrow> on_user e p | Message m \<Rightarrow> on_message mb m p)"

section \<open>Lemmas\<close>

text \<open>The selections are always among the options, and the address beside the sidecar button is a testable
  address with the name of an algorithm.\<close>

definition selections_ok :: "config_page \<Rightarrow> bool" where
  "selections_ok p \<longleftrightarrow> pg_method p \<in> {''sidecar'', ''manifest''} \<and> pg_algo p \<in> {[], ''sha256'', ''md5''}
     \<and> pg_onNoChecksum p \<in> {''warn'', ''allow'', ''abort''} \<and> pg_verify p \<in> {''true'', ''false''}
     \<and> (\<forall>s. pg_state p = Some s \<longrightarrow> list_all template_typed (ps_forkTemplates s))"

definition sidecar_ok :: "config_page \<Rightarrow> bool" where
  "sidecar_ok p \<longleftrightarrow> pg_sidecarBtn p = (\<not> ub_hidden (pg_sidecar p))
     \<and> (pg_sidecarBtn p \<longrightarrow> (\<exists>url a. testable url \<and> a \<in> {''sha256'', ''md5''} \<and> ub_text (pg_sidecar p) = url @ ''.'' @ a))"

definition page_ok :: "config_page \<Rightarrow> bool" where
  "page_ok p \<longleftrightarrow> selections_ok p \<and> sidecar_ok p"

named_theorems page_defs

lemmas [page_defs] = send_def throw_def set_method_def set_algo_def set_policy_def select_value_def shown_box_def no_box_def clear_status_def
  updatePreview_def renderVars_def sendApply_def restoreApplyBtn_def Let_def

lemma ok_update_sidecar: "selections_ok p \<Longrightarrow> page_ok (updateSidecarUrl p)"
  by (auto simp: page_ok_def selections_ok_def sidecar_ok_def updateSidecarUrl_def page_defs)

lemma ok_update_manifest: "page_ok p \<Longrightarrow> page_ok (updateManifestUrl p)"
  by (auto simp: page_ok_def selections_ok_def sidecar_ok_def updateManifestUrl_def page_defs)

lemma ok_fields:
  "page_ok (p\<lparr>pg_template := t\<rparr>) = page_ok p" "page_ok (p\<lparr>pg_binaryName := t\<rparr>) = page_ok p"
  "page_ok (p\<lparr>pg_manifestTemplate := t\<rparr>) = page_ok p" "page_ok (p\<lparr>pg_manifestField := t\<rparr>) = page_ok p"
  "page_ok (p\<lparr>pg_fork := t\<rparr>) = page_ok p" "page_ok (p\<lparr>pg_forks := ts\<rparr>) = page_ok p" "page_ok (p\<lparr>pg_forkName := t\<rparr>) = page_ok p"
  "page_ok (p\<lparr>pg_auto := b\<rparr>) = page_ok p" "page_ok (p\<lparr>pg_preview := b\<rparr>) = page_ok p" "page_ok (p\<lparr>pg_manifest := b\<rparr>) = page_ok p"
  "page_ok (p\<lparr>pg_sidecarRow := b1, pg_manifestRow := b2\<rparr>) = page_ok p" "page_ok (p\<lparr>pg_status := st\<rparr>) = page_ok p"
  "page_ok (p\<lparr>pg_testing := te\<rparr>) = page_ok p" "page_ok (p\<lparr>pg_saving := b3\<rparr>) = page_ok p"
  "page_ok (send m p) = page_ok p" "page_ok (throw p) = page_ok p" "page_ok (renderVars p) = page_ok p" "page_ok (updatePreview p) = page_ok p"
  "page_ok (restoreApplyBtn which p) = page_ok p" "page_ok (sendApply mode w p) = page_ok p"
  by (simp_all add: page_ok_def selections_ok_def sidecar_ok_def page_defs)

lemma ok_selections: "page_ok p \<Longrightarrow> selections_ok p"
  by (simp add: page_ok_def)

lemma ok_method: "page_ok p \<Longrightarrow> v \<in> {''sidecar'', ''manifest''} \<Longrightarrow> page_ok (set_method v p)"
  by (auto simp: page_ok_def selections_ok_def sidecar_ok_def page_defs)

lemma ok_algo: "page_ok p \<Longrightarrow> page_ok (set_algo v p)"
  by (auto simp: page_ok_def selections_ok_def sidecar_ok_def page_defs)

lemma ok_policy: "page_ok p \<Longrightarrow> v \<in> {''warn'', ''allow'', ''abort''} \<Longrightarrow> page_ok (set_policy v p)"
  by (auto simp: page_ok_def selections_ok_def sidecar_ok_def page_defs)

lemma ok_verify: "page_ok p \<Longrightarrow> v \<in> {''true'', ''false''} \<Longrightarrow> page_ok (p\<lparr>pg_verify := v\<rparr>)"
  by (auto simp: page_ok_def selections_ok_def sidecar_ok_def)

lemma ok_checksum_method: "page_ok p \<Longrightarrow> page_ok (updateChecksumMethod p)"
  unfolding updateChecksumMethod_def
  by (auto simp: ok_fields intro!: ok_update_manifest ok_update_sidecar ok_selections)

lemma ok_load: "page_ok p \<Longrightarrow> template_typed f \<Longrightarrow> page_ok (load_template f p)"
  unfolding load_template_def
  by (auto simp: ok_fields template_typed_def method_type_def intro!: ok_algo ok_method)

lemma ok_status: "page_ok p \<Longrightarrow> (\<And>q. page_ok q \<Longrightarrow> page_ok (k q)) \<Longrightarrow> page_ok (status_or_throw which b t k p)"
  by (auto simp: status_or_throw_def showStatus_def ok_fields)

lemma ok_run_test: "page_ok p \<Longrightarrow> page_ok (runTest which url p)"
  by (auto simp: runTest_def showStatus_def ok_fields split: option.splits)

lemma find_typed: "list_all P xs \<Longrightarrow> find Q xs = Some x \<Longrightarrow> P x"
  by (auto simp: list_all_iff find_Some_iff)

lemma ok_load_defaults:
  assumes ok: "page_ok p"
  shows "page_ok (load_defaults p)"
proof (cases "Option.bind (pg_state p) (\<lambda>s. find (\<lambda>f. t_id f = pg_fork p) (ps_forkTemplates s))")
  case (Some f)
  then obtain s where s: "pg_state p = Some s" "find (\<lambda>f. t_id f = pg_fork p) (ps_forkTemplates s) = Some f" by (auto simp: bind_eq_Some_conv)
  from ok s(1) have "list_all template_typed (ps_forkTemplates s)" by (simp add: page_ok_def selections_ok_def)
  then have t: "template_typed f" using s(2) by (rule find_typed)
  have "page_ok (load_template f (if t_template f \<noteq> [] then p\<lparr>pg_template := t_template f\<rparr> else p))"
    using ok t by (intro ok_load) (simp_all add: ok_fields)
  with Some show ?thesis
    by (auto simp: load_defaults_def Let_def showStatus_def has_status_def ok_fields ok_checksum_method)
qed (simp add: load_defaults_def ok)

lemma ok_user: "page_ok p \<Longrightarrow> event_possible e \<Longrightarrow> page_ok (on_user e p)"
proof (cases e)
  case (EditMethod v)
  assume "page_ok p" "event_possible e"
  with EditMethod show ?thesis by (simp add: event_possible_def ok_checksum_method ok_method)
next
  case (EditVerify v)
  assume "page_ok p" "event_possible e"
  with EditVerify ok_verify [of p v] show ?thesis by (auto simp: event_possible_def select_value_def)
next
  case (EditPolicy v)
  assume "page_ok p" "event_possible e"
  with EditPolicy show ?thesis by (simp add: event_possible_def ok_policy)
qed (simp_all add: ok_fields ok_run_test ok_load_defaults ok_algo ok_update_sidecar ok_selections ok_update_manifest)

lemma ok_new_state:
  assumes "page_ok p" and "state_typed s"
  shows "page_ok (p\<lparr>pg_state := Some s\<rparr>)"
  using assms by (simp add: page_ok_def selections_ok_def sidecar_ok_def state_typed_def)

lemma ok_show_template:
  assumes "page_ok p" and "state_typed s"
  shows "page_ok (show_template s p)"
proof -
  have "template_typed f" if "fork_of_state s = Some f" for f
    using that assms(2) find_typed [of template_typed "ps_forkTemplates s"]
    by (auto simp: fork_of_state_def state_typed_def split: option.splits list.splits)
  with assms(1) show ?thesis by (auto simp: show_template_def ok_fields ok_load split: option.splits)
qed

lemma ok_if: "page_ok p \<Longrightarrow> (b \<Longrightarrow> page_ok q) \<Longrightarrow> page_ok (if b then q else p)"
  by simp

lemma ok_show_checksums:
  assumes "page_ok p" and "state_typed s"
  shows "page_ok (show_checksums s p)"
proof -
  have m: "or_else (ps_checksumMethod s) ''sidecar'' \<in> {''sidecar'', ''manifest''}"
    and pol: "or_else (ps_onNoChecksum s) ''warn'' \<in> {''warn'', ''allow'', ''abort''}"
    using assms(2) by (auto simp: state_typed_def or_else_def)
  have v: "(if ps_verifyChecksum s then ''true'' else ''false'') \<in> {''true'', ''false''}" by simp
  have field: "page_ok q \<Longrightarrow> page_ok (q\<lparr>pg_manifestTemplate := t\<rparr>)" "page_ok q \<Longrightarrow> page_ok (q\<lparr>pg_manifestField := t\<rparr>)" for q t
    by (simp_all add: ok_fields)
  show ?thesis
    unfolding show_checksums_def Let_def
    by (intro ok_policy ok_verify ok_if ok_method ok_algo field assms(1) m pol v)
qed

lemma ok_show_inputs: "page_ok p \<Longrightarrow> state_typed s \<Longrightarrow> page_ok (show_inputs s p)"
  unfolding show_inputs_def Let_def
  by (intro ok_show_checksums) (auto simp: ok_fields intro!: ok_show_template ok_new_state)

lemma ok_mode:
  assumes "page_ok p" and "updateMode p = Some q"
  shows "page_ok q"
proof (cases "current_mode p")
  case (JStr m)
  with assms(2) have "q = p\<lparr>pg_badge := map upper_char m, pg_autoVisible := (m = ''auto''), pg_custom := (m \<noteq> ''auto''),
      pg_switch := (if m = ''auto'' then SwitchToCustom else SwitchToAuto),
      pg_forkRow := (2 < (case pg_state p of None \<Rightarrow> 0 | Some s \<Rightarrow> length (ps_forkTemplates s)))\<rparr>"
    by (simp add: updateMode_def)
  with assms(1) show ?thesis by (simp add: page_ok_def selections_ok_def sidecar_ok_def)
qed (use assms(2) in \<open>simp_all add: updateMode_def\<close>)

lemma ok_on_state:
  assumes "page_ok p" and "state_typed s"
  shows "page_ok (on_state s p)"
proof -
  let ?p = "renderVars (updatePreview (show_inputs s p))"
  have ok: "page_ok ?p" using ok_show_inputs [OF assms] by (simp only: ok_fields)
  show ?thesis
  proof (cases "updateMode ?p")
    case None
    with ok show ?thesis by (simp add: on_state_def Let_def ok_fields)
  next
    case (Some q)
    with ok_checksum_method [OF ok_mode [OF ok Some]] show ?thesis by (simp add: on_state_def Let_def)
  qed
qed

lemma ok_message: "page_ok p \<Longrightarrow> input_possible (Message m) \<Longrightarrow> page_ok (on_message mb m p)"
  by (cases m)
    (auto simp: input_possible_def ok_on_state ok_fields on_applied_def Let_def intro!: ok_update_sidecar ok_selections ok_status)

interpretation config_page: machine "page_step mb" page_ok for mb
proof unfold_locales
  fix p x
  assume "page_ok p"
  then show "page_ok (page_step mb p x)"
    using ok_user ok_message by (auto simp: page_step_def input_possible_def split: page_input.splits)
qed

lemma ok_new_page: "page_ok new_page"
  by (simp add: page_ok_def selections_ok_def sidecar_ok_def new_page_def no_box_def)

text \<open>What the settings written for a page mean.\<close>

lemma trim_twice: "trim (trim s) = trim s"
  by (rule trim_trimmed [OF trimmed_trim])

lemma merge_applied:
  assumes "selections_ok p" and "m \<noteq> []"
  shows "mergeServerDownloadConfig raw d (applied_settings (apply_of (JStr m) which p)) =
     \<lparr>commit = raw_commit raw, quality = raw_quality raw, version = raw_version raw, release = or_else (raw_version raw) (raw_commit raw),
      productVersion = raw_productVersion raw, windsurfVersion = raw_windsurfVersion raw, ideVersion = raw_ideVersion raw,
      serverApplicationName = or_else (trim (pg_binaryName p)) (raw_serverApplicationName raw),
      serverDataFolderName = raw_serverDataFolderName raw,
      serverDownloadUrlTemplate = (if m = ''custom'' \<and> trim (pg_template p) \<noteq> [] then Some (trim (pg_template p)) else None),
      checksumMethod = Some (pg_method p),
      checksumAlgo = (if pg_algo p = [] then Option.bind d def_checksumAlgo else Some (pg_algo p)),
      manifestTemplate = or_default (trim (pg_manifestTemplate p)) (Option.bind d def_manifestTemplate),
      manifestField = or_default (trim (pg_manifestField p)) (Option.bind d def_manifestField),
      verifyChecksum = (pg_verify p = ''true''), onNoChecksum = pg_onNoChecksum p\<rparr>"
proof -
  let ?sd = "applied_settings (apply_of (JStr m) which p)"
  have get: "string_setting ?sd ''mode'' ''auto'' = m" "string_setting ?sd ''template'' [] = (if m = ''custom'' then trim (pg_template p) else [])"
    "string_setting ?sd ''binaryName'' [] = trim (pg_binaryName p)" "string_setting ?sd ''checksumMethod'' [] = pg_method p"
    "string_setting ?sd ''checksumAlgo'' [] = pg_algo p" "string_setting ?sd ''manifestTemplate'' [] = trim (pg_manifestTemplate p)"
    "string_setting ?sd ''manifestField'' [] = trim (pg_manifestField p)" "string_setting ?sd ''onNoChecksum'' ''warn'' = pg_onNoChecksum p"
    "?sd ''verifyChecksum'' = Some (JBool (pg_verify p = ''true''))"
    using assms(2) by (simp_all add: applied_settings_def apply_of_def string_setting_def json_string_def json_truthy_def Let_def)
  have sel: "pg_method p = ''sidecar'' \<or> pg_method p = ''manifest''"
    "(if pg_algo p = ''sha256'' \<or> pg_algo p = ''md5'' then Some (pg_algo p) else e) = (if pg_algo p = [] then e else Some (pg_algo p))"
    "(if pg_onNoChecksum p = ''allow'' \<or> pg_onNoChecksum p = ''abort'' then pg_onNoChecksum p else ''warn'') = pg_onNoChecksum p" for e
    using assms(1) unfolding selections_ok_def by auto
  have "(Some (JBool (pg_verify p = ''true'')) \<noteq> Some (JBool False)) = (pg_verify p = ''true'')" by simp
  moreover have "(m = ''custom'' \<and> trim (if m = ''custom'' then trim (pg_template p) else []) \<noteq> []) = (m = ''custom'' \<and> trim (pg_template p) \<noteq> [])"
    by (simp add: trim_twice)
  moreover have "(if m = ''custom'' \<and> trim (pg_template p) \<noteq> [] then Some (trim (if m = ''custom'' then trim (pg_template p) else [])) else None)
      = (if m = ''custom'' \<and> trim (pg_template p) \<noteq> [] then Some (trim (pg_template p)) else None)"
    by (simp add: trim_twice)
  ultimately show ?thesis
    by (simp only: mergeServerDownloadConfig_def Let_def get trim_twice sel if_True)
qed

text \<open>The inputs that an applied configuration is made of; what follows the inputs of a new state leaves them.\<close>

definition inputs :: "config_page \<Rightarrow> string list" where
  "inputs p = [pg_template p, pg_binaryName p, pg_method p, pg_algo p, pg_manifestTemplate p, pg_manifestField p, pg_verify p, pg_onNoChecksum p]"

lemma inputs_apply: "inputs p = inputs q \<Longrightarrow> apply_of m which p = apply_of m which q"
  by (simp add: inputs_def apply_of_def)

lemma inputs_simps [simp]:
  "inputs (throw p) = inputs p" "inputs (renderVars p) = inputs p" "inputs (updatePreview p) = inputs p"
  "inputs (updateSidecarUrl p) = inputs p" "inputs (updateManifestUrl p) = inputs p"
  by (simp_all add: inputs_def updateSidecarUrl_def updateManifestUrl_def page_defs)

lemma inputs_checksum_method [simp]: "inputs (updateChecksumMethod p) = inputs p"
  by (simp add: updateChecksumMethod_def) (simp add: inputs_def)

lemma inputs_mode: "updateMode p = Some q \<Longrightarrow> inputs q = inputs p"
  by (cases "current_mode p") (auto simp: updateMode_def inputs_def)

lemma inputs_state: "inputs (on_state s p) = inputs (show_inputs s p)"
  by (auto simp: on_state_def Let_def split: option.splits dest: inputs_mode)

lemma state_kept:
  "pg_state (updateSidecarUrl p) = pg_state p" "pg_state (updateManifestUrl p) = pg_state p" "pg_state (updateChecksumMethod p) = pg_state p"
  "pg_state (renderVars p) = pg_state p" "pg_state (updatePreview p) = pg_state p" "pg_state (throw p) = pg_state p"
  "pg_state (show_checksums s p) = pg_state p" "pg_state (show_template s p) = pg_state p" "updateMode p = Some q \<Longrightarrow> pg_state q = pg_state p"
  by (auto simp: updateSidecarUrl_def updateManifestUrl_def updateChecksumMethod_def show_checksums_def show_template_def load_template_def
      updateMode_def page_defs split: option.splits json.splits)

lemma state_shown: "pg_state (on_state s p) = Some s"
proof -
  have "pg_state (show_inputs s p) = Some s" by (simp add: show_inputs_def Let_def state_kept)
  then show ?thesis by (auto simp: on_state_def Let_def state_kept split: option.splits)
qed

text \<open>The template that the page picks for an editor has the checksum source of the editor's adapter.\<close>

definition known_adapter :: "adapter \<Rightarrow> bool" where
  "known_adapter a \<longleftrightarrow> a = KiroAdapter \<or> (\<exists>f \<in> known_forks. a = VscodiumAdapter f)"

definition own_template :: "adapter \<Rightarrow> fork_template option" where
  "own_template a = find (\<lambda>t. t_name t = adapter_name a \<or> prefix (adapter_name a @ '' '') (t_name t)) FORK_TEMPLATES"

definition same_source :: "checksum_defaults option \<Rightarrow> fork_template \<Rightarrow> bool" where
  "same_source d t \<longleftrightarrow> t_checksumAlgo t = Option.bind d def_checksumAlgo \<and> t_manifestTemplate t = Option.bind d def_manifestTemplate
     \<and> t_manifestField t = Option.bind d def_manifestField"

lemma own_template_source:
  assumes "known_adapter a"
  shows "\<exists>t. own_template a = Some t \<and> same_source (adapter_checksums a) t"
  using assms unfolding known_adapter_def known_forks_def
  by (elim disjE bexE insertE emptyE)
    (simp_all add: own_template_def FORK_TEMPLATES_def sidecar_template_def plain_template_def adapter_name_def same_source_def
      adapter_checksums_def getChecksumConfig_def no_checksum_def VSCODIUM_CONFIG_def VSCODE_OSS_CONFIG_def TRAE_CONFIG_def
      DEVIN_CONFIG_def ANTIGRAVITY_CONFIG_def QODER_CONFIG_def BOB_CONFIG_def)

text \<open>The inputs of a page that is shown its first state.\<close>

lemma shown_template:
  assumes "ps_forkTemplates s = FORK_TEMPLATES" and "ps_forkName s = adapter_name a" and "known_adapter a"
    and d: "d = adapter_checksums a"
  shows "pg_algo (show_template s q) \<in> {pg_algo q, select_value [[], ''sha256'', ''md5''] (nullish (Option.bind d def_checksumAlgo) [])}
       \<and> pg_manifestTemplate (show_template s q) \<in> {pg_manifestTemplate q, nullish (Option.bind d def_manifestTemplate) []}
       \<and> pg_manifestField (show_template s q) \<in> {pg_manifestField q, nullish (Option.bind d def_manifestField) []}
       \<and> pg_binaryName (show_template s q) = pg_binaryName q"
proof -
  from own_template_source [OF assms(3)] obtain t where t: "own_template a = Some t" "same_source (adapter_checksums a) t" by blast
  then have "fork_of_state s = Some t" using assms(1,2) by (simp add: fork_of_state_def own_template_def)
  with t(2) show ?thesis unfolding d by (simp add: show_template_def load_template_def same_source_def page_defs)
qed

lemma shown_checksums:
  "pg_method (show_checksums s q) = select_value [''sidecar'', ''manifest''] (or_else (ps_checksumMethod s) ''sidecar'')"
  "pg_algo (show_checksums s q) = (if ps_checksumAlgo s \<noteq> [] then select_value [[], ''sha256'', ''md5''] (ps_checksumAlgo s) else pg_algo q)"
  "pg_manifestTemplate (show_checksums s q) = or_else (ps_manifestTemplate s) (pg_manifestTemplate q)"
  "pg_manifestField (show_checksums s q) = or_else (ps_manifestField s) (pg_manifestField q)"
  "pg_verify (show_checksums s q) = (if ps_verifyChecksum s then ''true'' else ''false'')"
  "pg_onNoChecksum (show_checksums s q) = select_value [''warn'', ''allow'', ''abort''] (or_else (ps_onNoChecksum s) ''warn'')"
  "pg_binaryName (show_checksums s q) = pg_binaryName q"
  by (simp_all add: show_checksums_def set_method_def set_algo_def set_policy_def Let_def or_else_def)

lemma shown_inputs:
  assumes "ps_forkTemplates s = FORK_TEMPLATES" and "ps_forkName s = adapter_name a" and "known_adapter a" and "d = adapter_checksums a"
  shows "pg_binaryName (show_inputs s new_page) = ps_binaryName s"
    "pg_method (show_inputs s new_page) = select_value [''sidecar'', ''manifest''] (or_else (ps_checksumMethod s) ''sidecar'')"
    "pg_verify (show_inputs s new_page) = (if ps_verifyChecksum s then ''true'' else ''false'')"
    "pg_onNoChecksum (show_inputs s new_page) = select_value [''warn'', ''allow'', ''abort''] (or_else (ps_onNoChecksum s) ''warn'')"
    "ps_checksumAlgo s \<noteq> [] \<Longrightarrow> pg_algo (show_inputs s new_page) = select_value [[], ''sha256'', ''md5''] (ps_checksumAlgo s)"
    "ps_checksumAlgo s = [] \<Longrightarrow> pg_algo (show_inputs s new_page) \<in> {[], select_value [[], ''sha256'', ''md5''] (nullish (Option.bind d def_checksumAlgo) [])}"
    "ps_manifestTemplate s \<noteq> [] \<Longrightarrow> pg_manifestTemplate (show_inputs s new_page) = ps_manifestTemplate s"
    "ps_manifestTemplate s = [] \<Longrightarrow> pg_manifestTemplate (show_inputs s new_page) \<in> {[], nullish (Option.bind d def_manifestTemplate) []}"
    "ps_manifestField s \<noteq> [] \<Longrightarrow> pg_manifestField (show_inputs s new_page) = ps_manifestField s"
    "ps_manifestField s = [] \<Longrightarrow> pg_manifestField (show_inputs s new_page) \<in> {[], nullish (Option.bind d def_manifestField) []}"
proof -
  obtain q where q: "pg_algo q = []" "pg_manifestTemplate q = []" "pg_manifestField q = []" "pg_binaryName q = ps_binaryName s"
    and run: "\<exists>b1 b2. show_inputs s new_page = show_checksums s ((show_template s q)\<lparr>pg_auto := b1, pg_preview := b2\<rparr>)"
  proof
    let ?p = "new_page\<lparr>pg_state := Some s, pg_forkName := or_else (ps_forkName s) ''(unknown)''\<rparr>"
    let ?q = "(if ps_binaryName s \<noteq> [] then ?p\<lparr>pg_binaryName := ps_binaryName s\<rparr> else ?p)
       \<lparr>pg_fork := [], pg_forks := ([], ''(pick a fork)'') # map (\<lambda>f. (t_id f, t_name f)) (ps_forkTemplates s)\<rparr>"
    show "pg_algo ?q = []" "pg_manifestTemplate ?q = []" "pg_manifestField ?q = []" "pg_binaryName ?q = ps_binaryName s"
      by (simp_all add: new_page_def)
    have same: "r = r\<lparr>pg_auto := pg_auto r, pg_preview := pg_preview r\<rparr>" for r :: config_page by simp
    show "\<exists>b1 b2. show_inputs s new_page = show_checksums s ((show_template s ?q)\<lparr>pg_auto := b1, pg_preview := b2\<rparr>)"
      unfolding show_inputs_def Let_def by (cases "truthy (ps_resolvedUrl s)") (auto intro: same [THEN arg_cong])
  qed
  from run obtain b1 b2 where r: "show_inputs s new_page = show_checksums s ((show_template s q)\<lparr>pg_auto := b1, pg_preview := b2\<rparr>)" by blast
  note t = shown_template [OF assms, of q, unfolded q]
  show "pg_binaryName (show_inputs s new_page) = ps_binaryName s"
    "pg_method (show_inputs s new_page) = select_value [''sidecar'', ''manifest''] (or_else (ps_checksumMethod s) ''sidecar'')"
    "pg_verify (show_inputs s new_page) = (if ps_verifyChecksum s then ''true'' else ''false'')"
    "pg_onNoChecksum (show_inputs s new_page) = select_value [''warn'', ''allow'', ''abort''] (or_else (ps_onNoChecksum s) ''warn'')"
    using t by (simp_all add: r shown_checksums)
  show "ps_checksumAlgo s \<noteq> [] \<Longrightarrow> pg_algo (show_inputs s new_page) = select_value [[], ''sha256'', ''md5''] (ps_checksumAlgo s)"
    "ps_checksumAlgo s = [] \<Longrightarrow> pg_algo (show_inputs s new_page) \<in> {[], select_value [[], ''sha256'', ''md5''] (nullish (Option.bind d def_checksumAlgo) [])}"
    "ps_manifestTemplate s \<noteq> [] \<Longrightarrow> pg_manifestTemplate (show_inputs s new_page) = ps_manifestTemplate s"
    "ps_manifestTemplate s = [] \<Longrightarrow> pg_manifestTemplate (show_inputs s new_page) \<in> {[], nullish (Option.bind d def_manifestTemplate) []}"
    "ps_manifestField s \<noteq> [] \<Longrightarrow> pg_manifestField (show_inputs s new_page) = ps_manifestField s"
    "ps_manifestField s = [] \<Longrightarrow> pg_manifestField (show_inputs s new_page) \<in> {[], nullish (Option.bind d def_manifestField) []}"
    using t by (simp_all add: r shown_checksums or_else_def)
qed

lemma defaults_ok: "defaults_typed (adapter_checksums a)"
  by (simp add: defaults_typed_def adapter_checksums_def getChecksumConfig_def no_checksum_def algo_type_def method_type_def split: adapter.split)

text \<open>The adapters' manifest settings are not empty and have no white space around them.\<close>

lemma default_manifest:
  "Option.bind (adapter_checksums a) def_manifestTemplate = Some t \<Longrightarrow> trim t = t \<and> t \<noteq> []"
  "Option.bind (adapter_checksums a) def_manifestField = Some t \<Longrightarrow> trim t = t \<and> t \<noteq> []"
  by (auto simp: adapter_checksums_def getChecksumConfig_def no_checksum_def trim_no_space is_space_def split: adapter.splits if_splits)

text \<open>A value of the merged configuration, shown, trimmed and merged again.\<close>

lemma or_default_again:
  assumes d: "\<And>t. d = Some t \<Longrightarrow> trim t = t \<and> t \<noteq> []" and e: "e = or_default (trim u) d"
    and shown: "nullish e [] \<noteq> [] \<Longrightarrow> x = nullish e []" "nullish e [] = [] \<Longrightarrow> x \<in> {[], nullish d []}"
  shows "or_default (trim x) d = e"
proof (cases "nullish e [] = []")
  case False
  with shown(1) have "x = nullish e []" "x \<noteq> []" by simp_all
  with e d show ?thesis by (cases "trim u = []"; cases d) (auto simp: or_default_def trim_twice)
next
  case True
  then have "trim u = []" "d = None" using e d by (auto simp: or_default_def split: if_splits) (cases d; auto)
  with True e shown(2) show ?thesis by (auto simp: or_default_def)
qed

text \<open>A configuration, shown to a new page and applied as it is.\<close>

lemma merge_shown:
  assumes a: "known_adapter a" and auto: "sd ''mode'' \<in> {None, Some (JStr ''auto'')}" and D: "pd_forkTemplates D = FORK_TEMPLATES"
    and m: "m = mergeServerDownloadConfig raw (adapter_checksums a) sd"
    and info: "checksumMethod info = checksumMethod m" "checksumAlgo info = checksumAlgo m" "manifestTemplate info = manifestTemplate m"
      "manifestField info = manifestField m" "verifyChecksum info = verifyChecksum m" "onNoChecksum info = onNoChecksum m"
    and p: "p = on_state (state_of D (adapter_name a) info sd url vars) new_page"
  shows "mergeServerDownloadConfig raw (adapter_checksums a) (applied_settings (apply_of (JStr ''auto'') which p))
       = m\<lparr>checksumMethod := Some (nullish (checksumMethod m) ''sidecar'')\<rparr>"
proof -
  let ?d = "adapter_checksums a" and ?s = "state_of D (adapter_name a) info sd url vars"
  have typed: "info_typed m" unfolding m by (rule merged_typed [OF defaults_ok, THEN conjunct1])
  then have ty: "checksumMethod m \<in> {None, Some ''sidecar'', Some ''manifest''}" "checksumAlgo m \<in> {None, Some ''sha256'', Some ''md5''}"
    "onNoChecksum m \<in> {''warn'', ''allow'', ''abort''}" by (simp_all add: info_typed_def method_type_def algo_type_def)
  have s: "ps_forkTemplates ?s = FORK_TEMPLATES" "ps_forkName ?s = adapter_name a" "ps_binaryName ?s = string_setting sd ''binaryName'' []"
    "ps_checksumMethod ?s = nullish (checksumMethod m) ''sidecar''" "ps_checksumAlgo ?s = nullish (checksumAlgo m) []"
    "ps_manifestTemplate ?s = nullish (manifestTemplate m) []" "ps_manifestField ?s = nullish (manifestField m) []"
    "ps_verifyChecksum ?s = verifyChecksum m" "ps_onNoChecksum ?s = onNoChecksum m"
    by (simp_all add: state_of_def D info)
  have "list_all template_typed FORK_TEMPLATES"
    by (simp add: FORK_TEMPLATES_def sidecar_template_def plain_template_def template_typed_def method_type_def algo_type_def)
  then have "state_typed ?s" using ty s by (auto simp: state_typed_def)
  from ok_on_state [OF ok_new_page this] have sel: "selections_ok p" by (simp add: p page_ok_def)
  note shown = shown_inputs [OF s(1,2) a refl, unfolded s]
  have same: "pg_binaryName p = pg_binaryName (show_inputs ?s new_page)" "pg_method p = pg_method (show_inputs ?s new_page)"
    "pg_algo p = pg_algo (show_inputs ?s new_page)" "pg_manifestTemplate p = pg_manifestTemplate (show_inputs ?s new_page)"
    "pg_manifestField p = pg_manifestField (show_inputs ?s new_page)" "pg_verify p = pg_verify (show_inputs ?s new_page)"
    "pg_onNoChecksum p = pg_onNoChecksum (show_inputs ?s new_page)"
    using inputs_state [of ?s new_page] by (simp_all add: inputs_def p)
  have manifest: "or_default (trim (pg_manifestTemplate p)) (Option.bind ?d def_manifestTemplate) = manifestTemplate m"
    "or_default (trim (pg_manifestField p)) (Option.bind ?d def_manifestField) = manifestField m"
    using shown(7-10) default_manifest [of a]
    by (auto intro!: or_default_again simp: same, auto simp: m mergeServerDownloadConfig_def Let_def)
  have algo: "(if pg_algo p = [] then Option.bind ?d def_checksumAlgo else Some (pg_algo p)) = checksumAlgo m"
  proof (cases "checksumAlgo m")
    case None
    then have "Option.bind ?d def_checksumAlgo = None" by (simp add: m mergeServerDownloadConfig_def Let_def split: if_splits)
    with None shown(6) show ?thesis by (simp add: same select_value_def)
  next
    case (Some x)
    with shown(5) ty(2) show ?thesis by (auto simp: same select_value_def)
  qed
  have rest: "pg_method p = nullish (checksumMethod m) ''sidecar''" "pg_onNoChecksum p = onNoChecksum m"
    "(pg_verify p = ''true'') = verifyChecksum m" "pg_binaryName p = string_setting sd ''binaryName'' []"
    using shown(1-4) ty(1,3) by (auto simp: same select_value_def or_else_def)
  have mode: "string_setting sd ''mode'' ''auto'' = ''auto''" using auto by (auto simp: string_setting_def json_string_def)
  have ne: "''auto'' \<noteq> []" by simp
  show ?thesis
    unfolding merge_applied [OF sel ne] algo manifest rest
    by (rule product_info.equality) (simp_all add: m mergeServerDownloadConfig_def Let_def mode)
qed

lemma product_info_merged:
  assumes "getProductInfo (Inr v) a sd = Inr info"
  shows "info = with_product_template v (mergeServerDownloadConfig (raw_product_of v a) (adapter_checksums a) sd)" "v \<noteq> JNull"
  using assms by (auto simp: getProductInfo_def split: if_splits)

lemma with_template_checksums:
  "checksumMethod (with_product_template v m) = checksumMethod m" "checksumAlgo (with_product_template v m) = checksumAlgo m"
  "manifestTemplate (with_product_template v m) = manifestTemplate m" "manifestField (with_product_template v m) = manifestField m"
  "verifyChecksum (with_product_template v m) = verifyChecksum m" "onNoChecksum (with_product_template v m) = onNoChecksum m"
  "with_product_template v (m\<lparr>checksumMethod := x\<rparr>) = (with_product_template v m)\<lparr>checksumMethod := x\<rparr>"
  by (simp_all add: with_product_template_def split: option.splits)

lemma resolve_method: "resolveTemplateUrl f n t (info\<lparr>checksumMethod := x\<rparr>) os arch = resolveTemplateUrl f n t info os arch"
  by (simp add: resolveTemplateUrl_def substituteTemplate_def template_values_def)

lemma manifest_method: "manifest_checksum f n (info\<lparr>checksumMethod := x\<rparr>) os arch = manifest_checksum f n info os arch"
  by (simp add: manifest_checksum_def resolve_method case_prod_beta cong: if_cong)

lemma method_irrelevant:
  "fetchExpectedChecksum fetchFn nearest downloadUrl (info\<lparr>checksumMethod := Some (nullish (checksumMethod info) ''sidecar'')\<rparr>) os arch
     = fetchExpectedChecksum fetchFn nearest downloadUrl info os arch"
proof -
  have "(nullish (checksumMethod info) ''sidecar'' = ''manifest'') = (checksumMethod info = Some ''manifest'')"
    by (cases "checksumMethod info") simp_all
  then show ?thesis by (simp add: fetchExpectedChecksum_def manifest_method cong: if_cong)
qed

section \<open>Properties\<close>

text \<open>C30. What the user has chosen on the page is what the server is downloaded and verified with, after any
  sequence of edits, clicks and messages: once the settings are written, the configuration read back from
  them has the template in custom mode and none in automatic mode, and the binary name, the
  checksum source, the verification and the policy of the page; the editor's adapter fills in only
  what is left empty. The page is told once.\<close>

theorem choices_take_effect:
  assumes "pd_updateError D = None" and "mode = ''auto'' \<or> mode = ''custom''" and "p = foldl (page_step mb) new_page xs"
    and "handleApply D (apply_of (JStr mode) which p) w = (r, w')" and "info = mergeServerDownloadConfig raw d (pw_settings w')"
  shows "r = Inr () \<and> pw_posted w' = pw_posted w @ [Applied (am_which (apply_of (JStr mode) which p))]
       \<and> serverDownloadUrlTemplate info = (if mode = ''custom'' \<and> trim (pg_template p) \<noteq> [] then Some (trim (pg_template p)) else None)
       \<and> serverApplicationName info = or_else (trim (pg_binaryName p)) (raw_serverApplicationName raw)
       \<and> checksumMethod info = Some (pg_method p)
       \<and> checksumAlgo info = (if pg_algo p = [] then Option.bind d def_checksumAlgo else Some (pg_algo p))
       \<and> manifestTemplate info = or_default (trim (pg_manifestTemplate p)) (Option.bind d def_manifestTemplate)
       \<and> manifestField info = or_default (trim (pg_manifestField p)) (Option.bind d def_manifestField)
       \<and> verifyChecksum info = (pg_verify p = ''true'') \<and> onNoChecksum info = pg_onNoChecksum p"
proof -
  have "selections_ok p" using config_page.inv_run [OF ok_new_page] by (simp add: assms(3) page_ok_def)
  moreover have "mode \<noteq> []" using assms(2) by auto
  moreover have "r = Inr ()" "pw_posted w' = pw_posted w @ [Applied (am_which (apply_of (JStr mode) which p))]"
    "pw_settings w' = applied_settings (apply_of (JStr mode) which p)"
    using assms(1,4) by (auto simp: handleApply_def writeSettingsDirect_def await_def catching_def postMessage_def)
  ultimately show ?thesis by (simp add: assms(5) merge_applied)
qed

definition demo_deps :: "panel_world panel_deps" where
  "demo_deps =
     \<lparr>pd_info = reject type_error, pd_product = resolve JNull, pd_forkTemplates = FORK_TEMPLATES, pd_fetch = \<lambda>_. reject type_error,
      pd_nearest = \<lambda>_. reject type_error, pd_test = \<lambda>_. reject type_error, pd_parse = \<lambda>_. None, pd_updateError = None\<rparr>"

definition demo_choices :: "page_input list" where
  "demo_choices = [User (EditTemplate '' https://x/y ''), User (EditAlgo ''md5''), User (EditPolicy ''abort'')]"

lemma demo_page: "foldl (page_step (\<lambda>s. s)) new_page demo_choices =
   new_page\<lparr>pg_template := '' https://x/y '', pg_algo := ''md5'', pg_onNoChecksum := ''abort'', pg_sent := [GetState, ResolveUrl '' https://x/y ''],
     pg_vars := [], pg_sidecar := no_box, pg_sidecarBtn := False, pg_status := Map.empty\<rparr>"
  by (simp add: demo_choices_def page_step_def input_possible_def event_possible_def page_defs new_page_def updateSidecarUrl_def testable_def
      has_sub_def placeholder_def)

theorem choices_take_effect_witness:
  "let w' = snd (handleApply demo_deps (apply_of (JStr ''custom'') None (foldl (page_step (\<lambda>s. s)) new_page demo_choices))
              \<lparr>pw_posted = [], pw_settings = Map.empty\<rparr>);
       info = mergeServerDownloadConfig (raw_product_of vscodium_product KiroAdapter) None (pw_settings w')
   in serverDownloadUrlTemplate info = Some (trim '' https://x/y '') \<and> checksumAlgo info = Some ''md5'' \<and> onNoChecksum info = ''abort''"
proof -
  have t: "trim '' https://x/y '' \<noteq> []" by code_simp
  have "pd_updateError demo_deps = None" by (simp add: demo_deps_def)
  from choices_take_effect [where mode = "''custom''" and mb = "\<lambda>s. s" and xs = demo_choices and which = None and d = None
      and w = "\<lparr>pw_posted = [], pw_settings = Map.empty\<rparr>" and raw = "raw_product_of vscodium_product KiroAdapter",
      OF this _ refl prod.collapse [symmetric] refl] t
  show ?thesis by (simp add: Let_def demo_page)
qed

text \<open>Pressing Apply in the checksum section of a page that was only opened changes nothing in effect: in
  automatic mode, for every editor the adapters know, the configuration read back is the one
  before, except that the checksum method is now written down, which finds the same checksum.\<close>

theorem unchanged_apply_keeps_config:
  assumes "known_adapter a" and "getProductInfo (Inr v) a sd = Inr info" and "sd ''mode'' \<in> {None, Some (JStr ''auto'')}"
    and "pd_forkTemplates D = FORK_TEMPLATES" and "p = on_state (state_of D (adapter_name a) info sd url vars) new_page"
  shows "\<exists>msg info'. last (pg_sent (on_user ApplyChecksum p)) = Apply msg \<and> getProductInfo (Inr v) a (applied_settings msg) = Inr info'
       \<and> info' = info\<lparr>checksumMethod := Some (nullish (checksumMethod info) ''sidecar'')\<rparr>
       \<and> fetchExpectedChecksum fetchFn nearest downloadUrl info' os arch = fetchExpectedChecksum fetchFn nearest downloadUrl info os arch"
proof -
  note i = product_info_merged [OF assms(2)]
  let ?s = "state_of D (adapter_name a) info sd url vars"
  have "ps_downloadMode ?s = JStr ''auto''" using assms(3) by (auto simp: state_of_def json_truthy_def)
  then have mode: "current_mode p = JStr ''auto''" by (simp add: current_mode_def assms(5) state_shown json_truthy_def)
  let ?msg = "apply_of (JStr ''auto'') (Some ''checksum'') p"
  have "last (pg_sent (on_user ApplyChecksum p)) = Apply ?msg" by (simp add: mode sendApply_def send_def)
  moreover have "getProductInfo (Inr v) a (applied_settings ?msg) = Inr (info\<lparr>checksumMethod := Some (nullish (checksumMethod info) ''sidecar'')\<rparr>)"
    using merge_shown [OF assms(1,3,4) refl with_template_checksums(1-6) assms(5) [unfolded i(1)], of "Some ''checksum''"] i(2)
    by (simp add: getProductInfo_def with_template_checksums i(1))
  ultimately show ?thesis using method_irrelevant by blast
qed

theorem unchanged_apply_keeps_config_witness:
  "\<exists>msg info'. last (pg_sent (on_user ApplyChecksum (on_state (state_of demo_deps ''Kiro''
       (with_product_template vscodium_product (mergeServerDownloadConfig (raw_product_of vscodium_product KiroAdapter) None Map.empty))
       Map.empty None []) new_page))) = Apply msg
     \<and> getProductInfo (Inr vscodium_product) KiroAdapter (applied_settings msg) = Inr info' \<and> checksumMethod info' = Some ''sidecar''"
proof -
  let ?info = "with_product_template vscodium_product (mergeServerDownloadConfig (raw_product_of vscodium_product KiroAdapter) None Map.empty)"
  have k: "known_adapter KiroAdapter" "pd_forkTemplates demo_deps = FORK_TEMPLATES" by (simp_all add: known_adapter_def demo_deps_def)
  have i: "getProductInfo (Inr vscodium_product) KiroAdapter Map.empty = Inr ?info"
    by (simp add: getProductInfo_def vscodium_product_def adapter_checksums_def)
  have "checksumMethod ?info = None" by (simp add: with_template_checksums mergeServerDownloadConfig_def Let_def string_setting_def json_string_def)
  moreover have n: "adapter_name KiroAdapter = ''Kiro''" by (simp add: adapter_name_def)
  ultimately show ?thesis
    using unchanged_apply_keeps_config [OF k(1) i _ k(2) refl, of None "[]" "pd_fetch demo_deps" "pd_nearest demo_deps" "[]" "[]" "[]"]
    unfolding n by (metis insertI1 nullish_simps(1) product_info.select_convs(11) product_info.surjective product_info.update_convs(11))
qed

text \<open>When the settings cannot be written, an Apply button says so, but a failed change of the mode goes
  unnoticed: the page looks for a status line that does not exist, the exception ends the listener, and all that
  the user sees stays as it was.\<close>

theorem failed_switch_unreported:
  assumes "pd_updateError D = Some e" and "last (pg_sent (on_user ev p)) = Apply msg" and "handleApply D msg w = (r, w')"
  shows "pw_settings w' = pw_settings w
       \<and> (ev = SwitchMode \<longrightarrow> on_message mb (last (pw_posted w')) (on_user ev p) = throw (on_user ev p) \<and> pg_status (on_user ev p) = pg_status p)
       \<and> (ev = ApplyChecksum \<longrightarrow> pg_status (on_message mb (last (pw_posted w')) (on_user ev p)) ''checksum'' = Some (False, ''Save failed: '' @ err_message e))
       \<and> (ev = ApplyCustom \<longrightarrow> pg_status (on_message mb (last (pw_posted w')) (on_user ev p)) ''custom'' = Some (False, ''Save failed: '' @ err_message e))"
proof -
  have w': "last (pw_posted w') = ApplyError (err_message e) (am_which msg)" "pw_settings w' = pw_settings w"
    using assms(1,3) by (auto simp: handleApply_def writeSettingsDirect_def await_def catching_def postMessage_def)
  have msg: "ev = SwitchMode \<Longrightarrow> am_which msg = Some ''mode-switch''" "ev = ApplyChecksum \<Longrightarrow> am_which msg = Some ''checksum''"
    "ev = ApplyCustom \<Longrightarrow> am_which msg = Some ''custom''"
    using assms(2) by (auto simp: sendApply_def send_def apply_of_def)
  show ?thesis
    using msg by (auto simp: w' which_or_custom_def status_or_throw_def showStatus_def has_status_def restoreApplyBtn_def sendApply_def send_def)
qed

theorem failed_switch_unreported_witness:
  "on_message (\<lambda>s. s) (ApplyError (err_message type_error) (Some ''mode-switch'')) (on_user SwitchMode new_page) = throw (on_user SwitchMode new_page)"
proof -
  let ?D = "demo_deps\<lparr>pd_updateError := Some type_error\<rparr>" and ?w = "\<lparr>pw_posted = [], pw_settings = Map.empty\<rparr>"
  have h: "handleApply ?D m ?w = (Inr (), ?w\<lparr>pw_posted := [ApplyError (err_message type_error) (am_which m)]\<rparr>)" for m
    by (simp add: handleApply_def writeSettingsDirect_def await_def catching_def postMessage_def)
  have "last (pg_sent (on_user SwitchMode new_page)) = Apply (apply_of (JStr ''custom'') (Some ''mode-switch'') new_page)"
    by (simp add: sendApply_def send_def mode_is_custom_def new_page_def)
  from failed_switch_unreported [OF _ this h, of type_error] show ?thesis by (simp add: apply_of_def)
qed

text \<open>Replies carry no sign of the request they answer, so the preview shows whichever arrives last: the
  address of an earlier template can replace that of the template in the field, and the sidecar address, which
  is tested, follows the preview; what is applied is the field.\<close>

theorem late_reply_shown:
  assumes "pg_custom p" and "testable u" and "pg_algo p \<noteq> []"
  shows "let q = on_message mb (ResolvedUrl u [] c1 n1) (on_message mb (ResolvedUrl v unresolved c2 n2)
                   (on_user (EditTemplate t2) (on_user (EditTemplate t1) p)))
         in pg_template q = t2 \<and> ub_text (pg_preview q) = u \<and> ub_text (pg_sidecar q) = u @ ''.'' @ pg_algo p \<and> pg_sidecarBtn q
            \<and> (\<exists>msg. last (pg_sent (on_user ApplyCustom q)) = Apply msg \<and> am_template msg = t2)"
proof -
  have "u \<noteq> []" using assms(2) by (simp add: testable_def)
  with assms show ?thesis
    by (simp add: Let_def updateSidecarUrl_def updatePreview_def renderVars_def send_def clear_status_def shown_box_def resolved_text_def
        sendApply_def apply_of_def no_box_def)
qed

theorem late_reply_shown_witness:
  "ub_text (pg_preview (on_message (\<lambda>s. s) (ResolvedUrl ''https://old'' [] False False) (on_message (\<lambda>s. s) (ResolvedUrl ''https://new'' [] False False)
     (on_user (EditTemplate ''new'') (on_user (EditTemplate ''old'') (new_page\<lparr>pg_custom := True, pg_algo := ''md5''\<rparr>)))))) = ''https://old''"
proof -
  have "testable ''https://old''" by (simp add: testable_def has_sub_def)
  from late_reply_shown [where p = "new_page\<lparr>pg_custom := True, pg_algo := ''md5''\<rparr>" and mb = "\<lambda>s. s" and v = "''https://new''" and unresolved = "[]"
      and ?c1.0 = False and ?n1.0 = False and ?c2.0 = False and ?n2.0 = False and ?t1.0 = "''old''" and ?t2.0 = "''new''", OF _ this]
  show ?thesis by (simp only: Let_def) simp
qed

end
