(* ===== verification/AskpassMain.thy ===== *)
theory AskpassMain
  imports AskpassServer ServerUrl
begin

text \<open>
  \<^verbatim>\<open>scripts/askpass/askpass-main.js\<close>: the program that ssh runs to ask for a password. It is a machine
  over the events of its socket. Every \<^verbatim>\<open>data\<close> event is decoded by itself. After \<^verbatim>\<open>process.exit\<close> nothing runs.
\<close>

section \<open>The prompt\<close>

definition is_octal :: "char \<Rightarrow> bool" where
  "is_octal c = (48 \<le> (of_char c :: nat) \<and> (of_char c :: nat) < 56)"

definition octal_val :: "char \<Rightarrow> nat" where "octal_val c = of_char c - 48"

text \<open>\<^verbatim>\<open>/(?:\\[0-7]{3})+/\<close> at the beginning of a text: what it matches, and the rest.\<close>

fun octal_run :: "string \<Rightarrow> string \<times> string" where
  "octal_run (x # a # b # c # s) =
     (if x = CHR 0x5C \<and> is_octal a \<and> is_octal b \<and> is_octal c
      then (let (m, r) = octal_run s in (x # a # b # c # m, r)) else ([], x # a # b # c # s))"
| "octal_run s = ([], s)"

lemma octal_run_split: "fst (octal_run s) @ snd (octal_run s) = s"
  by (induction s rule: octal_run.induct) (simp_all add: Let_def case_prod_beta)

lemma octal_run_shorter: "fst (octal_run s) \<noteq> [] \<Longrightarrow> length (snd (octal_run s)) < length s"
  using arg_cong [OF octal_run_split [of s], of length] by (cases "fst (octal_run s)") simp_all

function octal_matches :: "string \<Rightarrow> string list" where
  "octal_matches [] = []"
| "octal_matches (c # s) =
     (let m = fst (octal_run (c # s)) in if m = [] then octal_matches s else m # octal_matches (snd (octal_run (c # s))))"
  by pat_completeness auto
termination by (relation "measure length") (use octal_run_shorter in \<open>force simp: Let_def\<close>)+

fun octal_bytes :: "string \<Rightarrow> bytes" where
  "octal_bytes (x # a # b # c # s) = word_of_nat (64 * octal_val a + 8 * octal_val b + octal_val c) # octal_bytes s"
| "octal_bytes _ = []"

text \<open>\<^verbatim>\<open>result.replace(match, decoded)\<close> with a string: the first occurrence, and \<^verbatim>\<open>$\<close> has its meaning.\<close>

fun replace_first :: "string \<Rightarrow> string \<Rightarrow> string \<Rightarrow> string \<Rightarrow> string" where
  "replace_first pat v before [] = []"
| "replace_first pat v before (c # s) =
     (if prefix pat (c # s)
      then expand_replacement pat before (drop (length pat - 1) s) v @ drop (length pat - 1) s
      else c # replace_first pat v (before @ [c]) s)"

definition decode_match :: "string \<Rightarrow> string \<Rightarrow> string" where
  "decode_match m s = replace_first m (utf8_toString (octal_bytes m)) [] s"

definition decodeOctalEscapes :: "string \<Rightarrow> string" where
  "decodeOctalEscapes s = fold decode_match (octal_matches s) s"

section \<open>The client\<close>

record askpass_client =
  k_prompt :: string
  k_token :: string
  k_response :: string
  k_sent :: string
  k_stdout :: string
  k_stderr :: "string list"
  k_exit :: "nat option"

definition fail_exit :: "string list \<Rightarrow> askpass_client \<Rightarrow> askpass_client" where
  "fail_exit errs k = k\<lparr>k_stderr := k_stderr k @ errs, k_exit := Some 1\<rparr>"

text \<open>The loop that waits for the socket file: the time until it connects.\<close>

fun wait_for_socket :: "nat \<Rightarrow> (nat \<Rightarrow> bool) \<Rightarrow> nat \<Rightarrow> nat" where
  "wait_for_socket 0 socketExists now = now"
| "wait_for_socket (Suc retries) socketExists now =
     (if socketExists now then now else wait_for_socket retries socketExists (now + 100))"

definition askpass_main :: "string \<Rightarrow> string \<Rightarrow> string option \<Rightarrow> askpass_client" where
  "askpass_main rawPrompt socketPath token =
     (let k = \<lparr>k_prompt = decodeOctalEscapes rawPrompt, k_token = nullish token [], k_response = [], k_sent = [],
               k_stdout = [], k_stderr = [], k_exit = None\<rparr>
      in if rawPrompt = [] \<or> socketPath = []
         then fail_exit [''Usage: askpass-main.js <prompt> <socket-path>''] k else k)"

text \<open>Writing anything but a string to the standard output throws.\<close>

definition read_response :: "askpass_client \<Rightarrow> askpass_client" where
  "read_response k =
     (case parse_json (trim (k_response k)) of
        Inl e \<Rightarrow> fail_exit [''Failed to parse response: '' @ err_message e] k
      | Inr parsed \<Rightarrow>
          (case (json_prop parsed ''password'', json_prop parsed ''cancelled'') of
             (Inr (Some (JStr password)), _) \<Rightarrow> k\<lparr>k_stdout := k_stdout k @ password, k_exit := Some 0\<rparr>
           | (Inr (Some _), _) \<Rightarrow> fail_exit [''Failed to parse response: '' @ err_message type_error] k
           | (Inr None, Inr cancelled) \<Rightarrow>
               if json_truthy cancelled then fail_exit [] k else fail_exit [''Invalid response from extension''] k
           | (_, _) \<Rightarrow> fail_exit [''Failed to parse response: '' @ err_message type_error] k))"

datatype client_event = Connected | Arrived bytes | SocketError string | PeerEnded | FiveMinutes

definition client_step :: "askpass_client \<Rightarrow> client_event \<Rightarrow> askpass_client" where
  "client_step k e =
     (if k_exit k \<noteq> None then k
      else case e of
        Connected \<Rightarrow>
          k\<lparr>k_sent := k_sent k @ stringify (JObj [(''request'', JStr (k_prompt k)), (''token'', JStr (k_token k))]) @ [CHR 0x0A]\<rparr>
      | Arrived data \<Rightarrow>
          (let k = k\<lparr>k_response := k_response k @ utf8_toString data\<rparr>
           in if suffix [CHR 0x0A] (k_response k) then read_response k else k)
      | SocketError message \<Rightarrow> fail_exit [''Socket error: '' @ message] k
      | PeerEnded \<Rightarrow> if k_response k = [] then fail_exit [''Connection closed without response''] k else k
      | FiveMinutes \<Rightarrow> fail_exit [''Timeout waiting for password''] k)"

section \<open>How ssh escapes a prompt\<close>

text \<open>In a locale that cannot show them, ssh writes the bytes above 127 as octal numbers.\<close>

definition octal_escape :: "char \<Rightarrow> string" where
  "octal_escape c = CHR 0x5C # map (\<lambda>n :: nat. char_of (48 + n)) [of_char c div 64, of_char c div 8 mod 8, of_char c mod 8]"

definition ssh_escape :: "string \<Rightarrow> string" where
  "ssh_escape s = concat (map (\<lambda>c. if of_char c < (128 :: nat) then [c] else octal_escape c) s)"

lemma octal_digit: "(n :: nat) < 8 \<Longrightarrow> is_octal (char_of (48 + n)) \<and> octal_val (char_of (48 + n)) = n"
  by (simp add: is_octal_def octal_val_def)

lemma high_digit: "(of_char c :: nat) div 64 < 8"
  using of_char_below [of c] by (intro less_mult_imp_div_less) linarith

lemma octal_sum: "64 * (n div 64) + 8 * (n div 8 mod 8) + n mod 8 = (n :: nat)"
proof -
  have "a = q \<Longrightarrow> 8 * (8 * q + r) + s = n \<Longrightarrow> 64 * a + 8 * r + s = n" for a q r s :: nat by simp
  from this [OF div_mult2_eq [of n 8 8, simplified]] show ?thesis by (simp only: mult_div_mod_eq)
qed

lemma run_escaped:
  assumes "t = [] \<or> hd t \<noteq> CHR 0x5C"
  shows "octal_run (concat (map octal_escape r) @ t) = (concat (map octal_escape r), t)"
proof (induction r)
  case Nil
  have "octal_run t = ([], t)" using assms by (cases t rule: octal_run.cases) simp_all
  then show ?case by simp
next
  case (Cons c r)
  with high_digit [of c] show ?case by (simp add: octal_escape_def octal_digit)
qed

lemma bytes_escaped: "octal_bytes (concat (map octal_escape r)) = utf8_bytes r"
proof (induction r)
  case (Cons c r)
  have "octal_bytes (concat (map octal_escape (c # r)))
      = word_of_nat (64 * (of_char c div 64) + 8 * (of_char c div 8 mod 8) + of_char c mod 8) # octal_bytes (concat (map octal_escape r))"
    using high_digit [of c] by (simp add: octal_escape_def octal_digit)
  then show ?case by (simp only: octal_sum Cons.IH) (simp add: utf8_bytes_def of_nat_of_char)
qed (simp add: utf8_bytes_def)

lemma replace_first_here:
  "CHR 0x5C \<notin> set x \<Longrightarrow>
   replace_first (CHR 0x5C # m) v before (x @ (CHR 0x5C # m) @ y) = x @ expand_replacement (CHR 0x5C # m) (before @ x) y v @ y"
proof (induction x arbitrary: before)
  case (Cons c x)
  then show ?case using Cons.IH [of "before @ [c]"] by simp
qed (simp add: prefix_def)

lemma matches_plain: "c \<noteq> CHR 0x5C \<Longrightarrow> octal_matches (c # s) = octal_matches s"
proof -
  assume "c \<noteq> CHR 0x5C"
  then have "octal_run (c # s) = ([], c # s)" by (cases "c # s" rule: octal_run.cases) simp_all
  then show ?thesis by simp
qed

lemma matches_escaped:
  assumes "t = [] \<or> hd t \<noteq> CHR 0x5C" and "r \<noteq> []"
  shows "octal_matches (concat (map octal_escape r) @ t) = concat (map octal_escape r) # octal_matches t"
proof -
  define e where "e = concat (map octal_escape r)"
  have e: "octal_run (e @ t) = (e, t)" unfolding e_def by (rule run_escaped [OF assms(1)])
  obtain x xs where x: "e @ t = x # xs" "e \<noteq> []"
    using assms(2) by (cases r) (simp_all add: octal_escape_def e_def)
  with e show ?thesis unfolding e_def [symmetric] by simp
qed

lemma whole_high_run:
  assumes "whole_chars (utf8_bytes (r @ t))" and "t = [] \<or> of_char (hd t) < (128 :: nat)"
  shows "whole_chars (utf8_bytes r) \<and> whole_chars (utf8_bytes t)"
proof (cases t)
  case Nil
  then show ?thesis using assms by (simp add: whole_chars_def utf8_toString_def utf8_bytes_def utf8_string_def)
next
  case (Cons c u)
  then have c: "of_char c < (128 :: nat)" using assms(2) by simp
  then have "unat (of_char c :: byte) < 128"
    by (metis of_nat_of_char unat_byte_of_nat mod_less less_trans of_char_below)
  with whole_around_ascii [of "utf8_bytes r" "of_char c" "utf8_bytes u"] assms(1) Cons whole_ascii [OF c]
  show ?thesis by (simp add: utf8_bytes_def)
qed

lemma decode_match_escaped:
  assumes "CHR 0x5C \<notin> set x" and "whole_chars (utf8_bytes r)" and "r \<noteq> []" and "CHR ''$'' \<notin> set r"
  shows "decode_match (concat (map octal_escape r)) (x @ concat (map octal_escape r) @ y) = x @ r @ y"
proof -
  obtain m where m: "concat (map octal_escape r) = CHR 0x5C # m"
    using assms(3) by (cases r) (simp_all add: octal_escape_def)
  have "utf8_toString (octal_bytes (concat (map octal_escape r))) = r"
    using assms(2) by (simp add: bytes_escaped whole_chars_def)
  then show ?thesis
    using replace_first_here [OF assms(1), of m r "[]" y] assms(4)
    unfolding decode_match_def m by (simp add: expand_plain no_dollar_def)
qed

lemma decode_escaped:
  "whole_chars (utf8_bytes s) \<Longrightarrow> CHR 0x5C \<notin> set s \<Longrightarrow> CHR 0x5C \<notin> set x \<Longrightarrow>
   fold decode_match (octal_matches (ssh_escape s)) (x @ ssh_escape s) = x @ s"
proof (induction s arbitrary: x rule: length_induct)
  case (1 s)
  show ?case
  proof (cases s)
    case Nil
    then show ?thesis by (simp add: ssh_escape_def)
  next
    case (Cons c t)
    show ?thesis
    proof (cases "of_char c < (128 :: nat)")
      case True
      with Cons "1.prems" have "fold decode_match (octal_matches (ssh_escape t)) ((x @ [c]) @ ssh_escape t) = (x @ [c]) @ t"
        by (intro "1.IH" [rule_format]) (simp_all add: whole_ascii)
      moreover have "c \<noteq> CHR 0x5C" using "1.prems" Cons by auto
      ultimately show ?thesis using True Cons by (simp add: ssh_escape_def matches_plain del: octal_matches.simps)
    next
      case False
      define r where "r = takeWhile (\<lambda>c. \<not> of_char c < (128 :: nat)) s"
      define u where "u = dropWhile (\<lambda>c. \<not> of_char c < (128 :: nat)) s"
      have s: "s = r @ u" by (simp add: r_def u_def)
      have high: "\<forall>c \<in> set r. \<not> of_char c < (128 :: nat)" unfolding r_def by (auto dest: set_takeWhileD)
      have r: "r \<noteq> []" using False Cons by (simp add: r_def)
      have u: "u = [] \<or> of_char (hd u) < (128 :: nat)"
        unfolding u_def by (metis hd_dropWhile)
      then have whole: "whole_chars (utf8_bytes r)" "whole_chars (utf8_bytes u)"
        using whole_high_run [of r u] "1.prems"(1) s by simp_all
      have esc: "ssh_escape s = concat (map octal_escape r) @ ssh_escape u"
        using high by (simp add: s ssh_escape_def cong: map_cong)
      have start: "ssh_escape u = [] \<or> hd (ssh_escape u) \<noteq> CHR 0x5C"
        using u "1.prems"(2) s by (cases u) (auto simp: ssh_escape_def)
      have "CHR ''$'' \<notin> set r" using high by auto
      then have "fold decode_match (octal_matches (ssh_escape s)) (x @ ssh_escape s)
          = fold decode_match (octal_matches (ssh_escape u)) ((x @ r) @ ssh_escape u)"
        using "1.prems"(3) whole(1) r by (simp add: esc matches_escaped [OF start r] decode_match_escaped)
      also have "\<dots> = (x @ r) @ u"
        using "1.prems" s r whole(2) by (intro "1.IH" [rule_format]) simp_all
      finally show ?thesis by (simp add: s)
    qed
  qed
qed

section \<open>The client as a machine\<close>

definition client_inv :: "askpass_client \<Rightarrow> bool" where
  "client_inv k = (case k_exit k of
       Some 0 \<Rightarrow> \<exists>parsed. parse_json (trim (k_response k)) = Inr parsed \<and> json_prop parsed ''password'' = Inr (Some (JStr (k_stdout k)))
     | _ \<Rightarrow> k_stdout k = [])"

lemma client_inv_fail: "k_stdout k = [] \<Longrightarrow> client_inv (fail_exit errs k)"
  by (simp add: client_inv_def fail_exit_def)

lemma client_inv_read: "k_stdout k = [] \<Longrightarrow> client_inv (read_response k)"
  by (auto simp: read_response_def client_inv_fail split: sum.split option.split json.split)
    (simp_all add: client_inv_def)

interpretation askpass_reply: settling client_step client_inv "\<lambda>k. k_exit k \<noteq> None" "\<lambda>k. (k_stdout k, k_stderr k, k_exit k)"
proof unfold_locales
  fix k e
  assume inv: "client_inv k"
  show "client_inv (client_step k e)"
  proof (cases "k_exit k")
    case None
    with inv have "k_stdout k = []" by (simp add: client_inv_def)
    with None inv client_inv_fail client_inv_read show ?thesis
      by (cases e) (auto simp: client_step_def Let_def, auto simp: client_inv_def)
  qed (use inv in \<open>simp add: client_step_def\<close>)
qed (simp add: client_step_def)

lemma main_inv: "client_inv (askpass_main rawPrompt socketPath token)"
  by (simp add: askpass_main_def Let_def client_inv_fail) (simp add: client_inv_def)

text \<open>A line that arrives in any pieces of whole characters.\<close>

lemma ends_line: "x @ y = line @ [CHR 0x0A] \<Longrightarrow> CHR 0x0A \<notin> set line \<Longrightarrow> suffix [CHR 0x0A] x \<longleftrightarrow> x = line @ [CHR 0x0A]"
  by (cases y rule: rev_cases) (auto simp: suffix_def)

lemma client_reads_line:
  assumes "k_exit k = None" and "\<forall>c \<in> set cs. whole_chars c"
    and "k_response k @ concat (map utf8_string cs) = line @ [CHR 0x0A]" and "CHR 0x0A \<notin> set line"
    and "\<not> suffix [CHR 0x0A] (k_response k)"
    and "\<And>k. k_response k = line @ [CHR 0x0A] \<Longrightarrow> k_exit (read_response k) \<noteq> None"
  shows "foldl client_step k (map Arrived cs) = read_response (k\<lparr>k_response := line @ [CHR 0x0A]\<rparr>)"
  using assms
proof (induction cs arbitrary: k)
  case Nil
  then show ?case by (simp add: suffix_def)
next
  case (Cons c cs)
  let ?k = "k\<lparr>k_response := k_response k @ utf8_string c\<rparr>"
  have all: "k_response ?k @ concat (map utf8_string cs) = line @ [CHR 0x0A]" using Cons.prems(3) by simp
  have step: "client_step k (Arrived c) = (if suffix [CHR 0x0A] (k_response ?k) then read_response ?k else ?k)"
    using Cons.prems(1,2) by (simp add: client_step_def whole_chars_def Let_def)
  show ?case
  proof (cases "suffix [CHR 0x0A] (k_response ?k)")
    case True
    then have r: "k_response ?k = line @ [CHR 0x0A]" using ends_line [OF all Cons.prems(4)] by simp
    have "foldl client_step k' es = k'" if "k_exit k' \<noteq> None" for k' es
      using that by (induction es) (simp_all add: client_step_def)
    with Cons.prems(6) [OF r] True step r show ?thesis by simp
  next
    case False
    with Cons.IH [of ?k] Cons.prems all step show ?thesis by simp
  qed
qed

lemma utf8_string_concat: "concat (map utf8_string ds) = utf8_string (concat ds)"
  by (induction ds) (simp_all add: utf8_string_def)

lemma client_reads_part:
  "k_exit k = None \<Longrightarrow> CHR 0x0A \<notin> set (k_response k @ utf8_string (concat cs)) \<Longrightarrow> \<forall>c \<in> set cs. whole_chars c \<Longrightarrow>
   foldl client_step k (map Arrived cs) = k\<lparr>k_response := k_response k @ utf8_string (concat cs)\<rparr>"
proof (induction cs arbitrary: k)
  case (Cons c cs)
  have split: "utf8_string (concat (c # cs)) = utf8_string c @ utf8_string (concat cs)" by (simp add: utf8_string_def)
  then have "CHR 0x0A \<notin> set (k_response k @ utf8_string c)" using Cons.prems(2) by simp
  then have "\<not> suffix [CHR 0x0A] (k_response k @ utf8_string c)" using set_mono_suffix by fastforce
  then have step: "client_step k (Arrived c) = k\<lparr>k_response := k_response k @ utf8_string c\<rparr>"
    using Cons.prems(1,3) by (simp add: client_step_def whole_chars_def)
  show ?case
    using Cons.IH [of "k\<lparr>k_response := k_response k @ utf8_string c\<rparr>"] Cons.prems split step by simp
qed (simp add: utf8_string_def)

text \<open>The server's side of the same.\<close>

lemma update_update: "AList.update k v (AList.update k w xs) = AList.update k v xs"
  by (induction xs) auto

lemma server_reads_line:
  assumes "map_of (a_pending s) socket = Some b" and "b @ concat cs = line @ [CHR 0x0A]" and "\<forall>c \<in> set cs. whole c"
    and "CHR 0x0A \<notin> set line" and "CHR 0x0A \<notin> set b"
    and "\<And>ps. map_of (a_pending (ask_handleRequest E socket (line @ [CHR 0x0A]) answers (s\<lparr>a_pending := ps\<rparr>))) socket = None"
  shows "foldl (\<lambda>s c. connection_data E socket c answers s) s cs
       = ask_handleRequest E socket (line @ [CHR 0x0A]) answers (s\<lparr>a_pending := AList.update socket (line @ [CHR 0x0A]) (a_pending s)\<rparr>)"
  using assms
proof (induction cs arbitrary: s b)
  case (Cons c cs)
  let ?s = "s\<lparr>a_pending := AList.update socket (b @ c) (a_pending s)\<rparr>"
  have step: "connection_data E socket c answers s =
      (if CHR 0x0A \<in> set (b @ c) then ask_handleRequest E socket (b @ c) answers ?s else ?s)"
    using Cons.prems(1,3) by (simp add: connection_data_def Let_def)
  show ?case
  proof (cases "CHR 0x0A \<in> set (b @ c)")
    case True
    obtain x y where xy: "b @ c = x @ CHR 0x0A # y" using True by (meson split_list)
    with Cons.prems(2) have "x @ CHR 0x0A # (y @ concat cs) = line @ [CHR 0x0A]" by (metis append.assoc append_Cons concat.simps(2))
    then have "y @ concat cs = []" using Cons.prems(4)
      by (cases "y @ concat cs" rule: rev_cases) (auto simp: append_eq_append_conv2)
    then have r: "b @ c = line @ [CHR 0x0A]" using Cons.prems(2) by (metis append.assoc append_Nil2 append_is_Nil_conv concat.simps(2))
    have "foldl (\<lambda>s c. connection_data E socket c answers s) s' cs' = s'" if "map_of (a_pending s') socket = None" for s' cs'
      using that by (induction cs') (simp_all add: connection_data_def)
    with Cons.prems(6) step True r show ?thesis by simp
  next
    case False
    with Cons.IH [of ?s "b @ c"] Cons.prems step show ?thesis by (simp add: update_update update_conv)
  qed
qed auto

definition request_line :: "string \<Rightarrow> string \<Rightarrow> string" where
  "request_line prompt token = stringify (JObj [(''request'', JStr prompt), (''token'', JStr token)])"

lemma request_line_ok:
  "CHR 0x0A \<notin> set (request_line p t)" "parse_json (trim (request_line p t @ [CHR 0x0A])) = Inr (JObj [(''request'', JStr p), (''token'', JStr t)])"
proof -
  let ?j = "JObj [(''request'', JStr p), (''token'', JStr t)]"
  have ok: "json_ok ?j" by simp
  then show "CHR 0x0A \<notin> set (request_line p t)" unfolding request_line_def by (rule stringify_no_newline)
  have "trimmed (stringify ?j)" by (simp add: trimmed_def is_space_def)
  then have "trim (request_line p t @ [CHR 0x0A]) = stringify ?j"
    by (simp add: request_line_def trim_snoc_space is_space_def trim_trimmed del: stringify.simps)
  with parse_stringify [OF ok] show "parse_json (trim (request_line p t @ [CHR 0x0A])) = Inr ?j" by (simp del: stringify.simps)
qed

lemma password_line_ok:
  "CHR 0x0A \<notin> set (stringify (password_obj p))" "parse_json (trim (stringify (password_obj p) @ [CHR 0x0A])) = Inr (password_obj p)"
proof -
  have ok: "json_ok (password_obj p)" by (simp add: password_obj_def)
  then show "CHR 0x0A \<notin> set (stringify (password_obj p))" by (rule stringify_no_newline)
  have "trimmed (stringify (password_obj p))" by (simp add: trimmed_def is_space_def password_obj_def)
  then have "trim (stringify (password_obj p) @ [CHR 0x0A]) = stringify (password_obj p)"
    by (simp add: trim_snoc_space is_space_def trim_trimmed)
  with parse_stringify [OF ok] show "parse_json (trim (stringify (password_obj p) @ [CHR 0x0A])) = Inr (password_obj p)" by simp
qed

text \<open>What the client does with the answer, and what the server answers.\<close>

lemma read_password: "k_response k = stringify (password_obj p) @ [CHR 0x0A] \<Longrightarrow>
    read_response k = k\<lparr>k_stdout := k_stdout k @ p, k_exit := Some 0\<rparr>"
  by (simp add: read_response_def password_line_ok) (simp add: password_obj_def json_prop_def)

lemma typed_password_sent:
  assumes "getCached (e_crypto E) (e_mtime E) (e_now E) p (a_cache s) = (None, c)"
    and "\<And>kp. parseKeyPath p = Some kp \<Longrightarrow> e_validate E kp pw = None"
  shows "sent (ask_handleRequest E socket (request_line p (a_token s) @ [CHR 0x0A]) (Inr (Some pw) # rest) s)
        = sent s @ [(socket, stringify (password_obj pw) @ [CHR 0x0A])]"
    and "map_of (a_pending (ask_handleRequest E socket (request_line p (a_token s) @ [CHR 0x0A]) (Inr (Some pw) # rest) s)) socket = None"
proof -
  have three: "(3::nat) = Suc (Suc (Suc 0))" by simp
  have "ask_handleRequest E socket (request_line p (a_token s) @ [CHR 0x0A]) (Inr (Some pw) # rest) s
      = answer_prompt E socket p (Inr (Some pw) # rest) s"
    by (simp add: ask_handleRequest_def request_line_ok json_prop_def ask_validToken_def json_string_def)
  moreover have "sent (answer_prompt E socket p (Inr (Some pw) # rest) s) = sent s @ [(socket, stringify (password_obj pw) @ [CHR 0x0A])]
      \<and> map_of (a_pending (answer_prompt E socket p (Inr (Some pw) # rest) s)) socket = None"
    using assms by (cases "parseKeyPath p") (auto simp: answer_prompt_def three respond_def store_def Let_def delete_conv)
  ultimately show "sent (ask_handleRequest E socket (request_line p (a_token s) @ [CHR 0x0A]) (Inr (Some pw) # rest) s)
        = sent s @ [(socket, stringify (password_obj pw) @ [CHR 0x0A])]"
    "map_of (a_pending (ask_handleRequest E socket (request_line p (a_token s) @ [CHR 0x0A]) (Inr (Some pw) # rest) s)) socket = None"
    by simp_all
qed

section \<open>Properties\<close>

text \<open>C31. A typed password reaches ssh: when the cache has no answer and the user answers the first
  prompt with a password that fits the key, if the prompt names one, then the client writes exactly
  this password to its standard output and exits with 0, however the request and the response are
  cut between characters on their way (both ends decode each piece by itself).\<close>

theorem typed_password_reaches_ssh:
  assumes "rawPrompt \<noteq> []" and "socketPath \<noteq> []" and "\<not> a_stopping s"
    and "getCached (e_crypto E) (e_mtime E) (e_now E) (decodeOctalEscapes rawPrompt) (a_cache s) = (None, c)"
    and "\<And>kp. parseKeyPath (decodeOctalEscapes rawPrompt) = Some kp \<Longrightarrow> e_validate E kp pw = None"
    and k: "k = client_step (askpass_main rawPrompt socketPath (Some (a_token s))) Connected"
    and request: "concat cs = k_sent k" and "\<forall>c \<in> set cs. whole c"
    and response: "concat ds = utf8_bytes (stringify (password_obj pw) @ [CHR 0x0A])" and "\<forall>d \<in> set ds. whole_chars d"
  shows "sent (foldl (\<lambda>s c. connection_data E socket c (Inr (Some pw) # rest) s) (handleConnection socket s) cs)
         = sent s @ [(socket, stringify (password_obj pw) @ [CHR 0x0A])]
       \<and> k_stdout (foldl client_step k (map Arrived ds)) = pw \<and> k_exit (foldl client_step k (map Arrived ds)) = Some 0"
proof -
  let ?p = "decodeOctalEscapes rawPrompt" and ?answer = "stringify (password_obj pw)"
  have k': "k_sent k = request_line ?p (a_token s) @ [CHR 0x0A]" "k_exit k = None" "k_response k = []" "k_stdout k = []"
    using assms(1,2) by (simp_all add: k client_step_def askpass_main_def request_line_def)
  let ?s = "handleConnection socket s"
  have pending: "map_of (a_pending ?s) socket = Some []" using assms(3) by (simp add: handleConnection_def update_conv)
  have same: "getCached (e_crypto E) (e_mtime E) (e_now E) ?p (a_cache (?s\<lparr>a_pending := ps\<rparr>)) = (None, c)"
    "a_token (?s\<lparr>a_pending := ps\<rparr>) = a_token s" "sent (?s\<lparr>a_pending := ps\<rparr>) = sent s" for ps
    using assms(3,4) by (simp_all add: handleConnection_def)
  have "foldl (\<lambda>s c. connection_data E socket c (Inr (Some pw) # rest) s) ?s cs
      = ask_handleRequest E socket (request_line ?p (a_token s) @ [CHR 0x0A]) (Inr (Some pw) # rest)
        (?s\<lparr>a_pending := AList.update socket (request_line ?p (a_token s) @ [CHR 0x0A]) (a_pending ?s)\<rparr>)"
    using typed_password_sent(2) [OF same(1) assms(5), where socket = socket and rest = rest] same(2) request k'(1)
    by (intro server_reads_line [OF pending]) (simp_all add: request_line_ok assms(8))
  moreover have "concat (map utf8_string ds) = ?answer @ [CHR 0x0A]"
    using arg_cong [OF response, of utf8_string] by (simp add: utf8_string_concat)
  then have "foldl client_step k (map Arrived ds) = read_response (k\<lparr>k_response := ?answer @ [CHR 0x0A]\<rparr>)"
    using k' assms(10) by (intro client_reads_line) (simp_all add: password_line_ok read_password suffix_def)
  ultimately show ?thesis
    using k' typed_password_sent(1) [OF same(1) assms(5), where socket = socket and rest = rest] same(2,3)
    by (simp add: read_password)
qed

theorem typed_password_reaches_ssh_witness:
  "k_stdout (foldl client_step (client_step (askpass_main ''pw: '' ''/tmp/s'' (Some (a_token (ask_start None [1])))) Connected)
       (map Arrived (map utf8_bytes [take 7 (stringify (password_obj ''x'') @ [CHR 0x0A]), drop 7 (stringify (password_obj ''x'') @ [CHR 0x0A])]))) = ''x''"
proof -
  let ?E = "\<lparr>e_crypto = clear_crypto, e_mtime = (\<lambda>_. None), e_now = 0, e_validate = (\<lambda>_ _. None), e_iv = []\<rparr>"
  let ?s = "ask_start None [1]" and ?msg = "stringify (password_obj ''x'') @ [CHR 0x0A]"
  let ?k = "client_step (askpass_main ''pw: '' ''/tmp/s'' (Some (a_token ?s))) Connected"
  have whole: "\<forall>d \<in> set (map utf8_bytes [take 7 ?msg, drop 7 ?msg]). whole_chars d" by code_simp
  have parts: "concat (map utf8_bytes [take 7 m, drop 7 m]) = utf8_bytes m" for m
    by (simp add: utf8_bytes_def flip: map_append)
  have pieces: "\<forall>c \<in> set [take 9 (k_sent ?k), drop 9 (k_sent ?k)]. whole c" by code_simp
  have conc: "concat [take 9 (k_sent ?k), drop 9 (k_sent ?k)] = k_sent ?k" by (simp del: take_append drop_append)
  have "getCached (e_crypto ?E) (e_mtime ?E) (e_now ?E) (decodeOctalEscapes ''pw: '') (a_cache ?s) = (None, None)" "\<not> a_stopping ?s"
    by (simp_all add: getCached_def ask_start_def)
  from typed_password_reaches_ssh [OF _ _ this(2,1) _ refl conc pieces parts whole, where rest = "[]"]
  show ?thesis by (simp del: stringify.simps take_append drop_append)
qed

text \<open>Nothing but the password of the server's answer is ever written for ssh, and only when the exit
  status says so.\<close>

theorem only_password_printed:
  "case k_exit (foldl client_step (askpass_main rawPrompt socketPath token) es) of
     Some 0 \<Rightarrow> \<exists>parsed. parse_json (trim (k_response (foldl client_step (askpass_main rawPrompt socketPath token) es))) = Inr parsed
        \<and> json_prop parsed ''password'' = Inr (Some (JStr (k_stdout (foldl client_step (askpass_main rawPrompt socketPath token) es))))
   | _ \<Rightarrow> k_stdout (foldl client_step (askpass_main rawPrompt socketPath token) es) = []"
  using askpass_reply.inv_run [OF main_inv] by (simp add: client_inv_def)

text \<open>A prompt that ssh escaped because of the locale is read back, unless it holds a backslash.\<close>

theorem escaped_prompt_read:
  assumes "whole_chars (utf8_bytes s)" and "CHR 0x5C \<notin> set s"
  shows "decodeOctalEscapes (ssh_escape s) = s"
  using decode_escaped [OF assms, of "[]"] by (simp add: decodeOctalEscapes_def)

theorem escaped_prompt_read_witness:
  "decodeOctalEscapes (ssh_escape (''f'' @ [CHR 0xC3, CHR 0xBC] @ ''r '' @ [CHR 0xE2, CHR 0x82, CHR 0xAC])) = ''f'' @ [CHR 0xC3, CHR 0xBC] @ ''r '' @ [CHR 0xE2, CHR 0x82, CHR 0xAC]"
  by (rule escaped_prompt_read) code_simp+

text \<open>The path of a key on Windows is taken for an escape.\<close>

lemma windows_path_garbled:
  "decodeOctalEscapes (''for key C:'' @ [CHR 0x5C] @ ''101'' @ [CHR 0x5C] @ ''id'') = ''for key C:A'' @ [CHR 0x5C] @ ''id''"
  by code_simp

text \<open>A character of the password that two \<^verbatim>\<open>data\<close> events share is lost.\<close>

lemma split_character_garbled:
  "k_stdout (foldl client_step (askpass_main ''pw'' ''s'' None)
     [Arrived (utf8_bytes (''{'' @ [CHR 0x22] @ ''password'' @ [CHR 0x22] @ '':'' @ [CHR 0x22, CHR 0xC3])),
      Arrived (utf8_bytes ([CHR 0xA9, CHR 0x22] @ ''}'' @ [CHR 0x0A]))]) = REPLACEMENT @ REPLACEMENT"
  by code_simp

text \<open>When the server's side closes in the middle of its answer, the client neither fails nor ends
  before its timer of five minutes; only without any answer does it fail at once.\<close>

theorem truncated_answer_waits:
  assumes "rawPrompt \<noteq> []" and "socketPath \<noteq> []" and "\<forall>c \<in> set cs. whole_chars c" and "concat cs \<noteq> []"
    and "CHR 0x0A \<notin> set (utf8_string (concat cs))"
  shows "k_exit (foldl client_step (askpass_main rawPrompt socketPath token) (map Arrived cs @ [PeerEnded])) = None
      \<and> k_exit (foldl client_step (askpass_main rawPrompt socketPath token) (map Arrived cs @ [PeerEnded, FiveMinutes])) = Some 1
      \<and> k_exit (foldl client_step (askpass_main rawPrompt socketPath token) [PeerEnded]) = Some 1"
proof -
  let ?k = "askpass_main rawPrompt socketPath token"
  have k: "k_exit ?k = None" "k_response ?k = []" using assms(1,2) by (simp_all add: askpass_main_def)
  then have r: "foldl client_step ?k (map Arrived cs) = ?k\<lparr>k_response := utf8_string (concat cs)\<rparr>"
    using client_reads_part [of ?k cs] assms(3,5) by simp
  have "utf8_string (concat cs) \<noteq> []" using assms(4) by (simp add: utf8_string_def)
  with k r show ?thesis by (simp add: client_step_def fail_exit_def del: concat_eq_Nil_conv)
qed

theorem truncated_answer_waits_witness:
  "k_exit (foldl client_step (askpass_main ''pw'' ''s'' None) (map Arrived [[123]] @ [PeerEnded])) = None"
proof -
  have "\<forall>c \<in> set [[123]]. whole_chars c" "CHR 0x0A \<notin> set (utf8_string (concat [[123]]))" by code_simp+
  from truncated_answer_waits [OF _ _ this(1) _ this(2), of "''pw''" "''s''" None] show ?thesis by simp
qed

end
