(* ===== verification/AskpassSpec.thy ===== *)
theory AskpassSpec
  imports AskpassCache
begin

text \<open>
  What \<^verbatim>\<open>src/ssh/askpassCache.ts\<close> promises: a map from prompts to secrets with the time at which they were
  stored, of which a stale one is never given out. The encrypted store refines this map: as long as
  the prompts in use do not collide under the HMAC, no sequence of operations tells them apart.
\<close>

section \<open>The specification\<close>

type_synonym secrets = "string \<Rightarrow> plaintext option"

definition spec_get :: "int \<Rightarrow> (string \<Rightarrow> int option) \<Rightarrow> int \<Rightarrow> string \<Rightarrow> secrets \<Rightarrow> string option \<times> secrets" where
  "spec_get ttl mtime now prompt m =
     (case m prompt of
        None \<Rightarrow> (None, m)
      | Some p \<Rightarrow> if entry_stale ttl mtime now p then (None, m(prompt := None)) else (Some (p_password p), m))"

text \<open>A passphrase that its key refuses is not stored.\<close>

definition refused :: "(string \<Rightarrow> string \<Rightarrow> string option) \<Rightarrow> string \<Rightarrow> string \<Rightarrow> bool \<Rightarrow> string option" where
  "refused validate prompt password skip =
     (case parseKeyPath prompt of
        None \<Rightarrow> None
      | Some kp \<Rightarrow> if kp = [] \<or> skip then None else validate kp password)"

definition stored :: "(string \<Rightarrow> int option) \<Rightarrow> int \<Rightarrow> string \<Rightarrow> string \<Rightarrow> plaintext" where
  "stored mtime now prompt password =
     (let kp = nullish (parseKeyPath prompt) []
      in \<lparr>p_password = password, p_keyPath = kp, p_storedAt = now,
          p_keyMtime = (if kp = [] then 0 else nullish (mtime kp) 0)\<rparr>)"

definition spec_set :: "(string \<Rightarrow> string \<Rightarrow> string option) \<Rightarrow> (string \<Rightarrow> int option) \<Rightarrow> int \<Rightarrow> string \<Rightarrow> string \<Rightarrow> bool
    \<Rightarrow> secrets \<Rightarrow> string option \<times> secrets" where
  "spec_set validate mtime now prompt password skip m =
     (case refused validate prompt password skip of
        Some err \<Rightarrow> (Some err, m)
      | None \<Rightarrow> (None, m(prompt \<mapsto> stored mtime now prompt password)))"

definition spec_sweep :: "int \<Rightarrow> (string \<Rightarrow> int option) \<Rightarrow> int \<Rightarrow> secrets \<Rightarrow> secrets" where
  "spec_sweep ttl mtime now m =
     (\<lambda>prompt. case m prompt of None \<Rightarrow> None | Some p \<Rightarrow> if entry_stale ttl mtime now p then None else Some p)"

fun spec_step :: "(string \<Rightarrow> string \<Rightarrow> string option) \<Rightarrow> int \<Rightarrow> secrets \<Rightarrow> cache_op \<Rightarrow> string option \<times> secrets" where
  "spec_step validate ttl m (Get now mtime prompt) = spec_get ttl mtime now prompt m"
| "spec_step validate ttl m (Set now mtime iv prompt pw skip) = spec_set validate mtime now prompt pw skip m"
| "spec_step validate ttl m (Evict now prompt) = (None, m(prompt := None))"
| "spec_step validate ttl m (ClearAll now) = (None, Map.empty)"
| "spec_step validate ttl m (Sweep now mtime) = (None, spec_sweep ttl mtime now m)"

text \<open>What the operations of the cache and of the specification answer.\<close>

fun cache_output :: "crypto \<Rightarrow> (string \<Rightarrow> string \<Rightarrow> string option) \<Rightarrow> cache \<Rightarrow> cache_op \<Rightarrow> string option" where
  "cache_output C validate s (Get now mtime prompt) = fst (cache_get C mtime now prompt s)"
| "cache_output C validate s (Set now mtime iv prompt pw skip) = fst (cache_set C validate mtime now iv prompt pw skip s)"
| "cache_output C validate s _ = None"

fun cache_trace :: "crypto \<Rightarrow> (string \<Rightarrow> string \<Rightarrow> string option) \<Rightarrow> cache \<Rightarrow> cache_op list \<Rightarrow> string option list" where
  "cache_trace C validate s [] = []"
| "cache_trace C validate s (e # es) = cache_output C validate s e # cache_trace C validate (cache_step C validate s e) es"

fun spec_trace :: "(string \<Rightarrow> string \<Rightarrow> string option) \<Rightarrow> int \<Rightarrow> secrets \<Rightarrow> cache_op list \<Rightarrow> string option list" where
  "spec_trace validate ttl m [] = []"
| "spec_trace validate ttl m (e # es) =
     (let (out, m') = spec_step validate ttl m e in out # spec_trace validate ttl m' es)"

section \<open>The abstraction\<close>

definition secrets_of :: "crypto \<Rightarrow> bytes \<Rightarrow> bytes \<Rightarrow> rows \<Rightarrow> secrets" where
  "secrets_of C hk ak r = (\<lambda>prompt. case map_of r (dbKey C hk prompt) of None \<Rightarrow> None | Some e \<Rightarrow> decrypt C ak e)"

definition refines :: "crypto \<Rightarrow> bytes \<Rightarrow> bytes \<Rightarrow> int \<Rightarrow> string set \<Rightarrow> cache \<Rightarrow> secrets \<Rightarrow> bool" where
  "refines C hk ak ttl P s m =
     (cache_inv s \<and> hmacKey s = Some hk \<and> aesKey s = Some ak \<and> TTL_MS s = ttl
      \<and> (\<exists>r. db s = Some r \<and> (\<forall>p \<in> P. secrets_of C hk ak r p = m p)))"

fun within :: "string set \<Rightarrow> cache_op \<Rightarrow> bool" where
  "within P (Get now mtime prompt) = (prompt \<in> P)"
| "within P (Set now mtime iv prompt pw skip) = (prompt \<in> P \<and> 0 \<le> now \<and> (\<forall>f t. mtime f = Some t \<longrightarrow> 0 \<le> t))"
| "within P (Evict now prompt) = (prompt \<in> P)"
| "within P _ = True"

section \<open>Simulation\<close>

lemma dbKey_eq: "dbKey C hk p = dbKey C hk q \<longleftrightarrow> hmac C hk p = hmac C hk q"
  unfolding dbKey_def by (metis hex_decode_encode)

lemma secrets_delete:
  "inj_on (hmac C hk) P \<Longrightarrow> p \<in> P \<Longrightarrow> q \<in> P \<Longrightarrow>
   secrets_of C hk ak (AList.delete (dbKey C hk p) r) q = (if p = q then None else secrets_of C hk ak r q)"
  by (auto simp: secrets_of_def rows.get_del dbKey_eq dest: inj_onD)

lemma secrets_update:
  "inj_on (hmac C hk) P \<Longrightarrow> p \<in> P \<Longrightarrow> q \<in> P \<Longrightarrow>
   secrets_of C hk ak (AList.update (dbKey C hk p) e r) q = (if p = q then decrypt C ak e else secrets_of C hk ak r q)"
  by (auto simp: secrets_of_def rows.get_put dbKey_eq dest: inj_onD)

lemma refines_write:
  assumes "refines C hk ak ttl P s m" and "distinct (map fst r)" and "\<forall>p \<in> P. secrets_of C hk ak r p = m' p"
  shows "refines C hk ak ttl P (db_write now r s) m'"
  using assms by (simp add: refines_def inv_write) (simp add: db_write_def)

lemma cache_set_cases:
  assumes "hmacKey s = Some hk" "aesKey s = Some ak" "db s = Some r"
  shows "cache_set C validate mtime now iv prompt pw skip s =
     (case refused validate prompt pw skip of
        Some err \<Rightarrow> (Some err, s)
      | None \<Rightarrow> (None, db_write now (AList.update (dbKey C hk prompt) (encrypt C ak iv (stored mtime now prompt pw)) r) s))"
  using assms by (cases "parseKeyPath prompt")
    (simp_all add: cache_set_def refused_def stored_def Let_def truthy_def split: option.split)

lemma refines_get:
  assumes "refines C hk ak ttl P s m" "inj_on (hmac C hk) P" "prompt \<in> P"
  shows "fst (cache_get C mtime now prompt s) = fst (spec_get ttl mtime now prompt m)
    \<and> refines C hk ak ttl P (snd (cache_get C mtime now prompt s)) (snd (spec_get ttl mtime now prompt m))"
proof -
  obtain r where r: "db s = Some r" "\<forall>p \<in> P. secrets_of C hk ak r p = m p" "distinct (map fst r)"
    "hmacKey s = Some hk" "aesKey s = Some ak" "TTL_MS s = ttl"
    using assms(1) by (auto simp: refines_def cache_inv_def)
  have m: "m prompt = secrets_of C hk ak r prompt" using r(2) assms(3) by simp
  have del: "refines C hk ak ttl P (db_write now (AList.delete (dbKey C hk prompt) r) s) (m(prompt := None))"
    using r assms by (intro refines_write [OF assms(1)]) (auto simp: distinct_delete secrets_delete)
  have same: "m(prompt := None) = m" if "m prompt = None" using that by (rule fun_upd_idem)
  show ?thesis
  proof (cases "map_of r (dbKey C hk prompt)")
    case None
    then show ?thesis using m r assms(1) by (simp add: cache_get_def spec_get_def secrets_of_def)
  next
    case (Some e)
    show ?thesis
    proof (cases "decrypt C ak e")
      case None
      with Some m have "m prompt = None" by (simp add: secrets_of_def)
      then show ?thesis using None Some r del same by (simp add: cache_get_def spec_get_def)
    next
      case (Some p)
      with \<open>map_of r (dbKey C hk prompt) = Some e\<close> m have "m prompt = Some p" by (simp add: secrets_of_def)
      then show ?thesis using Some \<open>map_of r (dbKey C hk prompt) = Some e\<close> r assms(1) del
        by (simp add: cache_get_def spec_get_def)
    qed
  qed
qed

lemma refines_set:
  assumes "refines C hk ak ttl P s m" "inj_on (hmac C hk) P" "opens_sealed C" "within P (Set now mtime iv prompt pw skip)"
  shows "fst (cache_set C validate mtime now iv prompt pw skip s) = fst (spec_set validate mtime now prompt pw skip m)
    \<and> refines C hk ak ttl P (snd (cache_set C validate mtime now iv prompt pw skip s)) (snd (spec_set validate mtime now prompt pw skip m))"
proof -
  obtain r where r: "db s = Some r" "\<forall>p \<in> P. secrets_of C hk ak r p = m p" "distinct (map fst r)"
    "hmacKey s = Some hk" "aesKey s = Some ak"
    using assms(1) by (auto simp: refines_def cache_inv_def)
  let ?p = "stored mtime now prompt pw"
  have "0 \<le> p_storedAt ?p" "0 \<le> p_keyMtime ?p"
    using assms(4) by (auto simp: stored_def Let_def nullish_def split: option.split)
  then have "decrypt C ak (encrypt C ak iv ?p) = Some ?p" by (rule decrypt_encrypt [OF assms(3)])
  then have "refines C hk ak ttl P (db_write now (AList.update (dbKey C hk prompt) (encrypt C ak iv ?p) r) s) (m(prompt \<mapsto> ?p))"
    using r assms by (intro refines_write [OF assms(1)]) (auto simp: secrets_update intro: distinct_update)
  then show ?thesis
    using assms(1) by (simp add: cache_set_cases [OF r(4,5,1)] spec_set_def split: option.split)
qed

lemma refines_step:
  assumes "refines C hk ak ttl P s m" "inj_on (hmac C hk) P" "opens_sealed C" "within P e"
  shows "cache_output C validate s e = fst (spec_step validate ttl m e)
    \<and> refines C hk ak ttl P (cache_step C validate s e) (snd (spec_step validate ttl m e))"
proof (cases e)
  case (Get now mtime prompt)
  with refines_get [OF assms(1,2)] assms(4) show ?thesis by simp
next
  case (Set now mtime iv prompt pw skip)
  with refines_set [OF assms(1-3)] assms(4) show ?thesis by simp
next
  case (Evict now prompt)
  obtain r where r: "db s = Some r" "\<forall>p \<in> P. secrets_of C hk ak r p = m p" "distinct (map fst r)" "hmacKey s = Some hk"
    using assms(1) by (auto simp: refines_def cache_inv_def)
  have "refines C hk ak ttl P (db_write now (AList.delete (dbKey C hk prompt) r) s) (m(prompt := None))"
    using r assms Evict by (intro refines_write [OF assms(1)]) (auto simp: distinct_delete secrets_delete)
  with r Evict show ?thesis by (simp add: cache_evict_def)
next
  case (ClearAll now)
  obtain r where r: "db s = Some r" "\<forall>p \<in> P. secrets_of C hk ak r p = m p" "distinct (map fst r)"
    using assms(1) by (auto simp: refines_def cache_inv_def)
  have none: "secrets_of C hk ak (fold AList.delete (map fst r) r) p = None" for p
    by (auto simp: secrets_of_def rows.get_dels split: option.split dest: map_of_SomeD) (metis fst_conv image_eqI map_of_SomeD)
  have "refines C hk ak ttl P (db_write now (fold AList.delete (map fst r) r) s) Map.empty"
    using r none by (intro refines_write [OF assms(1)]) (auto intro: distinct_dels)
  moreover have "refines C hk ak ttl P s Map.empty" if "r = []"
    using assms(1) r that by (simp add: refines_def secrets_of_def)
  ultimately show ?thesis using r ClearAll by (simp add: clearAll_def)
next
  case (Sweep now mtime)
  obtain r where r: "db s = Some r" "\<forall>p \<in> P. secrets_of C hk ak r p = m p" "distinct (map fst r)" "aesKey s = Some ak"
    "hmacKey s = Some hk" "TTL_MS s = ttl"
    using assms(1) by (auto simp: refines_def cache_inv_def)
  have "cache_inv (sweep C mtime now s)" using assms(1) by (simp add: refines_def inv_sweep)
  moreover have "hmacKey (sweep C mtime now s) = Some hk" "aesKey (sweep C mtime now s) = Some ak" "TTL_MS (sweep C mtime now s) = ttl"
    using r by (simp_all add: sweep_def Let_def db_write_def openDb_def)
  moreover have "secrets_of C hk ak (fold AList.delete (sweep_keys C ak ttl mtime now r) r) p = spec_sweep ttl mtime now m p" if "p \<in> P" for p
  proof -
    have "m p = secrets_of C hk ak r p" using r(2) that by simp
    then show ?thesis
      by (auto simp: secrets_of_def sweep_rows [OF r(3)] entry_alive_def spec_sweep_def split: option.splits)
  qed
  ultimately show ?thesis
    using db_sweep [OF r(1,4), of C mtime now] r(6) Sweep by (simp add: refines_def)
qed

lemma refines_trace:
  "refines C hk ak ttl P s m \<Longrightarrow> inj_on (hmac C hk) P \<Longrightarrow> opens_sealed C \<Longrightarrow> list_all (within P) es \<Longrightarrow>
   cache_trace C validate s es = spec_trace validate ttl m es"
proof (induction es arbitrary: s m)
  case (Cons e es)
  then show ?case using refines_step [of C hk ak ttl P s m e validate] by (simp add: case_prod_beta)
qed simp

section \<open>Properties\<close>

text \<open>C40. The encrypted cache refines a map of secrets: from any open cache, every sequence of lookups,
  stores, evictions, clearings and sweeps answers what the specification answers that starts with
  the secrets the cache holds, provided the prompts in use do not collide under the HMAC.\<close>

theorem cache_refines_secrets:
  assumes "opens_sealed C" and "inj_on (hmac C hk) P" and "list_all (within P) es"
    and "cache_inv s" and "hmacKey s = Some hk" and "aesKey s = Some ak" and "db s = Some r"
  shows "cache_trace C validate s es = spec_trace validate (TTL_MS s) (secrets_of C hk ak r) es"
proof -
  have "refines C hk ak (TTL_MS s) P s (secrets_of C hk ak r)" using assms(4-7) by (simp add: refines_def)
  from refines_trace [OF this assms(2,1,3)] show ?thesis .
qed

theorem cache_refines_secrets_witness:
  "cache_trace clear_crypto (\<lambda>_ _. None) open_cache [Set 10 (\<lambda>_. None) [] ''pw?'' ''x'' False, Get 60 (\<lambda>_. None) ''pw?'', Get 200 (\<lambda>_. None) ''pw?'']
   = [None, Some ''x'', None]"
proof -
  have "inj_on (hmac clear_crypto [1]) UNIV"
    by (rule inj_onI) (metis clear_crypto_def crypto.select_convs(2) utf8_string_bytes)
  moreover have "parseKeyPath ''pw?'' = None" by (simp add: parseKeyPath_def)
  ultimately show ?thesis
    using cache_refines_secrets [OF clear_crypto_opens, of "[1]" UNIV
        "[Set 10 (\<lambda>_. None) [] ''pw?'' ''x'' False, Get 60 (\<lambda>_. None) ''pw?'', Get 200 (\<lambda>_. None) ''pw?'']" open_cache "[2]" "[]" "\<lambda>_ _. None"]
    by (simp add: open_cache_def cache_inv_def secrets_of_def spec_set_def spec_get_def refused_def stored_def entry_stale_def Let_def)
qed

end
