(* ===== verification/LocalMain.thy ===== *)
theory LocalMain
  imports LocalServer
begin

text \<open>
  \<^verbatim>\<open>src/ssh/localServer.ts\<close>: \<^verbatim>\<open>main\<close>, the life of the session process from the start of ssh to
  \<^verbatim>\<open>process.exit\<close>. It is a machine over what the process is told: how ssh and the handshake end, what
  the HTTP server reports, requests, and the clock. The parsed configuration and the id of the ssh
  child are arguments, and so is whether the data file can be written. Requests are served once the
  HTTP server listens.
\<close>

record session_main =
  sm_server :: server
  sm_ready :: bool
  sm_listening :: bool
  sm_exit :: "nat option"

datatype main_event =
    SshEnded bool
  | HandshakeEnded nat "unit result"
  | HttpListening
  | HttpFailed
  | Clock nat
  | Request nat req
  | UncaughtException js_error

definition main_start :: "server_config \<Rightarrow> string \<Rightarrow> nat \<Rightarrow> nat \<Rightarrow> session_main" where
  "main_start cfg token pid now =
     \<lparr>sm_server = createServerState cfg token (Some (Some pid)) now, sm_ready = False, sm_listening = False, sm_exit = None\<rparr>"

text \<open>\<^verbatim>\<open>onShutdown\<close> is \<^verbatim>\<open>process.exit(0)\<close>.\<close>

definition after_server :: "server \<Rightarrow> session_main \<Rightarrow> session_main" where
  "after_server s m = m\<lparr>sm_server := s, sm_exit := (if shut_down s then Some 0 else None)\<rparr>"

definition main_step :: "bool \<Rightarrow> bool \<Rightarrow> session_main \<Rightarrow> main_event \<Rightarrow> session_main" where
  "main_step windows writable m e =
     (if sm_exit m \<noteq> None then m
      else case e of
        SshEnded spawn_error \<Rightarrow>
          (let (s, code) = child_ended windows spawn_error (sm_server m) in m\<lparr>sm_server := s, sm_exit := Some code\<rparr>)
      | HandshakeEnded now r \<Rightarrow>
          if sm_ready m then m
          else (case r of
                  Inl _ \<Rightarrow> m\<lparr>sm_exit := Some 1\<rparr>
                | Inr _ \<Rightarrow> m\<lparr>sm_server := handshake_done writable now (sm_server m), sm_ready := True\<rparr>)
      | HttpListening \<Rightarrow> if sm_ready m then m\<lparr>sm_listening := True\<rparr> else m
      | HttpFailed \<Rightarrow> if sm_ready m then m\<lparr>sm_exit := Some 1\<rparr> else m
      | Clock now \<Rightarrow> after_server (shutdown_timer_fires windows now (sm_server m)) m
      | Request now r \<Rightarrow>
          if sm_listening m then after_server (fst (handleRequest windows now (sm_server m) r)) m else m
      | UncaughtException _ \<Rightarrow> m)"

section \<open>The machine\<close>

text \<open>Until the end the child runs and no shutdown is recorded; a data file names the child, and it is
  there only after the handshake; \<open>cfg\<close> and \<open>token\<close> do not change. At the end everything is cleaned
  up, unless the process gave up by itself.\<close>

definition cleaned :: "bool \<Rightarrow> server \<Rightarrow> bool" where
  "cleaned windows s = (killed s \<and> data_file s = None \<and> dataFilePath (config s) \<in> set (unlinked s)
     \<and> (windows \<or> ipcHandlePath (config s) = [] \<or> ipcHandlePath (config s) \<in> set (unlinked s)))"

definition session_live :: "server \<Rightarrow> bool" where
  "session_live s = (\<not> shut_down s \<and> \<not> killed s \<and> unlinked s = [])"

definition main_inv :: "bool \<Rightarrow> server_config \<Rightarrow> string \<Rightarrow> nat \<Rightarrow> session_main \<Rightarrow> bool" where
  "main_inv windows cfg token pid m =
     (config (sm_server m) = cfg \<and> tokenHex (sm_server m) = token \<and> sshChild (sm_server m) = Some (Some pid) \<and> dataFilePath cfg \<noteq> []
      \<and> (sm_listening m \<longrightarrow> sm_ready m) \<and> (\<not> sm_ready m \<longrightarrow> data_file (sm_server m) = None \<and> shutdownTimer (sm_server m) = None)
      \<and> (case sm_exit m of
           None \<Rightarrow> session_live (sm_server m) \<and> (sm_ready m \<longrightarrow> shutdownTimer (sm_server m) \<noteq> None)
         | Some code \<Rightarrow> cleaned windows (sm_server m) \<or> (code = 1 \<and> session_live (sm_server m))))"

lemma cleanup_cleans: "dataFilePath (config s) \<noteq> [] \<Longrightarrow> sshChild s \<noteq> None \<Longrightarrow> cleaned windows (cleanup windows s)"
  by (auto simp: cleaned_def cleanup_def Let_def)

lemma cleanup_same [simp]:
  "config (cleanup windows s) = config s" "tokenHex (cleanup windows s) = tokenHex s" "sshChild (cleanup windows s) = sshChild s"
  "sshAlive (cleanup windows s) = sshAlive s" "shutdownTimer (cleanup windows s) = None"
  by (simp_all add: cleanup_def Let_def)

lemma request_state:
  "(\<exists>n t. fst (handleRequest windows now s r) = s\<lparr>refcount := n, shutdownTimer := t\<rparr>
       \<and> (t = shutdownTimer s \<or> t = Some (now + shutdownTimeoutMs (config s))))
   \<or> fst (handleRequest windows now s r) = (cleanup windows s)\<lparr>shut_down := True\<rparr>"
proof -
  define P where "P = (\<lambda>x. (\<exists>n t. x = s\<lparr>refcount := n, shutdownTimer := t\<rparr> \<and> (t = shutdownTimer s \<or> t = Some (now + shutdownTimeoutMs (config s))))
     \<or> x = (cleanup windows s)\<lparr>shut_down := True\<rparr>)"
  have timers: "P (s\<lparr>refcount := n, shutdownTimer := t\<rparr>)" if "t = shutdownTimer s \<or> t = Some (now + shutdownTimeoutMs (config s))" for n t
    using that unfolding P_def by blast
  have kept: "P s" "P (s\<lparr>refcount := n\<rparr>)" for n
    using timers [of "shutdownTimer s" "refcount s"] timers [of "shutdownTimer s" n] by simp_all
  have reset: "P (resetShutdownTimer now s)" "P (resetShutdownTimer now (s\<lparr>refcount := n\<rparr>))" for n
    using timers [of "Some (now + shutdownTimeoutMs (config s))" "refcount s"] timers [of "Some (now + shutdownTimeoutMs (config s))" n]
    by (simp_all add: resetShutdownTimer_def)
  have "P ((cleanup windows s)\<lparr>shut_down := True\<rparr>)" by (simp add: P_def)
  with kept reset have "P (fst (route windows now s path body))" for path body
    by (simp add: route_def Let_def)
  with kept have "P (fst (handleRequest windows now s r))" by (simp add: handleRequest_def split: option.split)
  then show ?thesis by (simp add: P_def)
qed

lemma inv_after_server:
  assumes "main_inv windows cfg token pid m" and "sm_exit m = None"
    and "(s = (sm_server m)\<lparr>refcount := n, shutdownTimer := t\<rparr> \<and> (sm_ready m \<longrightarrow> t \<noteq> None) \<and> (\<not> sm_ready m \<longrightarrow> t = None))
       \<or> (sm_ready m \<and> s = (cleanup windows (sm_server m))\<lparr>shut_down := True\<rparr>)"
  shows "main_inv windows cfg token pid (after_server s m)"
  using assms(3)
proof
  assume "s = (sm_server m)\<lparr>refcount := n, shutdownTimer := t\<rparr> \<and> (sm_ready m \<longrightarrow> t \<noteq> None) \<and> (\<not> sm_ready m \<longrightarrow> t = None)"
  with assms(1,2) show ?thesis by (simp add: main_inv_def after_server_def session_live_def)
next
  assume s: "sm_ready m \<and> s = (cleanup windows (sm_server m))\<lparr>shut_down := True\<rparr>"
  have "cleaned windows ((cleanup windows (sm_server m))\<lparr>shut_down := True\<rparr>)"
    using cleanup_cleans [of "sm_server m" windows] assms(1) by (simp add: main_inv_def cleaned_def)
  with s assms(1,2) show ?thesis by (simp add: main_inv_def after_server_def)
qed

interpretation session_life: settling "main_step windows writable" "main_inv windows cfg token pid" "\<lambda>m. sm_exit m \<noteq> None" sm_exit
  for windows writable cfg token pid
proof unfold_locales
  fix m e
  assume inv: "main_inv windows cfg token pid m"
  show "main_inv windows cfg token pid (main_step windows writable m e)"
  proof (cases "sm_exit m")
    case None
    show ?thesis
    proof (cases e)
      case (SshEnded spawn_error)
      with None inv cleanup_cleans [of "sm_server m\<lparr>sshAlive := False\<rparr>" windows] show ?thesis
        by (auto simp: main_step_def main_inv_def child_ended_def cleaned_def)
    next
      case (HandshakeEnded now r)
      with None inv show ?thesis
        by (cases r) (auto simp: main_step_def main_inv_def handshake_done_def writePersistenceFile_def resetShutdownTimer_def session_live_def)
    next
      case HttpListening
      with None inv show ?thesis by (auto simp: main_step_def main_inv_def)
    next
      case HttpFailed
      with None inv show ?thesis by (auto simp: main_step_def main_inv_def)
    next
      case (Clock now)
      have "main_inv windows cfg token pid (after_server (shutdown_timer_fires windows now (sm_server m)) m)"
        using inv None
        by (intro inv_after_server [where n = "refcount (sm_server m)" and t = "shutdownTimer (sm_server m)"])
          (auto simp: shutdown_timer_fires_def main_inv_def split: option.split)
      with Clock None show ?thesis by (simp add: main_step_def)
    next
      case (Request now r)
      show ?thesis
      proof (cases "sm_listening m")
        case True
        then have ready: "sm_ready m" using inv by (simp add: main_inv_def)
        moreover have "shutdownTimer (sm_server m) \<noteq> None" using inv None ready by (simp add: main_inv_def)
        ultimately have "main_inv windows cfg token pid (after_server (fst (handleRequest windows now (sm_server m) r)) m)"
          using request_state [of windows now "sm_server m" r] inv_after_server [OF inv None] by blast
        with Request None True show ?thesis by (simp add: main_step_def)
      qed (use Request None inv in \<open>simp add: main_step_def\<close>)
    qed (use None inv in \<open>simp add: main_step_def\<close>)
  qed (use inv in \<open>simp add: main_step_def\<close>)
qed (simp add: main_step_def)

lemma main_start_inv: "dataFilePath cfg \<noteq> [] \<Longrightarrow> main_inv windows cfg token pid (main_start cfg token pid now)"
  by (simp add: main_inv_def main_start_def createServerState_def session_live_def)

text \<open>Who gave up.\<close>

lemma gave_up_step:
  assumes "sm_exit m = None" and "main_inv windows cfg token pid m"
    and "sm_exit (main_step windows writable m e) = Some 1" and "session_live (sm_server (main_step windows writable m e))"
  shows "e = HttpFailed \<or> (\<exists>now x. e = HandshakeEnded now (Inl x))"
proof (cases e)
  case (SshEnded b)
  have "killed (sm_server (main_step windows writable m e))"
    using SshEnded assms(1,2) by (simp add: main_step_def child_ended_def cleanup_def Let_def main_inv_def)
  then show ?thesis using assms(4) by (simp add: session_live_def)
next
  case (HandshakeEnded now r)
  then show ?thesis using assms(1,3) by (cases r) (auto simp: main_step_def split: if_splits)
qed (use assms(1,3) in \<open>auto simp: main_step_def after_server_def split: if_splits\<close>)

lemma gave_up:
  "sm_exit (foldl (main_step windows writable) m es) = Some 1 \<Longrightarrow> sm_exit m = None \<Longrightarrow>
   session_live (sm_server (foldl (main_step windows writable) m es)) \<Longrightarrow> main_inv windows cfg token pid m \<Longrightarrow>
   HttpFailed \<in> set es \<or> (\<exists>now e. HandshakeEnded now (Inl e) \<in> set es)"
proof (induction es arbitrary: m)
  case (Cons e es)
  show ?case
  proof (cases "sm_exit (main_step windows writable m e)")
    case None
    with Cons session_life.inv_step [OF Cons.prems(4), of writable e] show ?thesis by auto
  next
    case (Some code)
    have "foldl (main_step windows writable) m' es = m'" if "sm_exit m' \<noteq> None" for m' es
      using that by (induction es) (simp_all add: main_step_def)
    with Some have "foldl (main_step windows writable) m (e # es) = main_step windows writable m e" by simp
    with gave_up_step [OF Cons.prems(2,4)] Cons.prems(1,3) show ?thesis by auto
  qed
qed simp

section \<open>Properties\<close>

text \<open>C39. However the session process ends, nothing of it stays behind: ssh is killed, and the data file
  and the socket are removed; the only exceptions are a failed handshake and a failure of the HTTP
  server, after which nothing is cleaned up.\<close>

theorem session_end_cleans_up:
  assumes "dataFilePath cfg \<noteq> []"
    and "sm_exit (foldl (main_step windows writable) (main_start cfg token pid now) es) = Some code"
  shows "cleaned windows (sm_server (foldl (main_step windows writable) (main_start cfg token pid now) es))
    \<or> (code = 1 \<and> (HttpFailed \<in> set es \<or> (\<exists>t e. HandshakeEnded t (Inl e) \<in> set es)))"
proof -
  have "main_inv windows cfg token pid (foldl (main_step windows writable) (main_start cfg token pid now) es)"
    by (rule session_life.inv_run [OF main_start_inv [OF assms(1)]])
  with assms(2) gave_up [of windows writable "main_start cfg token pid now" es cfg token pid] main_start_inv [OF assms(1)]
  show ?thesis by (auto simp: main_inv_def main_start_def)
qed

theorem session_end_cleans_up_witness:
  "cleaned False (sm_server (foldl (main_step False True)
      (main_start \<lparr>ipcHandlePath = ''/s'', sshArgs = [], dataFilePath = ''/d'', shutdownTimeoutMs = 10\<rparr> ''ab'' 77 0)
      [HandshakeEnded 5 (Inr ()), HttpListening, Clock 20]))"
proof -
  let ?cfg = "\<lparr>ipcHandlePath = ''/s'', sshArgs = [], dataFilePath = ''/d'', shutdownTimeoutMs = 10\<rparr>"
  have "sm_exit (foldl (main_step False True) (main_start ?cfg ''ab'' 77 0) [HandshakeEnded 5 (Inr ()), HttpListening, Clock 20]) = Some 0"
    by (simp add: main_step_def main_start_def handshake_done_def resetShutdownTimer_def writePersistenceFile_def createServerState_def
        shutdown_timer_fires_def after_server_def)
  from session_end_cleans_up [OF _ this] show ?thesis by simp
qed

text \<open>A session that nobody uses ends: once the handshake has succeeded at time \<open>t\<close>, and as long as no
  request carries the token, the process has ended when the clock reaches the shutdown time after \<open>t\<close>,
  whatever else happens.\<close>

theorem unused_session_ends:
  assumes "\<forall>now r. Request now r \<in> set es \<longrightarrow> \<not> (\<exists>p. r_authorization r = Some (''Bearer '' @ p) \<and> timingSafeTokenCompare (Some p) token)"
    and "t + shutdownTimeoutMs cfg \<le> now"
  shows "sm_exit (foldl (main_step windows writable) (main_start cfg token pid started) (HandshakeEnded t (Inr ()) # es @ [Clock now])) \<noteq> None"
proof -
  define waits where "waits = (\<lambda>m :: session_main. sm_exit m \<noteq> None \<or>
    (sm_ready m \<and> tokenHex (sm_server m) = token \<and> config (sm_server m) = cfg \<and> shutdownTimer (sm_server m) = Some (t + shutdownTimeoutMs cfg)))"
  have "waits (foldl (main_step windows writable) m es)" if "waits m" for m
    using that assms(1)
  proof (induction es arbitrary: m)
    case (Cons e es)
    have "fst (handleRequest windows time (sm_server m) r) = sm_server m" if "e = Request time r" "sm_exit m = None" for time r
    proof -
      have "\<not> (\<exists>p. r_authorization r = Some (''Bearer '' @ p) \<and> validToken (sm_server m) (Some p))"
        using Cons.prems that by (auto simp: waits_def validToken_def)
      from handleRequest_refused [OF this, of windows time] show ?thesis by auto
    qed
    then have "waits (main_step windows writable m e)"
      using Cons.prems(1)
      by (cases e) (auto simp: waits_def main_step_def after_server_def child_ended_def shutdown_timer_fires_def)
    with Cons show ?case by simp
  qed simp
  moreover have "waits (main_step windows writable (main_start cfg token pid started) (HandshakeEnded t (Inr ())))"
    by (simp add: waits_def main_step_def main_start_def handshake_done_def resetShutdownTimer_def writePersistenceFile_def createServerState_def)
  ultimately have w: "waits (foldl (main_step windows writable) (main_start cfg token pid started) (HandshakeEnded t (Inr ()) # es))"
    by simp
  have "sm_exit (main_step windows writable m (Clock now)) \<noteq> None" if "waits m" for m
    using that assms(2) by (cases "sm_exit m") (auto simp: waits_def main_step_def after_server_def shutdown_timer_fires_def)
  with w show ?thesis by simp
qed

theorem unused_session_ends_witness:
  "sm_exit (foldl (main_step False True)
      (main_start \<lparr>ipcHandlePath = ''/s'', sshArgs = [], dataFilePath = ''/d'', shutdownTimeoutMs = 10\<rparr> ''ab'' 77 0)
      [HandshakeEnded 5 (Inr ()), HttpListening, Request 9 \<lparr>r_authorization = None, r_pathname = Some ''/attach'', r_body = []\<rparr>, Clock 15]) \<noteq> None"
  using unused_session_ends [of "[HttpListening, Request 9 \<lparr>r_authorization = None, r_pathname = Some ''/attach'', r_body = []\<rparr>]" "''ab''" 5
      "\<lparr>ipcHandlePath = ''/s'', sshArgs = [], dataFilePath = ''/d'', shutdownTimeoutMs = 10\<rparr>" 15 False True 77 0]
  by simp

text \<open>When listening fails, the data file goes on naming a session that nobody serves, and ssh runs on.\<close>

lemma http_failure_leaves_session:
  assumes "pid \<noteq> 0"
  shows "let m = foldl (main_step windows True) (main_start cfg token pid now) [HandshakeEnded t (Inr ()), HttpFailed]
     in sm_exit m = Some 1 \<and> \<not> killed (sm_server m) \<and> unlinked (sm_server m) = []
      \<and> data_file (sm_server m) = Some (stringify (session_record (sm_server m) pid))"
  using assms by (simp add: main_step_def main_start_def handshake_done_def resetShutdownTimer_def writePersistenceFile_def
      createServerState_def session_record_def Let_def)

end
