(* ===== verification/GoServer.thy ===== *)
theory GoServer
  imports Transport Paths
begin

text \<open>
  The other end of the transport, \<^verbatim>\<open>go/tunnel/main.go\<close>: how the Go server reads a request from a
  connection, checks its token, confines the paths and answers, for the operations on files and for
  running a command. The remote host is a tree of files, addressed by the components of the path,
  with the paths on which the system refuses access. Symbolic links are not part of it: the server
  compares paths as text and never asks where a link leads, while its operation that unpacks an archive
  (\<^verbatim>\<open>zygos.go\<close>) creates links, so that what is shown here of paths says nothing of what lies behind a
  link inside the roots. The remaining operations, the umask and what a command does are parameters. \<open>go_net\<close> connects the client of the
  theory \<open>Transport\<close> to this server, so that statements reach from one to the other.
\<close>

section \<open>The host\<close>

datatype go_node = GDir | GFile bytes nat

record go_host =
  gh_nodes :: "string list \<Rightarrow> go_node option"
  gh_denied :: "string list \<Rightarrow> bool"

text \<open>How a command ends: it exits, a signal kills it, or it cannot be run at all.\<close>

datatype run_end = Exited nat | Signalled | NotRun

text \<open>What the server runs with; \<open>ge_run\<close> gives the output of a command and how it ended.\<close>

record go_env =
  ge_bearer :: bytes
  ge_root :: "string list"
  ge_writeRoots :: "string list list"
  ge_umask :: "nat \<Rightarrow> nat"
  ge_run :: "string \<Rightarrow> string list \<Rightarrow> string \<Rightarrow> (string \<times> string) list option \<Rightarrow> go_host \<Rightarrow> (bytes \<times> bytes \<times> run_end) \<times> go_host"
  ge_kill :: "nat \<Rightarrow> bool"
  ge_other :: "byte \<Rightarrow> bytes \<Rightarrow> bytes \<Rightarrow> go_host \<Rightarrow> bytes \<times> go_host"

definition set_node :: "string list \<Rightarrow> go_node \<Rightarrow> go_host \<Rightarrow> go_host" where
  "set_node p n h = h\<lparr>gh_nodes := (gh_nodes h)(p \<mapsto> n)\<rparr>"

text \<open>\<^verbatim>\<open>os.MkdirAll\<close>, from the components done to those left; the result tells whether it succeeded.\<close>

fun mkdir_from :: "string list \<Rightarrow> string list \<Rightarrow> go_host \<Rightarrow> bool \<times> go_host" where
  "mkdir_from d [] h = (True, h)"
| "mkdir_from d (c # cs) h =
     (case gh_nodes h (d @ [c]) of
        Some GDir \<Rightarrow> mkdir_from (d @ [c]) cs h
      | Some (GFile _ _) \<Rightarrow> (False, h)
      | None \<Rightarrow> if gh_denied h (d @ [c]) then (False, h) else mkdir_from (d @ [c]) cs (set_node (d @ [c]) GDir h))"

definition mkdir_all :: "string list \<Rightarrow> go_host \<Rightarrow> bool \<times> go_host" where
  "mkdir_all p h = mkdir_from [] p h"

text \<open>What an \<^verbatim>\<open>os.FileMode\<close> becomes for the system: the permissions, and Go's own bits for setuid, setgid
  and sticky. The files are those of the server's user, so the owner's bits decide.\<close>

definition syscallMode :: "nat \<Rightarrow> nat" where
  "syscallMode m = m mod 512 + (if odd (m div 2 ^ 23) then 2048 else 0)
     + (if odd (m div 2 ^ 22) then 1024 else 0) + (if odd (m div 2 ^ 20) then 512 else 0)"

definition owner_reads :: "nat \<Rightarrow> bool" where "owner_reads m = odd (m div 256)"
definition owner_writes :: "nat \<Rightarrow> bool" where "owner_writes m = odd (m div 128)"

text \<open>\<^verbatim>\<open>os.OpenFile\<close> with \<^verbatim>\<open>O_CREATE|O_WRONLY|O_TRUNC\<close>: the mode the file has then, or failure.\<close>

definition open_truncated :: "go_env \<Rightarrow> string list \<Rightarrow> nat \<Rightarrow> go_host \<Rightarrow> nat option" where
  "open_truncated G p mode h =
     (if gh_denied h p \<or> p = [] \<or> gh_nodes h (butlast p) \<noteq> Some GDir then None
      else case gh_nodes h p of
             None \<Rightarrow> Some (ge_umask G (syscallMode mode))
           | Some GDir \<Rightarrow> None
           | Some (GFile _ m) \<Rightarrow> if owner_writes m then Some m else None)"

section \<open>Arguments\<close>

text \<open>\<^verbatim>\<open>json.Unmarshal\<close> into a field: names match in any letter case, the last one counts, null and a
  missing field leave the zero value, another type is an error (\<^term>\<open>None\<close>).\<close>

definition go_field :: "(json \<Rightarrow> 'a option) \<Rightarrow> 'a \<Rightarrow> string \<Rightarrow> json \<Rightarrow> 'a option" where
  "go_field get zero name j =
     (case j of
        JNull \<Rightarrow> Some zero
      | JObj kvs \<Rightarrow>
          fold (\<lambda>(k, v) acc. if to_lower k \<noteq> name \<or> v = JNull then acc
                             else case (acc, get v) of (Some _, Some x) \<Rightarrow> Some x | _ \<Rightarrow> None) kvs (Some zero)
      | _ \<Rightarrow> None)"

definition go_string :: "string \<Rightarrow> json \<Rightarrow> string option" where
  "go_string name j = go_field (\<lambda>v. case v of JStr s \<Rightarrow> Some s | _ \<Rightarrow> None) [] name j"

definition go_strings :: "string \<Rightarrow> json \<Rightarrow> string list option" where
  "go_strings name j = go_field (\<lambda>v. case v of
       JArr vs \<Rightarrow> those (map (\<lambda>x. case x of JStr s \<Rightarrow> Some s | JNull \<Rightarrow> Some [] | _ \<Rightarrow> None) vs) | _ \<Rightarrow> None) [] name j"

definition go_map :: "string \<Rightarrow> json \<Rightarrow> (string \<times> string) list option option" where
  "go_map name j = go_field (\<lambda>v. case v of
       JObj kvs \<Rightarrow> map_option Some (those (map (\<lambda>(k, x). case x of JStr s \<Rightarrow> Some (k, s) | JNull \<Rightarrow> Some (k, []) | _ \<Rightarrow> None) kvs))
     | _ \<Rightarrow> None) None name j"

text \<open>A number fits an \<^verbatim>\<open>int\<close> when it is written as an integer within 64 bits.\<close>

definition go_int :: "string \<Rightarrow> json \<Rightarrow> int option" where
  "go_int name j = go_field (\<lambda>v. case v of
       JNum l \<Rightarrow> (if all_digits (if l \<noteq> [] \<and> hd l = CHR ''-'' then tl l else l)
                  then (case parse_int l of Some n \<Rightarrow> if - (2 ^ 63) \<le> n \<and> n < 2 ^ 63 then Some n else None | None \<Rightarrow> None)
                  else None)
     | _ \<Rightarrow> None) 0 name j"

text \<open>\<^verbatim>\<open>fmt.Sscanf(s, "%o", &m)\<close>.\<close>

definition parseMode :: "string \<Rightarrow> nat" where
  "parseMode s =
     (let ds = takeWhile (\<lambda>c. is_digit c \<and> c \<notin> {CHR ''8'', CHR ''9''}) (dropWhile is_space s);
          m = foldl (\<lambda>n c. 8 * n + (of_char c - 48)) 0 ds
      in if ds = [] \<or> 2 ^ 32 \<le> m \<or> m = 0 then 384 else m)"

section \<open>Path scoping\<close>

text \<open>\<^verbatim>\<open>resolveUnder\<close> cleans the path and compares it with the root as text; links are not followed.\<close>

definition go_rel :: "string list \<Rightarrow> string list \<Rightarrow> string list" where
  "go_rel base target =
     (let c = length (longest_common_prefix base target)
      in replicate (length base - c) ''..'' @ drop c target)"

definition resolveUnder :: "string list \<Rightarrow> string \<Rightarrow> string list option" where
  "resolveUnder base p =
     (if p = [] then None
      else let comps = js_split (CHR ''/'') p;
               cleaned = norm_segments True [] (if hd p = CHR ''/'' then comps else base @ comps)
           in case go_rel base cleaned of
                d # _ \<Rightarrow> if d = ''..'' then None else Some cleaned
              | [] \<Rightarrow> Some cleaned)"

definition resolveRead :: "go_env \<Rightarrow> string \<Rightarrow> string list option" where
  "resolveRead G p = resolveUnder (ge_root G) p"

definition resolveWrite :: "go_env \<Rightarrow> string \<Rightarrow> string list option" where
  "resolveWrite G p = (case List.map_filter (\<lambda>wr. resolveUnder wr p) (ge_writeRoots G) of [] \<Rightarrow> None | q # _ \<Rightarrow> Some q)"

section \<open>Operations\<close>

definition ST_ERROR :: byte where "ST_ERROR = 1"
definition ST_BADREQ :: byte where "ST_BADREQ = 3"
definition ST_DENIED :: byte where "ST_DENIED = 4"

definition status :: "byte \<Rightarrow> bytes" where "status st = encode_response st []"

text \<open>An upload that the client has not ended is in the file as far as it has come, without an answer.\<close>

definition doPut :: "go_env \<Rightarrow> json \<Rightarrow> bytes \<Rightarrow> bool \<Rightarrow> go_host \<Rightarrow> bytes \<times> go_host" where
  "doPut G j body ended h =
     (case (go_string ''path'' j, go_string ''mode'' j) of
        (Some path, Some mode) \<Rightarrow>
          (case resolveWrite G path of
             None \<Rightarrow> (status ST_DENIED, h)
           | Some p \<Rightarrow>
               (case mkdir_all (butlast p) h of
                  (False, h1) \<Rightarrow> (status ST_ERROR, h1)
                | (True, h1) \<Rightarrow>
                    (case open_truncated G p (parseMode mode) h1 of
                       None \<Rightarrow> (status ST_ERROR, h1)
                     | Some m \<Rightarrow>
                         if ended then (status ST_OK, set_node p (GFile body (syscallMode (parseMode mode))) h1)
                         else ([], set_node p (GFile body m) h1))))
      | _ \<Rightarrow> (status ST_BADREQ, h))"

text \<open>A missing file is told apart from a path that leads through a file; a directory can be opened, but
  nothing can be read from it.\<close>

definition doGet :: "go_env \<Rightarrow> json \<Rightarrow> go_host \<Rightarrow> bytes" where
  "doGet G j h =
     (case go_string ''path'' j of
        None \<Rightarrow> status ST_BADREQ
      | Some path \<Rightarrow>
          (case resolveRead G path of
             None \<Rightarrow> status ST_DENIED
           | Some p \<Rightarrow>
               if gh_denied h p then status ST_ERROR
               else (case gh_nodes h p of
                       None \<Rightarrow> if \<exists>q \<in> set (prefixes p). case gh_nodes h q of Some (GFile _ _) \<Rightarrow> True | _ \<Rightarrow> False
                               then status ST_ERROR else status ST_MISSING
                     | Some GDir \<Rightarrow> status ST_OK
                     | Some (GFile content m) \<Rightarrow> if owner_reads m then status ST_OK @ content else status ST_ERROR)))"

definition doMkdir :: "go_env \<Rightarrow> json \<Rightarrow> go_host \<Rightarrow> bytes \<times> go_host" where
  "doMkdir G j h =
     (case go_string ''path'' j of
        None \<Rightarrow> (status ST_BADREQ, h)
      | Some path \<Rightarrow>
          (case resolveWrite G path of
             None \<Rightarrow> (status ST_DENIED, h)
           | Some p \<Rightarrow> (let (ok, h1) = mkdir_all p h in (status (if ok then ST_OK else ST_ERROR), h1))))"

text \<open>\<^verbatim>\<open>os.RemoveAll\<close>; the root directory itself stays.\<close>

definition doRm :: "go_env \<Rightarrow> json \<Rightarrow> go_host \<Rightarrow> bytes \<times> go_host" where
  "doRm G j h =
     (case go_string ''path'' j of
        None \<Rightarrow> (status ST_BADREQ, h)
      | Some path \<Rightarrow>
          (case resolveWrite G path of
             None \<Rightarrow> (status ST_DENIED, h)
           | Some p \<Rightarrow>
               if gh_denied h p then (status ST_ERROR, h)
               else (status (if p = [] then ST_ERROR else ST_OK), h\<lparr>gh_nodes := (\<lambda>q. if prefix p q \<and> q \<noteq> [] then None else gh_nodes h q)\<rparr>)))"

text \<open>\<^verbatim>\<open>os.Rename\<close>: onto nothing, or a file onto a file; it refuses an existing directory as the target.\<close>

definition can_rename :: "string list \<Rightarrow> string list \<Rightarrow> go_host \<Rightarrow> bool" where
  "can_rename from to h =
     (\<not> gh_denied h from \<and> \<not> gh_denied h to \<and> from \<noteq> [] \<and> to \<noteq> [] \<and> \<not> strict_prefix from to
      \<and> gh_nodes h (butlast to) = Some GDir
      \<and> (case (gh_nodes h from, gh_nodes h to) of
           (None, _) \<Rightarrow> False
         | (Some _, None) \<Rightarrow> True
         | (Some (GFile _ _), Some (GFile _ _)) \<Rightarrow> True
         | _ \<Rightarrow> False))"

definition renamed :: "string list \<Rightarrow> string list \<Rightarrow> go_host \<Rightarrow> go_host" where
  "renamed from to h =
     (if from = to then h
      else h\<lparr>gh_nodes := (\<lambda>q. if prefix to q then gh_nodes h (from @ drop (length to) q)
                               else if prefix from q then None else gh_nodes h q)\<rparr>)"

definition doRename :: "go_env \<Rightarrow> json \<Rightarrow> go_host \<Rightarrow> bytes \<times> go_host" where
  "doRename G j h =
     (case (go_string ''from'' j, go_string ''to'' j) of
        (Some a, Some b) \<Rightarrow>
          (case (resolveWrite G a, resolveWrite G b) of
             (Some from, Some to) \<Rightarrow>
               if can_rename from to h then (status ST_OK, renamed from to h) else (status ST_ERROR, h)
           | _ \<Rightarrow> (status ST_DENIED, h))
      | _ \<Rightarrow> (status ST_BADREQ, h))"

definition doKill :: "go_env \<Rightarrow> json \<Rightarrow> bytes" where
  "doKill G j =
     (case go_int ''pid'' j of
        None \<Rightarrow> status ST_BADREQ
      | Some pid \<Rightarrow> if pid \<le> 0 then status ST_BADREQ else status (if ge_kill G (nat pid) then ST_OK else ST_ERROR))"

fun exitCode :: "run_end \<Rightarrow> int" where
  "exitCode (Exited n) = int n"
| "exitCode Signalled = - 1"
| "exitCode NotRun = 1"

definition exec_answer :: "bytes \<Rightarrow> bytes \<Rightarrow> int \<Rightarrow> json" where
  "exec_answer out err code =
     JObj [(''stdout'', JStr (base64_encode out)), (''stderr'', JStr (base64_encode err)), (''exitCode'', JNum (dec_int code))]"

definition doExec :: "go_env \<Rightarrow> json \<Rightarrow> go_host \<Rightarrow> bytes \<times> go_host" where
  "doExec G j h =
     (case (go_string ''cmd'' j, go_strings ''args'' j, go_string ''cwd'' j, go_map ''env'' j) of
        (Some cmd, Some args, Some cwd, Some envv) \<Rightarrow>
          (let ((out, err, e), h1) = ge_run G cmd args cwd envv h
           in (encode_response ST_OK (utf8_bytes (stringify (exec_answer out err (exitCode e)))), h1))
      | _ \<Rightarrow> (status ST_BADREQ, h))"

section \<open>Connections\<close>

definition dispatch :: "go_env \<Rightarrow> byte \<Rightarrow> bytes \<Rightarrow> bytes \<Rightarrow> bool \<Rightarrow> go_host \<Rightarrow> bytes \<times> go_host" where
  "dispatch G op args body ended h =
     (if op = OP_HEALTH then (status ST_OK, h)
      else if op \<notin> {OP_EXEC, OP_PUT, OP_GET, OP_MKDIR, OP_RENAME, OP_RM, OP_KILL} then ge_other G op args body h
      else case parse_json (utf8_string args) of
             Inl _ \<Rightarrow> (status ST_BADREQ, h)
           | Inr j \<Rightarrow>
               if op = OP_EXEC then doExec G j h
               else if op = OP_PUT then doPut G j body ended h
               else if op = OP_GET then (doGet G j h, h)
               else if op = OP_MKDIR then doMkdir G j h
               else if op = OP_RENAME then doRename G j h
               else if op = OP_RM then doRm G j h
               else (doKill G j, h))"

text \<open>What the server answers to the bytes of a connection; nothing is an answer too: it closes.\<close>

definition handleConn :: "go_env \<Rightarrow> bytes \<Rightarrow> bool \<Rightarrow> go_host \<Rightarrow> bytes \<times> go_host" where
  "handleConn G sent ended h =
     (if length sent < 32 \<or> take 32 sent \<noteq> ge_bearer G then ([], h)
      else let r = drop 32 sent
           in if length r < 6 then ([], h)
              else let n = read_be32 (drop 2 r)
                   in if length r < 6 + n then ([], h)
                      else dispatch G (r ! 0) (take n (drop 6 r)) (drop (6 + n) r) ended h)"

text \<open>The client's network: one connection after the other, whose answer arrives cut as \<open>gw_cut\<close> says.\<close>

record go_world =
  gw_host :: go_host
  gw_sent :: bytes
  gw_ended :: bool
  gw_cut :: "bytes \<Rightarrow> bytes list"

definition go_net :: "go_env \<Rightarrow> (go_world, unit) net" where
  "go_net G = \<lparr>dial = (\<lambda>w. (Inr (), w\<lparr>gw_sent := [], gw_ended := False\<rparr>)),
     send = (\<lambda>_ b w. w\<lparr>gw_sent := gw_sent w @ b\<rparr>),
     half_close = (\<lambda>_ w. w\<lparr>gw_ended := True\<rparr>),
     destroy = (\<lambda>_ w. w),
     inbox = (\<lambda>_ w. let (answer, h) = handleConn G (gw_sent w) (gw_ended w) (gw_host w)
                     in (map Chunk (gw_cut w answer) @ [EndOfInput], w\<lparr>gw_host := h\<rparr>))\<rparr>"

section \<open>The connection, seen from both ends\<close>

lemma go_header:
  "writeHeader (go_net G) (hex_encode tok) () op args w
     = w\<lparr>gw_sent := gw_sent w @ tok @ [op, 0] @ be32 (length (stringify args)) @ utf8_bytes (stringify args)\<rparr>"
  by (simp add: writeHeader_def go_net_def frame_header_def Let_def)

lemma handle_request:
  assumes "length (ge_bearer G) = 32" and "length (stringify args) < 4294967296"
  shows "handleConn G (ge_bearer G @ [op, 0] @ be32 (length (stringify args)) @ utf8_bytes (stringify args) @ body) ended h
       = dispatch G op (utf8_bytes (stringify args)) body ended h"
proof -
  let ?n = "length (stringify args)"
  let ?r = "[op, 0] @ be32 ?n @ utf8_bytes (stringify args) @ body"
  have "drop 6 ?r = utf8_bytes (stringify args) @ body" by (simp add: be32_def)
  moreover have "drop (6 + ?n) ?r = drop ?n (drop 6 ?r)" by (simp only: drop_drop add.commute)
  moreover have "read_be32 (drop 2 ?r) = ?n" using assms(2) by simp
  ultimately show ?thesis using assms(1) unfolding handleConn_def Let_def by simp
qed

lemma handle_stranger: "length tok = 32 \<Longrightarrow> tok \<noteq> ge_bearer G \<Longrightarrow> handleConn G (tok @ r) ended h = ([], h)"
  by (simp add: handleConn_def)

lemma send_chunks_go:
  "snd (send_chunks (go_net G) () content off w) = w\<lparr>gw_sent := gw_sent w @ drop off content\<rparr>"
proof (induction "go_net G" "()" content off w rule: send_chunks.induct)
  case (1 content off w)
  show ?case
  proof (cases "off < length content")
    case True
    have "drop off content = take CHUNK (drop off content) @ drop (off + CHUNK) content"
      by (metis append_take_drop_id drop_drop add.commute)
    with 1 [OF True] True show ?thesis
      by (subst send_chunks.simps) (simp add: go_net_def case_prod_unfold)
  qed (subst send_chunks.simps, simp)
qed

text \<open>What the client makes of an answer that is a status, and of a connection that is just closed.\<close>

lemma read_status:
  assumes "concat cs = encode_response st body" "length body < 4294967296"
  shows "\<exists>rest. fst (readResponse (map Chunk cs @ es)) = Inr (st, body, rest)"
  using readResponse_chunks [of body cs st "[]" es] assms by auto

lemma read_closed:
  assumes "concat cs = []"
  shows "fst (readResponse (map Chunk cs @ [EndOfInput])) = Inl (plain_error ''connection closed before response'')"
proof -
  have "fst (resp_run resp_init (map Chunk cs @ [EndOfInput])) = Inl (plain_error ''connection closed before response'')"
    using assms by (induction cs) (simp_all add: resp_init_def resp_data_def)
  then show ?thesis by (simp add: readResponse_def)
qed

lemma go_fields:
  "dial (go_net G) w = (Inr (), w\<lparr>gw_sent := [], gw_ended := False\<rparr>)" "half_close (go_net G) s w = w\<lparr>gw_ended := True\<rparr>"
  "destroy (go_net G) s w = w"
  "inbox (go_net G) s w = (map Chunk (gw_cut w (fst (handleConn G (gw_sent w) (gw_ended w) (gw_host w)))) @ [EndOfInput],
     w\<lparr>gw_host := snd (handleConn G (gw_sent w) (gw_ended w) (gw_host w))\<rparr>)"
  by (simp_all add: go_net_def case_prod_unfold Let_def)

lemma upload_go:
  "fst (fst (upload (go_net G) (hex_encode tok) op args message content w)) =
     (case fst (readResponse (map Chunk (gw_cut w (fst (handleConn G (tok @ [op, 0] @ be32 (length (stringify args)) @ utf8_bytes (stringify args) @ content) True (gw_host w)))) @ [EndOfInput])) of
        Inl e \<Rightarrow> Inl e
      | Inr (st, body, rest) \<Rightarrow> if st \<noteq> ST_OK then Inl (TransportError st (message @ dec (unat st))) else Inr ())"
  "gw_host (snd (upload (go_net G) (hex_encode tok) op args message content w)) =
     snd (handleConn G (tok @ [op, 0] @ be32 (length (stringify args)) @ utf8_bytes (stringify args) @ content) True (gw_host w))"
  "gw_cut (snd (upload (go_net G) (hex_encode tok) op args message content w)) = gw_cut w"
  by (simp_all add: upload_def go_fields Let_def case_prod_unfold send_chunks_go go_header split: sum.split)

lemma request_go:
  "fst (request (go_net G) (hex_encode tok) op args w) = fst (readResponse (map Chunk (gw_cut w
     (fst (handleConn G (tok @ [op, 0] @ be32 (length (stringify args)) @ utf8_bytes (stringify args)) False (gw_host w)))) @ [EndOfInput]))"
  "gw_host (snd (request (go_net G) (hex_encode tok) op args w)) =
     snd (handleConn G (tok @ [op, 0] @ be32 (length (stringify args)) @ utf8_bytes (stringify args)) False (gw_host w))"
  by (simp_all add: request_def await_def go_fields Let_def case_prod_unfold go_header)

section \<open>Confinement\<close>

lemma rel_inside: "resolveUnder base p = Some q \<Longrightarrow> prefix base q"
proof -
  assume "resolveUnder base p = Some q"
  then have "\<not> (\<exists>r. go_rel base q = ''..'' # r)"
    by (auto simp: resolveUnder_def Let_def split: list.splits if_splits)
  then have "length base \<le> length (longest_common_prefix base q)"
    by (cases "length base - length (longest_common_prefix base q)") (auto simp: go_rel_def Let_def)
  moreover have "l = base" if "prefix l base" "length base \<le> length l" for l
    using that by (metis prefix_length_le prefix_order.antisym le_antisym prefixE append_eq_conv_conj take_all_iff)
  ultimately have "longest_common_prefix base q = base" using longest_common_prefix_prefix1 [of base q] by blast
  then show ?thesis using longest_common_prefix_prefix2 [of base q] by simp
qed

lemma write_inside: "resolveWrite G p = Some q \<Longrightarrow> \<exists>wr \<in> set (ge_writeRoots G). prefix wr q"
proof -
  assume "resolveWrite G p = Some q"
  then have "q \<in> set (List.map_filter (\<lambda>wr. resolveUnder wr p) (ge_writeRoots G))"
    by (auto simp: resolveWrite_def split: list.splits)
  then show ?thesis by (force simp: map_filter_def dest: rel_inside)
qed

lemma mkdir_from_changes:
  "gh_nodes (snd (mkdir_from d cs h)) q \<noteq> gh_nodes h q \<Longrightarrow> gh_nodes h q = None \<and> prefix q (d @ cs)"
proof (induction d cs h rule: mkdir_from.induct)
  case (2 d c cs h)
  show ?case
  proof (cases "gh_nodes h (d @ [c])")
    case None
    with 2 show ?thesis by (cases "q = d @ [c]") (auto simp: set_node_def split: if_splits)
  next
    case (Some n)
    with 2 show ?thesis by (cases n) auto
  qed
qed simp

lemma mkdir_from_denied [simp]: "gh_denied (snd (mkdir_from d cs h)) = gh_denied h"
  by (induction d cs h rule: mkdir_from.induct) (auto simp: set_node_def split: option.split go_node.split)

definition roots_exist :: "go_env \<Rightarrow> go_host \<Rightarrow> bool" where
  "roots_exist G h = (\<forall>wr \<in> set (ge_writeRoots G). \<forall>q. prefix q wr \<longrightarrow> gh_nodes h q = Some GDir)"

lemma mkdir_inside:
  assumes "roots_exist G h" "wr \<in> set (ge_writeRoots G)" "prefix wr p" "prefix r p"
    and "gh_nodes (snd (mkdir_all r h)) q \<noteq> gh_nodes h q"
  shows "prefix wr q"
proof -
  have q: "gh_nodes h q = None" "prefix q r" using mkdir_from_changes [of "[]" r h q] assms(5) by (auto simp: mkdir_all_def)
  then have "prefix q wr \<or> prefix wr q" using assms(3,4) prefix_same_cases [of q p wr] prefix_order.trans by blast
  moreover have "\<not> prefix q wr" using q(1) assms(1,2) by (auto simp: roots_exist_def)
  ultimately show ?thesis by simp
qed

section \<open>Uploads\<close>

lemma lower_names: "to_lower ''path'' = ''path''" "to_lower ''mode'' = ''mode''" "to_lower ''cmd'' = ''cmd''" "to_lower ''args'' = ''args''"
  "to_lower ''cwd'' = ''cwd''" "to_lower ''env'' = ''env''" "to_lower ''from'' = ''from''" "to_lower ''to'' = ''to''"
  by code_simp+

lemma put_fields: "go_string ''path'' (put_args path mode) = Some path" "go_string ''mode'' (put_args path mode) = Some (nullish mode [])"
  by (cases mode; simp add: go_string_def go_field_def put_args_def opt_field_def lower_names)+

lemma put_args_ok: "json_ok (put_args path mode)"
  by (cases mode) (simp_all add: put_args_def opt_field_def)

lemma dispatch_put:
  "dispatch G OP_PUT (utf8_bytes (stringify (put_args path mode))) body ended h = doPut G (put_args path mode) body ended h"
  by (simp add: dispatch_def parse_stringify put_args_ok OP_PUT_def OP_HEALTH_def OP_EXEC_def)

lemma doPut_result:
  assumes "doPut G (put_args path mode) content True h = (answer, h1)" and "resolveWrite G path = Some p"
  shows "answer = status ST_ERROR
    \<or> (answer = status ST_OK \<and> gh_nodes h1 p = Some (GFile content (syscallMode (parseMode (nullish mode [])))) \<and> \<not> gh_denied h1 p)"
  using assms mkdir_from_denied [of "[]" "butlast p" h]
  by (auto simp: doPut_def put_fields mkdir_all_def set_node_def open_truncated_def
      split: option.splits bool.splits prod.splits if_splits)

lemma answered_ok:
  assumes "concat cs = status st" and "(case fst (readResponse (map Chunk cs @ es)) of
        Inl e \<Rightarrow> Inl e
      | Inr (st, body, rest) \<Rightarrow> if st \<noteq> ST_OK then Inl (TransportError st (message @ dec (unat st))) else Inr ()) = Inr ()"
  shows "st = ST_OK"
  using read_status [of cs st "[]" es] assms by (auto simp: status_def split: if_splits)

lemma doPut_state:
  "snd (doPut G j body ended h) = h \<or> (\<exists>path p. resolveWrite G path = Some p
     \<and> (snd (doPut G j body ended h) = snd (mkdir_all (butlast p) h)
        \<or> (\<exists>n. snd (doPut G j body ended h) = set_node p n (snd (mkdir_all (butlast p) h)))))"
proof (cases "go_string ''path'' j")
  case (Some path)
  show ?thesis
  proof (cases "resolveWrite G path")
    case (Some p)
    have "snd (doPut G j body ended h) = h \<or> snd (doPut G j body ended h) = snd (mkdir_all (butlast p) h)
        \<or> (\<exists>n. snd (doPut G j body ended h) = set_node p n (snd (mkdir_all (butlast p) h)))"
      using Some \<open>go_string ''path'' j = Some path\<close>
      by (cases "mkdir_all (butlast p) h") (auto simp: doPut_def split: option.split bool.split)
    with Some show ?thesis by blast
  qed (simp add: doPut_def Some split: option.split)
qed (simp add: doPut_def)

section \<open>Properties\<close>

text \<open>C33. What was put is got: whenever an upload is reported as successful, a download of the same path
  returns exactly its content, however the answers are cut on their way, provided that reading and
  writing resolve the path alike and the mode asked for lets the owner read.\<close>

theorem put_then_get:
  assumes "length (ge_bearer G) = 32" and cut: "\<And>b. concat (gw_cut w b) = b"
    and "resolveWrite G path = Some p" and "resolveRead G path = Some p"
    and "length (stringify (put_args path mode)) < 4294967296" and "length (stringify (JObj [(''path'', JStr path)])) < 4294967296"
    and readable: "owner_reads (syscallMode (parseMode (nullish mode [])))"
    and put: "putFile (go_net G) (hex_encode (ge_bearer G)) path content mode w = ((Inr (), progress), w1)"
  shows "fst (getFile (go_net G) (hex_encode (ge_bearer G)) path w1) = Inr content"
proof -
  let ?N = "go_net G" and ?tok = "hex_encode (ge_bearer G)" and ?get = "JObj [(''path'', JStr path)]"
  obtain answer h1 where d: "doPut G (put_args path mode) content True (gw_host w) = (answer, h1)"
    by (cases "doPut G (put_args path mode) content True (gw_host w)") auto
  note up = upload_go [of G "ge_bearer G" OP_PUT "put_args path mode" "''putFile '' @ path @ '' failed: ''" content w,
      unfolded handle_request [OF assms(1,5)] dispatch_put d, folded putFile_def, unfolded put]
  have ok: "answer = status ST_OK" "gh_nodes h1 p = Some (GFile content (syscallMode (parseMode (nullish mode []))))" "\<not> gh_denied h1 p"
    using doPut_result [OF d assms(3)] answered_ok [of "gw_cut w answer" ST_ERROR "''putFile '' @ path @ '' failed: ''" "[EndOfInput]"] up(1) cut
    by (auto simp: ST_ERROR_def ST_OK_def)
  have w1: "gw_host w1 = h1" "gw_cut w1 = gw_cut w" using up(2,3) by simp_all
  have fields: "go_string ''path'' ?get = Some path"
    by (simp add: go_string_def go_field_def lower_names)
  have "dispatch G OP_GET (utf8_bytes (stringify ?get)) [] False h1 = (status ST_OK @ content, h1)"
    using parse_stringify [of ?get] fields assms(4) ok(2,3) readable
    by (simp add: dispatch_def doGet_def OP_GET_def OP_PUT_def OP_HEALTH_def OP_EXEC_def del: stringify.simps)
  then have answer: "handleConn G (ge_bearer G @ [OP_GET, 0] @ be32 (length (stringify ?get)) @ utf8_bytes (stringify ?get)) False h1
      = (status ST_OK @ content, h1)"
    using handle_request [OF assms(1,6), of OP_GET "[]" False h1] by simp
  have "concat (gw_cut w (status ST_OK @ content)) = encode_response ST_OK [] @ content" using cut by (simp add: status_def)
  then obtain rest ds where "readResponse (map Chunk (gw_cut w (status ST_OK @ content)) @ [EndOfInput]) = (Inr (ST_OK, [], rest), map Chunk ds @ [EndOfInput])"
      "rest @ concat ds = content"
    using readResponse_chunks [of "[]"] by fastforce
  then have "file_reply path (map Chunk (gw_cut w (status ST_OK @ content)) @ [EndOfInput]) = Inr content"
    by (simp add: file_reply_def readToEnd_chunks ST_OK_def ST_MISSING_def)
  then show ?thesis
    using answer w1 by (simp add: getFile_def await_def go_fields go_header Let_def del: stringify.simps)
qed

definition sample_env :: go_env where
  "sample_env = \<lparr>ge_bearer = replicate 32 1, ge_root = [''h''], ge_writeRoots = [[''h'']], ge_umask = (\<lambda>m. m),
     ge_run = (\<lambda>cmd args cwd envv h. (([104, 105], [], Exited 3), h)), ge_kill = (\<lambda>_. False), ge_other = (\<lambda>_ _ _ h. ([], h))\<rparr>"

definition sample_world :: go_world where
  "sample_world = \<lparr>gw_host = \<lparr>gh_nodes = [[] \<mapsto> GDir, [''h''] \<mapsto> GDir], gh_denied = (\<lambda>_. False)\<rparr>,
     gw_sent = [], gw_ended = False, gw_cut = (\<lambda>b. map (\<lambda>x. [x]) b)\<rparr>"

lemma sample_cut: "concat (gw_cut sample_world b) = b"
  by (induction b) (simp_all add: sample_world_def)

theorem put_then_get_witness:
  "\<exists>progress w1. putFile (go_net sample_env) (hex_encode (ge_bearer sample_env)) ''d/f'' [7, 8] None sample_world = ((Inr (), progress), w1)
     \<and> fst (getFile (go_net sample_env) (hex_encode (ge_bearer sample_env)) ''d/f'' w1) = Inr [7, 8]"
proof -
  have len: "length (ge_bearer sample_env) = 32" by (simp add: sample_env_def)
  have small: "length (stringify (put_args ''d/f'' None)) < 4294967296" "length (stringify (JObj [(''path'', JStr ''d/f'')])) < 4294967296"
    by (simp_all add: put_args_def opt_field_def json_quote_def json_escape_char_def)
  have paths: "resolveWrite sample_env ''d/f'' = Some [''h'', ''d'', ''f'']" "resolveRead sample_env ''d/f'' = Some [''h'', ''d'', ''f'']"
    by code_simp+
  obtain v progress w1 where put: "putFile (go_net sample_env) (hex_encode (ge_bearer sample_env)) ''d/f'' [7, 8] None sample_world = ((v, progress), w1)"
    by (metis surj_pair)
  have "fst (doPut sample_env (put_args ''d/f'' None) [7, 8] True (gw_host sample_world)) = status ST_OK"
    by (simp add: doPut_def put_fields paths mkdir_all_def sample_world_def set_node_def open_truncated_def)
  then have "v = Inr ()"
    using upload_go(1) [of sample_env "ge_bearer sample_env" OP_PUT "put_args ''d/f'' None" "''putFile '' @ ''d/f'' @ '' failed: ''" "[7, 8]" sample_world,
        unfolded handle_request [OF len small(1)] dispatch_put, folded putFile_def, unfolded put]
      read_status [of "gw_cut sample_world (status ST_OK)" ST_OK "[]" "[EndOfInput]"] sample_cut
    by (auto simp: status_def)
  moreover have "owner_reads (syscallMode (parseMode (nullish None [])))"
    by (simp add: parseMode_def syscallMode_def owner_reads_def)
  ultimately show ?thesis using put_then_get [OF len sample_cut paths small] put by blast
qed

text \<open>Without the token nothing happens: a client that shows any other token gets no answer, an
  error, and the remote host is untouched.\<close>

theorem stranger_refused:
  assumes "length tok = 32" and "tok \<noteq> ge_bearer G" and "concat (gw_cut w []) = []"
  shows "fst (request (go_net G) (hex_encode tok) op args w) = Inl (plain_error ''connection closed before response'')
    \<and> gw_host (snd (request (go_net G) (hex_encode tok) op args w)) = gw_host w
    \<and> fst (fst (upload (go_net G) (hex_encode tok) op args message content w)) = Inl (plain_error ''connection closed before response'')
    \<and> gw_host (snd (upload (go_net G) (hex_encode tok) op args message content w)) = gw_host w"
  by (simp add: request_go upload_go handle_stranger [OF assms(1,2)] read_closed [OF assms(3)])

theorem stranger_refused_witness:
  "gw_host (snd (request (go_net sample_env) (hex_encode (replicate 32 2)) OP_RM (JObj [(''path'', JStr ''f'')]) sample_world)) = gw_host sample_world"
proof -
  have "replicate 32 2 \<noteq> ge_bearer sample_env" by (simp add: sample_env_def)
  from stranger_refused [OF _ this sample_cut] show ?thesis by simp
qed

text \<open>Where a path leads when it is read as text: component by component from the root directory or from
  a given one, with \<^verbatim>\<open>..\<close> going up and no further than the root.\<close>

fun walk :: "string list \<Rightarrow> string list \<Rightarrow> string list" where
  "walk d [] = d"
| "walk d (s # ss) = walk (if s = [] \<or> s = ''.'' then d else if s = ''..'' then butlast d else d @ [s]) ss"

definition led_to :: "string \<Rightarrow> string list \<Rightarrow> string list" where
  "led_to path wr = walk (if hd path = CHR ''/'' then [] else wr) (js_split (CHR ''/'') path)"

definition lexical_target :: "string list list \<Rightarrow> string \<Rightarrow> string list option" where
  "lexical_target roots path =
     (if path = [] then None else map_option (led_to path) (find (\<lambda>wr. prefix wr (led_to path wr)) roots))"

lemma norm_walk: "''..'' \<notin> set acc \<Longrightarrow> norm_segments True acc ss = walk (rev acc) ss"
proof (induction ss arbitrary: acc)
  case (Cons s ss)
  have "butlast (rev acc) = rev (tl acc)" by (cases acc) simp_all
  with Cons show ?case by (cases acc) auto
qed simp

lemma norm_from: "\<forall>s \<in> set base. plain_segment s \<Longrightarrow> norm_segments True acc (base @ ss) = norm_segments True (rev base @ acc) ss"
  by (induction base arbitrary: acc) (auto simp: plain_segment_def)

lemma walk_clean: "''..'' \<notin> set d \<Longrightarrow> ''..'' \<notin> set (walk d ss)"
proof (induction ss arbitrary: d)
  case (Cons s ss)
  then have "''..'' \<notin> set (butlast d)" by (auto dest: in_set_butlastD)
  with Cons show ?case by simp
qed simp

lemma rel_accepts:
  assumes "''..'' \<notin> set t"
  shows "(case go_rel base t of d # _ \<Rightarrow> if d = ''..'' then None else Some t | [] \<Rightarrow> Some t) = (if prefix base t then Some t else None)"
proof (cases "prefix base t")
  case True
  then obtain r where t: "t = base @ r" by (auto simp: prefix_def)
  then have "longest_common_prefix base t = base" by (induction base arbitrary: t) auto
  then have "go_rel base t = r" by (simp add: go_rel_def t)
  with assms t show ?thesis by (cases r) auto
next
  case False
  have "length (longest_common_prefix base t) \<noteq> length base"
  proof
    assume "length (longest_common_prefix base t) = length base"
    with longest_common_prefix_prefix1 [of base t] have "longest_common_prefix base t = base" by (metis append_eq_conv_conj append_Nil2 prefix_def take_all_iff order_refl)
    with longest_common_prefix_prefix2 [of base t] False show False by simp
  qed
  with longest_common_prefix_prefix1 [of base t] have "length (longest_common_prefix base t) < length base"
    by (simp add: prefix_length_le le_neq_implies_less)
  then obtain n where "length base - length (longest_common_prefix base t) = Suc n" by (metis Suc_diff_Suc)
  with False show ?thesis by (simp add: go_rel_def)
qed

lemma resolve_lexically:
  assumes "\<forall>s \<in> set wr. plain_segment s" and "path \<noteq> []"
  shows "resolveUnder wr path = (if prefix wr (led_to path wr) then Some (led_to path wr) else None)"
proof -
  have clean: "''..'' \<notin> set wr" using assms(1) by (auto simp: plain_segment_def)
  have "norm_segments True [] (if hd path = CHR ''/'' then js_split (CHR ''/'') path else wr @ js_split (CHR ''/'') path) = led_to path wr"
    using clean norm_from [OF assms(1), of "[]"] by (simp add: led_to_def norm_walk)
  moreover have "''..'' \<notin> set (led_to path wr)" using clean by (simp add: led_to_def walk_clean)
  ultimately show ?thesis using assms(2) rel_accepts [of "led_to path wr" wr] unfolding resolveUnder_def Let_def by metis
qed

lemma write_lexically:
  assumes "\<forall>wr \<in> set (ge_writeRoots G). \<forall>s \<in> set wr. plain_segment s"
  shows "resolveWrite G path = lexical_target (ge_writeRoots G) path"
proof (cases "path = []")
  case True
  then show ?thesis by (simp add: resolveWrite_def lexical_target_def resolveUnder_def map_filter_def)
next
  case False
  have "(case List.map_filter (\<lambda>wr. resolveUnder wr path) roots of [] \<Rightarrow> None | q # _ \<Rightarrow> Some q)
      = map_option (led_to path) (find (\<lambda>wr. prefix wr (led_to path wr)) roots)"
    if "\<forall>wr \<in> set roots. \<forall>s \<in> set wr. plain_segment s" for roots
    using that by (induction roots) (simp_all add: map_filter_def resolve_lexically [OF _ False])
  with assms False show ?thesis by (simp add: resolveWrite_def lexical_target_def)
qed

definition rename_args :: "string \<Rightarrow> string \<Rightarrow> json" where
  "rename_args from to = JObj [(''from'', JStr from), (''to'', JStr to)]"

lemma rename_fields: "go_string ''from'' (rename_args a b) = Some a" "go_string ''to'' (rename_args a b) = Some b"
  by (simp_all add: go_string_def go_field_def rename_args_def lower_names)

lemma path_field: "go_string ''path'' (JObj [(''path'', JStr p)]) = Some p"
  by (simp add: go_string_def go_field_def lower_names)

text \<open>The requests that write to a path.\<close>

definition writing_requests :: "string \<Rightarrow> string option \<Rightarrow> string \<Rightarrow> (byte \<times> json) list" where
  "writing_requests path mode other =
     [(OP_PUT, put_args path mode), (OP_MKDIR, JObj [(''path'', JStr path)]), (OP_RM, JObj [(''path'', JStr path)]),
      (OP_RENAME, rename_args path other), (OP_RENAME, rename_args other path)]"

lemma denied_requests:
  assumes "resolveWrite G path = None" and "(op, args) \<in> set (writing_requests path mode other)"
  shows "dispatch G op (utf8_bytes (stringify args)) body ended h = (status ST_DENIED, h)"
proof -
  have ok: "json_ok args" using assms(2) by (auto simp: writing_requests_def rename_args_def put_args_ok)
  from assms(2) consider "op = OP_PUT" "args = put_args path mode" | "op = OP_MKDIR" "args = JObj [(''path'', JStr path)]"
    | "op = OP_RM" "args = JObj [(''path'', JStr path)]" | "op = OP_RENAME" "args = rename_args path other"
    | "op = OP_RENAME" "args = rename_args other path"
    by (auto simp: writing_requests_def)
  then show ?thesis
    by cases (use assms(1) parse_stringify [OF ok] in \<open>simp_all add: dispatch_def OP_PUT_def OP_GET_def OP_MKDIR_def OP_RENAME_def OP_RM_def OP_HEALTH_def OP_EXEC_def OP_KILL_def doPut_def doMkdir_def doRm_def doRename_def put_fields
      path_field rename_fields split: option.split del: stringify.simps\<close>)
qed

text \<open>C34. Which paths may be written is decided by reading them: \<^verbatim>\<open>resolveWrite\<close> accepts a path exactly when,
  followed component by component from the first write root for which this holds, or from the root directory
  when it is absolute, it ends at or below that root, and gives that place. A request to upload, make a
  directory, delete or rename, with a path that leads out of every write root, is answered as denied and
  leaves the remote host as it was. The roots are the clean paths the server makes of its arguments. Symbolic
  links are not looked at, neither by the server nor here: this does not confine what lies behind a link.\<close>

theorem outside_paths_refused:
  assumes "length (ge_bearer G) = 32" and "\<forall>wr \<in> set (ge_writeRoots G). \<forall>s \<in> set wr. plain_segment s"
  shows "resolveWrite G path = lexical_target (ge_writeRoots G) path
    \<and> (lexical_target (ge_writeRoots G) path = None \<and> (op, args) \<in> set (writing_requests path mode other)
          \<and> length (stringify args) < 4294967296 \<longrightarrow>
        handleConn G (ge_bearer G @ [op, 0] @ be32 (length (stringify args)) @ utf8_bytes (stringify args) @ body) ended h
          = (status ST_DENIED, h))"
proof (intro conjI impI)
  show same: "resolveWrite G path = lexical_target (ge_writeRoots G) path" by (rule write_lexically [OF assms(2)])
  assume r: "lexical_target (ge_writeRoots G) path = None \<and> (op, args) \<in> set (writing_requests path mode other)
      \<and> length (stringify args) < 4294967296"
  have out: "resolveWrite G path = None" using same r by simp
  have "dispatch G op (utf8_bytes (stringify args)) body ended h = (status ST_DENIED, h)"
    using r denied_requests [OF out] by blast
  with r show "handleConn G (ge_bearer G @ [op, 0] @ be32 (length (stringify args)) @ utf8_bytes (stringify args) @ body) ended h
      = (status ST_DENIED, h)"
    using handle_request [OF assms(1), of args op body ended h] by simp
qed

theorem outside_paths_refused_witness:
  "resolveWrite sample_env ''/h/../etc'' = None
   \<and> handleConn sample_env (ge_bearer sample_env @ [OP_RM, 0] @ be32 (length (stringify (JObj [(''path'', JStr ''/h/../etc'')])))
         @ utf8_bytes (stringify (JObj [(''path'', JStr ''/h/../etc'')])) @ []) False (gw_host sample_world) = (status ST_DENIED, gw_host sample_world)"
proof -
  let ?args = "JObj [(''path'', JStr ''/h/../etc'')]"
  have len: "length (ge_bearer sample_env) = 32" by (simp add: sample_env_def)
  have roots: "\<forall>wr \<in> set (ge_writeRoots sample_env). \<forall>s \<in> set wr. plain_segment s" by (simp add: sample_env_def plain_segment_def)
  have out: "lexical_target (ge_writeRoots sample_env) ''/h/../etc'' = None" by code_simp
  have "length (stringify ?args) = 20" by code_simp
  then have small: "length (stringify ?args) < 4294967296" by simp
  have "(OP_RM, ?args) \<in> set (writing_requests ''/h/../etc'' None [])" by (simp add: writing_requests_def)
  from outside_paths_refused [OF len roots, of "''/h/../etc''" OP_RM ?args None "[]" "[]" False "gw_host sample_world"] out this small
  show ?thesis by (simp only: HOL.simp_thms)
qed

text \<open>On the host of this theory, which has no links, it follows that whatever a connection says, these
  operations change no path outside the write roots, as long as the roots exist.\<close>

theorem writes_confined:
  assumes "roots_exist G h" and "sent ! 32 \<in> {OP_PUT, OP_GET, OP_MKDIR, OP_RENAME, OP_RM}"
    and "gh_nodes (snd (handleConn G sent ended h)) q \<noteq> gh_nodes h q"
  shows "\<exists>wr \<in> set (ge_writeRoots G). prefix wr q"
proof -
  have put: "\<exists>wr \<in> set (ge_writeRoots G). prefix wr q" if "gh_nodes (snd (doPut G j body ended h)) q \<noteq> gh_nodes h q" for j body
  proof -
    have "snd (doPut G j body ended h) \<noteq> h" using that by auto
    then obtain path p where p: "resolveWrite G path = Some p"
      "snd (doPut G j body ended h) = snd (mkdir_all (butlast p) h)
       \<or> (\<exists>n. snd (doPut G j body ended h) = set_node p n (snd (mkdir_all (butlast p) h)))"
      using doPut_state by blast
    then have p: "resolveWrite G path = Some p" "q = p \<or> gh_nodes (snd (mkdir_all (butlast p) h)) q \<noteq> gh_nodes h q"
      using that by (auto simp: set_node_def split: if_splits)
    from write_inside [OF p(1)] obtain wr where wr: "wr \<in> set (ge_writeRoots G)" "prefix wr p" by blast
    from p(2) show ?thesis
    proof
      assume "gh_nodes (snd (mkdir_all (butlast p) h)) q \<noteq> gh_nodes h q"
      from mkdir_inside [OF assms(1) wr prefixeq_butlast this] wr(1) show ?thesis by blast
    qed (use wr in blast)
  qed
  have mk: "\<exists>wr \<in> set (ge_writeRoots G). prefix wr q" if "gh_nodes (snd (doMkdir G j h)) q \<noteq> gh_nodes h q" for j
  proof -
    have "snd (doMkdir G j h) = h \<or> (\<exists>path p. resolveWrite G path = Some p \<and> snd (doMkdir G j h) = snd (mkdir_all p h))"
      by (auto simp: doMkdir_def Let_def case_prod_unfold split: option.split)
    with that obtain path p where p: "resolveWrite G path = Some p" "gh_nodes (snd (mkdir_all p h)) q \<noteq> gh_nodes h q"
      by auto
    from write_inside [OF p(1)] obtain wr where wr: "wr \<in> set (ge_writeRoots G)" "prefix wr p" by blast
    from mkdir_inside [OF assms(1) wr prefix_order.refl p(2)] wr(1) show ?thesis by blast
  qed
  have rm: "\<exists>wr \<in> set (ge_writeRoots G). prefix wr q" if "gh_nodes (snd (doRm G j h)) q \<noteq> gh_nodes h q" for j
  proof -
    have "gh_nodes (snd (doRm G j h)) q = gh_nodes h q \<or> (\<exists>path p. resolveWrite G path = Some p \<and> prefix p q)"
      by (auto simp: doRm_def split: option.split)
    with that obtain path p where p: "resolveWrite G path = Some p" "prefix p q" by blast
    from write_inside [OF p(1)] p(2) show ?thesis by (meson prefix_order.trans)
  qed
  have rn: "\<exists>wr \<in> set (ge_writeRoots G). prefix wr q" if "gh_nodes (snd (doRename G j h)) q \<noteq> gh_nodes h q" for j
  proof -
    have "gh_nodes (snd (doRename G j h)) q = gh_nodes h q \<or> (\<exists>path p. resolveWrite G path = Some p \<and> prefix p q)"
      by (auto simp: doRename_def renamed_def split: option.split)
    with that obtain path p where p: "resolveWrite G path = Some p" "prefix p q" by blast
    from write_inside [OF p(1)] p(2) show ?thesis by (meson prefix_order.trans)
  qed
  have op: "drop 32 sent ! 0 = sent ! 32" if "\<not> length sent < 38" using that by simp
  show ?thesis
  proof (cases "length sent < 38")
    case True
    then show ?thesis using assms(3) by (auto simp: handleConn_def Let_def split: if_splits)
  next
    case False
    with assms(3) op obtain args body where "gh_nodes (snd (dispatch G (sent ! 32) args body ended h)) q \<noteq> gh_nodes h q"
      by (auto simp: handleConn_def Let_def split: if_splits)
    with assms(2) put mk rm rn show ?thesis
      by (auto simp: dispatch_def OP_PUT_def OP_GET_def OP_MKDIR_def OP_RENAME_def OP_RM_def OP_HEALTH_def OP_EXEC_def OP_KILL_def
          split: sum.splits)
  qed
qed

theorem writes_confined_witness:
  "gh_nodes (snd (handleConn sample_env (replicate 32 1 @ [OP_MKDIR, 0] @ be32 12 @ utf8_bytes (stringify (JObj [(''path'', JStr ''d'')]))) True (gw_host sample_world))) [''h'', ''d'']
     \<noteq> gh_nodes (gw_host sample_world) [''h'', ''d'']
   \<and> prefix [''h''] [''h'', ''d'']"
proof -
  let ?args = "JObj [(''path'', JStr ''d'')]"
  have len: "length (ge_bearer sample_env) = 32" "ge_bearer sample_env = replicate 32 1" by (simp_all add: sample_env_def)
  have n: "length (stringify ?args) = 12" by code_simp
  have small: "length (stringify ?args) < 4294967296" using n by simp
  have r: "roots_exist sample_env (gw_host sample_world)"
    by (auto simp: roots_exist_def sample_env_def sample_world_def prefix_Cons)
  have f: "go_string ''path'' ?args = Some ''d''" by (simp add: go_string_def go_field_def lower_names)
  have w: "resolveWrite sample_env ''d'' = Some [''h'', ''d'']" by code_simp
  let ?sent = "replicate 32 1 @ [OP_MKDIR, 0] @ be32 12 @ utf8_bytes (stringify ?args)"
  have "handleConn sample_env ?sent True (gw_host sample_world) = dispatch sample_env OP_MKDIR (utf8_bytes (stringify ?args)) [] True (gw_host sample_world)"
    using handle_request [OF len(1) small, of OP_MKDIR "[]" True "gw_host sample_world"] unfolding n len(2) by simp
  also have "\<dots> = doMkdir sample_env ?args (gw_host sample_world)"
    using parse_stringify [of ?args] by (simp add: dispatch_def OP_MKDIR_def OP_HEALTH_def OP_EXEC_def OP_PUT_def OP_GET_def del: stringify.simps)
  finally have c: "gh_nodes (snd (handleConn sample_env ?sent True (gw_host sample_world))) [''h'', ''d''] \<noteq> gh_nodes (gw_host sample_world) [''h'', ''d'']"
    by (simp add: doMkdir_def f w mkdir_all_def sample_world_def set_node_def del: stringify.simps)
  have "\<exists>wr \<in> set (ge_writeRoots sample_env). prefix wr [''h'', ''d'']"
    by (rule writes_confined [OF r _ c]) (simp add: nth_append)
  with c show ?thesis by (simp add: sample_env_def)
qed

text \<open>C35. A command run on the remote host reports what the host says: the client's \<^verbatim>\<open>exec\<close> runs exactly the
  command, arguments, directory and environment it was given, and returns the bytes of both output
  streams and the exit code, unless a signal killed the command.\<close>

theorem exec_reports_outcome:
  assumes "length (ge_bearer G) = 32" and "\<And>b. concat (gw_cut w b) = b"
    and "ge_run G cmd args (nullish cwd []) envv (gw_host w) = ((out, err, e), h1)" and "e \<noteq> Signalled"
    and "length (stringify (command_args cmd args cwd envv)) < 4294967296"
    and "length (stringify (exec_answer out err (exitCode e))) < 4294967296"
  shows "fst (exec (go_net G) (hex_encode (ge_bearer G)) cmd args cwd envv w)
      = Inr \<lparr>stdout_of = out, stderr_of = err, exitCode_of = Some (JNum (dec_int (exitCode e)))\<rparr>
    \<and> gw_host (snd (exec (go_net G) (hex_encode (ge_bearer G)) cmd args cwd envv w)) = h1"
proof -
  let ?args = "command_args cmd args cwd envv" and ?ans = "exec_answer out err (exitCode e)"
  have "0 \<le> exitCode e" using assms(4) by (cases e) simp_all
  then have ok: "json_ok ?args" "json_ok ?ans"
    by (auto simp: command_args_def opt_field_def string_map_json_def exec_answer_def dec_int_def list_all_iff split: option.split)
  have strs: "those (map (\<lambda>x. case x of JStr s \<Rightarrow> Some s | JNull \<Rightarrow> Some [] | _ \<Rightarrow> None) (map JStr xs)) = Some xs" for xs
    by (induction xs) simp_all
  have envs: "those (map (\<lambda>(k, x). case x of JStr s \<Rightarrow> Some (k, s) | JNull \<Rightarrow> Some (k, []) | _ \<Rightarrow> None) (map (\<lambda>(k, v). (k, JStr v)) kvs)) = Some kvs" for kvs
    by (induction kvs) (auto split: prod.splits)
  have fields: "go_string ''cmd'' ?args = Some cmd" "go_strings ''args'' ?args = Some args"
    "go_string ''cwd'' ?args = Some (nullish cwd [])" "go_map ''env'' ?args = Some envv"
    using strs [of args] envs [of "the envv"]
    by (cases cwd; cases envv; simp add: go_string_def go_strings_def go_map_def go_field_def command_args_def opt_field_def lower_names string_map_json_def)+
  have "dispatch G OP_EXEC (utf8_bytes (stringify ?args)) [] False (gw_host w) = (encode_response ST_OK (utf8_bytes (stringify ?ans)), h1)"
    using parse_stringify [OF ok(1)] fields assms(3)
    by (simp add: dispatch_def doExec_def OP_EXEC_def OP_HEALTH_def del: stringify.simps)
  then have h: "handleConn G (ge_bearer G @ [OP_EXEC, 0] @ be32 (length (stringify ?args)) @ utf8_bytes (stringify ?args)) False (gw_host w)
      = (encode_response ST_OK (utf8_bytes (stringify ?ans)), h1)"
    using handle_request [OF assms(1,5), of OP_EXEC "[]" False "gw_host w"] by simp
  obtain rest where r: "fst (request (go_net G) (hex_encode (ge_bearer G)) OP_EXEC ?args w) = Inr (ST_OK, utf8_bytes (stringify ?ans), rest)"
    using read_status [of "gw_cut w (encode_response ST_OK (utf8_bytes (stringify ?ans)))" ST_OK "utf8_bytes (stringify ?ans)" "[EndOfInput]"] assms(2,6) h
    by (auto simp: request_go)
  have "exec_reply ?ans = Inr \<lparr>stdout_of = out, stderr_of = err, exitCode_of = Some (JNum (dec_int (exitCode e)))\<rparr>"
    by (simp add: exec_reply_def exec_answer_def json_prop_def json_string_def from_base64_def)
  then show ?thesis
    using r h parse_stringify [OF ok(2)] request_go(2) [of G "ge_bearer G" OP_EXEC ?args w]
    by (cases "request (go_net G) (hex_encode (ge_bearer G)) OP_EXEC ?args w")
      (simp add: exec_def requestJSON_def await_def)
qed

theorem exec_reports_outcome_witness:
  "fst (exec (go_net sample_env) (hex_encode (ge_bearer sample_env)) ''ls'' [''-l''] None None sample_world)
   = Inr \<lparr>stdout_of = [104, 105], stderr_of = [], exitCode_of = Some (JNum (dec_int 3))\<rparr>"
proof -
  have "length (stringify (JObj [(''cmd'', JStr ''ls''), (''args'', JArr [JStr ''-l''])])) = 26" by code_simp
  then have "length (stringify (command_args ''ls'' [''-l''] None None)) < 4294967296"
    by (simp add: command_args_def opt_field_def del: stringify.simps)
  moreover have "base64_encode [104, 105] = ''aGk=''" "base64_encode [] = []"
    by (simp_all add: base64_encode_def base64_padding_def b64_char_def char_ofI)
  then have a: "exec_answer [104, 105] [] 3 = JObj [(''stdout'', JStr ''aGk=''), (''stderr'', JStr []), (''exitCode'', JNum ''3'')]"
    by (simp add: exec_answer_def dec_int_def dec.simps)
  have "length (stringify (JObj [(''stdout'', JStr ''aGk=''), (''stderr'', JStr []), (''exitCode'', JNum ''3'')])) = 42" by code_simp
  then have "length (stringify (exec_answer [104, 105] [] 3)) < 4294967296" unfolding a by simp
  moreover have "length (ge_bearer sample_env) = 32" "ge_run sample_env ''ls'' [''-l''] (nullish None []) None (gw_host sample_world) = (([104, 105], [], Exited 3), gw_host sample_world)"
    by (simp_all add: sample_env_def)
  ultimately show ?thesis using exec_reports_outcome [OF _ sample_cut] by simp
qed

end
