(* ===== verification/VsixBuild.thy ===== *)
theory VsixBuild
  imports Json "HOL-Library.AList"
begin

text \<open>
  \<^verbatim>\<open>scripts/build-vsix.mjs\<close>: what the build of a vendor's package computes, the manifest merged from the
  base and the vendor's and stripped of what the vendor does not ship, and the vendor's README with the
  shared sections put in. The effects on the file system and the calls of esbuild and vsce are left out.

  An object is an association list without repeated keys, in the order of insertion; the keys are not
  index-like, for which JavaScript has an order of its own.
\<close>

section \<open>Objects\<close>

type_synonym obj = "(string \<times> json) list"

text \<open>What \<^verbatim>\<open>Object.entries\<close> and the spread operator see of a value.\<close>

definition entries_of :: "json \<Rightarrow> obj" where
  "entries_of j =
     (case j of
        JObj kvs \<Rightarrow> fold (\<lambda>(k, v). AList.update k v) kvs []
      | JArr vs \<Rightarrow> zip (map dec [0..<length vs]) vs
      | JStr s \<Rightarrow> zip (map dec [0..<length s]) (map (\<lambda>c. JStr [c]) s)
      | _ \<Rightarrow> [])"

definition spread :: "obj \<Rightarrow> json \<Rightarrow> obj" where
  "spread out j = fold (\<lambda>(k, v). AList.update k v) (entries_of j) out"

text \<open>\<^verbatim>\<open>x?.k\<close>.\<close>

definition opt_prop :: "json option \<Rightarrow> string \<Rightarrow> json option" where
  "opt_prop j k = (case j of Some (JObj kvs) \<Rightarrow> map_of (rev kvs) k | _ \<Rightarrow> None)"

definition is_object :: "json option \<Rightarrow> bool" where
  "is_object j = (case j of Some (JObj _) \<Rightarrow> True | Some (JArr _) \<Rightarrow> True | _ \<Rightarrow> False)"

section \<open>Merging\<close>

text \<open>The title is kept when there is one, and the properties are joined; nothing else of a
  configuration survives.\<close>

definition merge_configuration :: "json \<Rightarrow> json \<Rightarrow> json" where
  "merge_configuration old v =
     JObj ((case opt_prop (Some old) ''title'' of
              Some t \<Rightarrow> if json_truthy (Some t) then [(''title'', t)] else []
            | None \<Rightarrow> [])
           @ [(''properties'',
               JObj (spread (spread [] (nullish (opt_prop (Some old) ''properties'') JNull))
                       (nullish (opt_prop (Some v) ''properties'') JNull)))])"

definition merge_entry :: "string \<Rightarrow> json option \<Rightarrow> json \<Rightarrow> json" where
  "merge_entry k old v =
     (case (old, v) of
        (Some (JArr a), JArr b) \<Rightarrow> JArr (a @ b)
      | (Some (JObj a), JObj b) \<Rightarrow>
          if k = ''configuration'' then merge_configuration (JObj a) (JObj b)
          else JObj (spread (entries_of (JObj a)) (JObj b))
      | _ \<Rightarrow> v)"

definition mergeContributes :: "json \<Rightarrow> json \<Rightarrow> obj" where
  "mergeContributes baseC overC =
     fold (\<lambda>(k, v) out. AList.update k (merge_entry k (map_of out k) v) out) (entries_of overC) (entries_of baseC)"

definition deepMerge :: "obj \<Rightarrow> obj \<Rightarrow> obj" where
  "deepMerge base override =
     fold (\<lambda>(k, v) out.
             AList.update k
               (if k = ''contributes'' \<and> is_object (map_of out ''contributes'') \<and> is_object (Some v)
                then JObj (mergeContributes (the (map_of out ''contributes'')) v) else v) out)
       override base"

section \<open>Stripping\<close>

text \<open>\<^verbatim>\<open>new Set(x)\<close>; values that are not iterable throw.\<close>

definition js_iter :: "json option \<Rightarrow> json list result" where
  "js_iter x =
     (case x of
        None \<Rightarrow> Inr []
      | Some JNull \<Rightarrow> Inr []
      | Some (JArr vs) \<Rightarrow> Inr vs
      | Some (JStr s) \<Rightarrow> Inr (map (\<lambda>c. JStr [c]) s)
      | Some _ \<Rightarrow> Inl type_error)"

text \<open>\<^verbatim>\<open>Set.has\<close>: an object is in no set but the one it was put into itself.\<close>

definition set_has :: "json list \<Rightarrow> json option \<Rightarrow> bool" where
  "set_has S v = (case v of None \<Rightarrow> False | Some x \<Rightarrow> \<not> is_object (Some x) \<and> x \<in> set S)"

fun all_results :: "('a \<Rightarrow> 'b result) \<Rightarrow> 'a list \<Rightarrow> 'b list result" where
  "all_results f [] = Inr []"
| "all_results f (x # xs) =
     (case f x of
        Inl e \<Rightarrow> Inl e
      | Inr y \<Rightarrow> (case all_results f xs of Inl e \<Rightarrow> Inl e | Inr ys \<Rightarrow> Inr (y # ys)))"

definition keep_entries :: "json list \<Rightarrow> json list \<Rightarrow> json list result" where
  "keep_entries S es =
     (case all_results (\<lambda>e. json_prop e ''command'') es of
        Inl err \<Rightarrow> Inl err
      | Inr cs \<Rightarrow> Inr (map fst (filter (\<lambda>(e, c). \<not> set_has S c) (zip es cs))))"

definition put_contributes :: "string \<Rightarrow> json \<Rightarrow> obj \<Rightarrow> obj" where
  "put_contributes k v m =
     AList.update ''contributes'' (JObj (AList.update k v (entries_of (nullish (map_of m ''contributes'') JNull)))) m"

definition strip_commands :: "json list \<Rightarrow> obj \<Rightarrow> obj result" where
  "strip_commands S m =
     (if S = [] \<or> \<not> json_truthy (opt_prop (map_of m ''contributes'') ''commands'') then Inr m
      else case opt_prop (map_of m ''contributes'') ''commands'' of
             Some (JArr cs) \<Rightarrow>
               (case keep_entries S cs of Inl e \<Rightarrow> Inl e | Inr ds \<Rightarrow> Inr (put_contributes ''commands'' (JArr ds) m))
           | _ \<Rightarrow> Inl type_error)"

definition strip_menu :: "json list \<Rightarrow> json \<Rightarrow> json result" where
  "strip_menu S v =
     (case v of
        JArr es \<Rightarrow> (case keep_entries S es of Inl e \<Rightarrow> Inl e | Inr ds \<Rightarrow> Inr (JArr ds))
      | _ \<Rightarrow> Inr v)"

definition strip_menus :: "json list \<Rightarrow> obj \<Rightarrow> obj result" where
  "strip_menus S m =
     (if S = [] then Inr m
      else case opt_prop (map_of m ''contributes'') ''menus'' of
             Some (JObj ms) \<Rightarrow>
               (let kvs = entries_of (JObj ms)
                in case all_results (strip_menu S) (map snd kvs) of
                     Inl e \<Rightarrow> Inl e
                   | Inr vs \<Rightarrow> Inr (put_contributes ''menus'' (JObj (zip (map fst kvs) vs)) m))
           | Some (JArr vs) \<Rightarrow>
               (case all_results (strip_menu S) vs of
                  Inl e \<Rightarrow> Inl e
                | Inr ws \<Rightarrow> Inr (put_contributes ''menus'' (JArr ws) m))
           | _ \<Rightarrow> Inr m)"

definition strip_events :: "json option \<Rightarrow> obj \<Rightarrow> obj result" where
  "strip_events events m =
     (if \<not> json_truthy events \<or> \<not> json_truthy (map_of m ''activationEvents'') then Inr m
      else case js_iter events of
             Inl e \<Rightarrow> Inl e
           | Inr S \<Rightarrow>
               (case map_of m ''activationEvents'' of
                  Some (JArr es) \<Rightarrow> Inr (AList.update ''activationEvents'' (JArr (filter (\<lambda>e. \<not> set_has S (Some e)) es)) m)
                | _ \<Rightarrow> Inl type_error))"

definition strip_configuration :: "json option \<Rightarrow> obj \<Rightarrow> obj result" where
  "strip_configuration keys m =
     (let conf = opt_prop (map_of m ''contributes'') ''configuration''; props = opt_prop conf ''properties''
      in if \<not> json_truthy keys \<or> \<not> json_truthy props then Inr m
         else case js_iter keys of
                Inl e \<Rightarrow> Inl e
              | Inr ks \<Rightarrow>
                  (case props of
                     Some (JObj ps) \<Rightarrow>
                       Inr (put_contributes ''configuration''
                              (JObj (AList.update ''properties'' (JObj (fold (\<lambda>k. AList.delete (json_text k)) ks (entries_of (JObj ps))))
                                 (entries_of (nullish conf JNull)))) m)
                   | _ \<Rightarrow> Inr m))"

definition stripFromMerged :: "obj \<Rightarrow> json \<Rightarrow> obj result" where
  "stripFromMerged m spec =
     (case js_iter (opt_prop (Some spec) ''commands'') of
        Inl e \<Rightarrow> Inl e
      | Inr S \<Rightarrow>
          (case strip_commands S m of
             Inl e \<Rightarrow> Inl e
           | Inr m1 \<Rightarrow>
               (case strip_menus S m1 of
                  Inl e \<Rightarrow> Inl e
                | Inr m2 \<Rightarrow>
                    (case strip_events (opt_prop (Some spec) ''activationEvents'') m2 of
                       Inl e \<Rightarrow> Inl e
                     | Inr m3 \<Rightarrow> strip_configuration (opt_prop (Some spec) ''configuration'') m3))))"

definition merged_manifest :: "json \<Rightarrow> json \<Rightarrow> obj result" where
  "merged_manifest basePkg vendor =
     (if basePkg = JNull \<or> vendor = JNull then Inl type_error
      else let stripSpec = opt_prop (Some vendor) ''__strip'';
               m = AList.delete ''devDependencies'' (AList.delete ''scripts''
                     (deepMerge (entries_of basePkg) (AList.delete ''__strip'' (entries_of vendor))))
           in if json_truthy stripSpec then stripFromMerged m (the stripSpec) else Inr m)"

section \<open>Shared sections of the README\<close>

definition begin_mark :: string where "begin_mark = ''<!-- BEGIN:''"
definition end_mark :: "string \<Rightarrow> string" where "end_mark n = ''<!-- END:'' @ n @ '' -->''"

text \<open>One match of the expression for a section, at the start of the text: name, body, and the rest.\<close>

definition section_at :: "string \<Rightarrow> (string \<times> string \<times> string) option" where
  "section_at s =
     (let n = takeWhile (\<lambda>c. \<not> is_space c) (drop (length begin_mark) s);
          r = dropWhile (\<lambda>c. \<not> is_space c) (drop (length begin_mark) s);
          b = drop 4 r;
          body = (if prefix [CHR 0x0D] b then drop 2 b else drop 1 b)
      in if \<not> prefix begin_mark s \<or> n = [] \<or> \<not> prefix '' -->'' r
            \<or> \<not> (prefix [CHR 0x0A] b \<or> prefix [CHR 0x0D, CHR 0x0A] b) then None
         else map_option (\<lambda>i. (n, take i body, drop (i + length (end_mark n)) body)) (find_sub (end_mark n) body))"

lemma section_at_shorter: "section_at s = Some (n, body, rest) \<Longrightarrow> length rest < length s"
proof -
  assume "section_at s = Some (n, body, rest)"
  then have "length rest \<le> length (dropWhile (\<lambda>c. \<not> is_space c) (drop (length begin_mark) s))" "prefix begin_mark s"
    by (auto simp: section_at_def Let_def split: if_splits)
  moreover have "length (dropWhile (\<lambda>c. \<not> is_space c) (drop (length begin_mark) s)) \<le> length (drop (length begin_mark) s)"
    by (rule length_dropWhile_le)
  moreover have "length begin_mark \<le> length s" using \<open>prefix begin_mark s\<close> by (rule prefix_length_le)
  moreover have "length begin_mark = 11" by (simp add: begin_mark_def)
  ultimately show ?thesis by simp
qed

definition strip_newline :: "string \<Rightarrow> string" where
  "strip_newline s = (if s \<noteq> [] \<and> last s = CHR 0x0A then butlast s else s)"

function sections_of :: "string \<Rightarrow> (string \<times> string) list" where
  "sections_of s =
     (if s = [] then []
      else case section_at s of
             Some (n, body, rest) \<Rightarrow> (n, strip_newline body) # sections_of rest
           | None \<Rightarrow> sections_of (tl s))"
  by pat_completeness auto
termination by (relation "measure length") (auto dest: section_at_shorter)

declare sections_of.simps [simp del]

definition readmeSections :: "string \<Rightarrow> string \<Rightarrow> string option" where
  "readmeSections src n = map_of (rev (sections_of src)) n"

text \<open>A placeholder: the name is greedy, it reaches to the last closing braces before a space.\<close>

definition placeholder_at :: "string \<Rightarrow> (string \<times> string) option" where
  "placeholder_at s =
     (let t = drop 10 s; run = takeWhile (\<lambda>c. \<not> is_space c) t;
          closes = filter (\<lambda>i. prefix ''}}'' (drop i run)) [1..<length run]
      in if \<not> prefix ''{{section:'' s \<or> closes = [] then None
         else Some (take (last closes) run, drop (last closes + 2) t))"

function expand_with :: "(string \<Rightarrow> string option) \<Rightarrow> string \<Rightarrow> string result" where
  "expand_with sections s =
     (if s = [] then Inr []
      else case placeholder_at s of
             Some (n, rest) \<Rightarrow>
               (case sections n of
                  None \<Rightarrow> Inl (plain_error (''MISSING section '' @ [CHR 0x22] @ n @ [CHR 0x22] @ '' in README.md''))
                | Some content \<Rightarrow>
                    (case expand_with sections rest of Inl e \<Rightarrow> Inl e | Inr t \<Rightarrow> Inr (content @ t)))
           | None \<Rightarrow> (case expand_with sections (tl s) of Inl e \<Rightarrow> Inl e | Inr t \<Rightarrow> Inr (hd s # t)))"
  by pat_completeness auto
termination
  by (relation "measure (\<lambda>(sections, s). length s)") (auto simp: placeholder_at_def Let_def split: if_splits)

declare expand_with.simps [simp del]

definition expandSections :: "string \<Rightarrow> string \<Rightarrow> string result" where
  "expandSections readme text = expand_with (readmeSections readme) text"

section \<open>The target\<close>

text \<open>The package name that \<^verbatim>\<open>--target=\<close> gives, and the archives of earlier builds.\<close>

definition target_of :: "string list \<Rightarrow> string option" where
  "target_of argv =
     (case List.find (prefix ''--target='') argv of
        None \<Rightarrow> None
      | Some a \<Rightarrow> (let t = js_split (CHR ''='') a ! 1 in if t = ''kiro'' \<or> t = ''vscodium'' then Some t else None))"

definition old_archives :: "string \<Rightarrow> string \<Rightarrow> string list \<Rightarrow> string list" where
  "old_archives target version names =
     filter (\<lambda>f. prefix (''zygos-'' @ target @ ''-'') f \<and> suffix ''.vsix'' f
                 \<and> f \<noteq> ''zygos-'' @ target @ ''-'' @ version @ ''.vsix'') names"

definition copied :: "string \<Rightarrow> bool" where
  "copied name =
     (name \<notin> {''node_modules'', ''vendor'', ''.git'', ''research'', ''upstream'', ''tmp'', ''coverage'', ''dist/meta.json'', ''sim.ps1'', ''README.md''}
      \<and> \<not> prefix ''zygos-pack-'' name \<and> \<not> prefix ''.zygos-pack-'' name \<and> \<not> suffix ''.vsix'' name \<and> name \<noteq> ''package.json.bak'')"

section \<open>Lemmas on objects\<close>

lemma distinct_fold_update: "distinct (map fst o0) \<Longrightarrow> distinct (map fst (fold (\<lambda>(k, v). AList.update k v) kvs o0))"
  by (induction kvs arbitrary: o0) (auto simp: distinct_update)

lemma map_of_rev_distinct: "distinct (map fst kvs) \<Longrightarrow> map_of (rev kvs) = map_of kvs"
  by (subst map_of_inject_set) (simp_all add: rev_map [symmetric])

lemma map_of_fold_update:
  "map_of (fold (\<lambda>(k, v). AList.update k v) kvs o0) k = (case map_of (rev kvs) k of None \<Rightarrow> map_of o0 k | Some v \<Rightarrow> Some v)"
proof (induction kvs arbitrary: o0)
  case (Cons kv kvs)
  then show ?case by (cases kv) (simp add: update_conv' map_add_def split: option.split)
qed simp

lemma map_of_entries [simp]: "map_of (entries_of (JObj kvs)) = map_of (rev kvs)"
  by (rule ext) (simp add: entries_of_def map_of_fold_update split: option.split)

lemma distinct_entries [simp]: "distinct (map fst (entries_of (JObj kvs)))"
  by (simp add: entries_of_def distinct_fold_update)

lemma put_prop:
  assumes "opt_prop (map_of m ''contributes'') x \<noteq> None"
  shows "opt_prop (map_of (put_contributes k v m) ''contributes'') k' = (if k' = k then Some v else opt_prop (map_of m ''contributes'') k')"
    "j \<noteq> ''contributes'' \<Longrightarrow> map_of (put_contributes k v m) j = map_of m j"
proof -
  obtain kvs where c: "map_of m ''contributes'' = Some (JObj kvs)"
    using assms by (auto simp: opt_prop_def split: option.splits json.splits)
  have "distinct (map fst (AList.update k v (entries_of (JObj kvs))))" by (simp add: distinct_update)
  then show "opt_prop (map_of (put_contributes k v m) ''contributes'') k' = (if k' = k then Some v else opt_prop (map_of m ''contributes'') k')"
    by (simp add: opt_prop_def put_contributes_def update_conv' c nullish_def map_of_rev_distinct)
  show "j \<noteq> ''contributes'' \<Longrightarrow> map_of (put_contributes k v m) j = map_of m j"
    by (simp add: put_contributes_def update_conv')
qed

lemma all_results_Inr: "all_results f xs = Inr ys \<Longrightarrow> list_all2 (\<lambda>x y. f x = Inr y) xs ys"
  by (induction xs arbitrary: ys) (auto split: sum.splits)

text \<open>No entry names a command that the set holds.\<close>

definition names_none :: "string \<Rightarrow> json option \<Rightarrow> bool" where
  "names_none i j = (case j of Some (JArr es) \<Rightarrow> (\<forall>e \<in> set es. json_prop e ''command'' \<noteq> Inr (Some (JStr i))) | _ \<Rightarrow> True)"

lemma keep_entries_clean:
  assumes "keep_entries S es = Inr ds" and "JStr i \<in> set S"
  shows "names_none i (Some (JArr ds))"
proof -
  obtain cs where "all_results (\<lambda>e. json_prop e ''command'') es = Inr cs"
    "ds = map fst (filter (\<lambda>(e, c). \<not> set_has S c) (zip es cs))"
    using assms(1) by (auto simp: keep_entries_def split: sum.splits)
  then have "\<exists>c. json_prop e ''command'' = Inr c \<and> \<not> set_has S c" if "e \<in> set ds" for e
    using that all_results_Inr [of "\<lambda>e. json_prop e ''command''" es cs] by (auto simp: list_all2_iff)
  with assms(2) show ?thesis
    by (fastforce simp: names_none_def set_has_def is_object_def)
qed

lemma strip_commands_clean:
  assumes "strip_commands S m = Inr m1" and "JStr i \<in> set S"
  shows "names_none i (opt_prop (map_of m1 ''contributes'') ''commands'')"
proof (cases "json_truthy (opt_prop (map_of m ''contributes'') ''commands'')")
  case False
  moreover have "m1 = m" using False assms(1) by (simp add: strip_commands_def)
  ultimately show ?thesis by (auto simp: names_none_def json_truthy_def split: option.split json.split)
next
  case True
  have "S \<noteq> []" using assms(2) by auto
  with True assms(1) obtain cs ds where "opt_prop (map_of m ''contributes'') ''commands'' = Some (JArr cs)"
    "keep_entries S cs = Inr ds" "m1 = put_contributes ''commands'' (JArr ds) m"
    by (auto simp: strip_commands_def split: option.splits json.splits sum.splits)
  with keep_entries_clean [OF _ assms(2)] show ?thesis by (simp add: put_prop(1) [of m "''commands''"])
qed

definition menus_clean :: "string \<Rightarrow> json option \<Rightarrow> bool" where
  "menus_clean i j = (case j of Some (JObj ms) \<Rightarrow> (\<forall>(k, v) \<in> set ms. names_none i (Some v)) | _ \<Rightarrow> True)"

lemma strip_menu_clean:
  assumes "strip_menu S v = Inr w" and "JStr i \<in> set S"
  shows "names_none i (Some w)"
proof (cases "\<exists>es. v = JArr es")
  case True
  with assms(1) show ?thesis by (auto simp: strip_menu_def split: sum.splits dest: keep_entries_clean [OF _ assms(2)])
next
  case False
  with assms(1) have "w = v" "\<nexists>es. v = JArr es" by (auto simp: strip_menu_def split: json.splits)
  then show ?thesis by (auto simp: names_none_def split: json.split)
qed

lemma strip_menus_clean:
  assumes "strip_menus S m = Inr m1" and "JStr i \<in> set S"
  shows "menus_clean i (opt_prop (map_of m1 ''contributes'') ''menus'')"
    "opt_prop (map_of m1 ''contributes'') ''commands'' = opt_prop (map_of m ''contributes'') ''commands''"
proof -
  let ?menus = "opt_prop (map_of m ''contributes'') ''menus''"
  have ne: "S \<noteq> []" using assms(2) by auto
  have "menus_clean i (opt_prop (map_of m1 ''contributes'') ''menus'')
    \<and> opt_prop (map_of m1 ''contributes'') ''commands'' = opt_prop (map_of m ''contributes'') ''commands''"
  proof (cases "\<exists>ms. ?menus = Some (JObj ms)")
    case True
    then obtain ms where ms: "?menus = Some (JObj ms)" by blast
    let ?kvs = "entries_of (JObj ms)"
    obtain vs where vs: "all_results (strip_menu S) (map snd ?kvs) = Inr vs"
      "m1 = put_contributes ''menus'' (JObj (zip (map fst ?kvs) vs)) m"
      using assms(1) ne ms by (auto simp: strip_menus_def Let_def split: sum.splits)
    have "\<forall>v \<in> set vs. names_none i (Some v)"
      using all_results_Inr [OF vs(1)] strip_menu_clean [OF _ assms(2)] by (fastforce simp: list_all2_conv_all_nth in_set_conv_nth)
    then have "menus_clean i (Some (JObj (zip (map fst ?kvs) vs)))"
      by (auto simp: menus_clean_def dest: set_zip_rightD)
    with vs(2) ms show ?thesis by (simp add: put_prop(1) [of m "''menus''"])
  next
    case False
    then show ?thesis
    proof (cases "\<exists>vs. ?menus = Some (JArr vs)")
      case True
      with assms(1) ne obtain ws where "m1 = put_contributes ''menus'' (JArr ws) m"
        by (auto simp: strip_menus_def split: sum.splits)
      with True show ?thesis by (auto simp: put_prop(1) [of m "''menus''"] menus_clean_def)
    next
      case other: False
      with assms(1) ne False have "m1 = m" by (auto simp: strip_menus_def split: option.splits json.splits)
      with False show ?thesis by (auto simp: menus_clean_def split: option.split json.split)
    qed
  qed
  then show "menus_clean i (opt_prop (map_of m1 ''contributes'') ''menus'')"
    "opt_prop (map_of m1 ''contributes'') ''commands'' = opt_prop (map_of m ''contributes'') ''commands''" by simp_all
qed

lemma strip_events_same: "strip_events ev m = Inr m1 \<Longrightarrow> map_of m1 ''contributes'' = map_of m ''contributes''"
  by (auto simp: strip_events_def update_conv' split: if_splits sum.splits option.splits json.splits)

lemma strip_configuration_same:
  assumes "strip_configuration keys m = Inr m1" and "k \<noteq> ''configuration''"
  shows "opt_prop (map_of m1 ''contributes'') k = opt_prop (map_of m ''contributes'') k"
proof -
  have "m1 = m \<or> (opt_prop (map_of m ''contributes'') ''configuration'' \<noteq> None \<and> (\<exists>v. m1 = put_contributes ''configuration'' v m))"
    using assms(1) by (auto simp: strip_configuration_def Let_def opt_prop_def split: if_splits sum.splits option.splits json.splits)
  with assms(2) show ?thesis by (auto simp: put_prop(1) [of m "''configuration''"])
qed

lemma stripped_clean:
  assumes "stripFromMerged m spec = Inr m'" and "js_iter (opt_prop (Some spec) ''commands'') = Inr S" and "JStr i \<in> set S"
  shows "names_none i (opt_prop (map_of m' ''contributes'') ''commands'')" "menus_clean i (opt_prop (map_of m' ''contributes'') ''menus'')"
proof -
  obtain m1 m2 m3 where m: "strip_commands S m = Inr m1" "strip_menus S m1 = Inr m2"
    "strip_events (opt_prop (Some spec) ''activationEvents'') m2 = Inr m3"
    "strip_configuration (opt_prop (Some spec) ''configuration'') m3 = Inr m'"
    using assms(1,2) by (auto simp: stripFromMerged_def split: sum.splits)
  have same: "opt_prop (map_of m' ''contributes'') k = opt_prop (map_of m2 ''contributes'') k" if "k \<noteq> ''configuration''" for k
    using strip_configuration_same [OF m(4) that] strip_events_same [OF m(3)] by simp
  show "names_none i (opt_prop (map_of m' ''contributes'') ''commands'')"
    using strip_commands_clean [OF m(1) assms(3)] strip_menus_clean(2) [OF m(2) assms(3)] by (simp add: same)
  show "menus_clean i (opt_prop (map_of m' ''contributes'') ''menus'')"
    using strip_menus_clean(1) [OF m(2) assms(3)] by (simp add: same)
qed

lemma deepMerge_other:
  "k \<noteq> ''contributes'' \<Longrightarrow> map_of (deepMerge base override) k = (case map_of (rev override) k of None \<Rightarrow> map_of base k | Some v \<Rightarrow> Some v)"
proof (induction override arbitrary: base)
  case (Cons kv override)
  then show ?case by (cases kv) (auto simp: deepMerge_def update_conv' map_add_def split: option.split)
qed (simp add: deepMerge_def)

lemma strip_commands_other: "strip_commands S m = Inr m1 \<Longrightarrow> k \<noteq> ''contributes'' \<Longrightarrow> map_of m1 k = map_of m k"
  by (auto simp: strip_commands_def put_contributes_def update_conv' split: if_splits option.splits json.splits sum.splits)

lemma strip_menus_other: "strip_menus S m = Inr m1 \<Longrightarrow> k \<noteq> ''contributes'' \<Longrightarrow> map_of m1 k = map_of m k"
  by (auto simp: strip_menus_def Let_def put_contributes_def update_conv' split: if_splits option.splits json.splits sum.splits)

lemma strip_events_other: "strip_events ev m = Inr m1 \<Longrightarrow> k \<noteq> ''activationEvents'' \<Longrightarrow> map_of m1 k = map_of m k"
  by (auto simp: strip_events_def update_conv' split: if_splits sum.splits option.splits json.splits)

lemma strip_configuration_other: "strip_configuration keys m = Inr m1 \<Longrightarrow> k \<noteq> ''contributes'' \<Longrightarrow> map_of m1 k = map_of m k"
  by (auto simp: strip_configuration_def Let_def put_contributes_def update_conv' split: if_splits option.splits json.splits sum.splits)

lemma strip_other:
  assumes "stripFromMerged m spec = Inr m'" and "k \<noteq> ''contributes''" and "k \<noteq> ''activationEvents''"
  shows "map_of m' k = map_of m k"
  using assms strip_commands_other strip_menus_other strip_events_other strip_configuration_other
  by (auto simp: stripFromMerged_def split: sum.splits)

section \<open>Properties of the manifest\<close>

text \<open>C36. A vendor's package has none of the commands that the vendor strips: neither the commands nor
  any menu of the merged manifest name them, whether they come from the base or from the vendor.\<close>

theorem stripped_commands_gone:
  assumes "merged_manifest basePkg vendor = Inr m" and "opt_prop (Some vendor) ''__strip'' = Some spec"
    and "opt_prop (Some spec) ''commands'' = Some (JArr cmds)" and "JStr i \<in> set cmds"
  shows "names_none i (opt_prop (map_of m ''contributes'') ''commands'') \<and> menus_clean i (opt_prop (map_of m ''contributes'') ''menus'')"
proof -
  have "json_truthy (Some spec)" using assms(3) by (auto simp: opt_prop_def json_truthy_def split: json.splits)
  with assms(1,2) obtain m0 where "stripFromMerged m0 spec = Inr m"
    by (auto simp: merged_manifest_def Let_def split: if_splits)
  moreover have "js_iter (opt_prop (Some spec) ''commands'') = Inr cmds" using assms(3) by (simp add: js_iter_def)
  ultimately show ?thesis using stripped_clean assms(4) by blast
qed

definition sample_base :: json where
  "sample_base = JObj [(''name'', JStr ''zygos''), (''scripts'', JObj []),
     (''contributes'', JObj [(''commands'', JArr [JObj [(''command'', JStr ''a'')], JObj [(''command'', JStr ''b'')]])])]"

definition sample_vendor :: json where
  "sample_vendor = JObj [(''name'', JStr ''zygos-kiro''), (''__strip'', JObj [(''commands'', JArr [JStr ''b''])])]"

lemma sample_manifest:
  "merged_manifest sample_base sample_vendor =
     Inr [(''name'', JStr ''zygos-kiro''), (''contributes'', JObj [(''commands'', JArr [JObj [(''command'', JStr ''a'')]])])]"
  by code_simp

theorem stripped_commands_gone_witness:
  "\<exists>m. merged_manifest sample_base sample_vendor = Inr m \<and> names_none ''b'' (opt_prop (map_of m ''contributes'') ''commands'')"
proof -
  have "opt_prop (Some sample_vendor) ''__strip'' = Some (JObj [(''commands'', JArr [JStr ''b''])])"
    "opt_prop (Some (JObj [(''commands'', JArr [JStr ''b''])])) ''commands'' = Some (JArr [JStr ''b''])"
    by (simp_all add: sample_vendor_def opt_prop_def)
  from stripped_commands_gone [OF sample_manifest this, of "''b''"] sample_manifest show ?thesis by simp
qed

text \<open>Every other key of a vendor's manifest is the vendor's where the vendor has it, and the base's
  otherwise; the keys that only the build uses are gone.\<close>

theorem manifest_keys:
  assumes "merged_manifest basePkg (JObj vendor) = Inr m"
    and "k \<notin> {''contributes'', ''activationEvents'', ''scripts'', ''devDependencies'', ''__strip''}"
  shows "map_of m k = (case map_of (rev vendor) k of Some v \<Rightarrow> Some v | None \<Rightarrow> map_of (entries_of basePkg) k)
    \<and> map_of m ''scripts'' = None \<and> map_of m ''devDependencies'' = None
    \<and> map_of m ''__strip'' = map_of (entries_of basePkg) ''__strip''"
proof -
  let ?over = "AList.delete ''__strip'' (entries_of (JObj vendor))"
  let ?m0 = "AList.delete ''devDependencies'' (AList.delete ''scripts'' (deepMerge (entries_of basePkg) ?over))"
  have "m = ?m0 \<or> (\<exists>spec. stripFromMerged ?m0 spec = Inr m)"
    using assms(1) by (auto simp: merged_manifest_def Let_def split: if_splits)
  then have m: "map_of m j = map_of ?m0 j" if "j \<noteq> ''contributes''" "j \<noteq> ''activationEvents''" for j
    using strip_other that by blast
  have "distinct (map fst ?over)" by (simp add: distinct_delete)
  then have r: "map_of (rev ?over) = (map_of (rev vendor))(''__strip'' := None)"
    by (simp add: map_of_rev_distinct delete_conv')
  have "map_of m j = (if j = ''devDependencies'' \<or> j = ''scripts'' then None
      else case ((map_of (rev vendor))(''__strip'' := None)) j of None \<Rightarrow> map_of (entries_of basePkg) j | Some v \<Rightarrow> Some v)"
    if "j \<noteq> ''contributes''" "j \<noteq> ''activationEvents''" for j
    using deepMerge_other [OF that(1), of "entries_of basePkg" ?over] m [OF that] unfolding r by (auto simp: delete_conv' simp del: map_of_entries)
  from this [of k] this [of "''scripts''"] this [of "''devDependencies''"] this [of "''__strip''"] assms(2)
  show ?thesis by (auto split: option.split)
qed

theorem manifest_keys_witness:
  "\<exists>m. merged_manifest sample_base sample_vendor = Inr m \<and> map_of m ''name'' = Some (JStr ''zygos-kiro'')"
proof -
  have "merged_manifest sample_base (JObj [(''name'', JStr ''zygos-kiro''), (''__strip'', JObj [(''commands'', JArr [JStr ''b''])])])
      = Inr [(''name'', JStr ''zygos-kiro''), (''contributes'', JObj [(''commands'', JArr [JObj [(''command'', JStr ''a'')]])])]"
    using sample_manifest by (simp only: sample_vendor_def)
  from manifest_keys [OF this, of "''name''"] sample_manifest show ?thesis by simp
qed

section \<open>Properties of the README\<close>

lemma find_sub_first:
  assumes "\<not> has_sub b (c # p)" and "c \<notin> set p"
  shows "find_sub (c # p) (b @ (c # p) @ r) = Some (length b)"
  using assms(1)
proof (induction b)
  case (Cons x b)
  have no: "\<not> has_sub b (c # p)" "\<not> prefix (c # p) (x # b)" using Cons.prems by (auto simp: has_sub_def split: if_splits)
  have "\<not> prefix (c # p) ((x # b) @ (c # p) @ r)"
  proof
    assume "prefix (c # p) ((x # b) @ (c # p) @ r)"
    with no(2) have "prefix (x # b) (c # p)" "x # b \<noteq> c # p"
      using prefix_same_cases [of "c # p" "(x # b) @ (c # p) @ r" "x # b"] by auto
    then obtain z zs where "c # p = (x # b) @ z # zs" by (metis prefix_def append_Nil2 neq_Nil_conv)
    moreover from this have "z = c"
      using \<open>prefix (c # p) ((x # b) @ (c # p) @ r)\<close> by auto
    ultimately show False using assms(2) by auto
  qed
  with Cons.IH [OF no(1)] show ?case by simp
qed simp

lemma takeWhile_name: "list_all (\<lambda>c. \<not> is_space c) n \<Longrightarrow> r = [] \<or> is_space (hd r) \<Longrightarrow>
    takeWhile (\<lambda>c. \<not> is_space c) (n @ r) = n \<and> dropWhile (\<lambda>c. \<not> is_space c) (n @ r) = r"
  by (induction n) (auto simp: neq_Nil_conv takeWhile_eq_Nil_iff dropWhile_eq_self_iff)

lemma section_at_start:
  assumes "n \<noteq> []" and "list_all (\<lambda>c. \<not> is_space c) n" and "CHR ''<'' \<notin> set n"
    and "\<not> has_sub (body @ [CHR 0x0A]) (end_mark n)"
  shows "section_at (begin_mark @ n @ '' -->'' @ [CHR 0x0A] @ body @ [CHR 0x0A] @ end_mark n @ after) = Some (n, body @ [CHR 0x0A], after)"
proof -
  let ?t = "[CHR 0x0A] @ body @ [CHR 0x0A] @ end_mark n @ after"
  have "is_space (hd ('' -->'' @ ?t))" by (simp add: is_space_def)
  then have w: "takeWhile (\<lambda>c. \<not> is_space c) (n @ '' -->'' @ ?t) = n" "dropWhile (\<lambda>c. \<not> is_space c) (n @ '' -->'' @ ?t) = '' -->'' @ ?t"
    using takeWhile_name [OF assms(2)] by blast+
  have "find_sub (end_mark n) ((body @ [CHR 0x0A]) @ end_mark n @ after) = Some (length (body @ [CHR 0x0A]))"
    using find_sub_first [of "body @ [CHR 0x0A]" "CHR ''<''" "''!-- END:'' @ n @ '' -->''" after] assms(3,4) by (simp add: end_mark_def)
  then show ?thesis using assms(1) unfolding section_at_def Let_def by (simp add: w [simplified])
qed

lemma sections_skip: "CHR ''<'' \<notin> set pre \<Longrightarrow> sections_of (pre @ s) = sections_of s"
proof (induction pre)
  case (Cons c pre)
  then have "section_at (c # pre @ s) = None" by (auto simp: section_at_def begin_mark_def Let_def)
  with Cons show ?case by (simp add: sections_of.simps [of "c # pre @ s"])
qed simp

lemma placeholder_start:
  assumes "n \<noteq> []" and "list_all (\<lambda>c. \<not> is_space c) n" and "post = [] \<or> is_space (hd post)"
  shows "placeholder_at (''{{section:'' @ n @ ''}}'' @ post) = Some (n, post)"
proof -
  have "list_all (\<lambda>c. \<not> is_space c) (n @ ''}}'')" using assms(2) by (simp add: is_space_def)
  then have w: "takeWhile (\<lambda>c. \<not> is_space c) (n @ ''}}'' @ post) = n @ ''}}''"
    using takeWhile_name [OF _ assms(3), of "n @ ''}}''"] by simp
  have "filter (\<lambda>i. prefix ''}}'' (drop i (n @ ''}}''))) [1..<length n + 2]
      = filter (\<lambda>i. prefix ''}}'' (drop i (n @ ''}}''))) [1..<length n] @ [length n]"
    using assms(1) by (simp add: Suc_le_eq)
  then show ?thesis unfolding placeholder_at_def Let_def by (simp add: w [simplified])
qed

lemma expand_skip:
  assumes "CHR ''{'' \<notin> set pre"
  shows "expand_with S (pre @ t) = (case expand_with S t of Inl e \<Rightarrow> Inl e | Inr u \<Rightarrow> Inr (pre @ u))"
  using assms
proof (induction pre)
  case (Cons c pre)
  then have "placeholder_at (c # pre @ t) = None" by (auto simp: placeholder_at_def Let_def)
  with Cons show ?case by (simp add: expand_with.simps [of S "c # pre @ t"] split: sum.split)
qed (simp split: sum.split)

text \<open>A section that the README marks is what its placeholder in a vendor's README becomes, without
  the line break before the closing mark, and the text around the placeholder stays.\<close>

theorem section_shared:
  assumes "n \<noteq> []" and "list_all (\<lambda>c. \<not> is_space c) n" and "CHR ''<'' \<notin> set n"
    and "\<not> has_sub (body @ [CHR 0x0A]) (end_mark n)" and "CHR ''<'' \<notin> set before"
    and "n \<notin> fst ` set (sections_of after)"
    and "CHR ''{'' \<notin> set pre" and "post = [] \<or> is_space (hd post)"
    and "readme = before @ begin_mark @ n @ '' -->'' @ [CHR 0x0A] @ body @ [CHR 0x0A] @ end_mark n @ after"
    and "expandSections readme post = Inr post'"
  shows "expandSections readme (pre @ ''{{section:'' @ n @ ''}}'' @ post) = Inr (pre @ body @ post')"
proof -
  let ?s = "begin_mark @ n @ '' -->'' @ [CHR 0x0A] @ body @ [CHR 0x0A] @ end_mark n @ after"
  have "?s \<noteq> []" by (simp add: begin_mark_def)
  then have "sections_of readme = (n, body) # sections_of after"
    using section_at_start [OF assms(1-4)] unfolding assms(9) sections_skip [OF assms(5)]
    by (subst sections_of.simps) (simp add: strip_newline_def)
  moreover have "map_of (rev (sections_of after)) n = None" using assms(6) by (simp add: map_of_eq_None_iff)
  ultimately have "readmeSections readme n = Some body" by (simp add: readmeSections_def map_add_def)
  then have "expand_with (readmeSections readme) (''{{section:'' @ n @ ''}}'' @ post) = Inr (body @ post')"
    using placeholder_start [OF assms(1,2,8)] assms(10) by (subst expand_with.simps) (simp add: expandSections_def)
  then show ?thesis by (simp only: expandSections_def expand_skip [OF assms(7)]) simp
qed

theorem section_shared_witness:
  "expandSections (begin_mark @ ''a -->'' @ [CHR 0x0A] @ ''hi'' @ [CHR 0x0A] @ end_mark ''a'') ''x {{section:a}}'' = Inr ''x hi''"
proof -
  have "\<not> has_sub (''hi'' @ [CHR 0x0A]) (end_mark ''a'')" by (simp add: has_sub_def end_mark_def)
  moreover have "sections_of [] = []" by (simp add: sections_of.simps)
  moreover have "expandSections (begin_mark @ ''a -->'' @ [CHR 0x0A] @ ''hi'' @ [CHR 0x0A] @ end_mark ''a'') [] = Inr []"
    by (simp add: expandSections_def expand_with.simps)
  ultimately show ?thesis
    using section_shared [of "''a''" "''hi''" "[]" "[]" "''x ''" "[]" _ "[]"] by (simp add: is_space_def)
qed

end
