(* ===== verification/BusyboxBuild.thy ===== *)
theory BusyboxBuild
  imports Json "HOL-Library.AList"
begin

text \<open>
  \<^verbatim>\<open>scripts/download-busybox.mjs\<close>: fetching the busybox binaries that the extension ships. Each package is
  compared with its pinned hash, unpacked by a small reader of tar archives, and the binary is compared
  with a hash of its own. SHA-256, gunzip, the network and what can be written are arguments; a
  download, and the reader on a malformed archive, may not end, which is \<^term>\<open>None\<close>. The text of
  \<^verbatim>\<open>PROVENANCE.md\<close> is left out.
\<close>

section \<open>Downloading\<close>

datatype reply =
    NetFailure js_error
  | Reply (reply_status: nat) (reply_location: "string option") (reply_body: "js_error + bytes")

text \<open>Redirects are followed without a bound.\<close>

partial_function (option) download ::
  "(string \<Rightarrow> 'w \<Rightarrow> reply \<times> 'w) \<Rightarrow> string \<Rightarrow> 'w \<Rightarrow> (bytes result \<times> 'w) option" where
  "download net url w =
     (case net url w of
        (r, w1) \<Rightarrow>
          (case r of
             NetFailure e \<Rightarrow> Some (Inl e, w1)
           | Reply st loc body \<Rightarrow>
               if st = 0 \<or> 400 \<le> st then Some (Inl (plain_error (''HTTP '' @ dec st @ '' fetching '' @ url)), w1)
               else if 300 \<le> st \<and> truthy loc then download net (the loc) w1
               else Some (body, w1)))"

section \<open>The reader of archives\<close>

text \<open>\<^verbatim>\<open>buf.toString("utf-8", a, b)\<close> and \<^verbatim>\<open>buf.subarray(a, b)\<close>.\<close>

definition text_range :: "bytes \<Rightarrow> int \<Rightarrow> int \<Rightarrow> string" where
  "text_range buf a b = utf8_string (take (nat b - nat a) (drop (nat a) buf))"

definition subarray :: "bytes \<Rightarrow> int \<Rightarrow> int \<Rightarrow> bytes" where
  "subarray buf a b =
     (let at = (\<lambda>i. if i < 0 then nat (int (length buf) + i) else nat i)
      in take (at b - at a) (drop (at a) buf))"

text \<open>\<^verbatim>\<open>replace(/\0.*/, "")\<close>: the dot stops at the end of a line.\<close>

definition cut_nul :: "string \<Rightarrow> string" where
  "cut_nul s =
     takeWhile (\<lambda>c. c \<noteq> CHR 0x00) s
     @ dropWhile (\<lambda>c. c \<notin> {CHR 0x0A, CHR 0x0D}) (dropWhile (\<lambda>c. c \<noteq> CHR 0x00) s)"

text \<open>\<^verbatim>\<open>parseInt(s, 8) || 0\<close>.\<close>

definition octal_digit :: "char \<Rightarrow> bool" where
  "octal_digit c = (is_digit c \<and> digit_val c < 8)"

definition octal_value :: "string \<Rightarrow> nat" where
  "octal_value ds = foldl (\<lambda>n c. 8 * n + digit_val c) 0 ds"

definition parse_octal :: "string \<Rightarrow> int" where
  "parse_octal s =
     (let t = trim_start s; neg = (t \<noteq> [] \<and> hd t = CHR ''-'');
          u = (if t \<noteq> [] \<and> hd t \<in> {CHR ''-'', CHR ''+''} then tl t else t);
          n = int (octal_value (takeWhile octal_digit u))
      in if neg then - n else n)"

definition BLOCK :: int where "BLOCK = 512"

text \<open>\<^verbatim>\<open>Math.ceil(size / BLOCK) * BLOCK\<close>.\<close>

definition padded :: "int \<Rightarrow> int" where
  "padded n = - ((- n) div BLOCK) * BLOCK"

partial_function (option) extract_from :: "bytes \<Rightarrow> string \<Rightarrow> int \<Rightarrow> bytes option option" where
  "extract_from buf targetPath pos =
     (if pos + BLOCK \<le> int (length buf)
      then let entry = cut_nul (text_range buf pos (pos + 100));
               n = parse_octal (cut_nul (text_range buf (pos + 124) (pos + 136)))
           in if entry = [] then Some None
              else if entry = targetPath then Some (Some (subarray buf (pos + BLOCK) (pos + BLOCK + n)))
              else extract_from buf targetPath (pos + BLOCK + padded n)
      else Some None)"

definition extractFromTarGz ::
  "(bytes \<Rightarrow> bytes result) \<Rightarrow> bytes \<Rightarrow> string \<Rightarrow> bytes option result option" where
  "extractFromTarGz gunzip gz targetPath =
     (case gunzip gz of
        Inl e \<Rightarrow> Some (Inl e)
      | Inr buf \<Rightarrow> map_option Inr (extract_from buf targetPath 0))"

section \<open>The script\<close>

record pin =
  alpineArch :: string
  runtimeArch :: string
  packageVersion :: string
  apkSha256 :: string
  binarySha256 :: string

record tools =
  sha256 :: "bytes \<Rightarrow> string"
  gunzipSync :: "bytes \<Rightarrow> bytes result"
  can_write :: "string \<Rightarrow> bool"
  started_at :: string

text \<open>The directory \<^verbatim>\<open>tools/busybox\<close>: the binaries and the manifest.\<close>

record tree =
  binaries :: "string \<Rightarrow> bytes option"
  provenance :: "json option"

definition BUSYBOX :: string where "BUSYBOX = ''bin/busybox.static''"

definition outFile :: "pin \<Rightarrow> string" where "outFile p = ''bb-'' @ runtimeArch p"

definition cdn :: "string \<Rightarrow> string" where
  "cdn alpineVer = ''https://dl-cdn.alpinelinux.org/alpine/v'' @ alpineVer @ ''/main''"

definition apkUrl :: "string \<Rightarrow> pin \<Rightarrow> string" where
  "apkUrl alpineVer p = cdn alpineVer @ ''/'' @ alpineArch p @ ''/busybox-static-'' @ packageVersion p @ ''.apk''"

definition record_of :: "string \<Rightarrow> pin \<Rightarrow> bytes \<Rightarrow> json" where
  "record_of alpineVer p binary =
     JObj [(''alpineArch'', JStr (alpineArch p)), (''runtimeArch'', JStr (runtimeArch p)),
           (''packageVersion'', JStr (packageVersion p)), (''apkUrl'', JStr (apkUrl alpineVer p)),
           (''apkSha256'', JStr (apkSha256 p)), (''binarySha256'', JStr (binarySha256 p)),
           (''binarySize'', JNum (dec (length binary)))]"

text \<open>One package: the binary, or \<^term>\<open>None\<close> where the script exits with 1.\<close>

definition fetch_binary ::
  "tools \<Rightarrow> (string \<Rightarrow> 'w \<Rightarrow> reply \<times> 'w) \<Rightarrow> string \<Rightarrow> pin \<Rightarrow> 'w \<Rightarrow> (bytes option \<times> 'w) option" where
  "fetch_binary T net alpineVer p w =
     (case download net (apkUrl alpineVer p) w of
        None \<Rightarrow> None
      | Some (Inl e, w1) \<Rightarrow> Some (None, w1)
      | Some (Inr apk, w1) \<Rightarrow>
          if sha256 T apk \<noteq> apkSha256 p then Some (None, w1)
          else (case extractFromTarGz (gunzipSync T) apk BUSYBOX of
                  None \<Rightarrow> None
                | Some (Inr (Some binary)) \<Rightarrow>
                    Some (if sha256 T binary \<noteq> binarySha256 p then None else Some binary, w1)
                | Some _ \<Rightarrow> Some (None, w1)))"

definition manifest :: "tools \<Rightarrow> string \<Rightarrow> (string \<times> json) list \<Rightarrow> json" where
  "manifest T alpineVer entries =
     JObj [(''alpineVersion'', JStr alpineVer), (''package'', JStr ''busybox-static''), (''source'', JStr (cdn alpineVer)),
           (''license'', JStr ''GPL-2.0-only''), (''downloadedAt'', JStr (started_at T)), (''binaries'', JObj entries)]"

text \<open>The loop over the pinned binaries, with the records of those done, and the exit code.\<close>

fun fetch_all ::
  "tools \<Rightarrow> (string \<Rightarrow> 'w \<Rightarrow> reply \<times> 'w) \<Rightarrow> string \<Rightarrow> pin list \<Rightarrow> (string \<times> json) list \<Rightarrow> tree \<Rightarrow> 'w
     \<Rightarrow> (nat \<times> tree) option" where
  "fetch_all T net alpineVer [] done_so_far t w =
     Some (if can_write T ''provenance.json''
           then (if can_write T ''PROVENANCE.md'' then 0 else 1, t\<lparr>provenance := Some (manifest T alpineVer done_so_far)\<rparr>)
           else (1, t))"
| "fetch_all T net alpineVer (p # ps) done_so_far t w =
     (case fetch_binary T net alpineVer p w of
        None \<Rightarrow> None
      | Some (None, w1) \<Rightarrow> Some (1, t)
      | Some (Some binary, w1) \<Rightarrow>
          if can_write T (outFile p)
          then fetch_all T net alpineVer ps (AList.update (outFile p) (record_of alpineVer p binary) done_so_far)
                 (t\<lparr>binaries := (binaries t)(outFile p \<mapsto> binary)\<rparr>) w1
          else Some (1, t))"

definition build_busybox ::
  "tools \<Rightarrow> (string \<Rightarrow> 'w \<Rightarrow> reply \<times> 'w) \<Rightarrow> string \<Rightarrow> pin list \<Rightarrow> tree \<Rightarrow> 'w \<Rightarrow> (nat \<times> tree) option" where
  "build_busybox T net alpineVer pins t w = fetch_all T net alpineVer pins [] t w"

section \<open>What is written\<close>

lemma fetch_binary_pinned:
  assumes "fetch_binary T net v p w = Some (Some b, w1)"
  shows "sha256 T b = binarySha256 p
    \<and> (\<exists>apk. sha256 T apk = apkSha256 p \<and> extractFromTarGz (gunzipSync T) apk BUSYBOX = Some (Inr (Some b)))"
  using assms by (auto simp: fetch_binary_def split: option.splits sum.splits if_splits)

lemma fetch_all_binaries:
  assumes "fetch_all T net v ps entries t w = Some (code, t')" and "binaries t' f \<noteq> binaries t f"
  shows "\<exists>p \<in> set ps. f = outFile p \<and> (\<exists>b apk. binaries t' f = Some b \<and> sha256 T b = binarySha256 p
           \<and> sha256 T apk = apkSha256 p \<and> extractFromTarGz (gunzipSync T) apk BUSYBOX = Some (Inr (Some b)))"
  using assms
proof (induction ps arbitrary: entries t w)
  case (Cons p ps)
  from Cons.prems obtain b w1 where b: "fetch_binary T net v p w = Some (Some b, w1)"
    and rest: "fetch_all T net v ps (AList.update (outFile p) (record_of v p b) entries) (t\<lparr>binaries := (binaries t)(outFile p \<mapsto> b)\<rparr>) w1 = Some (code, t')"
    by (auto split: option.splits if_splits)
  show ?case
  proof (cases "binaries t' f = ((binaries t)(outFile p \<mapsto> b)) f")
    case True
    with Cons.prems(2) have "f = outFile p" "binaries t' f = Some b" by (auto split: if_splits)
    with fetch_binary_pinned [OF b] show ?thesis by (metis list.set_intros(1))
  next
    case False
    with Cons.IH [OF rest] show ?thesis by auto
  qed
qed (auto split: if_splits)

lemma fetch_all_complete:
  assumes "fetch_all T net v ps entries t w = Some (code, t')" and "code = 0 \<or> provenance t' \<noteq> provenance t"
    and "distinct (map outFile ps)"
  shows "\<forall>p \<in> set ps. \<exists>b. binaries t' (outFile p) = Some b \<and> sha256 T b = binarySha256 p"
  using assms
proof (induction ps arbitrary: entries t w)
  case (Cons p ps)
  from Cons.prems(1,2) obtain b w1 where b: "fetch_binary T net v p w = Some (Some b, w1)"
    and rest: "fetch_all T net v ps (AList.update (outFile p) (record_of v p b) entries) (t\<lparr>binaries := (binaries t)(outFile p \<mapsto> b)\<rparr>) w1 = Some (code, t')"
    by (auto split: option.splits if_splits)
  have "binaries t' (outFile p) = Some b"
  proof (rule ccontr)
    assume "binaries t' (outFile p) \<noteq> Some b"
    then have "binaries t' (outFile p) \<noteq> binaries (t\<lparr>binaries := (binaries t)(outFile p \<mapsto> b)\<rparr>) (outFile p)" by simp
    from fetch_all_binaries [OF rest this] Cons.prems(3) show False by auto
  qed
  moreover have "\<forall>p \<in> set ps. \<exists>b. binaries t' (outFile p) = Some b \<and> sha256 T b = binarySha256 p"
    using Cons.IH [OF rest] Cons.prems(2,3) by simp
  ultimately show ?case using fetch_binary_pinned [OF b] by simp
qed simp

section \<open>Archives\<close>

text \<open>A writer of archives: each member is given by its name, the bytes between name and size, those
  behind the size, and its content.\<close>

record member =
  m_name :: string
  m_mid :: bytes
  m_tail :: bytes
  m_content :: bytes

fun octal :: "nat \<Rightarrow> nat \<Rightarrow> string" where
  "octal 0 n = []"
| "octal (Suc k) n = octal k (n div 8) @ [digit_char (n mod 8)]"

definition tar_member :: "member \<Rightarrow> bytes" where
  "tar_member m =
     utf8_bytes (m_name m) @ replicate (100 - length (m_name m)) 0 @ m_mid m
     @ utf8_bytes (octal 11 (length (m_content m))) @ [0] @ m_tail m
     @ m_content m @ replicate (nat (padded (int (length (m_content m)))) - length (m_content m)) 0"

definition member_ok :: "member \<Rightarrow> bool" where
  "member_ok m =
     (m_name m \<noteq> [] \<and> length (m_name m) \<le> 100 \<and> CHR 0x00 \<notin> set (m_name m)
      \<and> length (m_mid m) = 24 \<and> length (m_tail m) = 376 \<and> length (m_content m) < 8 ^ 11)"

definition tar_archive :: "member list \<Rightarrow> bytes" where
  "tar_archive ms = concat (map tar_member ms) @ replicate 1024 0"

lemma octal_length [simp]: "length (octal k n) = k"
  by (induction k arbitrary: n) simp_all

lemma octal_digits: "list_all octal_digit (octal k n)"
  by (induction k arbitrary: n) (simp_all add: octal_digit_def digit_char_digit digit_val_char)

lemma octal_value_octal: "octal_value (octal k n) = n mod 8 ^ k"
proof (induction k arbitrary: n)
  case (Suc k)
  have "n mod 8 ^ Suc k = 8 * (n div 8 mod 8 ^ k) + n mod 8" by (simp add: mod_mult2_eq)
  with Suc show ?case by (simp add: octal_value_def digit_val_char)
qed (simp add: octal_value_def)

lemma parse_octal_octal:
  assumes "n < 8 ^ k"
  shows "parse_octal (octal k n) = int n"
proof (cases "octal k n")
  case Nil
  then have "k = 0" using octal_length [of k n] by simp
  with assms show ?thesis by (simp add: parse_octal_def trim_start_def octal_value_def)
next
  case (Cons c r)
  have "is_digit c" using octal_digits [of k n] Cons by (simp add: octal_digit_def)
  then have "trim_start (octal k n) = octal k n" "c \<noteq> CHR ''-''" "c \<noteq> CHR ''+''"
    using Cons digit_neq [of c] by (auto simp: trim_start_def digit_not_space)
  moreover have "takeWhile octal_digit (octal k n) = octal k n"
    using octal_digits [of k n] by (simp add: takeWhile_eq_all_conv list_all_iff)
  ultimately show ?thesis
    using Cons octal_value_octal [of k n] assms by (simp add: parse_octal_def Let_def)
qed

lemma zero_chars [simp]: "utf8_string (replicate n 0) = replicate n (CHR 0x00)"
  by (simp add: utf8_string_def char_ofI)

lemma zero_char: "utf8_string [0] = [CHR 0x00]"
  using zero_chars [of 1] by simp

lemma utf8_string_append [simp]: "utf8_string (a @ b) = utf8_string a @ utf8_string b"
  by (simp add: utf8_string_def)

lemma cut_nul_field: "CHR 0x00 \<notin> set s \<Longrightarrow> cut_nul (s @ replicate n (CHR 0x00)) = s"
proof -
  assume s: "CHR 0x00 \<notin> set s"
  have "takeWhile (\<lambda>c. c \<noteq> CHR 0x00) (s @ r) = s @ takeWhile (\<lambda>c. c \<noteq> CHR 0x00) r"
    "dropWhile (\<lambda>c. c \<noteq> CHR 0x00) (s @ r) = dropWhile (\<lambda>c. c \<noteq> CHR 0x00) r" for r
    using s by (induction s) auto
  then show ?thesis by (simp add: cut_nul_def dropWhile_replicate takeWhile_replicate)
qed

lemma text_range_at:
  "text_range (pre @ r) (int (length pre) + int a) (int (length pre) + int b) = utf8_string (take (b - a) (drop a r))"
  by (simp add: text_range_def nat_int_add)

lemma subarray_at:
  "subarray (pre @ r) (int (length pre) + int a) (int (length pre) + int b) = take (b - a) (drop a r)"
  by (simp add: subarray_def Let_def nat_int_add)

lemma padded_ge: "int n \<le> padded (int n)"
  by (simp add: padded_def BLOCK_def)

lemma member_fields:
  assumes "member_ok m"
  shows "cut_nul (text_range (pre @ tar_member m @ r) (int (length pre)) (int (length pre) + 100)) = m_name m"
    "parse_octal (cut_nul (text_range (pre @ tar_member m @ r) (int (length pre) + 124) (int (length pre) + 136))) = int (length (m_content m))"
    "subarray (pre @ tar_member m @ r) (int (length pre) + BLOCK) (int (length pre) + BLOCK + int (length (m_content m))) = m_content m"
proof -
  let ?n = "length (m_content m)"
  let ?field = "utf8_bytes (m_name m) @ replicate (100 - length (m_name m)) 0"
  let ?size = "utf8_bytes (octal 11 ?n) @ [0]"
  let ?body = "m_content m @ replicate (nat (padded (int ?n)) - ?n) 0"
  have t: "tar_member m = ?field @ m_mid m @ ?size @ m_tail m @ ?body" by (simp add: tar_member_def)
  have l: "length ?field = 100" "length (m_mid m) = 24" "length ?size = 12" "length (m_tail m) = 376"
    using assms by (simp_all add: member_ok_def)
  have "take 100 (tar_member m @ r) = ?field" using l(1) by (simp add: t)
  then show "cut_nul (text_range (pre @ tar_member m @ r) (int (length pre)) (int (length pre) + 100)) = m_name m"
    using text_range_at [of pre "tar_member m @ r" 0 100] assms by (simp add: cut_nul_field member_ok_def)
  have "drop 124 (tar_member m @ r) = ?size @ m_tail m @ ?body @ r"
    using l by (simp add: t del: replicate_append_same)
  then have "take 12 (drop 124 (tar_member m @ r)) = ?size" using l(3) by simp
  moreover have "CHR 0x00 \<notin> set (octal 11 ?n)"
    using octal_digits [of 11 ?n] by (auto simp: list_all_iff octal_digit_def is_digit_def)
  ultimately show "parse_octal (cut_nul (text_range (pre @ tar_member m @ r) (int (length pre) + 124) (int (length pre) + 136))) = int ?n"
    using text_range_at [of pre "tar_member m @ r" 124 136] cut_nul_field [of "octal 11 ?n" 1] assms
    by (simp add: parse_octal_octal member_ok_def zero_char)
  have "drop 512 (tar_member m @ r) = ?body @ r" using l by (simp add: t)
  then show "subarray (pre @ tar_member m @ r) (int (length pre) + BLOCK) (int (length pre) + BLOCK + int ?n) = m_content m"
    using subarray_at [of pre "tar_member m @ r" 512 "512 + ?n"] by (simp add: BLOCK_def add.assoc)
qed

lemma member_length: "member_ok m \<Longrightarrow> int (length (tar_member m)) = BLOCK + padded (int (length (m_content m)))"
  using padded_ge [of "length (m_content m)"] by (simp add: tar_member_def member_ok_def BLOCK_def)

lemma extract_archive:
  assumes "list_all member_ok ms"
  shows "extract_from (pre @ tar_archive ms) target (int (length pre)) = Some (map_of (map (\<lambda>m. (m_name m, m_content m)) ms) target)"
  using assms
proof (induction ms arbitrary: pre)
  case Nil
  have "cut_nul (text_range (pre @ replicate 1024 0) (int (length pre)) (int (length pre) + 100)) = []"
    using text_range_at [of pre "replicate 1024 0" 0 100] cut_nul_field [of "[]" 100] by simp
  then show ?case by (subst extract_from.simps) (simp add: tar_archive_def BLOCK_def)
next
  case (Cons m ms)
  then have m: "member_ok m" by simp
  have split: "pre @ tar_archive (m # ms) = pre @ tar_member m @ tar_archive ms" by (simp add: tar_archive_def)
  note len = member_length [OF m]
  note f = member_fields [OF m, of pre "tar_archive ms", folded split]
  have ne: "m_name m \<noteq> []" using m by (simp add: member_ok_def)
  have "0 \<le> padded (int (length (m_content m)))" using padded_ge [of "length (m_content m)"] by linarith
  then have fits: "int (length pre) + BLOCK \<le> int (length (pre @ tar_archive (m # ms)))" using len unfolding split by simp
  have next_pos: "int (length pre) + BLOCK + padded (int (length (m_content m))) = int (length (pre @ tar_member m))" using len by simp
  have "extract_from ((pre @ tar_member m) @ tar_archive ms) target (int (length (pre @ tar_member m)))
      = Some (map_of (map (\<lambda>m. (m_name m, m_content m)) ms) target)"
    using Cons.IH [of "pre @ tar_member m"] Cons.prems by simp
  then have later: "extract_from (pre @ tar_archive (m # ms)) target (int (length pre) + BLOCK + padded (int (length (m_content m))))
      = Some (map_of (map (\<lambda>m. (m_name m, m_content m)) ms) target)"
    unfolding split next_pos by (simp only: append_assoc)
  show ?case
    by (subst extract_from.simps) (simp add: fits [simplified] f(1-3) ne later Let_def)
qed

section \<open>Properties\<close>

text \<open>C38. The reader of archives finds what was packed: of any archive whose members fit the format it
  returns the content of the first member with the name, null when there is none, and it ends.\<close>

theorem archive_read_back:
  assumes "list_all member_ok ms" and "gunzip gz = Inr (tar_archive ms)"
  shows "extractFromTarGz gunzip gz target = Some (Inr (map_of (map (\<lambda>m. (m_name m, m_content m)) ms) target))"
  using assms(2) extract_archive [OF assms(1), of "[]" target] by (simp add: extractFromTarGz_def)

definition sample_member :: member where
  "sample_member = \<lparr>m_name = BUSYBOX, m_mid = replicate 24 0, m_tail = replicate 376 0, m_content = [1, 2, 3]\<rparr>"

lemma sample_member_ok: "member_ok sample_member"
  by (simp add: member_ok_def sample_member_def BUSYBOX_def)

theorem archive_read_back_witness:
  "extractFromTarGz (\<lambda>gz. Inr gz) (tar_archive [sample_member]) BUSYBOX = Some (Inr (Some [1, 2, 3]))"
  using archive_read_back [of "[sample_member]" "\<lambda>gz. Inr gz" "tar_archive [sample_member]" BUSYBOX] sample_member_ok
  by (simp add: sample_member_def)

text \<open>C37. Only binaries with their pinned hash are written, and each comes from a package with its pinned
  hash, whatever the network delivers.\<close>

theorem only_pinned_binaries:
  assumes "build_busybox T net alpineVer pins t w = Some (code, t')" and "binaries t' f \<noteq> binaries t f"
  shows "\<exists>p \<in> set pins. f = outFile p \<and> (\<exists>b apk. binaries t' f = Some b \<and> sha256 T b = binarySha256 p
           \<and> sha256 T apk = apkSha256 p \<and> extractFromTarGz (gunzipSync T) apk BUSYBOX = Some (Inr (Some b)))"
  by (rule fetch_all_binaries [OF assms(1) [unfolded build_busybox_def] assms(2)])

definition sample_tools :: tools where
  "sample_tools = \<lparr>sha256 = (\<lambda>b. dec (length b)), gunzipSync = (\<lambda>gz. Inr (tar_archive [sample_member])),
     can_write = (\<lambda>_. True), started_at = ''now''\<rparr>"

definition sample_pin :: pin where
  "sample_pin = \<lparr>alpineArch = ''x86_64'', runtimeArch = ''x64'', packageVersion = ''1'', apkSha256 = dec 2, binarySha256 = dec 3\<rparr>"

definition sample_tree :: tree where "sample_tree = \<lparr>binaries = (\<lambda>_. None), provenance = None\<rparr>"

lemma sample_build:
  "\<exists>t'. build_busybox sample_tools (\<lambda>url w. (Reply 200 None (Inr [8, 9]), w)) ''3'' [sample_pin] sample_tree () = Some (0, t')
     \<and> binaries t' (outFile sample_pin) = Some [1, 2, 3]"
proof -
  have d: "download (\<lambda>url w. (Reply 200 None (Inr [8, 9]), w)) url () = Some (Inr [8, 9], ())" for url
    by (subst download.simps) simp
  have x: "extractFromTarGz (gunzipSync sample_tools) gz BUSYBOX = Some (Inr (Some [1, 2, 3]))" for gz
    using extract_archive [of "[sample_member]" "[]" BUSYBOX] sample_member_ok
    by (simp add: sample_tools_def extractFromTarGz_def sample_member_def)
  have "fetch_binary sample_tools (\<lambda>url w. (Reply 200 None (Inr [8, 9]), w)) ''3'' sample_pin () = Some (Some [1, 2, 3], ())"
    unfolding fetch_binary_def d x by (simp add: sample_tools_def sample_pin_def numeral_2_eq_2 numeral_3_eq_3)
  then show ?thesis by (simp add: build_busybox_def sample_tools_def)
qed

theorem only_pinned_binaries_witness:
  "\<exists>t'. build_busybox sample_tools (\<lambda>url w. (Reply 200 None (Inr [8, 9]), w)) ''3'' [sample_pin] sample_tree () = Some (0, t')
     \<and> sha256 sample_tools (the (binaries t' (outFile sample_pin))) = binarySha256 sample_pin"
proof -
  obtain t' where t: "build_busybox sample_tools (\<lambda>url w. (Reply 200 None (Inr [8, 9]), w)) ''3'' [sample_pin] sample_tree () = Some (0, t')"
    "binaries t' (outFile sample_pin) = Some [1, 2, 3]" using sample_build by blast
  then have "binaries t' (outFile sample_pin) \<noteq> binaries sample_tree (outFile sample_pin)" by (simp add: sample_tree_def)
  from only_pinned_binaries [OF t(1) this] t show ?thesis by auto
qed

text \<open>The provenance file never describes an incomplete set: when it is written, or the script reports
  success, every pinned binary is there with its hash.\<close>

theorem provenance_complete:
  assumes "build_busybox T net alpineVer pins t w = Some (code, t')" and "distinct (map outFile pins)"
    and "code = 0 \<or> provenance t' \<noteq> provenance t" and "p \<in> set pins"
  shows "\<exists>b. binaries t' (outFile p) = Some b \<and> sha256 T b = binarySha256 p"
  using fetch_all_complete [OF assms(1) [unfolded build_busybox_def] assms(3,2)] assms(4) by blast

theorem provenance_complete_witness:
  "\<exists>t'. build_busybox sample_tools (\<lambda>url w. (Reply 200 None (Inr [8, 9]), w)) ''3'' [sample_pin] sample_tree () = Some (0, t')
     \<and> (\<exists>b. binaries t' (outFile sample_pin) = Some b \<and> sha256 sample_tools b = binarySha256 sample_pin)"
proof -
  obtain t' where t: "build_busybox sample_tools (\<lambda>url w. (Reply 200 None (Inr [8, 9]), w)) ''3'' [sample_pin] sample_tree () = Some (0, t')"
    using sample_build by blast
  from provenance_complete [OF t, of sample_pin] t show ?thesis by simp
qed

end
