(* ===== verification/VersionList.thy ===== *)
theory VersionList
  imports VscodiumFeed
begin

text \<open>
  \<^verbatim>\<open>scripts/download-vscodium-versions.mjs\<close>: the generator of the list of VSCodium releases that the
  extension ships. It has copies of the functions that \<^verbatim>\<open>src/remote/vscodiumFeed.ts\<close> uses at run time;
  the comparison is translated from the copy and shown to agree, \<^verbatim>\<open>parseVersion\<close> and \<^verbatim>\<open>parseVersions\<close> are
  the same text as there. \<open>pages\<close> is what the network answers for each page, \<^term>\<open>None\<close> for a failure or a
  status that is not OK; writing the file does not fail.
\<close>

section \<open>The comparison\<close>

fun differs_at :: "nat \<Rightarrow> nat \<Rightarrow> int list \<Rightarrow> int list \<Rightarrow> int" where
  "differs_at 0 i ax bx = 0"
| "differs_at (Suc n) i ax bx = (if ax ! i \<noteq> bx ! i then bx ! i - ax ! i else differs_at n (Suc i) ax bx)"

definition compareVersionsDesc :: "string \<Rightarrow> string \<Rightarrow> int result" where
  "compareVersionsDesc a b =
     (case parseVersion a of
        Inl e \<Rightarrow> Inl e
      | Inr ax \<Rightarrow> (case parseVersion b of Inl e \<Rightarrow> Inl e | Inr bx \<Rightarrow> Inr (differs_at 4 0 ax bx)))"

lemma differs_at_compare: "differs_at n i ax bx = compare_from n i bx ax"
  by (induction n arbitrary: i) auto

section \<open>The pages\<close>

definition maxPages :: nat where "maxPages = 50"

function collect :: "(nat \<Rightarrow> string option) \<Rightarrow> nat \<Rightarrow> string list \<Rightarrow> string list" where
  "collect pages page all =
     (if maxPages < page then all
      else case pages page of
             None \<Rightarrow> all
           | Some html \<Rightarrow>
               (let vs = parseVersions html; all' = fold set_add vs all
                in if vs = [] then all
                   else if length all' = length all \<and> 1 < page then all'
                   else collect pages (Suc page) all'))"
  by pat_completeness auto
termination by (relation "measure (\<lambda>(pages, page, all). Suc maxPages - page)") auto

declare collect.simps [simp del]

text \<open>What the script writes; an error of the comparison ends it with status 1 and nothing written.\<close>

definition generate :: "(nat \<Rightarrow> string option) \<Rightarrow> string list result" where
  "generate pages = sort_desc (collect pages 1 [])"

section \<open>Lemmas\<close>

lemma insert_desc_set [simp]: "set (insert_desc x ys) = insert x (set ys)"
  by (induction ys) auto

lemma insert_desc_distinct: "distinct (x # ys) \<Longrightarrow> distinct (insert_desc x ys)"
  by (induction ys) auto

definition newer_eq :: "string \<Rightarrow> string \<Rightarrow> bool" where
  "newer_eq a b = (compare (the (version_of a)) (the (version_of b)) \<ge> 0)"

lemma newer_trans: "newer_eq a b \<Longrightarrow> newer_eq b c \<Longrightarrow> newer_eq a c"
  using compare_from_trans [of 4 0 "the (version_of c)" "the (version_of b)" "the (version_of a)"]
    compare_from_flip [of 4 0 "the (version_of a)" "the (version_of b)"]
    compare_from_flip [of 4 0 "the (version_of b)" "the (version_of c)"]
    compare_from_flip [of 4 0 "the (version_of a)" "the (version_of c)"]
  by (simp add: newer_eq_def compare_def)

lemma newer_total: "\<not> newer_eq a b \<Longrightarrow> newer_eq b a"
  using compare_from_flip [of 4 0 "the (version_of a)" "the (version_of b)"] by (simp add: newer_eq_def compare_def)

lemma insert_desc_step: "insert_desc x (y # ys) = (if newer_eq y x then y # insert_desc x ys else x # y # ys)"
  by (simp add: newer_eq_def)

lemma insert_desc_ordered: "sorted_wrt newer_eq ys \<Longrightarrow> sorted_wrt newer_eq (insert_desc x ys)"
proof (induction ys)
  case (Cons y ys)
  show ?case
  proof (cases "newer_eq y x")
    case True
    with Cons show ?thesis by (simp add: insert_desc_step del: insert_desc.simps)
  next
    case False
    then have "\<forall>z \<in> set (y # ys). newer_eq x z" using newer_total [OF False] Cons.prems newer_trans by (metis set_ConsD sorted_wrt.simps(2))
    with False Cons.prems show ?thesis by (simp add: insert_desc_step del: insert_desc.simps)
  qed
qed simp

lemma fold_insert_desc:
  assumes "distinct (vs @ acc)" and "sorted_wrt newer_eq acc"
  shows "set (fold insert_desc vs acc) = set vs \<union> set acc \<and> distinct (fold insert_desc vs acc) \<and> sorted_wrt newer_eq (fold insert_desc vs acc)"
  using assms
proof (induction vs arbitrary: acc)
  case (Cons v vs)
  then have "distinct (vs @ insert_desc v acc)" "sorted_wrt newer_eq (insert_desc v acc)"
    using insert_desc_distinct [of v acc] insert_desc_ordered by auto
  from Cons.IH [OF this] show ?case by auto
qed simp

lemma sort_desc_correct:
  assumes "sort_desc vs = Inr ws" and "distinct vs"
  shows "set ws = set vs \<and> distinct ws \<and> sorted_wrt newer_eq ws"
proof (cases "List.find (\<lambda>v. version_of v = None) vs")
  case None
  with assms fold_insert_desc [of vs "[]"] show ?thesis by (simp add: sort_desc_def)
next
  case (Some v)
  then have "version_of v = None" by (auto simp: find_Some_iff)
  then have "parseVersion v \<noteq> Inr t" for t by (auto simp: version_of_def)
  with Some assms(1) have "ws = vs \<and> length vs < 2" by (auto simp: sort_desc_def split: if_splits sum.splits)
  with assms(2) show ?thesis by (cases vs) (auto simp: Suc_le_eq)
qed

abbreviation page_versions :: "(nat \<Rightarrow> string option) \<Rightarrow> nat \<Rightarrow> string set" where
  "page_versions pages j \<equiv> (case pages j of None \<Rightarrow> {} | Some html \<Rightarrow> set (parseVersions html))"

lemma set_fold_set_add: "set (fold set_add xs acc) = set xs \<union> set acc"
  by (induction xs arbitrary: acc) auto

lemma collect_distinct: "distinct all \<Longrightarrow> distinct (collect pages page all)"
proof (induction pages page all rule: collect.induct)
  case (1 pages page all)
  then show ?case
    by (subst collect.simps) (auto simp: Let_def fold_set_add split: option.split)
qed

lemma collect_before:
  assumes "pages k = None" and "page \<le> k"
  shows "set (collect pages page all) \<subseteq> set all \<union> (\<Union>j \<in> {page..<k}. page_versions pages j)"
  using assms
proof (induction pages page all rule: collect.induct)
  case (1 pages page all)
  show ?case
  proof (cases "pages page")
    case None
    then show ?thesis by (subst collect.simps) auto
  next
    case (Some html)
    let ?all = "fold set_add (parseVersions html) all"
    have all: "set ?all = set (parseVersions html) \<union> set all" by (rule set_fold_set_add)
    have lt: "page < k" using Some 1(2,3) by (cases "page = k") auto
    show ?thesis
    proof (cases "maxPages < page \<or> parseVersions html = [] \<or> length ?all = length all \<and> 1 < page")
      case True
      then have "set (collect pages page all) \<subseteq> set all \<union> set (parseVersions html)"
        using Some all by (subst collect.simps) (auto simp: Let_def)
      with Some lt show ?thesis by force
    next
      case False
      then have "collect pages page all = collect pages (Suc page) ?all"
        using Some by (subst collect.simps) (auto simp: Let_def)
      moreover have "set (collect pages (Suc page) ?all) \<subseteq> set ?all \<union> (\<Union>j \<in> {Suc page..<k}. page_versions pages j)"
        using 1(1) [OF _ Some refl refl] False 1(2) lt by auto
      moreover have "{page..<k} = insert page {Suc page..<k}" using lt by auto
      ultimately show ?thesis using Some all by auto
    qed
  qed
qed

lemma collect_grows: "set all \<subseteq> set (collect pages page all)"
proof (induction pages page all rule: collect.induct)
  case (1 pages page all)
  show ?case
  proof (cases "pages page")
    case (Some html)
    let ?all = "fold set_add (parseVersions html) all"
    have "set (collect pages (Suc page) ?all) \<supseteq> set all"
      if "\<not> maxPages < page" "parseVersions html \<noteq> []" "\<not> (length ?all = length all \<and> 1 < page)"
      using 1 [OF that(1) Some refl refl that(2,3)] by (auto simp: set_fold_set_add)
    then show ?thesis using Some by (subst collect.simps) (auto simp: Let_def set_fold_set_add)
  qed (subst collect.simps, simp)
qed

section \<open>Properties\<close>

lemma comparison_in_sync:
  "parseVersion a = Inr x \<Longrightarrow> parseVersion b = Inr y \<Longrightarrow> compareVersionsDesc a b = Inr (compare y x)"
  by (simp add: compareVersionsDesc_def compare_def differs_at_compare)

text \<open>A page that cannot be fetched cuts the list off without an error: what is written has only
  releases of the pages before it, and nothing at all when it is the first page.\<close>

theorem failed_page_cuts_list:
  assumes "pages k = None" and "1 \<le> k" and "generate pages = Inr vs"
  shows "set vs \<subseteq> (\<Union>j \<in> {1..<k}. page_versions pages j)"
  using sort_desc_correct [OF assms(3) [unfolded generate_def] collect_distinct] collect_before [of pages k 1 "[]", OF assms(1,2)] by auto

theorem failed_page_cuts_list_witness: "generate (\<lambda>_. None) = Inr []"
proof -
  have g: "generate (\<lambda>_. None) = Inr []" unfolding generate_def by (subst collect.simps) (simp add: sort_desc_def)
  from failed_page_cuts_list [OF _ _ this, of 1] g show ?thesis by simp
qed

text \<open>The list that is written names every release once, newest first, and has all of the first page.\<close>

theorem generated_list_ordered:
  assumes "generate pages = Inr vs"
  shows "distinct vs \<and> sorted_wrt newer_eq vs \<and> page_versions pages 1 \<subseteq> set vs"
proof -
  have "distinct (collect pages 1 [])" by (rule collect_distinct) simp
  moreover have "page_versions pages 1 \<subseteq> set (collect pages 1 [])"
  proof (cases "pages 1")
    case (Some html)
    have "collect pages 1 [] = (if parseVersions html = [] then [] else collect pages 2 (fold set_add (parseVersions html) []))"
      using Some by (subst collect.simps) (simp add: maxPages_def Let_def numeral_2_eq_2)
    with Some show ?thesis using collect_grows [of "fold set_add (parseVersions html) []" pages 2] by (auto simp: set_fold_set_add)
  qed simp
  ultimately show ?thesis using sort_desc_correct [OF assms [unfolded generate_def]] by auto
qed

theorem generated_list_ordered_witness:
  "\<exists>vs. generate (\<lambda>p. if p = 1 then Some (TAG_PATH @ ''1.2'') else None) = Inr vs \<and> ''1.2'' \<in> set vs"
proof -
  let ?pages = "\<lambda>p. if p = (1::nat) then Some (TAG_PATH @ ''1.2'') else None"
  have v: "parseVersions (TAG_PATH @ ''1.2'') = [''1.2'']" by code_simp
  have "collect ?pages 1 [] = [''1.2'']"
    by (subst collect.simps) (simp add: maxPages_def v set_add_def collect.simps [of _ "Suc (Suc 0)"] collect.simps [of _ "Suc 1"])
  then have g: "generate ?pages = Inr [''1.2'']"
    by (auto simp: generate_def sort_desc_def split: option.split sum.split)
  from generated_list_ordered [OF g] v g show ?thesis by simp
qed

end
