(* ===== verification/Spec2Isabelle.thy ===== *)
theory Spec2Isabelle
  imports TransportRefs Destination Transport LocalServer AskpassServer SessionSecret Health VscodiumFeed FolderHistory LogTailer SshSession RemoteFiles Lifecycle ExecServer Download Install ResolveFlow SshConfig Platform Logger TempDir ArgvPatch HostTree Activation ConfigPage AskpassMain AskpassSpec LocalMain GoServer VsixBuild BusyboxBuild VersionList
begin

text \<open>
  \<^bold>\<open>Verification library of the Zygos Remote SSH extension\<close>

  Zygos is an extension for editors built on VS Code. It opens a remote window on a host that is
  reached with the system's ssh: it decodes the destination from the authority of the window, starts
  ssh (directly, or through a detached session process that outlives the window), answers ssh's
  password prompts, installs and starts the editor's server on the host, keeps a Go transport
  running there, and hands the editor tunnelled connections through a SOCKS forward. The theories
  below follow the files of the program; paths are relative to the repository.

  \<^bold>\<open>How the parts interact\<close>

  \<^enum> \<^verbatim>\<open>src/extension.ts\<close> (\<open>Activation\<close>) checks the editor and conflicting extensions, patches argv.json
    (\<open>ArgvPatch\<close>), creates the caches and secrets, registers the tree (\<open>HostTree\<close>) and the download
    panel (\<open>ConfigPanel\<close>, \<open>ConfigPage\<close>), and registers the resolver last.
  \<^enum> \<^verbatim>\<open>SshRemoteResolver.resolve\<close> (\<open>ResolveFlow\<close>) parses the authority (\<open>Destination\<close>), reads the ssh
    settings (\<open>SshConfig\<close>), acquires a transport shared by all flows to a host (\<open>Acquire\<close> over the
    state of \<open>Resolver\<close>), and runs the remote lifecycle: probe (\<open>Busybox\<close>), reuse or lock
    (\<open>Lifecycle\<close>), installation (\<open>Install\<close> with \<open>Download\<close>, \<open>Checksum\<close>, \<open>ServerUrl\<close>), token and
    authentication files (\<open>RemoteFiles\<close>), start of the server (\<open>ServerStart\<close>).
  \<^enum> A connection runs commands with a child ssh (\<open>SshConnection\<close>) or through the session server
    (\<open>SshSession\<close>, whose client \<open>SessionClient\<close> talks to \<open>LocalServer\<close>; \<open>LogTailer\<close> follows its log and
    \<open>SessionProcess\<close> imitates a child process). Prompts of ssh go to \<open>AskpassMain\<close>, from there to
    \<open>AskpassServer\<close> and its cache \<open>AskpassCache\<close>; the token of the session comes from \<open>SessionSecret\<close>.
  \<^enum> A shared transport is a SOCKS forward (\<open>SocksForward\<close>), the Go transport behind it (\<open>GoTransport\<close>)
    and its client (\<open>Transport\<close>, dialling with \<open>Socks5\<close>); \<open>Health\<close> watches it, \<open>Events\<close> turns its
    sockets into what the editor reads, \<open>ExecServer\<close> runs commands over it for other extensions.

  \<^bold>\<open>Theories and sources\<close>

  Foundations:
  \<^item> \<open>Prelude\<close>: JavaScript strings and numbers, Node's hexadecimal codec, results and promises, and the
    locales \<open>chunk_reader\<close>, \<open>machine\<close> and \<open>settling\<close>.
  \<^item> \<open>Json\<close>, \<open>Base64\<close>, \<open>Paths\<close>: the runtime's JSON, base64 and POSIX path functions, as far as used,
    with their round trips.
  \<^item> \<open>Utf8\<close>: what Node's decoder makes of a piece of text. The code decodes most streams piece by piece,
    so a character that is cut becomes replacement characters; the readers of \<open>LocalServer\<close>,
    \<open>LogTailer\<close>, \<open>AskpassServer\<close> and \<open>AskpassMain\<close> decode each piece, and what is shown of them for
    any cut is for cuts between characters (\<open>whole\<close>).

  Destinations, settings and the editor's side:
  \<^item> \<open>Destination\<close>: \<^verbatim>\<open>src/ssh/destination.ts\<close>. Round trips of the text and of the authority, and what a
    parse accepts and refuses.
  \<^item> \<open>SshConfig\<close>: \<^verbatim>\<open>src/ssh/sshConfig.ts\<close>. Settings of any JSON shape, paths, hosts of the configuration.
  \<^item> \<open>MergeConfig\<close>, \<open>ServerUrl\<close>, \<open>Checksum\<close>: \<^verbatim>\<open>src/platform/mergeConfig.ts\<close>, \<^verbatim>\<open>downloadTypes.ts\<close>,
    \<^verbatim>\<open>src/remote/url.ts\<close>, \<^verbatim>\<open>checksum.ts\<close>. The effective download settings and their types, the
    expansion of address templates, and which hash a tarball is compared with.
  \<^item> \<open>Platform\<close>: \<^verbatim>\<open>src/platform/vscodium.ts\<close>, \<^verbatim>\<open>kiro.ts\<close>, \<^verbatim>\<open>index.ts\<close>, \<^verbatim>\<open>forkTemplates.ts\<close>. The adapters
    and which of the panel's templates agree with them.
  \<^item> \<open>VscodiumFeed\<close>: \<^verbatim>\<open>src/remote/vscodiumFeed.ts\<close>. The nearest release, by the locale \<open>ranking\<close>.
  \<^item> \<open>FolderHistory\<close>, \<open>HostTree\<close>: \<^verbatim>\<open>src/remote/folderHistory.ts\<close>, \<^verbatim>\<open>src/host/treeView.ts\<close>,
    \<^verbatim>\<open>src/host/index.ts\<close>. The recent folders after every sequence of operations, by a reference
    on lists, the tree and the commands on it.
  \<^item> \<open>ArgvPatch\<close>: \<^verbatim>\<open>src/host/argvPatch.ts\<close>, \<^verbatim>\<open>src/platform/argv.ts\<close>. Every state of the disk that a crash
    can leave, and idempotence.
  \<^item> \<open>ConfigPanel\<close>, \<open>ConfigPage\<close>: \<^verbatim>\<open>src/webviews/serverDownloadPanel.ts\<close>,
    \<^verbatim>\<open>resources/serverDownload/app.js\<close>. Both sides of the configuration page and their composition.
  \<^item> \<open>Activation\<close>: \<^verbatim>\<open>src/extension.ts\<close>, \<^verbatim>\<open>src/builtin-disable/index.ts\<close>. The order of activation.
  \<^item> \<open>Logger\<close>, \<open>TempDir\<close>: \<^verbatim>\<open>src/common/logger.ts\<close>, \<^verbatim>\<open>src/common/temp.ts\<close>.

  Passwords:
  \<^item> \<open>AskpassCache\<close>, \<open>AskpassServer\<close>, \<open>SessionSecret\<close>: \<^verbatim>\<open>src/ssh/askpassCache.ts\<close>, \<^verbatim>\<open>askpassServer.ts\<close>,
    \<^verbatim>\<open>sshSessionSecret.ts\<close>. What was stored is what is returned and to whom, expiry, rotation of keys.
  \<^item> \<open>AskpassSpec\<close>: what the cache promises, a map of secrets, and the simulation that shows it.
  \<^item> \<open>AskpassMain\<close>: \<^verbatim>\<open>scripts/askpass/askpass-main.js\<close>, the program that ssh runs, composed with the
    server.

  Running ssh:
  \<^item> \<open>SshConnection\<close>: \<^verbatim>\<open>src/ssh/connection.ts\<close>. Argument lists and one run of ssh as a machine over what
    the child delivers: the result is settled once and complete, standard input is written as far as the pipe drains.
  \<^item> \<open>LocalServer\<close>, \<open>LocalMain\<close>, \<open>SessionClient\<close>, \<open>SessionProcess\<close>, \<open>SshSession\<close>, \<open>LogTailer\<close>: \<^verbatim>\<open>src/ssh/localServer.ts\<close> and
    \<^verbatim>\<open>src/ssh/sshSession/\<close>. Requests need the token, a queued job gets its own output behind its nonce
    wherever it is cut between characters, the tailer emits what was appended, without empty lines.
  \<^item> \<open>ShellQuote\<close>: \<^verbatim>\<open>src/remote/shellQuote.ts\<close>, with a reference reader of shell words.

  The remote host:
  \<^item> \<open>Busybox\<close>, \<open>RemoteFiles\<close>, \<open>Lifecycle\<close>: \<^verbatim>\<open>src/remote/busybox.ts\<close>, \<^verbatim>\<open>connectionToken.ts\<close>,
    \<^verbatim>\<open>authToken.ts\<close>, \<^verbatim>\<open>lifecycle.ts\<close>. The scripts are texts that the code composes, and, beside them,
    functions on the remote files and processes; the lock of several clients is an inductive step
    relation, with what keeps it exclusive and the three things that break it.
  \<^item> \<open>Download\<close>, \<open>Install\<close>: \<^verbatim>\<open>src/remote/download.ts\<close>, \<^verbatim>\<open>install.ts\<close>.
  \<^item> \<open>ExecServer\<close>: \<^verbatim>\<open>src/remote/execServer.ts\<close>.

  Transports and the resolver:
  \<^item> \<open>Socks5\<close>, \<open>Events\<close>: \<^verbatim>\<open>src/net/socks5.ts\<close>, \<^verbatim>\<open>src/net/managedConnection.ts\<close>, \<^verbatim>\<open>src/common/event.ts\<close>.
  \<^item> \<open>Transport\<close>: \<^verbatim>\<open>src/transport/client.ts\<close>, \<^verbatim>\<open>src/transport/zygos.ts\<close>. Responses and frames are read
    independently of the chunks; execution with standard input streams what the process printed.
  \<^item> \<open>GoServer\<close>: \<^verbatim>\<open>go/tunnel/main.go\<close>, the other end: token, the reading of paths, operations on files
    and commands, connected to the client: what was put is got, a command reports its outcome, a path
    that leads out of the write roots as text is refused. Its host has no symbolic links.
  \<^item> \<open>Health\<close>: \<^verbatim>\<open>src/health/\<close>.
  \<^item> \<open>ServerStart\<close>, \<open>SocksForward\<close>, \<open>GoTransport\<close>, \<open>Resolver\<close>, \<open>Acquire\<close>, \<open>ResolveFlow\<close>:
    \<^verbatim>\<open>src/resolver/index.ts\<close>, split by concern: starting the server, the forward, the Go transport, the
    state of the class with its synchronous operations, the sharing of transports, the resolve
    flow. The error properties say what a failure leaves behind.
  \<^item> \<open>TransportRefs\<close>: the life of the transports, a step relation whose steps are the operations of
    \<open>Acquire\<close> and \<open>Resolver\<close> on the maps. Its invariant counts, beside the flows, the references that no
    flow has yet or ever (an abandoned resolve): a transport lives as long as a flow uses it, and the
    deactivation of the extension ends all of them.

  What the build puts into the package:
  \<^item> \<open>BusyboxBuild\<close>, \<open>VersionList\<close>, \<open>VsixBuild\<close>: \<^verbatim>\<open>scripts/download-busybox.mjs\<close>,
    \<^verbatim>\<open>scripts/download-vscodium-versions.mjs\<close>, \<^verbatim>\<open>scripts/build-vsix.mjs\<close>. Only pinned binaries are shipped and
    the tar reader reads back what was packed; the merged manifest has nothing that the vendor strips.

  \<^bold>\<open>Conventions\<close>

  A string holds its UTF-8 bytes. An object of the program is a record; a method is a function from
  state to result and state. What may throw gives an \<^verbatim>\<open>error + value\<close>, what is awaited is a promise:
  a function of the world, and an awaited call may change the whole world, so that other calls
  run in between. A promise that may stay open has an optional result, \<^term>\<open>None\<close>. Event-driven code is
  a state with a step function over its events; a list of events is one interleaving, and the
  statements are over all lists. Log messages are left out, except where a function exists to
  write them. The clock, random bytes, cryptography, the network, the file system where only its
  answers matter, and the packages \<^verbatim>\<open>ssh-config\<close>, \<^verbatim>\<open>jsonc-parser\<close>, \<^verbatim>\<open>cacache\<close> and the editor's interface are
  arguments; what is relied on of them is a named hypothesis that a witness instantiates.

  \<^bold>\<open>Interfaces\<close>

  \<open>chunk_reader\<close> (a reader that depends only on the bytes, not on their cut into events) is interpreted on
  the SOCKS client, the responses and frames of the transport, the output of the session shell and
  the log tailer. \<open>machine\<close> (an invariant that every event keeps) and \<open>settling\<close>, which extends it (what
  is settled once stays), are interpreted on the promises of the SOCKS client, the transport, ssh, the
  session shell, the start of the server, the forward, the monitor, the managed connection and the
  askpass client and the session process, and on the invariants of the cache, the history, the emitter, the log, the restart
  of the transport and the configuration page. \<open>kv_store\<close> is what the askpass cache needs of its
  rows, \<open>ranking\<close> what the selection of a release needs of the comparison.

  \<^bold>\<open>Bounds and fuel\<close>

  The JSON parser has twice the length of its text plus one as fuel, more than the nesting of any
  text of that length. Redirects (5) and retries (2) of a download are the code's constants and are
  decreased; release pages are read with the measure 52 minus the page. Polling loops with a deadline
  take the number of polls that fit into it: 120 for the session's ready file, 60 for the ready file on
  the remote host and for the meta file of the transport, a 250th of the timeout plus one for the
  server's port, a 200th of the timeout plus two for the port of the forward; that these suffice is shown
  with the loops (\<open>port_wait_ends\<close>, which also says how far past the deadline the wait can go). Temporary directories are tried 3 times, standard input is written in
  pieces of 65536 bytes. Where the code has no bound (\<^verbatim>\<open>acquireTransport\<close>, a resolve flow) the result is
  optional and the statements say when it is there; so are a download of \<open>BusyboxBuild\<close>, whose redirects
  have no bound, and its tar reader, which ends on every archive in the format (\<open>archive_read_back\<close>).

  \<^bold>\<open>Not modelled\<close>

  Of the Go server the operations on streams (\<^verbatim>\<open>spawn\<close>, \<^verbatim>\<open>connect\<close>), \<^verbatim>\<open>stat\<close>, \<^verbatim>\<open>readdir\<close>, \<^verbatim>\<open>env\<close>,
  \<^verbatim>\<open>wait-file\<close> and those of \<^verbatim>\<open>zygos.go\<close> are a parameter, and their answers are arguments of the client's
  models; the start of the server and its idle timer are left out. Of the
  scripts that run outside the editor, \<^verbatim>\<open>askpass.sh\<close> and \<^verbatim>\<open>askpass.cmd\<close> only start node on
  \<^verbatim>\<open>askpass-main.js\<close>, and \<^verbatim>\<open>start-server.sh\<close> writes the ready file that \<open>ServerStart\<close> polls. The vendored store \<^verbatim>\<open>vendor/node-dirty\<close>
  is third-party code behind \<open>kv_store\<close>. Of \<^verbatim>\<open>build-vsix.mjs\<close> the copying of files and the calls of
  esbuild and vsce are left out; \<^verbatim>\<open>esbuild.config.mjs\<close> is data, as are HTML and CSS of the page. Within the modelled files the lines not covered are imports, type
  declarations that carry no behaviour, comments, log messages, and icons and texts of the user interface.
\<close>

section \<open>Destinations and the arguments of ssh\<close>

text \<open>C32. A host that looks like an option becomes one. For every text \<open>v\<close> there is an authority whose
  host is \<^verbatim>\<open>-o\<close> followed by \<open>v\<close>; decoding it is not refused, and the ssh that runs
  a command on this host reads \<open>v\<close> as an option of its own (\<^verbatim>\<open>ProxyCommand\<close>, for instance, is executed
  on the local machine) and takes the command for the destination.\<close>

theorem option_as_host:
  assumes "v \<noteq> []" and "opt_extraArgs opts = None" and "command \<noteq> []" and "hd command \<noteq> CHR ''-''"
  shows "decodeAuthority (encodeAuthority \<lparr>dest_host = ''-o'' @ v, dest_user = None, dest_port = None\<rparr>)
         = Inr \<lparr>raw_host = JStr (''-o'' @ v), raw_user = None, raw_port = None\<rparr>
       \<and> (CHR ''o'', v) \<in> set (fst (ssh_reads (buildExecArgs (fromDestination (''-o'' @ v) None None opts) command)))
       \<and> snd (ssh_reads (buildExecArgs (fromDestination (''-o'' @ v) None None opts) command)) = [command]"
proof -
  have last: "ssh_reads [''-o'' @ v, command] = ([(CHR ''o'', v)], [command])"
    using assms(1,3,4) by (cases command) (auto simp: valued_options_def split: list.splits)
  show ?thesis
    using decode_encode [of "\<lparr>dest_host = ''-o'' @ v, dest_user = None, dest_port = None\<rparr>"] last assms(2)
    by (simp add: buildExecArgs_def fromDestination_def newSshConnection_def batchModeArgs_def connectTimeoutArgs_def
        configFileArgs_def raw_of_def valued_options_def truthy_def)
qed

theorem option_as_host_witness:
  "snd (ssh_reads (buildExecArgs (fromDestination ''-oProxyCommand=calc'' None None
     \<lparr>opt_host = [], opt_sshPath = None, opt_configFile = None, opt_extraArgs = None, opt_askpass = None, opt_askpassScript = None,
      opt_askpassMain = None, opt_nodePath = None, opt_handshakeTimeoutMs = None, opt_tcpTimeoutSeconds = None, opt_socksPort = None\<rparr>) ''true''))
   = [''true'']"
  using option_as_host [of "''ProxyCommand=calc''" "\<lparr>opt_host = [], opt_sshPath = None, opt_configFile = None, opt_extraArgs = None, opt_askpass = None, opt_askpassScript = None,
      opt_askpassMain = None, opt_nodePath = None, opt_handshakeTimeoutMs = None, opt_tcpTimeoutSeconds = None, opt_socksPort = None\<rparr>" "''true''"]
  by simp

end
